(* ===== verification/Prelude.thy ===== *)
theory Prelude
  imports Main "HOL-Library.Word"
begin

text \<open>
  Shared vocabulary of the development: the machine types of the Rust sources, results as
  sums, the parts of Rust's standard library the sources use on strings and integers, and
  the generic lemmas the component theories rest on.

  A Rust \<open>&[u8]\<close> or \<open>Bytes\<close> is a list of 8-bit words; a Rust \<open>str\<close> is a HOL \<open>string\<close> whose
  characters are the bytes of its UTF-8 encoding, so \<open>length\<close> is \<open>str::len\<close>. A \<open>u32\<close> that
  is stored or serialised is a 32-bit word. A \<open>usize\<close> is a \<open>nat\<close>; a \<open>u64\<close> amount is a
  \<open>nat\<close> and every place where its width shows (saturation, casts, parsing limits) writes the
  bound out. \<open>Result<T, E>\<close> is \<open>'e + 'a\<close> with \<open>Inl\<close> the error.
\<close>

unbundle bit_operations_syntax

section \<open>Types and collections\<close>

type_synonym u8 = "8 word"
type_synonym u32 = "32 word"
type_synonym u64 = "64 word"
type_synonym bytes = "u8 list"

named_theorems res_simps \<open>unfolding of results and their binding\<close>
named_theorems str_simps \<open>string operations of the Rust standard library\<close>

definition u64_max :: nat where
  "u64_max = 18446744073709551615"

definition u32_max :: nat where
  "u32_max = 4294967295"

definition i64_max :: int where
  "i64_max = 9223372036854775807"

text \<open>\<open>u64::saturating_add\<close> and \<open>u64::saturating_sub\<close> (the latter is subtraction on \<open>nat\<close>).\<close>

definition saturating_add :: "nat \<Rightarrow> nat \<Rightarrow> nat" where
  "saturating_add a b = min (a + b) u64_max"

text \<open>The cast \<open>n as i64\<close> of a \<open>u64\<close>: two's complement reinterpretation.\<close>

definition as_i64 :: "nat \<Rightarrow> int" where
  "as_i64 n = (if int n \<le> i64_max then int n else int n - 18446744073709551616)"

section \<open>Results\<close>

definition rbind :: "'e + 'a \<Rightarrow> ('a \<Rightarrow> 'e + 'b) \<Rightarrow> 'e + 'b" where
  "rbind m f = (case m of Inl e \<Rightarrow> Inl e | Inr x \<Rightarrow> f x)"

definition rmap_err :: "('e \<Rightarrow> 'f) \<Rightarrow> 'e + 'a \<Rightarrow> 'f + 'a" where
  "rmap_err g m = (case m of Inl e \<Rightarrow> Inl (g e) | Inr x \<Rightarrow> Inr x)"

definition ok_or :: "'e \<Rightarrow> 'a option \<Rightarrow> 'e + 'a" where
  "ok_or e m = (case m of None \<Rightarrow> Inl e | Some x \<Rightarrow> Inr x)"

text \<open>Collecting an iterator of results: the first error wins.\<close>

fun rmapM :: "('a \<Rightarrow> 'e + 'b) \<Rightarrow> 'a list \<Rightarrow> 'e + 'b list" where
  "rmapM f [] = Inr []"
| "rmapM f (x # xs) = rbind (f x) (\<lambda>y. rbind (rmapM f xs) (\<lambda>ys. Inr (y # ys)))"

lemma rbind_simps [simp, res_simps]:
  "rbind (Inl e) f = Inl e"
  "rbind (Inr x) f = f x"
  by (simp_all add: rbind_def)

lemma rmap_err_simps [simp, res_simps]:
  "rmap_err g (Inl e) = Inl (g e)"
  "rmap_err g (Inr x) = Inr x"
  by (simp_all add: rmap_err_def)

lemma ok_or_simps [simp, res_simps]:
  "ok_or e None = Inl e"
  "ok_or e (Some x) = Inr x"
  by (simp_all add: ok_or_def)

lemma rbind_eq_Inr: "rbind m f = Inr y \<longleftrightarrow> (\<exists>x. m = Inr x \<and> f x = Inr y)"
  by (cases m) auto

lemma rbind_eq_Inl: "rbind m f = Inl e \<longleftrightarrow> m = Inl e \<or> (\<exists>x. m = Inr x \<and> f x = Inl e)"
  by (cases m) auto

lemma rmap_err_eq_Inr: "rmap_err g m = Inr x \<longleftrightarrow> m = Inr x"
  by (cases m) auto

lemma ok_or_eq_Inr: "ok_or e m = Inr x \<longleftrightarrow> m = Some x"
  by (cases m) auto

lemmas res_iffs = rbind_eq_Inr rbind_eq_Inl rmap_err_eq_Inr ok_or_eq_Inr

lemma rbind_cong [fundef_cong]:
  "m = m' \<Longrightarrow> (\<And>x. m' = Inr x \<Longrightarrow> f x = g x) \<Longrightarrow> rbind m f = rbind m' g"
  by (cases m') auto

lemma rmapM_Inr: "(\<And>x. x \<in> set xs \<Longrightarrow> f x = Inr (g x)) \<Longrightarrow> rmapM f xs = Inr (map g xs)"
  by (induction xs) auto

lemma rmapM_eq_Inr: "rmapM f xs = Inr ys \<longleftrightarrow> list_all2 (\<lambda>x y. f x = Inr y) xs ys"
  by (induction xs arbitrary: ys) (auto simp: rbind_eq_Inr list_all2_Cons1)

section \<open>Bytes and strings\<close>

definition as_bytes :: "string \<Rightarrow> bytes" where
  "as_bytes s = map (\<lambda>c. word_of_nat (of_char c)) s"

definition str_of_bytes :: "bytes \<Rightarrow> string" where
  "str_of_bytes bs = map (\<lambda>b. char_of (unat b)) bs"

text \<open>\<open>str::from_utf8\<close>: the well-formed byte sequences of the Unicode standard (table 3-7).\<close>

definition utf8_cont :: "u8 \<Rightarrow> bool" where
  "utf8_cont b \<longleftrightarrow> 0x80 \<le> b \<and> b \<le> 0xBF"

definition utf8_lead3 :: "u8 \<Rightarrow> u8 \<Rightarrow> bool" where
  "utf8_lead3 a b \<longleftrightarrow>
     (a = 0xE0 \<and> 0xA0 \<le> b \<and> b \<le> 0xBF) \<or>
     (0xE1 \<le> a \<and> a \<le> 0xEC \<and> utf8_cont b) \<or>
     (a = 0xED \<and> 0x80 \<le> b \<and> b \<le> 0x9F) \<or>
     (0xEE \<le> a \<and> a \<le> 0xEF \<and> utf8_cont b)"

definition utf8_lead4 :: "u8 \<Rightarrow> u8 \<Rightarrow> bool" where
  "utf8_lead4 a b \<longleftrightarrow>
     (a = 0xF0 \<and> 0x90 \<le> b \<and> b \<le> 0xBF) \<or>
     (0xF1 \<le> a \<and> a \<le> 0xF3 \<and> utf8_cont b) \<or>
     (a = 0xF4 \<and> 0x80 \<le> b \<and> b \<le> 0x8F)"

fun utf8_valid :: "bytes \<Rightarrow> bool" where
  "utf8_valid [] = True"
| "utf8_valid (a # bs) =
     (if a < 0x80 then utf8_valid bs
      else case bs of
        [] \<Rightarrow> False
      | b # bs1 \<Rightarrow>
          if 0xC2 \<le> a \<and> a \<le> 0xDF then utf8_cont b \<and> utf8_valid bs1
          else case bs1 of
            [] \<Rightarrow> False
          | c # bs2 \<Rightarrow>
              if utf8_lead3 a b then utf8_cont c \<and> utf8_valid bs2
              else case bs2 of
                [] \<Rightarrow> False
              | d # bs3 \<Rightarrow> utf8_lead4 a b \<and> utf8_cont c \<and> utf8_cont d \<and> utf8_valid bs3)"

text \<open>\<open>String::from_utf8\<close>.\<close>

definition from_utf8 :: "bytes \<Rightarrow> string option" where
  "from_utf8 bs = (if utf8_valid bs then Some (str_of_bytes bs) else None)"

text \<open>Prefixes, suffixes and substrings.\<close>

definition starts_with :: "'a list \<Rightarrow> 'a list \<Rightarrow> bool" where
  "starts_with p s \<longleftrightarrow> take (length p) s = p"

definition ends_with :: "'a list \<Rightarrow> 'a list \<Rightarrow> bool" where
  "ends_with p s \<longleftrightarrow> length p \<le> length s \<and> drop (length s - length p) s = p"

definition strip_prefix :: "'a list \<Rightarrow> 'a list \<Rightarrow> 'a list option" where
  "strip_prefix p s = (if starts_with p s then Some (drop (length p) s) else None)"

definition strip_suffix :: "'a list \<Rightarrow> 'a list \<Rightarrow> 'a list option" where
  "strip_suffix p s = (if ends_with p s then Some (take (length s - length p) s) else None)"

fun contains_str :: "'a list \<Rightarrow> 'a list \<Rightarrow> bool" where
  "contains_str p [] = (p = [])"
| "contains_str p (c # s) = (starts_with p (c # s) \<or> contains_str p s)"

fun split_once :: "'a \<Rightarrow> 'a list \<Rightarrow> ('a list \<times> 'a list) option" where
  "split_once c [] = None"
| "split_once c (x # xs) =
     (if x = c then Some ([], xs)
      else case split_once c xs of None \<Rightarrow> None | Some (a, b) \<Rightarrow> Some (x # a, b))"

definition rsplit_once :: "'a \<Rightarrow> 'a list \<Rightarrow> ('a list \<times> 'a list) option" where
  "rsplit_once c s =
     (case split_once c (rev s) of None \<Rightarrow> None | Some (a, b) \<Rightarrow> Some (rev b, rev a))"

fun split_on :: "'a \<Rightarrow> 'a list \<Rightarrow> 'a list list" where
  "split_on c [] = [[]]"
| "split_on c (x # xs) =
     (if x = c then [] # split_on c xs
      else case split_on c xs of [] \<Rightarrow> [[x]] | w # ws \<Rightarrow> (x # w) # ws)"

text \<open>\<open>str::trim_start_matches(c)\<close> and \<open>str::trim_end_matches(c)\<close> for one character.\<close>

definition trim_start_matches :: "'a \<Rightarrow> 'a list \<Rightarrow> 'a list" where
  "trim_start_matches c s = dropWhile (\<lambda>x. x = c) s"

definition trim_end_matches :: "'a \<Rightarrow> 'a list \<Rightarrow> 'a list" where
  "trim_end_matches c s = rev (dropWhile (\<lambda>x. x = c) (rev s))"

text \<open>
  \<open>char::is_whitespace\<close> on the UTF-8 bytes of a string: the number of bytes the first
  character takes if it has the Unicode property \<open>White_Space\<close>, else 0. The arguments are the
  codes of the first one, two and three bytes.
\<close>

definition ws3 :: "nat \<Rightarrow> nat \<Rightarrow> nat \<Rightarrow> bool" where
  "ws3 a b c \<longleftrightarrow>
     (a = 0xE1 \<and> b = 0x9A \<and> c = 0x80) \<or>
     (a = 0xE2 \<and> b = 0x80 \<and> (0x80 \<le> c \<and> c \<le> 0x8A \<or> c = 0xA8 \<or> c = 0xA9 \<or> c = 0xAF)) \<or>
     (a = 0xE2 \<and> b = 0x81 \<and> c = 0x9F) \<or>
     (a = 0xE3 \<and> b = 0x80 \<and> c = 0x80)"

definition ws2 :: "nat \<Rightarrow> nat \<Rightarrow> bool" where
  "ws2 a b \<longleftrightarrow> a = 0xC2 \<and> (b = 0x85 \<or> b = 0xA0)"

definition ws1 :: "nat \<Rightarrow> bool" where
  "ws1 a \<longleftrightarrow> (9 \<le> a \<and> a \<le> 13) \<or> a = 32"

definition ws_len :: "string \<Rightarrow> nat" where
  "ws_len s =
     (case s of
        [] \<Rightarrow> 0
      | a # s1 \<Rightarrow>
          if ws1 (of_char a) then 1
          else case s1 of
            [] \<Rightarrow> 0
          | b # s2 \<Rightarrow>
              if ws2 (of_char a) (of_char b) then 2
              else case s2 of
                [] \<Rightarrow> 0
              | c # _ \<Rightarrow> if ws3 (of_char a) (of_char b) (of_char c) then 3 else 0)"

definition ws_len_rev :: "string \<Rightarrow> nat" where
  "ws_len_rev s =
     (case s of
        [] \<Rightarrow> 0
      | c # s1 \<Rightarrow>
          if ws1 (of_char c) then 1
          else case s1 of
            [] \<Rightarrow> 0
          | b # s2 \<Rightarrow>
              if ws2 (of_char b) (of_char c) then 2
              else case s2 of
                [] \<Rightarrow> 0
              | a # _ \<Rightarrow> if ws3 (of_char a) (of_char b) (of_char c) then 3 else 0)"

function trim_by :: "(string \<Rightarrow> nat) \<Rightarrow> string \<Rightarrow> string" where
  "trim_by f s = (if f s = 0 \<or> s = [] then s else trim_by f (drop (f s) s))"
  by pat_completeness auto
termination
  by (relation "measure (\<lambda>(f, s). length s)") auto

declare trim_by.simps [simp del]

definition trim :: "string \<Rightarrow> string" where
  "trim s = rev (trim_by ws_len_rev (rev (trim_by ws_len s)))"

section \<open>Little-endian integers\<close>

text \<open>\<open>to_le_bytes\<close> of an unsigned integer of \<open>n\<close> bytes, and \<open>from_le_bytes\<close>.\<close>

fun to_le :: "nat \<Rightarrow> 'w::len word \<Rightarrow> bytes" where
  "to_le 0 w = []"
| "to_le (Suc n) w = ucast w # to_le n (drop_bit 8 w)"

fun from_le :: "bytes \<Rightarrow> 'w::len word" where
  "from_le [] = 0"
| "from_le (b # bs) = ucast b OR push_bit 8 (from_le bs)"

definition le32 :: "u32 \<Rightarrow> bytes" where
  "le32 w = to_le 4 w"

definition le64 :: "u64 \<Rightarrow> bytes" where
  "le64 w = to_le 8 w"

lemma length_to_le [simp]: "length (to_le n w) = n"
  by (induction n w rule: to_le.induct) auto

lemma from_to_le: "from_le (to_le n w) = take_bit (8 * n) (w :: 'w::len word)"
proof (induction n w rule: to_le.induct)
  case (2 n w)
  then show ?case
    by (auto simp: bit_eq_iff bit_simps)
qed simp

lemma length_le [simp]: "length (le32 w) = 4" "length (le64 v) = 8"
  by (simp_all add: le32_def le64_def)

lemma from_le_le [simp]: "from_le (le32 w) = w" "from_le (le64 v) = v"
  by (simp_all add: le32_def le64_def from_to_le take_bit_word_eq_self)

section \<open>Numbers in text\<close>

text \<open>\<open>char::to_digit\<close>, \<open>from_str_radix\<close> of the unsigned types and \<open>str::parse\<close>: an optional
  leading \<open>+\<close>, at least one digit, and an error on overflow of the type's maximum.\<close>

definition digit_val :: "nat \<Rightarrow> char \<Rightarrow> nat option" where
  "digit_val radix c =
     (let n = of_char c :: nat;
          d = (if 48 \<le> n \<and> n \<le> 57 then n - 48
               else if 97 \<le> n \<and> n \<le> 122 then n - 87
               else if 65 \<le> n \<and> n \<le> 90 then n - 55 else 36)
      in if d < radix then Some d else None)"

fun digits_val :: "nat \<Rightarrow> nat \<Rightarrow> nat \<Rightarrow> string \<Rightarrow> nat option" where
  "digits_val radix mx acc [] = Some acc"
| "digits_val radix mx acc (c # cs) =
     (case digit_val radix c of
        None \<Rightarrow> None
      | Some d \<Rightarrow> if mx < acc * radix + d then None else digits_val radix mx (acc * radix + d) cs)"

definition from_str_radix :: "nat \<Rightarrow> nat \<Rightarrow> string \<Rightarrow> nat option" where
  "from_str_radix mx radix s =
     (let ds = (case s of [] \<Rightarrow> [] | c # cs \<Rightarrow> if c = CHR ''+'' then cs else s)
      in if ds = [] then None else digits_val radix mx 0 ds)"

definition parse_u64 :: "string \<Rightarrow> nat option" where
  "parse_u64 s = from_str_radix u64_max 10 s"

definition parse_u16 :: "string \<Rightarrow> nat option" where
  "parse_u16 s = from_str_radix 65535 10 s"

definition digit_chr :: "nat \<Rightarrow> char" where
  "digit_chr d = char_of (if d < 10 then 48 + d else 87 + d)"

fun show_radix :: "nat \<Rightarrow> nat \<Rightarrow> string" where
  "show_radix r n =
     (if n < r \<or> r < 2 then [digit_chr n] else show_radix r (n div r) @ [digit_chr (n mod r)])"

declare show_radix.simps [simp del]

definition show_nat :: "nat \<Rightarrow> string" where
  "show_nat n = show_radix 10 n"

text \<open>Formatting \<open>{:0wx}\<close>: lower-case hexadecimal padded with zeros to width \<open>w\<close>.\<close>

definition hex_pad :: "nat \<Rightarrow> nat \<Rightarrow> string" where
  "hex_pad w n = (let h = show_radix 16 n in replicate (w - length h) (CHR ''0'') @ h)"

section \<open>Lemmas on strings and numbers\<close>


lemma str_of_as_bytes [simp]: "str_of_bytes (as_bytes s) = s"
proof -
  have "char_of (unat (word_of_nat (of_char c) :: u8)) = c" for c :: char
    by (simp add: unat_of_nat)
  then show ?thesis by (simp add: str_of_bytes_def as_bytes_def o_def)
qed

lemma as_bytes_str_of [simp]: "as_bytes (str_of_bytes bs) = bs"
proof -
  have "word_of_nat (of_char (char_of (unat b))) = b" for b :: u8
    using unsigned_less [of b, where 'a = nat] by (simp add: word_unat_eq_iff unat_of_nat)
  then show ?thesis by (simp add: str_of_bytes_def as_bytes_def o_def)
qed

lemma length_as_bytes [simp]: "length (as_bytes s) = length s"
  by (simp add: as_bytes_def)

lemma length_str_of_bytes [simp]: "length (str_of_bytes s) = length s"
  by (simp add: str_of_bytes_def)

lemma as_bytes_append [simp]: "as_bytes (s @ t) = as_bytes s @ as_bytes t"
  by (simp add: as_bytes_def)

lemma as_bytes_inject [simp]: "as_bytes s = as_bytes t \<longleftrightarrow> s = t"
  by (metis str_of_as_bytes)

lemma starts_with_append [simp]: "starts_with p (p @ s)"
  by (simp add: starts_with_def)

lemma starts_with_iff: "starts_with p s \<longleftrightarrow> (\<exists>t. s = p @ t)"
  by (metis append_take_drop_id starts_with_append starts_with_def)

lemma strip_prefix_append [simp]: "strip_prefix p (p @ s) = Some s"
  by (simp add: strip_prefix_def)

lemma strip_prefix_eq_Some: "strip_prefix p s = Some t \<longleftrightarrow> s = p @ t"
  by (auto simp: strip_prefix_def starts_with_iff)

lemma ends_with_iff: "ends_with p s \<longleftrightarrow> (\<exists>t. s = t @ p)"
proof
  assume "ends_with p s"
  then show "\<exists>t. s = t @ p"
    unfolding ends_with_def by (metis append_take_drop_id)
qed (auto simp: ends_with_def)

lemma strip_suffix_eq_Some: "strip_suffix p s = Some t \<longleftrightarrow> s = t @ p"
  by (auto simp: strip_suffix_def ends_with_iff)

lemma split_once_append [simp]: "c \<notin> set a \<Longrightarrow> split_once c (a @ c # b) = Some (a, b)"
  by (induction a) auto

lemma split_once_SomeD: "split_once c s = Some (a, b) \<Longrightarrow> s = a @ c # b \<and> c \<notin> set a"
proof (induction s arbitrary: a)
  case (Cons x s)
  show ?case
  proof (cases "x = c")
    case False
    with Cons.prems obtain a' where "split_once c s = Some (a', b)" "a = x # a'"
      by (cases "split_once c s") auto
    with False Cons.IH [of a'] show ?thesis by simp
  qed (use Cons.prems in simp)
qed simp

lemma split_once_eq_Some: "split_once c s = Some (a, b) \<longleftrightarrow> s = a @ c # b \<and> c \<notin> set a"
  using split_once_SomeD by fastforce

lemma split_once_eq_None: "split_once c s = None \<longleftrightarrow> c \<notin> set s"
  by (induction s) (auto split: option.splits)

lemma rsplit_once_eq_Some: "rsplit_once c s = Some (a, b) \<longleftrightarrow> s = a @ c # b \<and> c \<notin> set b"
proof -
  have "rsplit_once c s = Some (a, b) \<longleftrightarrow> split_once c (rev s) = Some (rev b, rev a)"
    by (auto simp: rsplit_once_def split: option.splits)
  also have "\<dots> \<longleftrightarrow> rev s = rev (a @ c # b) \<and> c \<notin> set b"
    by (simp add: split_once_eq_Some)
  finally show ?thesis by (simp only: rev_is_rev_conv)
qed

lemma rsplit_once_eq_None: "rsplit_once c s = None \<longleftrightarrow> c \<notin> set s"
  using split_once_eq_None [of c "rev s"] by (auto simp: rsplit_once_def split: option.splits)
    
lemma contains_str_iff: "contains_str p s \<longleftrightarrow> (\<exists>a b. s = a @ p @ b)"
proof (induction s)
  case (Cons c s)
  have "(\<exists>a b. c # s = a @ p @ b) \<longleftrightarrow> (\<exists>b. c # s = p @ b) \<or> (\<exists>a b. s = a @ p @ b)"
    by (metis append_Cons append_Nil list.inject neq_Nil_conv)
  with Cons show ?case by (simp add: starts_with_iff)
qed simp

lemma split_on_nonempty [simp]: "split_on c s \<noteq> []"
  by (cases s) (auto split: list.splits)

lemma split_on_no_sep: "w \<in> set (split_on c s) \<Longrightarrow> c \<notin> set w"
  by (induction s arbitrary: w) (auto split: list.splits if_splits)

lemma digit_val_chr: "d < r \<Longrightarrow> r \<le> 16 \<Longrightarrow> digit_val r (digit_chr d) = Some d"
  by (auto simp: digit_val_def digit_chr_def Let_def)

lemma digits_val_append:
  "digits_val r mx acc (s @ t) =
     (case digits_val r mx acc s of None \<Rightarrow> None | Some a \<Rightarrow> digits_val r mx a t)"
  by (induction r mx acc s rule: digits_val.induct) (auto split: option.splits)

lemma digits_val_show:
  "2 \<le> r \<Longrightarrow> r \<le> 16 \<Longrightarrow> n \<le> mx \<Longrightarrow> digits_val r mx 0 (show_radix r n) = Some n"
proof (induction r n rule: show_radix.induct)
  case (1 r n)
  show ?case
  proof (cases "n < r")
    case True
    with "1.prems" show ?thesis by (simp add: show_radix.simps [of r n] digit_val_chr)
  next
    case False
    have le: "n div r \<le> mx" using "1.prems"(3) by (meson div_le_dividend le_trans)
    from False "1.prems" le have "digits_val r mx 0 (show_radix r (n div r)) = Some (n div r)"
      by (intro "1.IH") auto
    with False "1.prems" show ?thesis
      by (simp add: show_radix.simps [of r n] digits_val_append digit_val_chr)
  qed
qed

lemma show_radix_nonempty [simp]: "show_radix r n \<noteq> []"
  by (simp add: show_radix.simps [of r n])

lemma digit_chr_neq_plus: "d < 16 \<Longrightarrow> digit_chr d \<noteq> CHR ''+''"
proof
  assume "d < 16" and "digit_chr d = CHR ''+''"
  then have "digit_val 16 (CHR ''+'') = Some d" by (metis digit_val_chr order_refl)
  then show False by (simp add: digit_val_def)
qed

lemma set_show_radix:
  "2 \<le> r \<Longrightarrow> r \<le> 16 \<Longrightarrow> c \<in> set (show_radix r n) \<Longrightarrow> \<exists>d < r. c = digit_chr d"
proof (induction r n rule: show_radix.induct)
  case (1 r n)
  moreover have "n mod r < r" using "1.prems"(1) by simp
  ultimately show ?case
    using show_radix.simps [of r n] by (cases "n < r") (auto intro: exI [of _ "n mod r"])
qed

lemma from_str_radix_show:
  assumes "2 \<le> r" "r \<le> 16" "n \<le> mx"
  shows "from_str_radix mx r (show_radix r n) = Some n"
proof -
  obtain c cs where s: "show_radix r n = c # cs"
    by (meson neq_Nil_conv show_radix_nonempty)
  then have "c \<noteq> CHR ''+''"
    using set_show_radix [OF assms(1,2), of c n] digit_chr_neq_plus assms(2)
    by (metis list.set_intros(1) order_less_le_trans)
  then show ?thesis
    using digits_val_show [OF assms] by (simp add: from_str_radix_def s)
qed

lemma parse_u64_show_nat: "n \<le> u64_max \<Longrightarrow> parse_u64 (show_nat n) = Some n"
  by (simp add: parse_u64_def show_nat_def from_str_radix_show)

lemma digits_val_zeros: "0 < r \<Longrightarrow> digits_val r mx 0 (replicate k (CHR ''0'') @ s) = digits_val r mx 0 s"
  by (induction k) (auto simp: digit_val_def)

lemma from_str_radix_hex_pad: "n \<le> mx \<Longrightarrow> from_str_radix mx 16 (hex_pad w n) = Some n"
proof -
  assume n: "n \<le> mx"
  obtain k where k: "hex_pad w n = replicate k (CHR ''0'') @ show_radix 16 n"
    by (simp add: hex_pad_def Let_def)
  show ?thesis
  proof (cases k)
    case 0
    with k n show ?thesis by (simp add: from_str_radix_show)
  next
    case (Suc j)
    then have "from_str_radix mx 16 (hex_pad w n) = digits_val 16 mx 0 (replicate k (CHR ''0'') @ show_radix 16 n)"
      by (simp add: from_str_radix_def k)
    with n show ?thesis by (simp add: digits_val_zeros digits_val_show)
  qed
qed

lemma digits_val_bound: "digits_val r mx acc s = Some n \<Longrightarrow> acc \<le> mx \<Longrightarrow> n \<le> mx"
  by (induction r mx acc s rule: digits_val.induct) (auto split: option.splits if_splits)

lemma from_str_radix_bound: "from_str_radix mx r s = Some n \<Longrightarrow> n \<le> mx"
  by (auto simp: from_str_radix_def Let_def split: if_splits intro: digits_val_bound)

text \<open>Trimming leaves text of printable ASCII alone.\<close>

definition graphic :: "char \<Rightarrow> bool" where
  "graphic c \<longleftrightarrow> 33 \<le> (of_char c :: nat) \<and> (of_char c :: nat) \<le> 126"

lemma graphic_not_ws:
  assumes "graphic c"
  shows "\<not> ws1 (of_char c)" "\<not> ws2 (of_char c) m" "\<not> ws3 (of_char c) m n"
  using assms unfolding graphic_def ws1_def ws2_def ws3_def by linarith+

lemma ws_len_graphic: "list_all graphic s \<Longrightarrow> ws_len s = 0"
  unfolding ws_len_def by (auto simp: graphic_not_ws split: list.split)

lemma ws_len_rev_graphic: "list_all graphic s \<Longrightarrow> ws_len_rev s = 0"
  unfolding ws_len_rev_def by (auto simp: graphic_not_ws split: list.split)

lemma trim_graphic: "list_all graphic s \<Longrightarrow> trim s = s"
  using ws_len_rev_graphic [of "rev s"]
  by (simp add: trim_def trim_by.simps [of ws_len s] trim_by.simps [of ws_len_rev "rev s"] ws_len_graphic)

lemma show_nat_digits: "list_all (\<lambda>c. 48 \<le> (of_char c :: nat) \<and> (of_char c :: nat) \<le> 57) (show_nat n)"
proof -
  have "48 \<le> (of_char (digit_chr d) :: nat) \<and> (of_char (digit_chr d) :: nat) \<le> 57" if "d < 10" for d
    using that by (simp add: digit_chr_def)
  then show ?thesis
    using set_show_radix [of 10 _ n] by (fastforce simp: list_all_iff show_nat_def)
qed

lemma show_nat_graphic: "list_all graphic (show_nat n)"
  using show_nat_digits [of n] by (auto simp: list_all_iff graphic_def)

lemma show_nat_no_dash: "CHR ''-'' \<notin> set (show_nat n)"
  using show_nat_digits [of n] by (auto simp: list_all_iff)

end
