(* ===== verification/Core_Types.thy ===== *)
theory Core_Types
  imports Prelude "HOL-Library.List_Lexorder"
begin

text \<open>
  The crate \<open>bale-server-core\<close>: hashes, the domain structs, the error type and the three
  traits. A struct is a record whose fields carry a prefix naming the struct, because the
  sources reuse field names across structs. A trait is a record of operations, so that the
  generic handlers of the HTTP layer take it as an argument; what an implementation promises
  is stated as a locale over that record.
\<close>

section \<open>Hashes\<close>

definition HASH_LEN :: nat where
  "HASH_LEN = 32"

datatype hash32 = Hash32 (hash_bytes: bytes)

text \<open>The array type \<open>[u8; 32]\<close> fixes the length; here it is a predicate.\<close>

definition wf_hash :: "hash32 \<Rightarrow> bool" where
  "wf_hash h \<longleftrightarrow> length (hash_bytes h) = HASH_LEN"

definition hash_zero :: hash32 where
  "hash_zero = Hash32 (replicate HASH_LEN 0)"

definition hash_all_ones :: hash32 where
  "hash_all_ones = Hash32 (replicate HASH_LEN 0xFF)"

text \<open>\<open>derive(PartialOrd, Ord)\<close> on the byte array: the lexicographic order of the bytes.\<close>

instantiation hash32 :: linorder
begin

definition less_eq_hash32 :: "hash32 \<Rightarrow> hash32 \<Rightarrow> bool" where
  "less_eq_hash32 a b \<longleftrightarrow> hash_bytes a \<le> hash_bytes b"

definition less_hash32 :: "hash32 \<Rightarrow> hash32 \<Rightarrow> bool" where
  "less_hash32 a b \<longleftrightarrow> hash_bytes a < hash_bytes b"

instance
  by standard (auto simp: less_eq_hash32_def less_hash32_def hash32.expand less_le_not_le)

end

section \<open>Domain types\<close>

datatype scope = Read | Write

datatype repo_type = Model | Dataset | Space

record repo_ref =
  repo_type_of :: repo_type
  repo_id :: string
  revision :: string

text \<open>\<open>RepoRef::owner\<close>: the namespace before the first slash, or the whole id.\<close>

definition owner_of_id :: "string \<Rightarrow> string" where
  "owner_of_id rid = (case split_once (CHR ''/'') rid of Some (o', _) \<Rightarrow> o' | None \<Rightarrow> rid)"

definition repo_owner :: "repo_ref \<Rightarrow> string" where
  "repo_owner r = owner_of_id (repo_id r)"

record token_claims =
  tc_user :: string
  tc_repo :: repo_ref
  tc_scope :: scope
  tc_expires_at :: nat

record file_term =
  ft_xorb :: hash32
  ft_chunk_idx_start :: u32
  ft_chunk_idx_end :: u32
  ft_unpacked_segment_bytes :: u32
  ft_verification :: "hash32 option"

record chunk_row =
  cr_chunk_hash :: hash32
  cr_chunk_index :: u32
  cr_byte_start :: u32
  cr_unpacked_segment_bytes :: u32

record xorb_info =
  xi_xorb :: hash32
  xi_num_chunks :: u32
  xi_num_bytes_in_cas :: u32
  xi_num_bytes_on_disk :: u32

record chunk_offset_row =
  co_chunk_hash :: hash32
  co_chunk_index :: u32
  co_byte_start :: u32
  co_unpacked_segment_bytes :: u32

record xorb_frame_row =
  xf_frame_index :: u32
  xf_on_disk_start :: u32
  xf_on_disk_len :: u32
  xf_uncompressed_len :: u32

datatype core_error =
    NotFound
  | Conflict string
  | BadRequest string
  | Unauthorized
  | Forbidden
  | Internal string

text \<open>The sum of the terms' \<open>unpacked_segment_bytes as u64\<close>.\<close>

definition terms_total :: "file_term list \<Rightarrow> nat" where
  "terms_total ts = sum_list (map (\<lambda>t. unat (ft_unpacked_segment_bytes t)) ts)"

text \<open>Terms and files whose hashes have 32 bytes and whose term count fits a table column.\<close>

definition wf_term :: "file_term \<Rightarrow> bool" where
  "wf_term t \<longleftrightarrow> wf_hash (ft_xorb t) \<and> (case ft_verification t of None \<Rightarrow> True | Some v \<Rightarrow> wf_hash v)"

definition wf_files :: "(hash32 \<times> file_term list) list \<Rightarrow> bool" where
  "wf_files files \<longleftrightarrow> list_all (\<lambda>(h, ts). wf_hash h \<and> list_all wf_term ts \<and> length ts \<le> nat i64_max) files"

section \<open>The traits\<close>

record 'b blob_ops =
  put_xorb :: "hash32 \<Rightarrow> bytes \<Rightarrow> 'b \<Rightarrow> (core_error + bool) \<times> 'b"
  xorb_exists :: "hash32 \<Rightarrow> 'b \<Rightarrow> core_error + bool"
  get_xorb_range :: "hash32 \<Rightarrow> nat \<Rightarrow> nat \<Rightarrow> 'b \<Rightarrow> core_error + bytes"
  put_shard :: "hash32 \<Rightarrow> bytes \<Rightarrow> 'b \<Rightarrow> (core_error + unit) \<times> 'b"
  get_shard :: "hash32 \<Rightarrow> 'b \<Rightarrow> core_error + bytes"
  presign_xorb_range :: "hash32 \<Rightarrow> nat \<Rightarrow> nat \<Rightarrow> nat \<Rightarrow> 'b \<Rightarrow> core_error + string option"

record 'm meta_ops =
  register_xorb :: "xorb_info \<Rightarrow> chunk_row list \<Rightarrow> 'm \<Rightarrow> (core_error + unit) \<times> 'm"
  register_file :: "hash32 \<Rightarrow> repo_ref \<Rightarrow> file_term list \<Rightarrow> 'm \<Rightarrow> (core_error + unit) \<times> 'm"
  register_files :: "repo_ref \<Rightarrow> (hash32 \<times> file_term list) list \<Rightarrow> 'm \<Rightarrow> (core_error + unit) \<times> 'm"
  register_xorb_layout :: "hash32 \<Rightarrow> xorb_frame_row list \<Rightarrow> 'm \<Rightarrow> (core_error + unit) \<times> 'm"
  xorb_frame_layout :: "hash32 \<Rightarrow> 'm \<Rightarrow> core_error + xorb_frame_row list"
  xorb_frame_layouts :: "hash32 list \<Rightarrow> 'm \<Rightarrow> core_error + (hash32 \<rightharpoonup> xorb_frame_row list)"
  meta_xorb_exists :: "hash32 \<Rightarrow> 'm \<Rightarrow> core_error + bool"
  lookup_file :: "hash32 \<Rightarrow> 'm \<Rightarrow> core_error + file_term list option"
  file_in_repo :: "hash32 \<Rightarrow> string \<Rightarrow> 'm \<Rightarrow> core_error + bool"
  xorbs_near_chunk :: "hash32 \<Rightarrow> nat \<Rightarrow> 'm \<Rightarrow> core_error + xorb_info list"
  xorb_chunk_offsets :: "hash32 \<Rightarrow> 'm \<Rightarrow> core_error + chunk_offset_row list"
  raw_bytes_for_owner :: "string \<Rightarrow> 'm \<Rightarrow> core_error + nat"
  stored_bytes_for_owner :: "string \<Rightarrow> 'm \<Rightarrow> core_error + nat"
  get_owner_quota :: "string \<Rightarrow> 'm \<Rightarrow> core_error + nat option"
  set_owner_quota :: "string \<Rightarrow> nat option \<Rightarrow> 'm \<Rightarrow> (core_error + unit) \<times> 'm"
  unaccounted_xorb_bytes_for_owner :: "string \<Rightarrow> hash32 list \<Rightarrow> 'm \<Rightarrow> core_error + nat"
  raw_bytes_for_repo :: "string \<Rightarrow> 'm \<Rightarrow> core_error + nat"
  stored_bytes_for_repo :: "string \<Rightarrow> 'm \<Rightarrow> core_error + nat"
  exclusive_stored_bytes_for_repo :: "string \<Rightarrow> 'm \<Rightarrow> core_error + nat"

text \<open>The two default methods of \<open>MetadataStore\<close>: plain loops over the single-item methods.\<close>

fun register_files_default ::
  "(hash32 \<Rightarrow> repo_ref \<Rightarrow> file_term list \<Rightarrow> 'm \<Rightarrow> (core_error + unit) \<times> 'm) \<Rightarrow>
   repo_ref \<Rightarrow> (hash32 \<times> file_term list) list \<Rightarrow> 'm \<Rightarrow> (core_error + unit) \<times> 'm" where
  "register_files_default reg repo [] m = (Inr (), m)"
| "register_files_default reg repo ((h, ts) # fs) m =
     (case reg h repo ts m of
        (Inl e, m') \<Rightarrow> (Inl e, m')
      | (Inr _, m') \<Rightarrow> register_files_default reg repo fs m')"

fun xorb_frame_layouts_default ::
  "(hash32 \<Rightarrow> 'm \<Rightarrow> core_error + xorb_frame_row list) \<Rightarrow> hash32 list \<Rightarrow> 'm \<Rightarrow>
   (hash32 \<rightharpoonup> xorb_frame_row list) \<Rightarrow> core_error + (hash32 \<rightharpoonup> xorb_frame_row list)" where
  "xorb_frame_layouts_default lay [] m out = Inr out"
| "xorb_frame_layouts_default lay (x # xs) m out =
     rbind (lay x m)
       (\<lambda>rows. xorb_frame_layouts_default lay xs m (if rows = [] then out else out(x \<mapsto> rows)))"

record authz_ops =
  verify_xet_token :: "string \<Rightarrow> core_error + token_claims"
  check_repo_access :: "string \<Rightarrow> repo_ref \<Rightarrow> scope \<Rightarrow> core_error + string"
  mint_xet_token :: "string \<Rightarrow> repo_ref \<Rightarrow> scope \<Rightarrow> core_error + string \<times> nat"

section \<open>What a blob store promises\<close>

text \<open>
  The contract of the trait \<open>BlobStore\<close>, over an abstraction \<open>xorbs\<close> from the store's state to
  a map of bodies: a put of a new hash inserts exactly that body, a put of a known hash changes
  nothing and answers \<open>false\<close>, a failing put changes no body, and a half-open range read that
  succeeds returns that slice of the body. Reads and puts may fail.
\<close>

locale blob_store =
  fixes B :: "'b blob_ops"
    and xorbs :: "'b \<Rightarrow> hash32 \<rightharpoonup> bytes"
  assumes put_xorb_True:
      "put_xorb B h body s = (Inr True, s') \<Longrightarrow> xorbs s h = None \<and> xorbs s' = (xorbs s)(h \<mapsto> body)"
    and put_xorb_False:
      "put_xorb B h body s = (Inr False, s') \<Longrightarrow> xorbs s h \<noteq> None \<and> xorbs s' = xorbs s"
    and put_xorb_Inl: "put_xorb B h body s = (Inl e, s') \<Longrightarrow> xorbs s' = xorbs s"
    and xorb_exists_iff: "xorb_exists B h s = Inr b \<Longrightarrow> b \<longleftrightarrow> xorbs s h \<noteq> None"
    and get_xorb_range_slice:
      "get_xorb_range B h i j s = Inr d \<Longrightarrow> i < j \<Longrightarrow>
       \<exists>body. xorbs s h = Some body \<and> d = take (j - i) (drop i body)"
    and put_shard_xorbs: "put_shard B h' body' s = (r, s') \<Longrightarrow> xorbs s' = xorbs s"
begin

lemma put_xorb_result:
  assumes "put_xorb B h body s = (Inr b, s')"
  shows "xorbs s' h = Some (if b then body else the (xorbs s h))"
proof (cases b)
  case True
  with assms put_xorb_True show ?thesis by simp
next
  case False
  with assms put_xorb_False have "xorbs s h \<noteq> None" "xorbs s' = xorbs s" by auto
  with False show ?thesis by auto
qed

lemma put_xorb_keeps:
  assumes "put_xorb B h body s = (r, s')" and "xorbs s h' = Some body'"
  shows "xorbs s' h' = Some body'"
proof (cases r)
  case (Inl e)
  with assms put_xorb_Inl show ?thesis by simp
next
  case (Inr b)
  with assms put_xorb_True [of h body s s'] put_xorb_False [of h body s s'] show ?thesis
    by (cases b) auto
qed

lemma put_shard_keeps:
  "put_shard B h' body' s = (r, s') \<Longrightarrow> xorbs s h = Some body \<Longrightarrow> xorbs s' h = Some body"
  using put_shard_xorbs by simp

end

text \<open>A store whose reads of what it holds do not fail.\<close>

locale blob_store_reliable = blob_store +
  assumes get_xorb_range_ok:
    "xorbs s h = Some body \<Longrightarrow> i < j \<Longrightarrow> j \<le> length body \<Longrightarrow>
     get_xorb_range B h i j s = Inr (take (j - i) (drop i body))"
    and xorb_exists_ok: "xorb_exists B h s = Inr (xorbs s h \<noteq> None)"

section \<open>What a metadata store promises about layouts\<close>

text \<open>Rows numbered \<open>0, 1, ...\<close> in order.\<close>

definition indexed_rows :: "xorb_frame_row list \<Rightarrow> bool" where
  "indexed_rows rows \<longleftrightarrow> map (\<lambda>r. unat (xf_frame_index r)) rows = [0..<length rows]"

text \<open>
  The contract of \<open>MetadataStore\<close> that the uploads and the reads of files rest on. \<open>layout\<close> is the
  recorded frame layout of a hash, empty when there is none, and \<open>ok\<close> an invariant of the store. A
  layout is recorded once: a second registration with as many rows changes nothing. No other write touches
  the layouts, a failing write changes none, and the two queries answer with them.
\<close>

locale layout_store =
  fixes M :: "'m meta_ops"
    and layout :: "'m \<Rightarrow> hash32 \<Rightarrow> xorb_frame_row list"
    and ok :: "'m \<Rightarrow> bool"
  assumes layout_new:
      "ok m \<Longrightarrow> indexed_rows rows \<Longrightarrow> layout m h = [] \<Longrightarrow>
       register_xorb_layout M h rows m = (Inr u, m') \<Longrightarrow> layout m' = (layout m)(h := rows)"
    and layout_known:
      "ok m \<Longrightarrow> indexed_rows rows \<Longrightarrow> indexed_rows (layout m h) \<Longrightarrow> length rows = length (layout m h) \<Longrightarrow>
       register_xorb_layout M h rows m = (Inr u, m') \<Longrightarrow> layout m' = layout m"
    and layout_failed: "register_xorb_layout M h rows m = (Inl e, m') \<Longrightarrow> layout m' = layout m"
    and layout_register_xorb: "register_xorb M x cs m = (r, m') \<Longrightarrow> layout m' = layout m"
    and layout_register_files: "register_files M repo files m = (r, m') \<Longrightarrow> layout m' = layout m"
    and layout_set_quota: "set_owner_quota M owner lim m = (r, m') \<Longrightarrow> layout m' = layout m"
    and layout_read: "xorb_frame_layout M h m = Inr rows \<Longrightarrow> rows = layout m h"
    and layouts_read: "ok m \<Longrightarrow> xorb_frame_layouts M hs m = Inr found \<Longrightarrow> h \<in> set hs \<Longrightarrow>
       found h = (if layout m h = [] then None else Some (layout m h))"
    and ok_layout: "ok m \<Longrightarrow> wf_hash h \<Longrightarrow> register_xorb_layout M h rows m = (r, m') \<Longrightarrow> ok m'"
    and ok_register_xorb: "ok m \<Longrightarrow> wf_hash (xi_xorb x) \<Longrightarrow> list_all (\<lambda>c. wf_hash (cr_chunk_hash c)) cs \<Longrightarrow>
       register_xorb M x cs m = (r', m') \<Longrightarrow> ok m'"
    and ok_register_files: "ok m \<Longrightarrow> wf_files files \<Longrightarrow> register_files M repo files m = (r', m') \<Longrightarrow> ok m'"
    and ok_set_quota: "ok m \<Longrightarrow> set_owner_quota M owner lim m = (r', m') \<Longrightarrow> ok m'"

end
