(* ===== verification/Wire.thy ===== *)
theory Wire
  imports Core_Types
begin

text \<open>
  The crate \<open>bale-server-wire\<close>: the textual form of hashes in paths and JSON (each 8-byte
  group reversed, then lower-case hex) and the JSON bodies. The main facts are that decoding
  inverts encoding on every hash and that a string decodes only if it is the canonical
  encoding of the result, so the text of a hash is unique.
\<close>

section \<open>Hash encoding\<close>

datatype hex_error = BadLength | BadHex

definition hex_byte :: "u8 \<Rightarrow> string" where
  "hex_byte b = hex_pad 2 (unat b)"

definition encode_hash :: "hash32 \<Rightarrow> string" where
  "encode_hash h =
     concat (map (\<lambda>grp.
       let start = grp * 8
       in concat (map (\<lambda>i. hex_byte (hash_bytes h ! (start + i))) (rev [0..<8])))
     [0..<4])"

definition hex_nibble :: "u8 \<Rightarrow> hex_error + u8" where
  "hex_nibble c =
     (if 48 \<le> c \<and> c \<le> 57 then Inr (c - 48)
      else if 97 \<le> c \<and> c \<le> 102 then Inr (c - 97 + 10)
      else Inl BadHex)"

definition decode_pair :: "bytes \<Rightarrow> nat \<Rightarrow> hex_error + u8" where
  "decode_pair bs k =
     rbind (hex_nibble (bs ! k)) (\<lambda>hi.
     rbind (hex_nibble (bs ! (k + 1))) (\<lambda>lo. Inr (push_bit 4 hi OR lo)))"

text \<open>The i-th pair of a group is byte \<open>7 - i\<close> of the group, hence the \<open>rev\<close>.\<close>

definition decode_group :: "bytes \<Rightarrow> nat \<Rightarrow> hex_error + bytes" where
  "decode_group bs grp =
     (let str_off = grp * 16
      in rbind (rmapM (\<lambda>i. decode_pair bs (str_off + i * 2)) [0..<8]) (\<lambda>ps. Inr (rev ps)))"

definition decode_hash :: "string \<Rightarrow> hex_error + hash32" where
  "decode_hash s =
     (if length s \<noteq> HASH_LEN * 2 then Inl BadLength
      else rbind (rmapM (decode_group (as_bytes s)) [0..<4]) (\<lambda>gs. Inr (Hash32 (concat gs))))"

section \<open>JSON bodies\<close>

record range_json =
  rj_start :: nat
  rj_end :: nat

record cas_reconstruction_term =
  rt_hash :: string
  rt_unpacked_length :: nat
  rt_range :: range_json

record cas_reconstruction_fetch_info =
  fi_range :: range_json
  fi_url :: string
  fi_url_range :: range_json

record query_reconstruction_response =
  qr_offset_into_first_range :: nat
  qr_terms :: "cas_reconstruction_term list"
  qr_fetch_info :: "string \<rightharpoonup> cas_reconstruction_fetch_info list"

record owner_usage_response =
  ou_owner :: string
  ou_raw_bytes :: nat
  ou_stored_bytes :: nat
  ou_dedup_savings_bytes :: nat
  ou_quota_bytes :: "nat option"

record repo_usage_response =
  ru_repo_id :: string
  ru_raw_bytes :: nat
  ru_stored_bytes :: nat
  ru_dedup_savings_bytes :: nat
  ru_exclusive_bytes :: nat

record xet_token_response =
  xt_access_token :: string
  xt_exp :: nat
  xt_cas_url :: string

section \<open>Lemmas\<close>

text \<open>One byte is two hexadecimal digits, and a digit pair decodes to its byte.\<close>

lemma digit_chr_0: "digit_chr 0 = CHR ''0''"
  by (simp add: digit_chr_def flip: of_char_eq_iff [where 'a = nat])

lemma hex_byte_digits: "hex_byte b = [digit_chr (unat b div 16), digit_chr (unat b mod 16)]"
proof -
  have lt: "unat b < 256" using unsigned_less [of b, where 'a = nat] by simp
  then have d: "unat b div 16 < 16" by simp
  show ?thesis
  proof (cases "unat b < 16")
    case True
    then show ?thesis
      by (simp add: hex_byte_def hex_pad_def show_radix.simps [of 16 "unat b"] digit_chr_0)
  next
    case False
    with d show ?thesis
      by (simp add: hex_byte_def hex_pad_def show_radix.simps [of 16 "unat b"]
          show_radix.simps [of 16 "unat b div 16"])
  qed
qed

lemma length_hex_byte [simp]: "length (hex_byte b) = 2"
  by (simp add: hex_byte_digits)

lemma all_less_16: "(\<forall>d < (16::nat). P d) \<longleftrightarrow>
   P 0 \<and> P 1 \<and> P 2 \<and> P 3 \<and> P 4 \<and> P 5 \<and> P 6 \<and> P 7 \<and> P 8 \<and> P 9 \<and> P 10 \<and> P 11 \<and> P 12 \<and>
   P 13 \<and> P 14 \<and> P 15"
  by (simp add: numeral_eq_Suc All_less_Suc conj_ac)

lemma hex_nibble_digit:
  assumes "d < 16"
  shows "hex_nibble (word_of_nat (of_char (digit_chr d))) = Inr (word_of_nat d)"
proof -
  have "\<forall>d < 16. hex_nibble (word_of_nat (of_char (digit_chr d))) = Inr (word_of_nat d)"
    unfolding all_less_16 by (simp add: digit_chr_def hex_nibble_def)
  with assms show ?thesis by blast
qed

lemma hex_nibble_inv:
  assumes "hex_nibble c = Inr v"
  shows "unat v < 16" and "char_of (unat c) = digit_chr (unat v)"
proof -
  consider (d) "48 \<le> c" "c \<le> 57" "v = c - 48" | (a) "97 \<le> c" "c \<le> 102" "v = c - 97 + 10"
    using assms by (auto simp: hex_nibble_def split: if_splits)
  then have "unat v < 16 \<and> unat c = (if unat v < 10 then 48 + unat v else 87 + unat v)"
  proof cases
    case d
    then have "48 \<le> unat c" "unat c \<le> 57" by (simp_all add: word_le_nat_alt)
    moreover have "unat v = unat c - 48" using d by (simp add: unat_sub)
    ultimately show ?thesis by simp
  next
    case a
    then have b: "97 \<le> unat c" "unat c \<le> 102" by (simp_all add: word_le_nat_alt)
    have "v = c - 87" using a by simp
    moreover have "87 \<le> c" using b by (simp add: word_le_nat_alt)
    ultimately have "unat v = unat c - 87" by (simp add: unat_sub)
    with b show ?thesis by auto
  qed
  then show "unat v < 16" and "char_of (unat c) = digit_chr (unat v)"
    by (auto simp: digit_chr_def)
qed

lemma push_or_nat:
  assumes "hi < 16" and "lo < 16"
  shows "push_bit 4 (word_of_nat hi) OR word_of_nat lo = (word_of_nat (16 * hi + lo) :: u8)"
proof -
  have "\<forall>hi < 16. \<forall>lo < 16.
      push_bit 4 (word_of_nat hi) OR word_of_nat lo = (word_of_nat (16 * hi + lo) :: u8)"
    unfolding all_less_16 by simp
  with assms show ?thesis by blast
qed

text \<open>Decoding a pair of hexadecimal characters inverts printing the byte, in both directions.\<close>

lemma decode_pair_encode:
  assumes "bs ! k = word_of_nat (of_char (digit_chr (unat b div 16)))"
    and "bs ! (k + 1) = word_of_nat (of_char (digit_chr (unat b mod 16)))"
  shows "decode_pair bs k = Inr b"
proof -
  have lt: "unat b div 16 < 16" "unat b mod 16 < 16"
    using unsigned_less [of b, where 'a = nat] by simp_all
  have "word_of_nat (16 * (unat b div 16) + unat b mod 16) = b" by simp
  with push_or_nat [OF lt] show ?thesis
    by (simp only: decode_pair_def assms hex_nibble_digit [OF lt(1)] hex_nibble_digit [OF lt(2)]
        rbind_simps)
qed

lemma decode_pair_canonical:
  assumes "decode_pair bs k = Inr b"
  shows "hex_byte b = [char_of (unat (bs ! k)), char_of (unat (bs ! (k + 1)))]"
proof -
  obtain hi lo where n: "hex_nibble (bs ! k) = Inr hi" "hex_nibble (bs ! (k + 1)) = Inr lo"
      and b: "b = push_bit 4 hi OR lo"
    using assms by (auto simp: decode_pair_def rbind_eq_Inr)
  note hi = hex_nibble_inv [OF n(1)] and lo = hex_nibble_inv [OF n(2)]
  have "b = word_of_nat (16 * unat hi + unat lo)"
    using push_or_nat [OF hi(1) lo(1)] b by simp
  then have "unat b = (16 * unat hi + unat lo) mod 2 ^ 8"
    by (simp only: unat_of_nat) simp
  then have "unat b = 16 * unat hi + unat lo" using hi(1) lo(1) by simp
  then show ?thesis using hi lo by (simp add: hex_byte_digits)
qed

lemma decode_group_canonical:
  assumes "decode_group bs g = Inr ps"
  shows "length ps = 8" and "i < 8 \<Longrightarrow> decode_pair bs (g * 16 + i * 2) = Inr (ps ! (7 - i))"
proof -
  obtain qs where qs: "list_all2 (\<lambda>i q. decode_pair bs (g * 16 + i * 2) = Inr q) [0..<8] qs"
      and ps: "ps = rev qs"
    using assms by (auto simp: decode_group_def Let_def rbind_eq_Inr rmapM_eq_Inr)
  then have len: "length qs = 8" using list_all2_lengthD by fastforce
  with ps show "length ps = 8" by simp
  show "i < 8 \<Longrightarrow> decode_pair bs (g * 16 + i * 2) = Inr (ps ! (7 - i))"
    using list_all2_nthD [OF qs, of i] len by (simp add: ps rev_nth)
qed

lemma upt_small: "[0..<4] = [0, 1, 2, 3::nat]" "[0..<8] = [0, 1, 2, 3, 4, 5, 6, 7::nat]"
  by (simp_all add: upt_rec)

lemma all_nth_32:
  "length xs = 32 \<Longrightarrow>
   xs = [xs ! 0, xs ! 1, xs ! 2, xs ! 3, xs ! 4, xs ! 5, xs ! 6, xs ! 7,
         xs ! 8, xs ! 9, xs ! 10, xs ! 11, xs ! 12, xs ! 13, xs ! 14, xs ! 15,
         xs ! 16, xs ! 17, xs ! 18, xs ! 19, xs ! 20, xs ! 21, xs ! 22, xs ! 23,
         xs ! 24, xs ! 25, xs ! 26, xs ! 27, xs ! 28, xs ! 29, xs ! 30, xs ! 31]"
  by (rule nth_equalityI) (auto simp: less_Suc_eq eval_nat_numeral)

lemma nth_concat_pairs:
  "j < length ks \<Longrightarrow> concat (map (\<lambda>k. [f k, g k]) ks) ! (2 * j) = f (ks ! j)"
  "j < length ks \<Longrightarrow> concat (map (\<lambda>k. [f k, g k]) ks) ! (2 * j + 1) = g (ks ! j)"
proof (induction ks arbitrary: j)
  case (Cons k ks)
  { case 1 with Cons show ?case by (cases j) simp_all }
  { case 2 with Cons show ?case by (cases j) simp_all }
qed simp_all

definition hash_order :: "nat list" where
  "hash_order = concat (map (\<lambda>g. map (\<lambda>i. g * 8 + i) (rev [0..<8])) [0..<4])"

lemma length_hash_order [simp]: "length hash_order = 32"
  by (simp add: hash_order_def upt_small)

lemma encode_hash_order:
  "encode_hash h = concat (map (\<lambda>k. [digit_chr (unat (hash_bytes h ! k) div 16),
     digit_chr (unat (hash_bytes h ! k) mod 16)]) hash_order)"
  by (simp add: encode_hash_def hash_order_def Let_def hex_byte_digits upt_small)

lemma length_encode_hash [simp]: "length (encode_hash h) = 64"
  by (simp add: encode_hash_order length_concat o_def sum_list_triv)

lemma hash_order_nth: "g < 4 \<Longrightarrow> i < 8 \<Longrightarrow> hash_order ! (g * 8 + i) = g * 8 + (7 - i)"
proof -
  have "\<forall>g < 4. \<forall>i < 8. hash_order ! (g * 8 + i) = g * 8 + (7 - i)"
    by code_simp
  then show "g < 4 \<Longrightarrow> i < 8 \<Longrightarrow> hash_order ! (g * 8 + i) = g * 8 + (7 - i)" by blast
qed

lemma decode_group_encode:
  assumes "g < 4"
  shows "decode_group (as_bytes (encode_hash h)) g
     = Inr (map (\<lambda>i. hash_bytes h ! (g * 8 + i)) [0..<8])"
proof -
  have "decode_pair (as_bytes (encode_hash h)) (g * 16 + i * 2) = Inr (hash_bytes h ! (g * 8 + (7 - i)))"
    if i: "i < 8" for i
  proof (rule decode_pair_encode)
    have j: "g * 8 + i < length hash_order" and k: "g * 16 + i * 2 = 2 * (g * 8 + i)"
      using assms i by simp_all
    have lt: "g * 16 + i * 2 < 64" "g * 16 + i * 2 + 1 < 64" using assms i by simp_all
    have nth: "as_bytes (encode_hash h) ! k = word_of_nat (of_char (encode_hash h ! k))"
      if "k < 64" for k using that by (simp add: as_bytes_def)
    have "encode_hash h ! (g * 16 + i * 2) = digit_chr (unat (hash_bytes h ! (g * 8 + (7 - i))) div 16)"
      and "encode_hash h ! (g * 16 + i * 2 + 1) = digit_chr (unat (hash_bytes h ! (g * 8 + (7 - i))) mod 16)"
      unfolding k encode_hash_order nth_concat_pairs [OF j] hash_order_nth [OF assms i] by (rule refl)+
    then show "as_bytes (encode_hash h) ! (g * 16 + i * 2) =
        word_of_nat (of_char (digit_chr (unat (hash_bytes h ! (g * 8 + (7 - i))) div 16)))"
      and "as_bytes (encode_hash h) ! (g * 16 + i * 2 + 1) =
        word_of_nat (of_char (digit_chr (unat (hash_bytes h ! (g * 8 + (7 - i))) mod 16)))"
      by (simp_all only: nth [OF lt(1)] nth [OF lt(2)])
  qed
  then have "rmapM (\<lambda>i. decode_pair (as_bytes (encode_hash h)) (g * 16 + i * 2)) [0..<8]
      = Inr (map (\<lambda>i. hash_bytes h ! (g * 8 + (7 - i))) [0..<8])"
    by (intro rmapM_Inr) simp
  then show ?thesis by (simp add: decode_group_def upt_small)
qed

lemma decode_encode_hash: "wf_hash h \<Longrightarrow> decode_hash (encode_hash h) = Inr h"
proof -
  assume "wf_hash h"
  then have len: "length (hash_bytes h) = 32" by (simp add: wf_hash_def HASH_LEN_def)
  have "rmapM (decode_group (as_bytes (encode_hash h))) [0..<4]
      = Inr (map (\<lambda>g. map (\<lambda>i. hash_bytes h ! (g * 8 + i)) [0..<8]) [0..<4])"
    by (intro rmapM_Inr decode_group_encode) simp
  moreover have "Hash32 (concat (map (\<lambda>g. map (\<lambda>i. hash_bytes h ! (g * 8 + i)) [0..<8]) [0..<4])) = h"
    using all_nth_32 [OF len] by (cases h) (simp add: upt_small eval_nat_numeral)
  ultimately show ?thesis by (simp add: decode_hash_def HASH_LEN_def)
qed

lemma decode_hash_wf: "decode_hash s = Inr h \<Longrightarrow> wf_hash h"
proof -
  assume "decode_hash s = Inr h"
  then obtain gs where gs: "list_all2 (\<lambda>g ps. decode_group (as_bytes s) g = Inr ps) [0..<4] gs"
      and h: "h = Hash32 (concat gs)"
    by (auto simp: decode_hash_def rbind_eq_Inr rmapM_eq_Inr split: if_splits)
  then obtain a b c d where "gs = [a, b, c, d]" "length a = 8" "length b = 8" "length c = 8" "length d = 8"
    unfolding upt_small list_all2_Cons1 list_all2_Nil using decode_group_canonical(1) by blast
  then show "wf_hash h" by (simp add: h wf_hash_def HASH_LEN_def)
qed

lemma decode_hash_pair:
  assumes "decode_hash s = Inr h" and "g < 4" and "i < 8"
  shows "decode_pair (as_bytes s) (2 * (g * 8 + i)) = Inr (hash_bytes h ! (hash_order ! (g * 8 + i)))"
proof -
  obtain gs where gs: "list_all2 (\<lambda>g ps. decode_group (as_bytes s) g = Inr ps) [0..<4] gs"
      and h: "h = Hash32 (concat gs)"
    using assms(1) by (auto simp: decode_hash_def rbind_eq_Inr rmapM_eq_Inr split: if_splits)
  then obtain a b c d where abcd: "gs = [a, b, c, d]"
      and len: "length a = 8" "length b = 8" "length c = 8" "length d = 8"
    unfolding upt_small list_all2_Cons1 list_all2_Nil using decode_group_canonical(1) by blast
  have "decode_group (as_bytes s) g = Inr (gs ! g)"
    using list_all2_nthD [OF gs, of g] assms(2) by simp
  from decode_group_canonical(2) [OF this assms(3)]
  have "decode_pair (as_bytes s) (2 * (g * 8 + i)) = Inr (gs ! g ! (7 - i))" by (simp add: algebra_simps)
  moreover have "gs ! g ! (7 - i) = concat gs ! (g * 8 + (7 - i))"
  proof -
    from assms(2) have "g = 0 \<or> g = 1 \<or> g = 2 \<or> g = 3" by auto
    with len show ?thesis by (auto simp: abcd nth_append)
  qed
  ultimately show ?thesis by (simp add: h hash_order_nth [OF assms(2,3)])
qed

lemma concat_pairs_eq:
  "length s = 2 * length ks \<Longrightarrow>
   (\<And>j. j < length ks \<Longrightarrow> [f (ks ! j), g (ks ! j)] = [s ! (2 * j), s ! (2 * j + 1)]) \<Longrightarrow>
   concat (map (\<lambda>k. [f k, g k]) ks) = s"
proof (rule nth_equalityI)
  fix n
  assume len: "length s = 2 * length ks"
    and eq: "\<And>j. j < length ks \<Longrightarrow> [f (ks ! j), g (ks ! j)] = [s ! (2 * j), s ! (2 * j + 1)]"
    and "n < length (concat (map (\<lambda>k. [f k, g k]) ks))"
  then have j: "n div 2 < length ks" by (simp add: length_concat o_def sum_list_triv)
  show "concat (map (\<lambda>k. [f k, g k]) ks) ! n = s ! n"
    using nth_concat_pairs [OF j, of f g] eq [OF j]
    by (cases "even n") (auto elim!: evenE oddE)
qed (simp add: length_concat o_def sum_list_triv)

lemma encode_decode_hash: "decode_hash s = Inr h \<Longrightarrow> encode_hash h = s"
proof -
  assume dec: "decode_hash s = Inr h"
  then have len: "length s = 64" by (auto simp: decode_hash_def HASH_LEN_def split: if_splits)
  have nth: "char_of (unat (as_bytes s ! k)) = s ! k" if "k < 64" for k
    using that len by (metis as_bytes_def length_as_bytes nth_map str_of_as_bytes str_of_bytes_def)
  show ?thesis unfolding encode_hash_order
  proof (rule concat_pairs_eq)
    fix j assume "j < length hash_order"
    then have j: "j div 8 < 4" "j mod 8 < 8" "j div 8 * 8 + j mod 8 = j" "2 * j < 64" "2 * j + 1 < 64"
      by auto
    from decode_pair_canonical [OF decode_hash_pair [OF dec j(1,2)]]
    show "[digit_chr (unat (hash_bytes h ! (hash_order ! j)) div 16),
           digit_chr (unat (hash_bytes h ! (hash_order ! j)) mod 16)] = [s ! (2 * j), s ! (2 * j + 1)]"
      unfolding j(3) hex_byte_digits nth [OF j(4)] nth [OF j(5)] .
  qed (simp add: len)
qed

text \<open>The text of a hash is canonical. A string decodes to \<open>h\<close> exactly when it is the
  64-character encoding of \<open>h\<close> and \<open>h\<close> has 32 bytes; so decoding inverts encoding and no two
  strings (such as an upper-case variant) name the same hash.\<close>

lemma decode_hash_iff: "decode_hash s = Inr h \<longleftrightarrow> wf_hash h \<and> s = encode_hash h"
  using decode_encode_hash decode_hash_wf encode_decode_hash by blast

end
