(* ===== verification/Shard_Format.thy ===== *)
theory Shard_Format
  imports Core_Types
begin

text \<open>
  The MDB shard format of \<open>bale-server-shard/src/lib.rs\<close>: a cursor over the body, the parser
  with its two bookend-terminated sections and optional footer, and the serializer. The
  parser's loops end because each round consumes at least one 48-byte entry. The facts: what
  the parser accepts is well formed, and parsing what the serializer wrote gives the shard back
  with the three footer offsets relocated.
\<close>

section \<open>Data\<close>

definition ENTRY_SIZE :: nat where "ENTRY_SIZE = 48"
definition HEADER_SIZE :: nat where "HEADER_SIZE = 48"
definition FOOTER_SIZE :: nat where "FOOTER_SIZE = 200"
definition MDB_SHARD_HEADER_VERSION :: u64 where "MDB_SHARD_HEADER_VERSION = 2"
definition MDB_SHARD_FOOTER_VERSION :: u64 where "MDB_SHARD_FOOTER_VERSION = 1"
definition FLAG_WITH_VERIFICATION :: u32 where "FLAG_WITH_VERIFICATION = 0x80000000"
definition FLAG_WITH_METADATA_EXT :: u32 where "FLAG_WITH_METADATA_EXT = 0x40000000"
definition MAX_SHARD_BYTES :: nat where "MAX_SHARD_BYTES = 64 * 1024 * 1024"

definition MDB_SHARD_HEADER_TAG :: bytes where
  "MDB_SHARD_HEADER_TAG = as_bytes ''HFRepoMetaData'' @
     [0, 85, 105, 103, 69, 106, 123, 129, 87, 131, 165, 189, 217, 92, 205, 209, 74, 169]"

datatype shard_error =
    ShardTruncated nat nat
  | BadHeaderVersion u64
  | BadFooterVersion u64
  | BadFooterOffset u64 nat
  | ShardTooLarge nat

record shard_header =
  sh_tag :: bytes
  sh_version :: u64
  sh_footer_size :: u64

record file_term_entry =
  fe_xorb :: hash32
  fe_cas_flags :: u32
  fe_unpacked_segment_bytes :: u32
  fe_chunk_idx_start :: u32
  fe_chunk_idx_end :: u32

record parsed_file =
  pf_file_hash :: hash32
  pf_file_flags :: u32
  pf_entries :: "file_term_entry list"
  pf_verifications :: "hash32 list"
  pf_sha256 :: "hash32 option"

record cas_chunk_entry =
  cc_chunk_hash :: hash32
  cc_byte_start :: u32
  cc_unpacked_segment_bytes :: u32

record parsed_cas_block =
  cb_xorb :: hash32
  cb_cas_flags :: u32
  cb_num_bytes_in_cas :: u32
  cb_num_bytes_on_disk :: u32
  cb_chunks :: "cas_chunk_entry list"

record shard_footer =
  sf_version :: u64
  sf_file_info_offset :: u64
  sf_cas_info_offset :: u64
  sf_chunk_hash_hmac_key :: hash32
  sf_shard_creation_timestamp :: u64
  sf_shard_key_expiry :: u64
  sf_footer_offset :: u64

record parsed_shard =
  ps_header :: shard_header
  ps_files :: "parsed_file list"
  ps_cas_blocks :: "parsed_cas_block list"
  ps_footer :: "shard_footer option"

section \<open>The cursor\<close>

record cursor =
  cur_buf :: bytes
  cur_pos :: nat

definition cursor_new :: "bytes \<Rightarrow> cursor" where
  "cursor_new b = \<lparr>cur_buf = b, cur_pos = 0\<rparr>"

definition cursor_remaining :: "cursor \<Rightarrow> nat" where
  "cursor_remaining c = length (cur_buf c) - cur_pos c"

definition cursor_need :: "cursor \<Rightarrow> nat \<Rightarrow> shard_error + unit" where
  "cursor_need c n =
     (if length (cur_buf c) - cur_pos c < n
      then Inl (ShardTruncated (cur_pos c) (n - (length (cur_buf c) - cur_pos c)))
      else Inr ())"

definition cursor_take :: "nat \<Rightarrow> cursor \<Rightarrow> shard_error + bytes \<times> cursor" where
  "cursor_take n c =
     rbind (cursor_need c n) (\<lambda>_.
       Inr (take n (drop (cur_pos c) (cur_buf c)), c\<lparr>cur_pos := cur_pos c + n\<rparr>))"

definition cursor_u32 :: "cursor \<Rightarrow> shard_error + u32 \<times> cursor" where
  "cursor_u32 c = rbind (cursor_take 4 c) (\<lambda>(s, c). Inr (from_le s, c))"

definition cursor_u64 :: "cursor \<Rightarrow> shard_error + u64 \<times> cursor" where
  "cursor_u64 c = rbind (cursor_take 8 c) (\<lambda>(s, c). Inr (from_le s, c))"

definition cursor_hash :: "cursor \<Rightarrow> shard_error + hash32 \<times> cursor" where
  "cursor_hash c = rbind (cursor_take HASH_LEN c) (\<lambda>(s, c). Inr (Hash32 s, c))"

definition cursor_skip :: "nat \<Rightarrow> cursor \<Rightarrow> shard_error + cursor" where
  "cursor_skip n c = rbind (cursor_take n c) (\<lambda>(_, c). Inr c)"

definition swap_u64_groups :: "bytes \<Rightarrow> bytes" where
  "swap_u64_groups inp =
     concat (map (\<lambda>g. map (\<lambda>i. inp ! (g * 8 + (7 - i))) [0..<8]) [0..<4])"

definition is_bookend_hash :: "hash32 \<Rightarrow> bool" where
  "is_bookend_hash h \<longleftrightarrow> list_all (\<lambda>b. b = 0xFF) (hash_bytes h)"

section \<open>Parsing\<close>

text \<open>The bounded loops: \<open>n\<close> rounds of an entry parser, stopping at the first error.\<close>

fun parse_n :: "(cursor \<Rightarrow> shard_error + 'a \<times> cursor) \<Rightarrow> nat \<Rightarrow> cursor \<Rightarrow> shard_error + 'a list \<times> cursor" where
  "parse_n p 0 c = Inr ([], c)"
| "parse_n p (Suc n) c =
     rbind (p c) (\<lambda>(x, c). rbind (parse_n p n c) (\<lambda>(xs, c). Inr (x # xs, c)))"

definition parse_file_term :: "cursor \<Rightarrow> shard_error + file_term_entry \<times> cursor" where
  "parse_file_term c =
     rbind (cursor_hash c) (\<lambda>(cas_hash, c).
     rbind (cursor_u32 c) (\<lambda>(cas_flags, c).
     rbind (cursor_u32 c) (\<lambda>(unpacked, c).
     rbind (cursor_u32 c) (\<lambda>(idx_start, c).
     rbind (cursor_u32 c) (\<lambda>(idx_end, c).
       Inr (\<lparr>fe_xorb = cas_hash, fe_cas_flags = cas_flags, fe_unpacked_segment_bytes = unpacked,
             fe_chunk_idx_start = idx_start, fe_chunk_idx_end = idx_end\<rparr>, c))))))"

definition parse_verification :: "cursor \<Rightarrow> shard_error + hash32 \<times> cursor" where
  "parse_verification c =
     rbind (cursor_hash c) (\<lambda>(range_hash, c).
     rbind (cursor_skip 16 c) (\<lambda>c. Inr (range_hash, c)))"

definition truncated_entries :: "u32 \<Rightarrow> cursor \<Rightarrow> shard_error" where
  "truncated_entries num_entries c =
     ShardTruncated (cur_pos c) (min (unat num_entries * ENTRY_SIZE) u64_max - cursor_remaining c)"

definition parse_verifications :: "u32 \<Rightarrow> u32 \<Rightarrow> cursor \<Rightarrow> shard_error + hash32 list \<times> cursor" where
  "parse_verifications file_flags num_entries c =
     (if file_flags AND FLAG_WITH_VERIFICATION \<noteq> 0
      then if cursor_remaining c div ENTRY_SIZE < unat num_entries
           then Inl (truncated_entries num_entries c)
           else parse_n parse_verification (unat num_entries) c
      else Inr ([], c))"

definition parse_metadata_ext :: "u32 \<Rightarrow> cursor \<Rightarrow> shard_error + hash32 option \<times> cursor" where
  "parse_metadata_ext file_flags c =
     (if file_flags AND FLAG_WITH_METADATA_EXT \<noteq> 0
      then rbind (cursor_hash c) (\<lambda>(h, c).
           rbind (cursor_skip 16 c) (\<lambda>c.
             Inr (Some (Hash32 (swap_u64_groups (hash_bytes h))), c)))
      else Inr (None, c))"

text \<open>One round of the file-info loop; \<open>None\<close> is the bookend that ends it.\<close>

definition parse_file :: "cursor \<Rightarrow> shard_error + parsed_file option \<times> cursor" where
  "parse_file c =
     rbind (cursor_hash c) (\<lambda>(file_hash, c).
     rbind (cursor_u32 c) (\<lambda>(file_flags, c).
     rbind (cursor_u32 c) (\<lambda>(num_entries, c).
     rbind (cursor_skip 8 c) (\<lambda>c.
       if is_bookend_hash file_hash then Inr (None, c)
       else
         let max_entries = (word_of_nat (cursor_remaining c div ENTRY_SIZE) :: u32)
         in if num_entries > max_entries then Inl (truncated_entries num_entries c)
            else
              rbind (parse_n parse_file_term (unat num_entries) c) (\<lambda>(entries, c).
              rbind (parse_verifications file_flags num_entries c) (\<lambda>(verifications, c).
              rbind (parse_metadata_ext file_flags c) (\<lambda>(sha256, c).
                Inr (Some \<lparr>pf_file_hash = file_hash, pf_file_flags = file_flags, pf_entries = entries,
                           pf_verifications = verifications, pf_sha256 = sha256\<rparr>, c))))))))"

definition parse_cas_chunk :: "cursor \<Rightarrow> shard_error + cas_chunk_entry \<times> cursor" where
  "parse_cas_chunk c =
     rbind (cursor_hash c) (\<lambda>(chunk_hash, c).
     rbind (cursor_u32 c) (\<lambda>(byte_start, c).
     rbind (cursor_u32 c) (\<lambda>(unpacked, c).
     rbind (cursor_skip 8 c) (\<lambda>c.
       Inr (\<lparr>cc_chunk_hash = chunk_hash, cc_byte_start = byte_start,
             cc_unpacked_segment_bytes = unpacked\<rparr>, c)))))"

text \<open>One round of the CAS-info loop.\<close>

definition parse_cas_block :: "cursor \<Rightarrow> shard_error + parsed_cas_block option \<times> cursor" where
  "parse_cas_block c =
     rbind (cursor_hash c) (\<lambda>(cas_hash, c).
     rbind (cursor_u32 c) (\<lambda>(cas_flags, c).
     rbind (cursor_u32 c) (\<lambda>(num_entries, c).
     rbind (cursor_u32 c) (\<lambda>(num_bytes_in_cas, c).
     rbind (cursor_u32 c) (\<lambda>(num_bytes_on_disk, c).
       if is_bookend_hash cas_hash then Inr (None, c)
       else if cursor_remaining c div ENTRY_SIZE < unat num_entries
       then Inl (truncated_entries num_entries c)
       else
         rbind (parse_n parse_cas_chunk (unat num_entries) c) (\<lambda>(chunks, c).
           Inr (Some \<lparr>cb_xorb = cas_hash, cb_cas_flags = cas_flags,
                      cb_num_bytes_in_cas = num_bytes_in_cas,
                      cb_num_bytes_on_disk = num_bytes_on_disk, cb_chunks = chunks\<rparr>, c)))))))"

text \<open>The parser's steps only move the cursor forward inside its buffer.\<close>

definition cursor_le :: "cursor \<Rightarrow> cursor \<Rightarrow> bool" where
  "cursor_le c c' \<longleftrightarrow> cur_buf c' = cur_buf c \<and> cur_pos c \<le> cur_pos c' \<and>
     (cur_pos c' \<le> length (cur_buf c') \<or> cur_pos c' = cur_pos c)"

lemma cursor_le_refl [simp]: "cursor_le c c"
  by (simp add: cursor_le_def)

lemma cursor_le_trans: "cursor_le a b \<Longrightarrow> cursor_le b c \<Longrightarrow> cursor_le a c"
  by (auto simp: cursor_le_def)

lemma cursor_take_eq_Inr:
  "cursor_take n c = Inr (s, c') \<longleftrightarrow>
     n \<le> length (cur_buf c) - cur_pos c \<and> s = take n (drop (cur_pos c) (cur_buf c)) \<and>
     c' = c\<lparr>cur_pos := cur_pos c + n\<rparr>"
  by (auto simp: cursor_take_def cursor_need_def rbind_eq_Inr)

lemma parse_n_le:
  assumes "\<And>c x c'. p c = Inr (x, c') \<Longrightarrow> cursor_le c c'"
  shows "parse_n p n c = Inr (xs, c') \<Longrightarrow> cursor_le c c'"
  by (induction n arbitrary: c xs)
    (auto simp: rbind_eq_Inr split: prod.splits intro: cursor_le_trans assms)

lemma cursor_ops_le:
  "cursor_take n c = Inr (s, c') \<Longrightarrow> cursor_le c c'"
  "cursor_u32 c = Inr (w, c') \<Longrightarrow> cursor_le c c'"
  "cursor_u64 c = Inr (v, c') \<Longrightarrow> cursor_le c c'"
  "cursor_hash c = Inr (h, c') \<Longrightarrow> cursor_le c c'"
  "cursor_skip n c = Inr c' \<Longrightarrow> cursor_le c c'"
  by (auto simp: cursor_u32_def cursor_u64_def cursor_hash_def cursor_skip_def cursor_take_eq_Inr
      rbind_eq_Inr cursor_le_def)

lemma cursor_hash_less: "cursor_hash c = Inr (h, c') \<Longrightarrow>
    cur_buf c' = cur_buf c \<and> cur_pos c < cur_pos c' \<and> cur_pos c' \<le> length (cur_buf c')"
  by (auto simp: cursor_hash_def cursor_take_eq_Inr rbind_eq_Inr HASH_LEN_def)

lemma parse_entry_le:
  "parse_file_term c = Inr (e, c') \<Longrightarrow> cursor_le c c'"
  "parse_verification c = Inr (h, c') \<Longrightarrow> cursor_le c c'"
  "parse_cas_chunk c = Inr (k, c') \<Longrightarrow> cursor_le c c'"
  "parse_verifications fl n c = Inr (hs, c') \<Longrightarrow> cursor_le c c'"
  "parse_metadata_ext fl c = Inr (so, c') \<Longrightarrow> cursor_le c c'"
proof -
  show verif: "parse_verification c = Inr (h, c') \<Longrightarrow> cursor_le c c'" for c h c'
    by (auto simp: parse_verification_def rbind_eq_Inr split: prod.splits
        dest!: cursor_ops_le intro: cursor_le_trans)
  show "parse_verifications fl n c = Inr (hs, c') \<Longrightarrow> cursor_le c c'"
    by (auto simp: parse_verifications_def split: if_splits intro: parse_n_le [OF verif])
qed ((auto simp: parse_file_term_def parse_cas_chunk_def parse_metadata_ext_def rbind_eq_Inr
      split: prod.splits if_splits dest!: cursor_ops_le; meson cursor_le_trans)+)

lemma parse_entries_le:
  "parse_n parse_file_term n c = Inr (es, c') \<Longrightarrow> cursor_le c c'"
  "parse_n parse_cas_chunk n c = Inr (ks, c') \<Longrightarrow> cursor_le c c'"
  by (rule parse_n_le, rule parse_entry_le, assumption+)+

lemma cursor_hash_then_le:
  "cursor_hash c = Inr (h, c1) \<Longrightarrow> cursor_le c1 c' \<Longrightarrow>
   length (cur_buf c') - cur_pos c' < length (cur_buf c) - cur_pos c"
  by (drule cursor_hash_less) (auto simp: cursor_le_def)

lemma parse_file_less:
  assumes "parse_file c = Inr (Some f, c')"
  shows "length (cur_buf c') - cur_pos c' < length (cur_buf c) - cur_pos c"
proof -
  obtain h c1 where h: "cursor_hash c = Inr (h, c1)"
    using assms by (auto simp: parse_file_def rbind_eq_Inr)
  have "cursor_le c1 c'"
    using assms unfolding parse_file_def h rbind_simps prod.case
    by (auto simp: rbind_eq_Inr Let_def split: prod.splits if_splits
        dest!: cursor_ops_le parse_entry_le parse_entries_le; meson cursor_le_trans)
  with h show ?thesis by (rule cursor_hash_then_le)
qed

lemma parse_cas_block_less:
  assumes "parse_cas_block c = Inr (Some b, c')"
  shows "length (cur_buf c') - cur_pos c' < length (cur_buf c) - cur_pos c"
proof -
  obtain h c1 where h: "cursor_hash c = Inr (h, c1)"
    using assms by (auto simp: parse_cas_block_def rbind_eq_Inr)
  have "cursor_le c1 c'"
    using assms unfolding parse_cas_block_def h rbind_simps prod.case
    by (auto simp: rbind_eq_Inr split: prod.splits if_splits
        dest!: cursor_ops_le parse_entry_le parse_entries_le; meson cursor_le_trans)
  with h show ?thesis by (rule cursor_hash_then_le)
qed

text \<open>The two section loops, and the whole parser.\<close>

function parse_files :: "cursor \<Rightarrow> shard_error + parsed_file list \<times> cursor" where
  "parse_files c =
     rbind (parse_file c) (\<lambda>r.
       case r of
         (None, c) \<Rightarrow> Inr ([], c)
       | (Some f, c) \<Rightarrow> rbind (parse_files c) (\<lambda>(fs, c). Inr (f # fs, c)))"
  by pat_completeness auto
termination
  by (relation "measure (\<lambda>c. length (cur_buf c) - cur_pos c)") (auto dest: parse_file_less)

function parse_cas_blocks :: "cursor \<Rightarrow> shard_error + parsed_cas_block list \<times> cursor" where
  "parse_cas_blocks c =
     rbind (parse_cas_block c) (\<lambda>r.
       case r of
         (None, c) \<Rightarrow> Inr ([], c)
       | (Some b, c) \<Rightarrow> rbind (parse_cas_blocks c) (\<lambda>(bs, c). Inr (b # bs, c)))"
  by pat_completeness auto
termination
  by (relation "measure (\<lambda>c. length (cur_buf c) - cur_pos c)") (auto dest: parse_cas_block_less)

declare parse_files.simps [simp del] parse_cas_blocks.simps [simp del]

definition parse_footer :: "bytes \<Rightarrow> cursor \<Rightarrow> shard_error + shard_footer" where
  "parse_footer bs c =
     rbind (cursor_u64 c) (\<lambda>(fv, c).
     if fv \<noteq> MDB_SHARD_FOOTER_VERSION then Inl (BadFooterVersion fv)
     else
       rbind (cursor_u64 c) (\<lambda>(file_info_offset, c).
       rbind (cursor_u64 c) (\<lambda>(cas_info_offset, c).
       rbind (cursor_skip 48 c) (\<lambda>c.
       rbind (cursor_hash c) (\<lambda>(hmac_key, c).
       rbind (cursor_u64 c) (\<lambda>(creation, c).
       rbind (cursor_u64 c) (\<lambda>(expiry, c).
       rbind (cursor_skip 72 c) (\<lambda>c.
       rbind (cursor_u64 c) (\<lambda>(footer_offset, c).
       if footer_offset > word_of_nat (length bs)
       then Inl (BadFooterOffset footer_offset (length bs))
       else Inr \<lparr>sf_version = fv, sf_file_info_offset = file_info_offset,
                 sf_cas_info_offset = cas_info_offset, sf_chunk_hash_hmac_key = hmac_key,
                 sf_shard_creation_timestamp = creation, sf_shard_key_expiry = expiry,
                 sf_footer_offset = footer_offset\<rparr>)))))))))"

definition parse :: "bytes \<Rightarrow> shard_error + parsed_shard" where
  "parse bs =
     (if length bs > MAX_SHARD_BYTES then Inl (ShardTooLarge (length bs))
      else
        rbind (cursor_take HASH_LEN (cursor_new bs)) (\<lambda>(tag, c).
        rbind (cursor_u64 c) (\<lambda>(version, c).
        if version \<noteq> MDB_SHARD_HEADER_VERSION then Inl (BadHeaderVersion version)
        else
          rbind (cursor_u64 c) (\<lambda>(footer_size, c).
          rbind (parse_files c) (\<lambda>(files, c).
          rbind (parse_cas_blocks c) (\<lambda>(cas_blocks, c).
          rbind (if footer_size = word_of_nat FOOTER_SIZE
                 then rbind (parse_footer bs c) (\<lambda>f. Inr (Some f))
                 else Inr None) (\<lambda>footer.
            Inr \<lparr>ps_header = \<lparr>sh_tag = tag, sh_version = version, sh_footer_size = footer_size\<rparr>,
                 ps_files = files, ps_cas_blocks = cas_blocks, ps_footer = footer\<rparr>)))))))"

section \<open>Serializing\<close>

definition serialize_term :: "file_term_entry \<Rightarrow> bytes" where
  "serialize_term e =
     hash_bytes (fe_xorb e) @ le32 (fe_cas_flags e) @ le32 (fe_unpacked_segment_bytes e) @
     le32 (fe_chunk_idx_start e) @ le32 (fe_chunk_idx_end e)"

definition serialize_verification :: "hash32 \<Rightarrow> bytes" where
  "serialize_verification v = hash_bytes v @ replicate 16 0"

definition serialize_verifications :: "parsed_file \<Rightarrow> bytes" where
  "serialize_verifications f =
     (if pf_file_flags f AND FLAG_WITH_VERIFICATION \<noteq> 0
      then concat (map serialize_verification (pf_verifications f)) else [])"

definition serialize_metadata_ext :: "parsed_file \<Rightarrow> bytes" where
  "serialize_metadata_ext f =
     (if pf_file_flags f AND FLAG_WITH_METADATA_EXT \<noteq> 0
      then let sha = (case pf_sha256 f of Some h \<Rightarrow> h | None \<Rightarrow> hash_zero)
           in swap_u64_groups (hash_bytes sha) @ replicate 16 0
      else [])"

definition serialize_file :: "parsed_file \<Rightarrow> bytes" where
  "serialize_file f =
     hash_bytes (pf_file_hash f) @ le32 (pf_file_flags f) @
     le32 (word_of_nat (length (pf_entries f))) @ replicate 8 0 @
     concat (map serialize_term (pf_entries f)) @
     serialize_verifications f @ serialize_metadata_ext f"

definition serialize_chunk :: "cas_chunk_entry \<Rightarrow> bytes" where
  "serialize_chunk ce =
     hash_bytes (cc_chunk_hash ce) @ le32 (cc_byte_start ce) @
     le32 (cc_unpacked_segment_bytes ce) @ replicate 8 0"

definition serialize_cas_block :: "parsed_cas_block \<Rightarrow> bytes" where
  "serialize_cas_block b =
     hash_bytes (cb_xorb b) @ le32 (cb_cas_flags b) @
     le32 (word_of_nat (length (cb_chunks b))) @ le32 (cb_num_bytes_in_cas b) @
     le32 (cb_num_bytes_on_disk b) @ concat (map serialize_chunk (cb_chunks b))"

definition bookend :: bytes where
  "bookend = replicate HASH_LEN 0xFF @ replicate 16 0"

definition serialize_footer :: "nat \<Rightarrow> nat \<Rightarrow> nat \<Rightarrow> shard_footer \<Rightarrow> bytes" where
  "serialize_footer file_info_offset cas_info_offset footer_offset ft =
     le64 (sf_version ft) @ le64 (word_of_nat file_info_offset) @ le64 (word_of_nat cas_info_offset) @
     concat (map (\<lambda>v. le64 (word_of_nat v)) [footer_offset, 0, footer_offset, 0, footer_offset, 0]) @
     hash_bytes (sf_chunk_hash_hmac_key ft) @ le64 (sf_shard_creation_timestamp ft) @
     le64 (sf_shard_key_expiry ft) @ replicate 72 0 @ le64 (word_of_nat footer_offset)"

definition serialize :: "parsed_shard \<Rightarrow> bytes" where
  "serialize s =
     (let out = sh_tag (ps_header s) @ le64 (sh_version (ps_header s)) @
                le64 (sh_footer_size (ps_header s));
          file_info_offset = length out;
          out = out @ concat (map serialize_file (ps_files s)) @ bookend;
          cas_info_offset = length out;
          out = out @ concat (map serialize_cas_block (ps_cas_blocks s)) @ bookend;
          footer_offset = length out
      in case ps_footer s of
           Some ft \<Rightarrow> out @ serialize_footer file_info_offset cas_info_offset footer_offset ft
         | None \<Rightarrow> out)"

section \<open>Round trip\<close>


text \<open>A cursor between what was read and what is left.\<close>

definition cur_at :: "bytes \<Rightarrow> bytes \<Rightarrow> cursor" where
  "cur_at pre rest = \<lparr>cur_buf = pre @ rest, cur_pos = length pre\<rparr>"

lemma take_at: "length xs = n \<Longrightarrow> cursor_take n (cur_at pre (xs @ r)) = Inr (xs, cur_at (pre @ xs) r)"
  by (auto simp: cursor_take_eq_Inr cur_at_def)

lemma u32_at: "cursor_u32 (cur_at pre (le32 w @ r)) = Inr (w, cur_at (pre @ le32 w) r)"
  by (simp add: cursor_u32_def take_at)

lemma u64_at: "cursor_u64 (cur_at pre (le64 w @ r)) = Inr (w, cur_at (pre @ le64 w) r)"
  by (simp add: cursor_u64_def take_at)

lemma hash_at: "wf_hash h \<Longrightarrow> cursor_hash (cur_at pre (hash_bytes h @ r)) = Inr (h, cur_at (pre @ hash_bytes h) r)"
  by (simp add: cursor_hash_def take_at wf_hash_def)

lemma skip_at: "length xs = n \<Longrightarrow> cursor_skip n (cur_at pre (xs @ r)) = Inr (cur_at (pre @ xs) r)"
  by (simp add: cursor_skip_def take_at)

lemma remaining_at [simp]: "cursor_remaining (cur_at pre r) = length r"
  by (simp add: cursor_remaining_def cur_at_def)

lemmas at_simps = u32_at u64_at hash_at skip_at append_assoc

lemma parse_n_at:
  assumes "\<And>x pre r. x \<in> set xs \<Longrightarrow> p (cur_at pre (s x @ r)) = Inr (x, cur_at (pre @ s x) r)"
    and "n = length xs"
  shows "parse_n p n (cur_at pre (concat (map s xs) @ r)) = Inr (xs, cur_at (pre @ concat (map s xs)) r)"
  unfolding assms(2) using assms(1)
  by (induction xs arbitrary: pre) (simp_all add: append_assoc)

lemma swap_u64_groups_length [simp]: "length (swap_u64_groups b) = 32"
  by (simp add: swap_u64_groups_def length_concat o_def sum_list_triv)

lemma swap_u64_groups_inv:
  assumes "length b = 32"
  shows "swap_u64_groups (swap_u64_groups b) = b"
proof -
  have u: "[0..<4] = [0, 1, 2, 3::nat]" "[0..<8] = [0, 1, 2, 3, 4, 5, 6, 7::nat]"
    by (simp_all add: upt_rec)
  show ?thesis
    by (rule nth_equalityI)
      (auto simp: swap_u64_groups_def u assms less_Suc_eq eval_nat_numeral)
qed

section \<open>Well-formed shards\<close>

definition wf_shard_file :: "parsed_file \<Rightarrow> bool" where
  "wf_shard_file f \<longleftrightarrow>
     wf_hash (pf_file_hash f) \<and> \<not> is_bookend_hash (pf_file_hash f) \<and>
     length (pf_entries f) \<le> u32_max \<and> list_all (\<lambda>e. wf_hash (fe_xorb e)) (pf_entries f) \<and>
     (if pf_file_flags f AND FLAG_WITH_VERIFICATION \<noteq> 0
      then length (pf_verifications f) = length (pf_entries f) \<and> list_all wf_hash (pf_verifications f)
      else pf_verifications f = []) \<and>
     (if pf_file_flags f AND FLAG_WITH_METADATA_EXT \<noteq> 0
      then (case pf_sha256 f of Some h \<Rightarrow> wf_hash h | None \<Rightarrow> False)
      else pf_sha256 f = None)"

definition wf_cas_block :: "parsed_cas_block \<Rightarrow> bool" where
  "wf_cas_block b \<longleftrightarrow>
     wf_hash (cb_xorb b) \<and> \<not> is_bookend_hash (cb_xorb b) \<and> length (cb_chunks b) \<le> u32_max \<and>
     list_all (\<lambda>ch. wf_hash (cc_chunk_hash ch)) (cb_chunks b)"

definition wf_shard :: "parsed_shard \<Rightarrow> bool" where
  "wf_shard s \<longleftrightarrow>
     length (sh_tag (ps_header s)) = HASH_LEN \<and>
     sh_version (ps_header s) = MDB_SHARD_HEADER_VERSION \<and>
     list_all wf_shard_file (ps_files s) \<and> list_all wf_cas_block (ps_cas_blocks s) \<and>
     (case ps_footer s of
        None \<Rightarrow> sh_footer_size (ps_header s) \<noteq> word_of_nat FOOTER_SIZE
      | Some ft \<Rightarrow> sh_footer_size (ps_header s) = word_of_nat FOOTER_SIZE \<and>
          sf_version ft = MDB_SHARD_FOOTER_VERSION \<and> wf_hash (sf_chunk_hash_hmac_key ft))"

lemma serialize_lengths [simp]:
  "wf_hash (fe_xorb e) \<Longrightarrow> length (serialize_term e) = 48"
  "wf_hash v \<Longrightarrow> length (serialize_verification v) = 48"
  "wf_hash (cc_chunk_hash ch) \<Longrightarrow> length (serialize_chunk ch) = 48"
  "length bookend = 48"
  by (simp_all add: serialize_term_def serialize_verification_def serialize_chunk_def bookend_def
      wf_hash_def HASH_LEN_def)

lemma length_concat_48:
  "list_all (\<lambda>x. length (s x) = 48) xs \<Longrightarrow> length (concat (map s xs)) = 48 * length xs"
  by (induction xs) auto

lemma parse_file_term_at:
  "wf_hash (fe_xorb e) \<Longrightarrow> parse_file_term (cur_at pre (serialize_term e @ r)) = Inr (e, cur_at (pre @ serialize_term e) r)"
  by (simp add: parse_file_term_def serialize_term_def at_simps)

lemma parse_verification_at:
  "wf_hash v \<Longrightarrow> parse_verification (cur_at pre (serialize_verification v @ r)) = Inr (v, cur_at (pre @ serialize_verification v) r)"
  by (simp add: parse_verification_def serialize_verification_def at_simps)

lemma parse_cas_chunk_at:
  "wf_hash (cc_chunk_hash ch) \<Longrightarrow> parse_cas_chunk (cur_at pre (serialize_chunk ch @ r)) = Inr (ch, cur_at (pre @ serialize_chunk ch) r)"
  by (simp add: parse_cas_chunk_def serialize_chunk_def at_simps)

lemma unat_len: "n \<le> u32_max \<Longrightarrow> unat (word_of_nat n :: u32) = n"
  by (simp add: unat_of_nat u32_max_def)

lemma parse_cas_block_at:
  assumes "wf_cas_block b"
  shows "parse_cas_block (cur_at pre (serialize_cas_block b @ r)) = Inr (Some b, cur_at (pre @ serialize_cas_block b) r)"
proof -
  have wf: "wf_hash (cb_xorb b)" "\<not> is_bookend_hash (cb_xorb b)" "length (cb_chunks b) \<le> u32_max"
    and ch: "\<And>c. c \<in> set (cb_chunks b) \<Longrightarrow> wf_hash (cc_chunk_hash c)"
    using assms by (auto simp: wf_cas_block_def list_all_iff)
  have len: "length (concat (map serialize_chunk (cb_chunks b))) = 48 * length (cb_chunks b)"
    by (intro length_concat_48) (simp add: list_all_iff ch)
  then have "length (cb_chunks b) \<le> length (concat (map serialize_chunk (cb_chunks b)) @ r) div ENTRY_SIZE"
    by (simp add: ENTRY_SIZE_def)
  then show ?thesis using wf ch
    by (simp add: parse_cas_block_def serialize_cas_block_def at_simps unat_len not_less
        parse_n_at [OF parse_cas_chunk_at] del: length_append)
qed

lemma parse_verifications_at:
  assumes "wf_shard_file f"
  shows "parse_verifications (pf_file_flags f) (word_of_nat (length (pf_entries f)))
           (cur_at pre (serialize_verifications f @ r))
         = Inr (pf_verifications f, cur_at (pre @ serialize_verifications f) r)"
proof (cases "pf_file_flags f AND FLAG_WITH_VERIFICATION = 0")
  case False
  let ?n = "length (pf_entries f)"
  from False have l: "length (pf_verifications f) = ?n" and n: "?n \<le> u32_max"
      and w: "\<And>h. h \<in> set (pf_verifications f) \<Longrightarrow> wf_hash h"
    using assms by (auto simp: wf_shard_file_def list_all_iff)
  have "length (concat (map serialize_verification (pf_verifications f))) = 48 * ?n"
    unfolding l [symmetric] by (intro length_concat_48) (simp add: list_all_iff w)
  with False n w l show ?thesis
    by (simp add: parse_verifications_def serialize_verifications_def unat_len ENTRY_SIZE_def
        parse_n_at [OF parse_verification_at])
qed (use assms in \<open>simp add: parse_verifications_def serialize_verifications_def wf_shard_file_def\<close>)

lemma parse_metadata_ext_at:
  assumes "wf_shard_file f"
  shows "parse_metadata_ext (pf_file_flags f) (cur_at pre (serialize_metadata_ext f @ r))
         = Inr (pf_sha256 f, cur_at (pre @ serialize_metadata_ext f) r)"
proof (cases "pf_file_flags f AND FLAG_WITH_METADATA_EXT = 0")
  case False
  then obtain h where h: "pf_sha256 f = Some h" "wf_hash h"
    using assms by (auto simp: wf_shard_file_def split: option.splits)
  then have "wf_hash (Hash32 (swap_u64_groups (hash_bytes h)))" by (simp add: wf_hash_def HASH_LEN_def)
  from hash_at [OF this] False h show ?thesis
    by (simp add: parse_metadata_ext_def serialize_metadata_ext_def Let_def skip_at
        swap_u64_groups_inv wf_hash_def HASH_LEN_def)
qed (use assms in \<open>simp add: parse_metadata_ext_def serialize_metadata_ext_def wf_shard_file_def\<close>)

lemma parse_file_at:
  assumes "wf_shard_file f" and "length (serialize_file f @ r) \<le> MAX_SHARD_BYTES"
  shows "parse_file (cur_at pre (serialize_file f @ r)) = Inr (Some f, cur_at (pre @ serialize_file f) r)"
proof -
  let ?n = "length (pf_entries f)" and ?t = "concat (map serialize_term (pf_entries f))"
  have wf: "wf_hash (pf_file_hash f)" "\<not> is_bookend_hash (pf_file_hash f)" "?n \<le> u32_max"
    and es: "\<And>e. e \<in> set (pf_entries f) \<Longrightarrow> wf_hash (fe_xorb e)"
    using assms by (auto simp: wf_shard_file_def list_all_iff)
  have len: "length ?t = 48 * ?n"
    by (intro length_concat_48) (simp add: list_all_iff es)
  let ?rem = "length (?t @ serialize_verifications f @ serialize_metadata_ext f @ r) div ENTRY_SIZE"
  have "?n \<le> ?rem" using len by (simp add: ENTRY_SIZE_def)
  moreover have "?rem \<le> u32_max"
    using assms(2) by (simp add: serialize_file_def ENTRY_SIZE_def MAX_SHARD_BYTES_def u32_max_def)
  ultimately have le: "\<not> (word_of_nat ?rem :: u32) < word_of_nat ?n"
    using wf(3) by (simp only: word_less_nat_alt unat_len not_less)
  have terms: "parse_n parse_file_term ?n (cur_at p (?t @ s)) = Inr (pf_entries f, cur_at (p @ ?t) s)" for p s
    by (rule parse_n_at) (simp_all add: parse_file_term_at es)
  show ?thesis using wf(2) le
    by (simp only: parse_file_def serialize_file_def append_assoc hash_at [OF wf(1)] u32_at skip_at
        length_replicate rbind_simps prod.case if_False Let_def remaining_at unat_len [OF wf(3)] terms
        parse_verifications_at [OF assms(1)] parse_metadata_ext_at [OF assms(1)]) simp
qed

lemma bookend_hash: "wf_hash hash_all_ones" "is_bookend_hash hash_all_ones"
   "bookend = hash_bytes hash_all_ones @ le32 0 @ le32 0 @ replicate 8 0"
   "bookend = hash_bytes hash_all_ones @ le32 0 @ le32 0 @ le32 0 @ le32 0"
  by (simp_all add: wf_hash_def hash_all_ones_def is_bookend_hash_def list_all_iff bookend_def le32_def
      numeral_eq_Suc)

lemma parse_bookend_at:
  "parse_file (cur_at pre (bookend @ r)) = Inr (None, cur_at (pre @ bookend) r)"
  "parse_cas_block (cur_at pre (bookend @ r)) = Inr (None, cur_at (pre @ bookend) r)"
  unfolding parse_file_def parse_cas_block_def
  by (simp only: bookend_hash(3) append_assoc hash_at [OF bookend_hash(1)] u32_at skip_at
      length_replicate rbind_simps prod.case bookend_hash(2) if_True)
    (simp only: bookend_hash(4) append_assoc hash_at [OF bookend_hash(1)] u32_at
      rbind_simps prod.case bookend_hash(2) if_True)

lemma parse_files_at:
  "list_all wf_shard_file fs \<Longrightarrow> length (concat (map serialize_file fs) @ bookend @ r) \<le> MAX_SHARD_BYTES \<Longrightarrow>
   parse_files (cur_at pre (concat (map serialize_file fs) @ bookend @ r))
     = Inr (fs, cur_at (pre @ concat (map serialize_file fs) @ bookend) r)"
proof (induction fs arbitrary: pre)
  case Nil
  then show ?case by (simp add: parse_files.simps [of "cur_at _ _"] parse_bookend_at)
next
  case (Cons f fs)
  have "parse_file (cur_at pre (serialize_file f @ concat (map serialize_file fs) @ bookend @ r))
    = Inr (Some f, cur_at (pre @ serialize_file f) (concat (map serialize_file fs) @ bookend @ r))"
    using Cons.prems by (intro parse_file_at) simp_all
  moreover have "parse_files (cur_at (pre @ serialize_file f) (concat (map serialize_file fs) @ bookend @ r))
     = Inr (fs, cur_at ((pre @ serialize_file f) @ concat (map serialize_file fs) @ bookend) r)"
    using Cons.prems by (intro Cons.IH) simp_all
  ultimately show ?case by (simp add: parse_files.simps [of "cur_at pre _"])
qed

lemma parse_cas_blocks_at:
  "list_all wf_cas_block bs \<Longrightarrow>
   parse_cas_blocks (cur_at pre (concat (map serialize_cas_block bs) @ bookend @ r))
     = Inr (bs, cur_at (pre @ concat (map serialize_cas_block bs) @ bookend) r)"
proof (induction bs arbitrary: pre)
  case Nil
  then show ?case by (simp add: parse_cas_blocks.simps [of "cur_at _ _"] parse_bookend_at)
next
  case (Cons b bs)
  moreover have "parse_cas_block (cur_at pre (serialize_cas_block b @ concat (map serialize_cas_block bs) @ bookend @ r))
    = Inr (Some b, cur_at (pre @ serialize_cas_block b) (concat (map serialize_cas_block bs) @ bookend @ r))"
    using Cons.prems by (intro parse_cas_block_at) simp
  moreover have "parse_cas_blocks (cur_at (pre @ serialize_cas_block b) (concat (map serialize_cas_block bs) @ bookend @ r))
     = Inr (bs, cur_at ((pre @ serialize_cas_block b) @ concat (map serialize_cas_block bs) @ bookend) r)"
    using Cons.prems by (intro Cons.IH) simp
  ultimately show ?case by (simp add: parse_cas_blocks.simps [of "cur_at pre _"])
qed

text \<open>What the serializer makes of the footer: the three offsets are recomputed from the
  positions of the sections it wrote.\<close>

definition relocate_footer :: "parsed_shard \<Rightarrow> parsed_shard" where
  "relocate_footer s =
     s\<lparr>ps_footer := map_option (\<lambda>ft. ft\<lparr>
         sf_file_info_offset := 48,
         sf_cas_info_offset := word_of_nat (48 + length (concat (map serialize_file (ps_files s))) + 48),
         sf_footer_offset := word_of_nat (48 + length (concat (map serialize_file (ps_files s))) + 48 +
           length (concat (map serialize_cas_block (ps_cas_blocks s))) + 48)\<rparr>) (ps_footer s)\<rparr>"

lemma parse_footer_at:
  assumes "sf_version ft = MDB_SHARD_FOOTER_VERSION" "wf_hash (sf_chunk_hash_hmac_key ft)"
    and "fo \<le> length bs" "length bs \<le> MAX_SHARD_BYTES"
  shows "parse_footer bs (cur_at pre (serialize_footer fi ci fo ft @ r))
     = Inr (ft\<lparr>sf_file_info_offset := word_of_nat fi, sf_cas_info_offset := word_of_nat ci,
                sf_footer_offset := word_of_nat fo\<rparr>)"
proof -
  let ?tab = "concat (map (\<lambda>v. le64 (word_of_nat v)) [fo, 0, fo, 0, fo, 0])"
  have tab: "length ?tab = 48" by simp
  have "\<not> word_of_nat fo > (word_of_nat (length bs) :: u64)"
    using assms(3,4) by (simp add: word_less_nat_alt unat_of_nat MAX_SHARD_BYTES_def)
  then show ?thesis using assms(1,2)
    by (simp only: parse_footer_def serialize_footer_def append_assoc u64_at rbind_simps prod.case
        skip_at [OF tab] hash_at skip_at length_replicate if_False simp_thms) (cases ft, simp)
qed

lemma parse_serialize:
  assumes "wf_shard s" and "length (serialize s) \<le> MAX_SHARD_BYTES"
  shows "parse (serialize s) = Inr (relocate_footer s)"
proof -
  let ?h = "ps_header s" and ?F = "concat (map serialize_file (ps_files s))"
    and ?C = "concat (map serialize_cas_block (ps_cas_blocks s))"
  let ?fo = "48 + length ?F + 48 + length ?C + 48"
  let ?T = "case ps_footer s of Some ft \<Rightarrow> serialize_footer 48 (48 + length ?F + 48) ?fo ft | None \<Rightarrow> []"
  have tag: "length (sh_tag ?h) = HASH_LEN" and fs: "list_all wf_shard_file (ps_files s)"
    and cb: "list_all wf_cas_block (ps_cas_blocks s)"
    and ver: "sh_version ?h = MDB_SHARD_HEADER_VERSION"
    using assms(1) by (simp_all add: wf_shard_def)
  have ser: "serialize s = sh_tag ?h @ le64 (sh_version ?h) @ le64 (sh_footer_size ?h) @
      ?F @ bookend @ ?C @ bookend @ ?T"
    using tag by (auto simp: serialize_def Let_def HASH_LEN_def split: option.splits)
  have len: "length (?F @ bookend @ ?C @ bookend @ ?T) \<le> MAX_SHARD_BYTES"
    using assms(2) unfolding ser by simp
  have new: "cursor_new (serialize s) = cur_at [] (sh_tag ?h @ le64 (sh_version ?h) @
      le64 (sh_footer_size ?h) @ ?F @ bookend @ ?C @ bookend @ ?T)"
    unfolding ser by (simp add: cursor_new_def cur_at_def)
  have foot: "(if sh_footer_size ?h = word_of_nat FOOTER_SIZE
                 then rbind (parse_footer (serialize s) (cur_at p ?T)) (\<lambda>f. Inr (Some f))
                 else Inr None) = Inr (ps_footer (relocate_footer s))" for p
  proof (cases "ps_footer s")
    case (Some ft)
    have "?fo \<le> length (serialize s)" using tag unfolding ser by (simp add: HASH_LEN_def)
    with Some assms parse_footer_at [of ft ?fo "serialize s" p 48 "48 + length ?F + 48" "[]"]
    show ?thesis by (simp add: wf_shard_def relocate_footer_def)
  qed (use assms(1) in \<open>simp add: wf_shard_def relocate_footer_def\<close>)
  have "parse (serialize s) = Inr \<lparr>ps_header = \<lparr>sh_tag = sh_tag ?h, sh_version = sh_version ?h,
      sh_footer_size = sh_footer_size ?h\<rparr>, ps_files = ps_files s, ps_cas_blocks = ps_cas_blocks s,
      ps_footer = ps_footer (relocate_footer s)\<rparr>"
    using assms(2) ver
    by (simp only: parse_def new not_less [symmetric] if_False simp_thms take_at [OF tag] u64_at
        rbind_simps prod.case parse_files_at [OF fs len] parse_cas_blocks_at [OF cb] foot)
  then show ?thesis by (simp add: relocate_footer_def)
qed

section \<open>What the parser accepts\<close>


text \<open>The parser's steps as advances by a number of bytes.\<close>

definition adv :: "cursor \<Rightarrow> nat \<Rightarrow> cursor \<Rightarrow> bool" where
  "adv c n c' \<longleftrightarrow> n \<le> length (cur_buf c) - cur_pos c \<and> c' = c\<lparr>cur_pos := cur_pos c + n\<rparr>"

lemma adv_trans [trans]: "adv a m b \<Longrightarrow> adv b n c \<Longrightarrow> adv a (m + n) c"
  by (auto simp: adv_def)

lemma adv_0 [simp]: "adv c 0 c"
  by (simp add: adv_def)

lemma cursor_ops_adv:
  "cursor_take n c = Inr (s, c') \<Longrightarrow> adv c n c' \<and> length s = n"
  "cursor_u32 c = Inr (w, c') \<Longrightarrow> adv c 4 c'"
  "cursor_u64 c = Inr (v, c') \<Longrightarrow> adv c 8 c'"
  "cursor_hash c = Inr (h, c') \<Longrightarrow> adv c 32 c' \<and> wf_hash h"
  "cursor_skip n c = Inr c' \<Longrightarrow> adv c n c'"
  by (auto simp: cursor_u32_def cursor_u64_def cursor_hash_def cursor_skip_def cursor_take_eq_Inr
      rbind_eq_Inr adv_def wf_hash_def HASH_LEN_def)

lemma parse_n_adv:
  assumes "\<And>c x c'. p c = Inr (x, c') \<Longrightarrow> adv c 48 c' \<and> P x"
  shows "parse_n p n c = Inr (xs, c') \<Longrightarrow> adv c (48 * n) c' \<and> length xs = n \<and> list_all P xs"
proof (induction n arbitrary: c xs)
  case (Suc n)
  then obtain x c1 ys where "p c = Inr (x, c1)" "parse_n p n c1 = Inr (ys, c')" "xs = x # ys"
    by (auto simp: rbind_eq_Inr split: prod.splits)
  with Suc.IH assms adv_trans [of c 48 c1 "48 * n" c'] show ?case by auto
qed simp

lemma parse_file_term_adv: "parse_file_term c = Inr (e, c') \<Longrightarrow> adv c 48 c' \<and> wf_hash (fe_xorb e)"
  by (auto simp: parse_file_term_def rbind_eq_Inr split: prod.splits dest!: cursor_ops_adv simp: adv_def)

lemma parse_verification_adv: "parse_verification c = Inr (h, c') \<Longrightarrow> adv c 48 c' \<and> wf_hash h"
  by (auto simp: parse_verification_def rbind_eq_Inr split: prod.splits dest!: cursor_ops_adv simp: adv_def)

lemma parse_cas_chunk_adv: "parse_cas_chunk c = Inr (k, c') \<Longrightarrow> adv c 48 c' \<and> wf_hash (cc_chunk_hash k)"
  by (auto simp: parse_cas_chunk_def rbind_eq_Inr split: prod.splits dest!: cursor_ops_adv simp: adv_def)

lemma parse_entries_adv:
  "parse_n parse_file_term n c = Inr (es, c') \<Longrightarrow>
     adv c (48 * n) c' \<and> length es = n \<and> list_all (\<lambda>e. wf_hash (fe_xorb e)) es"
  "parse_n parse_verification n c = Inr (vs, c') \<Longrightarrow>
     adv c (48 * n) c' \<and> length vs = n \<and> list_all wf_hash vs"
  "parse_n parse_cas_chunk n c = Inr (ks, c') \<Longrightarrow>
     adv c (48 * n) c' \<and> length ks = n \<and> list_all (\<lambda>k. wf_hash (cc_chunk_hash k)) ks"
  by (rule parse_n_adv, rule parse_file_term_adv parse_verification_adv parse_cas_chunk_adv, assumption+)+

lemma unat_le_u32_max: "unat (w :: u32) \<le> u32_max"
  using unsigned_less [of w, where 'a = nat] by (simp add: u32_max_def)

lemma parse_cas_block_adv:
  assumes "parse_cas_block c = Inr (Some b, c')"
  shows "wf_cas_block b \<and> adv c (length (serialize_cas_block b)) c'"
proof -
  obtain h c1 fl c2 n c3 w c4 d c5 where ops: "cursor_hash c = Inr (h, c1)" "cursor_u32 c1 = Inr (fl, c2)"
      "cursor_u32 c2 = Inr (n, c3)" "cursor_u32 c3 = Inr (w, c4)" "cursor_u32 c4 = Inr (d, c5)"
      and nb: "\<not> is_bookend_hash h"
      and ks: "parse_n parse_cas_chunk (unat n) c5 = Inr (cb_chunks b, c')"
      and b: "cb_xorb b = h"
    using assms by (auto simp: parse_cas_block_def rbind_eq_Inr split: prod.splits if_splits)
  have "adv c 48 c5" using ops by (auto dest!: cursor_ops_adv simp: adv_def)
  moreover note k = parse_entries_adv(3) [OF ks]
  moreover have "wf_hash h" using ops(1) cursor_ops_adv(4) by blast
  moreover have "length (concat (map serialize_chunk (cb_chunks b))) = 48 * unat n"
    using k by (subst length_concat_48) (auto simp: list_all_iff)
  ultimately show ?thesis using nb b unat_le_u32_max [of n]
    by (auto simp: wf_cas_block_def serialize_cas_block_def wf_hash_def HASH_LEN_def dest: adv_trans)
qed

lemma parse_verifications_adv:
  assumes "parse_verifications fl n c = Inr (vs, c')"
  shows "(if fl AND FLAG_WITH_VERIFICATION \<noteq> 0 then length vs = unat n \<and> list_all wf_hash vs else vs = [])
     \<and> adv c (48 * length vs) c'"
  using assms parse_entries_adv(2) [of "unat n" c vs c']
  by (auto simp: parse_verifications_def split: if_splits)

lemma parse_metadata_ext_adv:
  assumes "parse_metadata_ext fl c = Inr (so, c')"
  shows "(if fl AND FLAG_WITH_METADATA_EXT \<noteq> 0 then (case so of Some h \<Rightarrow> wf_hash h | None \<Rightarrow> False)
          else so = None) \<and> adv c (if so = None then 0 else 48) c'"
  using assms
  by (auto simp: parse_metadata_ext_def rbind_eq_Inr wf_hash_def HASH_LEN_def split: if_splits prod.splits
      dest!: cursor_ops_adv simp: adv_def)

lemma parse_file_adv:
  assumes "parse_file c = Inr (Some f, c')"
  shows "wf_shard_file f \<and> adv c (length (serialize_file f)) c'"
proof -
  obtain h c1 c2 n c3 c4 c5 c6 where ops: "cursor_hash c = Inr (h, c1)"
      "cursor_u32 c1 = Inr (pf_file_flags f, c2)"
      "cursor_u32 c2 = Inr (n, c3)" "cursor_skip 8 c3 = Inr c4"
      and nb: "\<not> is_bookend_hash h"
      and es: "parse_n parse_file_term (unat n) c4 = Inr (pf_entries f, c5)"
      and vs: "parse_verifications (pf_file_flags f) n c5 = Inr (pf_verifications f, c6)"
      and me: "parse_metadata_ext (pf_file_flags f) c6 = Inr (pf_sha256 f, c')"
      and h: "pf_file_hash f = h"
    using assms by (auto simp: parse_file_def Let_def rbind_eq_Inr split: prod.splits if_splits)
  note e = parse_entries_adv(1) [OF es] and v = parse_verifications_adv [OF vs]
    and m = parse_metadata_ext_adv [OF me]
  have a: "adv c 48 c4" and wf: "wf_hash h" using ops by (auto dest!: cursor_ops_adv simp: adv_def)
  have "length (concat (map serialize_term (pf_entries f))) = 48 * unat n"
    using e by (subst length_concat_48) (auto simp: list_all_iff)
  moreover have "length (serialize_verifications f) = 48 * length (pf_verifications f)"
    using v length_concat_48 [of serialize_verification "pf_verifications f"]
    by (auto simp: serialize_verifications_def list_all_iff split: if_splits)
  moreover have "length (serialize_metadata_ext f) = (if pf_sha256 f = None then 0 else 48)"
    using m by (auto simp: serialize_metadata_ext_def Let_def split: if_splits option.splits)
  ultimately have "length (serialize_file f) = 48 + 48 * unat n + 48 * length (pf_verifications f) +
      (if pf_sha256 f = None then 0 else 48)"
    using wf by (simp add: serialize_file_def h wf_hash_def HASH_LEN_def)
  moreover have "adv c (48 + 48 * unat n + 48 * length (pf_verifications f) +
      (if pf_sha256 f = None then 0 else 48)) c'"
    using a e v m adv_trans by blast
  moreover have "wf_shard_file f"
    using wf nb h e v m unat_le_u32_max [of n] by (auto simp: wf_shard_file_def split: if_splits)
  ultimately show ?thesis by simp
qed

lemma bookend_adv:
  "parse_file c = Inr (None, c') \<Longrightarrow> adv c 48 c'"
  "parse_cas_block c = Inr (None, c') \<Longrightarrow> adv c 48 c'"
  by (auto simp: parse_file_def parse_cas_block_def Let_def rbind_eq_Inr split: prod.splits if_splits
      dest!: cursor_ops_adv simp: adv_def)

lemma parse_files_adv:
  "parse_files c = Inr (fs, c') \<Longrightarrow>
   list_all wf_shard_file fs \<and> adv c (length (concat (map serialize_file fs) @ bookend)) c'"
proof (induction c arbitrary: fs rule: parse_files.induct)
  case (1 c)
  show ?case
  proof (cases fs)
    case Nil
    with "1.prems" show ?thesis
      by (auto simp: parse_files.simps [of c] rbind_eq_Inr split: prod.splits option.splits dest: bookend_adv)
  next
    case (Cons f gs)
    with "1.prems" obtain c1 where f: "parse_file c = Inr (Some f, c1)" and g: "parse_files c1 = Inr (gs, c')"
      by (auto simp: parse_files.simps [of c] rbind_eq_Inr split: prod.splits option.splits)
    have "list_all wf_shard_file gs \<and> adv c1 (length (concat (map serialize_file gs) @ bookend)) c'"
      by (rule "1.IH" [OF f _ refl g]) simp
    with parse_file_adv [OF f] adv_trans show ?thesis by (fastforce simp: Cons add.assoc)
  qed
qed

lemma parse_cas_blocks_adv:
  "parse_cas_blocks c = Inr (bs, c') \<Longrightarrow>
   list_all wf_cas_block bs \<and> adv c (length (concat (map serialize_cas_block bs) @ bookend)) c'"
proof (induction c arbitrary: bs rule: parse_cas_blocks.induct)
  case (1 c)
  show ?case
  proof (cases bs)
    case Nil
    with "1.prems" show ?thesis
      by (auto simp: parse_cas_blocks.simps [of c] rbind_eq_Inr split: prod.splits option.splits dest: bookend_adv)
  next
    case (Cons b gs)
    with "1.prems" obtain c1 where f: "parse_cas_block c = Inr (Some b, c1)"
        and g: "parse_cas_blocks c1 = Inr (gs, c')"
      by (auto simp: parse_cas_blocks.simps [of c] rbind_eq_Inr split: prod.splits option.splits)
    have "list_all wf_cas_block gs \<and> adv c1 (length (concat (map serialize_cas_block gs) @ bookend)) c'"
      by (rule "1.IH" [OF f _ refl g]) simp
    with parse_cas_block_adv [OF f] adv_trans show ?thesis by (fastforce simp: Cons add.assoc)
  qed
qed

lemma parse_footer_adv:
  "parse_footer bs c = Inr ft \<Longrightarrow>
   sf_version ft = MDB_SHARD_FOOTER_VERSION \<and> wf_hash (sf_chunk_hash_hmac_key ft) \<and>
   (\<exists>c'. adv c FOOTER_SIZE c')"
  by (auto simp: parse_footer_def rbind_eq_Inr FOOTER_SIZE_def split: prod.splits if_splits
      dest!: cursor_ops_adv simp: adv_def; linarith)

lemma parse_wf_length:
  assumes "parse bs = Inr s"
  shows "wf_shard s \<and> length (serialize s) \<le> length bs \<and> length bs \<le> MAX_SHARD_BYTES"
proof -
  let ?h = "ps_header s" and ?F = "concat (map serialize_file (ps_files s))"
    and ?C = "concat (map serialize_cas_block (ps_cas_blocks s))"
  obtain c1 c2 c3 c4 c5 where ops: "cursor_take HASH_LEN (cursor_new bs) = Inr (sh_tag ?h, c1)"
      "cursor_u64 c1 = Inr (sh_version ?h, c2)" "cursor_u64 c2 = Inr (sh_footer_size ?h, c3)"
      and ver: "sh_version ?h = MDB_SHARD_HEADER_VERSION" and len: "length bs \<le> MAX_SHARD_BYTES"
      and fs: "parse_files c3 = Inr (ps_files s, c4)"
      and cb: "parse_cas_blocks c4 = Inr (ps_cas_blocks s, c5)"
      and foot: "(if sh_footer_size ?h = word_of_nat FOOTER_SIZE
                 then rbind (parse_footer bs c5) (\<lambda>f. Inr (Some f))
                 else Inr None) = Inr (ps_footer s)"
    using assms by (auto simp: parse_def rbind_eq_Inr split: prod.splits if_splits)
  have "adv (cursor_new bs) 48 c3" and tag: "length (sh_tag ?h) = HASH_LEN"
    using ops by (auto dest!: cursor_ops_adv simp: adv_def HASH_LEN_def)
  then have "adv (cursor_new bs) (48 + length (?F @ bookend) + length (?C @ bookend)) c5"
    using parse_files_adv [OF fs] parse_cas_blocks_adv [OF cb] adv_trans by blast
  moreover have "\<exists>c'. adv c5 (case ps_footer s of Some _ \<Rightarrow> FOOTER_SIZE | None \<Rightarrow> 0) c'"
    using foot parse_footer_adv adv_0
    by (auto simp: rbind_eq_Inr split: if_splits option.splits dest!: parse_footer_adv) (blast intro: adv_0)+
  ultimately obtain c' where "adv (cursor_new bs) (48 + length (?F @ bookend) + length (?C @ bookend) +
      (case ps_footer s of Some _ \<Rightarrow> FOOTER_SIZE | None \<Rightarrow> 0)) c'"
    using adv_trans by blast
  moreover have wf: "wf_shard s"
    using tag ver foot parse_files_adv [OF fs] parse_cas_blocks_adv [OF cb]
    by (cases "ps_footer s")
      (auto simp: wf_shard_def rbind_eq_Inr split: if_splits dest!: parse_footer_adv)
  ultimately show ?thesis using tag len
    by (auto simp: serialize_def serialize_footer_def Let_def HASH_LEN_def FOOTER_SIZE_def adv_def
        cursor_new_def wf_shard_def wf_hash_def split: option.splits)
qed

definition shard_example :: parsed_shard where
  "shard_example = \<lparr>
     ps_header = \<lparr>sh_tag = MDB_SHARD_HEADER_TAG, sh_version = 2, sh_footer_size = 200\<rparr>,
     ps_files = [\<lparr>pf_file_hash = hash_zero, pf_file_flags = 0xC0000000,
       pf_entries = [\<lparr>fe_xorb = hash_zero, fe_cas_flags = 0, fe_unpacked_segment_bytes = 7,
                      fe_chunk_idx_start = 0, fe_chunk_idx_end = 1\<rparr>],
       pf_verifications = [hash_zero], pf_sha256 = Some hash_all_ones\<rparr>],
     ps_cas_blocks = [\<lparr>cb_xorb = hash_zero, cb_cas_flags = 0, cb_num_bytes_in_cas = 7,
       cb_num_bytes_on_disk = 15,
       cb_chunks = [\<lparr>cc_chunk_hash = hash_zero, cc_byte_start = 0, cc_unpacked_segment_bytes = 7\<rparr>]\<rparr>],
     ps_footer = Some \<lparr>sf_version = 1, sf_file_info_offset = 0, sf_cas_info_offset = 0,
       sf_chunk_hash_hmac_key = hash_zero, sf_shard_creation_timestamp = 9, sf_shard_key_expiry = 10,
       sf_footer_offset = 0\<rparr>\<rparr>"

lemma shard_example_wf: "wf_shard shard_example"
  by (simp add: shard_example_def wf_shard_def wf_shard_file_def wf_cas_block_def wf_hash_def
      hash_zero_def hash_all_ones_def HASH_LEN_def MDB_SHARD_HEADER_TAG_def as_bytes_def
      MDB_SHARD_HEADER_VERSION_def MDB_SHARD_FOOTER_VERSION_def FOOTER_SIZE_def is_bookend_hash_def
      FLAG_WITH_VERIFICATION_def FLAG_WITH_METADATA_EXT_def u32_max_def list_all_iff)

lemma shard_example_length: "length (serialize shard_example) \<le> MAX_SHARD_BYTES"
  by (simp add: shard_example_def serialize_def serialize_file_def serialize_verifications_def serialize_footer_def
      serialize_metadata_ext_def serialize_cas_block_def serialize_term_def serialize_chunk_def Let_def 
      serialize_verification_def bookend_def MAX_SHARD_BYTES_def
      hash_zero_def hash_all_ones_def HASH_LEN_def MDB_SHARD_HEADER_TAG_def)

text \<open>C16: writing a well-formed shard of at most 64 MiB and parsing it back gives the same shard
  with its three footer offsets set to the positions of the sections that were written: no file,
  term, verification hash, SHA-256, CAS block or chunk is lost, reordered or changed.\<close>

theorem shard_round_trip:
  assumes "wf_shard s" and "length (serialize s) \<le> MAX_SHARD_BYTES"
  shows "parse (serialize s) = Inr (relocate_footer s)"
  using assms by (rule parse_serialize)

theorem shard_round_trip_witness:
  "wf_shard shard_example \<and> parse (serialize shard_example) = Inr (relocate_footer shard_example)"
  using shard_round_trip [OF shard_example_wf shard_example_length] shard_example_wf by simp

text \<open>C17: everything the parser accepts is well formed (32-byte hashes, no bookend among the
  entries, verification and SHA-256 parts present exactly as the flags say, a footer exactly when
  the header announces 200 bytes), is at most 64 MiB long, and survives being serialized and
  parsed again.\<close>

theorem parse_accepts_wf:
  assumes "parse bs = Inr s"
  shows "wf_shard s \<and> length bs \<le> MAX_SHARD_BYTES \<and> parse (serialize s) = Inr (relocate_footer s)"
  using parse_wf_length [OF assms] parse_serialize [of s] by simp

theorem parse_accepts_wf_witness:
  "parse (serialize shard_example) = Inr (relocate_footer shard_example) \<and>
   parse (serialize (relocate_footer shard_example)) = Inr (relocate_footer (relocate_footer shard_example))"
  using parse_accepts_wf [OF parse_serialize [OF shard_example_wf shard_example_length]]
    parse_serialize [OF shard_example_wf shard_example_length] by simp

end
