(* ===== verification/Xorb_Format.thy ===== *)
theory Xorb_Format
  imports Core_Types
begin

text \<open>
  Xorb bodies, \<open>bale-server-shard/src/xorb.rs\<close>: the frame scanner, the verification of an upload
  against its hash and the decompression of a range of frames. Decompression and the two hash
  functions belong to \<open>xet_core_structures\<close> and are parameters. The scanner is characterised
  by a decomposition of the body into frames and a trailer; from it follows that a byte range cut
  at frame boundaries scans to exactly the frames it covers, which is what lets the server hand
  out ranges of a stored body.
\<close>

section \<open>Data\<close>

record xorb_chunk_frame =
  xc_on_disk_start :: u32
  xc_on_disk_len :: u32
  xc_uncompressed_len :: u32
  xc_compression_scheme :: u8

datatype xorb_parse_error =
    XorbEmpty
  | XorbTruncated nat nat nat
  | BadCompressionScheme nat u8
  | XorbTooLarge nat nat

datatype xorb_verify_error =
    XorbParse xorb_parse_error
  | DecompressFailed nat string
  | LengthMismatch nat nat nat
  | HashMismatch

text \<open>The enum of \<open>xet_core_structures\<close> with the variants the code names.\<close>

datatype compression_scheme = SchemeNone | SchemeLZ4 | SchemeByteGrouping4LZ4

definition HEADER_LEN :: nat where
  "HEADER_LEN = 8"

section \<open>Scanning frames\<close>

definition u24_le :: "bytes \<Rightarrow> u32" where
  "u24_le b = (ucast (b ! 0) OR push_bit 8 (ucast (b ! 1))) OR push_bit 16 (ucast (b ! 2))"

function xorb_frames_loop ::
  "bytes \<Rightarrow> nat \<Rightarrow> xorb_chunk_frame list \<Rightarrow> xorb_parse_error + xorb_chunk_frame list" where
  "xorb_frames_loop body pos frames =
     (if pos + HEADER_LEN \<le> length body then
        let header = take HEADER_LEN (drop pos body);
            version = header ! 0
        in if version \<noteq> 0 then Inr frames
           else
             let compressed_length = u24_le (take 3 (drop 1 header));
                 scheme = header ! 4;
                 uncompressed_length = u24_le (take 3 (drop 5 header));
                 frame_len = HEADER_LEN + unat compressed_length
             in if \<not> scheme \<le> 2 then Inl (BadCompressionScheme (length frames) scheme)
                else if frame_len > u64_max
                then Inl (XorbTruncated (length frames) u64_max (length body - pos))
                else if pos + frame_len > length body
                then Inl (XorbTruncated (length frames) frame_len (length body - pos))
                else xorb_frames_loop body (pos + frame_len)
                       (frames @ [\<lparr>xc_on_disk_start = word_of_nat pos,
                                   xc_on_disk_len = word_of_nat frame_len,
                                   xc_uncompressed_len = uncompressed_length,
                                   xc_compression_scheme = scheme\<rparr>])
      else Inr frames)"
  by pat_completeness auto
termination
  by (relation "measure (\<lambda>(body, pos, _). length body - pos)") (auto simp: HEADER_LEN_def)

declare xorb_frames_loop.simps [simp del]

definition parse_xorb_frames :: "bytes \<Rightarrow> xorb_parse_error + xorb_chunk_frame list" where
  "parse_xorb_frames body =
     (if length body > u32_max then Inl (XorbTooLarge (length body) u32_max)
      else rbind (xorb_frames_loop body 0 []) (\<lambda>frames.
        if frames = [] then Inl XorbEmpty else Inr frames))"

section \<open>Decompression and verification\<close>

type_synonym decompressor = "compression_scheme \<Rightarrow> bytes \<Rightarrow> string + bytes"

definition frame_payload :: "bytes \<Rightarrow> xorb_chunk_frame \<Rightarrow> bytes" where
  "frame_payload body f =
     (let payload_start = unat (xc_on_disk_start f) + HEADER_LEN;
          payload_end = unat (xc_on_disk_start f) + unat (xc_on_disk_len f)
      in take (payload_end - payload_start) (drop payload_start body))"

definition frame_scheme :: "nat \<Rightarrow> u8 \<Rightarrow> xorb_verify_error + compression_scheme" where
  "frame_scheme i sch =
     (if sch = 0 then Inr SchemeNone
      else if sch = 1 then Inr SchemeLZ4
      else if sch = 2 then Inr SchemeByteGrouping4LZ4
      else Inl (XorbParse (BadCompressionScheme i sch)))"

text \<open>The body of both loops: one frame decompressed and its length checked.\<close>

definition decompress_frame ::
  "decompressor \<Rightarrow> bytes \<Rightarrow> nat \<Rightarrow> xorb_chunk_frame \<Rightarrow> xorb_verify_error + bytes" where
  "decompress_frame dec body i f =
     rbind (frame_scheme i (xc_compression_scheme f)) (\<lambda>scheme.
     rbind (rmap_err (DecompressFailed i) (dec scheme (frame_payload body f))) (\<lambda>decompressed.
       if length decompressed \<noteq> unat (xc_uncompressed_len f)
       then Inl (LengthMismatch i (unat (xc_uncompressed_len f)) (length decompressed))
       else Inr decompressed))"

fun verify_entries ::
  "decompressor \<Rightarrow> (bytes \<Rightarrow> hash32) \<Rightarrow> bytes \<Rightarrow> nat \<Rightarrow> xorb_chunk_frame list \<Rightarrow>
   xorb_verify_error + (hash32 \<times> nat) list" where
  "verify_entries dec data_hash body i [] = Inr []"
| "verify_entries dec data_hash body i (f # fs) =
     rbind (decompress_frame dec body i f) (\<lambda>d.
     rbind (verify_entries dec data_hash body (i + 1) fs) (\<lambda>es.
       Inr ((data_hash d, length d) # es)))"

definition verify_xorb_body ::
  "decompressor \<Rightarrow> (bytes \<Rightarrow> hash32) \<Rightarrow> ((hash32 \<times> nat) list \<Rightarrow> hash32) \<Rightarrow> bytes \<Rightarrow> hash32 \<Rightarrow>
   xorb_verify_error + unit" where
  "verify_xorb_body dec data_hash xorb_hash body expected =
     rbind (rmap_err XorbParse (parse_xorb_frames body)) (\<lambda>frames.
     rbind (verify_entries dec data_hash body 0 frames) (\<lambda>entries.
       if xorb_hash entries \<noteq> expected then Inl HashMismatch else Inr ()))"

text \<open>The output vector is the caller's, so what was appended before an error stays in it.\<close>

fun decompress_loop ::
  "decompressor \<Rightarrow> bytes \<Rightarrow> nat \<Rightarrow> xorb_chunk_frame list \<Rightarrow> bytes \<Rightarrow> (xorb_verify_error + unit) \<times> bytes" where
  "decompress_loop dec body i [] out = (Inr (), out)"
| "decompress_loop dec body i (f # fs) out =
     (case decompress_frame dec body i f of
        Inl e \<Rightarrow> (Inl e, out)
      | Inr d \<Rightarrow> decompress_loop dec body (i + 1) fs (out @ d))"

definition decompress_xorb_chunks_into ::
  "decompressor \<Rightarrow> bytes \<Rightarrow> bytes \<Rightarrow> (xorb_verify_error + unit) \<times> bytes" where
  "decompress_xorb_chunks_into dec body out =
     (case parse_xorb_frames body of
        Inl e \<Rightarrow> (Inl (XorbParse e), out)
      | Inr frames \<Rightarrow> decompress_loop dec body 0 frames out)"

section \<open>Bodies as sequences of frames\<close>

text \<open>What a frame is, independently of the scanner.\<close>

definition frame_seg :: "bytes \<Rightarrow> bool" where
  "frame_seg seg \<longleftrightarrow>
     HEADER_LEN \<le> length seg \<and> seg ! 0 = 0 \<and> seg ! 4 \<le> 2 \<and>
     length seg = HEADER_LEN + unat (u24_le (take 3 (drop 1 seg)))"

text \<open>What ends the scan: fewer than eight bytes, or a non-zero version byte.\<close>

definition frame_stop :: "bytes \<Rightarrow> bool" where
  "frame_stop r \<longleftrightarrow> length r < HEADER_LEN \<or> r ! 0 \<noteq> 0"

definition seg_frame :: "nat \<Rightarrow> bytes \<Rightarrow> xorb_chunk_frame" where
  "seg_frame pos seg =
     \<lparr>xc_on_disk_start = word_of_nat pos, xc_on_disk_len = word_of_nat (length seg),
      xc_uncompressed_len = u24_le (take 3 (drop 5 seg)), xc_compression_scheme = seg ! 4\<rparr>"

fun frame_layout :: "nat \<Rightarrow> bytes list \<Rightarrow> xorb_chunk_frame list" where
  "frame_layout pos [] = []"
| "frame_layout pos (seg # segs) = seg_frame pos seg # frame_layout (pos + length seg) segs"

section \<open>The scanner\<close>

lemma drop_split: "drop m xs = take n (drop m xs) @ drop (m + n) xs"
  using append_take_drop_id [of n "drop m xs"] by (simp add: add.commute)

lemma header_of_seg:
  assumes "drop pos body = seg @ r" and "HEADER_LEN \<le> length seg"
  shows "take HEADER_LEN (drop pos body) ! 0 = seg ! 0"
    and "take HEADER_LEN (drop pos body) ! 4 = seg ! 4"
    and "take 3 (drop 1 (take HEADER_LEN (drop pos body))) = take 3 (drop 1 seg)"
    and "take 3 (drop 5 (take HEADER_LEN (drop pos body))) = take 3 (drop 5 seg)"
  using assms by (simp_all add: nth_append drop_take HEADER_LEN_def)

lemma xorb_frames_loop_step:
  assumes "drop pos body = seg @ r" and "frame_seg seg" and "length body \<le> u32_max"
  shows "xorb_frames_loop body pos acc = xorb_frames_loop body (pos + length seg) (acc @ [seg_frame pos seg])"
proof -
  have seg: "HEADER_LEN \<le> length seg" "seg ! 0 = 0" "seg ! 4 \<le> 2"
      "HEADER_LEN + unat (u24_le (take 3 (drop 1 seg))) = length seg"
    using assms(2) unfolding frame_seg_def by (blast dest: sym)+
  have "length body - pos = length seg + length r"
    using arg_cong [OF assms(1), of length] by simp
  then have le: "pos + length seg \<le> length body" using seg(1) by (simp add: HEADER_LEN_def)
  then have "\<not> u64_max < length seg" "\<not> length body < pos + length seg" "pos + HEADER_LEN \<le> length body"
    using assms(3) seg(1) by (simp_all add: u64_max_def u32_max_def)
  with seg show ?thesis
    unfolding xorb_frames_loop.simps [of body pos acc] Let_def
    by (simp only: header_of_seg [OF assms(1) seg(1)] seg_frame_def if_True if_False simp_thms)
qed

lemma xorb_frames_loop_stop:
  assumes "frame_stop (drop pos body)"
  shows "xorb_frames_loop body pos acc = Inr acc"
  using assms by (auto simp: xorb_frames_loop.simps [of body pos acc] frame_stop_def HEADER_LEN_def)

lemma xorb_frames_loop_complete:
  assumes "length body \<le> u32_max" and "frame_stop r" and "list_all frame_seg segs"
    and "drop pos body = concat segs @ r"
  shows "xorb_frames_loop body pos acc = Inr (acc @ frame_layout pos segs)"
  using assms(3,4)
proof (induction segs arbitrary: pos acc)
  case Nil
  with assms(2) show ?case by (simp add: xorb_frames_loop_stop)
next
  case (Cons seg segs)
  then have d: "drop pos body = seg @ concat segs @ r" and s: "frame_seg seg" by simp_all
  have "drop (pos + length seg) body = concat segs @ r"
    using arg_cong [OF d, of "drop (length seg)"] by (simp add: add.commute)
  with Cons show ?case
    by (simp add: xorb_frames_loop_step [OF d s assms(1)])
qed

lemma xorb_frames_loop_sound:
  assumes "length body \<le> u32_max"
  shows "xorb_frames_loop body pos acc = Inr fs \<Longrightarrow>
    \<exists>segs r. drop pos body = concat segs @ r \<and> list_all frame_seg segs \<and> frame_stop r"
proof (induction body pos acc rule: xorb_frames_loop.induct)
  case (1 body pos acc)
  show ?case
  proof (cases "frame_stop (drop pos body)")
    case True
    then show ?thesis by (intro exI [of _ "[]"] exI [of _ "drop pos body"]) simp
  next
    case False
    let ?h = "take HEADER_LEN (drop pos body)"
    let ?n = "HEADER_LEN + unat (u24_le (take 3 (drop 1 ?h)))"
    let ?seg = "take ?n (drop pos body)"
    have h: "pos + HEADER_LEN \<le> length body" "?h ! 0 = 0"
      using False by (auto simp: frame_stop_def HEADER_LEN_def)
    with "1.prems" have ok: "?h ! 4 \<le> 2" "\<not> u64_max < ?n" "\<not> length body < pos + ?n"
      and next': "xorb_frames_loop body (pos + ?n) (acc @ [\<lparr>xc_on_disk_start = word_of_nat pos,
          xc_on_disk_len = word_of_nat ?n, xc_uncompressed_len = u24_le (take 3 (drop 5 ?h)),
          xc_compression_scheme = ?h ! 4\<rparr>]) = Inr fs"
      unfolding xorb_frames_loop.simps [of body pos acc] Let_def by (simp_all split: if_splits)
    have "\<exists>segs r. drop (pos + ?n) body = concat segs @ r \<and> list_all frame_seg segs \<and> frame_stop r"
      by (rule "1.IH" [OF h(1) refl refl _ refl refl refl refl _ ok(2,3) next']) (use h ok in simp_all)
    then obtain segs r where ih: "drop (pos + ?n) body = concat segs @ r" "list_all frame_seg segs" "frame_stop r"
      by blast
    have split: "drop pos body = ?seg @ drop (pos + ?n) body" by (rule drop_split)
    have len: "length ?seg = ?n" using ok(3) by simp
    then have hl: "HEADER_LEN \<le> length ?seg" by simp
    have "frame_seg ?seg"
      unfolding frame_seg_def using header_of_seg [OF split hl] h(2) ok(1) len hl by (intro conjI) presburger+
    with ih split show ?thesis
      by (intro exI [of _ "?seg # segs"] exI [of _ r]) simp
  qed
qed

lemma frame_layout_empty [simp]: "frame_layout pos segs = [] \<longleftrightarrow> segs = []"
  by (cases segs) auto

lemma parse_xorb_frames_iff:
  "parse_xorb_frames body = Inr frames \<longleftrightarrow>
     (\<exists>segs r. body = concat segs @ r \<and> list_all frame_seg segs \<and> frame_stop r \<and>
        segs \<noteq> [] \<and> length body \<le> u32_max \<and> frames = frame_layout 0 segs)"
proof
  assume "parse_xorb_frames body = Inr frames"
  then have len: "length body \<le> u32_max" and fs: "xorb_frames_loop body 0 [] = Inr frames" "frames \<noteq> []"
    by (auto simp: parse_xorb_frames_def rbind_eq_Inr split: if_splits)
  obtain segs r where d: "body = concat segs @ r" "list_all frame_seg segs" "frame_stop r"
    using xorb_frames_loop_sound [OF len fs(1)] by auto
  with xorb_frames_loop_complete [OF len d(3,2), of 0 "[]"] fs len
  show "\<exists>segs r. body = concat segs @ r \<and> list_all frame_seg segs \<and> frame_stop r \<and>
        segs \<noteq> [] \<and> length body \<le> u32_max \<and> frames = frame_layout 0 segs"
    by (intro exI [of _ segs] exI [of _ r]) auto
next
  assume "\<exists>segs r. body = concat segs @ r \<and> list_all frame_seg segs \<and> frame_stop r \<and>
        segs \<noteq> [] \<and> length body \<le> u32_max \<and> frames = frame_layout 0 segs"
  then show "parse_xorb_frames body = Inr frames"
    using xorb_frames_loop_complete [of body _ _ 0 "[]"] by (auto simp: parse_xorb_frames_def)
qed

lemma length_frame_layout [simp]: "length (frame_layout pos segs) = length segs"
  by (induction segs arbitrary: pos) auto

lemma frame_layout_append:
  "frame_layout pos (xs @ ys) = frame_layout pos xs @ frame_layout (pos + length (concat xs)) ys"
  by (induction xs arbitrary: pos) (auto simp: add.assoc)

lemma frame_layout_nth:
  "i < length segs \<Longrightarrow> frame_layout pos segs ! i = seg_frame (pos + length (concat (take i segs))) (segs ! i)"
  by (induction segs arbitrary: pos i) (auto simp: nth_Cons' take_Cons' add.assoc)

section \<open>Ranges cut at frame boundaries\<close>

text \<open>Contents of a frame: its payload decompressed, with the length check.\<close>

definition seg_content :: "decompressor \<Rightarrow> bytes \<Rightarrow> bytes option" where
  "seg_content dec seg =
     (case frame_scheme 0 (seg ! 4) of
        Inl _ \<Rightarrow> None
      | Inr sch \<Rightarrow> (case dec sch (drop HEADER_LEN seg) of
          Inl _ \<Rightarrow> None
        | Inr d \<Rightarrow> if length d = unat (u24_le (take 3 (drop 5 seg))) then Some d else None))"

lemma frame_scheme_index: "frame_scheme i s = Inr sch \<longleftrightarrow> frame_scheme j s = Inr sch"
  by (auto simp: frame_scheme_def)

lemma frame_payload_seg:
  assumes "length (pre @ seg @ r) \<le> u32_max"
  shows "frame_payload (pre @ seg @ r) (seg_frame (length pre) seg) = drop HEADER_LEN seg"
  using assms by (simp add: frame_payload_def seg_frame_def Let_def unat_of_nat u32_max_def)

lemma decompress_frame_seg:
  assumes "length (pre @ seg @ r) \<le> u32_max"
  shows "decompress_frame dec (pre @ seg @ r) i (seg_frame (length pre) seg) = Inr d \<longleftrightarrow> seg_content dec seg = Some d"
  unfolding decompress_frame_def frame_payload_seg [OF assms] seg_content_def
  using frame_scheme_index [of i "seg ! 4" _ 0]
  by (auto simp: rbind_eq_Inr rmap_err_eq_Inr seg_frame_def split: sum.splits if_splits)

lemma decompress_loop_segs:
  assumes "list_all2 (\<lambda>seg d. seg_content dec seg = Some d) segs ds"
    and "body = pre @ concat segs @ r" and "length body \<le> u32_max"
  shows "decompress_loop dec body i (frame_layout (length pre) segs) out = (Inr (), out @ concat ds)"
  using assms
proof (induction segs ds arbitrary: pre i out rule: list_all2_induct)
  case (Cons seg segs d ds)
  have "decompress_frame dec body i (seg_frame (length pre) seg) = Inr d"
    using Cons decompress_frame_seg [of pre seg "concat segs @ r" dec i d] by simp
  with Cons.IH [of "pre @ seg" "i + 1" "out @ d"] Cons.prems show ?case by simp
qed simp

lemma decompress_loop_ok:
  assumes "decompress_loop dec body i (frame_layout (length pre) segs) out = (Inr (), out')"
    and "body = pre @ concat segs @ r" and "length body \<le> u32_max"
  shows "\<exists>ds. list_all2 (\<lambda>seg d. seg_content dec seg = Some d) segs ds \<and> out' = out @ concat ds"
  using assms
proof (induction segs arbitrary: pre i out)
  case (Cons seg segs)
  then obtain d where "decompress_frame dec body i (seg_frame (length pre) seg) = Inr d"
    and "decompress_loop dec body (i + 1) (frame_layout (length (pre @ seg)) segs) (out @ d) = (Inr (), out')"
    by (auto split: sum.splits)
  with Cons.prems Cons.IH [of "i + 1" "pre @ seg" "out @ d"]
    decompress_frame_seg [of pre seg "concat segs @ r" dec i d]
  show ?case by (auto simp: list_all2_Cons1)
qed simp

text \<open>The byte range of the frames \<open>i\<close> to \<open>j - 1\<close> as the server computes it: from the start of the
  first to the end of the last.\<close>

definition frames_range :: "xorb_chunk_frame list \<Rightarrow> nat \<Rightarrow> nat \<Rightarrow> nat \<times> nat" where
  "frames_range fs i j =
     (unat (xc_on_disk_start (fs ! i)),
      unat (xc_on_disk_start (fs ! (j - 1))) + unat (xc_on_disk_len (fs ! (j - 1))))"

lemma frames_range_segs:
  assumes "i < j" "j \<le> length segs" "length (concat segs) \<le> u32_max"
  shows "frames_range (frame_layout 0 segs) i j = (length (concat (take i segs)), length (concat (take j segs)))"
proof -
  have split: "concat segs = concat (take k segs) @ concat (drop k segs)" for k
    by (metis append_take_drop_id concat_append)
  have le: "length (concat (take k segs)) \<le> u32_max" for k
    using assms(3) arg_cong [OF split [of k], of length] by simp
  have j: "take j segs = take (j - 1) segs @ [segs ! (j - 1)]"
    using assms(1,2) take_Suc_conv_app_nth [of "j - 1" segs] by simp
  have "length (concat (take (j - 1) segs)) + length (segs ! (j - 1)) \<le> u32_max"
    using le [of j] unfolding j by simp
  then show ?thesis
    using assms le [of i] unfolding frames_range_def j
    by (simp add: frame_layout_nth seg_frame_def unat_of_nat u32_max_def)
qed

section \<open>Properties\<close>

text \<open>The body of a range of frames.\<close>

definition frames_slice :: "bytes \<Rightarrow> xorb_chunk_frame list \<Rightarrow> nat \<Rightarrow> nat \<Rightarrow> bytes" where
  "frames_slice body fs i j = (case frames_range fs i j of (a, b) \<Rightarrow> take (b - a) (drop a body))"

lemma frames_slice_segs:
  assumes "i < j" "j \<le> length segs" "length (concat segs @ r) \<le> u32_max"
  shows "frames_slice (concat segs @ r) (frame_layout 0 segs) i j = concat (take (j - i) (drop i segs))"
proof -
  have k: "segs = take i segs @ take (j - i) (drop i segs) @ drop j segs"
    using assms(1) by (metis append_take_drop_id drop_split le_add_diff_inverse less_imp_le)
  have t: "take j segs = take i segs @ take (j - i) (drop i segs)"
    using assms(1) by (metis le_add_diff_inverse less_imp_le take_add)
  have "concat segs @ r = concat (take i segs) @ concat (take (j - i) (drop i segs)) @ concat (drop j segs) @ r"
    using arg_cong [OF k, of concat] by simp
  moreover have "length (concat (take j segs)) - length (concat (take i segs)) = length (concat (take (j - i) (drop i segs)))"
    unfolding t by simp
  ultimately show ?thesis
    using frames_range_segs [OF assms(1,2)] assms(3) by (simp add: frames_slice_def)
qed

lemma parse_xorb_frames_segs:
  "list_all frame_seg segs \<Longrightarrow> segs \<noteq> [] \<Longrightarrow> length (concat segs) \<le> u32_max \<Longrightarrow>
   parse_xorb_frames (concat segs) = Inr (frame_layout 0 segs)"
  unfolding parse_xorb_frames_iff
  by (intro exI [of _ segs] exI [of _ "[]"]) (simp add: frame_stop_def HEADER_LEN_def)

lemma list_all_slice: "list_all P xs \<Longrightarrow> list_all P (take m (drop n xs))"
  by (auto simp: list_all_iff dest: in_set_takeD in_set_dropD)

lemma length_concat_slice: "length (concat (take m (drop n xs))) \<le> length (concat xs)"
proof -
  have "concat xs = concat (take n xs) @ concat (take m (drop n xs)) @ concat (drop m (drop n xs))"
    by (metis append_take_drop_id concat_append)
  then show ?thesis by (metis le_add1 le_add2 le_trans length_append)
qed

lemma frame_layout_shift:
  "map (\<lambda>f. f\<lparr>xc_on_disk_start := xc_on_disk_start f - word_of_nat m\<rparr>) (frame_layout (m + n) segs) = frame_layout n segs"
  by (induction segs arbitrary: n) (simp_all add: seg_frame_def add.assoc)

lemma frame_layout_slice:
  "take m (drop i (frame_layout pos segs)) = frame_layout (pos + length (concat (take i segs))) (take m (drop i segs))"
proof -
  have "frame_layout pos segs = frame_layout pos (take i segs @ take m (drop i segs) @ drop m (drop i segs))"
    by (simp only: append_take_drop_id)
  moreover have "length (take m (drop i segs)) = min m (length segs - i)" by simp
  ultimately show ?thesis
    by (cases "i \<le> length segs") (simp_all only: frame_layout_append, auto simp: min_def)
qed

lemma frame_seg_len: "frame_seg seg \<Longrightarrow> HEADER_LEN \<le> length seg \<and> seg ! 4 \<le> 2"
  unfolding frame_seg_def by blast

lemma frames_count:
  assumes "parse_xorb_frames body = Inr frames"
  shows "HEADER_LEN * length frames \<le> length body"
proof -
  obtain segs r where body: "body = concat segs @ r" "list_all frame_seg segs" and fs: "frames = frame_layout 0 segs"
    using assms unfolding parse_xorb_frames_iff by blast
  have "HEADER_LEN * length segs \<le> length (concat segs)"
    using body(2) by (induction segs) (auto dest: frame_seg_len)
  then show ?thesis using body(1) fs by simp
qed

lemma frames_range_less:
  assumes "parse_xorb_frames body = Inr frames" and "i < j" and "j \<le> length frames"
  shows "fst (frames_range frames i j) < snd (frames_range frames i j)"
proof -
  obtain segs r where body: "body = concat segs @ r" "list_all frame_seg segs" "length body \<le> u32_max"
      and fs: "frames = frame_layout 0 segs"
    using assms(1) unfolding parse_xorb_frames_iff by blast
  have j: "j \<le> length segs" using assms(3) fs by simp
  have t: "take j segs = take i segs @ segs ! i # take (j - Suc i) (drop (Suc i) segs)"
    using assms(2) j by (metis Cons_nth_drop_Suc Suc_diff_Suc le_add_diff_inverse less_imp_le order_less_le_trans
        take_Suc_Cons take_add)
  have "HEADER_LEN \<le> length (segs ! i)" using body(2) assms(2) j frame_seg_len by (auto simp: list_all_length)
  then have "length (concat (take i segs)) < length (concat (take j segs))"
    unfolding t by (auto simp: HEADER_LEN_def)
  then show ?thesis using frames_range_segs [OF assms(2) j] body(1,3) fs by simp
qed

lemma frames_range_le:
  assumes "parse_xorb_frames body = Inr frames" and "i < j" and "j \<le> length frames"
  shows "snd (frames_range frames i j) \<le> length body"
proof -
  obtain segs r where body: "body = concat segs @ r" "length body \<le> u32_max" and fs: "frames = frame_layout 0 segs"
    using assms(1) unfolding parse_xorb_frames_iff by blast
  have "length (concat (take j segs)) \<le> length (concat segs)"
    using length_concat_slice [of j 0 segs] by simp
  then show ?thesis using frames_range_segs [OF assms(2)] assms(3) body fs by simp
qed

lemma verify_entries_segs:
  assumes "verify_entries dec dh body i (frame_layout (length pre) segs) = Inr es"
    and "body = pre @ concat segs @ r" and "length body \<le> u32_max"
  shows "\<exists>ds. list_all2 (\<lambda>seg d. seg_content dec seg = Some d) segs ds \<and> es = map (\<lambda>d. (dh d, length d)) ds"
  using assms
proof (induction segs arbitrary: pre i es)
  case (Cons seg segs)
  then obtain d es' where "decompress_frame dec body i (seg_frame (length pre) seg) = Inr d"
    and "verify_entries dec dh body (i + 1) (frame_layout (length (pre @ seg)) segs) = Inr es'"
    and "es = (dh d, length d) # es'"
    by (auto simp: rbind_eq_Inr)
  with Cons.prems Cons.IH [of "i + 1" "pre @ seg" es']
    decompress_frame_seg [of pre seg "concat segs @ r" dec i d]
  show ?case by (auto simp: list_all2_Cons1)
qed simp

text \<open>The frames the scanner reports tile a prefix of the body: the first starts at 0, each next
  one starts where the previous ends, all lie inside the body, and each has at least its eight
  header bytes and a known compression scheme. No 32-bit offset wraps.\<close>

lemma parse_xorb_frames_tile:
  assumes "parse_xorb_frames body = Inr frames"
  shows "frames \<noteq> [] \<and> xc_on_disk_start (frames ! 0) = 0 \<and>
    (\<forall>i < length frames.
       unat (xc_on_disk_start (frames ! i)) + unat (xc_on_disk_len (frames ! i)) \<le> length body \<and>
       HEADER_LEN \<le> unat (xc_on_disk_len (frames ! i)) \<and> xc_compression_scheme (frames ! i) \<le> 2 \<and>
       (i + 1 < length frames \<longrightarrow>
          unat (xc_on_disk_start (frames ! (i + 1))) =
          unat (xc_on_disk_start (frames ! i)) + unat (xc_on_disk_len (frames ! i))))"
proof -
  obtain segs r where body: "body = concat segs @ r" "list_all frame_seg segs" "segs \<noteq> []"
      "length body \<le> u32_max" and fs: "frames = frame_layout 0 segs"
    using assms unfolding parse_xorb_frames_iff by blast
  have cat: "length (concat (take k segs)) \<le> length body" for k
    using length_concat_slice [of k 0 segs] by (simp add: body(1))
  have step: "length (concat (take (Suc i) segs)) = length (concat (take i segs)) + length (segs ! i)"
    if "i < length segs" for i using that by (simp add: take_Suc_conv_app_nth)
  have "unat (xc_on_disk_start (frames ! i)) = length (concat (take i segs)) \<and>
        unat (xc_on_disk_len (frames ! i)) = length (segs ! i)" if "i < length segs" for i
    using cat [of "Suc i"] body(4) step [OF that] that
    by (simp add: fs frame_layout_nth seg_frame_def unat_of_nat u32_max_def)
  moreover have "HEADER_LEN \<le> length (segs ! i) \<and> xc_compression_scheme (frames ! i) \<le> 2"
    if "i < length segs" for i
    using body(2) that frame_seg_len [of "segs ! i"]
    by (simp add: fs frame_layout_nth seg_frame_def list_all_length)
  moreover have "xc_on_disk_start (frames ! 0) = 0"
    using body(3) by (cases segs) (simp_all add: fs seg_frame_def)
  ultimately show ?thesis
    using body(3) cat step by (auto simp: fs simp flip: step)
qed

text \<open>Cutting a stored body at frame boundaries is safe. The byte range of frames \<open>i\<close> to
  \<open>j - 1\<close> scans to exactly those frames, with offsets relative to the cut.\<close>

lemma parse_xorb_frames_slice:
  assumes "parse_xorb_frames body = Inr frames" and "i < j" and "j \<le> length frames"
  shows "parse_xorb_frames (frames_slice body frames i j) =
    Inr (map (\<lambda>f. f\<lparr>xc_on_disk_start := xc_on_disk_start f - xc_on_disk_start (frames ! i)\<rparr>)
           (take (j - i) (drop i frames)))"
proof -
  obtain segs r where body: "body = concat segs @ r" "list_all frame_seg segs"
      "length body \<le> u32_max" and fs: "frames = frame_layout 0 segs"
    using assms unfolding parse_xorb_frames_iff by blast
  let ?sub = "take (j - i) (drop i segs)"
  have j: "j \<le> length segs" using assms(3) fs by simp
  have "parse_xorb_frames (concat ?sub) = Inr (frame_layout 0 ?sub)"
    using assms(2) j body(1,3) length_concat_slice [of "j - i" i segs] list_all_slice [OF body(2)]
    by (intro parse_xorb_frames_segs) simp_all
  moreover have "xc_on_disk_start (frames ! i) = word_of_nat (length (concat (take i segs)))"
    using assms(2) j by (simp add: fs frame_layout_nth seg_frame_def)
  ultimately show ?thesis
    using frame_layout_shift [of "length (concat (take i segs))" 0 ?sub]
    by (simp add: frames_slice_segs [OF assms(2) j body(3) [unfolded body(1)], folded body(1), folded fs]
        fs frame_layout_slice) (simp add: body(1) frames_slice_segs [OF assms(2) j body(3) [unfolded body(1)]])
qed

lemma verified_contents:
  assumes "verify_xorb_body dec data_hash xorb_hash body expected = Inr ()"
    and "parse_xorb_frames body = Inr frames"
  shows "\<exists>ds. length ds = length frames \<and>
    xorb_hash (map (\<lambda>d. (data_hash d, length d)) ds) = expected \<and>
    (\<forall>i j out. i < j \<and> j \<le> length frames \<longrightarrow>
       decompress_xorb_chunks_into dec (frames_slice body frames i j) out =
       (Inr (), out @ concat (take (j - i) (drop i ds))))"
proof -
  obtain segs r where body: "body = concat segs @ r" "list_all frame_seg segs"
      "length body \<le> u32_max" and fs: "frames = frame_layout 0 segs"
    using assms(2) unfolding parse_xorb_frames_iff by blast
  obtain es where es: "verify_entries dec data_hash body 0 frames = Inr es" "xorb_hash es = expected"
    using assms by (auto simp: verify_xorb_body_def rbind_eq_Inr split: if_splits)
  then obtain ds where ds: "list_all2 (\<lambda>seg d. seg_content dec seg = Some d) segs ds"
      and es': "es = map (\<lambda>d. (data_hash d, length d)) ds"
    using verify_entries_segs [of dec data_hash body 0 "[]" segs es r] body by (auto simp: fs)
  have "decompress_xorb_chunks_into dec (frames_slice body frames i j) out =
       (Inr (), out @ concat (take (j - i) (drop i ds)))"
    if ij: "i < j" "j \<le> length frames" for i j out
  proof -
    let ?sub = "take (j - i) (drop i segs)" and ?d = "take (j - i) (drop i ds)"
    have j: "j \<le> length segs" using ij(2) fs by simp
    have slice: "frames_slice body frames i j = concat ?sub"
      using frames_slice_segs [OF ij(1) j] body(1,3) fs by simp
    have len: "length (concat ?sub) \<le> u32_max"
      using body(1,3) length_concat_slice [of "j - i" i segs] by simp
    have "parse_xorb_frames (concat ?sub) = Inr (frame_layout 0 ?sub)"
      using ij(1) j len list_all_slice [OF body(2)] by (intro parse_xorb_frames_segs) simp_all
    moreover have "list_all2 (\<lambda>seg d. seg_content dec seg = Some d) ?sub ?d"
      using ds by (simp add: list_all2_dropI list_all2_takeI)
    ultimately show ?thesis
      using decompress_loop_segs [of dec ?sub ?d "concat ?sub" "[]" "[]" 0 out] len
      by (simp add: slice decompress_xorb_chunks_into_def)
  qed
  with ds es es' show ?thesis
    by (intro exI [of _ ds]) (auto simp: fs dest: list_all2_lengthD)
qed

text \<open>C27: a body that passes verification can be served in any range of its chunks. There is a list
  of chunk contents whose hashes and lengths give the expected xorb hash, and decompressing the
  byte range of chunks \<open>i\<close> to \<open>j - 1\<close> appends exactly those contents, whatever the third-party
  decompressor and hash functions are.\<close>

theorem verified_body_ranges:
  assumes "verify_xorb_body dec data_hash xorb_hash body expected = Inr ()"
    and "parse_xorb_frames body = Inr frames"
  shows "\<exists>ds. length ds = length frames \<and>
    xorb_hash (map (\<lambda>d. (data_hash d, length d)) ds) = expected \<and>
    (\<forall>i j out. i < j \<and> j \<le> length frames \<longrightarrow>
       decompress_xorb_chunks_into dec (frames_slice body frames i j) out =
       (Inr (), out @ concat (take (j - i) (drop i ds))))"
  using assms by (rule verified_contents)

text \<open>A body of two uncompressed chunks and a footer, with the identity as decompressor.\<close>

definition xorb_example :: bytes where
  "xorb_example = [0, 2, 0, 0, 0, 2, 0, 0, 65, 66] @ [0, 1, 0, 0, 0, 1, 0, 0, 67] @ [88, 69, 84, 66, 76, 79, 66, 1, 2]"

definition xorb_example_frames :: "xorb_chunk_frame list" where
  "xorb_example_frames =
     [\<lparr>xc_on_disk_start = 0, xc_on_disk_len = 10, xc_uncompressed_len = 2, xc_compression_scheme = 0\<rparr>,
      \<lparr>xc_on_disk_start = 10, xc_on_disk_len = 9, xc_uncompressed_len = 1, xc_compression_scheme = 0\<rparr>]"

lemma xorb_example_parse: "parse_xorb_frames xorb_example = Inr xorb_example_frames"
  by (simp add: xorb_example_def xorb_example_frames_def parse_xorb_frames_def xorb_frames_loop.simps
      HEADER_LEN_def u24_le_def u32_max_def u64_max_def Let_def)

definition example_data_hash :: "bytes \<Rightarrow> hash32" where
  "example_data_hash d = Hash32 d"

definition example_xorb_hash :: "(hash32 \<times> nat) list \<Rightarrow> hash32" where
  "example_xorb_hash es = Hash32 (concat (map (\<lambda>(h, n). hash_bytes h) es))"

lemma xorb_example_verify:
  "verify_xorb_body (\<lambda>_ d. Inr d) example_data_hash example_xorb_hash xorb_example (Hash32 [65, 66, 67]) = Inr ()"
  by (simp add: verify_xorb_body_def xorb_example_parse)
    (simp add: xorb_example_def xorb_example_frames_def decompress_frame_def frame_scheme_def
      frame_payload_def HEADER_LEN_def example_data_hash_def example_xorb_hash_def)

theorem verified_body_ranges_witness:
  "\<exists>ds. length ds = 2 \<and> (\<forall>i j out. i < j \<and> j \<le> 2 \<longrightarrow>
     decompress_xorb_chunks_into (\<lambda>_ d. Inr d) (frames_slice xorb_example xorb_example_frames i j) out =
     (Inr (), out @ concat (take (j - i) (drop i ds))))"
proof -
  have "length xorb_example_frames = 2" by (simp add: xorb_example_frames_def)
  then show ?thesis
    using verified_body_ranges [OF xorb_example_verify xorb_example_parse] by auto
qed

end
