(* ===== verification/Blob_Mem.thy ===== *)
theory Blob_Mem
  imports Core_Types
begin

text \<open>
  The in-memory blob store, \<open>bale-server-storage-mem\<close>. The write lock makes a put atomic on its
  map, so an operation is a function on the state. The byte budget is shared by the two maps
  without a common lock; the compare-and-swap loop of \<open>reserve\<close> is therefore also modelled as a
  step relation over any number of threads, and the budget is shown to hold in every
  interleaving.
\<close>

record mem_blob_store =
  mem_xorbs :: "hash32 \<rightharpoonup> bytes"
  mem_shards :: "hash32 \<rightharpoonup> bytes"
  mem_stored_bytes :: nat
  mem_max_bytes :: "nat option"

definition mem_new :: mem_blob_store where
  "mem_new = \<lparr>mem_xorbs = Map.empty, mem_shards = Map.empty, mem_stored_bytes = 0, mem_max_bytes = None\<rparr>"

definition mem_with_max_bytes :: "nat \<Rightarrow> mem_blob_store \<Rightarrow> mem_blob_store" where
  "mem_with_max_bytes mx s = s\<lparr>mem_max_bytes := Some mx\<rparr>"

text \<open>The check one round of the loop makes on the loaded counter.\<close>

definition reserve_next :: "nat \<Rightarrow> nat \<Rightarrow> nat \<Rightarrow> core_error + nat" where
  "reserve_next mx cur n =
     (if cur + n > u64_max then Inl (BadRequest ''mem store byte counter overflow'')
      else if cur + n > mx then Inl (BadRequest ''mem store capacity exhausted'')
      else Inr (cur + n))"

definition mem_reserve :: "nat \<Rightarrow> mem_blob_store \<Rightarrow> (core_error + unit) \<times> mem_blob_store" where
  "mem_reserve n s =
     (case mem_max_bytes s of
        None \<Rightarrow> (Inr (), s)
      | Some mx \<Rightarrow>
          (case reserve_next mx (mem_stored_bytes s) n of
             Inl e \<Rightarrow> (Inl e, s)
           | Inr nxt \<Rightarrow> (Inr (), s\<lparr>mem_stored_bytes := nxt\<rparr>)))"

definition mem_put_xorb :: "hash32 \<Rightarrow> bytes \<Rightarrow> mem_blob_store \<Rightarrow> (core_error + bool) \<times> mem_blob_store" where
  "mem_put_xorb h body s =
     (if mem_xorbs s h \<noteq> None then (Inr False, s)
      else case mem_reserve (length body) s of
        (Inl e, s) \<Rightarrow> (Inl e, s)
      | (Inr _, s) \<Rightarrow> (Inr True, s\<lparr>mem_xorbs := (mem_xorbs s)(h \<mapsto> body)\<rparr>))"

definition mem_xorb_exists :: "hash32 \<Rightarrow> mem_blob_store \<Rightarrow> core_error + bool" where
  "mem_xorb_exists h s = Inr (mem_xorbs s h \<noteq> None)"

definition mem_get_xorb_range :: "hash32 \<Rightarrow> nat \<Rightarrow> nat \<Rightarrow> mem_blob_store \<Rightarrow> core_error + bytes" where
  "mem_get_xorb_range h i j s =
     (if j < i then Inl (BadRequest ''inverted byte range'')
      else rbind (ok_or NotFound (mem_xorbs s h)) (\<lambda>body.
        let len = length body
        in if i > len then Inl (BadRequest ''range start past end'')
           else let e = min j len in Inr (take (e - i) (drop i body))))"

definition mem_put_shard :: "hash32 \<Rightarrow> bytes \<Rightarrow> mem_blob_store \<Rightarrow> (core_error + unit) \<times> mem_blob_store" where
  "mem_put_shard h body s =
     (let insert_shard = (\<lambda>s. (Inr (), s\<lparr>mem_shards := (mem_shards s)(h \<mapsto> body)\<rparr>))
      in if mem_shards s h = None
         then case mem_reserve (length body) s of
                (Inl e, s) \<Rightarrow> (Inl e, s)
              | (Inr _, s) \<Rightarrow> insert_shard s
         else insert_shard s)"

definition mem_get_shard :: "hash32 \<Rightarrow> mem_blob_store \<Rightarrow> core_error + bytes" where
  "mem_get_shard h s = ok_or NotFound (mem_shards s h)"

definition mem_blob_ops :: "mem_blob_store blob_ops" where
  "mem_blob_ops = \<lparr>put_xorb = mem_put_xorb, xorb_exists = mem_xorb_exists,
     get_xorb_range = mem_get_xorb_range, put_shard = mem_put_shard, get_shard = mem_get_shard,
     presign_xorb_range = (\<lambda>_ _ _ _ _. Inr None)\<rparr>"

text \<open>
  The loop of \<open>reserve\<close> run by several threads on one counter: a thread loads the counter and
  checks it, then tries to exchange the loaded value for the new one; the exchange fails if the
  counter changed in between and the thread starts over.
\<close>

datatype reserve_pc = RLoad nat | RCas nat nat | RDone nat | RFail core_error

inductive reserve_step :: "nat \<Rightarrow> nat \<times> reserve_pc list \<Rightarrow> nat \<times> reserve_pc list \<Rightarrow> bool" for mx where
  rs_load: "i < length ts \<Longrightarrow> ts ! i = RLoad n \<Longrightarrow> reserve_next mx c n = Inr nxt \<Longrightarrow>
    reserve_step mx (c, ts) (c, ts[i := RCas n c])"
| rs_reject: "i < length ts \<Longrightarrow> ts ! i = RLoad n \<Longrightarrow> reserve_next mx c n = Inl e \<Longrightarrow>
    reserve_step mx (c, ts) (c, ts[i := RFail e])"
| rs_exchange: "i < length ts \<Longrightarrow> ts ! i = RCas n cur \<Longrightarrow> c = cur \<Longrightarrow>
    reserve_step mx (c, ts) (cur + n, ts[i := RDone n])"
| rs_retry: "i < length ts \<Longrightarrow> ts ! i = RCas n cur \<Longrightarrow> c \<noteq> cur \<Longrightarrow>
    reserve_step mx (c, ts) (c, ts[i := RLoad n])"

inductive_cases reserve_stepE: "reserve_step mx (c, ts) s'"

section \<open>The contract\<close>

lemma mem_reserve_xorbs:
  assumes "mem_reserve n s = (r, s')"
  shows "mem_xorbs s' = mem_xorbs s \<and> mem_shards s' = mem_shards s \<and> mem_max_bytes s' = mem_max_bytes s"
  using assms by (auto simp: mem_reserve_def split: option.splits sum.splits)

lemma take_min_slice: "take (min j (length xs) - i) (drop i xs) = take (j - i) (drop i xs)"
  by (simp add: min_def)

interpretation mem: blob_store_reliable mem_blob_ops mem_xorbs
proof
  fix h body s s' b e i j d h' body' r
  show "put_xorb mem_blob_ops h body s = (Inr True, s') \<Longrightarrow>
      mem_xorbs s h = None \<and> mem_xorbs s' = (mem_xorbs s)(h \<mapsto> body)"
    and "put_xorb mem_blob_ops h body s = (Inr False, s') \<Longrightarrow>
      mem_xorbs s h \<noteq> None \<and> mem_xorbs s' = mem_xorbs s"
    and "put_xorb mem_blob_ops h body s = (Inl e, s') \<Longrightarrow> mem_xorbs s' = mem_xorbs s"
    by (auto simp: mem_blob_ops_def mem_put_xorb_def split: if_splits prod.splits sum.splits
        dest!: mem_reserve_xorbs)
  show "xorb_exists mem_blob_ops h s = Inr b \<Longrightarrow> b \<longleftrightarrow> mem_xorbs s h \<noteq> None"
    and "xorb_exists mem_blob_ops h s = Inr (mem_xorbs s h \<noteq> None)"
    by (auto simp: mem_blob_ops_def mem_xorb_exists_def)
  show "get_xorb_range mem_blob_ops h i j s = Inr d \<Longrightarrow> i < j \<Longrightarrow>
      \<exists>body. mem_xorbs s h = Some body \<and> d = take (j - i) (drop i body)"
    by (auto simp: mem_blob_ops_def mem_get_xorb_range_def rbind_eq_Inr ok_or_eq_Inr Let_def
        take_min_slice split: if_splits)
  show "put_shard mem_blob_ops h' body' s = (r, s') \<Longrightarrow> mem_xorbs s' = mem_xorbs s"
    by (auto simp: mem_blob_ops_def mem_put_shard_def Let_def split: if_splits prod.splits sum.splits
        dest!: mem_reserve_xorbs)
  show "mem_xorbs s h = Some body \<Longrightarrow> i < j \<Longrightarrow> j \<le> length body \<Longrightarrow>
     get_xorb_range mem_blob_ops h i j s = Inr (take (j - i) (drop i body))"
    by (simp add: mem_blob_ops_def mem_get_xorb_range_def Let_def)
qed

section \<open>The byte budget under concurrency\<close>

definition reserved :: "reserve_pc \<Rightarrow> nat" where
  "reserved t = (case t of RDone n \<Rightarrow> n | _ \<Rightarrow> 0)"

text \<open>The counter is the start value plus what finished threads reserved, it never passes the
  maximum, and a thread about to exchange has checked its own new value.\<close>

definition reserve_inv :: "nat \<Rightarrow> nat \<Rightarrow> nat \<times> reserve_pc list \<Rightarrow> bool" where
  "reserve_inv mx c0 s \<longleftrightarrow>
     fst s = c0 + sum_list (map reserved (snd s)) \<and> fst s \<le> mx \<and>
     (\<forall>t \<in> set (snd s). case t of RCas n cur \<Rightarrow> cur + n \<le> mx | _ \<Rightarrow> True)"

lemma sum_list_update_reserved:
  "i < length ts \<Longrightarrow> reserved (ts ! i) = 0 \<Longrightarrow>
   sum_list (map reserved (ts[i := t])) = sum_list (map reserved ts) + reserved t"
  by (induction ts arbitrary: i) (auto simp: nth_Cons split: nat.splits)

lemma in_set_updateD: "t \<in> set (ts[i := x]) \<Longrightarrow> t = x \<or> t \<in> set ts"
  using set_update_subset_insert by fastforce

lemma reserve_inv_step:
  assumes "reserve_step mx s s'" and "reserve_inv mx c0 s"
  shows "reserve_inv mx c0 s'"
  using assms
proof (cases rule: reserve_step.cases)
  case (rs_load i ts n c nxt)
  with assms(2) show ?thesis
    by (auto simp: reserve_inv_def sum_list_update_reserved reserved_def reserve_next_def
        split: if_splits dest!: in_set_updateD)
next
  case (rs_reject i ts n c e)
  with assms(2) show ?thesis
    by (auto simp: reserve_inv_def sum_list_update_reserved reserved_def dest!: in_set_updateD)
next
  case (rs_exchange i ts n cur c)
  then have "RCas n cur \<in> set ts" by (metis nth_mem)
  with rs_exchange assms(2) show ?thesis
    by (auto simp: reserve_inv_def sum_list_update_reserved reserved_def dest!: in_set_updateD)
next
  case (rs_retry i ts n cur c)
  with assms(2) show ?thesis
    by (auto simp: reserve_inv_def sum_list_update_reserved reserved_def dest!: in_set_updateD)
qed

text \<open>C28: the byte cap of the in-memory store holds under concurrency. Whatever way any number of
  concurrent reservations interleave their loads and exchanges, the counter is the start value
  plus exactly what the finished reservations asked for, and it never passes the cap.\<close>

theorem reserve_interleavings:
  assumes "(reserve_step mx)\<^sup>*\<^sup>* (c0, map RLoad ns) (c, ts)" and "c0 \<le> mx"
  shows "c = c0 + sum_list (map reserved ts) \<and> c \<le> mx"
proof -
  have "reserve_inv mx c0 (c0, map RLoad ns)"
    using assms(2) by (auto simp: reserve_inv_def reserved_def o_def)
  from assms(1) this have "reserve_inv mx c0 (c, ts)"
    by (induction rule: rtranclp_induct) (auto intro: reserve_inv_step)
  then show ?thesis by (simp add: reserve_inv_def)
qed

text \<open>Two threads of 6 bytes against a cap of 10: the second loses its exchange, retries and is refused.\<close>

theorem reserve_interleavings_witness:
  "(reserve_step 10)\<^sup>*\<^sup>* (0, map RLoad [6, 6])
     (6, [RDone 6, RFail (BadRequest ''mem store capacity exhausted'')]) \<and>
   6 = 0 + sum_list (map reserved [RDone 6, RFail (BadRequest ''mem store capacity exhausted'')])"
proof -
  let ?e = "BadRequest ''mem store capacity exhausted''"
  have "reserve_step 10 (0, [RLoad 6, RLoad 6]) (0, [RCas 6 0, RLoad 6])"
    using rs_load [of 0 "[RLoad 6, RLoad 6]" 6 10 0 6] by (simp add: reserve_next_def u64_max_def)
  moreover have "reserve_step 10 (0, [RCas 6 0, RLoad 6]) (0, [RCas 6 0, RCas 6 0])"
    using rs_load [of 1 "[RCas 6 0, RLoad 6]" 6 10 0 6] by (simp add: reserve_next_def u64_max_def)
  moreover have "reserve_step 10 (0, [RCas 6 0, RCas 6 0]) (6, [RDone 6, RCas 6 0])"
    using rs_exchange [of 0 "[RCas 6 0, RCas 6 0]" 6 0 0 10] by simp
  moreover have "reserve_step 10 (6, [RDone 6, RCas 6 0]) (6, [RDone 6, RLoad 6])"
    using rs_retry [of 1 "[RDone 6, RCas 6 0]" 6 0 6 10] by simp
  moreover have "reserve_step 10 (6, [RDone 6, RLoad 6]) (6, [RDone 6, RFail ?e])"
    using rs_reject [of 1 "[RDone 6, RLoad 6]" 6 10 6 ?e] by (simp add: reserve_next_def u64_max_def)
  ultimately have run: "(reserve_step 10)\<^sup>*\<^sup>* (0, map RLoad [6, 6]) (6, [RDone 6, RFail ?e])"
    by (simp add: rtranclp.rtrancl_into_rtrancl)
  with reserve_interleavings [OF this] show ?thesis by simp
qed

end
