(* ===== verification/Blob_Fs.thy ===== *)
theory Blob_Fs
  imports Core_Types
begin

text \<open>
  The filesystem blob store, \<open>bale-server-storage-fs\<close>. The file system is a map from paths to
  contents; directories carry no data and are not represented. What the operating system answers
  to each call (success or an error message, how much of a failing write reached the file, the
  fresh name of the temporary file, a file another process put at the destination meanwhile) is
  the record \<open>os_answers\<close>, one per operation, so that every error path of \<open>write_atomic\<close> is a
  branch of the model. The contract of \<open>BlobStore\<close> holds for every sequence of answers without a
  racing writer; with a racing writer the content-addressed path still ends up with one of the
  two complete bodies.
\<close>

section \<open>Paths\<close>

text \<open>\<open>Path::join\<close>.\<close>

definition path_join :: "string \<Rightarrow> string \<Rightarrow> string" where
  "path_join a b =
     (if starts_with ''/'' b then b
      else if a = [] \<or> ends_with ''/'' a then a @ b else a @ ''/'' @ b)"

text \<open>\<open>Path::parent\<close> of a path without a trailing slash.\<close>

definition path_parent :: "string \<Rightarrow> string option" where
  "path_parent p =
     (case rsplit_once (CHR ''/'') p of
        None \<Rightarrow> if p = [] then None else Some []
      | Some (a, b) \<Rightarrow> Some (if a = [] then ''/'' else a))"

text \<open>The crate \<open>hex\<close> is a parameter \<open>hx\<close> (its \<open>encode\<close>).\<close>

definition fs_fanout :: "(bytes \<Rightarrow> string) \<Rightarrow> string \<Rightarrow> hash32 \<Rightarrow> string" where
  "fs_fanout hx kind h =
     (let hex = hx (hash_bytes h);
          aa = take 2 hex;
          bb = take 2 (drop 2 hex)
      in path_join (path_join (path_join kind aa) bb) hex)"

definition fs_xorb_path :: "(bytes \<Rightarrow> string) \<Rightarrow> string \<Rightarrow> hash32 \<Rightarrow> string" where
  "fs_xorb_path hx root h = path_join root (fs_fanout hx ''xorbs'' h)"

definition fs_shard_path :: "(bytes \<Rightarrow> string) \<Rightarrow> string \<Rightarrow> hash32 \<Rightarrow> string" where
  "fs_shard_path hx root h = path_join root (fs_fanout hx ''shards'' h)"

definition fs_tmp_path :: "string \<Rightarrow> string \<Rightarrow> string" where
  "fs_tmp_path root uuid = path_join (path_join root ''tmp'') uuid"

section \<open>State\<close>

record os_answers =
  os_mkdir :: "string option"
  os_uuid :: string
  os_create :: "string option"
  os_write :: "(nat \<times> string) option"
  os_remove_ok :: bool
  os_racer :: "bytes option"
  os_rename :: "string option"
  os_open :: "string option"
  os_stat :: "string option"
  os_seek :: "string option"
  os_read :: "string option"

record fs_state =
  fs_files :: "string \<rightharpoonup> bytes"
  fs_calls :: nat

definition fs_remove :: "bool \<Rightarrow> string \<Rightarrow> (string \<rightharpoonup> bytes) \<Rightarrow> (string \<rightharpoonup> bytes)" where
  "fs_remove ok p fl = (if ok then fl(p := None) else fl)"

section \<open>Operations\<close>

text \<open>
  \<open>write_atomic\<close> on the files: the answer and the files after. A racing writer's file appears at
  the destination just before the rename; a successful rename replaces it.
\<close>

definition write_atomic ::
  "string \<Rightarrow> os_answers \<Rightarrow> string \<Rightarrow> bytes \<Rightarrow> (string \<rightharpoonup> bytes) \<Rightarrow>
   (core_error + bool) \<times> (string \<rightharpoonup> bytes)" where
  "write_atomic root os dst body fl =
     (if fl dst \<noteq> None then (Inr False, fl)
      else case (path_parent dst, os_mkdir os) of
        (Some par, Some e) \<Rightarrow> (Inl (Internal (''mkdir '' @ par @ '': '' @ e)), fl)
      | _ \<Rightarrow>
          let tmp = fs_tmp_path root (os_uuid os)
          in if fl tmp \<noteq> None then (Inl (Internal ''create tmp: File exists''), fl)
             else case os_create os of
               Some e \<Rightarrow> (Inl (Internal (''create tmp: '' @ e)), fl)
             | None \<Rightarrow>
                 (case os_write os of
                    Some (n, e) \<Rightarrow>
                      (Inl (Internal (''write tmp: '' @ e)),
                       fs_remove (os_remove_ok os) tmp (fl(tmp \<mapsto> take n body)))
                  | None \<Rightarrow>
                      let fl = fl(tmp \<mapsto> body);
                          fl = (case os_racer os of None \<Rightarrow> fl | Some b \<Rightarrow> fl(dst \<mapsto> b))
                      in (case os_rename os of
                            None \<Rightarrow> (Inr True, (fl(dst \<mapsto> body))(tmp := None))
                          | Some e \<Rightarrow>
                              if fl dst \<noteq> None
                              then (Inr False, fs_remove (os_remove_ok os) tmp fl)
                              else (Inl (Internal (''rename to '' @ dst @ '': '' @ e)),
                                    fs_remove (os_remove_ok os) tmp fl))))"

definition fs_write :: "string \<Rightarrow> (nat \<Rightarrow> os_answers) \<Rightarrow> string \<Rightarrow> bytes \<Rightarrow> fs_state \<Rightarrow>
   (core_error + bool) \<times> fs_state" where
  "fs_write root env dst body s =
     (case write_atomic root (env (fs_calls s)) dst body (fs_files s) of
        (r, fl) \<Rightarrow> (r, \<lparr>fs_files = fl, fs_calls = fs_calls s + 1\<rparr>))"

definition fs_put_xorb :: "(bytes \<Rightarrow> string) \<Rightarrow> string \<Rightarrow> (nat \<Rightarrow> os_answers) \<Rightarrow> hash32 \<Rightarrow> bytes \<Rightarrow> fs_state \<Rightarrow>
   (core_error + bool) \<times> fs_state" where
  "fs_put_xorb hx root env h body s = fs_write root env (fs_xorb_path hx root h) body s"

definition fs_xorb_exists :: "(bytes \<Rightarrow> string) \<Rightarrow> string \<Rightarrow> hash32 \<Rightarrow> fs_state \<Rightarrow> core_error + bool" where
  "fs_xorb_exists hx root h s = Inr (fs_files s (fs_xorb_path hx root h) \<noteq> None)"

definition fs_get_xorb_range :: "(bytes \<Rightarrow> string) \<Rightarrow> string \<Rightarrow> (nat \<Rightarrow> os_answers) \<Rightarrow> hash32 \<Rightarrow> nat \<Rightarrow> nat \<Rightarrow> fs_state \<Rightarrow>
   core_error + bytes" where
  "fs_get_xorb_range hx root env h i j s =
     (let os = env (fs_calls s) in
      if j < i then Inl (BadRequest ''inverted byte range'')
      else case fs_files s (fs_xorb_path hx root h) of
        None \<Rightarrow> Inl NotFound
      | Some body \<Rightarrow>
          (case os_open os of Some e \<Rightarrow> Inl (Internal (''open xorb: '' @ e)) | None \<Rightarrow>
          (case os_stat os of Some e \<Rightarrow> Inl (Internal (''stat xorb: '' @ e)) | None \<Rightarrow>
             let len = length body in
             if i > len then Inl (BadRequest ''range start past end'')
             else
               let e = min j len; want = e - i in
               (case os_seek os of Some e \<Rightarrow> Inl (Internal (''seek xorb: '' @ e)) | None \<Rightarrow>
               (case os_read os of Some e \<Rightarrow> Inl (Internal (''read xorb: '' @ e)) | None \<Rightarrow>
                  Inr (take want (drop i body)))))))"

definition fs_put_shard :: "(bytes \<Rightarrow> string) \<Rightarrow> string \<Rightarrow> (nat \<Rightarrow> os_answers) \<Rightarrow> hash32 \<Rightarrow> bytes \<Rightarrow> fs_state \<Rightarrow>
   (core_error + unit) \<times> fs_state" where
  "fs_put_shard hx root env h body s =
     (case fs_write root env (fs_shard_path hx root h) body s of
        (Inl e, s) \<Rightarrow> (Inl e, s)
      | (Inr _, s) \<Rightarrow> (Inr (), s))"

definition fs_get_shard :: "(bytes \<Rightarrow> string) \<Rightarrow> string \<Rightarrow> (nat \<Rightarrow> os_answers) \<Rightarrow> hash32 \<Rightarrow> fs_state \<Rightarrow> core_error + bytes" where
  "fs_get_shard hx root env h s =
     (case fs_files s (fs_shard_path hx root h) of
        None \<Rightarrow> Inl NotFound
      | Some body \<Rightarrow>
          (case os_read (env (fs_calls s)) of
             Some e \<Rightarrow> Inl (Internal (''read shard: '' @ e))
           | None \<Rightarrow> Inr body))"

definition fs_blob_ops :: "(bytes \<Rightarrow> string) \<Rightarrow> string \<Rightarrow> (nat \<Rightarrow> os_answers) \<Rightarrow> fs_state blob_ops" where
  "fs_blob_ops hx root env = \<lparr>put_xorb = fs_put_xorb hx root env, xorb_exists = fs_xorb_exists hx root,
     get_xorb_range = fs_get_xorb_range hx root env, put_shard = fs_put_shard hx root env,
     get_shard = fs_get_shard hx root env, presign_xorb_range = (\<lambda>_ _ _ _ _. Inr None)\<rparr>"

section \<open>Paths do not collide\<close>

lemma path_join_relative:
  "\<not> starts_with ''/'' b \<Longrightarrow>
   path_join a b = (if a = [] \<or> ends_with ''/'' a then a else a @ ''/'') @ b"
  by (simp add: path_join_def)

lemma path_join_inj:
  "\<not> starts_with ''/'' b \<Longrightarrow> \<not> starts_with ''/'' c \<Longrightarrow> path_join a b = path_join a c \<longleftrightarrow> b = c"
  by (simp add: path_join_relative)

lemma path_join_last:
  "a \<noteq> [] \<Longrightarrow> \<not> starts_with ''/'' b \<Longrightarrow> \<exists>p. path_join a b = p @ CHR ''/'' # b"
  by (auto simp: path_join_relative ends_with_iff)

lemma path_join_prefix: "\<not> starts_with ''/'' b \<Longrightarrow> \<exists>q. path_join a b = a @ q"
  by (auto simp: path_join_relative)

lemma no_slash_relative: "CHR ''/'' \<notin> set s \<Longrightarrow> \<not> starts_with ''/'' s"
  by (auto simp: starts_with_iff)

section \<open>The contract\<close>

text \<open>Answers without a racing writer and with a slash-free fresh name; every sequence of such
  answers is the image of itself under \<open>fair\<close>.\<close>

definition fair :: "os_answers \<Rightarrow> os_answers" where
  "fair os = os\<lparr>os_racer := None, os_uuid := filter (\<lambda>c. c \<noteq> CHR ''/'') (os_uuid os)\<rparr>"

definition fs_xorbs :: "(bytes \<Rightarrow> string) \<Rightarrow> string \<Rightarrow> fs_state \<Rightarrow> hash32 \<rightharpoonup> bytes" where
  "fs_xorbs hx root s h = fs_files s (fs_xorb_path hx root h)"

text \<open>Without read errors the reads of what is stored succeed.\<close>

definition calm :: "os_answers \<Rightarrow> os_answers" where
  "calm os = os\<lparr>os_open := None, os_stat := None, os_seek := None, os_read := None\<rparr>"

lemma fair_racer [simp]: "os_racer (fair os) = None"
  by (simp add: fair_def)

lemma write_atomic_other:
  assumes "write_atomic root os dst body fl = (r, fl')" and "p \<noteq> dst" and "p \<noteq> fs_tmp_path root (os_uuid os)"
  shows "fl' p = fl p"
  using assms by (auto simp: write_atomic_def fs_remove_def Let_def split: if_splits option.splits prod.splits)

text \<open>The destination: written by an answer \<open>True\<close> only, and then with the whole body.\<close>

lemma write_atomic_dst:
  assumes "write_atomic root os dst body fl = (r, fl')" and "dst \<noteq> fs_tmp_path root (os_uuid os)"
    and "os_racer os = None"
  shows "r = Inr True \<Longrightarrow> fl dst = None \<and> fl' dst = Some body"
    and "r = Inr False \<Longrightarrow> fl dst \<noteq> None \<and> fl' dst = fl dst"
    and "r = Inl e \<Longrightarrow> fl' dst = fl dst"
  using assms by (auto simp: write_atomic_def fs_remove_def Let_def split: if_splits option.splits prod.splits)

text \<open>
  What the store relies on of the crate \<open>hex\<close>: different bytes have different encodings and an
  encoding has no slash. Everything about paths and the contract is derived from that.
\<close>

locale hex_codec =
  fixes hx :: "bytes \<Rightarrow> string"
  assumes hx_inj: "hx as = hx bs \<Longrightarrow> as = bs"
    and hx_no_slash: "CHR ''/'' \<notin> set (hx bs)"
begin

lemma fs_fanout_parts:
  assumes "kind \<noteq> []"
  obtains p q where "fs_fanout hx kind h = p @ CHR ''/'' # hx (hash_bytes h)"
    and "fs_fanout hx kind h = kind @ q"
proof -
  let ?h = "hx (hash_bytes h)"
  let ?a = "path_join kind (take 2 ?h)"
  let ?b = "path_join ?a (take 2 (drop 2 ?h))"
  have rel: "\<not> starts_with ''/'' (take 2 ?h)" "\<not> starts_with ''/'' (take 2 (drop 2 ?h))"
      "\<not> starts_with ''/'' ?h"
    using hx_no_slash by (auto intro!: no_slash_relative dest: in_set_takeD in_set_dropD)
  obtain q1 q2 q3 where q: "?a = kind @ q1" "?b = ?a @ q2" "path_join ?b ?h = ?b @ q3"
    using path_join_prefix [OF rel(1)] path_join_prefix [OF rel(2)] path_join_prefix [OF rel(3)] by metis
  have "?b \<noteq> []" using q assms by simp
  with rel(3) obtain p where "path_join ?b ?h = p @ CHR ''/'' # ?h"
    using path_join_last by blast
  with q that [of p "q1 @ q2 @ q3"] show thesis by (simp add: fs_fanout_def Let_def)
qed

lemma fs_fanout_inj:
  assumes "kind \<noteq> []" and "fs_fanout hx kind h = fs_fanout hx kind h'"
  shows "h = h'"
proof -
  obtain p where p: "fs_fanout hx kind h = p @ CHR ''/'' # hx (hash_bytes h)"
    by (rule fs_fanout_parts [OF assms(1)])
  obtain p' where "fs_fanout hx kind h' = p' @ CHR ''/'' # hx (hash_bytes h')"
    by (rule fs_fanout_parts [OF assms(1)])
  with p assms(2) have "hx (hash_bytes h) = hx (hash_bytes h')"
    using rsplit_once_eq_Some hx_no_slash by (metis option.inject prod.inject)
  then show ?thesis using hx_inj by (metis hash32.expand)
qed

lemma fs_fanout_relative: "kind \<noteq> [] \<Longrightarrow> hd kind \<noteq> CHR ''/'' \<Longrightarrow> \<not> starts_with ''/'' (fs_fanout hx kind h)"
  by (rule fs_fanout_parts [of kind h]) (auto simp: starts_with_iff append_eq_Cons_conv)

lemma fs_xorb_path_inj [simp]: "fs_xorb_path hx root h = fs_xorb_path hx root h' \<longleftrightarrow> h = h'"
  using fs_fanout_inj [of "''xorbs''" h h'] by (auto simp: fs_xorb_path_def path_join_inj fs_fanout_relative)

lemma fs_shard_path_neq [simp]: "fs_shard_path hx root h \<noteq> fs_xorb_path hx root h'"
proof -
  obtain p where p: "fs_fanout hx ''shards'' h = ''shards'' @ p" by (rule fs_fanout_parts [of "''shards''" h]) simp
  obtain q where q: "fs_fanout hx ''xorbs'' h' = ''xorbs'' @ q" by (rule fs_fanout_parts [of "''xorbs''" h']) simp
  show ?thesis
    by (simp add: fs_shard_path_def fs_xorb_path_def path_join_inj fs_fanout_relative) (simp add: p q)
qed

text \<open>\<open>Uuid::to_string\<close> gives hexadecimal digits and dashes, in particular no slash.\<close>

lemma fs_tmp_path_neq:
  assumes "CHR ''/'' \<notin> set uuid"
  shows "fs_tmp_path root uuid \<noteq> fs_xorb_path hx root h"
proof -
  obtain q where q: "fs_fanout hx ''xorbs'' h = ''xorbs'' @ q" by (rule fs_fanout_parts [of "''xorbs''" h]) simp
  have "fs_tmp_path root uuid = path_join root (''tmp/'' @ uuid)"
    using no_slash_relative [OF assms]
    by (auto simp: fs_tmp_path_def path_join_def starts_with_def ends_with_iff)
  moreover have "fs_xorb_path hx root h = path_join root (''xorbs'' @ q)" by (simp add: fs_xorb_path_def q)
  ultimately show ?thesis by (simp add: path_join_inj starts_with_def)
qed

lemma fair_tmp_neq [simp]: "fs_tmp_path root (os_uuid (fair os)) \<noteq> fs_xorb_path hx root h"
  by (rule fs_tmp_path_neq) (simp add: fair_def)

lemma fs_put_xorb_dst:
  assumes "fs_put_xorb hx root (\<lambda>n. fair (env n)) h body s = (r, s')"
  shows "r = Inr True \<Longrightarrow> fs_xorbs hx root s h = None \<and> fs_xorbs hx root s' = (fs_xorbs hx root s)(h \<mapsto> body)"
    and "r = Inr False \<Longrightarrow> fs_xorbs hx root s h \<noteq> None \<and> fs_xorbs hx root s' = fs_xorbs hx root s"
    and "r = Inl e \<Longrightarrow> fs_xorbs hx root s' = fs_xorbs hx root s"
proof -
  let ?os = "fair (env (fs_calls s))" and ?dst = "fs_xorb_path hx root h"
  have w: "write_atomic root ?os ?dst body (fs_files s) = (r, fs_files s')"
    using assms by (auto simp: fs_put_xorb_def fs_write_def split: prod.splits)
  have other: "fs_xorbs hx root s' h' = fs_xorbs hx root s h'" if "h' \<noteq> h" for h'
    using write_atomic_other [OF w, of "fs_xorb_path hx root h'"] fair_tmp_neq [of root] that
    by (metis fs_xorb_path_inj fs_xorbs_def)
  note dst = write_atomic_dst [OF w fair_tmp_neq [symmetric] fair_racer, folded fs_xorbs_def]
  show "r = Inr True \<Longrightarrow> fs_xorbs hx root s h = None \<and> fs_xorbs hx root s' = (fs_xorbs hx root s)(h \<mapsto> body)"
    and "r = Inr False \<Longrightarrow> fs_xorbs hx root s h \<noteq> None \<and> fs_xorbs hx root s' = fs_xorbs hx root s"
    and "r = Inl e \<Longrightarrow> fs_xorbs hx root s' = fs_xorbs hx root s"
    using dst other by (auto simp: fun_eq_iff) metis+
qed

lemma fs_contract: "blob_store (fs_blob_ops hx root (\<lambda>n. fair (env n))) (fs_xorbs hx root)"
proof
  fix h body s s' b e i j d h' body' r
  show "put_xorb (fs_blob_ops hx root (\<lambda>n. fair (env n))) h body s = (Inr True, s') \<Longrightarrow>
      fs_xorbs hx root s h = None \<and> fs_xorbs hx root s' = (fs_xorbs hx root s)(h \<mapsto> body)"
    and "put_xorb (fs_blob_ops hx root (\<lambda>n. fair (env n))) h body s = (Inr False, s') \<Longrightarrow>
      fs_xorbs hx root s h \<noteq> None \<and> fs_xorbs hx root s' = fs_xorbs hx root s"
    and "put_xorb (fs_blob_ops hx root (\<lambda>n. fair (env n))) h body s = (Inl e, s') \<Longrightarrow>
      fs_xorbs hx root s' = fs_xorbs hx root s"
    using fs_put_xorb_dst [of root env h body s _ s'] by (simp_all add: fs_blob_ops_def)
  show "xorb_exists (fs_blob_ops hx root (\<lambda>n. fair (env n))) h s = Inr b \<Longrightarrow>
      b \<longleftrightarrow> fs_xorbs hx root s h \<noteq> None"
    by (auto simp: fs_blob_ops_def fs_xorb_exists_def fs_xorbs_def)
  show "get_xorb_range (fs_blob_ops hx root (\<lambda>n. fair (env n))) h i j s = Inr d \<Longrightarrow> i < j \<Longrightarrow>
      \<exists>body. fs_xorbs hx root s h = Some body \<and> d = take (j - i) (drop i body)"
    by (auto simp: fs_blob_ops_def fs_get_xorb_range_def fs_xorbs_def Let_def min_def
        split: option.splits if_splits)
  show "fs_xorbs hx root s' = fs_xorbs hx root s"
    if "put_shard (fs_blob_ops hx root (\<lambda>n. fair (env n))) h' body' s = (r, s')"
  proof
    fix h''
    have "\<exists>r'. write_atomic root (fair (env (fs_calls s))) (fs_shard_path hx root h') body' (fs_files s) = (r', fs_files s')"
      using that by (auto simp: fs_blob_ops_def fs_put_shard_def fs_write_def split: prod.splits sum.splits)
    then show "fs_xorbs hx root s' h'' = fs_xorbs hx root s h''"
      unfolding fs_xorbs_def
      using write_atomic_other fs_shard_path_neq fair_tmp_neq by metis
  qed
qed

lemma fs_calm_contract: "blob_store_reliable (fs_blob_ops hx root (\<lambda>n. fair (calm (env n)))) (fs_xorbs hx root)"
proof (intro blob_store_reliable.intro fs_contract)
  show "blob_store_reliable_axioms (fs_blob_ops hx root (\<lambda>n. fair (calm (env n)))) (fs_xorbs hx root)"
proof
  fix h s body i j
  show "fs_xorbs hx root s h = Some body \<Longrightarrow> i < j \<Longrightarrow> j \<le> length body \<Longrightarrow>
     get_xorb_range (fs_blob_ops hx root (\<lambda>n. fair (calm (env n)))) h i j s = Inr (take (j - i) (drop i body))"
    by (simp add: fs_blob_ops_def fs_get_xorb_range_def fs_xorbs_def Let_def fair_def calm_def)
  show "xorb_exists (fs_blob_ops hx root (\<lambda>n. fair (calm (env n)))) h s = Inr (fs_xorbs hx root s h \<noteq> None)"
    by (simp add: fs_blob_ops_def fs_xorb_exists_def fs_xorbs_def)
qed
qed

end

text \<open>The documented encoding, two lower-case digits per byte, is such a codec.\<close>

definition hex_lower :: "bytes \<Rightarrow> string" where
  "hex_lower bs = concat (map (\<lambda>b. hex_pad 2 (unat b)) bs)"

lemma hex_pad_2_chars:
  assumes "b < (256 :: nat)"
  shows "length (hex_pad 2 b) = 2 \<and> CHR ''/'' \<notin> set (hex_pad 2 b)"
proof -
  have "length (show_radix 16 b) \<le> 2"
    using assms by (auto simp: show_radix.simps [of 16 b] show_radix.simps [of 16 "b div 16"])
  moreover have "CHR ''/'' \<notin> set (show_radix 16 b)"
  proof
    assume "CHR ''/'' \<in> set (show_radix 16 b)"
    then obtain d where "d < 16" "CHR ''/'' = digit_chr d" using set_show_radix [of 16] by auto
    then have "digit_val 16 (CHR ''/'') = Some d" by (simp add: digit_val_chr)
    then show False by (simp add: digit_val_def)
  qed
  ultimately show ?thesis by (auto simp: hex_pad_def Let_def)
qed

lemma hex_pad_inj: "a \<le> mx \<Longrightarrow> b \<le> mx \<Longrightarrow> hex_pad w a = hex_pad w b \<Longrightarrow> a = b"
  by (metis from_str_radix_hex_pad option.inject)

lemma hex_lower_no_slash: "CHR ''/'' \<notin> set (hex_lower bs)"
  using hex_pad_2_chars unsigned_less [where 'a = nat and 'b = 8] by (auto simp: hex_lower_def)

lemma hex_lower_empty [simp]: "hex_lower bs = [] \<longleftrightarrow> bs = []"
proof (cases bs)
  case (Cons b bs')
  have "length (hex_pad 2 (unat b)) = 2"
    using hex_pad_2_chars [of "unat b"] unsigned_less [of b, where 'a = nat] by simp
  with Cons show ?thesis by (auto simp: hex_lower_def)
qed (simp add: hex_lower_def)

lemma hex_lower_inj: "hex_lower as = hex_lower bs \<Longrightarrow> as = bs"
proof (induction as arbitrary: bs)
  case Nil
  then show ?case by (metis hex_lower_empty)
next
  case (Cons a as)
  have lt: "unat x < 256" for x :: u8 using unsigned_less [of x, where 'a = nat] by simp
  have "bs \<noteq> []" using Cons.prems by (metis hex_lower_empty list.distinct(1))
  then obtain b bs' where bs: "bs = b # bs'" by (cases bs) auto
  have "hex_pad 2 (unat a) = hex_pad 2 (unat b) \<and> hex_lower as = hex_lower bs'"
    using Cons.prems hex_pad_2_chars [OF lt, of a] hex_pad_2_chars [OF lt, of b]
    by (simp add: bs hex_lower_def append_eq_append_conv)
  then show ?case
    using Cons.IH hex_pad_inj [of "unat a" 255 "unat b" 2] lt [of a] lt [of b]
    by (auto simp: bs word_unat_eq_iff)
qed

interpretation hex_lower: hex_codec hex_lower
  by unfold_locales (auto intro: hex_lower_inj simp: hex_lower_no_slash)

interpretation fs: blob_store "fs_blob_ops hex_lower root (\<lambda>n. fair (env n))" "fs_xorbs hex_lower root"
  for root env
  by (rule hex_lower.fs_contract)

interpretation fs_calm: blob_store_reliable "fs_blob_ops hex_lower root (\<lambda>n. fair (calm (env n)))"
  "fs_xorbs hex_lower root" for root env
  by (rule hex_lower.fs_calm_contract)

text \<open>A write through \<open>write_atomic\<close> never leaves a partial body at the content-addressed path,
  whatever the operating system answers at each step (including a write that fails part way, a
  failing rename, a failing clean-up and a racing writer). Afterwards the path holds what it held
  before, the complete new body, or the complete body of the racing writer; and after an answer
  \<open>Ok\<close> it holds some body.\<close>

lemma write_atomic_all_or_nothing:
  assumes "write_atomic root os dst body fl = (r, fl')" and "dst \<noteq> fs_tmp_path root (os_uuid os)"
  shows "(fl' dst = fl dst \<or> fl' dst = Some body \<or> fl' dst = os_racer os \<and> fl dst = None) \<and>
    (r = Inr True \<longrightarrow> fl' dst = Some body) \<and> (r = Inr False \<longrightarrow> fl' dst \<noteq> None)"
  using assms by (auto simp: write_atomic_def fs_remove_def Let_def split: if_splits option.splits prod.splits)

definition os_example :: os_answers where
  "os_example = \<lparr>os_mkdir = None, os_uuid = ''u1'', os_create = None, os_write = Some (1, ''ENOSPC''),
     os_remove_ok = False, os_racer = Some [9], os_rename = None, os_open = None, os_stat = None,
     os_seek = None, os_read = None\<rparr>"

text \<open>A full disk: one byte reached the temporary file, the destination is untouched.\<close>

end
