(* ===== verification/Meta_Sqlite.thy ===== *)
theory Meta_Sqlite
  imports Core_Types
begin

text \<open>
  The SQLite metadata store, \<open>bale-server-meta-sqlite\<close>, with the helpers and row decoders of
  \<open>bale-server-meta-common\<close>. A table is the list of its rows, a column keeps the type it has in the
  database (a hash is a blob, every number an integer), and each SQL statement is the function it
  performs on the tables. Whether a statement fails is decided by \<open>faults\<close>, indexed by a tick that
  every statement advances, and the row an unordered \<open>LIMIT 1\<close> returns by \<open>pick\<close>: both are
  parameters, so the results hold for every failing statement and every choice of row. A
  transaction works on a copy of the tables and publishes it at commit.
\<close>

section \<open>Shared helpers\<close>

definition CHUNK_INSERT_BATCH :: nat where
  "CHUNK_INSERT_BATCH = 500"

definition hash_to_blob :: "hash32 \<Rightarrow> bytes" where
  "hash_to_blob h = hash_bytes h"

definition blob_to_hash :: "bytes \<Rightarrow> core_error + hash32" where
  "blob_to_hash b =
     (if length b \<noteq> HASH_LEN
      then Inl (Internal (''bad hash blob length '' @ show_nat (length b) @ '' (want '' @
             show_nat HASH_LEN @ '')''))
      else Inr (Hash32 b))"

definition show_int :: "int \<Rightarrow> string" where
  "show_int n = (if n < 0 then ''-'' @ show_nat (nat (- n)) else show_nat (nat n))"

definition nonneg_i64_to_u64 :: "int \<Rightarrow> string \<Rightarrow> core_error + nat" where
  "nonneg_i64_to_u64 n label =
     (if n < 0
      then Inl (Internal (label @ '': aggregate overflowed i64 (got '' @ show_int n @
             ''); database is corrupt or owner exceeds 8 EiB''))
      else Inr (nat n))"

text \<open>Sorting by bytes and dropping equal neighbours.\<close>

definition dedup_sorted_xorbs :: "hash32 list \<Rightarrow> hash32 list" where
  "dedup_sorted_xorbs xorbs = remdups_adj (sort_key hash_bytes xorbs)"

text \<open>The cast \<open>as u32\<close> of an \<open>i64\<close> column.\<close>

definition get_u32 :: "int \<Rightarrow> u32" where
  "get_u32 n = word_of_int n"

section \<open>Tables\<close>

record xorb_rec =
  xr_hash :: bytes
  xr_num_chunks :: int
  xr_num_bytes_in_cas :: int
  xr_num_bytes_on_disk :: int
  xr_created_at :: int

record chunk_rec =
  ck_chunk_hash :: bytes
  ck_xorb_hash :: bytes
  ck_chunk_index :: int
  ck_byte_start :: int
  ck_unpacked_bytes :: int

record frame_rec =
  fr_xorb_hash :: bytes
  fr_frame_index :: int
  fr_on_disk_start :: int
  fr_on_disk_len :: int
  fr_uncompressed_len :: int

record file_rec =
  fl_file_hash :: bytes
  fl_repo_type :: string
  fl_repo_id :: string
  fl_revision :: string
  fl_total_bytes :: int
  fl_created_at :: int
  fl_owner :: string

record term_rec =
  tm_file_hash :: bytes
  tm_term_index :: int
  tm_xorb_hash :: bytes
  tm_chunk_idx_start :: int
  tm_chunk_idx_end :: int
  tm_unpacked_bytes :: int
  tm_verification :: "bytes option"

record meta_db =
  db_xorbs :: "xorb_rec list"
  db_chunks :: "chunk_rec list"
  db_frames :: "frame_rec list"
  db_files :: "file_rec list"
  db_quotas :: "(string \<times> int) list"
  db_terms :: "term_rec list"

definition db_empty :: meta_db where
  "db_empty = \<lparr>db_xorbs = [], db_chunks = [], db_frames = [], db_files = [], db_quotas = [], db_terms = []\<rparr>"

text \<open>\<open>INSERT OR IGNORE\<close> and \<open>INSERT OR REPLACE\<close> (also \<open>ON CONFLICT DO NOTHING\<close>, \<open>DO UPDATE\<close> of every other
  column) on a table with the given primary key.\<close>

definition insert_ignore :: "('r \<Rightarrow> 'k) \<Rightarrow> 'r \<Rightarrow> 'r list \<Rightarrow> 'r list" where
  "insert_ignore key r tbl = (if \<exists>x \<in> set tbl. key x = key r then tbl else tbl @ [r])"

definition insert_replace :: "('r \<Rightarrow> 'k) \<Rightarrow> 'r \<Rightarrow> 'r list \<Rightarrow> 'r list" where
  "insert_replace key r tbl = filter (\<lambda>x. key x \<noteq> key r) tbl @ [r]"

definition insert_ignore_all :: "('r \<Rightarrow> 'k) \<Rightarrow> 'r list \<Rightarrow> 'r list \<Rightarrow> 'r list" where
  "insert_ignore_all key rs tbl = fold (insert_ignore key) rs tbl"

definition chunk_key :: "chunk_rec \<Rightarrow> bytes \<times> bytes" where
  "chunk_key r = (ck_chunk_hash r, ck_xorb_hash r)"

definition frame_key :: "frame_rec \<Rightarrow> bytes \<times> int" where
  "frame_key r = (fr_xorb_hash r, fr_frame_index r)"

definition file_key :: "file_rec \<Rightarrow> bytes \<times> string" where
  "file_key r = (fl_file_hash r, fl_repo_id r)"

definition term_key :: "term_rec \<Rightarrow> bytes \<times> int" where
  "term_key r = (tm_file_hash r, tm_term_index r)"

text \<open>\<open>slice::chunks(n)\<close>.\<close>

function batches :: "nat \<Rightarrow> 'a list \<Rightarrow> 'a list list" where
  "batches n xs = (if xs = [] \<or> n = 0 then [] else take n xs # batches n (drop n xs))"
  by pat_completeness auto
termination
  by (relation "measure (\<lambda>(n, xs). length xs)") auto

declare batches.simps [simp del]

text \<open>\<open>LIMIT 1\<close> without an order: some matching row.\<close>

definition limit1 :: "(nat \<Rightarrow> nat) \<Rightarrow> 'r list \<Rightarrow> 'r option" where
  "limit1 pick rs = (if rs = [] then None else Some (rs ! (pick (length rs) mod length rs)))"

text \<open>\<open>SUM\<close> over an integer column; SQLite raises an error on overflow.\<close>

fun sql_sum :: "int \<Rightarrow> int list \<Rightarrow> int option" where
  "sql_sum acc [] = Some acc"
| "sql_sum acc (n # ns) =
     (if acc + n > i64_max \<or> acc + n < - i64_max - 1 then None else sql_sum (acc + n) ns)"

section \<open>Statements and transactions\<close>

record sql_state =
  sq_db :: meta_db
  sq_tick :: nat

type_synonym faults = "nat \<Rightarrow> string option"

text \<open>A statement inside a transaction, on the working copy and the tick.\<close>

definition exec_stmt ::
  "faults \<Rightarrow> string \<Rightarrow> (meta_db \<Rightarrow> meta_db) \<Rightarrow> meta_db \<times> nat \<Rightarrow> (core_error + meta_db) \<times> nat" where
  "exec_stmt fl label f = (\<lambda>(db, t).
     (case fl t of
        Some e \<Rightarrow> (Inl (Internal (label @ '': '' @ e)), t + 1)
      | None \<Rightarrow> (Inr (f db), t + 1)))"

text \<open>One statement per batch, stopping at the first that fails.\<close>

fun exec_batches ::
  "faults \<Rightarrow> string \<Rightarrow> ('r list \<Rightarrow> meta_db \<Rightarrow> meta_db) \<Rightarrow> 'r list list \<Rightarrow> meta_db \<times> nat \<Rightarrow>
   (core_error + meta_db) \<times> nat" where
  "exec_batches fl label f [] (db, t) = (Inr db, t)"
| "exec_batches fl label f (b # bs) (db, t) =
     (case exec_stmt fl label (f b) (db, t) of
        (Inl e, t) \<Rightarrow> (Inl e, t)
      | (Inr db, t) \<Rightarrow> exec_batches fl label f bs (db, t))"

text \<open>\<open>begin\<close>, a body on a copy of the tables, \<open>commit\<close>; an error anywhere rolls the copy back.\<close>

definition in_tx ::
  "faults \<Rightarrow> string \<Rightarrow> (meta_db \<times> nat \<Rightarrow> (core_error + meta_db) \<times> nat) \<Rightarrow> sql_state \<Rightarrow>
   (core_error + unit) \<times> sql_state" where
  "in_tx fl commit_label body s =
     (case exec_stmt fl ''begin'' id (sq_db s, sq_tick s) of
        (Inl e, t) \<Rightarrow> (Inl e, s\<lparr>sq_tick := t\<rparr>)
      | (Inr db, t) \<Rightarrow>
          (case body (db, t) of
             (Inl e, t) \<Rightarrow> (Inl e, s\<lparr>sq_tick := t\<rparr>)
           | (Inr db, t) \<Rightarrow>
               (case exec_stmt fl commit_label id (db, t) of
                  (Inl e, t) \<Rightarrow> (Inl e, s\<lparr>sq_tick := t\<rparr>)
                | (Inr db, t) \<Rightarrow> (Inr (), \<lparr>sq_db = db, sq_tick = t\<rparr>))))"

text \<open>A query outside a transaction, the \<open>k\<close>-th of its operation.\<close>

definition query :: "faults \<Rightarrow> string \<Rightarrow> nat \<Rightarrow> (meta_db \<Rightarrow> 'a) \<Rightarrow> sql_state \<Rightarrow> core_error + 'a" where
  "query fl label k f s =
     (case fl (sq_tick s + k) of
        Some e \<Rightarrow> Inl (Internal (label @ '': '' @ e))
      | None \<Rightarrow> Inr (f (sq_db s)))"

text \<open>The aggregate queries: the sum of a column of the matching rows.\<close>

definition query_sum ::
  "faults \<Rightarrow> string \<Rightarrow> string \<Rightarrow> (meta_db \<Rightarrow> int list) \<Rightarrow> sql_state \<Rightarrow> core_error + nat" where
  "query_sum fl qlabel label col s =
     rbind (query fl qlabel 0 col s) (\<lambda>ns.
     rbind (ok_or (Internal (qlabel @ '': integer overflow'')) (sql_sum 0 ns)) (\<lambda>n.
       nonneg_i64_to_u64 n label))"

section \<open>Row decoders\<close>

definition row_to_file_term :: "term_rec \<Rightarrow> core_error + file_term" where
  "row_to_file_term r =
     rbind (blob_to_hash (tm_xorb_hash r)) (\<lambda>x.
     rbind (case tm_verification r of
              None \<Rightarrow> Inr None
            | Some b \<Rightarrow> rbind (blob_to_hash b) (\<lambda>v. Inr (Some v))) (\<lambda>v.
       Inr \<lparr>ft_xorb = x, ft_chunk_idx_start = get_u32 (tm_chunk_idx_start r),
            ft_chunk_idx_end = get_u32 (tm_chunk_idx_end r),
            ft_unpacked_segment_bytes = get_u32 (tm_unpacked_bytes r), ft_verification = v\<rparr>))"

definition row_to_frame :: "frame_rec \<Rightarrow> xorb_frame_row" where
  "row_to_frame r =
     \<lparr>xf_frame_index = get_u32 (fr_frame_index r), xf_on_disk_start = get_u32 (fr_on_disk_start r),
      xf_on_disk_len = get_u32 (fr_on_disk_len r), xf_uncompressed_len = get_u32 (fr_uncompressed_len r)\<rparr>"

definition row_to_chunk_offset :: "chunk_rec \<Rightarrow> core_error + chunk_offset_row" where
  "row_to_chunk_offset r =
     rbind (blob_to_hash (ck_chunk_hash r)) (\<lambda>h.
       Inr \<lparr>co_chunk_hash = h, co_chunk_index = get_u32 (ck_chunk_index r),
            co_byte_start = get_u32 (ck_byte_start r),
            co_unpacked_segment_bytes = get_u32 (ck_unpacked_bytes r)\<rparr>)"

definition row_to_xorb_info :: "xorb_rec \<Rightarrow> hash32 \<Rightarrow> xorb_info" where
  "row_to_xorb_info r x =
     \<lparr>xi_xorb = x, xi_num_chunks = get_u32 (xr_num_chunks r),
      xi_num_bytes_in_cas = get_u32 (xr_num_bytes_in_cas r),
      xi_num_bytes_on_disk = get_u32 (xr_num_bytes_on_disk r)\<rparr>"

section \<open>Writes\<close>

definition repo_type_text :: "repo_type \<Rightarrow> string" where
  "repo_type_text t = (case t of Model \<Rightarrow> ''model'' | Dataset \<Rightarrow> ''dataset'' | Space \<Rightarrow> ''space'')"

definition mk_xorb_rec :: "int \<Rightarrow> xorb_info \<Rightarrow> xorb_rec" where
  "mk_xorb_rec now x =
     \<lparr>xr_hash = hash_to_blob (xi_xorb x), xr_num_chunks = uint (xi_num_chunks x),
      xr_num_bytes_in_cas = uint (xi_num_bytes_in_cas x),
      xr_num_bytes_on_disk = uint (xi_num_bytes_on_disk x), xr_created_at = now\<rparr>"

definition mk_chunk_rec :: "hash32 \<Rightarrow> chunk_row \<Rightarrow> chunk_rec" where
  "mk_chunk_rec x c =
     \<lparr>ck_chunk_hash = hash_to_blob (cr_chunk_hash c), ck_xorb_hash = hash_to_blob x,
      ck_chunk_index = uint (cr_chunk_index c), ck_byte_start = uint (cr_byte_start c),
      ck_unpacked_bytes = uint (cr_unpacked_segment_bytes c)\<rparr>"

definition mk_frame_rec :: "hash32 \<Rightarrow> xorb_frame_row \<Rightarrow> frame_rec" where
  "mk_frame_rec x f =
     \<lparr>fr_xorb_hash = hash_to_blob x, fr_frame_index = uint (xf_frame_index f),
      fr_on_disk_start = uint (xf_on_disk_start f), fr_on_disk_len = uint (xf_on_disk_len f),
      fr_uncompressed_len = uint (xf_uncompressed_len f)\<rparr>"

definition mk_file_rec :: "int \<Rightarrow> hash32 \<Rightarrow> repo_ref \<Rightarrow> file_term list \<Rightarrow> file_rec" where
  "mk_file_rec now h repo ts =
     \<lparr>fl_file_hash = hash_to_blob h, fl_repo_type = repo_type_text (repo_type_of repo),
      fl_repo_id = repo_id repo, fl_revision = revision repo,
      fl_total_bytes = as_i64 (terms_total ts), fl_created_at = now, fl_owner = repo_owner repo\<rparr>"

definition mk_term_rec :: "hash32 \<Rightarrow> nat \<times> file_term \<Rightarrow> term_rec" where
  "mk_term_rec h = (\<lambda>(idx, t).
     \<lparr>tm_file_hash = hash_to_blob h, tm_term_index = as_i64 idx, tm_xorb_hash = hash_to_blob (ft_xorb t),
      tm_chunk_idx_start = uint (ft_chunk_idx_start t), tm_chunk_idx_end = uint (ft_chunk_idx_end t),
      tm_unpacked_bytes = uint (ft_unpacked_segment_bytes t),
      tm_verification = map_option hash_to_blob (ft_verification t)\<rparr>)"

definition terms_exist :: "hash32 \<Rightarrow> meta_db \<Rightarrow> bool" where
  "terms_exist h db \<longleftrightarrow> (\<exists>r \<in> set (db_terms db). tm_file_hash r = hash_to_blob h)"

definition insert_file :: "int \<Rightarrow> hash32 \<Rightarrow> repo_ref \<Rightarrow> file_term list \<Rightarrow> meta_db \<Rightarrow> meta_db" where
  "insert_file now h repo ts db =
     db\<lparr>db_files := insert_replace file_key (mk_file_rec now h repo ts) (db_files db)\<rparr>"

definition insert_terms :: "hash32 \<Rightarrow> (nat \<times> file_term) list \<Rightarrow> meta_db \<Rightarrow> meta_db" where
  "insert_terms h its db =
     db\<lparr>db_terms := insert_ignore_all term_key (map (mk_term_rec h) its) (db_terms db)\<rparr>"

definition write_file_in_tx ::
  "faults \<Rightarrow> int \<Rightarrow> hash32 \<Rightarrow> repo_ref \<Rightarrow> file_term list \<Rightarrow> meta_db \<times> nat \<Rightarrow>
   (core_error + meta_db) \<times> nat" where
  "write_file_in_tx fl now h repo ts s =
     (case exec_stmt fl ''insert file'' (insert_file now h repo ts) s of
        (Inl e, t) \<Rightarrow> (Inl e, t)
      | (Inr db, t) \<Rightarrow>
          (case exec_stmt fl ''probe existing terms'' id (db, t) of
             (Inl e, t) \<Rightarrow> (Inl e, t)
           | (Inr db, t) \<Rightarrow>
               if terms_exist h db then (Inr db, t)
               else exec_batches fl ''insert terms'' (insert_terms h)
                      (batches CHUNK_INSERT_BATCH (enumerate 0 ts)) (db, t)))"

definition insert_xorb :: "int \<Rightarrow> xorb_info \<Rightarrow> meta_db \<Rightarrow> meta_db" where
  "insert_xorb now x db = db\<lparr>db_xorbs := insert_ignore xr_hash (mk_xorb_rec now x) (db_xorbs db)\<rparr>"

definition insert_chunks :: "hash32 \<Rightarrow> chunk_row list \<Rightarrow> meta_db \<Rightarrow> meta_db" where
  "insert_chunks x cs db =
     db\<lparr>db_chunks := insert_ignore_all chunk_key (map (mk_chunk_rec x) cs) (db_chunks db)\<rparr>"

definition insert_frames :: "hash32 \<Rightarrow> xorb_frame_row list \<Rightarrow> meta_db \<Rightarrow> meta_db" where
  "insert_frames x fs db =
     db\<lparr>db_frames := insert_ignore_all frame_key (map (mk_frame_rec x) fs) (db_frames db)\<rparr>"

definition sqlite_register_xorb ::
  "faults \<Rightarrow> int \<Rightarrow> xorb_info \<Rightarrow> chunk_row list \<Rightarrow> sql_state \<Rightarrow> (core_error + unit) \<times> sql_state" where
  "sqlite_register_xorb fl now x cs =
     in_tx fl ''commit'' (\<lambda>s.
       case exec_stmt fl ''insert xorb'' (insert_xorb now x) s of
         (Inl e, t) \<Rightarrow> (Inl e, t)
       | (Inr db, t) \<Rightarrow>
           exec_batches fl ''insert chunks'' (insert_chunks (xi_xorb x))
             (batches CHUNK_INSERT_BATCH cs) (db, t))"

definition sqlite_register_file ::
  "faults \<Rightarrow> int \<Rightarrow> hash32 \<Rightarrow> repo_ref \<Rightarrow> file_term list \<Rightarrow> sql_state \<Rightarrow> (core_error + unit) \<times> sql_state" where
  "sqlite_register_file fl now h repo ts = in_tx fl ''commit'' (write_file_in_tx fl now h repo ts)"

fun write_files_in_tx ::
  "faults \<Rightarrow> int \<Rightarrow> repo_ref \<Rightarrow> (hash32 \<times> file_term list) list \<Rightarrow> meta_db \<times> nat \<Rightarrow>
   (core_error + meta_db) \<times> nat" where
  "write_files_in_tx fl now repo [] (db, t) = (Inr db, t)"
| "write_files_in_tx fl now repo ((h, ts) # fs) (db, t) =
     (case write_file_in_tx fl now h repo ts (db, t) of
        (Inl e, t) \<Rightarrow> (Inl e, t)
      | (Inr db, t) \<Rightarrow> write_files_in_tx fl now repo fs (db, t))"

definition sqlite_register_files ::
  "faults \<Rightarrow> int \<Rightarrow> repo_ref \<Rightarrow> (hash32 \<times> file_term list) list \<Rightarrow> sql_state \<Rightarrow>
   (core_error + unit) \<times> sql_state" where
  "sqlite_register_files fl now repo files s =
     (if files = [] then (Inr (), s)
      else in_tx fl ''commit'' (write_files_in_tx fl now repo files) s)"

definition sqlite_register_xorb_layout ::
  "faults \<Rightarrow> hash32 \<Rightarrow> xorb_frame_row list \<Rightarrow> sql_state \<Rightarrow> (core_error + unit) \<times> sql_state" where
  "sqlite_register_xorb_layout fl x frames s =
     (if frames = [] then (Inr (), s)
      else in_tx fl ''commit frames''
             (exec_batches fl ''insert frames'' (insert_frames x) (batches CHUNK_INSERT_BATCH frames)) s)"

definition sqlite_set_owner_quota ::
  "faults \<Rightarrow> string \<Rightarrow> nat option \<Rightarrow> sql_state \<Rightarrow> (core_error + unit) \<times> sql_state" where
  "sqlite_set_owner_quota fl owner limit s =
     (let run = (\<lambda>label f.
        (case exec_stmt fl label f (sq_db s, sq_tick s) of
           (Inl e, t) \<Rightarrow> (Inl e, s\<lparr>sq_tick := t\<rparr>)
         | (Inr db, t) \<Rightarrow> (Inr (), \<lparr>sq_db = db, sq_tick = t\<rparr>)))
      in case limit of
           Some n \<Rightarrow> run ''set_owner_quota''
             (\<lambda>db. db\<lparr>db_quotas := insert_replace fst (owner, as_i64 n) (db_quotas db)\<rparr>)
         | None \<Rightarrow> run ''clear_owner_quota''
             (\<lambda>db. db\<lparr>db_quotas := filter (\<lambda>r. fst r \<noteq> owner) (db_quotas db)\<rparr>))"

section \<open>Reads\<close>

definition sqlite_xorb_exists :: "faults \<Rightarrow> hash32 \<Rightarrow> sql_state \<Rightarrow> core_error + bool" where
  "sqlite_xorb_exists fl x =
     query fl ''select xorb'' 0 (\<lambda>db. \<exists>r \<in> set (db_xorbs db). xr_hash r = hash_to_blob x)"

definition sqlite_file_in_repo :: "faults \<Rightarrow> hash32 \<Rightarrow> string \<Rightarrow> sql_state \<Rightarrow> core_error + bool" where
  "sqlite_file_in_repo fl h rid =
     query fl ''select file_in_repo'' 0
       (\<lambda>db. \<exists>r \<in> set (db_files db). fl_file_hash r = hash_to_blob h \<and> fl_repo_id r = rid)"

definition select_terms :: "hash32 \<Rightarrow> meta_db \<Rightarrow> term_rec list" where
  "select_terms h db = sort_key tm_term_index (filter (\<lambda>r. tm_file_hash r = hash_to_blob h) (db_terms db))"

definition sqlite_lookup_file ::
  "faults \<Rightarrow> (nat \<Rightarrow> nat) \<Rightarrow> hash32 \<Rightarrow> sql_state \<Rightarrow> core_error + file_term list option" where
  "sqlite_lookup_file fl pick h s =
     rbind (query fl ''select terms'' 0 (select_terms h) s) (\<lambda>rows.
     if rows = [] then Inr None
     else
       rbind (rmapM row_to_file_term rows) (\<lambda>ts.
       rbind (query fl ''select file size'' 1
                (\<lambda>db. limit1 pick (filter (\<lambda>r. fl_file_hash r = hash_to_blob h) (db_files db))) s) (\<lambda>recorded.
         case recorded of
           None \<Rightarrow> Inr (Some ts)
         | Some r \<Rightarrow>
             rbind (nonneg_i64_to_u64 (fl_total_bytes r) ''files.total_bytes'') (\<lambda>total.
               if terms_total ts \<noteq> total
               then Inl (Internal (''file term list sums to '' @ show_nat (terms_total ts) @
                      '' but recorded size is '' @ show_nat total @
                      ''; refusing to serve an inconsistent reconstruction (re-register this file)''))
               else Inr (Some ts)))))"

definition select_frames :: "hash32 \<Rightarrow> meta_db \<Rightarrow> frame_rec list" where
  "select_frames x db = sort_key fr_frame_index (filter (\<lambda>r. fr_xorb_hash r = hash_to_blob x) (db_frames db))"

definition sqlite_xorb_frame_layout :: "faults \<Rightarrow> hash32 \<Rightarrow> sql_state \<Rightarrow> core_error + xorb_frame_row list" where
  "sqlite_xorb_frame_layout fl x s =
     rbind (query fl ''select frames'' 0 (select_frames x) s) (\<lambda>rows. Inr (map row_to_frame rows))"

text \<open>The batched query: one result ordered by hash and index, grouped into a map.\<close>

fun group_frames ::
  "frame_rec list \<Rightarrow> (hash32 \<rightharpoonup> xorb_frame_row list) \<Rightarrow> core_error + (hash32 \<rightharpoonup> xorb_frame_row list)" where
  "group_frames [] out = Inr out"
| "group_frames (r # rs) out =
     rbind (blob_to_hash (fr_xorb_hash r)) (\<lambda>x.
       group_frames rs (out(x \<mapsto> (case out x of None \<Rightarrow> [] | Some fs \<Rightarrow> fs) @ [row_to_frame r])))"

definition sqlite_xorb_frame_layouts ::
  "faults \<Rightarrow> hash32 list \<Rightarrow> sql_state \<Rightarrow> core_error + (hash32 \<rightharpoonup> xorb_frame_row list)" where
  "sqlite_xorb_frame_layouts fl xorbs s =
     (if xorbs = [] then Inr Map.empty
      else
        let uniq = dedup_sorted_xorbs xorbs in
        rbind (query fl ''select frame layouts'' 0
          (\<lambda>db. sort_key (\<lambda>r. fr_xorb_hash r) (sort_key fr_frame_index
             (filter (\<lambda>r. fr_xorb_hash r \<in> hash_to_blob ` set uniq) (db_frames db)))) s) (\<lambda>rows.
        group_frames rows Map.empty))"

definition sqlite_xorbs_near_chunk ::
  "faults \<Rightarrow> (nat \<Rightarrow> nat) \<Rightarrow> hash32 \<Rightarrow> nat \<Rightarrow> sql_state \<Rightarrow> core_error + xorb_info list" where
  "sqlite_xorbs_near_chunk fl pick ch limit s =
     rbind (query fl ''near'' 0
       (\<lambda>db. limit1 pick (filter (\<lambda>r. ck_chunk_hash r = hash_to_blob ch) (db_chunks db))) s) (\<lambda>row.
     case row of
       None \<Rightarrow> Inr []
     | Some r \<Rightarrow>
         rbind (blob_to_hash (ck_xorb_hash r)) (\<lambda>x.
         rbind (query fl ''xorb meta'' 1
           (\<lambda>db. List.find (\<lambda>r. xr_hash r = hash_to_blob x) (db_xorbs db)) s) (\<lambda>row.
         case row of
           None \<Rightarrow> Inl (Internal ''xorb meta: no rows returned'')
         | Some r \<Rightarrow> Inr (take limit [row_to_xorb_info r x]))))"

definition sqlite_xorb_chunk_offsets :: "faults \<Rightarrow> hash32 \<Rightarrow> sql_state \<Rightarrow> core_error + chunk_offset_row list" where
  "sqlite_xorb_chunk_offsets fl x s =
     rbind (query fl ''xorb offsets'' 0
       (\<lambda>db. sort_key ck_chunk_index (filter (\<lambda>r. ck_xorb_hash r = hash_to_blob x) (db_chunks db))) s)
       (rmapM row_to_chunk_offset)"

text \<open>The aggregates. \<open>referenced\<close> is the subquery over the join of \<open>file_terms\<close> and \<open>files\<close>.\<close>

definition referenced :: "(file_rec \<Rightarrow> bool) \<Rightarrow> meta_db \<Rightarrow> bytes \<Rightarrow> bool" where
  "referenced P db x \<longleftrightarrow>
     (\<exists>ft \<in> set (db_terms db). \<exists>f \<in> set (db_files db).
        fl_file_hash f = tm_file_hash ft \<and> P f \<and> tm_xorb_hash ft = x)"

definition on_disk_of :: "(bytes \<Rightarrow> bool) \<Rightarrow> meta_db \<Rightarrow> int list" where
  "on_disk_of P db = map xr_num_bytes_on_disk (filter (\<lambda>r. P (xr_hash r)) (db_xorbs db))"

definition sqlite_raw_bytes_for_owner :: "faults \<Rightarrow> string \<Rightarrow> sql_state \<Rightarrow> core_error + nat" where
  "sqlite_raw_bytes_for_owner fl owner =
     query_sum fl ''raw_bytes_for_owner'' ''raw_bytes_for_owner''
       (\<lambda>db. map fl_total_bytes (filter (\<lambda>r. fl_owner r = owner) (db_files db)))"

definition sqlite_stored_bytes_for_owner :: "faults \<Rightarrow> string \<Rightarrow> sql_state \<Rightarrow> core_error + nat" where
  "sqlite_stored_bytes_for_owner fl owner =
     query_sum fl ''stored_bytes_for_owner'' ''stored_bytes_for_owner''
       (\<lambda>db. on_disk_of (referenced (\<lambda>f. fl_owner f = owner) db) db)"

definition sqlite_get_owner_quota :: "faults \<Rightarrow> string \<Rightarrow> sql_state \<Rightarrow> core_error + nat option" where
  "sqlite_get_owner_quota fl owner s =
     rbind (query fl ''get_owner_quota'' 0 (\<lambda>db. List.find (\<lambda>r. fst r = owner) (db_quotas db)) s) (\<lambda>row.
     case row of
       None \<Rightarrow> Inr None
     | Some r \<Rightarrow> rbind (nonneg_i64_to_u64 (snd r) ''get_owner_quota'') (\<lambda>n. Inr (Some n)))"

definition sqlite_raw_bytes_for_repo :: "faults \<Rightarrow> string \<Rightarrow> sql_state \<Rightarrow> core_error + nat" where
  "sqlite_raw_bytes_for_repo fl rid =
     query_sum fl ''raw_bytes_for_repo'' ''raw_bytes_for_repo''
       (\<lambda>db. map fl_total_bytes (filter (\<lambda>r. fl_repo_id r = rid) (db_files db)))"

definition sqlite_stored_bytes_for_repo :: "faults \<Rightarrow> string \<Rightarrow> sql_state \<Rightarrow> core_error + nat" where
  "sqlite_stored_bytes_for_repo fl rid =
     query_sum fl ''stored_bytes_for_repo'' ''stored_bytes_for_repo''
       (\<lambda>db. on_disk_of (referenced (\<lambda>f. fl_repo_id f = rid) db) db)"

definition sqlite_exclusive_stored_bytes_for_repo :: "faults \<Rightarrow> string \<Rightarrow> sql_state \<Rightarrow> core_error + nat" where
  "sqlite_exclusive_stored_bytes_for_repo fl rid =
     (let owner = owner_of_id rid in
      query_sum fl ''exclusive_stored_bytes_for_repo'' ''exclusive_stored_bytes_for_repo''
        (\<lambda>db. on_disk_of (\<lambda>x. referenced (\<lambda>f. fl_repo_id f = rid) db x \<and>
                \<not> referenced (\<lambda>f. fl_owner f = owner \<and> fl_repo_id f \<noteq> rid) db x) db))"

definition sqlite_unaccounted_xorb_bytes_for_owner ::
  "faults \<Rightarrow> string \<Rightarrow> hash32 list \<Rightarrow> sql_state \<Rightarrow> core_error + nat" where
  "sqlite_unaccounted_xorb_bytes_for_owner fl owner candidates s =
     (if candidates = [] then Inr 0
      else
        let uniq = dedup_sorted_xorbs candidates in
        query_sum fl ''unaccounted_xorb_bytes'' ''unaccounted_xorb_bytes_for_owner''
          (\<lambda>db. on_disk_of (\<lambda>x. x \<in> hash_to_blob ` set uniq \<and>
                  \<not> referenced (\<lambda>f. fl_owner f = owner) db x) db) s)"

definition sqlite_meta_ops :: "faults \<Rightarrow> (nat \<Rightarrow> nat) \<Rightarrow> int \<Rightarrow> sql_state meta_ops" where
  "sqlite_meta_ops fl pick now = \<lparr>
     register_xorb = sqlite_register_xorb fl now,
     register_file = sqlite_register_file fl now,
     register_files = sqlite_register_files fl now,
     register_xorb_layout = sqlite_register_xorb_layout fl,
     xorb_frame_layout = sqlite_xorb_frame_layout fl,
     xorb_frame_layouts = sqlite_xorb_frame_layouts fl,
     meta_xorb_exists = sqlite_xorb_exists fl,
     lookup_file = sqlite_lookup_file fl pick,
     file_in_repo = sqlite_file_in_repo fl,
     xorbs_near_chunk = sqlite_xorbs_near_chunk fl pick,
     xorb_chunk_offsets = sqlite_xorb_chunk_offsets fl,
     raw_bytes_for_owner = sqlite_raw_bytes_for_owner fl,
     stored_bytes_for_owner = sqlite_stored_bytes_for_owner fl,
     get_owner_quota = sqlite_get_owner_quota fl,
     set_owner_quota = sqlite_set_owner_quota fl,
     unaccounted_xorb_bytes_for_owner = sqlite_unaccounted_xorb_bytes_for_owner fl,
     raw_bytes_for_repo = sqlite_raw_bytes_for_repo fl,
     stored_bytes_for_repo = sqlite_stored_bytes_for_repo fl,
     exclusive_stored_bytes_for_repo = sqlite_exclusive_stored_bytes_for_repo fl\<rparr>"

section \<open>Transactions\<close>

lemma concat_batches [simp]: "0 < n \<Longrightarrow> concat (batches n xs) = xs"
proof (induction n xs rule: batches.induct)
  case (1 n xs)
  then show ?case by (cases "xs = []") (simp_all add: batches.simps [of n xs] batches.simps [of n "[]"])
qed

lemma insert_ignore_all_append:
  "insert_ignore_all key (xs @ ys) tbl = insert_ignore_all key ys (insert_ignore_all key xs tbl)"
  by (simp add: insert_ignore_all_def)

lemma exec_stmt_Inr: "exec_stmt fl label f (db, t) = (Inr db', t') \<Longrightarrow> db' = f db"
  by (auto simp: exec_stmt_def split: option.splits)

text \<open>Inserting batch by batch has the effect of one insert of everything.\<close>

lemma exec_batches_Inr:
  assumes "\<And>xs ys db. f (xs @ ys) db = f ys (f xs db)" and "\<And>db. f [] db = db"
  shows "exec_batches fl label f bs (db, t) = (Inr db', t') \<Longrightarrow> db' = f (concat bs) db"
proof (induction bs arbitrary: db t)
  case (Cons b bs)
  then obtain db1 t1 where "exec_stmt fl label (f b) (db, t) = (Inr db1, t1)"
    and "exec_batches fl label f bs (db1, t1) = (Inr db', t')"
    by (auto split: prod.splits sum.splits)
  with Cons.IH exec_stmt_Inr [of fl label "f b" db t db1 t1] assms(1) show ?case by simp
qed (simp add: assms(2))

lemma insert_append:
  "insert_terms h (xs @ ys) db = insert_terms h ys (insert_terms h xs db)"
  "insert_chunks x (cs @ ds) db = insert_chunks x ds (insert_chunks x cs db)"
  "insert_frames x (fs @ gs) db = insert_frames x gs (insert_frames x fs db)"
  by (simp_all add: insert_terms_def insert_chunks_def insert_frames_def insert_ignore_all_append)

lemma insert_nil:
  "insert_terms h [] db = db" "insert_chunks x [] db = db" "insert_frames x [] db = db"
  by (simp_all add: insert_terms_def insert_chunks_def insert_frames_def insert_ignore_all_def)

lemmas exec_insert_terms = exec_batches_Inr [of "insert_terms h" for h, OF insert_append(1) insert_nil(1)]
lemmas exec_insert_chunks = exec_batches_Inr [of "insert_chunks x" for x, OF insert_append(2) insert_nil(2)]
lemmas exec_insert_frames = exec_batches_Inr [of "insert_frames x" for x, OF insert_append(3) insert_nil(3)]

lemma in_tx_Inl: "in_tx fl cl body s = (Inl e, s') \<Longrightarrow> sq_db s' = sq_db s"
  by (auto simp: in_tx_def split: prod.splits sum.splits)

lemma in_tx_Inr:
  assumes "in_tx fl cl body s = (Inr (), s')"
  obtains t t' where "body (sq_db s, t) = (Inr (sq_db s'), t')"
  using assms by (auto simp: in_tx_def split: prod.splits sum.splits dest!: exec_stmt_Inr)

text \<open>What the writes do to the tables when they succeed.\<close>

definition apply_file :: "int \<Rightarrow> repo_ref \<Rightarrow> hash32 \<times> file_term list \<Rightarrow> meta_db \<Rightarrow> meta_db" where
  "apply_file now repo = (\<lambda>(h, ts) db.
     let db = insert_file now h repo ts db
     in if terms_exist h db then db else insert_terms h (enumerate 0 ts) db)"

lemma batch_pos [simp]: "0 < CHUNK_INSERT_BATCH"
  by (simp add: CHUNK_INSERT_BATCH_def)

lemma write_file_in_tx_Inr:
  assumes "write_file_in_tx fl now h repo ts (db, t) = (Inr db', t')"
  shows "db' = apply_file now repo (h, ts) db"
proof -
  obtain db1 t1 db2 t2 where s: "exec_stmt fl ''insert file'' (insert_file now h repo ts) (db, t) = (Inr db1, t1)"
      "exec_stmt fl ''probe existing terms'' id (db1, t1) = (Inr db2, t2)"
      and r: "(if terms_exist h db2 then (Inr db2, t2)
               else exec_batches fl ''insert terms'' (insert_terms h)
                      (batches CHUNK_INSERT_BATCH (enumerate 0 ts)) (db2, t2)) = (Inr db', t')"
    using assms by (auto simp: write_file_in_tx_def split: prod.splits sum.splits)
  have "db2 = insert_file now h repo ts db" using s by (auto dest!: exec_stmt_Inr)
  with r show ?thesis
    by (auto simp: apply_file_def Let_def split: if_splits dest!: exec_insert_terms)
qed

lemma write_files_in_tx_Inr:
  "write_files_in_tx fl now repo files (db, t) = (Inr db', t') \<Longrightarrow> db' = fold (apply_file now repo) files db"
proof (induction files arbitrary: db t)
  case (Cons f files)
  obtain h ts where f: "f = (h, ts)" by (cases f)
  with Cons.prems obtain db1 t1 where "write_file_in_tx fl now h repo ts (db, t) = (Inr db1, t1)"
    and "write_files_in_tx fl now repo files (db1, t1) = (Inr db', t')"
    by (auto split: prod.splits sum.splits)
  with Cons.IH write_file_in_tx_Inr f show ?case by fastforce
qed simp

lemma register_files_Inr:
  "sqlite_register_files fl now repo files s = (Inr (), s') \<Longrightarrow> sq_db s' = fold (apply_file now repo) files (sq_db s)"
  by (auto simp: sqlite_register_files_def split: if_splits elim!: in_tx_Inr dest!: write_files_in_tx_Inr)

lemma register_files_Inl: "sqlite_register_files fl now repo files s = (Inl e, s') \<Longrightarrow> sq_db s' = sq_db s"
  by (auto simp: sqlite_register_files_def split: if_splits dest: in_tx_Inl)

lemma register_file_Inr:
  "sqlite_register_file fl now h repo ts s = (Inr (), s') \<Longrightarrow> sq_db s' = apply_file now repo (h, ts) (sq_db s)"
  by (auto simp: sqlite_register_file_def elim!: in_tx_Inr dest!: write_file_in_tx_Inr)

lemma register_xorb_Inr:
  assumes "sqlite_register_xorb fl now x cs s = (Inr (), s')"
  shows "sq_db s' = insert_chunks (xi_xorb x) cs (insert_xorb now x (sq_db s))"
  using assms
  by (auto simp: sqlite_register_xorb_def elim!: in_tx_Inr split: prod.splits sum.splits
      dest!: exec_stmt_Inr exec_insert_chunks)

lemma register_layout_Inr:
  assumes "sqlite_register_xorb_layout fl x fs s = (Inr (), s')"
  shows "sq_db s' = insert_frames x fs (sq_db s)"
  using assms
  by (auto simp: sqlite_register_xorb_layout_def insert_nil split: if_splits elim!: in_tx_Inr
      dest!: exec_insert_frames)

lemma set_owner_quota_Inr:
  assumes "sqlite_set_owner_quota fl owner lim s = (Inr (), s')"
  shows "sq_db s' = (sq_db s)\<lparr>db_quotas := (case lim of
      Some n \<Rightarrow> insert_replace fst (owner, as_i64 n) (db_quotas (sq_db s))
    | None \<Rightarrow> filter (\<lambda>r. fst r \<noteq> owner) (db_quotas (sq_db s)))\<rparr>"
  using assms
  by (auto simp: sqlite_set_owner_quota_def Let_def split: option.splits prod.splits sum.splits
      dest!: exec_stmt_Inr)

lemma write_Inl:
  "sqlite_register_file fl now h repo ts s = (Inl e, s') \<Longrightarrow> sq_db s' = sq_db s"
  "sqlite_register_xorb fl now x cs s = (Inl e, s') \<Longrightarrow> sq_db s' = sq_db s"
  "sqlite_register_xorb_layout fl y fs s = (Inl e, s') \<Longrightarrow> sq_db s' = sq_db s"
  "sqlite_set_owner_quota fl owner lim s = (Inl e, s') \<Longrightarrow> sq_db s' = sq_db s"
  by (auto simp: sqlite_register_file_def sqlite_register_xorb_def sqlite_register_xorb_layout_def
      sqlite_set_owner_quota_def Let_def split: if_splits option.splits prod.splits sum.splits dest: in_tx_Inl)

section \<open>The table invariant\<close>

text \<open>
  Keys are unique, every blob is a 32-byte hash, the owner column is the namespace of the
  repository id, and the term rows of a file are the complete list
  of one registration: their indices are \<open>0, ..., n - 1\<close> and every row is what the writer makes of
  some term.
\<close>

definition file_rows :: "bytes \<Rightarrow> meta_db \<Rightarrow> term_rec list" where
  "file_rows b db = filter (\<lambda>r. tm_file_hash r = b) (db_terms db)"

definition complete_terms :: "meta_db \<Rightarrow> bool" where
  "complete_terms db \<longleftrightarrow> (\<forall>h. \<exists>ts. file_rows (hash_to_blob h) db = map (mk_term_rec h) (enumerate 0 ts) \<and>
     list_all wf_term ts \<and> length ts \<le> nat i64_max)"

definition meta_inv :: "meta_db \<Rightarrow> bool" where
  "meta_inv db \<longleftrightarrow>
     distinct (map xr_hash (db_xorbs db)) \<and> list_all (\<lambda>r. length (xr_hash r) = HASH_LEN) (db_xorbs db) \<and>
     list_all (\<lambda>r. 0 \<le> xr_num_bytes_on_disk r \<and> xr_num_bytes_on_disk r \<le> int u32_max) (db_xorbs db) \<and>
     distinct (map chunk_key (db_chunks db)) \<and>
     list_all (\<lambda>r. length (ck_chunk_hash r) = HASH_LEN \<and> length (ck_xorb_hash r) = HASH_LEN) (db_chunks db) \<and>
     distinct (map frame_key (db_frames db)) \<and>
     list_all (\<lambda>r. length (fr_xorb_hash r) = HASH_LEN) (db_frames db) \<and>
     distinct (map file_key (db_files db)) \<and>
     list_all (\<lambda>r. fl_owner r = owner_of_id (fl_repo_id r)) (db_files db) \<and>
     distinct (map fst (db_quotas db)) \<and>
     distinct (map term_key (db_terms db)) \<and> complete_terms db"

lemma get_u32_uint [simp]: "get_u32 (uint w) = w"
  by (simp add: get_u32_def)

lemma blob_to_hash_to_blob: "wf_hash h \<Longrightarrow> blob_to_hash (hash_to_blob h) = Inr h"
  by (cases h) (simp add: blob_to_hash_def hash_to_blob_def wf_hash_def)

lemma hash_to_blob_inject [simp]: "hash_to_blob a = hash_to_blob b \<longleftrightarrow> a = b"
  by (cases a; cases b) (simp add: hash_to_blob_def)

lemma row_to_file_term_mk: "wf_term t \<Longrightarrow> row_to_file_term (mk_term_rec h (i, t)) = Inr t"
  by (auto simp: row_to_file_term_def mk_term_rec_def wf_term_def blob_to_hash_to_blob split: option.splits)

lemma insert_ignore_distinct: "distinct (map key tbl) \<Longrightarrow> distinct (map key (insert_ignore key r tbl))"
  by (auto simp: insert_ignore_def)

lemma insert_ignore_all_distinct:
  "distinct (map key tbl) \<Longrightarrow> distinct (map key (insert_ignore_all key rs tbl))"
  unfolding insert_ignore_all_def
  by (induction rs arbitrary: tbl) (simp_all add: insert_ignore_distinct)

lemma insert_replace_distinct: "distinct (map key tbl) \<Longrightarrow> distinct (map key (insert_replace key r tbl))"
  by (auto simp: insert_replace_def distinct_map inj_on_def)

lemma set_insert_ignore: "x \<in> set (insert_ignore key r tbl) \<Longrightarrow> x = r \<or> x \<in> set tbl"
  by (auto simp: insert_ignore_def split: if_splits)

lemma set_insert_ignore_all: "x \<in> set (insert_ignore_all key rs tbl) \<Longrightarrow> x \<in> set rs \<or> x \<in> set tbl"
  unfolding insert_ignore_all_def
  by (induction rs arbitrary: tbl) (auto dest: set_insert_ignore)

text \<open>Rows whose keys are new and distinct are all inserted.\<close>

lemma insert_ignore_all_fresh:
  "distinct (map key (tbl @ rs)) \<Longrightarrow> insert_ignore_all key rs tbl = tbl @ rs"
proof (induction rs arbitrary: tbl)
  case (Cons r rs)
  from Cons.prems have "key r \<notin> key ` set tbl" by simp
  then have "insert_ignore key r tbl = tbl @ [r]" by (auto simp: insert_ignore_def image_iff)
  with Cons.IH [of "tbl @ [r]"] Cons.prems show ?case by (simp add: insert_ignore_all_def)
qed (simp add: insert_ignore_all_def)

lemma i64_max_nonneg [simp]: "0 \<le> i64_max"
  by (simp add: i64_max_def)

lemma as_i64_small: "i \<le> nat i64_max \<Longrightarrow> as_i64 i = int i"
  by (simp add: as_i64_def le_nat_iff)

lemma as_i64_inj: "i \<le> nat i64_max \<Longrightarrow> j \<le> nat i64_max \<Longrightarrow> as_i64 i = as_i64 j \<longleftrightarrow> i = j"
  by (simp add: as_i64_small)

lemma map_fst_term: "map (tm_term_index \<circ> mk_term_rec h) (enumerate 0 ts) = map as_i64 [0..<length ts]"
proof -
  have "map (tm_term_index \<circ> mk_term_rec h) (enumerate 0 ts) = map as_i64 (map fst (enumerate 0 ts))"
    by (simp add: mk_term_rec_def o_def case_prod_beta del: map_fst_enumerate)
  then show ?thesis by (simp only: map_fst_enumerate) simp
qed

lemma term_keys_distinct:
  assumes "length ts \<le> nat i64_max"
  shows "distinct (map term_key (map (mk_term_rec h) (enumerate 0 ts)))"
proof -
  have "inj_on as_i64 (set [0..<length ts])"
    using assms as_i64_inj by (intro inj_onI) simp
  then have "distinct (map (tm_term_index \<circ> mk_term_rec h) (enumerate 0 ts))"
    unfolding map_fst_term by (simp add: distinct_map)
  moreover have "tm_term_index \<circ> mk_term_rec h = snd \<circ> (term_key \<circ> mk_term_rec h)"
    by (simp add: fun_eq_iff term_key_def)
  ultimately show ?thesis by (metis distinct_map map_map)
qed

lemma tm_file_hash_mk [simp]: "tm_file_hash (mk_term_rec h p) = hash_to_blob h"
  by (cases p) (simp add: mk_term_rec_def)

lemma db_terms_insert_terms:
  assumes "\<not> terms_exist h db" and "distinct (map term_key (db_terms db))" and "length ts \<le> nat i64_max"
  shows "db_terms (insert_terms h (enumerate 0 ts) db) = db_terms db @ map (mk_term_rec h) (enumerate 0 ts)"
proof -
  have "set (map term_key (db_terms db)) \<inter> set (map term_key (map (mk_term_rec h) (enumerate 0 ts))) = {}"
    using assms(1) unfolding terms_exist_def term_key_def by fastforce
  with assms(2) term_keys_distinct [OF assms(3), of h]
  have "distinct (map term_key (db_terms db @ map (mk_term_rec h) (enumerate 0 ts)))"
    by (simp only: map_append distinct_append)
  from insert_ignore_all_fresh [OF this] show ?thesis by (simp add: insert_terms_def)
qed

text \<open>\<open>apply_file\<close> on the term table: nothing if the file has terms, else exactly the new list.\<close>

lemma db_terms_apply_file:
  assumes "distinct (map term_key (db_terms db))" and "length ts \<le> nat i64_max"
  shows "db_terms (apply_file now repo (h, ts) db) =
    (if terms_exist h db then db_terms db else db_terms db @ map (mk_term_rec h) (enumerate 0 ts))"
proof -
  let ?db = "insert_file now h repo ts db"
  have e: "terms_exist h ?db \<longleftrightarrow> terms_exist h db" and d: "db_terms ?db = db_terms db"
    by (simp_all add: insert_file_def terms_exist_def)
  then show ?thesis
    using db_terms_insert_terms [of h ?db ts] assms by (simp add: apply_file_def Let_def)
qed

lemma terms_exist_rows: "terms_exist h db \<longleftrightarrow> file_rows (hash_to_blob h) db \<noteq> []"
  by (auto simp: terms_exist_def file_rows_def filter_empty_conv)

lemma file_rows_mk: "filter (\<lambda>r. tm_file_hash r = hash_to_blob k) (map (mk_term_rec h) its) =
    (if k = h then map (mk_term_rec h) its else [])"
  by (auto simp: filter_empty_conv filter_id_conv)

lemma file_rows_apply_file:
  assumes "distinct (map term_key (db_terms db))" and "length ts \<le> nat i64_max"
  shows "file_rows (hash_to_blob k) (apply_file now repo (h, ts) db) =
    (if k = h \<and> file_rows (hash_to_blob h) db = [] then map (mk_term_rec h) (enumerate 0 ts)
     else file_rows (hash_to_blob k) db)"
  using assms by (auto simp: file_rows_def db_terms_apply_file file_rows_mk terms_exist_rows)

section \<open>Every write keeps the invariant\<close>

lemma complete_terms_apply_file:
  assumes "complete_terms db" and "distinct (map term_key (db_terms db))"
    and "list_all wf_term ts" and "length ts \<le> nat i64_max"
  shows "complete_terms (apply_file now repo (h, ts) db)"
  unfolding complete_terms_def
proof
  fix k
  show "\<exists>us. file_rows (hash_to_blob k) (apply_file now repo (h, ts) db) = map (mk_term_rec k) (enumerate 0 us) \<and>
     list_all wf_term us \<and> length us \<le> nat i64_max"
  proof (cases "k = h \<and> file_rows (hash_to_blob h) db = []")
    case True
    with assms show ?thesis by (intro exI [of _ ts]) (simp add: file_rows_apply_file)
  next
    case False
    with assms(1) show ?thesis
      unfolding complete_terms_def file_rows_apply_file [OF assms(2,4)] by (simp only: if_False)
  qed
qed

lemma apply_file_other:
  "db_xorbs (apply_file now repo f db) = db_xorbs db" "db_chunks (apply_file now repo f db) = db_chunks db"
  "db_frames (apply_file now repo f db) = db_frames db" "db_quotas (apply_file now repo f db) = db_quotas db"
  "db_files (apply_file now repo (h, ts) db) = insert_replace file_key (mk_file_rec now h repo ts) (db_files db)"
  by (cases f; simp add: apply_file_def insert_file_def insert_terms_def Let_def)+

lemma apply_file_inv:
  assumes "meta_inv db" and "list_all wf_term ts" and "length ts \<le> nat i64_max"
  shows "meta_inv (apply_file now repo (h, ts) db)"
proof -
  have d: "distinct (map term_key (db_terms db))" using assms(1) by (simp add: meta_inv_def)
  have "distinct (map term_key (db_terms (apply_file now repo (h, ts) db)))"
  proof (cases "terms_exist h db")
    case True
    with d assms(3) show ?thesis by (simp add: db_terms_apply_file)
  next
    case False
    then show ?thesis
      using d insert_ignore_all_distinct [OF d, of "map (mk_term_rec h) (enumerate 0 ts)"]
      by (simp add: apply_file_def Let_def insert_terms_def insert_file_def terms_exist_def)
  qed
  moreover have "list_all (\<lambda>r. fl_owner r = owner_of_id (fl_repo_id r)) (db_files (apply_file now repo (h, ts) db))"
    using assms(1)
    by (auto simp: apply_file_other(5) meta_inv_def list_all_iff insert_replace_def mk_file_rec_def repo_owner_def)
  ultimately show ?thesis
    using assms complete_terms_apply_file [of db ts] insert_replace_distinct
    by (auto simp: meta_inv_def apply_file_other)
qed

lemma fold_apply_file_inv:
  "meta_inv db \<Longrightarrow> wf_files files \<Longrightarrow> meta_inv (fold (apply_file now repo) files db)"
  by (induction files arbitrary: db) (auto simp: wf_files_def intro: apply_file_inv)

lemma complete_terms_cong: "db_terms db = db_terms db' \<Longrightarrow> complete_terms db = complete_terms db'"
  by (simp add: complete_terms_def file_rows_def)

lemma insert_chunks_inv:
  assumes "meta_inv db" and "wf_hash x" and "list_all (\<lambda>c. wf_hash (cr_chunk_hash c)) cs"
  shows "meta_inv (insert_chunks x cs db)"
proof -
  let ?new = "insert_ignore_all chunk_key (map (mk_chunk_rec x) cs) (db_chunks db)"
  have "list_all (\<lambda>r. length (ck_chunk_hash r) = HASH_LEN \<and> length (ck_xorb_hash r) = HASH_LEN) ?new"
    using assms set_insert_ignore_all
    by (fastforce simp: list_all_iff meta_inv_def mk_chunk_rec_def hash_to_blob_def wf_hash_def)
  with assms(1) show ?thesis
    by (simp add: meta_inv_def insert_chunks_def insert_ignore_all_distinct complete_terms_def file_rows_def)
qed

lemma insert_frames_inv:
  assumes "meta_inv db" and "wf_hash x"
  shows "meta_inv (insert_frames x fs db)"
proof -
  let ?new = "insert_ignore_all frame_key (map (mk_frame_rec x) fs) (db_frames db)"
  have "list_all (\<lambda>r. length (fr_xorb_hash r) = HASH_LEN) ?new"
    using assms set_insert_ignore_all
    by (fastforce simp: list_all_iff meta_inv_def mk_frame_rec_def hash_to_blob_def wf_hash_def)
  with assms(1) show ?thesis
    by (simp add: meta_inv_def insert_frames_def insert_ignore_all_distinct complete_terms_def file_rows_def)
qed

lemma uint_le_u32_max: "uint (w :: u32) \<le> int u32_max"
  using unsigned_less [of w, where 'a = int] by (simp add: u32_max_def)

lemma insert_xorb_inv:
  assumes "meta_inv db" and "wf_hash (xi_xorb x)"
  shows "meta_inv (insert_xorb now x db)"
proof -
  let ?new = "insert_ignore xr_hash (mk_xorb_rec now x) (db_xorbs db)"
  have "list_all (\<lambda>r. length (xr_hash r) = HASH_LEN) ?new"
    and "list_all (\<lambda>r. 0 \<le> xr_num_bytes_on_disk r \<and> xr_num_bytes_on_disk r \<le> int u32_max) ?new"
    using assms uint_le_u32_max
    by (auto simp: list_all_iff meta_inv_def mk_xorb_rec_def hash_to_blob_def wf_hash_def dest!: set_insert_ignore)
  with assms(1) show ?thesis
    by (simp add: meta_inv_def insert_xorb_def insert_ignore_distinct complete_terms_def file_rows_def)
qed

section \<open>Histories of writes\<close>

text \<open>The writes a server makes, with the inputs the HTTP layer passes: parsed hashes have 32 bytes.\<close>

inductive sqlite_step :: "faults \<Rightarrow> sql_state \<Rightarrow> sql_state \<Rightarrow> bool" for fl where
  step_xorb: "wf_hash (xi_xorb x) \<Longrightarrow> list_all (\<lambda>c. wf_hash (cr_chunk_hash c)) cs \<Longrightarrow>
     sqlite_register_xorb fl now x cs s = (r, s') \<Longrightarrow> sqlite_step fl s s'"
| step_file: "wf_files [(h, ts)] \<Longrightarrow> sqlite_register_file fl now h repo ts s = (r, s') \<Longrightarrow> sqlite_step fl s s'"
| step_files: "wf_files files \<Longrightarrow> sqlite_register_files fl now repo files s = (r, s') \<Longrightarrow> sqlite_step fl s s'"
| step_layout: "wf_hash x \<Longrightarrow> sqlite_register_xorb_layout fl x fs s = (r, s') \<Longrightarrow> sqlite_step fl s s'"
| step_quota: "sqlite_set_owner_quota fl owner lim s = (r, s') \<Longrightarrow> sqlite_step fl s s'"

lemma unit_sum_cases: obtains e where "r = Inl e" | "r = Inr ()"
  by (cases r) auto

text \<open>A step either leaves the tables alone or applies one of the four kinds of change.\<close>

lemma sqlite_step_db:
  assumes "sqlite_step fl s s'"
  obtains (same) "sq_db s' = sq_db s"
  | (xorb) now x cs where "wf_hash (xi_xorb x)" "list_all (\<lambda>c. wf_hash (cr_chunk_hash c)) cs"
      "sq_db s' = insert_chunks (xi_xorb x) cs (insert_xorb now x (sq_db s))"
  | (files) now repo files where "wf_files files" "sq_db s' = fold (apply_file now repo) files (sq_db s)"
  | (frames) x fs where "wf_hash x" "sq_db s' = insert_frames x fs (sq_db s)"
  | (quota) q where "sq_db s' = (sq_db s)\<lparr>db_quotas := q\<rparr>" "distinct (map fst (db_quotas (sq_db s))) \<longrightarrow> distinct (map fst q)"
  using assms
proof cases
  case (step_xorb x cs now r)
  then show thesis
    by (cases r rule: unit_sum_cases) (auto dest: register_xorb_Inr write_Inl intro: same xorb)
next
  case (step_file h ts now repo r)
  then show thesis
    using register_file_Inr [of fl now h repo ts s s'] files [of "[(h, ts)]" now repo]
    by (cases r rule: unit_sum_cases) (auto dest: write_Inl intro: same)
next
  case (step_files files now repo r)
  then show thesis
    by (cases r rule: unit_sum_cases) (auto dest: register_files_Inr register_files_Inl intro: same files)
next
  case (step_layout x fs r)
  then show thesis
    by (cases r rule: unit_sum_cases) (auto dest: register_layout_Inr write_Inl intro: same frames)
next
  case (step_quota owner lim r)
  show thesis
  proof (cases r rule: unit_sum_cases)
    case 1
    with step_quota show ?thesis by (auto dest: write_Inl intro: same)
  next
    case 2
    with step_quota have "sq_db s' = (sq_db s)\<lparr>db_quotas := (case lim of
        Some n \<Rightarrow> insert_replace fst (owner, as_i64 n) (db_quotas (sq_db s))
      | None \<Rightarrow> filter (\<lambda>r. fst r \<noteq> owner) (db_quotas (sq_db s)))\<rparr>"
      by (blast dest: set_owner_quota_Inr)
    then show ?thesis
      by (rule quota) (auto simp: insert_replace_distinct distinct_map_filter split: option.splits)
  qed
qed

lemma sqlite_step_inv:
  assumes "sqlite_step fl s s'" and "meta_inv (sq_db s)"
  shows "meta_inv (sq_db s')"
  using assms(1)
proof (cases rule: sqlite_step_db)
  case (quota q)
  with assms(2) show ?thesis by (simp add: meta_inv_def complete_terms_def file_rows_def)
qed (use assms(2) in \<open>simp_all add: insert_chunks_inv insert_xorb_inv fold_apply_file_inv insert_frames_inv\<close>)

lemma fold_apply_file_keeps:
  assumes "meta_inv db" and "wf_files files" and "file_rows (hash_to_blob k) db \<noteq> []"
  shows "file_rows (hash_to_blob k) (fold (apply_file now repo) files db) = file_rows (hash_to_blob k) db"
  using assms
proof (induction files arbitrary: db)
  case (Cons f files)
  obtain h ts where f: "f = (h, ts)" by (cases f)
  have wf: "list_all wf_term ts" "length ts \<le> nat i64_max" "wf_files files"
    using Cons.prems(2) by (auto simp: wf_files_def f)
  have rows: "file_rows (hash_to_blob k) (apply_file now repo f db) = file_rows (hash_to_blob k) db"
    using Cons.prems wf unfolding f by (subst file_rows_apply_file) (auto simp: meta_inv_def)
  with Cons.IH [of "apply_file now repo f db"] Cons.prems wf apply_file_inv show ?case by (simp add: f)
qed simp

lemma sqlite_step_keeps_terms:
  assumes "sqlite_step fl s s'" and "meta_inv (sq_db s)" and "file_rows (hash_to_blob k) (sq_db s) \<noteq> []"
  shows "file_rows (hash_to_blob k) (sq_db s') = file_rows (hash_to_blob k) (sq_db s)"
  using assms(1)
proof (cases rule: sqlite_step_db)
  case (files now repo files)
  then show ?thesis using fold_apply_file_keeps [OF assms(2) _ assms(3)] by simp
qed (simp_all add: file_rows_def insert_chunks_def insert_xorb_def insert_frames_def)

lemma db_empty_inv: "meta_inv db_empty"
  by (auto simp: meta_inv_def db_empty_def complete_terms_def file_rows_def intro!: exI [of _ "[]"])

lemma steps_inv: "(sqlite_step fl)\<^sup>*\<^sup>* s s' \<Longrightarrow> meta_inv (sq_db s) \<Longrightarrow> meta_inv (sq_db s')"
  by (induction rule: rtranclp_induct) (auto intro: sqlite_step_inv)

lemma steps_keep_terms:
  assumes "(sqlite_step fl)\<^sup>*\<^sup>* s s'" and "meta_inv (sq_db s)" and "file_rows (hash_to_blob k) (sq_db s) \<noteq> []"
  shows "file_rows (hash_to_blob k) (sq_db s') = file_rows (hash_to_blob k) (sq_db s)"
  using assms
proof (induction rule: rtranclp_induct)
  case (step y z)
  then show ?case using sqlite_step_keeps_terms [of fl y z k] steps_inv [of fl s y] by simp
qed simp

section \<open>Looking a file up\<close>

lemma sorted_map_as_i64: "length ts \<le> nat i64_max \<Longrightarrow> sorted (map tm_term_index (map (mk_term_rec h) (enumerate 0 ts)))"
  unfolding map_map map_fst_term by (auto simp: sorted_map as_i64_small sorted_wrt_iff_nth_less)

lemma select_terms_complete:
  assumes "file_rows (hash_to_blob h) db = map (mk_term_rec h) (enumerate 0 ts)" and "length ts \<le> nat i64_max"
  shows "select_terms h db = map (mk_term_rec h) (enumerate 0 ts)"
  using assms sorted_map_as_i64 [OF assms(2), of h] by (simp add: select_terms_def file_rows_def sorted_sort_id sort_key_id_if_sorted)

lemma decode_terms:
  assumes "list_all wf_term ts"
  shows "rmapM row_to_file_term (map (mk_term_rec h) (enumerate n ts)) = Inr ts"
  using assms by (induction ts arbitrary: n) (simp_all add: row_to_file_term_mk)

text \<open>The terms a file hash has in an invariant database.\<close>

definition file_terms :: "hash32 \<Rightarrow> meta_db \<Rightarrow> file_term list" where
  "file_terms h db = (case rmapM row_to_file_term (select_terms h db) of Inr ts \<Rightarrow> ts | Inl _ \<Rightarrow> [])"

lemma file_terms_inv:
  assumes "meta_inv db"
  shows "rmapM row_to_file_term (select_terms h db) = Inr (file_terms h db)"
    and "select_terms h db = [] \<longleftrightarrow> file_terms h db = []"
proof -
  obtain ts where ts: "file_rows (hash_to_blob h) db = map (mk_term_rec h) (enumerate 0 ts)"
      "list_all wf_term ts" "length ts \<le> nat i64_max"
    using assms unfolding meta_inv_def complete_terms_def by blast
  note sel = select_terms_complete [OF ts(1,3)]
  then show "rmapM row_to_file_term (select_terms h db) = Inr (file_terms h db)"
    by (simp add: file_terms_def decode_terms [OF ts(2)])
  have "file_terms h db = ts" unfolding file_terms_def sel decode_terms [OF ts(2)] by simp
  then show "select_terms h db = [] \<longleftrightarrow> file_terms h db = []" unfolding sel by (cases ts) auto
qed

lemma limit1_in: "limit1 pick rs = Some r \<Longrightarrow> r \<in> set rs"
  by (auto simp: limit1_def split: if_splits)

text \<open>With the invariant a lookup decodes every row; what is left is the size check.\<close>

lemma lookup_file_inv:
  assumes "meta_inv (sq_db s)" and "fl (sq_tick s) = None" and "fl (sq_tick s + 1) = None"
    and "file_terms h (sq_db s) \<noteq> []"
    and "\<And>r. r \<in> set (db_files (sq_db s)) \<Longrightarrow> fl_file_hash r = hash_to_blob h \<Longrightarrow>
           fl_total_bytes r = int (terms_total (file_terms h (sq_db s)))"
  shows "sqlite_lookup_file fl pick h s = Inr (Some (file_terms h (sq_db s)))"
proof -
  let ?rec = "limit1 pick (filter (\<lambda>r. fl_file_hash r = hash_to_blob h) (db_files (sq_db s)))"
  have "fl_total_bytes r = int (terms_total (file_terms h (sq_db s)))" if "?rec = Some r" for r
    using limit1_in [OF that] assms(5) by simp
  then show ?thesis
    using assms(2,3,4) file_terms_inv [OF assms(1), of h]
    by (cases ?rec) (simp_all add: sqlite_lookup_file_def query_def nonneg_i64_to_u64_def)
qed

lemma file_terms_apply_file:
  assumes "meta_inv db" and "list_all wf_term ts" and "length ts \<le> nat i64_max"
  shows "file_terms k (apply_file now repo (h, ts) db) =
    (if k = h \<and> file_terms h db = [] then ts else file_terms k db)"
proof (cases "k = h \<and> file_rows (hash_to_blob h) db = []")
  case True
  have "distinct (map term_key (db_terms db))" using assms(1) by (simp add: meta_inv_def)
  with True have "file_rows (hash_to_blob h) (apply_file now repo (h, ts) db) = map (mk_term_rec h) (enumerate 0 ts)"
    using assms(3) by (simp add: file_rows_apply_file)
  from select_terms_complete [OF this assms(3)] decode_terms [OF assms(2)] True
  show ?thesis by (simp add: file_terms_def select_terms_def file_rows_def)
next
  case False
  have d: "distinct (map term_key (db_terms db))" using assms(1) by (simp add: meta_inv_def)
  have "file_rows (hash_to_blob k) (apply_file now repo (h, ts) db) = file_rows (hash_to_blob k) db"
    using False by (subst file_rows_apply_file [OF d assms(3)]) auto
  moreover have "file_terms h db = [] \<longleftrightarrow> file_rows (hash_to_blob h) db = []"
    using file_terms_inv(2) [OF assms(1), of h] by (simp add: select_terms_def file_rows_def) (metis length_0_conv length_sort)
  ultimately show ?thesis using False by (auto simp: file_terms_def select_terms_def file_rows_def)
qed

lemma in_insert_replace: "x \<in> set (insert_replace key r tbl) \<longleftrightarrow> x = r \<or> x \<in> set tbl \<and> key x \<noteq> key r"
  by (auto simp: insert_replace_def)

end
