(* ===== verification/Meta_Accounting.thy ===== *)
theory Meta_Accounting
  imports Meta_Sqlite
begin

text \<open>
  What the SQLite store promises beyond its table invariant: registering and looking up a file, the
  storage accounting that quotas rest on, the batched layout query against the trait's default
  loop, and the quota row.
\<close>

section \<open>Registering and looking up\<close>

lemma register_file_rows:
  assumes "sqlite_register_file fl now h repo ts s = (Inr (), s')"
  shows "db_files (sq_db s') = insert_replace file_key (mk_file_rec now h repo ts) (db_files (sq_db s))"
  using register_file_Inr [OF assms] by (simp add: apply_file_other)

text \<open>A registered file can be looked up and belongs to its repository. If all registrations of a
  hash agree on the size, then after registering a non-empty term list the lookup answers with a
  complete list: the new one if the hash had none, the one it had otherwise.\<close>

lemma register_then_lookup:
  assumes "meta_inv (sq_db s)" and "wf_files [(h, ts)]" and "ts \<noteq> []" and "terms_total ts \<le> nat i64_max"
    and "\<And>r. r \<in> set (db_files (sq_db s)) \<Longrightarrow> fl_file_hash r = hash_to_blob h \<Longrightarrow>
           fl_total_bytes r = int (terms_total ts)"
    and "file_terms h (sq_db s) = [] \<or> terms_total (file_terms h (sq_db s)) = terms_total ts"
    and "sqlite_register_file fl now h repo ts s = (Inr (), s')"
    and "fl (sq_tick s') = None" and "fl (sq_tick s' + 1) = None"
  shows "sqlite_lookup_file fl pick h s' =
           Inr (Some (if file_terms h (sq_db s) = [] then ts else file_terms h (sq_db s)))
         \<and> sqlite_file_in_repo fl h (repo_id repo) s' = Inr True"
proof -
  have wf: "list_all wf_term ts" "length ts \<le> nat i64_max" using assms(2) by (auto simp: wf_files_def)
  have db: "sq_db s' = apply_file now repo (h, ts) (sq_db s)" using register_file_Inr [OF assms(7)] .
  have inv: "meta_inv (sq_db s')" unfolding db using apply_file_inv [OF assms(1) wf] .
  have ft: "file_terms h (sq_db s') = (if file_terms h (sq_db s) = [] then ts else file_terms h (sq_db s))"
    unfolding db file_terms_apply_file [OF assms(1) wf] by simp
  have tot: "terms_total (file_terms h (sq_db s')) = terms_total ts" using ft assms(6) by auto
  have "fl_total_bytes r = int (terms_total (file_terms h (sq_db s')))"
    if "r \<in> set (db_files (sq_db s'))" "fl_file_hash r = hash_to_blob h" for r
    using that assms(5) unfolding tot register_file_rows [OF assms(7)] in_insert_replace
    by (auto simp: mk_file_rec_def as_i64_small [OF assms(4)])
  then have "sqlite_lookup_file fl pick h s' = Inr (Some (file_terms h (sq_db s')))"
    using assms(3,8,9) ft by (intro lookup_file_inv [OF inv]) auto
  moreover have "sqlite_file_in_repo fl h (repo_id repo) s' = Inr True"
    using assms(8) unfolding sqlite_file_in_repo_def query_def register_file_rows [OF assms(7)]
    by (simp add: in_insert_replace bex_Un mk_file_rec_def insert_replace_def)
  ultimately show ?thesis using ft by simp
qed

definition ex_repo :: repo_ref where
  "ex_repo = \<lparr>repo_type_of = Model, repo_id = ''alice/m'', revision = ''main''\<rparr>"

definition ex_term :: "u32 \<Rightarrow> file_term" where
  "ex_term n = \<lparr>ft_xorb = hash_zero, ft_chunk_idx_start = 0, ft_chunk_idx_end = 1,
     ft_unpacked_segment_bytes = n, ft_verification = None\<rparr>"

definition ex_empty :: sql_state where
  "ex_empty = \<lparr>sq_db = db_empty, sq_tick = 0\<rparr>"

definition ex_registered :: sql_state where
  "ex_registered = \<lparr>sq_db = apply_file 7 ex_repo (hash_zero, [ex_term 5]) db_empty, sq_tick = 5\<rparr>"

lemma ex_wf: "wf_files [(hash_zero, [ex_term n])]"
  by (simp add: wf_files_def wf_term_def ex_term_def wf_hash_def hash_zero_def HASH_LEN_def i64_max_def)

lemma ex_register: "sqlite_register_file (\<lambda>_. None) 7 hash_zero ex_repo [ex_term 5] ex_empty = (Inr (), ex_registered)"
  by (simp add: sqlite_register_file_def in_tx_def exec_stmt_def ex_empty_def write_file_in_tx_def
      terms_exist_def insert_file_def db_empty_def batches.simps CHUNK_INSERT_BATCH_def ex_registered_def
      apply_file_def Let_def)

lemma ex_registered_inv: "meta_inv (sq_db ex_registered)"
  using ex_wf [of 5] by (auto simp: ex_registered_def wf_files_def intro!: apply_file_inv db_empty_inv)

lemma ex_registered_terms: "file_terms hash_zero (sq_db ex_registered) = [ex_term 5]"
  using ex_wf [of 5] file_terms_apply_file [OF db_empty_inv, of "[ex_term 5]" hash_zero 7 ex_repo hash_zero]
  by (simp add: ex_registered_def wf_files_def file_terms_def select_terms_def db_empty_def)

lemma ex_step: "sqlite_step (\<lambda>_. None) ex_empty ex_registered"
  using ex_wf ex_register by (rule step_file)

section \<open>Histories\<close>


text \<open>Term lists are written once. Once a file hash has terms, no later history of registrations
  (of the same hash with other segmentations included), layouts, quotas or failures changes them.\<close>

lemma terms_write_once:
  assumes "(sqlite_step fl)\<^sup>*\<^sup>* s s'" and "meta_inv (sq_db s)" and "select_terms h (sq_db s) \<noteq> []"
  shows "select_terms h (sq_db s') = select_terms h (sq_db s)"
proof -
  have "file_rows (hash_to_blob h) (sq_db s) \<noteq> []"
    using assms(3) by (auto simp: select_terms_def file_rows_def)
  from steps_keep_terms [OF assms(1,2) this] show ?thesis by (simp add: select_terms_def file_rows_def)
qed


text \<open>A later registration of the same hash with another list.\<close>

definition ex_again :: sql_state where
  "ex_again = snd (sqlite_register_file (\<lambda>_. None) 8 hash_zero ex_repo [ex_term 2, ex_term 4] ex_registered)"

lemma ex_wf2: "wf_files [(hash_zero, [ex_term 2, ex_term 4])]"
  by (simp add: wf_files_def wf_term_def ex_term_def wf_hash_def hash_zero_def HASH_LEN_def i64_max_def)

lemma ex_step2: "sqlite_step (\<lambda>_. None) ex_registered ex_again"
  unfolding ex_again_def
  by (rule step_file [OF ex_wf2, of _ 8 ex_repo _ "fst (sqlite_register_file (\<lambda>_. None) 8 hash_zero ex_repo [ex_term 2, ex_term 4] ex_registered)"]) simp

section \<open>Disagreeing sizes\<close>

text \<open>Registering a hash again with a list of another total size makes the file unreadable. The row
  in \<open>files\<close> takes the new size while the terms stay those of the first registration, so the lookup
  reports an inconsistency; here for a hash that is registered in this repository only.\<close>

lemma reregister_other_size_breaks_lookup:
  assumes "meta_inv (sq_db s)" and "wf_files [(h, ts)]" and "terms_total ts \<le> nat i64_max"
    and "\<And>r. r \<in> set (db_files (sq_db s)) \<Longrightarrow> fl_file_hash r = hash_to_blob h \<Longrightarrow> fl_repo_id r = repo_id repo"
    and "file_terms h (sq_db s) \<noteq> []" and "terms_total (file_terms h (sq_db s)) \<noteq> terms_total ts"
    and "sqlite_register_file fl now h repo ts s = (Inr (), s')"
    and "fl (sq_tick s') = None" and "fl (sq_tick s' + 1) = None"
  shows "\<exists>e. sqlite_lookup_file fl pick h s' = Inl (Internal e)"
proof -
  have wf: "list_all wf_term ts" "length ts \<le> nat i64_max" using assms(2) by (auto simp: wf_files_def)
  have db: "sq_db s' = apply_file now repo (h, ts) (sq_db s)" using register_file_Inr [OF assms(7)] .
  have inv: "meta_inv (sq_db s')" unfolding db using apply_file_inv [OF assms(1) wf] .
  have ft: "file_terms h (sq_db s') = file_terms h (sq_db s)"
    unfolding db file_terms_apply_file [OF assms(1) wf] using assms(5) by simp
  let ?rows = "filter (\<lambda>r. fl_file_hash r = hash_to_blob h) (db_files (sq_db s'))"
  have rows: "?rows = [mk_file_rec now h repo ts]"
    using assms(4) unfolding register_file_rows [OF assms(7)] insert_replace_def
    by (auto simp: filter_empty_conv file_key_def mk_file_rec_def)
  have "limit1 pick ?rows = Some (mk_file_rec now h repo ts)" unfolding rows by (simp add: limit1_def)
  then show ?thesis
    using assms(5,6,8,9) file_terms_inv [OF inv, of h] ft as_i64_small [OF assms(3)]
    by (simp add: sqlite_lookup_file_def query_def nonneg_i64_to_u64_def mk_file_rec_def)
qed

section \<open>Storage accounting\<close>

lemma sql_sum_Some: "sql_sum acc ns = Some n \<Longrightarrow> n = acc + sum_list ns"
  by (induction acc ns rule: sql_sum.induct) (auto split: if_splits)

lemma query_sum_Inr: "query_sum fl ql l col s = Inr n \<Longrightarrow> int n = sum_list (col (sq_db s))"
  by (auto simp: query_sum_def query_def nonneg_i64_to_u64_def rbind_eq_Inr ok_or_eq_Inr
      split: option.splits if_splits dest!: sql_sum_Some)

lemma sum_filter_disj:
  "sum_list (map f (filter (\<lambda>x. P x \<or> Q x) xs)) =
   sum_list (map f (filter P xs)) + sum_list (map (f :: 'a \<Rightarrow> int) (filter (\<lambda>x. Q x \<and> \<not> P x) xs))"
  by (induction xs) auto

lemma on_disk_disj:
  "sum_list (on_disk_of (\<lambda>x. P x \<or> Q x) db) =
   sum_list (on_disk_of P db) + sum_list (on_disk_of (\<lambda>x. Q x \<and> \<not> P x) db)"
  unfolding on_disk_of_def by (rule sum_filter_disj)

lemma set_dedup_sorted [simp]: "set (dedup_sorted_xorbs xs) = set xs"
  by (simp add: dedup_sorted_xorbs_def)

text \<open>Registering a file whose hash has no terms yet makes the owner reference its xorbs, and
  nothing else.\<close>

lemma file_terms_empty_rows:
  "meta_inv db \<Longrightarrow> file_terms h db = [] \<Longrightarrow> r \<in> set (db_terms db) \<Longrightarrow> tm_file_hash r \<noteq> hash_to_blob h"
proof
  assume inv: "meta_inv db" "file_terms h db = []" and "r \<in> set (db_terms db)" "tm_file_hash r = hash_to_blob h"
  then have "r \<in> set (select_terms h db)" by (simp add: select_terms_def)
  with file_terms_inv(2) [OF inv(1), of h] inv(2) show False by simp
qed

lemma referenced_apply_file:
  assumes "meta_inv db" and "list_all wf_term ts" "length ts \<le> nat i64_max" and "file_terms h db = []"
  shows "referenced (\<lambda>f. fl_owner f = repo_owner repo) (apply_file now repo (h, ts) db) x \<longleftrightarrow>
    referenced (\<lambda>f. fl_owner f = repo_owner repo) db x \<or> x \<in> hash_to_blob ` ft_xorb ` set ts"
proof -
  let ?new = "mk_file_rec now h repo ts" and ?terms = "map (mk_term_rec h) (enumerate 0 ts)"
  have d: "distinct (map term_key (db_terms db))" using assms(1) by (simp add: meta_inv_def)
  have none: "\<not> terms_exist h db" using file_terms_empty_rows [OF assms(1,4)] by (auto simp: terms_exist_def)
  have terms: "db_terms (apply_file now repo (h, ts) db) = db_terms db @ ?terms"
    by (simp add: db_terms_apply_file [OF d assms(3)] none)
  have xs: "x \<in> hash_to_blob ` ft_xorb ` set ts \<longleftrightarrow> (\<exists>r \<in> set ?terms. tm_xorb_hash r = x)"
  proof -
    have "set ts = snd ` set (enumerate 0 ts)" by (metis list.set_map map_snd_enumerate)
    moreover have "tm_xorb_hash (mk_term_rec h p) = hash_to_blob (ft_xorb (snd p))" for p
      by (cases p) (simp add: mk_term_rec_def)
    ultimately show ?thesis by (simp only: set_map image_image bex_simps image_iff) (metis (no_types))
  qed
  have key: "file_key f \<noteq> file_key ?new" if "fl_file_hash f \<noteq> hash_to_blob h" for f
    using that by (simp add: file_key_def mk_file_rec_def)
  have old: "(\<exists>f \<in> set (db_files (apply_file now repo (h, ts) db)). fl_file_hash f = tm_file_hash r \<and> fl_owner f = repo_owner repo)
      \<longleftrightarrow> (\<exists>f \<in> set (db_files db). fl_file_hash f = tm_file_hash r \<and> fl_owner f = repo_owner repo)"
    if "r \<in> set (db_terms db)" for r
  proof -
    have "tm_file_hash r \<noteq> hash_to_blob h" using file_terms_empty_rows [OF assms(1,4) that] .
    with key show ?thesis
      by (auto simp: apply_file_other in_insert_replace mk_file_rec_def)
  qed
  have new: "\<exists>f \<in> set (db_files (apply_file now repo (h, ts) db)). fl_file_hash f = tm_file_hash r \<and> fl_owner f = repo_owner repo"
    if "r \<in> set ?terms" for r
    using that by (intro bexI [of _ ?new]) (auto simp: apply_file_other in_insert_replace mk_file_rec_def)
  show ?thesis
    unfolding referenced_def terms set_append bex_Un xs using old new by blast
qed

text \<open>Fresh registrations: distinct hashes without terms.\<close>

definition fresh_files :: "(hash32 \<times> file_term list) list \<Rightarrow> meta_db \<Rightarrow> bool" where
  "fresh_files files db \<longleftrightarrow> distinct (map fst files) \<and> list_all (\<lambda>f. file_terms (fst f) db = []) files"

definition files_xorbs :: "(hash32 \<times> file_term list) list \<Rightarrow> hash32 list" where
  "files_xorbs files = concat (map (\<lambda>(h, ts). map ft_xorb ts) files)"

lemma files_xorbs_Cons: "files_xorbs ((h, ts) # files) = map ft_xorb ts @ files_xorbs files"
  by (simp add: files_xorbs_def)

lemma referenced_fold_apply_file:
  assumes "meta_inv db" and "wf_files files" and "fresh_files files db"
  shows "referenced (\<lambda>f. fl_owner f = repo_owner repo) (fold (apply_file now repo) files db) x \<longleftrightarrow>
    referenced (\<lambda>f. fl_owner f = repo_owner repo) db x \<or> x \<in> hash_to_blob ` set (files_xorbs files)"
  using assms
proof (induction files arbitrary: db)
  case (Cons f files)
  obtain h ts where f: "f = (h, ts)" by (cases f)
  let ?db = "apply_file now repo (h, ts) db"
  have wf: "list_all wf_term ts" "length ts \<le> nat i64_max" "wf_files files" and h: "file_terms h db = []"
    using Cons.prems by (auto simp: wf_files_def fresh_files_def f)
  have "fresh_files files ?db"
    using Cons.prems(3) file_terms_apply_file [OF Cons.prems(1) wf(1,2)]
    by (auto simp: fresh_files_def f list_all_iff image_iff)
  from Cons.IH [OF apply_file_inv [OF Cons.prems(1) wf(1,2)] wf(3) this]
    referenced_apply_file [OF Cons.prems(1) wf(1,2) h]
  show ?case by (simp only: fold_simps f files_xorbs_Cons set_append image_Un set_map Un_iff o_apply) blast
qed (simp add: files_xorbs_def)

lemma fold_apply_file_xorbs: "db_xorbs (fold (apply_file now repo) files db) = db_xorbs db"
  by (induction files arbitrary: db) (simp_all add: apply_file_other)

lemma quota_projection:
  assumes "meta_inv (sq_db s)" and "wf_files files" and "fresh_files files (sq_db s)"
    and "sqlite_stored_bytes_for_owner fl (repo_owner repo) s = Inr before"
    and "sqlite_unaccounted_xorb_bytes_for_owner fl (repo_owner repo) (files_xorbs files) s = Inr extra"
    and "sqlite_register_files fl now repo files s = (Inr (), s')"
    and "sqlite_stored_bytes_for_owner fl (repo_owner repo) s' = Inr after"
  shows "after = before + extra"
proof -
  let ?ref = "referenced (\<lambda>f. fl_owner f = repo_owner repo) (sq_db s)"
    and ?new = "\<lambda>x. x \<in> hash_to_blob ` set (files_xorbs files)"
  have db: "sq_db s' = fold (apply_file now repo) files (sq_db s)" using register_files_Inr [OF assms(6)] .
  have "int after = sum_list (on_disk_of (\<lambda>x. ?ref x \<or> ?new x) (sq_db s))"
    using query_sum_Inr [OF assms(7) [unfolded sqlite_stored_bytes_for_owner_def]]
    unfolding db referenced_fold_apply_file [OF assms(1-3)] on_disk_of_def fold_apply_file_xorbs .
  moreover have "int before = sum_list (on_disk_of ?ref (sq_db s))"
    using query_sum_Inr [OF assms(4) [unfolded sqlite_stored_bytes_for_owner_def]] .
  moreover have "int extra = sum_list (on_disk_of (\<lambda>x. ?new x \<and> \<not> ?ref x) (sq_db s))"
    using assms(5) by (cases "files_xorbs files = []")
      (auto simp: sqlite_unaccounted_xorb_bytes_for_owner_def on_disk_of_def Let_def dest!: query_sum_Inr)
  ultimately show ?thesis unfolding on_disk_disj by linarith
qed

text \<open>The quota projection is exact for new content. When a shard's files have no terms yet, the
  owner's stored bytes after the commit are the stored bytes before plus what
  \<open>unaccounted_xorb_bytes_for_owner\<close> answered for the xorbs of the shard's terms.\<close>

lemma quota_projection_exact:
  assumes "meta_inv (sq_db s)" and "wf_files files" and "fresh_files files (sq_db s)"
    and "sqlite_stored_bytes_for_owner fl (repo_owner repo) s = Inr before"
    and "sqlite_unaccounted_xorb_bytes_for_owner fl (repo_owner repo) (files_xorbs files) s = Inr extra"
    and "sqlite_register_files fl now repo files s = (Inr (), s')"
    and "sqlite_stored_bytes_for_owner fl (repo_owner repo) s' = Inr after"
  shows "after = before + extra"
  using assms by (rule quota_projection)

text \<open>The tables with the file rows of one repository deleted.\<close>

definition delete_repo :: "string \<Rightarrow> meta_db \<Rightarrow> meta_db" where
  "delete_repo rid db = db\<lparr>db_files := filter (\<lambda>r. fl_repo_id r \<noteq> rid) (db_files db)\<rparr>"

lemma on_disk_mono:
  "meta_inv db \<Longrightarrow> (\<And>x. P x \<Longrightarrow> Q x) \<Longrightarrow> sum_list (on_disk_of P db) \<le> sum_list (on_disk_of Q db)"
proof -
  assume inv: "meta_inv db" and PQ: "\<And>x. P x \<Longrightarrow> Q x"
  have nn: "\<And>r. r \<in> set (db_xorbs db) \<Longrightarrow> 0 \<le> xr_num_bytes_on_disk r"
    using inv by (auto simp: meta_inv_def list_all_iff)
  have "0 \<le> sum_list (on_disk_of (\<lambda>x. Q x \<and> \<not> P x) db)"
    using nn by (auto simp: on_disk_of_def intro!: sum_list_nonneg)
  moreover have "on_disk_of Q db = on_disk_of (\<lambda>x. P x \<or> Q x) db"
    using PQ by (auto simp: on_disk_of_def intro!: arg_cong [where f = "map _"] filter_cong)
  ultimately show ?thesis by (simp add: on_disk_disj)
qed

text \<open>What a repository stores exclusively is what its owner would save. The exclusive bytes equal
  the drop of the owner's stored bytes if the repository's file rows were deleted, and are at most
  the repository's stored bytes.\<close>

lemma exclusive_is_saving:
  assumes "meta_inv (sq_db s)"
    and "sqlite_exclusive_stored_bytes_for_repo fl rid s = Inr excl"
    and "sqlite_stored_bytes_for_repo fl rid s = Inr repo_bytes"
    and "sqlite_stored_bytes_for_owner fl (owner_of_id rid) s = Inr before"
    and "sqlite_stored_bytes_for_owner fl (owner_of_id rid) (s\<lparr>sq_db := delete_repo rid (sq_db s)\<rparr>) = Inr after"
  shows "before = after + excl \<and> excl \<le> repo_bytes"
proof -
  let ?db = "sq_db s" and ?own = "\<lambda>f. fl_owner f = owner_of_id rid"
  let ?sib = "referenced (\<lambda>f. fl_owner f = owner_of_id rid \<and> fl_repo_id f \<noteq> rid) ?db"
    and ?mine = "referenced (\<lambda>f. fl_repo_id f = rid) ?db"
  have own: "fl_owner f = owner_of_id (fl_repo_id f)" if "f \<in> set (db_files ?db)" for f
    using assms(1) that by (auto simp: meta_inv_def list_all_iff)
  have all: "referenced ?own ?db x \<longleftrightarrow> ?sib x \<or> ?mine x" for x
    unfolding referenced_def using own by blast
  have del: "referenced ?own (delete_repo rid ?db) x \<longleftrightarrow> ?sib x" for x
    unfolding referenced_def delete_repo_def by auto
  have excl: "int excl = sum_list (on_disk_of (\<lambda>x. ?mine x \<and> \<not> ?sib x) ?db)"
    using query_sum_Inr [OF assms(2) [unfolded sqlite_exclusive_stored_bytes_for_repo_def Let_def]] by simp
  have "int before = sum_list (on_disk_of (\<lambda>x. ?sib x \<or> ?mine x) ?db)"
    using query_sum_Inr [OF assms(4) [unfolded sqlite_stored_bytes_for_owner_def]] unfolding all .
  moreover have "int after = sum_list (on_disk_of ?sib ?db)"
    using query_sum_Inr [OF assms(5) [unfolded sqlite_stored_bytes_for_owner_def]]
    by (simp add: del on_disk_of_def) (simp add: delete_repo_def)
  moreover have "int repo_bytes = sum_list (on_disk_of ?mine ?db)"
    using query_sum_Inr [OF assms(3) [unfolded sqlite_stored_bytes_for_repo_def]] .
  moreover have "int excl \<le> int repo_bytes"
    unfolding excl using calculation(3) on_disk_mono [OF assms(1), of "\<lambda>x. ?mine x \<and> \<not> ?sib x" ?mine] by simp
  ultimately show ?thesis using excl by (simp only: on_disk_disj) linarith
qed

section \<open>Quotas\<close>

text \<open>A quota below $2^{63}$ bytes is read back as set and clearing it removes it; a quota of
  $2^{63}$ bytes or more is stored as a negative number and every later read of it fails.\<close>

lemma owner_quota_round_trip:
  assumes "sqlite_set_owner_quota fl owner lim s = (Inr (), s')" and "fl (sq_tick s') = None"
    and "\<And>n. lim = Some n \<Longrightarrow> n \<le> u64_max"
  shows "(case lim of
      None \<Rightarrow> sqlite_get_owner_quota fl owner s' = Inr None
    | Some n \<Rightarrow> if n \<le> nat i64_max then sqlite_get_owner_quota fl owner s' = Inr (Some n)
                else \<exists>e. sqlite_get_owner_quota fl owner s' = Inl (Internal e))"
proof (cases lim)
  case None
  have "List.find (\<lambda>r. fst r = owner) (filter (\<lambda>r. fst r \<noteq> owner) q) = None" for q :: "(string \<times> int) list"
    by (auto simp: find_None_iff)
  with set_owner_quota_Inr [OF assms(1)] None assms(2) show ?thesis
    by (simp add: sqlite_get_owner_quota_def query_def)
next
  case (Some n)
  have find: "List.find (\<lambda>r. fst r = owner) (insert_replace fst (owner, v) q) = Some (owner, v)" for v :: int and q
    by (induction q) (auto simp: insert_replace_def)
  have neg: "as_i64 n < 0" if "\<not> n \<le> nat i64_max"
    using that assms(3) [OF Some] by (simp add: as_i64_def i64_max_def u64_max_def le_nat_iff)
  from set_owner_quota_Inr [OF assms(1)] Some assms(2)
  have "sqlite_get_owner_quota fl owner s' = rbind (nonneg_i64_to_u64 (as_i64 n) ''get_owner_quota'') (\<lambda>n. Inr (Some n))"
    by (simp add: sqlite_get_owner_quota_def query_def find)
  with neg Some show ?thesis by (auto simp: nonneg_i64_to_u64_def as_i64_small)
qed

definition ex_xorb :: xorb_info where
  "ex_xorb = \<lparr>xi_xorb = hash_zero, xi_num_chunks = 1, xi_num_bytes_in_cas = 5, xi_num_bytes_on_disk = 9\<rparr>"

definition ex_with_xorb :: sql_state where
  "ex_with_xorb = \<lparr>sq_db = insert_xorb 7 ex_xorb db_empty, sq_tick = 0\<rparr>"

definition ex_with_file :: sql_state where
  "ex_with_file = \<lparr>sq_db = apply_file 7 ex_repo (hash_zero, [ex_term 5]) (insert_xorb 7 ex_xorb db_empty), sq_tick = 5\<rparr>"

lemma ex_xorb_inv: "meta_inv (sq_db ex_with_xorb)"
  unfolding ex_with_xorb_def
  by (simp add: insert_xorb_inv db_empty_inv) (rule insert_xorb_inv [OF db_empty_inv], simp add: ex_xorb_def wf_hash_def hash_zero_def)

lemma ex_with_file_inv: "meta_inv (sq_db ex_with_file)"
  using ex_wf [of 5] apply_file_inv [OF ex_xorb_inv] by (auto simp: ex_with_xorb_def ex_with_file_def wf_files_def)

lemma ex_register2:
  "sqlite_register_files (\<lambda>_. None) 7 ex_repo [(hash_zero, [ex_term 5])] ex_with_xorb = (Inr (), ex_with_file)"
  by (simp add: sqlite_register_files_def in_tx_def exec_stmt_def ex_with_xorb_def write_file_in_tx_def
      terms_exist_def insert_file_def insert_xorb_def db_empty_def batches.simps CHUNK_INSERT_BATCH_def
      ex_with_file_def apply_file_def Let_def)

lemmas ex_eval = query_sum_def query_def on_disk_of_def referenced_def nonneg_i64_to_u64_def
  ex_with_xorb_def ex_with_file_def apply_file_def insert_file_def insert_terms_def terms_exist_def Let_def
  insert_xorb_def db_empty_def mk_xorb_rec_def mk_term_rec_def mk_file_rec_def insert_ignore_def
  insert_replace_def insert_ignore_all_def ex_xorb_def ex_term_def i64_max_def dedup_sorted_xorbs_def
  ex_repo_def repo_owner_def owner_of_id_def

lemma ex_before: "sqlite_stored_bytes_for_owner (\<lambda>_. None) ''alice'' ex_with_xorb = Inr 0"
  by (simp add: sqlite_stored_bytes_for_owner_def ex_eval)

lemma ex_after: "sqlite_stored_bytes_for_owner (\<lambda>_. None) ''alice'' ex_with_file = Inr 9"
  by (simp add: sqlite_stored_bytes_for_owner_def ex_eval)

lemma ex_extra:
  "sqlite_unaccounted_xorb_bytes_for_owner (\<lambda>_. None) ''alice'' (files_xorbs [(hash_zero, [ex_term 5])]) ex_with_xorb = Inr 9"
  by (simp add: sqlite_unaccounted_xorb_bytes_for_owner_def files_xorbs_def ex_eval)

lemma ex_owner: "repo_owner ex_repo = ''alice''"
  by (simp add: ex_repo_def repo_owner_def owner_of_id_def)

section \<open>The batched layout query\<close>

lemma group_frames_eq:
  assumes "list_all (\<lambda>r. length (fr_xorb_hash r) = HASH_LEN) rs"
  shows "group_frames rs out = Inr (\<lambda>x.
    (case filter (\<lambda>r. fr_xorb_hash r = hash_to_blob x) rs of
       [] \<Rightarrow> out x
     | fs \<Rightarrow> Some ((case out x of None \<Rightarrow> [] | Some gs \<Rightarrow> gs) @ map row_to_frame fs)))"
  using assms
proof (induction rs arbitrary: out)
  case (Cons r rs)
  let ?x = "Hash32 (fr_xorb_hash r)"
  have "blob_to_hash (fr_xorb_hash r) = Inr ?x" using Cons.prems by (simp add: blob_to_hash_def)
  with Cons show ?case
    by (auto simp: fun_eq_iff hash_to_blob_def split: list.splits option.splits)
qed simp

lemma sort_key_same: "(\<And>x y. x \<in> set xs \<Longrightarrow> y \<in> set xs \<Longrightarrow> f x = f y) \<Longrightarrow> sort_key f xs = xs"
  by (rule sort_key_id_if_sorted) (auto simp: sorted_map sorted_wrt_iff_nth_less intro!: eq_refl)

lemma frame_layouts_eq:
  assumes "meta_inv (sq_db s)" and "fl (sq_tick s) = None"
  shows "sqlite_xorb_frame_layouts fl xorbs s =
    Inr (\<lambda>x. if x \<in> set xorbs \<and> select_frames x (sq_db s) \<noteq> []
              then Some (map row_to_frame (select_frames x (sq_db s))) else None)"
proof -
  let ?rows = "sort_key (\<lambda>r. fr_xorb_hash r) (sort_key fr_frame_index
      (filter (\<lambda>r. fr_xorb_hash r \<in> hash_to_blob ` set xorbs) (db_frames (sq_db s))))"
  have rows: "filter (\<lambda>r. fr_xorb_hash r = hash_to_blob x) ?rows =
      (if x \<in> set xorbs then select_frames x (sq_db s) else [])" for x
  proof (cases "x \<in> set xorbs")
    case True
    have "filter (\<lambda>r. fr_xorb_hash r = hash_to_blob x) ?rows =
        sort_key (\<lambda>r. fr_xorb_hash r) (sort_key fr_frame_index (filter (\<lambda>r. fr_xorb_hash r = hash_to_blob x)
          (filter (\<lambda>r. fr_xorb_hash r \<in> hash_to_blob ` set xorbs) (db_frames (sq_db s)))))"
      by (simp only: filter_sort)
    also have "filter (\<lambda>r. fr_xorb_hash r = hash_to_blob x)
          (filter (\<lambda>r. fr_xorb_hash r \<in> hash_to_blob ` set xorbs) (db_frames (sq_db s))) =
        filter (\<lambda>r. fr_xorb_hash r = hash_to_blob x) (db_frames (sq_db s))"
      using True by (auto intro!: filter_cong)
    finally show ?thesis using True by (simp add: select_frames_def) (rule sort_key_same, simp)
  next
    case False
    then show ?thesis by (auto simp: filter_empty_conv)
  qed
  have "list_all (\<lambda>r. length (fr_xorb_hash r) = HASH_LEN) ?rows"
    using assms(1) by (auto simp: meta_inv_def list_all_iff)
  from group_frames_eq [OF this, of Map.empty] show ?thesis
    using assms(2) unfolding rows
    by (auto simp: sqlite_xorb_frame_layouts_def query_def Let_def fun_eq_iff split: list.splits)
qed

text \<open>The batched layout query answers what the trait's default loop over single queries answers:
  the layout of every requested xorb that has one, in frame order, and nothing else.\<close>

lemma frame_layouts_batch_eq_loop:
  assumes "meta_inv (sq_db s)" and "fl (sq_tick s) = None"
  shows "sqlite_xorb_frame_layouts fl xorbs s =
         xorb_frame_layouts_default (sqlite_xorb_frame_layout fl) xorbs s Map.empty"
proof -
  let ?lay = "\<lambda>x. map row_to_frame (select_frames x (sq_db s))"
  have "xorb_frame_layouts_default (sqlite_xorb_frame_layout fl) xs s out =
      Inr (\<lambda>x. if x \<in> set xs \<and> ?lay x \<noteq> [] then Some (?lay x) else out x)" for xs out
    using assms(2)
    by (induction xs arbitrary: out) (auto simp: sqlite_xorb_frame_layout_def query_def fun_eq_iff)
  from this [of xorbs Map.empty] show ?thesis by (simp add: frame_layouts_eq [where fl = fl and s = s, OF assms])
qed

end
