(* ===== verification/Meta_Layouts.thy ===== *)
theory Meta_Layouts
  imports Meta_Accounting
begin

text \<open>
  The SQLite store keeps the contract of frame layouts: \<open>INSERT OR IGNORE\<close> on the key (xorb, frame index)
  records the first layout of a xorb and keeps it.
\<close>

definition sqlite_layout :: "sql_state \<Rightarrow> hash32 \<Rightarrow> xorb_frame_row list" where
  "sqlite_layout s x = map row_to_frame (select_frames x (sq_db s))"

definition sqlite_ok :: "sql_state \<Rightarrow> bool" where
  "sqlite_ok s \<longleftrightarrow> meta_inv (sq_db s) \<and>
     list_all (\<lambda>r. 0 \<le> fr_frame_index r \<and> fr_frame_index r \<le> int u32_max) (db_frames (sq_db s))"

lemma row_to_frame_mk [simp]: "row_to_frame (mk_frame_rec x f) = f"
  by (simp add: row_to_frame_def mk_frame_rec_def)

lemma frame_key_mk: "frame_key (mk_frame_rec x f) = (hash_to_blob x, int (unat (xf_frame_index f)))"
  by (simp add: frame_key_def mk_frame_rec_def)

lemma layout_frames_cong: "db_frames (sq_db s') = db_frames (sq_db s) \<Longrightarrow> sqlite_layout s' = sqlite_layout s"
  by (simp add: sqlite_layout_def select_frames_def fun_eq_iff)

lemma select_frames_other:
  "y \<noteq> x \<Longrightarrow> select_frames y (insert_frames x rows db) = select_frames y db"
proof -
  assume "y \<noteq> x"
  then have "filter (\<lambda>r. fr_xorb_hash r = hash_to_blob y) (insert_ignore_all frame_key (map (mk_frame_rec x) rows) tbl) =
      filter (\<lambda>r. fr_xorb_hash r = hash_to_blob y) tbl" for tbl
    by (induction rows arbitrary: tbl) (auto simp: insert_ignore_all_def insert_ignore_def mk_frame_rec_def)
  then show ?thesis by (simp add: select_frames_def insert_frames_def)
qed

lemma mk_frame_keys:
  assumes "indexed_rows rows"
  shows "map frame_key (map (mk_frame_rec x) rows) = map (\<lambda>i. (hash_to_blob x, int i)) [0..<length rows]"
  using arg_cong [OF assms [unfolded indexed_rows_def], of "map (\<lambda>i. (hash_to_blob x, int i))"]
  by (simp add: frame_key_mk o_def)

lemma insert_frames_new:
  assumes "distinct (map frame_key (db_frames db))" and "indexed_rows rows" and "select_frames x db = []"
  shows "select_frames x (insert_frames x rows db) = map (mk_frame_rec x) rows"
proof -
  have none: "filter (\<lambda>r. fr_xorb_hash r = hash_to_blob x) (db_frames db) = []"
    using arg_cong [OF assms(3), of length] by (simp add: select_frames_def)
  have keys: "map frame_key (map (mk_frame_rec x) rows) = map (\<lambda>i. (hash_to_blob x, int i)) [0..<length rows]"
    using assms(2) by (rule mk_frame_keys)
  have "distinct (map frame_key (map (mk_frame_rec x) rows))"
    unfolding keys by (simp add: distinct_map inj_on_def)
  with assms(1) none have "distinct (map frame_key (db_frames db @ map (mk_frame_rec x) rows))"
    by (auto simp: frame_key_def mk_frame_rec_def filter_empty_conv)
  then have new: "db_frames (insert_frames x rows db) = db_frames db @ map (mk_frame_rec x) rows"
    by (simp only: insert_frames_def insert_ignore_all_fresh) simp
  have "map fr_frame_index (map (mk_frame_rec x) rows) = map int [0..<length rows]"
    using arg_cong [OF keys, of "map snd"] by (simp add: frame_key_def o_def)
  then have "sorted (map fr_frame_index (map (mk_frame_rec x) rows))"
    by (simp add: sorted_map sorted_wrt_upt sorted_wrt_map)
  moreover have "filter (\<lambda>r. fr_xorb_hash r = hash_to_blob x) (map (mk_frame_rec x) rows) = map (mk_frame_rec x) rows"
    by (simp add: mk_frame_rec_def)
  ultimately show ?thesis
    using none new by (simp only: select_frames_def filter_append sort_key_id_if_sorted append_Nil)
qed

lemma insert_ignore_all_present:
  "(\<And>r. r \<in> set rs \<Longrightarrow> \<exists>x \<in> set tbl. key x = key r) \<Longrightarrow> insert_ignore_all key rs tbl = tbl"
  unfolding insert_ignore_all_def
  by (induction rs) (auto simp: insert_ignore_def)

lemma get_u32_nat: "0 \<le> n \<Longrightarrow> n \<le> int u32_max \<Longrightarrow> int (unat (get_u32 n)) = n"
  by (simp add: get_u32_def u32_max_def uint_word_of_int)

lemma insert_frames_known:
  assumes "list_all (\<lambda>r. 0 \<le> fr_frame_index r \<and> fr_frame_index r \<le> int u32_max) (db_frames db)"
    and "indexed_rows rows" and "indexed_rows (map row_to_frame (select_frames x db))"
    and "length rows = length (select_frames x db)"
  shows "insert_frames x rows db = db"
proof -
  let ?sel = "select_frames x db"
  have sel: "set ?sel = {r \<in> set (db_frames db). fr_xorb_hash r = hash_to_blob x}"
    by (simp add: select_frames_def)
  have "\<exists>r' \<in> set (db_frames db). frame_key r' = frame_key r" if "r \<in> set (map (mk_frame_rec x) rows)" for r
  proof -
    from that have "frame_key r \<in> set (map frame_key (map (mk_frame_rec x) rows))" by (metis image_eqI set_map)
    then obtain i where i: "i < length ?sel" "frame_key r = (hash_to_blob x, int i)"
      using assms(4) unfolding mk_frame_keys [OF assms(2)] by auto
    let ?r = "?sel ! i"
    have "i = unat (xf_frame_index (row_to_frame ?r))"
      using arg_cong [OF assms(3) [unfolded indexed_rows_def], of "\<lambda>l. l ! i"] i(1) by simp
    moreover have mem: "?r \<in> set (db_frames db)" "fr_xorb_hash ?r = hash_to_blob x"
      using i(1) sel nth_mem by blast+
    moreover have "0 \<le> fr_frame_index ?r" "fr_frame_index ?r \<le> int u32_max"
      using assms(1) mem(1) by (auto simp: list_all_iff)
    ultimately have "fr_frame_index ?r = int i"
      using get_u32_nat [of "fr_frame_index ?r"] by (simp only: row_to_frame_def xorb_frame_row.simps)
    with mem i(2) show ?thesis by (auto simp: frame_key_def)
  qed
  then have "insert_ignore_all frame_key (map (mk_frame_rec x) rows) (db_frames db) = db_frames db"
    by (rule insert_ignore_all_present)
  then show ?thesis by (simp add: insert_frames_def)
qed

lemma sqlite_step_ok:
  assumes "sqlite_step fl s s'" and "sqlite_ok s"
  shows "sqlite_ok s'"
proof -
  have inv: "meta_inv (sq_db s')" using assms sqlite_step_inv by (simp add: sqlite_ok_def)
  from assms(1) have "set (db_frames (sq_db s')) \<subseteq> set (db_frames (sq_db s)) \<union> {r. \<exists>x f. r = mk_frame_rec x f}"
  proof (cases rule: sqlite_step_db)
    case (files now repo files)
    have "db_frames (fold (apply_file now repo) files db) = db_frames db" for db
      by (induction files arbitrary: db) (auto simp: apply_file_other)
    with files show ?thesis by simp
  next
    case (frames x fs)
    then show ?thesis by (fastforce simp: insert_frames_def dest!: set_insert_ignore_all)
  qed (auto simp: insert_chunks_def insert_xorb_def)
  then show ?thesis
    using assms(2) inv uint_le_u32_max by (fastforce simp: sqlite_ok_def list_all_iff mk_frame_rec_def)
qed

lemma sqlite_keeps_frames:
  "sqlite_register_xorb fl now x cs s = (r, s') \<Longrightarrow> db_frames (sq_db s') = db_frames (sq_db s)"
  "sqlite_register_files fl now repo files s = (r, s') \<Longrightarrow> db_frames (sq_db s') = db_frames (sq_db s)"
  "sqlite_set_owner_quota fl owner lim s = (r, s') \<Longrightarrow> db_frames (sq_db s') = db_frames (sq_db s)"
proof -
  have fold: "db_frames (fold (apply_file now repo) files db) = db_frames db" for db
    by (induction files arbitrary: db) (auto simp: apply_file_other)
  show "sqlite_register_xorb fl now x cs s = (r, s') \<Longrightarrow> db_frames (sq_db s') = db_frames (sq_db s)"
    by (cases r rule: unit_sum_cases)
      (auto dest: write_Inl register_xorb_Inr simp: insert_chunks_def insert_xorb_def)
  show "sqlite_register_files fl now repo files s = (r, s') \<Longrightarrow> db_frames (sq_db s') = db_frames (sq_db s)"
    by (cases r rule: unit_sum_cases) (auto dest: register_files_Inl register_files_Inr simp: fold)
  show "sqlite_set_owner_quota fl owner lim s = (r, s') \<Longrightarrow> db_frames (sq_db s') = db_frames (sq_db s)"
    by (cases r rule: unit_sum_cases) (auto dest: write_Inl set_owner_quota_Inr)
qed

interpretation sqlite: layout_store "sqlite_meta_ops fl pick now" sqlite_layout sqlite_ok for fl pick now
proof
  fix m m' :: sql_state and rows found h hs u e r r' x cs repo files owner lim
  let ?M = "sqlite_meta_ops fl pick now"
  show "sqlite_layout m' = (sqlite_layout m)(h := rows)"
    if "sqlite_ok m" "indexed_rows rows" "sqlite_layout m h = []" "register_xorb_layout ?M h rows m = (Inr u, m')"
  proof -
    have "sq_db m' = insert_frames h rows (sq_db m)"
      using that(4) register_layout_Inr by (simp add: sqlite_meta_ops_def)
    moreover have "select_frames h (insert_frames h rows (sq_db m)) = map (mk_frame_rec h) rows"
      using that(1-3) by (intro insert_frames_new) (auto simp: sqlite_ok_def meta_inv_def sqlite_layout_def)
    ultimately show ?thesis by (auto simp: fun_eq_iff sqlite_layout_def select_frames_other o_def)
  qed
  show "sqlite_layout m' = sqlite_layout m"
    if "sqlite_ok m" "indexed_rows rows" "indexed_rows (sqlite_layout m h)"
      "length rows = length (sqlite_layout m h)" "register_xorb_layout ?M h rows m = (Inr u, m')"
  proof -
    have "sq_db m' = insert_frames h rows (sq_db m)"
      using that(5) register_layout_Inr by (simp add: sqlite_meta_ops_def)
    also have "\<dots> = sq_db m"
      using that(1-4) by (intro insert_frames_known) (auto simp: sqlite_ok_def sqlite_layout_def)
    finally show ?thesis by (intro layout_frames_cong) simp
  qed
  show "register_xorb_layout ?M h rows m = (Inl e, m') \<Longrightarrow> sqlite_layout m' = sqlite_layout m"
    using write_Inl(3) [of fl h rows m e m'] by (intro layout_frames_cong) (simp add: sqlite_meta_ops_def)
  show "register_xorb ?M x cs m = (r, m') \<Longrightarrow> sqlite_layout m' = sqlite_layout m"
    "register_files ?M repo files m = (r, m') \<Longrightarrow> sqlite_layout m' = sqlite_layout m"
    "set_owner_quota ?M owner lim m = (r, m') \<Longrightarrow> sqlite_layout m' = sqlite_layout m"
    using layout_frames_cong [OF sqlite_keeps_frames(1) [of fl now x cs m r m']]
      layout_frames_cong [OF sqlite_keeps_frames(2) [of fl now repo files m r m']]
      layout_frames_cong [OF sqlite_keeps_frames(3) [of fl owner lim m r m']]
    by (simp_all add: sqlite_meta_ops_def)
  show "xorb_frame_layout ?M h m = Inr rows \<Longrightarrow> rows = sqlite_layout m h"
    by (auto simp: sqlite_meta_ops_def sqlite_xorb_frame_layout_def rbind_eq_Inr query_def sqlite_layout_def
        split: option.splits)
  show "found h = (if sqlite_layout m h = [] then None else Some (sqlite_layout m h))"
    if "sqlite_ok m" "xorb_frame_layouts ?M hs m = Inr found" "h \<in> set hs"
  proof (cases "fl (sq_tick m)")
    case None
    with that frame_layouts_eq [of m fl hs] show ?thesis
      by (auto simp: sqlite_meta_ops_def sqlite_ok_def sqlite_layout_def)
  next
    case (Some e)
    with that(2,3) show ?thesis
      by (cases "hs = []") (auto simp: sqlite_meta_ops_def sqlite_xorb_frame_layouts_def query_def Let_def)
  qed
  show "sqlite_ok m \<Longrightarrow> wf_hash h \<Longrightarrow> register_xorb_layout ?M h rows m = (r, m') \<Longrightarrow> sqlite_ok m'"
    using sqlite_step_ok step_layout by (fastforce simp: sqlite_meta_ops_def)
  show "sqlite_ok m \<Longrightarrow> wf_hash (xi_xorb x) \<Longrightarrow> list_all (\<lambda>c. wf_hash (cr_chunk_hash c)) cs \<Longrightarrow>
      register_xorb ?M x cs m = (r', m') \<Longrightarrow> sqlite_ok m'"
    using sqlite_step_ok step_xorb by (fastforce simp: sqlite_meta_ops_def)
  show "sqlite_ok m \<Longrightarrow> wf_files files \<Longrightarrow> register_files ?M repo files m = (r', m') \<Longrightarrow> sqlite_ok m'"
    using sqlite_step_ok step_files by (fastforce simp: sqlite_meta_ops_def)
  show "sqlite_ok m \<Longrightarrow> set_owner_quota ?M owner lim m = (r', m') \<Longrightarrow> sqlite_ok m'"
    using sqlite_step_ok step_quota by (fastforce simp: sqlite_meta_ops_def)
qed

end
