(* ===== verification/Authz.thy ===== *)
theory Authz
  imports Core_Types
begin

text \<open>
  Tokens and authorization: \<open>bale-server-tokens\<close>, the in-memory and the HTTP-backed \<open>RepoAuthz\<close>.
  The JSON web token library, the clock and the upstream service are parameters; what the code
  relies on of the token library is the predicate \<open>jwt_laws\<close>.
\<close>

section \<open>Tokens\<close>

record xet_claims =
  xc_sub :: string
  xc_repo_type :: string
  xc_repo_id :: string
  xc_revision :: string
  xc_scope :: string
  xc_exp :: nat

definition repo_type_str :: "repo_type \<Rightarrow> string" where
  "repo_type_str t = (case t of Model \<Rightarrow> ''model'' | Dataset \<Rightarrow> ''dataset'' | Space \<Rightarrow> ''space'')"

definition parse_repo_type :: "string \<Rightarrow> core_error + repo_type" where
  "parse_repo_type s =
     (if s = ''model'' then Inr Model
      else if s = ''dataset'' then Inr Dataset
      else if s = ''space'' then Inr Space
      else Inl (BadRequest (''bad repo_type: '' @ s)))"

definition scope_str :: "scope \<Rightarrow> string" where
  "scope_str s = (case s of Read \<Rightarrow> ''read'' | Write \<Rightarrow> ''write'')"

definition parse_scope :: "string \<Rightarrow> core_error + scope" where
  "parse_scope s =
     (if s = ''read'' then Inr Read
      else if s = ''write'' then Inr Write
      else Inl (BadRequest (''bad scope: '' @ s)))"

text \<open>The library: encoding under a secret, and decoding with the validation of \<open>verify\<close> (signature,
  presence of \<open>exp\<close>, no leeway) at a time. The clock is its answer or an error.\<close>

record jwt_lib =
  jwt_encode :: "bytes \<Rightarrow> xet_claims \<Rightarrow> string + string"
  jwt_decode :: "bytes \<Rightarrow> nat \<Rightarrow> string \<Rightarrow> xet_claims option"

definition mint :: "jwt_lib \<Rightarrow> string + nat \<Rightarrow> bytes \<Rightarrow> string \<Rightarrow> repo_ref \<Rightarrow> scope \<Rightarrow> nat \<Rightarrow>
   core_error + string \<times> nat" where
  "mint J clock secret user repo sc ttl_secs =
     rbind (rmap_err (\<lambda>e. Internal (''system clock before unix epoch: '' @ e)) clock) (\<lambda>now.
     let exp = saturating_add now ttl_secs;
         claims = \<lparr>xc_sub = user, xc_repo_type = repo_type_str (repo_type_of repo),
                   xc_repo_id = repo_id repo, xc_revision = revision repo,
                   xc_scope = scope_str sc, xc_exp = exp\<rparr>
     in rbind (rmap_err (\<lambda>e. Internal (''jwt encode: '' @ e)) (jwt_encode J secret claims)) (\<lambda>token.
          Inr (token, exp)))"

definition verify :: "jwt_lib \<Rightarrow> nat \<Rightarrow> bytes \<Rightarrow> string \<Rightarrow> core_error + token_claims" where
  "verify J now secret token =
     rbind (ok_or Unauthorized (jwt_decode J secret now token)) (\<lambda>c.
     rbind (parse_repo_type (xc_repo_type c)) (\<lambda>rt.
     rbind (parse_scope (xc_scope c)) (\<lambda>sc.
       Inr \<lparr>tc_user = xc_sub c,
            tc_repo = \<lparr>repo_type_of = rt, repo_id = xc_repo_id c, revision = xc_revision c\<rparr>,
            tc_scope = sc, tc_expires_at = xc_exp c\<rparr>)))"

text \<open>Documented behaviour of the library: what was encoded under a secret decodes under it to the
  same claims until it expires, and never afterwards.\<close>

definition jwt_laws :: "jwt_lib \<Rightarrow> bool" where
  "jwt_laws J \<longleftrightarrow>
     (\<forall>secret c t now. jwt_encode J secret c = Inr t \<and> now \<le> xc_exp c \<longrightarrow> jwt_decode J secret now t = Some c) \<and>
     (\<forall>secret c t now. jwt_decode J secret now t = Some c \<longrightarrow> now \<le> xc_exp c)"

section \<open>Static configuration\<close>

record config_user =
  cu_user_id :: string
  cu_repos :: "string \<rightharpoonup> scope"

text \<open>The hash map is a list of entries with distinct keys, in its iteration order.\<close>

record config_authz =
  ca_jwt_secret :: bytes
  ca_users :: "(string \<times> config_user) list"

definition config_authz_new :: "bytes \<Rightarrow> config_authz" where
  "config_authz_new secret = \<lparr>ca_jwt_secret = secret, ca_users = []\<rparr>"

fun grant_entry :: "string \<Rightarrow> string \<Rightarrow> string \<Rightarrow> scope \<Rightarrow> (string \<times> config_user) list \<Rightarrow> (string \<times> config_user) list" where
  "grant_entry tok user rid sc [] = [(tok, \<lparr>cu_user_id = user, cu_repos = [rid \<mapsto> sc]\<rparr>)]"
| "grant_entry tok user rid sc ((k, u) # us) =
     (if k = tok then (k, u\<lparr>cu_repos := (cu_repos u)(rid \<mapsto> sc)\<rparr>) # us
      else (k, u) # grant_entry tok user rid sc us)"

definition grant :: "string \<Rightarrow> string \<Rightarrow> string \<Rightarrow> scope \<Rightarrow> config_authz \<Rightarrow> config_authz" where
  "grant tok user rid sc a = a\<lparr>ca_users := grant_entry tok user rid sc (ca_users a)\<rparr>"

definition DEFAULT_TOKEN_TTL_SECS :: nat where
  "DEFAULT_TOKEN_TTL_SECS = 300"

text \<open>The constant-time comparison: the accumulator starts with the difference of the lengths, cut to
  32 bits, and collects the differences of the common prefix.\<close>

definition ct_eq :: "bytes \<Rightarrow> bytes \<Rightarrow> bool" where
  "ct_eq a b \<longleftrightarrow>
     fold (\<lambda>(x, y) acc. acc OR ucast (x XOR y)) (zip a b) (word_of_nat (length a XOR length b) :: u32) = 0"

definition config_check_repo_access :: "config_authz \<Rightarrow> string \<Rightarrow> repo_ref \<Rightarrow> scope \<Rightarrow> core_error + string" where
  "config_check_repo_access a hub_bearer repo requested =
     (let found = fold (\<lambda>(k, v) found. if ct_eq (as_bytes k) (as_bytes hub_bearer) then Some v else found)
                    (ca_users a) None
      in rbind (ok_or Unauthorized found) (\<lambda>u.
         rbind (ok_or Forbidden (cu_repos u (repo_id repo))) (\<lambda>granted.
           if requested = Write \<and> granted = Read then Inl Forbidden else Inr (cu_user_id u))))"

definition config_authz_ops :: "jwt_lib \<Rightarrow> string + nat \<Rightarrow> nat \<Rightarrow> config_authz \<Rightarrow> authz_ops" where
  "config_authz_ops J clock now a = \<lparr>
     verify_xet_token = verify J now (ca_jwt_secret a),
     check_repo_access = config_check_repo_access a,
     mint_xet_token = (\<lambda>user repo sc. mint J clock (ca_jwt_secret a) user repo sc DEFAULT_TOKEN_TTL_SECS)\<rparr>"

text \<open>The test implementation that accepts every bearer.\<close>

definition always_allow_ops :: authz_ops where
  "always_allow_ops = \<lparr>
     verify_xet_token = (\<lambda>bearer. if bearer = [] then Inl Unauthorized
        else Inr \<lparr>tc_user = ''anonymous'',
                  tc_repo = \<lparr>repo_type_of = Model, repo_id = ''anonymous/repo'', revision = ''main''\<rparr>,
                  tc_scope = Write, tc_expires_at = u64_max\<rparr>),
     check_repo_access = (\<lambda>_ _ _. Inr ''anonymous''),
     mint_xet_token = (\<lambda>_ _ _. Inl (Internal ''AlwaysAllow cannot mint tokens''))\<rparr>"

section \<open>The upstream service\<close>

definition MAX_UPSTREAM_RESPONSE_BYTES :: nat where
  "MAX_UPSTREAM_RESPONSE_BYTES = 64 * 1024"

text \<open>What the upstream answers: a transport error, or a status with a declared length and a body that
  may fail to arrive. Decoding the JSON body is a parameter.\<close>

record upstream_response =
  up_status :: nat
  up_content_length :: "nat option"
  up_body :: "bytes option"

definition http_check_repo_access ::
  "(bytes \<Rightarrow> string option) \<Rightarrow> (string \<Rightarrow> repo_ref \<Rightarrow> scope \<Rightarrow> string + upstream_response) \<Rightarrow>
   string \<Rightarrow> repo_ref \<Rightarrow> scope \<Rightarrow> core_error + string" where
  "http_check_repo_access decode_user_id post hub_bearer repo sc =
     rbind (rmap_err (\<lambda>e. Internal (''upstream call: '' @ e)) (post hub_bearer repo sc)) (\<lambda>resp.
     if 200 \<le> up_status resp \<and> up_status resp < 300 then
       rbind (case up_content_length resp of
          Some len \<Rightarrow> if len > MAX_UPSTREAM_RESPONSE_BYTES then Inl (Internal ''upstream response too large'') else Inr ()
        | None \<Rightarrow> Inr ()) (\<lambda>_.
       rbind (ok_or (Internal ''upstream body read failed'') (up_body resp)) (\<lambda>bs.
       if length bs > MAX_UPSTREAM_RESPONSE_BYTES then Inl (Internal ''upstream response too large'')
       else ok_or (Internal ''upstream body decode failed'') (decode_user_id bs)))
     else if up_status resp = 401 then Inl Unauthorized
     else if up_status resp = 403 then Inl Forbidden
     else Inl (Internal (''upstream status '' @ show_nat (up_status resp) @ '' for check_access'')))"

definition http_authz_ops ::
  "jwt_lib \<Rightarrow> string + nat \<Rightarrow> nat \<Rightarrow> bytes \<Rightarrow> (bytes \<Rightarrow> string option) \<Rightarrow>
   (string \<Rightarrow> repo_ref \<Rightarrow> scope \<Rightarrow> string + upstream_response) \<Rightarrow> authz_ops" where
  "http_authz_ops J clock now secret decode_user_id post = \<lparr>
     verify_xet_token = verify J now secret,
     check_repo_access = http_check_repo_access decode_user_id post,
     mint_xet_token = (\<lambda>user repo sc. mint J clock secret user repo sc DEFAULT_TOKEN_TTL_SECS)\<rparr>"

section \<open>Comparison\<close>

lemma ucast_u8_zero: "ucast (w :: u8) = (0 :: u32) \<longleftrightarrow> w = 0"
proof
  assume z: "ucast w = (0 :: u32)"
  show "w = 0"
  proof (rule bit_eqI)
    fix n
    have "\<not> bit w n"
    proof
      assume b: "bit w n"
      then have "n < 8" using bit_imp_le_length by fastforce
      with b have "bit (ucast w :: u32) n" by (simp add: bit_simps)
      with z show False by simp
    qed
    then show "bit w n \<longleftrightarrow> bit 0 n" by simp
  qed
qed simp

lemma xor_zero_iff: "(x :: u8) XOR y = 0 \<longleftrightarrow> x = y"
proof
  assume "x XOR y = 0"
  then have "(x XOR y) XOR y = y" by simp
  then show "x = y" by (simp add: xor.assoc)
qed simp

lemma or_fold_zero:
  "fold (\<lambda>(x, y) acc. acc OR ucast (x XOR y)) ps (acc :: u32) = 0 \<longleftrightarrow>
   acc = 0 \<and> (\<forall>(x, y) \<in> set ps. (x :: u8) = y)"
proof (induction ps arbitrary: acc)
  case (Cons p ps)
  obtain x y where p: "p = (x, y)" by (cases p)
  have "acc OR ucast (x XOR y) = 0 \<longleftrightarrow> acc = 0 \<and> x = y"
    using ucast_u8_zero [of "x XOR y"] xor_zero_iff [of x y] by (auto simp: or_eq_0_iff)
  with Cons.IH show ?case by (auto simp: p)
qed simp

lemma xor_length_zero:
  assumes "a < 2 ^ 32" and "b < (2 ^ 32 :: nat)"
  shows "(word_of_nat (a XOR b) :: u32) = 0 \<longleftrightarrow> a = b"
proof -
  have "a XOR b = take_bit 32 (a XOR b)"
    using assms by (simp add: take_bit_xor take_bit_nat_eq_self)
  then have "a XOR b < 2 ^ 32" by (metis take_bit_nat_less_exp)
  then have "(word_of_nat (a XOR b) :: u32) = 0 \<longleftrightarrow> a XOR b = 0"
    by (simp add: word_unat_eq_iff unat_of_nat)
  also have "\<dots> \<longleftrightarrow> a = b"
  proof
    assume "a XOR b = 0"
    then have "(a XOR b) XOR b = b" by simp
    then show "a = b" by (simp add: xor.assoc)
  qed simp
  finally show ?thesis .
qed

lemma zip_eq_iff: "length a = length b \<Longrightarrow> (\<forall>(x, y) \<in> set (zip a b). x = y) \<longleftrightarrow> a = b"
  by (induction a b rule: list_induct2) auto

lemma ct_eq_iff:
  assumes "length a < 2 ^ 32" and "length b < 2 ^ 32"
  shows "ct_eq a b \<longleftrightarrow> a = b"
  using zip_eq_iff [of a b] xor_length_zero [OF assms]
  unfolding ct_eq_def or_fold_zero by auto

lemma ct_eq_refl: "ct_eq a a"
  unfolding ct_eq_def or_fold_zero by (auto simp: zip_same_conv_map)

text \<open>The constant-time comparison decides equality: it accepts exactly equal byte strings, of any
  two lengths below $2^{32}$ (beyond that the 32-bit cut of the length difference could hide one).\<close>

lemma ct_eq_decides:
  assumes "length a < 2 ^ 32" and "length b < 2 ^ 32"
  shows "ct_eq a b \<longleftrightarrow> a = b"
  using assms by (rule ct_eq_iff)

section \<open>Tokens and grants\<close>

lemma parse_repo_type_str: "parse_repo_type (repo_type_str t) = Inr t"
  by (cases t) (simp_all add: parse_repo_type_def repo_type_str_def)

lemma parse_scope_str: "parse_scope (scope_str s) = Inr s"
  by (cases s) (simp_all add: parse_scope_def scope_str_def)

text \<open>The facts a minted token gives, for the property below and for the handlers.\<close>

lemma minted_verifies:
  assumes "jwt_laws J" and "mint J clock secret user repo sc ttl = Inr (token, exp)" and "now \<le> exp"
  shows "verify J now secret token = Inr \<lparr>tc_user = user, tc_repo = repo, tc_scope = sc, tc_expires_at = exp\<rparr>"
proof -
  let ?c = "\<lparr>xc_sub = user, xc_repo_type = repo_type_str (repo_type_of repo),
    xc_repo_id = repo_id repo, xc_revision = revision repo, xc_scope = scope_str sc, xc_exp = exp\<rparr>"
  have "jwt_encode J secret ?c = Inr token"
    using assms(2) by (auto simp: mint_def rbind_eq_Inr rmap_err_eq_Inr Let_def)
  moreover have "now \<le> xc_exp ?c" using assms(3) by simp
  ultimately have "jwt_decode J secret now token = Some ?c" using assms(1) unfolding jwt_laws_def by blast
  then show ?thesis by (simp add: verify_def parse_repo_type_str parse_scope_str)
qed

text \<open>A minted token verifies to exactly what it was minted for, user, repository and scope, until
  the expiry that was returned with it, and is refused from the second after.\<close>

lemma mint_verify:
  assumes "jwt_laws J" and "mint J clock secret user repo sc ttl = Inr (token, exp)"
  shows "(now \<le> exp \<longrightarrow> verify J now secret token =
      Inr \<lparr>tc_user = user, tc_repo = repo, tc_scope = sc, tc_expires_at = exp\<rparr>) \<and>
    (\<exists>t0. clock = Inr t0 \<and> exp = saturating_add t0 ttl) \<and>
    (\<forall>c. verify J now secret token = Inr c \<longrightarrow> now \<le> tc_expires_at c)"
proof (intro conjI)
  show "\<exists>t0. clock = Inr t0 \<and> exp = saturating_add t0 ttl"
    using assms(2) by (auto simp: mint_def rbind_eq_Inr rmap_err_eq_Inr Let_def)
  have "jwt_decode J secret now token = Some c \<Longrightarrow> now \<le> xc_exp c" for c
    using assms(1) unfolding jwt_laws_def by blast
  then show "\<forall>c. verify J now secret token = Inr c \<longrightarrow> now \<le> tc_expires_at c"
    by (auto simp: verify_def rbind_eq_Inr ok_or_eq_Inr)
qed (simp add: minted_verifies [OF assms])

text \<open>A library that knows one token, to instantiate the laws.\<close>

definition one_claim :: xet_claims where
  "one_claim = \<lparr>xc_sub = ''alice'', xc_repo_type = ''model'', xc_repo_id = ''alice/m'',
     xc_revision = ''main'', xc_scope = ''read'', xc_exp = 400\<rparr>"

definition one_token_lib :: jwt_lib where
  "one_token_lib = \<lparr>
     jwt_encode = (\<lambda>_ c. if c = one_claim then Inr ''t'' else Inl ''unsupported''),
     jwt_decode = (\<lambda>_ now t. if t = ''t'' \<and> now \<le> 400 then Some one_claim else None)\<rparr>"

lemma one_token_laws: "jwt_laws one_token_lib"
  by (simp add: jwt_laws_def one_token_lib_def one_claim_def)

definition alice_repo :: repo_ref where
  "alice_repo = \<lparr>repo_type_of = Model, repo_id = ''alice/m'', revision = ''main''\<rparr>"

text \<open>The configuration grants build: distinct bearers, the first user id wins.\<close>

lemma fold_find_last:
  assumes "distinct (map fst us)"
  shows "fold (\<lambda>(k, v) found. if k = tok then Some v else found) us acc =
    (case map_of us tok of None \<Rightarrow> acc | Some v \<Rightarrow> Some v)"
  using assms by (induction us arbitrary: acc) (auto split: option.splits dest: map_of_SomeD simp: image_iff)

lemma grant_entry_keys: "fst ` set (grant_entry tok user rid sc us) = insert tok (fst ` set us)"
  by (induction tok user rid sc us rule: grant_entry.induct) (simp_all add: insert_commute)

lemma grant_entry_distinct: "distinct (map fst us) \<Longrightarrow> distinct (map fst (grant_entry tok user rid sc us))"
  by (induction tok user rid sc us rule: grant_entry.induct) (auto simp add: grant_entry_keys)

lemma map_of_grant_entry:
  "map_of (grant_entry tok user rid sc us) k =
    (if k = tok then Some (case map_of us tok of
        None \<Rightarrow> \<lparr>cu_user_id = user, cu_repos = [rid \<mapsto> sc]\<rparr>
      | Some u \<Rightarrow> u\<lparr>cu_repos := (cu_repos u)(rid \<mapsto> sc)\<rparr>)
     else map_of us k)"
  by (induction tok user rid sc us rule: grant_entry.induct) auto

text \<open>Static grants are enforced exactly. With distinct bearers of sane length, access is given to a
  bearer exactly when that bearer is configured, has a grant for the repository id, and the grant
  covers the scope (write covers read, read does not cover write); the answer names its user. An
  unknown bearer is unauthorized, a missing or too weak grant is forbidden.\<close>

lemma config_access_iff:
  assumes "distinct (map fst (ca_users a))" and "length tok < 2 ^ 32"
    and "\<And>k. k \<in> fst ` set (ca_users a) \<Longrightarrow> length k < 2 ^ 32"
  shows "config_check_repo_access a tok repo sc =
    (case map_of (ca_users a) tok of
       None \<Rightarrow> Inl Unauthorized
     | Some u \<Rightarrow> (case cu_repos u (repo_id repo) of
         None \<Rightarrow> Inl Forbidden
       | Some g \<Rightarrow> if sc = Write \<and> g = Read then Inl Forbidden else Inr (cu_user_id u)))"
proof -
  have "ct_eq (as_bytes k) (as_bytes tok) \<longleftrightarrow> k = tok" if "(k, v) \<in> set (ca_users a)" for k v
    using ct_eq_iff [of "as_bytes k" "as_bytes tok"] assms(2) assms(3) [of k] that by (force simp: image_iff)
  then have "fold (\<lambda>(k, v) found. if ct_eq (as_bytes k) (as_bytes tok) then Some v else found) (ca_users a) None =
      fold (\<lambda>(k, v) found. if k = tok then Some v else found) (ca_users a) None"
    by (intro fold_cong) auto
  then show ?thesis
    by (simp add: config_check_repo_access_def Let_def fold_find_last [OF assms(1)] split: option.splits)
qed

definition example_config :: config_authz where
  "example_config = grant ''tok'' ''alice'' ''alice/m'' Read (config_authz_new [1])"

end
