(* ===== verification/Http_Server.thy ===== *)
theory Http_Server
  imports Wire Shard_Format Xorb_Format Authz
begin

text \<open>
  The HTTP layer, \<open>bale-server-http/src/lib.rs\<close>: one definition per handler, over the records of
  operations of the three traits. A handler takes the service, what the request carries and the
  states of the two stores, and returns the response or an \<open>ApiError\<close> together with the states.
  Routing, logging and metrics are left out. The libraries the handlers call (hashes, HMAC, hex,
  base64, JSON, decompression), the clock and the random key are parameters. A header is its text
  when it is present and \<open>to_str\<close> succeeds.
\<close>

section \<open>Service and errors\<close>

definition MAX_BODY_BYTES :: nat where "MAX_BODY_BYTES = 64 * 1024 * 1024"
definition SIGNATURE_TTL_SECS :: nat where "SIGNATURE_TTL_SECS = 600"
definition MAX_TERM_UNPACKED_BYTES :: nat where "MAX_TERM_UNPACKED_BYTES = 128 * 1024 * 1024"
definition DEDUP_NEIGHBORHOOD :: nat where "DEDUP_NEIGHBORHOOD = 8"
definition DEDUP_KEY_TTL_SECS :: nat where "DEDUP_KEY_TTL_SECS = 24 * 60 * 60"

text \<open>The functions of third-party crates.\<close>

record externals =
  x_hmac_sha256 :: "bytes \<Rightarrow> bytes \<Rightarrow> bytes"
  x_sha256 :: "bytes \<Rightarrow> bytes"
  x_blake3 :: "bytes \<Rightarrow> bytes"
  x_hex_encode :: "bytes \<Rightarrow> string"
  x_hex_decode :: "string \<Rightarrow> bytes option"
  x_base64_decode :: "string \<Rightarrow> bytes option"
  x_filename_claim :: "bytes \<Rightarrow> string option"
  x_decompress :: decompressor
  x_data_hash :: "bytes \<Rightarrow> hash32"
  x_xorb_hash :: "(hash32 \<times> nat) list \<Rightarrow> hash32"
  x_header_value :: "string \<Rightarrow> string + string"

record ('b, 'm) service =
  svc_blobs :: "'b blob_ops"
  svc_meta :: "'m meta_ops"
  svc_authz :: authz_ops
  svc_transfer_secret :: bytes
  svc_public_base_url :: string
  svc_default_quota_bytes :: "nat option"
  svc_admin_token :: "bytes option"

datatype api_error = ApiError (api_status: nat) (api_message: string)

definition api_of_core :: "core_error \<Rightarrow> api_error" where
  "api_of_core e =
     (case e of
        NotFound \<Rightarrow> ApiError 404 ''not found''
      | BadRequest m \<Rightarrow> ApiError 400 m
      | Conflict m \<Rightarrow> ApiError 409 m
      | Unauthorized \<Rightarrow> ApiError 401 ''unauthorized''
      | Forbidden \<Rightarrow> ApiError 403 ''forbidden''
      | Internal m \<Rightarrow> ApiError 500 m)"

definition bad_req :: "string \<Rightarrow> api_error" where
  "bad_req msg = ApiError 400 msg"

definition unauthorized :: "string \<Rightarrow> api_error" where
  "unauthorized msg = ApiError 401 msg"

text \<open>The operator \<open>?\<close> on a store's result inside a handler.\<close>

definition core :: "core_error + 'a \<Rightarrow> api_error + 'a" where
  "core r = rmap_err api_of_core r"

definition quoted :: "string \<Rightarrow> string" where
  "quoted s = [CHR 0x27] @ s @ [CHR 0x27]"

text \<open>The texts of the errors the handlers interpolate.\<close>

definition hex_error_text :: "hex_error \<Rightarrow> string" where
  "hex_error_text e =
     (case e of
        BadLength \<Rightarrow> ''hash hex string must be 64 lowercase chars''
      | BadHex \<Rightarrow> ''hash hex string contains non-hex characters'')"

definition shard_error_text :: "shard_error \<Rightarrow> string" where
  "shard_error_text e =
     (case e of
        ShardTruncated off needed \<Rightarrow>
          ''shard truncated: needed '' @ show_nat needed @ '' more bytes at offset '' @ show_nat off
      | BadHeaderVersion v \<Rightarrow> ''unsupported header version '' @ show_nat (unat v)
      | BadFooterVersion v \<Rightarrow> ''unsupported footer version '' @ show_nat (unat v)
      | BadFooterOffset d len \<Rightarrow>
          ''declared footer offset '' @ show_nat (unat d) @ '' exceeds shard length '' @ show_nat len
      | ShardTooLarge n \<Rightarrow> ''shard too large ('' @ show_nat n @ '' bytes, max 64 MiB)'')"

definition xorb_parse_error_text :: "xorb_parse_error \<Rightarrow> string" where
  "xorb_parse_error_text e =
     (case e of
        XorbEmpty \<Rightarrow> ''xorb contained no chunk frames''
      | XorbTruncated i need have \<Rightarrow>
          ''frame '' @ show_nat i @ '' truncated: declared '' @ show_nat need @ '' bytes, only '' @
          show_nat have @ '' remain''
      | BadCompressionScheme i s \<Rightarrow>
          ''frame '' @ show_nat i @ '' has invalid compression scheme '' @ show_nat (unat s)
      | XorbTooLarge actual mx \<Rightarrow>
          ''xorb body exceeds '' @ show_nat mx @ '' bytes ('' @ show_nat actual @ '' given)'')"

definition xorb_verify_error_text :: "xorb_verify_error \<Rightarrow> string" where
  "xorb_verify_error_text e =
     (case e of
        XorbParse p \<Rightarrow> xorb_parse_error_text p
      | DecompressFailed i m \<Rightarrow> ''frame '' @ show_nat i @ '' failed to decompress: '' @ m
      | LengthMismatch i d a \<Rightarrow>
          ''frame '' @ show_nat i @ '' length mismatch: header declared '' @ show_nat d @
          '', decompressed '' @ show_nat a
      | HashMismatch \<Rightarrow> ''xorb content hash does not match URL hash'')"

text \<open>\<open>Debug\<close> of a hash: plain hexadecimal.\<close>

definition hash_debug :: "hash32 \<Rightarrow> string" where
  "hash_debug h = concat (map hex_byte (hash_bytes h))"

definition decode_or_bad :: "string \<Rightarrow> string \<Rightarrow> api_error + hash32" where
  "decode_or_bad what s = rmap_err (\<lambda>e. bad_req (what @ hex_error_text e)) (decode_hash s)"

section \<open>Authentication\<close>

definition auth_middleware ::
  "('b, 'm) service \<Rightarrow> bool \<Rightarrow> string option \<Rightarrow> api_error + token_claims" where
  "auth_middleware svc is_post authorization =
     rbind (ok_or (unauthorized ''missing bearer'') authorization) (\<lambda>raw.
     rbind (ok_or (unauthorized (''expected '' @ quoted ''Bearer <token>'')) (strip_prefix ''Bearer '' raw)) (\<lambda>token.
     rbind (core (verify_xet_token (svc_authz svc) token)) (\<lambda>claims.
       if is_post \<and> tc_scope claims = Read
       then Inl (ApiError 403 ''this endpoint requires a write-scope token'')
       else Inr claims)))"

section \<open>Signed ranges\<close>

record signed_range =
  sr_hash_hex :: string
  sr_start :: nat
  sr_end_inclusive :: nat
  sr_exp :: nat

definition signed_text :: "signed_range \<Rightarrow> string" where
  "signed_text r =
     sr_hash_hex r @ ''|'' @ show_nat (sr_start r) @ ''|'' @ show_nat (sr_end_inclusive r) @ ''|'' @
     show_nat (sr_exp r)"

definition sign :: "externals \<Rightarrow> bytes \<Rightarrow> signed_range \<Rightarrow> string" where
  "sign X secret r = x_hex_encode X (x_hmac_sha256 X secret (as_bytes (signed_text r)))"

definition build_signed_url :: "externals \<Rightarrow> nat \<Rightarrow> string \<Rightarrow> bytes \<Rightarrow> string \<Rightarrow> nat \<Rightarrow> nat \<Rightarrow> string" where
  "build_signed_url X now base secret xorb_hex start end_inclusive =
     (let exp = now + SIGNATURE_TTL_SECS;
          sig = sign X secret \<lparr>sr_hash_hex = xorb_hex, sr_start = start,
                               sr_end_inclusive = end_inclusive, sr_exp = exp\<rparr>
      in base @ ''/xorb/default/'' @ xorb_hex @ ''?s='' @ show_nat start @ ''&e='' @
         show_nat end_inclusive @ ''&x='' @ show_nat exp @ ''&sig='' @ sig)"

section \<open>Quotas\<close>

definition effective_quota :: "'m meta_ops \<Rightarrow> nat option \<Rightarrow> string \<Rightarrow> 'm \<Rightarrow> api_error + nat option" where
  "effective_quota M dflt owner m =
     rbind (core (get_owner_quota M owner m)) (\<lambda>q.
       case q of Some n \<Rightarrow> Inr (Some n) | None \<Rightarrow> Inr dflt)"

definition quota_exceeded :: "string \<Rightarrow> nat \<Rightarrow> nat \<Rightarrow> nat \<Rightarrow> api_error" where
  "quota_exceeded owner used quota would_add =
     ApiError 429 (''storage quota exceeded for owner '' @ quoted owner @ '': '' @
       show_nat used @ '' bytes stored + '' @ show_nat would_add @ '' new would exceed the '' @
       show_nat quota @ ''-byte limit'')"

section \<open>Uploads\<close>

definition layout_rows :: "xorb_chunk_frame list \<Rightarrow> xorb_frame_row list" where
  "layout_rows frames =
     map (\<lambda>(i, f). \<lparr>xf_frame_index = word_of_nat i, xf_on_disk_start = xc_on_disk_start f,
                    xf_on_disk_len = xc_on_disk_len f, xf_uncompressed_len = xc_uncompressed_len f\<rparr>)
       (enumerate 0 frames)"

text \<open>The quota gate of an xorb upload: nothing to check without a quota or for a known xorb.\<close>

definition xorb_quota_check ::
  "('b, 'm) service \<Rightarrow> string \<Rightarrow> hash32 \<Rightarrow> bytes \<Rightarrow> 'b \<Rightarrow> 'm \<Rightarrow> api_error + unit" where
  "xorb_quota_check svc owner h body b m =
     rbind (effective_quota (svc_meta svc) (svc_default_quota_bytes svc) owner m) (\<lambda>q.
     case q of
       None \<Rightarrow> Inr ()
     | Some quota \<Rightarrow>
         rbind (core (xorb_exists (svc_blobs svc) h b)) (\<lambda>exists'.
         if exists' then Inr ()
         else
           rbind (core (stored_bytes_for_owner (svc_meta svc) owner m)) (\<lambda>used.
           let add = length body
           in if saturating_add used add > quota then Inl (quota_exceeded owner used quota add) else Inr ())))"

text \<open>The checks before anything is written: the decoded hash and the frame layout.\<close>

definition upload_xorb_checks ::
  "externals \<Rightarrow> ('b, 'm) service \<Rightarrow> token_claims \<Rightarrow> string \<Rightarrow> bytes \<Rightarrow> 'b \<Rightarrow> 'm \<Rightarrow>
   api_error + hash32 \<times> xorb_frame_row list" where
  "upload_xorb_checks X svc claims hash_hex body b m =
     rbind (decode_or_bad ''malformed xorb hash: '' hash_hex) (\<lambda>h.
     if length body > MAX_BODY_BYTES then Inl (bad_req ''xorb exceeds 64 MiB limit'')
     else
       rbind (xorb_quota_check svc (repo_owner (tc_repo claims)) h body b m) (\<lambda>_.
       rbind (rmap_err (\<lambda>e. bad_req (''malformed xorb body: '' @ xorb_parse_error_text e))
                (parse_xorb_frames body)) (\<lambda>frames.
       let layout = layout_rows frames in
       rbind (rmap_err (\<lambda>e. case e of
                  HashMismatch \<Rightarrow> bad_req ''xorb body does not match URL hash''
                | other \<Rightarrow> bad_req (''xorb body verification failed: '' @ xorb_verify_error_text other))
                (verify_xorb_body (x_decompress X) (x_data_hash X) (x_xorb_hash X) body h)) (\<lambda>_.
         Inr (h, layout)))))"

definition upload_xorb ::
  "externals \<Rightarrow> ('b, 'm) service \<Rightarrow> token_claims \<Rightarrow> string \<Rightarrow> bytes \<Rightarrow> 'b \<Rightarrow> 'm \<Rightarrow>
   (api_error + bool) \<times> 'b \<times> 'm" where
  "upload_xorb X svc claims hash_hex body b m =
     (case upload_xorb_checks X svc claims hash_hex body b m of
        Inl e \<Rightarrow> (Inl e, b, m)
      | Inr (h, layout) \<Rightarrow>
          (case register_xorb_layout (svc_meta svc) h layout m of
             (Inl e, m) \<Rightarrow> (Inl (api_of_core e), b, m)
           | (Inr _, m) \<Rightarrow>
               (case put_xorb (svc_blobs svc) h body b of
                  (r, b) \<Rightarrow> (core r, b, m))))"

text \<open>The gates of a shard upload, in the order of the handler.\<close>

definition require_xorb :: "('b, 'm) service \<Rightarrow> hash32 \<Rightarrow> 'b \<Rightarrow> api_error + unit" where
  "require_xorb svc h b =
     rbind (core (xorb_exists (svc_blobs svc) h b)) (\<lambda>ex.
       if ex then Inr () else Inl (bad_req (''shard references missing xorb '' @ hash_debug h)))"

fun check_cas_blocks :: "('b, 'm) service \<Rightarrow> parsed_cas_block list \<Rightarrow> 'b \<Rightarrow> api_error + unit" where
  "check_cas_blocks svc [] b = Inr ()"
| "check_cas_blocks svc (cb # cbs) b =
     rbind (require_xorb svc (cb_xorb cb) b) (\<lambda>_. check_cas_blocks svc cbs b)"

fun check_file_terms :: "('b, 'm) service \<Rightarrow> file_term_entry list \<Rightarrow> 'b \<Rightarrow> api_error + unit" where
  "check_file_terms svc [] b = Inr ()"
| "check_file_terms svc (e # es) b =
     rbind (require_xorb svc (fe_xorb e) b) (\<lambda>_.
     if fe_chunk_idx_start e \<ge> fe_chunk_idx_end e
     then Inl (bad_req (''shard file term has empty/inverted chunk range ['' @
            show_nat (unat (fe_chunk_idx_start e)) @ '', '' @ show_nat (unat (fe_chunk_idx_end e)) @ '')''))
     else check_file_terms svc es b)"

definition shard_entries :: "parsed_shard \<Rightarrow> file_term_entry list" where
  "shard_entries sh = concat (map pf_entries (ps_files sh))"

text \<open>Registering the xorbs of the shard: the on-disk size comes from the recorded layout if there is
  one. The sum of the frame lengths is a \<open>u32\<close> sum.\<close>

definition cas_block_info :: "(hash32 \<rightharpoonup> xorb_frame_row list) \<Rightarrow> parsed_cas_block \<Rightarrow> xorb_info" where
  "cas_block_info layouts cb =
     (let derived = (case layouts (cb_xorb cb) of
                       None \<Rightarrow> 0
                     | Some frames \<Rightarrow> sum_list (map xf_on_disk_len frames))
      in \<lparr>xi_xorb = cb_xorb cb, xi_num_chunks = word_of_nat (length (cb_chunks cb)),
          xi_num_bytes_in_cas = cb_num_bytes_in_cas cb,
          xi_num_bytes_on_disk = (if derived > 0 then derived else cb_num_bytes_on_disk cb)\<rparr>)"

definition cas_block_rows :: "parsed_cas_block \<Rightarrow> chunk_row list" where
  "cas_block_rows cb =
     map (\<lambda>(idx, c). \<lparr>cr_chunk_hash = cc_chunk_hash c, cr_chunk_index = word_of_nat idx,
                      cr_byte_start = cc_byte_start c,
                      cr_unpacked_segment_bytes = cc_unpacked_segment_bytes c\<rparr>)
       (enumerate 0 (cb_chunks cb))"

fun register_cas_blocks ::
  "'m meta_ops \<Rightarrow> (hash32 \<rightharpoonup> xorb_frame_row list) \<Rightarrow> parsed_cas_block list \<Rightarrow> 'm \<Rightarrow> (api_error + unit) \<times> 'm" where
  "register_cas_blocks M layouts [] m = (Inr (), m)"
| "register_cas_blocks M layouts (cb # cbs) m =
     (case register_xorb M (cas_block_info layouts cb) (cas_block_rows cb) m of
        (Inl e, m) \<Rightarrow> (Inl (api_of_core e), m)
      | (Inr _, m) \<Rightarrow> register_cas_blocks M layouts cbs m)"

definition shard_quota_check :: "('b, 'm) service \<Rightarrow> string \<Rightarrow> parsed_shard \<Rightarrow> 'm \<Rightarrow> api_error + unit" where
  "shard_quota_check svc owner sh m =
     rbind (effective_quota (svc_meta svc) (svc_default_quota_bytes svc) owner m) (\<lambda>q.
     case q of
       None \<Rightarrow> Inr ()
     | Some quota \<Rightarrow>
         let candidates = map fe_xorb (shard_entries sh) in
         rbind (core (stored_bytes_for_owner (svc_meta svc) owner m)) (\<lambda>used.
         rbind (core (unaccounted_xorb_bytes_for_owner (svc_meta svc) owner candidates m)) (\<lambda>delta.
           if saturating_add used delta > quota then Inl (quota_exceeded owner used quota delta) else Inr ())))"

definition shard_term :: "hash32 list \<Rightarrow> nat \<times> file_term_entry \<Rightarrow> file_term" where
  "shard_term verifications = (\<lambda>(idx, e).
     \<lparr>ft_xorb = fe_xorb e, ft_chunk_idx_start = fe_chunk_idx_start e, ft_chunk_idx_end = fe_chunk_idx_end e,
      ft_unpacked_segment_bytes = fe_unpacked_segment_bytes e,
      ft_verification = (if verifications \<noteq> [] then Some (verifications ! idx) else None)\<rparr>)"

definition file_to_register :: "parsed_file \<Rightarrow> api_error + hash32 \<times> file_term list" where
  "file_to_register f =
     (let has_verification = (pf_verifications f \<noteq> [])
      in if has_verification \<and> length (pf_verifications f) \<noteq> length (pf_entries f)
         then Inl (bad_req ''shard has verification entries but count != term count'')
         else Inr (pf_file_hash f, map (shard_term (pf_verifications f)) (enumerate 0 (pf_entries f))))"

definition shard_storage_hash :: "externals \<Rightarrow> bytes \<Rightarrow> hash32" where
  "shard_storage_hash X bs = Hash32 (x_blake3 X bs)"

definition upload_shard_checks ::
  "('b, 'm) service \<Rightarrow> bytes \<Rightarrow> 'b \<Rightarrow> 'm \<Rightarrow> api_error + parsed_shard \<times> (hash32 \<rightharpoonup> xorb_frame_row list)" where
  "upload_shard_checks svc body b m =
     (if length body > MAX_BODY_BYTES then Inl (bad_req ''shard exceeds 64 MiB limit'')
      else
        rbind (rmap_err (\<lambda>e. bad_req (''malformed shard: '' @ shard_error_text e)) (parse body)) (\<lambda>sh.
        rbind (check_cas_blocks svc (ps_cas_blocks sh) b) (\<lambda>_.
        rbind (check_file_terms svc (shard_entries sh) b) (\<lambda>_.
        rbind (core (xorb_frame_layouts (svc_meta svc) (map cb_xorb (ps_cas_blocks sh)) m)) (\<lambda>layouts.
          Inr (sh, layouts))))))"

definition upload_shard ::
  "externals \<Rightarrow> ('b, 'm) service \<Rightarrow> token_claims \<Rightarrow> bytes \<Rightarrow> 'b \<Rightarrow> 'm \<Rightarrow> (api_error + nat) \<times> 'b \<times> 'm" where
  "upload_shard X svc claims body b m =
     (case upload_shard_checks svc body b m of
        Inl e \<Rightarrow> (Inl e, b, m)
      | Inr (sh, layouts) \<Rightarrow>
          (case register_cas_blocks (svc_meta svc) layouts (ps_cas_blocks sh) m of
             (Inl e, m) \<Rightarrow> (Inl e, b, m)
           | (Inr _, m) \<Rightarrow>
               (case shard_quota_check svc (repo_owner (tc_repo claims)) sh m of
                  Inl e \<Rightarrow> (Inl e, b, m)
                | Inr _ \<Rightarrow>
                    (case rmapM file_to_register (ps_files sh) of
                       Inl e \<Rightarrow> (Inl e, b, m)
                     | Inr files \<Rightarrow>
                         (case put_shard (svc_blobs svc) (shard_storage_hash X body) body b of
                            (Inl e, b) \<Rightarrow> (Inl (api_of_core e), b, m)
                          | (Inr _, b) \<Rightarrow>
                              (case register_files (svc_meta svc) (tc_repo claims) files m of
                                 (Inl e, m) \<Rightarrow> (Inl (api_of_core e), b, m)
                               | (Inr _, m) \<Rightarrow> (Inr 1, b, m)))))))"

section \<open>Reconstruction\<close>

text \<open>The bytes of a term in its xorb, from the recorded layout: half open.\<close>

definition term_byte_range :: "xorb_frame_row list \<Rightarrow> file_term \<Rightarrow> nat \<times> nat" where
  "term_byte_range layout t =
     (let start_frame = layout ! unat (ft_chunk_idx_start t);
          last_frame = layout ! unat (ft_chunk_idx_end t - 1)
      in (unat (xf_on_disk_start start_frame),
          unat (xf_on_disk_start last_frame) + unat (xf_on_disk_len last_frame)))"

definition term_range_invalid :: "xorb_frame_row list \<Rightarrow> file_term \<Rightarrow> bool" where
  "term_range_invalid layout t \<longleftrightarrow>
     ft_chunk_idx_start t \<ge> ft_chunk_idx_end t \<or> unat (ft_chunk_idx_end t) > length layout"

definition layout_missing :: api_error where
  "layout_missing = ApiError 500 (''xorb on-disk layout missing '' @ [CHR 0xE2, CHR 0x80, CHR 0x94] @ '' upload predates layout indexing'')"

definition range_invalid :: api_error where
  "range_invalid = ApiError 500 ''term chunk range invalid or exceeds xorb's known frames''"

definition reconstruct_term ::
  "externals \<Rightarrow> ('b, 'm) service \<Rightarrow> nat \<Rightarrow> (hash32 \<rightharpoonup> xorb_frame_row list) \<Rightarrow> file_term \<Rightarrow> 'b \<Rightarrow>
   api_error + cas_reconstruction_term \<times> cas_reconstruction_fetch_info" where
  "reconstruct_term X svc now layouts t b =
     (let xorb_hex = encode_hash (ft_xorb t) in
      rbind (ok_or layout_missing (layouts (ft_xorb t))) (\<lambda>layout.
      if term_range_invalid layout t then Inl range_invalid
      else
        case term_byte_range layout t of (byte_start, byte_end) \<Rightarrow>
        let byte_end_inclusive = byte_end - 1;
            rng = \<lparr>rj_start = unat (ft_chunk_idx_start t), rj_end = unat (ft_chunk_idx_end t)\<rparr> in
        rbind (core (presign_xorb_range (svc_blobs svc) (ft_xorb t) byte_start (byte_end_inclusive + 1)
                 SIGNATURE_TTL_SECS b)) (\<lambda>presigned.
        let url = (case presigned of
                     Some u \<Rightarrow> u
                   | None \<Rightarrow> build_signed_url X now (svc_public_base_url svc) (svc_transfer_secret svc)
                               xorb_hex byte_start byte_end_inclusive)
        in Inr (\<lparr>rt_hash = xorb_hex, rt_unpacked_length = unat (ft_unpacked_segment_bytes t), rt_range = rng\<rparr>,
                \<lparr>fi_range = rng, fi_url = url,
                 fi_url_range = \<lparr>rj_start = byte_start, rj_end = byte_end_inclusive\<rparr>\<rparr>))))"

definition push_fetch_info ::
  "(string \<rightharpoonup> cas_reconstruction_fetch_info list) \<Rightarrow> cas_reconstruction_term \<times> cas_reconstruction_fetch_info \<Rightarrow>
   (string \<rightharpoonup> cas_reconstruction_fetch_info list)" where
  "push_fetch_info m = (\<lambda>(t, i).
     m(rt_hash t \<mapsto> (case m (rt_hash t) of None \<Rightarrow> [] | Some is \<Rightarrow> is) @ [i]))"

definition build_reconstruction_response ::
  "externals \<Rightarrow> ('b, 'm) service \<Rightarrow> nat \<Rightarrow> hash32 \<Rightarrow> 'b \<Rightarrow> 'm \<Rightarrow> api_error + query_reconstruction_response" where
  "build_reconstruction_response X svc now file_hash b m =
     rbind (core (lookup_file (svc_meta svc) file_hash m)) (\<lambda>found.
     rbind (ok_or (ApiError 404 ''file not found'') found) (\<lambda>terms.
     rbind (core (xorb_frame_layouts (svc_meta svc) (map ft_xorb terms) m)) (\<lambda>layouts.
     rbind (rmapM (\<lambda>t. reconstruct_term X svc now layouts t b) terms) (\<lambda>parts.
       Inr \<lparr>qr_offset_into_first_range = 0, qr_terms = map fst parts,
            qr_fetch_info = foldl push_fetch_info Map.empty parts\<rparr>))))"

definition get_reconstruction ::
  "externals \<Rightarrow> ('b, 'm) service \<Rightarrow> nat \<Rightarrow> token_claims \<Rightarrow> string \<Rightarrow> 'b \<Rightarrow> 'm \<Rightarrow>
   api_error + query_reconstruction_response" where
  "get_reconstruction X svc now claims file_hex b m =
     rbind (decode_or_bad ''malformed file id: '' file_hex) (\<lambda>file_hash.
     rbind (core (file_in_repo (svc_meta svc) file_hash (repo_id (tc_repo claims)) m)) (\<lambda>ok.
     if \<not> ok then Inl (ApiError 404 ''file not found'')
     else build_reconstruction_response X svc now file_hash b m))"

section \<open>Whole-file download\<close>

text \<open>The payload segment of a JWT, decoded without verifying it: the filename binding, if any.\<close>

definition extract_filename_sha256 :: "externals \<Rightarrow> string \<Rightarrow> string option" where
  "extract_filename_sha256 X token =
     (case split_once (CHR ''.'') token of
        None \<Rightarrow> None
      | Some (_, rest) \<Rightarrow>
          (let payload_b64 = (case split_once (CHR ''.'') rest of Some (p, _) \<Rightarrow> p | None \<Rightarrow> rest)
           in case x_base64_decode X payload_b64 of
                None \<Rightarrow> None
              | Some payload \<Rightarrow>
                  (case x_filename_claim X payload of
                     None \<Rightarrow> None
                   | Some claim \<Rightarrow> if claim = [] then None else Some claim)))"

definition parse_owner_name :: "string \<Rightarrow> api_error + repo_ref" where
  "parse_owner_name repo =
     rbind (ok_or (bad_req (''repo must be '' @ quoted ''owner/name'')) (split_once (CHR ''/'') repo))
       (\<lambda>(owner, name).
         if owner = [] \<or> name = [] then Inl (bad_req (''repo must be '' @ quoted ''owner/name''))
         else Inr \<lparr>repo_type_of = Model, repo_id = repo, revision = ''main''\<rparr>)"

definition fetch_and_decompress_term ::
  "externals \<Rightarrow> ('b, 'm) service \<Rightarrow> file_term \<Rightarrow> 'b \<Rightarrow> 'm \<Rightarrow> api_error + bytes" where
  "fetch_and_decompress_term X svc t b m =
     rbind (core (xorb_frame_layout (svc_meta svc) (ft_xorb t) m)) (\<lambda>layout.
     if layout = [] then Inl layout_missing
     else if term_range_invalid layout t then Inl range_invalid
     else
       case term_byte_range layout t of (byte_start, byte_end) \<Rightarrow>
       if unat (ft_unpacked_segment_bytes t) > MAX_TERM_UNPACKED_BYTES
       then Inl (ApiError 500 ''term unpacked size exceeds per-term cap'')
       else
         rbind (core (get_xorb_range (svc_blobs svc) (ft_xorb t) byte_start byte_end b)) (\<lambda>body.
         case decompress_xorb_chunks_into (x_decompress X) body [] of
           (Inl e, _) \<Rightarrow> Inl (ApiError 500 (''decompress term: '' @ xorb_verify_error_text e))
         | (Inr _, out) \<Rightarrow> Inr out))"

text \<open>The items the response stream yields: it ends after the first error.\<close>

fun download_stream ::
  "externals \<Rightarrow> ('b, 'm) service \<Rightarrow> file_term list \<Rightarrow> 'b \<Rightarrow> 'm \<Rightarrow> (string + bytes) list" where
  "download_stream X svc [] b m = []"
| "download_stream X svc (t # ts) b m =
     (case fetch_and_decompress_term X svc t b m of
        Inl e \<Rightarrow> [Inl (''term reconstruction failed: '' @ api_message e)]
      | Inr d \<Rightarrow> Inr d # download_stream X svc ts b m)"

definition sanitize_filename :: "string \<Rightarrow> string" where
  "sanitize_filename name =
     filter (\<lambda>c. \<not> (c = CHR 0x22 \<or> c = CHR 0x5C))
       (filter (\<lambda>c. (33 \<le> (of_char c :: nat) \<and> (of_char c :: nat) \<le> 126) \<or> c = CHR '' '') name)"

record file_response =
  fr_content_length :: nat
  fr_content_disposition :: "string option"
  fr_stream :: "(string + bytes) list"

definition validated_filename :: "externals \<Rightarrow> string option \<Rightarrow> string \<Rightarrow> api_error + string option" where
  "validated_filename X filename token =
     (case (filename, extract_filename_sha256 X token) of
        (Some name, Some claim) \<Rightarrow>
          (let got = x_hex_encode X (x_sha256 X (as_bytes name))
           in if \<not> ct_eq (as_bytes got) (as_bytes claim)
              then Inl (bad_req ''filename does not match token binding'')
              else Inr (Some name))
      | _ \<Rightarrow> Inr None)"

definition disposition_header :: "externals \<Rightarrow> string option \<Rightarrow> api_error + string option" where
  "disposition_header X name =
     (case name of
        None \<Rightarrow> Inr None
      | Some n \<Rightarrow>
          rbind (rmap_err (\<lambda>e. ApiError 400 (''filename: '' @ e))
                  (x_header_value X (''attachment; filename='' @ [CHR 0x22] @ sanitize_filename n @ [CHR 0x22])))
            (\<lambda>v. Inr (Some v)))"

definition get_file_download ::
  "externals \<Rightarrow> ('b, 'm) service \<Rightarrow> string \<Rightarrow> string \<Rightarrow> string \<Rightarrow> string option \<Rightarrow> 'b \<Rightarrow> 'm \<Rightarrow>
   api_error + file_response" where
  "get_file_download X svc file_hex token repo_name filename b m =
     rbind (decode_or_bad ''malformed file id: '' file_hex) (\<lambda>file_hash.
     rbind (parse_owner_name repo_name) (\<lambda>repo.
     rbind (core (check_repo_access (svc_authz svc) token repo Read)) (\<lambda>user.
     rbind (core (file_in_repo (svc_meta svc) file_hash (repo_id repo) m)) (\<lambda>ok.
     if \<not> ok then Inl (ApiError 404 ''file not found'')
     else
       rbind (validated_filename X filename token) (\<lambda>name.
       rbind (core (lookup_file (svc_meta svc) file_hash m)) (\<lambda>found.
       rbind (ok_or (ApiError 404 ''file not found'') found) (\<lambda>terms.
       rbind (disposition_header X name) (\<lambda>disp.
         Inr \<lparr>fr_content_length = terms_total terms, fr_content_disposition = disp,
              fr_stream = download_stream X svc terms b m\<rparr>))))))))"

section \<open>Deduplication\<close>

definition wrap_chunk_hash :: "externals \<Rightarrow> bytes \<Rightarrow> hash32 \<Rightarrow> hash32" where
  "wrap_chunk_hash X key c = Hash32 (x_hmac_sha256 X key (hash_bytes c))"

fun near_xorbs :: "('b, 'm) service \<Rightarrow> xorb_info list \<Rightarrow> 'b \<Rightarrow> api_error + xorb_info list" where
  "near_xorbs svc [] b = Inr []"
| "near_xorbs svc (x # xs) b =
     rbind (core (xorb_exists (svc_blobs svc) (xi_xorb x) b)) (\<lambda>ex.
     rbind (near_xorbs svc xs b) (\<lambda>rest. Inr (if ex then x # rest else rest)))"

definition dedup_block :: "externals \<Rightarrow> bytes \<Rightarrow> xorb_info \<Rightarrow> chunk_offset_row list \<Rightarrow> parsed_cas_block" where
  "dedup_block X key x chunks = \<lparr>
     cb_xorb = xi_xorb x, cb_cas_flags = 0, cb_num_bytes_in_cas = xi_num_bytes_in_cas x,
     cb_num_bytes_on_disk = xi_num_bytes_on_disk x,
     cb_chunks = map (\<lambda>c. \<lparr>cc_chunk_hash = wrap_chunk_hash X key (co_chunk_hash c),
                           cc_byte_start = co_byte_start c,
                           cc_unpacked_segment_bytes = co_unpacked_segment_bytes c\<rparr>) chunks\<rparr>"

definition dedup_shard :: "nat \<Rightarrow> bytes \<Rightarrow> parsed_cas_block list \<Rightarrow> parsed_shard" where
  "dedup_shard now key cas_blocks = \<lparr>
     ps_header = \<lparr>sh_tag = MDB_SHARD_HEADER_TAG, sh_version = MDB_SHARD_HEADER_VERSION,
                  sh_footer_size = word_of_nat FOOTER_SIZE\<rparr>,
     ps_files = [], ps_cas_blocks = cas_blocks,
     ps_footer = Some \<lparr>sf_version = MDB_SHARD_FOOTER_VERSION, sf_file_info_offset = 0,
                       sf_cas_info_offset = 0, sf_chunk_hash_hmac_key = Hash32 key,
                       sf_shard_creation_timestamp = word_of_nat now,
                       sf_shard_key_expiry = word_of_nat (now + DEDUP_KEY_TTL_SECS),
                       sf_footer_offset = 0\<rparr>\<rparr>"

definition get_dedup_chunk ::
  "externals \<Rightarrow> ('b, 'm) service \<Rightarrow> nat \<Rightarrow> bytes \<Rightarrow> string \<Rightarrow> 'b \<Rightarrow> 'm \<Rightarrow> api_error + bytes" where
  "get_dedup_chunk X svc now hmac_key hash_hex b m =
     rbind (decode_or_bad ''malformed chunk hash: '' hash_hex) (\<lambda>chunk_hash.
     rbind (core (xorbs_near_chunk (svc_meta svc) chunk_hash DEDUP_NEIGHBORHOOD m)) (\<lambda>candidates.
     rbind (near_xorbs svc candidates b) (\<lambda>near.
     if near = [] then Inl (ApiError 404 ''chunk not found'')
     else
       rbind (rmapM (\<lambda>x. rbind (core (xorb_chunk_offsets (svc_meta svc) (xi_xorb x) m)) (\<lambda>chunks.
                Inr (dedup_block X hmac_key x chunks))) near) (\<lambda>cas_blocks.
         Inr (serialize (dedup_shard now hmac_key cas_blocks))))))"

section \<open>Range transfer\<close>

text \<open>A present header whose bytes are no text is \<open>Some None\<close>.\<close>

definition parse_byte_range_header :: "string option \<Rightarrow> string + nat \<times> nat" where
  "parse_byte_range_header v =
     rbind (ok_or ''invalid Range header'' v) (\<lambda>s.
     rbind (ok_or (''expected '' @ quoted ''bytes='' @ '' prefix'') (strip_prefix ''bytes='' s)) (\<lambda>rest.
     rbind (ok_or (''expected '' @ quoted ''bytes=X-Y'') (split_once (CHR ''-'') rest)) (\<lambda>(x, y).
     rbind (ok_or ''bad start'' (parse_u64 (trim x))) (\<lambda>start.
     rbind (ok_or ''bad end'' (parse_u64 (trim y))) (\<lambda>end'.
       if end' < start then Inl ''inverted range'' else Inr (start, end'))))))"

record transfer_query =
  tq_s :: nat
  tq_e :: nat
  tq_x :: nat
  tq_sig :: string

record transfer_response =
  tr_status :: nat
  tr_body :: bytes
  tr_content_length :: nat
  tr_content_range :: string

definition get_xorb_transfer ::
  "externals \<Rightarrow> ('b, 'm) service \<Rightarrow> nat \<Rightarrow> string \<Rightarrow> transfer_query \<Rightarrow> string option option \<Rightarrow> 'b \<Rightarrow>
   api_error + transfer_response" where
  "get_xorb_transfer X svc now hash_hex q range_header b =
     rbind (decode_or_bad ''malformed xorb hash: '' hash_hex) (\<lambda>xorb_hash.
     let expected = sign X (svc_transfer_secret svc)
           \<lparr>sr_hash_hex = hash_hex, sr_start = tq_s q, sr_end_inclusive = tq_e q, sr_exp = tq_x q\<rparr>
     in if \<not> ct_eq (as_bytes expected) (as_bytes (tq_sig q)) then Inl (unauthorized ''bad signature'')
        else if tq_x q < now then Inl (unauthorized ''signature expired'')
        else
          rbind (ok_or (unauthorized ''Range header required'') range_header) (\<lambda>rh.
          rbind (rmap_err bad_req (parse_byte_range_header rh)) (\<lambda>(req_start, req_end_inclusive).
          if req_start \<noteq> tq_s q \<or> req_end_inclusive \<noteq> tq_e q
          then Inl (unauthorized ''Range header does not match signed range'')
          else
            rbind (core (get_xorb_range (svc_blobs svc) xorb_hash (tq_s q) ((tq_e q + 1) mod 2 ^ 64) b)) (\<lambda>bs.
            rbind (rmap_err (\<lambda>e. ApiError 500 (''content-range: '' @ e))
                    (x_header_value X (''bytes '' @ show_nat (tq_s q) @ ''-'' @ show_nat (tq_e q) @ ''/*'')))
              (\<lambda>content_range.
                Inr \<lparr>tr_status = 206, tr_body = bs, tr_content_length = length bs,
                     tr_content_range = content_range\<rparr>)))))"

section \<open>Tokens, usage and quotas\<close>

definition parse_hf_repo_type :: "string \<Rightarrow> api_error + repo_type" where
  "parse_hf_repo_type seg =
     (if seg = ''models'' then Inr Model
      else if seg = ''datasets'' then Inr Dataset
      else if seg = ''spaces'' then Inr Space
      else Inl (bad_req (''unknown repo type segment: '' @ seg)))"

definition parse_hf_token_scope :: "string \<Rightarrow> api_error + scope" where
  "parse_hf_token_scope seg =
     (if seg = ''bale-read-token'' then Inr Read
      else if seg = ''bale-write-token'' then Inr Write
      else Inl (bad_req (''unknown token segment: '' @ seg)))"

definition bearer_of :: "string option \<Rightarrow> string option" where
  "bearer_of authorization =
     (case authorization of None \<Rightarrow> None | Some v \<Rightarrow> strip_prefix ''Bearer '' v)"

definition issue_xet_token ::
  "('b, 'm) service \<Rightarrow> string \<Rightarrow> string \<Rightarrow> string \<Rightarrow> string \<Rightarrow> string \<Rightarrow> string option \<Rightarrow>
   api_error + xet_token_response" where
  "issue_xet_token svc type_seg ns name tok_seg rev' authorization =
     rbind (parse_hf_repo_type type_seg) (\<lambda>repo_type.
     rbind (parse_hf_token_scope tok_seg) (\<lambda>sc.
     let repo = \<lparr>repo_type_of = repo_type, repo_id = ns @ ''/'' @ name, revision = rev'\<rparr> in
     rbind (ok_or (unauthorized ''missing hub bearer token'') (bearer_of authorization)) (\<lambda>hub_bearer.
     rbind (core (check_repo_access (svc_authz svc) hub_bearer repo sc)) (\<lambda>user.
     rbind (core (mint_xet_token (svc_authz svc) user repo sc)) (\<lambda>(token, exp).
       Inr \<lparr>xt_access_token = token, xt_exp = exp, xt_cas_url = svc_public_base_url svc\<rparr>)))))"

definition require_admin_or_owner ::
  "externals \<Rightarrow> ('b, 'm) service \<Rightarrow> string option \<Rightarrow> string \<Rightarrow> api_error + unit" where
  "require_admin_or_owner X svc authorization owner =
     rbind (ok_or (unauthorized ''missing bearer'') (bearer_of authorization)) (\<lambda>bearer.
     let is_admin = (case (svc_admin_token svc, x_hex_decode X (trim bearer)) of
                       (Some admin, Some presented) \<Rightarrow> ct_eq presented admin
                     | _ \<Rightarrow> False)
     in if is_admin then Inr ()
        else
          rbind (core (verify_xet_token (svc_authz svc) bearer)) (\<lambda>claims.
          if repo_owner (tc_repo claims) \<noteq> owner
          then Inl (ApiError 403 ''token not scoped to this owner'')
          else Inr ()))"

definition get_owner_usage ::
  "externals \<Rightarrow> ('b, 'm) service \<Rightarrow> string \<Rightarrow> string option \<Rightarrow> 'm \<Rightarrow> api_error + owner_usage_response" where
  "get_owner_usage X svc owner authorization m =
     rbind (require_admin_or_owner X svc authorization owner) (\<lambda>_.
     rbind (core (raw_bytes_for_owner (svc_meta svc) owner m)) (\<lambda>raw.
     rbind (core (stored_bytes_for_owner (svc_meta svc) owner m)) (\<lambda>stored.
     rbind (effective_quota (svc_meta svc) (svc_default_quota_bytes svc) owner m) (\<lambda>quota.
       Inr \<lparr>ou_owner = owner, ou_raw_bytes = raw, ou_stored_bytes = stored,
            ou_dedup_savings_bytes = raw - stored, ou_quota_bytes = quota\<rparr>))))"

definition get_repo_usage ::
  "externals \<Rightarrow> ('b, 'm) service \<Rightarrow> string \<Rightarrow> string \<Rightarrow> string option \<Rightarrow> 'm \<Rightarrow> api_error + repo_usage_response" where
  "get_repo_usage X svc owner repo authorization m =
     rbind (require_admin_or_owner X svc authorization owner) (\<lambda>_.
     let rid = owner @ ''/'' @ repo in
     rbind (core (raw_bytes_for_repo (svc_meta svc) rid m)) (\<lambda>raw.
     rbind (core (stored_bytes_for_repo (svc_meta svc) rid m)) (\<lambda>stored.
     rbind (core (exclusive_stored_bytes_for_repo (svc_meta svc) rid m)) (\<lambda>exclusive.
       Inr \<lparr>ru_repo_id = rid, ru_raw_bytes = raw, ru_stored_bytes = stored,
            ru_dedup_savings_bytes = raw - stored, ru_exclusive_bytes = exclusive\<rparr>))))"

definition put_owner_quota ::
  "externals \<Rightarrow> ('b, 'm) service \<Rightarrow> string \<Rightarrow> string option \<Rightarrow> nat option \<Rightarrow> 'm \<Rightarrow> (api_error + nat) \<times> 'm" where
  "put_owner_quota X svc owner authorization limit_bytes m =
     (case rbind (ok_or (ApiError 404 ''admin endpoint disabled'') (svc_admin_token svc)) (\<lambda>admin.
           rbind (ok_or (unauthorized ''missing admin bearer'') (bearer_of authorization)) (\<lambda>raw.
           rbind (ok_or (unauthorized ''admin token not hex'') (x_hex_decode X (trim raw))) (\<lambda>presented.
             if \<not> ct_eq presented admin then Inl (unauthorized ''bad admin token'') else Inr ())))
      of Inl e \<Rightarrow> (Inl e, m)
       | Inr _ \<Rightarrow>
           (case set_owner_quota (svc_meta svc) owner limit_bytes m of
              (Inl e, m) \<Rightarrow> (Inl (api_of_core e), m)
            | (Inr _, m) \<Rightarrow> (Inr 204, m)))"

end
