(* ===== verification/Http_Contract.thy ===== *)
theory Http_Contract
  imports Http_Server
begin

text \<open>
  What the handlers guarantee over any blob store and any layout store that keep their contracts. The
  central notion is agreement of the two stores: every stored body verifies against its hash, the recorded
  layout is the layout of that body, and no layout is recorded without a body.
\<close>

section \<open>Agreement of the stores\<close>

definition verified :: "externals \<Rightarrow> hash32 \<Rightarrow> bytes \<Rightarrow> bool" where
  "verified X h body \<longleftrightarrow> verify_xorb_body (x_decompress X) (x_data_hash X) (x_xorb_hash X) body h = Inr ()"

definition body_layout :: "bytes \<Rightarrow> xorb_frame_row list" where
  "body_layout body = (case parse_xorb_frames body of Inr fs \<Rightarrow> layout_rows fs | Inl _ \<Rightarrow> [])"

definition stores_agree :: "externals \<Rightarrow> (hash32 \<rightharpoonup> bytes) \<Rightarrow> (hash32 \<Rightarrow> xorb_frame_row list) \<Rightarrow> bool" where
  "stores_agree X xs lay \<longleftrightarrow>
     (\<forall>h body. xs h = Some body \<longrightarrow> verified X h body \<and> length body \<le> MAX_BODY_BYTES \<and> lay h = body_layout body) \<and>
     (\<forall>h. lay h \<noteq> [] \<longrightarrow> xs h \<noteq> None)"

text \<open>What is used of the Merkle hash of an xorb: it determines the number of chunks.\<close>

definition binds_count :: "externals \<Rightarrow> bool" where
  "binds_count X \<longleftrightarrow> (\<forall>a b. length a < 2 ^ 32 \<and> length b < 2 ^ 32 \<and> x_xorb_hash X a = x_xorb_hash X b \<longrightarrow>
     length a = length b)"

text \<open>Chunk contents with the given xorb hash.\<close>

definition contents_of :: "externals \<Rightarrow> hash32 \<Rightarrow> bytes list \<Rightarrow> bool" where
  "contents_of X h ds \<longleftrightarrow> x_xorb_hash X (map (\<lambda>d. (x_data_hash X d, length d)) ds) = h"

lemma length_layout_rows [simp]: "length (layout_rows fs) = length fs"
  by (simp add: layout_rows_def)

lemma layout_rows_nth:
  "i < length fs \<Longrightarrow> layout_rows fs ! i =
     \<lparr>xf_frame_index = word_of_nat i, xf_on_disk_start = xc_on_disk_start (fs ! i),
      xf_on_disk_len = xc_on_disk_len (fs ! i), xf_uncompressed_len = xc_uncompressed_len (fs ! i)\<rparr>"
  by (simp add: layout_rows_def nth_enumerate_eq)

lemma frames_bound:
  assumes "parse_xorb_frames body = Inr frames" and "length body \<le> MAX_BODY_BYTES"
  shows "length frames < 2 ^ 32"
  using frames_count [OF assms(1)] assms(2) by (simp add: HEADER_LEN_def MAX_BODY_BYTES_def)

lemma indexed_layout_rows:
  assumes "length fs < 2 ^ 32"
  shows "indexed_rows (layout_rows fs)"
  unfolding indexed_rows_def
  by (rule nth_equalityI) (use assms in \<open>simp_all add: layout_rows_nth unat_of_nat\<close>)

lemma verified_parse:
  assumes "verified X h body"
  obtains frames where "parse_xorb_frames body = Inr frames"
  using assms by (auto simp: verified_def verify_xorb_body_def rbind_eq_Inr rmap_err_eq_Inr)

lemma term_range_layout:
  assumes "\<not> term_range_invalid (layout_rows fs) t"
  shows "term_byte_range (layout_rows fs) t = frames_range fs (unat (ft_chunk_idx_start t)) (unat (ft_chunk_idx_end t))
    \<and> unat (ft_chunk_idx_start t) < unat (ft_chunk_idx_end t) \<and> unat (ft_chunk_idx_end t) \<le> length fs"
proof -
  have ij: "unat (ft_chunk_idx_start t) < unat (ft_chunk_idx_end t)" "unat (ft_chunk_idx_end t) \<le> length fs"
    using assms by (simp_all add: term_range_invalid_def word_less_nat_alt not_le)
  then have "unat (ft_chunk_idx_end t - 1) = unat (ft_chunk_idx_end t) - 1"
    by (metis One_nat_def Suc_leI less_nat_zero_code unat_1 unat_gt_0 unat_sub word_le_nat_alt bot_nat_0.not_eq_extremum)
  with ij show ?thesis by (simp add: term_byte_range_def frames_range_def layout_rows_nth Let_def)
qed

section \<open>Uploads\<close>

lemma checks_Inr:
  assumes "upload_xorb_checks X svc claims hash_hex body b m = Inr (h, rows)"
  shows "decode_hash hash_hex = Inr h \<and> length body \<le> MAX_BODY_BYTES \<and> verified X h body \<and>
    rows = body_layout body \<and> indexed_rows rows \<and> rows \<noteq> [] \<and>
    xorb_quota_check svc (repo_owner (tc_repo claims)) h body b m = Inr ()"
proof -
  from assms obtain frames where
    h: "decode_hash hash_hex = Inr h" and len: "length body \<le> MAX_BODY_BYTES" and
    q: "xorb_quota_check svc (repo_owner (tc_repo claims)) h body b m = Inr ()" and
    fs: "parse_xorb_frames body = Inr frames" and v: "verified X h body" and rows: "rows = layout_rows frames"
    by (auto simp: upload_xorb_checks_def decode_or_bad_def verified_def Let_def rbind_eq_Inr rmap_err_eq_Inr
        split: if_splits)
  from fs have "frames \<noteq> []" by (auto simp: parse_xorb_frames_def rbind_eq_Inr split: if_splits)
  then have "rows \<noteq> []" unfolding rows by (metis length_0_conv length_layout_rows)
  with h len q fs v rows indexed_layout_rows [OF frames_bound [OF fs len]] show ?thesis
    by (simp add: body_layout_def)
qed

lemma verified_contents_of:
  assumes "verified X h body" and "parse_xorb_frames body = Inr frames"
  obtains ds where "contents_of X h ds" "length ds = length frames"
    "\<And>i j out. i < j \<Longrightarrow> j \<le> length frames \<Longrightarrow>
       decompress_xorb_chunks_into (x_decompress X) (frames_slice body frames i j) out =
       (Inr (), out @ concat (take (j - i) (drop i ds)))"
proof -
  from verified_contents [OF assms(1) [unfolded verified_def] assms(2)]
  obtain ds where ds: "length ds = length frames" "contents_of X h ds"
    "\<forall>i j out. i < j \<and> j \<le> length frames \<longrightarrow>
       decompress_xorb_chunks_into (x_decompress X) (frames_slice body frames i j) out =
       (Inr (), out @ concat (take (j - i) (drop i ds)))"
    unfolding contents_of_def by blast
  show ?thesis by (rule that [OF ds(2,1)]) (use ds(3) in blast)
qed

lemma same_count:
  assumes "binds_count X" and "verified X h body" and "verified X h body'"
    and "length body \<le> MAX_BODY_BYTES" and "length body' \<le> MAX_BODY_BYTES"
  shows "length (body_layout body) = length (body_layout body')"
proof -
  obtain fs fs' where fs: "parse_xorb_frames body = Inr fs" "parse_xorb_frames body' = Inr fs'"
    using assms(2,3) verified_parse by metis
  obtain ds ds' where ds: "contents_of X h ds" "length ds = length fs" "contents_of X h ds'" "length ds' = length fs'"
    using verified_contents_of [OF assms(2) fs(1)] verified_contents_of [OF assms(3) fs(2)] by metis
  let ?e = "map (\<lambda>d. (x_data_hash X d, length d))"
  have "length (?e ds) < 2 ^ 32" "length (?e ds') < 2 ^ 32"
    using frames_bound [OF fs(1) assms(4)] frames_bound [OF fs(2) assms(5)] ds(2,4) by simp_all
  moreover have "x_xorb_hash X (?e ds) = x_xorb_hash X (?e ds')"
    using ds(1,3) by (simp add: contents_of_def)
  ultimately have "length (?e ds) = length (?e ds')"
    using assms(1) [unfolded binds_count_def, rule_format, of "?e ds" "?e ds'"] by blast
  with fs ds(2,4) show ?thesis by (simp add: body_layout_def)
qed

lemma agree_indexed:
  assumes "stores_agree X xs lay" and "xs h = Some body"
  shows "indexed_rows (lay h)"
proof -
  have "lay h = body_layout body" "length body \<le> MAX_BODY_BYTES" "verified X h body"
    using assms by (auto simp: stores_agree_def)
  then show ?thesis
    using verified_parse [of X h body] frames_bound indexed_layout_rows by (metis body_layout_def sum.simps(6))
qed

lemma upload_xorb_InrE:
  assumes "upload_xorb X svc claims hash_hex body b m = (Inr fresh, b', m')"
  obtains h rows where "upload_xorb_checks X svc claims hash_hex body b m = Inr (h, rows)"
    "register_xorb_layout (svc_meta svc) h rows m = (Inr (), m')" "put_xorb (svc_blobs svc) h body b = (Inr fresh, b')"
  using assms
  by (auto simp: upload_xorb_def core_def rmap_err_eq_Inr split: sum.splits prod.splits)

text \<open>The four ways a shard upload can end.\<close>

lemma upload_shard_cases:
  assumes "upload_shard X svc claims body b m = (r, b', m')"
  obtains (refused) e where "r = Inl e" "b' = b" "m' = m"
  | (registered) sh layouts rr e where "upload_shard_checks svc body b m = Inr (sh, layouts)"
      "register_cas_blocks (svc_meta svc) layouts (ps_cas_blocks sh) m = (rr, m')" "b' = b" "r = Inl e"
  | (unstored) sh layouts e e' where "upload_shard_checks svc body b m = Inr (sh, layouts)"
      "register_cas_blocks (svc_meta svc) layouts (ps_cas_blocks sh) m = (Inr (), m')"
      "put_shard (svc_blobs svc) (shard_storage_hash X body) body b = (Inl e', b')" "r = Inl e"
  | (stored) sh layouts m1 files rf where "upload_shard_checks svc body b m = Inr (sh, layouts)"
      "register_cas_blocks (svc_meta svc) layouts (ps_cas_blocks sh) m = (Inr (), m1)"
      "shard_quota_check svc (repo_owner (tc_repo claims)) sh m1 = Inr ()"
      "rmapM file_to_register (ps_files sh) = Inr files"
      "put_shard (svc_blobs svc) (shard_storage_hash X body) body b = (Inr (), b')"
      "register_files (svc_meta svc) (tc_repo claims) files m1 = (rf, m')"
      "r = (case rf of Inl e \<Rightarrow> Inl (api_of_core e) | Inr _ \<Rightarrow> Inr 1)"
proof (cases "upload_shard_checks svc body b m")
  case (Inl e)
  with assms show thesis by (intro refused) (auto simp: upload_shard_def)
next
  case (Inr p)
  obtain sh layouts where chk: "upload_shard_checks svc body b m = Inr (sh, layouts)" using Inr by (cases p) simp
  obtain rr m1 where cas: "register_cas_blocks (svc_meta svc) layouts (ps_cas_blocks sh) m = (rr, m1)"
    by (cases "register_cas_blocks (svc_meta svc) layouts (ps_cas_blocks sh) m")
  obtain rs b1 where put: "put_shard (svc_blobs svc) (shard_storage_hash X body) body b = (rs, b1)"
    by (cases "put_shard (svc_blobs svc) (shard_storage_hash X body) body b")
  show thesis
  proof (cases "(\<exists>e. rr = Inl e) \<or> (\<exists>e. shard_quota_check svc (repo_owner (tc_repo claims)) sh m1 = Inl e) \<or>
      (\<exists>e. rmapM file_to_register (ps_files sh) = Inl e)")
    case True
    with assms chk cas registered show ?thesis by (auto simp: upload_shard_def split: sum.splits prod.splits)
  next
    case False
    then obtain files where ok: "rr = Inr ()" "shard_quota_check svc (repo_owner (tc_repo claims)) sh m1 = Inr ()"
        "rmapM file_to_register (ps_files sh) = Inr files"
      by (metis (full_types) old.unit.exhaust sum.exhaust)
    show ?thesis
    proof (cases rs)
      case (Inl e)
      with assms chk cas put ok unstored show ?thesis by (auto simp: upload_shard_def)
    next
      case (Inr u)
      with assms chk cas put ok show ?thesis
        using stored [of sh layouts m1 files "fst (register_files (svc_meta svc) (tc_repo claims) files m1)"]
        by (auto simp: upload_shard_def split: sum.splits prod.splits)
    qed
  qed
qed

lemma shard_checks_Inr:
  assumes "upload_shard_checks svc body b m = Inr (sh, layouts)"
  shows "parse body = Inr sh \<and> check_cas_blocks svc (ps_cas_blocks sh) b = Inr () \<and>
    check_file_terms svc (shard_entries sh) b = Inr () \<and>
    xorb_frame_layouts (svc_meta svc) (map cb_xorb (ps_cas_blocks sh)) m = Inr layouts"
  using assms
  by (auto simp: upload_shard_checks_def core_def rbind_eq_Inr rmap_err_eq_Inr split: if_splits)

lemma register_cas_blocks_keeps:
  assumes "\<And>cb m r m'. cb \<in> set cbs \<Longrightarrow> I m \<Longrightarrow>
      register_xorb M (cas_block_info layouts cb) (cas_block_rows cb) m = (r, m') \<Longrightarrow> I m'"
    and "register_cas_blocks M layouts cbs m = (r, m')" and "I m"
  shows "I m'"
  using assms
proof (induction cbs arbitrary: m)
  case (Cons cb cbs)
  obtain r1 m1 where reg: "register_xorb M (cas_block_info layouts cb) (cas_block_rows cb) m = (r1, m1)"
    by (cases "register_xorb M (cas_block_info layouts cb) (cas_block_rows cb) m")
  with Cons.prems have "I m1" by (meson list.set_intros(1))
  moreover have "r1 = Inr () \<Longrightarrow> register_cas_blocks M layouts cbs m1 = (r, m')"
      "\<And>e. r1 = Inl e \<Longrightarrow> m' = m1"
    using Cons.prems(2) reg by simp_all
  ultimately show ?case
    using Cons.IH [of m1] Cons.prems(1) by (cases r1) (auto simp: old.unit.exhaust)
qed simp

lemma cas_block_wf:
  assumes "wf_cas_block cb"
  shows "wf_hash (xi_xorb (cas_block_info layouts cb))" "list_all (\<lambda>c. wf_hash (cr_chunk_hash c)) (cas_block_rows cb)"
  using assms
  by (auto simp: wf_cas_block_def cas_block_info_def cas_block_rows_def list_all_iff in_set_enumerate_eq Let_def)

text \<open>The terms registered for a file of the shard.\<close>

definition shard_file_terms :: "parsed_file \<Rightarrow> file_term list" where
  "shard_file_terms f = map (shard_term (pf_verifications f)) (enumerate 0 (pf_entries f))"

lemma file_to_register_wf:
  assumes "wf_shard_file f"
  shows "file_to_register f = Inr (pf_file_hash f, shard_file_terms f)"
  using assms by (auto simp: file_to_register_def shard_file_terms_def wf_shard_file_def Let_def split: if_splits)

lemma files_to_register:
  assumes "list_all wf_shard_file fs"
  shows "rmapM file_to_register fs = Inr (map (\<lambda>f. (pf_file_hash f, shard_file_terms f)) fs)"
  using assms file_to_register_wf by (intro rmapM_Inr) (simp add: list_all_iff)

lemma shard_file_terms_wf:
  assumes "wf_shard_file f"
  shows "list_all wf_term (shard_file_terms f) \<and> length (shard_file_terms f) \<le> nat i64_max"
proof -
  have "list_all (\<lambda>e. wf_hash (fe_xorb e)) (pf_entries f)" "length (pf_entries f) \<le> u32_max"
    and "list_all wf_hash (pf_verifications f)"
    and "pf_verifications f \<noteq> [] \<longrightarrow> length (pf_verifications f) = length (pf_entries f)"
    using assms by (auto simp: wf_shard_file_def split: if_splits)
  then show ?thesis
    by (auto simp: shard_file_terms_def shard_term_def list_all_iff in_set_enumerate_eq wf_term_def
        u32_max_def i64_max_def)
qed

lemma shard_files_wf:
  "list_all wf_shard_file fs \<Longrightarrow> wf_files (map (\<lambda>f. (pf_file_hash f, shard_file_terms f)) fs)"
  using shard_file_terms_wf by (auto simp: wf_files_def list_all_iff wf_shard_file_def)

lemma set_shard_file_terms:
  "t \<in> set (shard_file_terms f) \<Longrightarrow> \<exists>e \<in> set (pf_entries f). ft_xorb t = fe_xorb e \<and>
     ft_chunk_idx_start t = fe_chunk_idx_start e \<and> ft_chunk_idx_end t = fe_chunk_idx_end e"
  by (auto simp: shard_file_terms_def shard_term_def in_set_enumerate_eq)

lemma case_out_Inr:
  "(case p of (Inl e, _) \<Rightarrow> Inl (f e) | (Inr u, out) \<Rightarrow> Inr out) = Inr d \<longleftrightarrow> p = (Inr (), d)"
  by (auto split: prod.splits sum.splits)

lemma fetch_term_InrE:
  assumes "fetch_and_decompress_term X svc t b m = Inr d"
  obtains rows got where "xorb_frame_layout (svc_meta svc) (ft_xorb t) m = Inr rows" "rows \<noteq> []"
    "\<not> term_range_invalid rows t" "unat (ft_unpacked_segment_bytes t) \<le> MAX_TERM_UNPACKED_BYTES"
    "get_xorb_range (svc_blobs svc) (ft_xorb t) (fst (term_byte_range rows t)) (snd (term_byte_range rows t)) b = Inr got"
    "decompress_xorb_chunks_into (x_decompress X) got [] = (Inr (), d)"
  using assms
  unfolding fetch_and_decompress_term_def core_def rbind_eq_Inr rmap_err_eq_Inr
  by (simp add: case_prod_beta [where p = "term_byte_range _ _"] rbind_eq_Inr rmap_err_eq_Inr case_out_Inr not_less
      split: if_splits) blast

locale cas_server = blob_store B xorbs + layout_store M layout ok
  for B :: "'b blob_ops" and xorbs and M :: "'m meta_ops" and layout ok
begin

lemma upload_xorb_agree:
  assumes svc: "svc_blobs svc = B" "svc_meta svc = M"
    and agree: "stores_agree X (xorbs b) (layout m)" "ok m" "binds_count X"
    and up: "upload_xorb X svc claims hash_hex body b m = (Inr fresh, b', m')"
  shows "stores_agree X (xorbs b') (layout m')"
proof -
  obtain h rows where chk: "upload_xorb_checks X svc claims hash_hex body b m = Inr (h, rows)"
    and reg: "register_xorb_layout M h rows m = (Inr (), m')" and put: "put_xorb B h body b = (Inr fresh, b')"
    using upload_xorb_InrE [OF up] svc by metis
  note c = checks_Inr [OF chk]
  show ?thesis
  proof (cases fresh)
    case True
    with put have b': "xorbs b h = None" "xorbs b' = (xorbs b)(h \<mapsto> body)"
      using put_xorb_True [of h body b b'] by simp_all
    with agree(1) have "layout m h = []" by (auto simp: stores_agree_def)
    with c reg agree(2) have "layout m' = (layout m)(h := body_layout body)"
      using layout_new [of m rows h "()" m'] by metis
    with b' c agree(1) show ?thesis by (auto simp: stores_agree_def)
  next
    case False
    with put obtain old where old: "xorbs b h = Some old" "xorbs b' = xorbs b"
      using put_xorb_False [of h body b b'] by auto
    with agree(1) have v: "verified X h old" "length old \<le> MAX_BODY_BYTES" "layout m h = body_layout old"
      by (auto simp: stores_agree_def)
    have "layout m' = layout m"
      using layout_known [of m rows h "()" m'] agree(2) c reg agree_indexed [OF agree(1) old(1)]
        same_count [OF agree(3) v(1)] v by metis
    with old(2) agree(1) show ?thesis by simp
  qed
qed

lemma upload_xorb_stores:
  assumes svc: "svc_blobs svc = B" and up: "upload_xorb X svc claims hash_hex body b m = (Inr fresh, b', m')"
  obtains h where "decode_hash hash_hex = Inr h" "verified X h body"
    "if fresh then xorbs b h = None \<and> xorbs b' = (xorbs b)(h \<mapsto> body) else xorbs b h \<noteq> None \<and> xorbs b' = xorbs b"
proof -
  obtain h rows where c: "upload_xorb_checks X svc claims hash_hex body b m = Inr (h, rows)"
    and put: "put_xorb B h body b = (Inr fresh, b')"
    using upload_xorb_InrE [OF up] svc by metis
  have "decode_hash hash_hex = Inr h" "verified X h body" using checks_Inr [OF c] by blast+
  then show ?thesis
  proof (rule that)
    show "if fresh then xorbs b h = None \<and> xorbs b' = (xorbs b)(h \<mapsto> body) else xorbs b h \<noteq> None \<and> xorbs b' = xorbs b"
      using put put_xorb_True [of h body b b'] put_xorb_False [of h body b b'] by (cases fresh) simp_all
  qed
qed

lemma upload_xorb_failed:
  assumes svc: "svc_blobs svc = B" "svc_meta svc = M"
    and up: "upload_xorb X svc claims hash_hex body b m = (Inl e, b', m')"
    and put: "\<And>h. \<exists>f b2. put_xorb B h body b = (Inr f, b2)"
  shows "b' = b \<and> layout m' = layout m"
proof (cases "upload_xorb_checks X svc claims hash_hex body b m")
  case (Inl e')
  with up show ?thesis by (simp add: upload_xorb_def)
next
  case (Inr p)
  obtain h rows where p: "p = (h, rows)" by (cases p)
  obtain r m2 where reg: "register_xorb_layout M h rows m = (r, m2)" by (cases "register_xorb_layout M h rows m")
  show ?thesis
  proof (cases r)
    case (Inl e')
    with layout_failed reg have "layout m2 = layout m" by blast
    with Inl up Inr p reg svc show ?thesis by (auto simp: upload_xorb_def)
  next
    case (Inr u)
    obtain f b2 where "put_xorb B h body b = (Inr f, b2)" using put by blast
    with Inr up \<open>upload_xorb_checks X svc claims hash_hex body b m = Inr p\<close> p reg svc show ?thesis
      by (auto simp: upload_xorb_def core_def)
  qed
qed

lemma upload_xorb_ok:
  assumes "svc_meta svc = M" and "ok m" and "upload_xorb X svc claims hash_hex body b m = (r, b', m')"
  shows "ok m'"
proof (cases "upload_xorb_checks X svc claims hash_hex body b m")
  case (Inl e)
  with assms show ?thesis by (simp add: upload_xorb_def)
next
  case (Inr p)
  obtain h rows where p: "p = (h, rows)" by (cases p)
  have "wf_hash h" using checks_Inr [of X svc claims hash_hex body b m h rows] decode_hash_wf Inr p by blast
  moreover obtain r2 where "register_xorb_layout M h rows m = (r2, m')"
    using assms(1,3) Inr p by (auto simp: upload_xorb_def split: sum.splits prod.splits)
  ultimately show ?thesis using assms(2) ok_layout by blast
qed

lemma upload_shard_keeps:
  assumes svc: "svc_blobs svc = B" "svc_meta svc = M" and up: "upload_shard X svc claims body b m = (r, b', m')"
  shows "xorbs b' = xorbs b \<and> layout m' = layout m"
proof -
  have cas: "layout m2 = layout m1" if "register_cas_blocks M layouts cbs m1 = (rr, m2)" for layouts cbs m1 rr m2
    using register_cas_blocks_keeps [OF _ that, where I = "\<lambda>x. layout x = layout m1"] layout_register_xorb
    by metis
  from up show ?thesis
  proof (cases rule: upload_shard_cases)
    case (unstored sh layouts e e')
    then show ?thesis using cas put_shard_xorbs svc by metis
  next
    case (stored sh layouts m1 files rf)
    then show ?thesis using cas put_shard_xorbs layout_register_files svc by metis
  qed (use cas svc in auto)
qed

lemma upload_shard_ok:
  assumes svc: "svc_meta svc = M" and ok: "ok m" and up: "upload_shard X svc claims body b m = (r, b', m')"
  shows "ok m'"
proof -
  have cas: "ok m2" if "upload_shard_checks svc body b m = Inr (sh, layouts)"
    "register_cas_blocks M layouts (ps_cas_blocks sh) m = (rr, m2)" for sh layouts rr m2
  proof (rule register_cas_blocks_keeps [where I = ok, OF _ that(2) ok])
    fix cb m r m'
    assume "cb \<in> set (ps_cas_blocks sh)" "ok m"
      and reg: "register_xorb M (cas_block_info layouts cb) (cas_block_rows cb) m = (r, m')"
    moreover have "wf_shard sh" using shard_checks_Inr [OF that(1)] parse_wf_length by blast
    ultimately have "wf_cas_block cb" by (auto simp: wf_shard_def list_all_iff)
    with \<open>ok m\<close> reg show "ok m'" using ok_register_xorb cas_block_wf by blast
  qed
  from up show ?thesis
  proof (cases rule: upload_shard_cases)
    case (stored sh layouts m1 files rf)
    have "list_all wf_shard_file (ps_files sh)"
      using shard_checks_Inr [OF stored(1)] parse_wf_length by (auto simp: wf_shard_def)
    then have "wf_files files" using files_to_register shard_files_wf stored(4) by force
    moreover have "ok m1" using cas [OF stored(1)] stored(2) svc by simp
    ultimately show ?thesis using stored(6) ok_register_files svc by metis
  qed (use cas svc ok in auto)
qed

text \<open>Every xorb a shard names is stored, and its terms have proper ranges.\<close>

lemma require_xorb_stored: "svc_blobs svc = B \<Longrightarrow> require_xorb svc h b = Inr () \<Longrightarrow> xorbs b h \<noteq> None"
  using xorb_exists_iff by (auto simp: require_xorb_def core_def rbind_eq_Inr rmap_err_eq_Inr split: if_splits)

lemma checked_blocks:
  assumes "svc_blobs svc = B"
  shows "check_cas_blocks svc cbs b = Inr () \<Longrightarrow> cb \<in> set cbs \<Longrightarrow> xorbs b (cb_xorb cb) \<noteq> None"
  using require_xorb_stored [OF assms] by (induction cbs) (auto simp: rbind_eq_Inr)

lemma checked_terms:
  assumes "svc_blobs svc = B"
  shows "check_file_terms svc es b = Inr () \<Longrightarrow> e \<in> set es \<Longrightarrow>
    xorbs b (fe_xorb e) \<noteq> None \<and> fe_chunk_idx_start e < fe_chunk_idx_end e"
  using require_xorb_stored [OF assms] by (induction es) (auto simp: rbind_eq_Inr not_le split: if_splits)

section \<open>Reads\<close>

text \<open>The bytes of a term whose range fits its xorb, in states where the stores agree.\<close>

lemma term_slice:
  assumes "stores_agree X (xorbs b) (layout m)" and "layout m (ft_xorb t) \<noteq> []"
    and "\<not> term_range_invalid (layout m (ft_xorb t)) t"
  obtains body frames ds where "xorbs b (ft_xorb t) = Some body" "parse_xorb_frames body = Inr frames"
    "layout m (ft_xorb t) = layout_rows frames"
    "term_byte_range (layout m (ft_xorb t)) t = frames_range frames (unat (ft_chunk_idx_start t)) (unat (ft_chunk_idx_end t))"
    "unat (ft_chunk_idx_start t) < unat (ft_chunk_idx_end t)" "unat (ft_chunk_idx_end t) \<le> length frames"
    "contents_of X (ft_xorb t) ds" "length ds = length frames"
    "\<And>out. decompress_xorb_chunks_into (x_decompress X)
        (frames_slice body frames (unat (ft_chunk_idx_start t)) (unat (ft_chunk_idx_end t))) out =
      (Inr (), out @ concat (take (unat (ft_chunk_idx_end t) - unat (ft_chunk_idx_start t))
                              (drop (unat (ft_chunk_idx_start t)) ds)))"
proof -
  obtain body where body: "xorbs b (ft_xorb t) = Some body" "verified X (ft_xorb t) body"
      "layout m (ft_xorb t) = body_layout body"
    using assms(1,2) by (auto simp: stores_agree_def)
  obtain frames where fs: "parse_xorb_frames body = Inr frames" using body(2) verified_parse by blast
  then have lay: "layout m (ft_xorb t) = layout_rows frames" using body(3) by (simp add: body_layout_def)
  note rng = term_range_layout [OF assms(3) [unfolded lay]]
  obtain ds where ds: "contents_of X (ft_xorb t) ds" "length ds = length frames"
    "\<And>i j out. i < j \<Longrightarrow> j \<le> length frames \<Longrightarrow>
       decompress_xorb_chunks_into (x_decompress X) (frames_slice body frames i j) out =
       (Inr (), out @ concat (take (j - i) (drop i ds)))"
    using verified_contents_of [OF body(2) fs] by blast
  show ?thesis
    by (rule that [OF body(1) fs lay _ _ _ ds(1,2)]) (use rng lay ds(3) in simp_all)
qed

lemma fetch_term_exact:
  assumes svc: "svc_blobs svc = B" "svc_meta svc = M" and agree: "stores_agree X (xorbs b) (layout m)"
    and fetch: "fetch_and_decompress_term X svc t b m = Inr d"
  obtains ds where "contents_of X (ft_xorb t) ds" "unat (ft_chunk_idx_end t) \<le> length ds"
    "d = concat (take (unat (ft_chunk_idx_end t) - unat (ft_chunk_idx_start t)) (drop (unat (ft_chunk_idx_start t)) ds))"
proof -
  from fetch_term_InrE [OF fetch] obtain rows got where
    f: "xorb_frame_layout M (ft_xorb t) m = Inr rows" "rows \<noteq> []" "\<not> term_range_invalid rows t" and
    got: "get_xorb_range B (ft_xorb t) (fst (term_byte_range rows t)) (snd (term_byte_range rows t)) b = Inr got"
      "decompress_xorb_chunks_into (x_decompress X) got [] = (Inr (), d)"
    using svc by metis
  have rows: "rows = layout m (ft_xorb t)" using f(1) by (rule layout_read)
  let ?s = "unat (ft_chunk_idx_start t)" and ?e = "unat (ft_chunk_idx_end t)"
  obtain body frames ds where sl: "xorbs b (ft_xorb t) = Some body" "parse_xorb_frames body = Inr frames"
    "layout m (ft_xorb t) = layout_rows frames"
    "term_byte_range (layout m (ft_xorb t)) t = frames_range frames ?s ?e"
    "?s < ?e" "?e \<le> length frames"
    "contents_of X (ft_xorb t) ds" "length ds = length frames"
    "\<And>out. decompress_xorb_chunks_into (x_decompress X) (frames_slice body frames ?s ?e) out =
      (Inr (), out @ concat (take (?e - ?s) (drop ?s ds)))"
    using term_slice [OF agree f(2,3) [unfolded rows]] by blast
  have "fst (term_byte_range rows t) < snd (term_byte_range rows t)"
    using frames_range_less [OF sl(2,5,6)] sl(4) rows by simp
  from get_xorb_range_slice [OF got(1) this] sl(1) have "got = frames_slice body frames ?s ?e"
    using sl(4) rows by (auto simp: frames_slice_def split: prod.splits)
  with got(2) sl(9) [of "[]"] sl(6-8) show ?thesis by (intro that [of ds]) simp_all
qed

lemma fetch_term_complete:
  assumes svc: "svc_blobs svc = B" "svc_meta svc = M" and agree: "stores_agree X (xorbs b) (layout m)"
    and reads: "xorb_frame_layout M (ft_xorb t) m = Inr (layout m (ft_xorb t))"
      "\<And>body i j. xorbs b (ft_xorb t) = Some body \<Longrightarrow> i < j \<Longrightarrow> j \<le> length body \<Longrightarrow>
         get_xorb_range B (ft_xorb t) i j b = Inr (take (j - i) (drop i body))"
    and t: "layout m (ft_xorb t) \<noteq> []" "\<not> term_range_invalid (layout m (ft_xorb t)) t"
      "unat (ft_unpacked_segment_bytes t) \<le> MAX_TERM_UNPACKED_BYTES"
  shows "\<exists>d. fetch_and_decompress_term X svc t b m = Inr d"
proof -
  let ?s = "unat (ft_chunk_idx_start t)" and ?e = "unat (ft_chunk_idx_end t)"
  obtain body frames ds where sl: "xorbs b (ft_xorb t) = Some body" "parse_xorb_frames body = Inr frames"
    "layout m (ft_xorb t) = layout_rows frames"
    "term_byte_range (layout m (ft_xorb t)) t = frames_range frames ?s ?e"
    "?s < ?e" "?e \<le> length frames"
    "contents_of X (ft_xorb t) ds" "length ds = length frames"
    "\<And>out. decompress_xorb_chunks_into (x_decompress X) (frames_slice body frames ?s ?e) out =
      (Inr (), out @ concat (take (?e - ?s) (drop ?s ds)))"
    using term_slice [OF agree t(1,2)] by blast
  obtain i j where ij: "frames_range frames ?s ?e = (i, j)" by fastforce
  have "i < j" "j \<le> length body"
    using frames_range_less [OF sl(2,5,6)] frames_range_le [OF sl(2,5,6)] ij by simp_all
  with reads(2) [OF sl(1)] have "get_xorb_range B (ft_xorb t) i j b = Inr (frames_slice body frames ?s ?e)"
    using ij by (simp add: frames_slice_def)
  with svc reads(1) t ij sl(4,9) show ?thesis
    by (simp add: fetch_and_decompress_term_def core_def)
qed

end

section \<open>The download stream\<close>

definition term_contents :: "externals \<Rightarrow> file_term \<Rightarrow> bytes \<Rightarrow> bool" where
  "term_contents X t d \<longleftrightarrow> (\<exists>ds. contents_of X (ft_xorb t) ds \<and> unat (ft_chunk_idx_end t) \<le> length ds \<and>
     d = concat (take (unat (ft_chunk_idx_end t) - unat (ft_chunk_idx_start t))
                  (drop (unat (ft_chunk_idx_start t)) ds)))"

text \<open>A stream is exact when its items are the contents of the terms in order, possibly cut short by one
  error item.\<close>

fun stream_exact :: "externals \<Rightarrow> file_term list \<Rightarrow> (string + bytes) list \<Rightarrow> bool" where
  "stream_exact X [] items \<longleftrightarrow> items = []"
| "stream_exact X (t # ts) (Inr d # items) \<longleftrightarrow> term_contents X t d \<and> stream_exact X ts items"
| "stream_exact X (t # ts) (Inl e # items) \<longleftrightarrow> items = []"
| "stream_exact X (t # ts) [] \<longleftrightarrow> False"

context cas_server
begin

lemma download_stream_exact:
  assumes "svc_blobs svc = B" "svc_meta svc = M" and "stores_agree X (xorbs b) (layout m)"
  shows "stream_exact X ts (download_stream X svc ts b m)"
proof (induction ts)
  case (Cons t ts)
  show ?case
  proof (cases "fetch_and_decompress_term X svc t b m")
    case (Inr d)
    with assms have "term_contents X t d"
      unfolding term_contents_def by (metis fetch_term_exact)
    with Inr Cons.IH show ?thesis by simp
  qed simp
qed simp

end

end
