(* ===== verification/Blob_S3.thy ===== *)
theory Blob_S3
  imports Blob_Fs
begin

text \<open>
  The S3 blob store, \<open>bale-server-storage-s3\<close>. The bucket is a map from keys to bodies, and the requests of the client library do to
  it what the service documents: a request may fail for any reason, and a failed upload may have stored the object (the answer was
  lost). What happens to each request is a record of answers, one per operation, as for the filesystem store. Without lost answers
  the store keeps the contract of \<open>BlobStore\<close>; with them it still never holds anything but complete bodies.
\<close>

section \<open>Configuration\<close>

record s3_config =
  sc_bucket :: string
  sc_region :: "string option"
  sc_endpoint_url :: "string option"
  sc_public_endpoint_url :: "string option"
  sc_force_path_style :: bool
  sc_prefix :: string
  sc_access_key_id :: "string option"
  sc_secret_access_key :: "string option"
  sc_session_token :: "string option"
  sc_disable_sse :: bool

text \<open>A client of the library is what it was built from; without explicit credentials the default chain of the library applies.\<close>

record s3_client =
  cl_region :: "string option"
  cl_credentials :: "(string \<times> string \<times> string option) option"
  cl_force_path_style :: bool
  cl_endpoint :: "string option"

record s3_store =
  s3_client_of :: s3_client
  s3_presign_client :: s3_client
  s3_bucket :: string
  s3_prefix :: string
  s3_sse_enabled :: bool

definition s3_make_client :: "s3_config \<Rightarrow> string option \<Rightarrow> s3_client" where
  "s3_make_client cfg endpoint =
     \<lparr>cl_region = sc_region cfg,
      cl_credentials = (case (sc_access_key_id cfg, sc_secret_access_key cfg) of
          (Some ak, Some sk) \<Rightarrow> Some (ak, sk, sc_session_token cfg) | _ \<Rightarrow> None),
      cl_force_path_style = sc_force_path_style cfg, cl_endpoint = endpoint\<rparr>"

text \<open>The probe of the bucket at the end only logs.\<close>

definition s3_open :: "s3_config \<Rightarrow> core_error + s3_store" where
  "s3_open cfg =
     (if sc_bucket cfg = [] then Inl (Internal ''S3 bucket must be non-empty'')
      else
        let client = s3_make_client cfg (sc_endpoint_url cfg);
            presign_client = (case sc_public_endpoint_url cfg of
                Some public \<Rightarrow> if Some public \<noteq> sc_endpoint_url cfg then Some (s3_make_client cfg (Some public)) else None
              | None \<Rightarrow> None)
        in Inr \<lparr>s3_client_of = client, s3_presign_client = (case presign_client of Some c \<Rightarrow> c | None \<Rightarrow> client),
                s3_bucket = sc_bucket cfg, s3_prefix = sc_prefix cfg, s3_sse_enabled = \<not> sc_disable_sse cfg\<rparr>)"

section \<open>Keys\<close>

text \<open>The crate \<open>hex\<close> is the parameter \<open>hx\<close>; a hash of 32 bytes has the four digits the slices need.\<close>

definition s3_fanout :: "(bytes \<Rightarrow> string) \<Rightarrow> string \<Rightarrow> string \<Rightarrow> hash32 \<Rightarrow> string" where
  "s3_fanout hx prefix kind h =
     (let hex = hx (hash_bytes h)
      in prefix @ kind @ ''/'' @ take 2 hex @ ''/'' @ take 2 (drop 2 hex) @ ''/'' @ hex)"

definition s3_xorb_key :: "(bytes \<Rightarrow> string) \<Rightarrow> s3_store \<Rightarrow> hash32 \<Rightarrow> string" where
  "s3_xorb_key hx st h = s3_fanout hx (s3_prefix st) ''xorbs'' h"

definition s3_shard_key :: "(bytes \<Rightarrow> string) \<Rightarrow> s3_store \<Rightarrow> hash32 \<Rightarrow> string" where
  "s3_shard_key hx st h = s3_fanout hx (s3_prefix st) ''shards'' h"

section \<open>The service\<close>

text \<open>An error of the library: one the service sent, with its kind, or any other.\<close>

datatype s3_kind = S3_Not_Found | S3_No_Such_Key | S3_Other_Kind

datatype sdk_error = Service_Error s3_kind string | Sdk_Other string

text \<open>\<open>sa_put\<close> tells with the error whether the object was stored all the same, \<open>sa_racer\<close> the body another server put there
  between the probe and the upload.\<close>

record s3_answers =
  sa_head :: "sdk_error option"
  sa_racer :: "bytes option"
  sa_put :: "(sdk_error \<times> bool) option"
  sa_get :: "sdk_error option"
  sa_collect :: "string option"

record s3_state =
  s3_objects :: "string \<rightharpoonup> bytes"
  s3_calls :: nat

text \<open>Reading the object with a \<open>Range\<close> header: a range that starts behind the end is refused, an end behind the end is cut, and
  a header that is no range of two numbers in order is ignored.\<close>

definition s3_number :: "string \<Rightarrow> nat option" where
  "s3_number t = (if t = [] then None else digits_val 10 (10 ^ length t) 0 t)"

definition s3_parse_range :: "string \<Rightarrow> (nat \<times> nat) option" where
  "s3_parse_range hdr =
     (case strip_prefix ''bytes='' hdr of
        None \<Rightarrow> None
      | Some r \<Rightarrow>
          (case split_once (CHR ''-'') r of
             None \<Rightarrow> None
           | Some (a, b) \<Rightarrow>
               (case (s3_number a, s3_number b) of
                  (Some i, Some j) \<Rightarrow> if i \<le> j then Some (i, j) else None
                | _ \<Rightarrow> None)))"

definition s3_slice :: "string option \<Rightarrow> bytes \<Rightarrow> sdk_error + bytes" where
  "s3_slice hdr body =
     (case hdr of
        None \<Rightarrow> Inr body
      | Some t \<Rightarrow>
          (case s3_parse_range t of
             None \<Rightarrow> Inr body
           | Some (i, j) \<Rightarrow>
               if length body \<le> i then Inl (Service_Error S3_Other_Kind ''InvalidRange'')
               else Inr (take (j + 1 - i) (drop i body))))"

definition s3_head_object :: "s3_answers \<Rightarrow> string \<Rightarrow> s3_state \<Rightarrow> sdk_error + unit" where
  "s3_head_object a key s =
     (case sa_head a of
        Some e \<Rightarrow> Inl e
      | None \<Rightarrow> if s3_objects s key = None then Inl (Service_Error S3_Not_Found ''NotFound'') else Inr ())"

definition s3_get_object :: "s3_answers \<Rightarrow> string \<Rightarrow> string option \<Rightarrow> s3_state \<Rightarrow> sdk_error + bytes" where
  "s3_get_object a key hdr s =
     (case sa_get a of
        Some e \<Rightarrow> Inl e
      | None \<Rightarrow>
          (case s3_objects s key of
             None \<Rightarrow> Inl (Service_Error S3_No_Such_Key ''NoSuchKey'')
           | Some body \<Rightarrow> s3_slice hdr body))"

section \<open>Operations\<close>

definition is_not_found_head :: "sdk_error \<Rightarrow> bool" where
  "is_not_found_head e \<longleftrightarrow> (case e of Service_Error k _ \<Rightarrow> k = S3_Not_Found | Sdk_Other _ \<Rightarrow> False)"

definition is_not_found_get :: "sdk_error \<Rightarrow> bool" where
  "is_not_found_get e \<longleftrightarrow> (case e of Service_Error k _ \<Rightarrow> k = S3_No_Such_Key | Sdk_Other _ \<Rightarrow> False)"

definition display_sdk_error :: "sdk_error \<Rightarrow> string" where
  "display_sdk_error e = (case e of Service_Error _ m \<Rightarrow> ''service error: '' @ m | Sdk_Other m \<Rightarrow> m)"

definition s3_object_exists :: "s3_answers \<Rightarrow> string \<Rightarrow> s3_state \<Rightarrow> core_error + bool" where
  "s3_object_exists a key s =
     (case s3_head_object a key s of
        Inr _ \<Rightarrow> Inr True
      | Inl e \<Rightarrow>
          if is_not_found_head e then Inr False
          else Inl (Internal (''s3 head_object '' @ key @ '': '' @ display_sdk_error e)))"

text \<open>The request for encryption does not change the content that is read back.\<close>

definition s3_put_object :: "s3_answers \<Rightarrow> string \<Rightarrow> bytes \<Rightarrow> s3_state \<Rightarrow> (core_error + unit) \<times> s3_state" where
  "s3_put_object a key body s =
     (let s = (case sa_racer a of None \<Rightarrow> s | Some b \<Rightarrow> s\<lparr>s3_objects := (s3_objects s)(key \<mapsto> b)\<rparr>);
          stored = s\<lparr>s3_objects := (s3_objects s)(key \<mapsto> body)\<rparr>
      in case sa_put a of
           None \<Rightarrow> (Inr (), stored)
         | Some (e, lost) \<Rightarrow>
             (Inl (Internal (''s3 put_object '' @ key @ '': '' @ display_sdk_error e)), if lost then stored else s))"

definition s3_tick :: "s3_state \<Rightarrow> s3_state" where
  "s3_tick s = s\<lparr>s3_calls := s3_calls s + 1\<rparr>"

definition s3_put_xorb :: "(bytes \<Rightarrow> string) \<Rightarrow> s3_store \<Rightarrow> (nat \<Rightarrow> s3_answers) \<Rightarrow> hash32 \<Rightarrow> bytes \<Rightarrow> s3_state \<Rightarrow>
   (core_error + bool) \<times> s3_state" where
  "s3_put_xorb hx st env h body s =
     (let key = s3_xorb_key hx st h; a = env (s3_calls s)
      in case s3_object_exists a key s of
           Inl e \<Rightarrow> (Inl e, s3_tick s)
         | Inr True \<Rightarrow> (Inr False, s3_tick s)
         | Inr False \<Rightarrow>
             (case s3_put_object a key body s of
                (Inl e, s) \<Rightarrow> (Inl e, s3_tick s)
              | (Inr _, s) \<Rightarrow> (Inr True, s3_tick s)))"

definition s3_xorb_exists :: "(bytes \<Rightarrow> string) \<Rightarrow> s3_store \<Rightarrow> (nat \<Rightarrow> s3_answers) \<Rightarrow> hash32 \<Rightarrow> s3_state \<Rightarrow> core_error + bool" where
  "s3_xorb_exists hx st env h s = s3_object_exists (env (s3_calls s)) (s3_xorb_key hx st h) s"

text \<open>The answer of a read: the error of the request or of collecting the body.\<close>

definition s3_read :: "s3_answers \<Rightarrow> string \<Rightarrow> string option \<Rightarrow> s3_state \<Rightarrow> core_error + bytes" where
  "s3_read a key hdr s =
     (case s3_get_object a key hdr s of
        Inl e \<Rightarrow>
          Inl (if is_not_found_get e then NotFound
               else Internal (''s3 get_object '' @ key @ '': '' @ display_sdk_error e))
      | Inr d \<Rightarrow>
          (case sa_collect a of
             Some e \<Rightarrow> Inl (Internal (''s3 body collect: '' @ e))
           | None \<Rightarrow> Inr d))"

text \<open>The inclusive range; \<open>end - 1\<close> is \<open>u64\<close> arithmetic.\<close>

definition s3_range_header :: "nat \<Rightarrow> nat \<Rightarrow> string" where
  "s3_range_header i j = ''bytes='' @ show_nat i @ ''-'' @ show_nat (if j = 0 then u64_max else j - 1)"

definition s3_get_xorb_range :: "(bytes \<Rightarrow> string) \<Rightarrow> s3_store \<Rightarrow> (nat \<Rightarrow> s3_answers) \<Rightarrow> hash32 \<Rightarrow> nat \<Rightarrow> nat \<Rightarrow> s3_state \<Rightarrow>
   core_error + bytes" where
  "s3_get_xorb_range hx st env h i j s =
     (if j < i then Inl (BadRequest ''inverted byte range'')
      else if j = i then Inr []
      else s3_read (env (s3_calls s)) (s3_xorb_key hx st h) (Some (s3_range_header i j)) s)"

definition s3_put_shard :: "(bytes \<Rightarrow> string) \<Rightarrow> s3_store \<Rightarrow> (nat \<Rightarrow> s3_answers) \<Rightarrow> hash32 \<Rightarrow> bytes \<Rightarrow> s3_state \<Rightarrow>
   (core_error + unit) \<times> s3_state" where
  "s3_put_shard hx st env h body s =
     (let key = s3_shard_key hx st h; a = env (s3_calls s)
      in case s3_object_exists a key s of
           Inl e \<Rightarrow> (Inl e, s3_tick s)
         | Inr True \<Rightarrow> (Inr (), s3_tick s)
         | Inr False \<Rightarrow> (case s3_put_object a key body s of (r, s) \<Rightarrow> (r, s3_tick s)))"

definition s3_get_shard :: "(bytes \<Rightarrow> string) \<Rightarrow> s3_store \<Rightarrow> (nat \<Rightarrow> s3_answers) \<Rightarrow> hash32 \<Rightarrow> s3_state \<Rightarrow> core_error + bytes" where
  "s3_get_shard hx st env h s = s3_read (env (s3_calls s)) (s3_shard_key hx st h) None s"

text \<open>Signing is the library's: \<open>px_config\<close> checks the lifetime, \<open>px_sign\<close> makes the URL of a request.\<close>

record s3_presigner =
  px_config :: "nat \<Rightarrow> string option"
  px_sign :: "s3_client \<Rightarrow> string \<Rightarrow> string \<Rightarrow> string \<Rightarrow> nat \<Rightarrow> sdk_error + string"
  px_show_ttl :: "nat \<Rightarrow> string"

definition s3_presign_xorb_range :: "(bytes \<Rightarrow> string) \<Rightarrow> s3_presigner \<Rightarrow> s3_store \<Rightarrow> hash32 \<Rightarrow> nat \<Rightarrow> nat \<Rightarrow> nat \<Rightarrow>
   s3_state \<Rightarrow> core_error + string option" where
  "s3_presign_xorb_range hx P st h i j ttl s =
     (if j < i then Inl (BadRequest ''inverted byte range'')
      else case px_config P ttl of
        Some e \<Rightarrow> Inl (Internal (''s3 presign config (ttl='' @ px_show_ttl P ttl @ ''): '' @ e))
      | None \<Rightarrow>
          (case px_sign P (s3_presign_client st) (s3_bucket st) (s3_xorb_key hx st h) (s3_range_header i j) ttl of
             Inl e \<Rightarrow> Inl (Internal (''s3 presign: '' @ display_sdk_error e))
           | Inr uri \<Rightarrow> Inr (Some uri)))"

definition s3_blob_ops :: "(bytes \<Rightarrow> string) \<Rightarrow> s3_presigner \<Rightarrow> s3_store \<Rightarrow> (nat \<Rightarrow> s3_answers) \<Rightarrow> s3_state blob_ops" where
  "s3_blob_ops hx P st env = \<lparr>put_xorb = s3_put_xorb hx st env, xorb_exists = s3_xorb_exists hx st env,
     get_xorb_range = s3_get_xorb_range hx st env, put_shard = s3_put_shard hx st env,
     get_shard = s3_get_shard hx st env, presign_xorb_range = s3_presign_xorb_range hx P st\<rparr>"

section \<open>The layout of the filesystem store\<close>

text \<open>Below the prefix, an object lies where the filesystem store has its file below the root.\<close>

lemma path_join_plain: "a \<noteq> [] \<Longrightarrow> last a \<noteq> CHR ''/'' \<Longrightarrow> CHR ''/'' \<notin> set b \<Longrightarrow> path_join a b = a @ ''/'' @ b"
  using ends_with_iff [of "''/''" a] by (auto simp: path_join_def dest: no_slash_relative)

context hex_codec
begin

lemma s3_fanout_mirrors:
  assumes "4 \<le> length (hx (hash_bytes h))" and "kind \<noteq> []" and "last kind \<noteq> CHR ''/''"
  shows "s3_fanout hx prefix kind h = prefix @ fs_fanout hx kind h"
proof -
  let ?h = "hx (hash_bytes h)"
  have parts: "take 2 ?h \<noteq> []" "take 2 (drop 2 ?h) \<noteq> []" using assms(1) by auto
  have no: "CHR ''/'' \<notin> set (take 2 ?h)" "CHR ''/'' \<notin> set (take 2 (drop 2 ?h))" "CHR ''/'' \<notin> set ?h"
    using hx_no_slash by (auto dest: in_set_takeD in_set_dropD)
  have "last (take 2 ?h) \<noteq> CHR ''/''" "last (take 2 (drop 2 ?h)) \<noteq> CHR ''/''"
    using no parts last_in_set by metis+
  with assms(2,3) parts no show ?thesis
    by (simp add: s3_fanout_def fs_fanout_def Let_def path_join_plain)
qed

lemma s3_fanout_inj: "s3_fanout hx prefix kind h = s3_fanout hx prefix kind h' \<Longrightarrow> h = h'"
proof -
  assume eq: "s3_fanout hx prefix kind h = s3_fanout hx prefix kind h'"
  have "\<exists>p. s3_fanout hx prefix kind k = p @ CHR ''/'' # hx (hash_bytes k)" for k
    by (simp add: s3_fanout_def Let_def)
  with eq have "hx (hash_bytes h) = hx (hash_bytes h')"
    using rsplit_once_eq_Some hx_no_slash by (metis option.inject prod.inject)
  then show ?thesis using hx_inj by (metis hash32.expand)
qed

lemma s3_xorb_key_inj [simp]: "s3_xorb_key hx st h = s3_xorb_key hx st h' \<longleftrightarrow> h = h'"
  using s3_fanout_inj by (auto simp: s3_xorb_key_def)

lemma s3_shard_key_neq [simp]: "s3_xorb_key hx st h' \<noteq> s3_shard_key hx st h"
  by (simp add: s3_xorb_key_def s3_shard_key_def s3_fanout_def Let_def)

end

section \<open>Ranges\<close>

lemma show_radix_bound: "2 \<le> r \<Longrightarrow> n < r ^ length (show_radix r n)"
proof (induction r n rule: show_radix.induct)
  case (1 r n)
  show ?case
  proof (cases "n < r")
    case True
    with "1.prems" show ?thesis by (simp add: show_radix.simps [of r n])
  next
    case False
    with "1" have "n div r < r ^ length (show_radix r (n div r))" by simp
    then have "n < r ^ length (show_radix r (n div r)) * r" using "1.prems" by (simp add: div_less_iff_less_mult)
    with False "1.prems" show ?thesis by (simp add: show_radix.simps [of r n] mult.commute)
  qed
qed

lemma s3_number_show [simp]: "s3_number (show_nat n) = Some n"
  using show_radix_bound [of 10 n] by (simp add: s3_number_def show_nat_def digits_val_show)

lemma s3_parse_range_header:
  "s3_parse_range (''bytes='' @ show_nat i @ ''-'' @ show_nat j) = (if i \<le> j then Some (i, j) else None)"
proof -
  have "strip_prefix ''bytes='' (''bytes='' @ show_nat i @ ''-'' @ show_nat j) = Some (show_nat i @ CHR ''-'' # show_nat j)"
    unfolding strip_prefix_append by simp
  moreover have "split_once (CHR ''-'') (show_nat i @ CHR ''-'' # show_nat j) = Some (show_nat i, show_nat j)"
    by (rule split_once_append [OF show_nat_no_dash])
  ultimately show ?thesis unfolding s3_parse_range_def by (simp only: option.case prod.case s3_number_show)
qed

lemma s3_parse_made: "s3_parse_range (s3_range_header i j) =
    (if i \<le> (if j = 0 then u64_max else j - 1) then Some (i, if j = 0 then u64_max else j - 1) else None)"
  unfolding s3_range_header_def s3_parse_range_header ..

lemma s3_slice_range: "i < j \<Longrightarrow> s3_slice (Some (s3_range_header i j)) body =
    (if length body \<le> i then Inl (Service_Error S3_Other_Kind ''InvalidRange'') else Inr (take (j - i) (drop i body)))"
  by (cases "i \<le> j - 1") (simp_all add: s3_slice_def s3_parse_made)

section \<open>The contract\<close>

text \<open>Answers without another writer, without lost answers, and that deny an object only when it is missing.\<close>

definition s3_fair :: "s3_answers \<Rightarrow> s3_answers" where
  "s3_fair a = a\<lparr>sa_racer := None, sa_put := map_option (\<lambda>p. (fst p, False)) (sa_put a),
     sa_head := (case sa_head a of Some e \<Rightarrow> if is_not_found_head e then None else Some e | None \<Rightarrow> None)\<rparr>"

definition s3_calm :: "s3_answers \<Rightarrow> s3_answers" where
  "s3_calm a = a\<lparr>sa_head := None, sa_get := None, sa_collect := None\<rparr>"

definition s3_xorbs :: "(bytes \<Rightarrow> string) \<Rightarrow> s3_store \<Rightarrow> s3_state \<Rightarrow> hash32 \<rightharpoonup> bytes" where
  "s3_xorbs hx st s h = s3_objects s (s3_xorb_key hx st h)"

lemma s3_tick_objects [simp]: "s3_objects (s3_tick s) = s3_objects s"
  by (simp add: s3_tick_def)

lemma fair_exists: "s3_object_exists (s3_fair a) key s = Inr b \<Longrightarrow> b \<longleftrightarrow> s3_objects s key \<noteq> None"
  by (auto simp: s3_object_exists_def s3_head_object_def s3_fair_def is_not_found_head_def
      split: option.splits if_splits sdk_error.splits)

lemma fair_put:
  "s3_put_object (s3_fair a) key body s = (r, s') \<Longrightarrow>
   s3_objects s' = (case r of Inr _ \<Rightarrow> (s3_objects s)(key \<mapsto> body) | Inl _ \<Rightarrow> s3_objects s)"
  by (auto simp: s3_put_object_def s3_fair_def Let_def split: option.splits)

text \<open>Whatever is answered, a key holds what it held, the whole new body, or the whole body of the other writer.\<close>

lemma s3_put_object_whole:
  assumes "s3_put_object a key body s = (r, s')"
  shows "s3_objects s' key \<in> {s3_objects s key, Some body, sa_racer a}"
    and "k \<noteq> key \<Longrightarrow> s3_objects s' k = s3_objects s k"
  using assms by (auto simp: s3_put_object_def Let_def split: option.splits prod.splits if_splits)

lemma s3_put_xorb_whole:
  assumes "s3_put_xorb hx st env h body s = (r, s')"
  shows "s3_xorbs hx st s' h \<in> {s3_xorbs hx st s h, Some body, sa_racer (env (s3_calls s))}"
  using assms s3_put_object_whole(1) [of "env (s3_calls s)" "s3_xorb_key hx st h" body s]
  by (auto simp: s3_put_xorb_def s3_xorbs_def Let_def split: sum.splits bool.splits prod.splits)

context hex_codec
begin

lemma s3_put_xorb_fair:
  assumes "s3_put_xorb hx st (\<lambda>n. s3_fair (env n)) h body s = (r, s')"
  shows "r = Inr True \<Longrightarrow> s3_xorbs hx st s h = None \<and> s3_xorbs hx st s' = (s3_xorbs hx st s)(h \<mapsto> body)"
    and "r = Inr False \<Longrightarrow> s3_xorbs hx st s h \<noteq> None \<and> s3_xorbs hx st s' = s3_xorbs hx st s"
    and "r = Inl e \<Longrightarrow> s3_xorbs hx st s' = s3_xorbs hx st s"
  using assms fair_exists [of "env (s3_calls s)" "s3_xorb_key hx st h" s]
  by (auto simp: s3_put_xorb_def s3_xorbs_def Let_def fun_eq_iff split: sum.splits bool.splits prod.splits
      dest!: fair_put)

lemma s3_put_shard_keeps: "s3_put_shard hx st env h body s = (r, s') \<Longrightarrow> s3_xorbs hx st s' = s3_xorbs hx st s"
  by (auto simp: s3_put_shard_def s3_xorbs_def Let_def fun_eq_iff s3_put_object_whole(2)
      split: sum.splits bool.splits prod.splits)

lemma s3_read_slice:
  assumes "s3_get_xorb_range hx st env h i j s = Inr d" and "i < j"
  shows "\<exists>body. s3_xorbs hx st s h = Some body \<and> d = take (j - i) (drop i body)"
  using assms
  by (auto simp: s3_get_xorb_range_def s3_read_def s3_get_object_def s3_xorbs_def s3_slice_range
      split: sum.splits option.splits if_splits)

lemma s3_contract: "blob_store (s3_blob_ops hx P st (\<lambda>n. s3_fair (env n))) (s3_xorbs hx st)"
proof
  fix h body s s' b e i j d h' body' r
  let ?B = "s3_blob_ops hx P st (\<lambda>n. s3_fair (env n))"
  show "put_xorb ?B h body s = (Inr True, s') \<Longrightarrow>
      s3_xorbs hx st s h = None \<and> s3_xorbs hx st s' = (s3_xorbs hx st s)(h \<mapsto> body)"
    and "put_xorb ?B h body s = (Inr False, s') \<Longrightarrow> s3_xorbs hx st s h \<noteq> None \<and> s3_xorbs hx st s' = s3_xorbs hx st s"
    and "put_xorb ?B h body s = (Inl e, s') \<Longrightarrow> s3_xorbs hx st s' = s3_xorbs hx st s"
    using s3_put_xorb_fair [of st env h body s _ s'] by (simp_all add: s3_blob_ops_def)
  show "xorb_exists ?B h s = Inr b \<Longrightarrow> b \<longleftrightarrow> s3_xorbs hx st s h \<noteq> None"
    using fair_exists by (simp add: s3_blob_ops_def s3_xorb_exists_def s3_xorbs_def)
  show "get_xorb_range ?B h i j s = Inr d \<Longrightarrow> i < j \<Longrightarrow>
      \<exists>body. s3_xorbs hx st s h = Some body \<and> d = take (j - i) (drop i body)"
    by (simp add: s3_blob_ops_def) (rule s3_read_slice)
  show "put_shard ?B h' body' s = (r, s') \<Longrightarrow> s3_xorbs hx st s' = s3_xorbs hx st s"
    by (simp add: s3_blob_ops_def) (rule s3_put_shard_keeps)
qed

lemma s3_calm_contract: "blob_store_reliable (s3_blob_ops hx P st (\<lambda>n. s3_fair (s3_calm (env n)))) (s3_xorbs hx st)"
proof (intro blob_store_reliable.intro s3_contract blob_store_reliable_axioms.intro)
  fix h s body i j
  let ?B = "s3_blob_ops hx P st (\<lambda>n. s3_fair (s3_calm (env n)))"
  show "s3_xorbs hx st s h = Some body \<Longrightarrow> i < j \<Longrightarrow> j \<le> length body \<Longrightarrow>
     get_xorb_range ?B h i j s = Inr (take (j - i) (drop i body))"
    by (simp add: s3_blob_ops_def s3_get_xorb_range_def s3_read_def s3_get_object_def s3_slice_range s3_xorbs_def
        s3_fair_def s3_calm_def)
  show "xorb_exists ?B h s = Inr (s3_xorbs hx st s h \<noteq> None)"
    by (simp add: s3_blob_ops_def s3_xorb_exists_def s3_object_exists_def s3_head_object_def s3_xorbs_def
        s3_fair_def s3_calm_def is_not_found_head_def)
qed

end

interpretation s3: blob_store "s3_blob_ops hex_lower P st (\<lambda>n. s3_fair (env n))" "s3_xorbs hex_lower st"
  for P st env
  by (rule hex_lower.s3_contract)

interpretation s3_calm: blob_store_reliable "s3_blob_ops hex_lower P st (\<lambda>n. s3_fair (s3_calm (env n)))"
  "s3_xorbs hex_lower st" for P st env
  by (rule hex_lower.s3_calm_contract)

section \<open>Moving between the stores\<close>

text \<open>
  Copying a tree of the filesystem store into a bucket under a prefix, file by file, gives a store with the same xorbs; this is what
  the shared layout is for.
\<close>

definition s3_copy_tree :: "s3_store \<Rightarrow> string \<Rightarrow> fs_state \<Rightarrow> s3_state \<Rightarrow> bool" where
  "s3_copy_tree st root f s \<longleftrightarrow> (\<forall>rel. s3_objects s (s3_prefix st @ rel) = fs_files f (path_join root rel))"

lemma hex_lower_length: "length (hex_lower bs) = 2 * length bs"
  using hex_pad_2_chars unsigned_less [where 'a = nat and 'b = 8]
  by (induction bs) (simp_all add: hex_lower_def)

lemma copied_tree_has_xorbs:
  assumes "s3_copy_tree st root f s" and "wf_hash h"
  shows "s3_xorbs hex_lower st s h = fs_xorbs hex_lower root f h"
proof -
  have "4 \<le> length (hex_lower (hash_bytes h))" using assms(2) by (simp add: hex_lower_length wf_hash_def HASH_LEN_def)
  from hex_lower.s3_fanout_mirrors [OF this, of "''xorbs''" "s3_prefix st"] assms(1) show ?thesis
    by (simp add: s3_xorbs_def fs_xorbs_def s3_xorb_key_def fs_xorb_path_def s3_copy_tree_def)
qed

section \<open>Presigned ranges\<close>

text \<open>The request a presigned URL stands for reads the range it was made for. The guard against empty ranges that the read has is
  missing: signing an empty range signs a header that asks for everything.\<close>

lemma presigned_range_is_exact:
  assumes "s3_presign_xorb_range hx P st h i j ttl s = Inr (Some uri)" and "i < j"
  shows "px_sign P (s3_presign_client st) (s3_bucket st) (s3_xorb_key hx st h) (s3_range_header i j) ttl = Inr uri"
    and "i < length body \<Longrightarrow> s3_slice (Some (s3_range_header i j)) body = Inr (take (j - i) (drop i body))"
  using assms by (auto simp: s3_presign_xorb_range_def s3_slice_range split: if_splits option.splits sum.splits)

lemma presigned_empty_range_is_whole:
  assumes "length body \<le> u64_max" and "body \<noteq> []"
  shows "s3_slice (Some (s3_range_header i i)) body = Inr body"
  using assms by (cases i) (simp_all add: s3_slice_def s3_parse_made)

end
