(* ===== verification/Meta_Postgres.thy ===== *)
theory Meta_Postgres
  imports Meta_Layouts
begin

text \<open>
  The PostgreSQL metadata store, \<open>bale-server-meta-postgres\<close>. It has the tables of the SQLite store and its statements in another
  dialect; what differs is the advisory lock before the write-once check of a file's terms, and the sums, which PostgreSQL computes
  without bound and casts to \<open>BIGINT\<close> at the end. A statement fails when \<open>faults\<close> says so, whatever the cause (the connection, a
  deadlock, too many parameters, a text PostgreSQL refuses). The operations here are those of one connection; transactions that run
  at the same time are the subject of the next theory.
\<close>

section \<open>Writes\<close>

text \<open>The key of the lock: the first eight bytes of the hash as a little-endian \<open>i64\<close>, 0 if there are fewer.\<close>

definition i64_from_le_bytes :: "bytes \<Rightarrow> int" where
  "i64_from_le_bytes bs = as_i64 (horner_sum (\<lambda>b. unat b) 256 bs)"

definition pg_lock_key :: "hash32 \<Rightarrow> int" where
  "pg_lock_key h =
     (let b = hash_to_blob h in if length b < 8 then 0 else i64_from_le_bytes (take 8 b))"

definition pg_write_file_in_tx ::
  "faults \<Rightarrow> int \<Rightarrow> hash32 \<Rightarrow> repo_ref \<Rightarrow> file_term list \<Rightarrow> meta_db \<times> nat \<Rightarrow>
   (core_error + meta_db) \<times> nat" where
  "pg_write_file_in_tx fl now h repo ts s =
     (case exec_stmt fl ''insert file'' (insert_file now h repo ts) s of
        (Inl e, t) \<Rightarrow> (Inl e, t)
      | (Inr db, t) \<Rightarrow>
          (case exec_stmt fl ''advisory lock'' id (db, t) of
             (Inl e, t) \<Rightarrow> (Inl e, t)
           | (Inr db, t) \<Rightarrow>
               (case exec_stmt fl ''probe existing terms'' id (db, t) of
                  (Inl e, t) \<Rightarrow> (Inl e, t)
                | (Inr db, t) \<Rightarrow>
                    if terms_exist h db then (Inr db, t)
                    else exec_batches fl ''insert terms'' (insert_terms h)
                           (batches CHUNK_INSERT_BATCH (enumerate 0 ts)) (db, t))))"

definition pg_register_xorb ::
  "faults \<Rightarrow> int \<Rightarrow> xorb_info \<Rightarrow> chunk_row list \<Rightarrow> sql_state \<Rightarrow> (core_error + unit) \<times> sql_state" where
  "pg_register_xorb fl now x cs =
     in_tx fl ''commit'' (\<lambda>s.
       case exec_stmt fl ''insert xorb'' (insert_xorb now x) s of
         (Inl e, t) \<Rightarrow> (Inl e, t)
       | (Inr db, t) \<Rightarrow>
           exec_batches fl ''insert chunks'' (insert_chunks (xi_xorb x))
             (batches CHUNK_INSERT_BATCH cs) (db, t))"

definition pg_register_file ::
  "faults \<Rightarrow> int \<Rightarrow> hash32 \<Rightarrow> repo_ref \<Rightarrow> file_term list \<Rightarrow> sql_state \<Rightarrow> (core_error + unit) \<times> sql_state" where
  "pg_register_file fl now h repo ts = in_tx fl ''commit'' (pg_write_file_in_tx fl now h repo ts)"

fun pg_write_files_in_tx ::
  "faults \<Rightarrow> int \<Rightarrow> repo_ref \<Rightarrow> (hash32 \<times> file_term list) list \<Rightarrow> meta_db \<times> nat \<Rightarrow>
   (core_error + meta_db) \<times> nat" where
  "pg_write_files_in_tx fl now repo [] (db, t) = (Inr db, t)"
| "pg_write_files_in_tx fl now repo ((h, ts) # fs) (db, t) =
     (case pg_write_file_in_tx fl now h repo ts (db, t) of
        (Inl e, t) \<Rightarrow> (Inl e, t)
      | (Inr db, t) \<Rightarrow> pg_write_files_in_tx fl now repo fs (db, t))"

definition pg_register_files ::
  "faults \<Rightarrow> int \<Rightarrow> repo_ref \<Rightarrow> (hash32 \<times> file_term list) list \<Rightarrow> sql_state \<Rightarrow>
   (core_error + unit) \<times> sql_state" where
  "pg_register_files fl now repo files s =
     (if files = [] then (Inr (), s)
      else in_tx fl ''commit'' (pg_write_files_in_tx fl now repo files) s)"

definition pg_register_xorb_layout ::
  "faults \<Rightarrow> hash32 \<Rightarrow> xorb_frame_row list \<Rightarrow> sql_state \<Rightarrow> (core_error + unit) \<times> sql_state" where
  "pg_register_xorb_layout fl x frames s =
     (if frames = [] then (Inr (), s)
      else in_tx fl ''commit frames''
             (exec_batches fl ''insert frames'' (insert_frames x) (batches CHUNK_INSERT_BATCH frames)) s)"

definition pg_set_owner_quota ::
  "faults \<Rightarrow> string \<Rightarrow> nat option \<Rightarrow> sql_state \<Rightarrow> (core_error + unit) \<times> sql_state" where
  "pg_set_owner_quota fl owner limit s =
     (let run = (\<lambda>label f.
        (case exec_stmt fl label f (sq_db s, sq_tick s) of
           (Inl e, t) \<Rightarrow> (Inl e, s\<lparr>sq_tick := t\<rparr>)
         | (Inr db, t) \<Rightarrow> (Inr (), \<lparr>sq_db = db, sq_tick = t\<rparr>)))
      in case limit of
           Some n \<Rightarrow> run ''set_owner_quota''
             (\<lambda>db. db\<lparr>db_quotas := insert_replace fst (owner, as_i64 n) (db_quotas db)\<rparr>)
         | None \<Rightarrow> run ''clear_owner_quota''
             (\<lambda>db. db\<lparr>db_quotas := filter (\<lambda>r. fst r \<noteq> owner) (db_quotas db)\<rparr>))"

section \<open>Reads\<close>

definition pg_xorb_exists :: "faults \<Rightarrow> hash32 \<Rightarrow> sql_state \<Rightarrow> core_error + bool" where
  "pg_xorb_exists fl x =
     query fl ''select xorb'' 0 (\<lambda>db. \<exists>r \<in> set (db_xorbs db). xr_hash r = hash_to_blob x)"

definition pg_file_in_repo :: "faults \<Rightarrow> hash32 \<Rightarrow> string \<Rightarrow> sql_state \<Rightarrow> core_error + bool" where
  "pg_file_in_repo fl h rid =
     query fl ''select file_in_repo'' 0
       (\<lambda>db. \<exists>r \<in> set (db_files db). fl_file_hash r = hash_to_blob h \<and> fl_repo_id r = rid)"

definition pg_lookup_file ::
  "faults \<Rightarrow> (nat \<Rightarrow> nat) \<Rightarrow> hash32 \<Rightarrow> sql_state \<Rightarrow> core_error + file_term list option" where
  "pg_lookup_file fl pick h s =
     rbind (query fl ''select terms'' 0 (select_terms h) s) (\<lambda>rows.
     if rows = [] then Inr None
     else
       rbind (rmapM row_to_file_term rows) (\<lambda>ts.
       rbind (query fl ''select file size'' 1
                (\<lambda>db. limit1 pick (filter (\<lambda>r. fl_file_hash r = hash_to_blob h) (db_files db))) s) (\<lambda>recorded.
         case recorded of
           None \<Rightarrow> Inr (Some ts)
         | Some r \<Rightarrow>
             rbind (nonneg_i64_to_u64 (fl_total_bytes r) ''files.total_bytes'') (\<lambda>total.
               if terms_total ts \<noteq> total
               then Inl (Internal (''file term list sums to '' @ show_nat (terms_total ts) @
                      '' but recorded size is '' @ show_nat total @
                      ''; refusing to serve an inconsistent reconstruction (re-register this file)''))
               else Inr (Some ts)))))"

definition pg_xorb_frame_layout :: "faults \<Rightarrow> hash32 \<Rightarrow> sql_state \<Rightarrow> core_error + xorb_frame_row list" where
  "pg_xorb_frame_layout fl x s =
     rbind (query fl ''select frames'' 0 (select_frames x) s) (\<lambda>rows. Inr (map row_to_frame rows))"

definition pg_xorb_frame_layouts ::
  "faults \<Rightarrow> hash32 list \<Rightarrow> sql_state \<Rightarrow> core_error + (hash32 \<rightharpoonup> xorb_frame_row list)" where
  "pg_xorb_frame_layouts fl xorbs s =
     (if xorbs = [] then Inr Map.empty
      else
        let uniq = dedup_sorted_xorbs xorbs in
        rbind (query fl ''select frame layouts'' 0
          (\<lambda>db. sort_key (\<lambda>r. fr_xorb_hash r) (sort_key fr_frame_index
             (filter (\<lambda>r. fr_xorb_hash r \<in> hash_to_blob ` set uniq) (db_frames db)))) s) (\<lambda>rows.
        group_frames rows Map.empty))"

definition pg_xorbs_near_chunk ::
  "faults \<Rightarrow> (nat \<Rightarrow> nat) \<Rightarrow> hash32 \<Rightarrow> nat \<Rightarrow> sql_state \<Rightarrow> core_error + xorb_info list" where
  "pg_xorbs_near_chunk fl pick ch limit s =
     rbind (query fl ''near'' 0
       (\<lambda>db. limit1 pick (filter (\<lambda>r. ck_chunk_hash r = hash_to_blob ch) (db_chunks db))) s) (\<lambda>row.
     case row of
       None \<Rightarrow> Inr []
     | Some r \<Rightarrow>
         rbind (blob_to_hash (ck_xorb_hash r)) (\<lambda>x.
         rbind (query fl ''xorb meta'' 1
           (\<lambda>db. List.find (\<lambda>r. xr_hash r = hash_to_blob x) (db_xorbs db)) s) (\<lambda>row.
         case row of
           None \<Rightarrow> Inl (Internal ''xorb meta: no rows returned'')
         | Some r \<Rightarrow> Inr (take limit [row_to_xorb_info r x]))))"

definition pg_xorb_chunk_offsets :: "faults \<Rightarrow> hash32 \<Rightarrow> sql_state \<Rightarrow> core_error + chunk_offset_row list" where
  "pg_xorb_chunk_offsets fl x s =
     rbind (query fl ''xorb offsets'' 0
       (\<lambda>db. sort_key ck_chunk_index (filter (\<lambda>r. ck_xorb_hash r = hash_to_blob x) (db_chunks db))) s)
       (rmapM row_to_chunk_offset)"

definition pg_get_owner_quota :: "faults \<Rightarrow> string \<Rightarrow> sql_state \<Rightarrow> core_error + nat option" where
  "pg_get_owner_quota fl owner s =
     rbind (query fl ''get_owner_quota'' 0 (\<lambda>db. List.find (\<lambda>r. fst r = owner) (db_quotas db)) s) (\<lambda>row.
     case row of
       None \<Rightarrow> Inr None
     | Some r \<Rightarrow> rbind (nonneg_i64_to_u64 (snd r) ''get_owner_quota'') (\<lambda>n. Inr (Some n)))"

text \<open>\<open>SUM\<close> of a \<open>bigint\<close> column is \<open>numeric\<close>; only the cast of the total can fail.\<close>

definition pg_sum :: "int list \<Rightarrow> int option" where
  "pg_sum ns = (let n = sum_list ns in if n > i64_max \<or> n < - i64_max - 1 then None else Some n)"

definition pg_query_sum ::
  "faults \<Rightarrow> string \<Rightarrow> string \<Rightarrow> (meta_db \<Rightarrow> int list) \<Rightarrow> sql_state \<Rightarrow> core_error + nat" where
  "pg_query_sum fl qlabel label col s =
     rbind (query fl qlabel 0 col s) (\<lambda>ns.
     rbind (ok_or (Internal (qlabel @ '': bigint out of range'')) (pg_sum ns)) (\<lambda>n.
       nonneg_i64_to_u64 n label))"

definition pg_raw_bytes_for_owner :: "faults \<Rightarrow> string \<Rightarrow> sql_state \<Rightarrow> core_error + nat" where
  "pg_raw_bytes_for_owner fl owner =
     pg_query_sum fl ''raw_bytes_for_owner'' ''raw_bytes_for_owner''
       (\<lambda>db. map fl_total_bytes (filter (\<lambda>r. fl_owner r = owner) (db_files db)))"

definition pg_stored_bytes_for_owner :: "faults \<Rightarrow> string \<Rightarrow> sql_state \<Rightarrow> core_error + nat" where
  "pg_stored_bytes_for_owner fl owner =
     pg_query_sum fl ''stored_bytes_for_owner'' ''stored_bytes_for_owner''
       (\<lambda>db. on_disk_of (referenced (\<lambda>f. fl_owner f = owner) db) db)"

definition pg_raw_bytes_for_repo :: "faults \<Rightarrow> string \<Rightarrow> sql_state \<Rightarrow> core_error + nat" where
  "pg_raw_bytes_for_repo fl rid =
     pg_query_sum fl ''raw_bytes_for_repo'' ''raw_bytes_for_repo''
       (\<lambda>db. map fl_total_bytes (filter (\<lambda>r. fl_repo_id r = rid) (db_files db)))"

definition pg_stored_bytes_for_repo :: "faults \<Rightarrow> string \<Rightarrow> sql_state \<Rightarrow> core_error + nat" where
  "pg_stored_bytes_for_repo fl rid =
     pg_query_sum fl ''stored_bytes_for_repo'' ''stored_bytes_for_repo''
       (\<lambda>db. on_disk_of (referenced (\<lambda>f. fl_repo_id f = rid) db) db)"

definition pg_exclusive_stored_bytes_for_repo :: "faults \<Rightarrow> string \<Rightarrow> sql_state \<Rightarrow> core_error + nat" where
  "pg_exclusive_stored_bytes_for_repo fl rid =
     (let owner = owner_of_id rid in
      pg_query_sum fl ''exclusive_stored_bytes_for_repo'' ''exclusive_stored_bytes_for_repo''
        (\<lambda>db. on_disk_of (\<lambda>x. referenced (\<lambda>f. fl_repo_id f = rid) db x \<and>
                \<not> referenced (\<lambda>f. fl_owner f = owner \<and> fl_repo_id f \<noteq> rid) db x) db))"

definition pg_unaccounted_xorb_bytes_for_owner ::
  "faults \<Rightarrow> string \<Rightarrow> hash32 list \<Rightarrow> sql_state \<Rightarrow> core_error + nat" where
  "pg_unaccounted_xorb_bytes_for_owner fl owner candidates s =
     (if candidates = [] then Inr 0
      else
        let uniq = dedup_sorted_xorbs candidates in
        pg_query_sum fl ''unaccounted_xorb_bytes'' ''unaccounted_xorb_bytes_for_owner''
          (\<lambda>db. on_disk_of (\<lambda>x. x \<in> hash_to_blob ` set uniq \<and>
                  \<not> referenced (\<lambda>f. fl_owner f = owner) db x) db) s)"

definition pg_meta_ops :: "faults \<Rightarrow> (nat \<Rightarrow> nat) \<Rightarrow> int \<Rightarrow> sql_state meta_ops" where
  "pg_meta_ops fl pick now = \<lparr>
     register_xorb = pg_register_xorb fl now,
     register_file = pg_register_file fl now,
     register_files = pg_register_files fl now,
     register_xorb_layout = pg_register_xorb_layout fl,
     xorb_frame_layout = pg_xorb_frame_layout fl,
     xorb_frame_layouts = pg_xorb_frame_layouts fl,
     meta_xorb_exists = pg_xorb_exists fl,
     lookup_file = pg_lookup_file fl pick,
     file_in_repo = pg_file_in_repo fl,
     xorbs_near_chunk = pg_xorbs_near_chunk fl pick,
     xorb_chunk_offsets = pg_xorb_chunk_offsets fl,
     raw_bytes_for_owner = pg_raw_bytes_for_owner fl,
     stored_bytes_for_owner = pg_stored_bytes_for_owner fl,
     get_owner_quota = pg_get_owner_quota fl,
     set_owner_quota = pg_set_owner_quota fl,
     unaccounted_xorb_bytes_for_owner = pg_unaccounted_xorb_bytes_for_owner fl,
     raw_bytes_for_repo = pg_raw_bytes_for_repo fl,
     stored_bytes_for_repo = pg_stored_bytes_for_repo fl,
     exclusive_stored_bytes_for_repo = pg_exclusive_stored_bytes_for_repo fl\<rparr>"

section \<open>The same store as SQLite's\<close>

text \<open>Everything but the registration of files and the sums is the same function.\<close>

lemma pg_same [simp]:
  "pg_register_xorb = sqlite_register_xorb" "pg_register_xorb_layout = sqlite_register_xorb_layout"
  "pg_set_owner_quota = sqlite_set_owner_quota" "pg_xorb_exists = sqlite_xorb_exists"
  "pg_file_in_repo = sqlite_file_in_repo" "pg_lookup_file = sqlite_lookup_file"
  "pg_xorb_frame_layout = sqlite_xorb_frame_layout" "pg_xorb_frame_layouts = sqlite_xorb_frame_layouts"
  "pg_xorbs_near_chunk = sqlite_xorbs_near_chunk" "pg_xorb_chunk_offsets = sqlite_xorb_chunk_offsets"
  "pg_get_owner_quota = sqlite_get_owner_quota"
  by (simp_all only: fun_eq_iff pg_register_xorb_def sqlite_register_xorb_def pg_register_xorb_layout_def
      sqlite_register_xorb_layout_def pg_set_owner_quota_def sqlite_set_owner_quota_def pg_xorb_exists_def
      sqlite_xorb_exists_def pg_file_in_repo_def sqlite_file_in_repo_def pg_lookup_file_def sqlite_lookup_file_def
      pg_xorb_frame_layout_def sqlite_xorb_frame_layout_def pg_xorb_frame_layouts_def sqlite_xorb_frame_layouts_def
      pg_xorbs_near_chunk_def sqlite_xorbs_near_chunk_def pg_xorb_chunk_offsets_def sqlite_xorb_chunk_offsets_def
      pg_get_owner_quota_def sqlite_get_owner_quota_def simp_thms)

text \<open>Where SQLite has a sum, PostgreSQL has the same one; SQLite may refuse more, because it checks every partial sum.\<close>

lemma sql_sum_eq: "sql_sum acc ns = Some n \<Longrightarrow> n = acc + sum_list ns \<and> (ns \<noteq> [] \<longrightarrow> n \<le> i64_max \<and> - i64_max - 1 \<le> n)"
proof (induction ns arbitrary: acc)
  case (Cons m ns)
  then have "sql_sum (acc + m) ns = Some n" "acc + m \<le> i64_max" "- i64_max - 1 \<le> acc + m"
    by (simp_all split: if_splits)
  with Cons.IH [of "acc + m"] show ?case by (cases ns) auto
qed simp

lemma pg_sum_of_sql_sum: "sql_sum 0 ns = Some n \<Longrightarrow> pg_sum ns = Some n"
  by (frule sql_sum_eq, cases ns) (auto simp: pg_sum_def Let_def i64_max_def)

lemma pg_query_sum_agrees: "query_sum fl ql label col s = Inr n \<Longrightarrow> pg_query_sum fl ql label col s = Inr n"
  by (cases "query fl ql 0 col s"; simp add: query_sum_def pg_query_sum_def)
    (auto simp: rbind_eq_Inr ok_or_def pg_sum_of_sql_sum split: option.splits)

lemmas pg_sum_defs = pg_raw_bytes_for_owner_def sqlite_raw_bytes_for_owner_def pg_stored_bytes_for_owner_def
  sqlite_stored_bytes_for_owner_def pg_raw_bytes_for_repo_def sqlite_raw_bytes_for_repo_def
  pg_stored_bytes_for_repo_def sqlite_stored_bytes_for_repo_def pg_exclusive_stored_bytes_for_repo_def
  sqlite_exclusive_stored_bytes_for_repo_def pg_unaccounted_xorb_bytes_for_owner_def
  sqlite_unaccounted_xorb_bytes_for_owner_def

lemma pg_usage_agrees:
  "sqlite_raw_bytes_for_owner fl ow s = Inr n \<Longrightarrow> pg_raw_bytes_for_owner fl ow s = Inr n"
  "sqlite_stored_bytes_for_owner fl ow s = Inr n \<Longrightarrow> pg_stored_bytes_for_owner fl ow s = Inr n"
  "sqlite_raw_bytes_for_repo fl rid s = Inr n \<Longrightarrow> pg_raw_bytes_for_repo fl rid s = Inr n"
  "sqlite_stored_bytes_for_repo fl rid s = Inr n \<Longrightarrow> pg_stored_bytes_for_repo fl rid s = Inr n"
  "sqlite_exclusive_stored_bytes_for_repo fl rid s = Inr n \<Longrightarrow> pg_exclusive_stored_bytes_for_repo fl rid s = Inr n"
  "sqlite_unaccounted_xorb_bytes_for_owner fl ow cs s = Inr n \<Longrightarrow> pg_unaccounted_xorb_bytes_for_owner fl ow cs s = Inr n"
  by (auto simp: pg_sum_defs Let_def pg_query_sum_agrees split: if_splits)

text \<open>A registration has the effect it has on SQLite.\<close>

lemma pg_write_file_in_tx_Inr:
  assumes "pg_write_file_in_tx fl now h repo ts (db, t) = (Inr db', t')"
  shows "db' = apply_file now repo (h, ts) db"
proof -
  obtain db1 t1 db2 t2 db3 t3 where s: "exec_stmt fl ''insert file'' (insert_file now h repo ts) (db, t) = (Inr db1, t1)"
      "exec_stmt fl ''advisory lock'' id (db1, t1) = (Inr db2, t2)"
      "exec_stmt fl ''probe existing terms'' id (db2, t2) = (Inr db3, t3)"
      and r: "(if terms_exist h db3 then (Inr db3, t3)
               else exec_batches fl ''insert terms'' (insert_terms h)
                      (batches CHUNK_INSERT_BATCH (enumerate 0 ts)) (db3, t3)) = (Inr db', t')"
    using assms by (auto simp: pg_write_file_in_tx_def split: prod.splits sum.splits)
  have "db3 = insert_file now h repo ts db" using s by (auto dest!: exec_stmt_Inr)
  with r show ?thesis
    by (auto simp: apply_file_def Let_def split: if_splits dest!: exec_insert_terms)
qed

lemma pg_write_files_in_tx_Inr:
  "pg_write_files_in_tx fl now repo files (db, t) = (Inr db', t') \<Longrightarrow> db' = fold (apply_file now repo) files db"
proof (induction files arbitrary: db t)
  case (Cons f files)
  obtain h ts where f: "f = (h, ts)" by (cases f)
  with Cons.prems obtain db1 t1 where "pg_write_file_in_tx fl now h repo ts (db, t) = (Inr db1, t1)"
    and "pg_write_files_in_tx fl now repo files (db1, t1) = (Inr db', t')"
    by (auto split: prod.splits sum.splits)
  with Cons.IH pg_write_file_in_tx_Inr f show ?case by fastforce
qed simp

lemma pg_register_files_Inr:
  "pg_register_files fl now repo files s = (Inr (), s') \<Longrightarrow> sq_db s' = fold (apply_file now repo) files (sq_db s)"
  by (auto simp: pg_register_files_def split: if_splits elim!: in_tx_Inr dest!: pg_write_files_in_tx_Inr)

lemma pg_register_files_Inl: "pg_register_files fl now repo files s = (Inl e, s') \<Longrightarrow> sq_db s' = sq_db s"
  by (auto simp: pg_register_files_def split: if_splits dest: in_tx_Inl)

lemma pg_register_file_Inr:
  "pg_register_file fl now h repo ts s = (Inr (), s') \<Longrightarrow> sq_db s' = apply_file now repo (h, ts) (sq_db s)"
  by (auto simp: pg_register_file_def elim!: in_tx_Inr dest!: pg_write_file_in_tx_Inr)

lemma fold_apply_file_frames: "db_frames (fold (apply_file now repo) files db) = db_frames db"
  by (induction files arbitrary: db) (auto simp: apply_file_other)

lemma pg_register_files_frames:
  "pg_register_files fl now repo files s = (r, s') \<Longrightarrow> db_frames (sq_db s') = db_frames (sq_db s)"
  by (cases r rule: unit_sum_cases)
    (auto dest: pg_register_files_Inl pg_register_files_Inr simp: fold_apply_file_frames)

lemma pg_register_files_ok:
  assumes "sqlite_ok s" and "wf_files files" and "pg_register_files fl now repo files s = (r, s')"
  shows "sqlite_ok s'"
proof -
  have "meta_inv (sq_db s')"
    using assms fold_apply_file_inv
    by (cases r rule: unit_sum_cases) (auto simp: sqlite_ok_def dest: pg_register_files_Inl pg_register_files_Inr)
  with assms(1) pg_register_files_frames [OF assms(3)] show ?thesis by (simp add: sqlite_ok_def)
qed

text \<open>So the store keeps the contract of frame layouts: all its laws but those of file registrations are SQLite's.\<close>

lemma pg_ops_same [simp]:
  "register_xorb (pg_meta_ops fl pick now) = register_xorb (sqlite_meta_ops fl pick now)"
  "register_xorb_layout (pg_meta_ops fl pick now) = register_xorb_layout (sqlite_meta_ops fl pick now)"
  "set_owner_quota (pg_meta_ops fl pick now) = set_owner_quota (sqlite_meta_ops fl pick now)"
  "xorb_frame_layout (pg_meta_ops fl pick now) = xorb_frame_layout (sqlite_meta_ops fl pick now)"
  "xorb_frame_layouts (pg_meta_ops fl pick now) = xorb_frame_layouts (sqlite_meta_ops fl pick now)"
  by (simp_all add: pg_meta_ops_def sqlite_meta_ops_def)

interpretation postgres: layout_store "pg_meta_ops fl pick now" sqlite_layout sqlite_ok for fl pick now
proof
  fix m m' :: sql_state and r :: "core_error + unit" and repo files
  let ?M = "pg_meta_ops fl pick now"
  have files: "register_files ?M = pg_register_files fl now" by (simp add: pg_meta_ops_def)
  show "register_files ?M repo files m = (r, m') \<Longrightarrow> sqlite_layout m' = sqlite_layout m"
    unfolding files by (rule layout_frames_cong) (rule pg_register_files_frames)
  show "sqlite_ok m \<Longrightarrow> wf_files files \<Longrightarrow> register_files ?M repo files m = (r, m') \<Longrightarrow> sqlite_ok m'"
    unfolding files by (rule pg_register_files_ok)
qed (unfold pg_ops_same,
    (fact sqlite.layout_new sqlite.layout_known sqlite.layout_failed sqlite.layout_register_xorb sqlite.layout_set_quota
      sqlite.layout_read sqlite.layouts_read sqlite.ok_layout sqlite.ok_register_xorb sqlite.ok_set_quota)+)

end
