(* ===== verification/Server.thy ===== *)
theory Server
  imports Http_Contract Blob_Mem Blob_Fs Blob_S3 Meta_Postgres
begin

text \<open>
  The server put together: the handlers over the in-memory, the filesystem or the S3 blob store and the SQLite
  or the PostgreSQL metadata store. These keep the contract of \<open>Http_Contract\<close>. The histories are those of a server
  whose blob store never refuses a write; a refused write is where the stores can drift apart.
\<close>

interpretation mem_sqlite: cas_server mem_blob_ops mem_xorbs "sqlite_meta_ops fl pick now" sqlite_layout sqlite_ok
  for fl pick now
  by unfold_locales

interpretation fs_sqlite: cas_server "fs_blob_ops hex_lower root (\<lambda>n. fair (env n))" "fs_xorbs hex_lower root"
    "sqlite_meta_ops fl pick now" sqlite_layout sqlite_ok
  for root env fl pick now
  by unfold_locales

interpretation s3_postgres: cas_server "s3_blob_ops hex_lower P st (\<lambda>n. s3_fair (env n))" "s3_xorbs hex_lower st"
    "pg_meta_ops fl pick now" sqlite_layout sqlite_ok
  for P st env fl pick now
  by unfold_locales

section \<open>Histories\<close>

text \<open>The requests that write: uploads and quota changes, with any input and any outcome. The clock may
  differ from request to request.\<close>

inductive server_step ::
  "externals \<Rightarrow> faults \<Rightarrow> (nat \<Rightarrow> nat) \<Rightarrow> mem_blob_store \<times> sql_state \<Rightarrow> mem_blob_store \<times> sql_state \<Rightarrow> bool"
  for X fl pick where
  post_xorb: "svc_blobs svc = mem_blob_ops \<Longrightarrow> svc_meta svc = sqlite_meta_ops fl pick now \<Longrightarrow>
    upload_xorb X svc claims hash_hex body b m = (r, b', m') \<Longrightarrow> server_step X fl pick (b, m) (b', m')"
| post_shard: "svc_blobs svc = mem_blob_ops \<Longrightarrow> svc_meta svc = sqlite_meta_ops fl pick now \<Longrightarrow>
    upload_shard X svc claims body b m = (r, b', m') \<Longrightarrow> server_step X fl pick (b, m) (b', m')"
| put_quota: "svc_blobs svc = mem_blob_ops \<Longrightarrow> svc_meta svc = sqlite_meta_ops fl pick now \<Longrightarrow>
    put_owner_quota X svc owner authorization lim m = (r, m') \<Longrightarrow> server_step X fl pick (b, m) (b, m')"

inductive_cases server_stepE: "server_step X fl pick (b, m) s'"

definition server_start :: "mem_blob_store \<times> sql_state" where
  "server_start = (mem_new, \<lparr>sq_db = db_empty, sq_tick = 0\<rparr>)"

text \<open>What holds in every history: no capacity limit, the table invariant, agreement of the stores.\<close>

definition server_inv :: "externals \<Rightarrow> mem_blob_store \<times> sql_state \<Rightarrow> bool" where
  "server_inv X = (\<lambda>(b, m). mem_max_bytes b = None \<and> sqlite_ok m \<and> stores_agree X (mem_xorbs b) (sqlite_layout m))"

lemma mem_unlimited:
  assumes "mem_max_bytes b = None"
  shows "\<exists>f b2. put_xorb mem_blob_ops h body b = (Inr f, b2)"
  using assms by (auto simp: mem_blob_ops_def mem_put_xorb_def mem_reserve_def)

lemma mem_keeps_limit:
  "put_xorb mem_blob_ops h body b = (r, b') \<Longrightarrow> mem_max_bytes b' = mem_max_bytes b"
  "put_shard mem_blob_ops h body b = (r', b') \<Longrightarrow> mem_max_bytes b' = mem_max_bytes b"
  by (auto simp: mem_blob_ops_def mem_put_xorb_def mem_put_shard_def mem_reserve_def Let_def
      split: if_splits option.splits sum.splits prod.splits)

lemma upload_xorb_blob:
  assumes "upload_xorb X svc claims hash_hex body b m = (r, b', m')"
  shows "b' = b \<or> (\<exists>h r'. put_xorb (svc_blobs svc) h body b = (r', b'))"
  using assms by (auto simp: upload_xorb_def split: sum.splits prod.splits)

lemma upload_shard_blob:
  assumes "upload_shard X svc claims body b m = (r, b', m')"
  shows "b' = b \<or> (\<exists>h r'. put_shard (svc_blobs svc) h body b = (r', b'))"
  using assms by (cases rule: upload_shard_cases) auto

lemma put_owner_quota_meta:
  assumes "put_owner_quota X svc owner authorization lim m = (r, m')"
  shows "m' = m \<or> (\<exists>r'. set_owner_quota (svc_meta svc) owner lim m = (r', m'))"
  using assms by (auto simp: put_owner_quota_def split: sum.splits prod.splits)

lemma server_step_inv:
  assumes "server_step X fl pick s s'" and "server_inv X s" and "binds_count X"
  shows "server_inv X s'"
  using assms(1)
proof cases
  case (post_xorb svc now claims hash_hex body b m r b' m')
  have inv: "mem_max_bytes b = None" "sqlite_ok m" "stores_agree X (mem_xorbs b) (sqlite_layout m)"
    using assms(2) post_xorb(1) by (simp_all add: server_inv_def)
  have "mem_max_bytes b' = None"
    using upload_xorb_blob [OF post_xorb(5)] post_xorb(3) mem_keeps_limit(1) inv(1) by metis
  moreover have "sqlite_ok m'"
    using mem_sqlite.upload_xorb_ok [OF post_xorb(4) inv(2) post_xorb(5)] .
  moreover have "stores_agree X (mem_xorbs b') (sqlite_layout m')"
  proof (cases r)
    case (Inr fresh)
    then show ?thesis
      using mem_sqlite.upload_xorb_agree [OF post_xorb(3,4) inv(3,2) assms(3)] post_xorb(5) by blast
  next
    case (Inl e)
    then show ?thesis
      using mem_sqlite.upload_xorb_failed [OF post_xorb(3,4) _ mem_unlimited [OF inv(1)]] post_xorb(5) inv(3)
      by metis
  qed
  ultimately show ?thesis using post_xorb(2) by (simp add: server_inv_def)
next
  case (post_shard svc now claims body b m r b' m')
  have inv: "mem_max_bytes b = None" "sqlite_ok m" "stores_agree X (mem_xorbs b) (sqlite_layout m)"
    using assms(2) post_shard(1) by (simp_all add: server_inv_def)
  have "mem_max_bytes b' = None"
    using upload_shard_blob [OF post_shard(5)] post_shard(3) mem_keeps_limit(2) inv(1) by metis
  with mem_sqlite.upload_shard_ok [OF post_shard(4) inv(2) post_shard(5)]
    mem_sqlite.upload_shard_keeps [OF post_shard(3,4,5)] inv(3) post_shard(2)
  show ?thesis by (simp add: server_inv_def)
next
  case (put_quota svc now owner authorization lim m r m' b)
  have inv: "mem_max_bytes b = None" "sqlite_ok m" "stores_agree X (mem_xorbs b) (sqlite_layout m)"
    using assms(2) put_quota(1) by (simp_all add: server_inv_def)
  have "sqlite_ok m' \<and> sqlite_layout m' = sqlite_layout m"
    using put_owner_quota_meta [OF put_quota(5)] put_quota(4) inv(2)
      sqlite.ok_set_quota sqlite.layout_set_quota by metis
  with inv put_quota(2) show ?thesis by (simp add: server_inv_def)
qed

lemma server_start_inv: "server_inv X server_start"
  using db_empty_inv
  by (simp add: server_inv_def server_start_def mem_new_def sqlite_ok_def db_empty_def
      stores_agree_def sqlite_layout_def select_frames_def)

lemma server_reachable_inv:
  assumes "(server_step X fl pick)\<^sup>*\<^sup>* server_start s" and "binds_count X"
  shows "server_inv X s"
  using assms(1) by induction (use server_start_inv server_step_inv assms(2) in blast)+


section \<open>Downloads\<close>

lemma get_file_download_InrE:
  assumes "get_file_download X svc file_hex token repo filename b m = Inr resp"
  obtains h r user terms where "decode_hash file_hex = Inr h" "parse_owner_name repo = Inr r"
    "check_repo_access (svc_authz svc) token r Read = Inr user"
    "file_in_repo (svc_meta svc) h (repo_id r) m = Inr True"
    "lookup_file (svc_meta svc) h m = Inr (Some terms)"
    "fr_content_length resp = terms_total terms" "fr_stream resp = download_stream X svc terms b m"
  using assms
  by (auto simp: get_file_download_def decode_or_bad_def core_def rbind_eq_Inr rmap_err_eq_Inr ok_or_eq_Inr
      split: if_splits)


lemma download_stream_complete:
  assumes "svc_blobs svc = mem_blob_ops" "svc_meta svc = sqlite_meta_ops (\<lambda>_. None) pick now"
    and "stores_agree X (mem_xorbs b) (sqlite_layout m)"
    and "\<forall>t \<in> set ts. sqlite_layout m (ft_xorb t) \<noteq> [] \<and> \<not> term_range_invalid (sqlite_layout m (ft_xorb t)) t \<and>
      unat (ft_unpacked_segment_bytes t) \<le> MAX_TERM_UNPACKED_BYTES"
  shows "\<exists>ds. download_stream X svc ts b m = map Inr ds \<and> list_all2 (term_contents X) ts ds"
  using assms(4)
proof (induction ts)
  case (Cons t ts)
  have t: "sqlite_layout m (ft_xorb t) \<noteq> []" "\<not> term_range_invalid (sqlite_layout m (ft_xorb t)) t"
      "unat (ft_unpacked_segment_bytes t) \<le> MAX_TERM_UNPACKED_BYTES"
    using Cons.prems by simp_all
  have "xorb_frame_layout (sqlite_meta_ops (\<lambda>_. None) pick now) (ft_xorb t) m = Inr (sqlite_layout m (ft_xorb t))"
    by (simp add: sqlite_meta_ops_def sqlite_xorb_frame_layout_def query_def sqlite_layout_def)
  then obtain d where d: "fetch_and_decompress_term X svc t b m = Inr d"
    using mem_sqlite.fetch_term_complete [OF assms(1-3) _ mem.get_xorb_range_ok t] by blast
  moreover have "term_contents X t d"
    unfolding term_contents_def by (metis mem_sqlite.fetch_term_exact [OF assms(1-3) d])
  moreover obtain ds where "download_stream X svc ts b m = map Inr ds" "list_all2 (term_contents X) ts ds"
    using Cons by auto
  ultimately show ?case by (intro exI [of _ "d # ds"]) simp
qed simp


end
