(* ===== verification/Server_Example.thy ===== *)
theory Server_Example
  imports Server
begin

text \<open>
  A run of the server on concrete requests, used as the instance of the theorems about histories: one xorb of
  two chunks, one shard with a file over its first chunk. Decompression is the identity, hashes keep only what
  the theorems ask of them.
\<close>

definition plain_lib :: externals where
  "plain_lib = \<lparr>
     x_hmac_sha256 = (\<lambda>k m. replicate 32 (if m = [] then 0 else last m)), x_sha256 = (\<lambda>_. replicate 32 0),
     x_blake3 = (\<lambda>_. replicate 32 0), x_hex_encode = hex_lower, x_hex_decode = (\<lambda>s. Some (as_bytes s)),
     x_base64_decode = (\<lambda>_. None), x_filename_claim = (\<lambda>_. None), x_decompress = (\<lambda>_ d. Inr d),
     x_data_hash = (\<lambda>_. hash_zero),
     x_xorb_hash = (\<lambda>es. Hash32 (le64 (word_of_nat (length es) - 2) @ replicate 24 0)),
     x_header_value = Inr\<rparr>"

definition ex_service :: "(mem_blob_store, sql_state) service" where
  "ex_service = \<lparr>svc_blobs = mem_blob_ops, svc_meta = sqlite_meta_ops (\<lambda>_. None) id 0, svc_authz = always_allow_ops,
     svc_transfer_secret = replicate 32 0, svc_public_base_url = ''http://cas'', svc_default_quota_bytes = None,
     svc_admin_token = None\<rparr>"

definition ex_claims :: token_claims where
  "ex_claims = \<lparr>tc_user = ''alice'', tc_repo = ex_repo, tc_scope = Write, tc_expires_at = 100\<rparr>"

lemma plain_lib_binds_count: "binds_count plain_lib"
  unfolding binds_count_def
proof (intro allI impI)
  fix a b :: "(hash32 \<times> nat) list"
  assume "length a < 2 ^ 32 \<and> length b < 2 ^ 32 \<and> x_xorb_hash plain_lib a = x_xorb_hash plain_lib b"
  then have "length a < 2 ^ 32" "length b < 2 ^ 32" and
    "le64 (word_of_nat (length a) - 2) = le64 (word_of_nat (length b) - 2)"
    by (simp_all add: plain_lib_def)
  from arg_cong [OF this(3), of "from_le :: bytes \<Rightarrow> u64"] have "(word_of_nat (length a) :: u64) = word_of_nat (length b)"
    by simp
  from arg_cong [OF this, of unat] \<open>length a < 2 ^ 32\<close> \<open>length b < 2 ^ 32\<close> show "length a = length b"
    by (simp add: unat_of_nat)
qed

lemma hash_zero_wf [simp]: "wf_hash hash_zero"
  by (simp add: wf_hash_def hash_zero_def)

lemma le64_zero: "le64 0 @ replicate 24 0 = replicate 32 0"
  by (simp add: le64_def numeral_eq_Suc)

lemma plain_xorb_hash: "length es = 2 \<Longrightarrow> x_xorb_hash plain_lib es = hash_zero"
  by (simp add: plain_lib_def le64_zero hash_zero_def HASH_LEN_def)

lemma plain_decompress: "x_decompress plain_lib = (\<lambda>_ d. Inr d)"
  by (simp add: plain_lib_def)

lemma ex_verified: "verified plain_lib hash_zero xorb_example"
  by (simp add: verified_def verify_xorb_body_def xorb_example_parse)
    (simp add: xorb_example_def xorb_example_frames_def decompress_frame_def frame_scheme_def
      frame_payload_def HEADER_LEN_def plain_xorb_hash plain_decompress)

definition ex_rows :: "xorb_frame_row list" where
  "ex_rows = layout_rows xorb_example_frames"

definition ex_state1 :: "mem_blob_store \<times> sql_state" where
  "ex_state1 = (mem_new\<lparr>mem_xorbs := [hash_zero \<mapsto> xorb_example]\<rparr>,
     \<lparr>sq_db = insert_frames hash_zero ex_rows db_empty, sq_tick = 3\<rparr>)"

lemma one_batch: "xs \<noteq> [] \<Longrightarrow> length xs \<le> CHUNK_INSERT_BATCH \<Longrightarrow> batches CHUNK_INSERT_BATCH xs = [xs]"
  by (simp add: batches.simps [of _ xs] batches.simps [of _ "[]"])

text \<open>The writes without faults, for lists that fit one batch.\<close>

lemma calm_layout:
  "rows \<noteq> [] \<Longrightarrow> length rows \<le> CHUNK_INSERT_BATCH \<Longrightarrow> sqlite_register_xorb_layout (\<lambda>_. None) h rows s =
     (Inr (), \<lparr>sq_db = insert_frames h rows (sq_db s), sq_tick = sq_tick s + 3\<rparr>)"
  by (simp add: sqlite_register_xorb_layout_def in_tx_def exec_stmt_def one_batch)

lemma calm_xorb:
  "cs \<noteq> [] \<Longrightarrow> length cs \<le> CHUNK_INSERT_BATCH \<Longrightarrow> sqlite_register_xorb (\<lambda>_. None) now x cs s =
     (Inr (), \<lparr>sq_db = insert_chunks (xi_xorb x) cs (insert_xorb now x (sq_db s)), sq_tick = sq_tick s + 4\<rparr>)"
  by (simp add: sqlite_register_xorb_def in_tx_def exec_stmt_def one_batch)

lemma calm_file:
  "ts \<noteq> [] \<Longrightarrow> length ts \<le> CHUNK_INSERT_BATCH \<Longrightarrow> \<not> terms_exist h (insert_file now h repo ts (sq_db s)) \<Longrightarrow>
   sqlite_register_files (\<lambda>_. None) now repo [(h, ts)] s =
     (Inr (), \<lparr>sq_db = apply_file now repo (h, ts) (sq_db s), sq_tick = sq_tick s + 5\<rparr>)"
  using one_batch [of "enumerate 0 ts"]
  by (cases ts) (simp_all add: sqlite_register_files_def in_tx_def exec_stmt_def write_file_in_tx_def apply_file_def Let_def)

lemma ex_rows_small: "ex_rows \<noteq> []" "length ex_rows \<le> CHUNK_INSERT_BATCH"
  by (simp_all add: ex_rows_def xorb_example_frames_def layout_rows_def CHUNK_INSERT_BATCH_def)

lemma ex_checks:
  "upload_xorb_checks plain_lib ex_service claims (encode_hash hash_zero) xorb_example mem_new
     \<lparr>sq_db = db_empty, sq_tick = 0\<rparr> = Inr (hash_zero, ex_rows)"
  by (simp add: upload_xorb_checks_def decode_or_bad_def decode_encode_hash xorb_example_parse ex_rows_def Let_def
      ex_verified [unfolded verified_def] xorb_quota_check_def effective_quota_def core_def ex_service_def
      sqlite_meta_ops_def sqlite_get_owner_quota_def query_def db_empty_def MAX_BODY_BYTES_def)
    (simp add: xorb_example_def)

lemma ex_run1:
  "upload_xorb plain_lib ex_service claims (encode_hash hash_zero) xorb_example mem_new
     \<lparr>sq_db = db_empty, sq_tick = 0\<rparr> = (Inr True, fst ex_state1, snd ex_state1)"
  by (simp add: upload_xorb_def ex_checks ex_state1_def)
    (simp add: ex_service_def sqlite_meta_ops_def mem_blob_ops_def calm_layout ex_rows_small
      mem_put_xorb_def mem_new_def mem_reserve_def core_def)

definition ex_file_term :: file_term where
  "ex_file_term = \<lparr>ft_xorb = hash_zero, ft_chunk_idx_start = 0, ft_chunk_idx_end = 1, ft_unpacked_segment_bytes = 7,
     ft_verification = Some hash_zero\<rparr>"

definition ex_info :: xorb_info where
  "ex_info = \<lparr>xi_xorb = hash_zero, xi_num_chunks = 1, xi_num_bytes_in_cas = 7, xi_num_bytes_on_disk = 19\<rparr>"

definition ex_chunks :: "chunk_row list" where
  "ex_chunks = [\<lparr>cr_chunk_hash = hash_zero, cr_chunk_index = 0, cr_byte_start = 0, cr_unpacked_segment_bytes = 7\<rparr>]"

definition ex_db2 :: meta_db where
  "ex_db2 = apply_file 0 ex_repo (hash_zero, [ex_file_term])
     (insert_chunks hash_zero ex_chunks (insert_xorb 0 ex_info (insert_frames hash_zero ex_rows db_empty)))"

definition ex_state2 :: "mem_blob_store \<times> sql_state" where
  "ex_state2 = (mem_new\<lparr>mem_xorbs := [hash_zero \<mapsto> xorb_example],
      mem_shards := [hash_zero \<mapsto> serialize shard_example]\<rparr>, \<lparr>sq_db = ex_db2, sq_tick = 12\<rparr>)"

lemma ex_parse: "parse (serialize shard_example) = Inr (relocate_footer shard_example)"
  by (rule parse_serialize [OF shard_example_wf shard_example_length])

lemma ex_layout1: "sqlite_layout (snd ex_state1) = (\<lambda>_. [])(hash_zero := ex_rows)"
  by (simp add: ex_state1_def sqlite_layout_def fun_eq_iff ex_rows_def xorb_example_frames_def layout_rows_def
      insert_frames_def insert_ignore_all_def insert_ignore_def db_empty_def select_frames_def mk_frame_rec_def
      row_to_frame_def frame_key_def get_u32_def)

lemma ex_reach1: "(server_step plain_lib (\<lambda>_. None) id)\<^sup>*\<^sup>* server_start ex_state1"
  using post_xorb [of ex_service "\<lambda>_. None" id 0, OF _ _ ex_run1]
  by (simp add: ex_service_def server_start_def r_into_rtranclp)

lemma ex_shard_parts:
  "ps_cas_blocks (relocate_footer shard_example) = [\<lparr>cb_xorb = hash_zero, cb_cas_flags = 0,
     cb_num_bytes_in_cas = 7, cb_num_bytes_on_disk = 15,
     cb_chunks = [\<lparr>cc_chunk_hash = hash_zero, cc_byte_start = 0, cc_unpacked_segment_bytes = 7\<rparr>]\<rparr>]"
  "shard_entries (relocate_footer shard_example) = [\<lparr>fe_xorb = hash_zero, fe_cas_flags = 0,
     fe_unpacked_segment_bytes = 7, fe_chunk_idx_start = 0, fe_chunk_idx_end = 1\<rparr>]"
  "rmapM file_to_register (ps_files (relocate_footer shard_example)) = Inr [(hash_zero, [ex_file_term])]"
  by (simp_all add: relocate_footer_def shard_example_def shard_entries_def file_to_register_def shard_term_def
      ex_file_term_def)

lemma ex_layouts:
  "sqlite_xorb_frame_layouts (\<lambda>_. None) [hash_zero] (snd ex_state1) = Inr [hash_zero \<mapsto> ex_rows]"
proof -
  have "sqlite_ok (snd ex_state1)"
    using server_reachable_inv [OF ex_reach1 plain_lib_binds_count] by (simp add: server_inv_def case_prod_beta)
  then show ?thesis
    using frame_layouts_eq [of "snd ex_state1" "\<lambda>_. None" "[hash_zero]"] fun_cong [OF ex_layout1, of hash_zero] ex_rows_small(1)
    by (auto simp: sqlite_ok_def sqlite_layout_def fun_eq_iff)
qed

lemma ex_shard_checks:
  "upload_shard_checks ex_service (serialize shard_example) (fst ex_state1) (snd ex_state1) =
   Inr (relocate_footer shard_example, [hash_zero \<mapsto> ex_rows])"
proof -
  have "\<not> MAX_BODY_BYTES < length (serialize shard_example)"
    using shard_example_length by (simp add: MAX_SHARD_BYTES_def MAX_BODY_BYTES_def)
  moreover have "xorb_exists (svc_blobs ex_service) hash_zero (fst ex_state1) = Inr True"
    by (simp add: ex_service_def mem_blob_ops_def mem_xorb_exists_def ex_state1_def)
  moreover have "xorb_frame_layouts (svc_meta ex_service) [hash_zero] (snd ex_state1) = Inr [hash_zero \<mapsto> ex_rows]"
    using ex_layouts by (simp add: ex_service_def sqlite_meta_ops_def)
  ultimately show ?thesis
    by (simp add: upload_shard_checks_def ex_parse ex_shard_parts require_xorb_def core_def)
qed

lemma shard_checks_cong:
  assumes "svc_blobs svc = svc_blobs svc'" and "svc_meta svc = svc_meta svc'"
  shows "upload_shard_checks svc body b m = upload_shard_checks svc' body b m"
proof -
  have r: "require_xorb svc h b = require_xorb svc' h b" for h using assms by (simp add: require_xorb_def)
  have "check_cas_blocks svc cbs b = check_cas_blocks svc' cbs b" for cbs by (induction cbs) (simp_all add: r)
  moreover have "check_file_terms svc es b = check_file_terms svc' es b" for es by (induction es) (simp_all add: r)
  ultimately show ?thesis using assms by (simp add: upload_shard_checks_def)
qed

definition ex_db1 :: meta_db where
  "ex_db1 = insert_chunks hash_zero ex_chunks (insert_xorb 0 ex_info (sq_db (snd ex_state1)))"

lemma ex_db1_tables:
  "db_quotas ex_db1 = []" "db_files ex_db1 = []" "db_terms ex_db1 = []" "db_xorbs ex_db1 = [mk_xorb_rec 0 ex_info]"
  by (simp_all add: ex_db1_def insert_chunks_def insert_xorb_def insert_ignore_def ex_state1_def insert_frames_def db_empty_def)

lemma ex_cas:
  "register_cas_blocks (svc_meta ex_service) [hash_zero \<mapsto> ex_rows] (ps_cas_blocks (relocate_footer shard_example))
     (snd ex_state1) = (Inr (), \<lparr>sq_db = ex_db1, sq_tick = 7\<rparr>)"
proof -
  have "sum_list (map xf_on_disk_len ex_rows) = 19"
    by (simp add: ex_rows_def layout_rows_def xorb_example_frames_def)
  moreover have "sq_tick (snd ex_state1) = 3" by (simp add: ex_state1_def)
  ultimately show ?thesis
    by (simp add: ex_shard_parts cas_block_info_def cas_block_rows_def Let_def ex_service_def sqlite_meta_ops_def
        calm_xorb CHUNK_INSERT_BATCH_def ex_chunks_def ex_info_def ex_db1_def)
qed

lemma ex_register_files:
  "register_files (svc_meta ex_service) ex_repo [(hash_zero, [ex_file_term])] \<lparr>sq_db = ex_db1, sq_tick = 7\<rparr> =
   (Inr (), snd ex_state2)"
proof -
  have "\<not> terms_exist hash_zero (insert_file 0 hash_zero ex_repo [ex_file_term] ex_db1)"
    by (simp add: terms_exist_def insert_file_def ex_db1_tables)
  then show ?thesis
    using calm_file [of "[ex_file_term]" hash_zero 0 ex_repo "\<lparr>sq_db = ex_db1, sq_tick = 7\<rparr>"]
    by (simp add: ex_service_def sqlite_meta_ops_def CHUNK_INSERT_BATCH_def ex_state2_def ex_db2_def ex_db1_def ex_state1_def)
qed

lemma ex_put_shard:
  "put_shard (svc_blobs ex_service) (shard_storage_hash plain_lib (serialize shard_example)) (serialize shard_example)
     (fst ex_state1) = (Inr (), fst ex_state2)"
  by (simp add: ex_service_def mem_blob_ops_def mem_put_shard_def mem_reserve_def shard_storage_hash_def plain_lib_def
      ex_state1_def ex_state2_def mem_new_def hash_zero_def HASH_LEN_def)

lemma ex_run:
  assumes "svc_blobs svc = svc_blobs ex_service" and "svc_meta svc = svc_meta ex_service"
    and "\<And>owner. shard_quota_check svc owner (relocate_footer shard_example) \<lparr>sq_db = ex_db1, sq_tick = 7\<rparr> = Inr ()"
  shows "upload_shard plain_lib svc ex_claims (serialize shard_example) (fst ex_state1) (snd ex_state1) =
    (Inr 1, fst ex_state2, snd ex_state2)"
proof -
  have "upload_shard_checks svc (serialize shard_example) (fst ex_state1) (snd ex_state1) =
      Inr (relocate_footer shard_example, [hash_zero \<mapsto> ex_rows])"
    using shard_checks_cong [OF assms(1,2)] ex_shard_checks by simp
  moreover have "tc_repo ex_claims = ex_repo" by (simp add: ex_claims_def)
  ultimately show ?thesis
    by (simp add: upload_shard_def assms ex_cas ex_shard_parts(3) ex_put_shard ex_register_files)
qed

lemma ex_run2:
  "upload_shard plain_lib ex_service ex_claims (serialize shard_example) (fst ex_state1) (snd ex_state1) =
   (Inr 1, fst ex_state2, snd ex_state2)"
  by (rule ex_run) (simp_all add: shard_quota_check_def effective_quota_def core_def ex_service_def sqlite_meta_ops_def
      sqlite_get_owner_quota_def query_def ex_db1_tables)

lemma ex_reach2: "(server_step plain_lib (\<lambda>_. None) id)\<^sup>*\<^sup>* server_start ex_state2"
proof -
  have "server_step plain_lib (\<lambda>_. None) id (fst ex_state1, snd ex_state1) (fst ex_state2, snd ex_state2)"
    using post_shard [of ex_service "\<lambda>_. None" id 0, OF _ _ ex_run2] by (simp add: ex_service_def)
  with ex_reach1 show ?thesis by simp
qed

section \<open>Reads\<close>

lemmas ex_tables = ex_state2_def ex_db2_def apply_file_def insert_file_def insert_terms_def insert_chunks_def
  insert_xorb_def insert_frames_def insert_replace_def insert_ignore_all_def insert_ignore_def terms_exist_def
  db_empty_def mk_file_rec_def mk_term_rec_def Let_def

lemma ex_lookup: "sqlite_lookup_file (\<lambda>_. None) id hash_zero (snd ex_state2) = Inr (Some [ex_file_term])"
proof -
  have "select_terms hash_zero (sq_db (snd ex_state2)) = [mk_term_rec hash_zero (0, ex_file_term)]"
    by (simp add: select_terms_def ex_tables)
  moreover have "db_files (sq_db (snd ex_state2)) = [mk_file_rec 0 hash_zero ex_repo [ex_file_term]]"
    by (simp add: ex_tables)
  moreover have "wf_term ex_file_term" by (simp add: wf_term_def ex_file_term_def)
  moreover have "ft_unpacked_segment_bytes ex_file_term = 7" by (simp add: ex_file_term_def)
  ultimately show ?thesis
    by (simp add: sqlite_lookup_file_def query_def row_to_file_term_mk limit1_def mk_file_rec_def
        terms_total_def nonneg_i64_to_u64_def as_i64_small i64_max_def)
qed

definition ex_response :: file_response where
  "ex_response = \<lparr>fr_content_length = 7, fr_content_disposition = None,
     fr_stream = download_stream plain_lib ex_service [ex_file_term] (fst ex_state2) (snd ex_state2)\<rparr>"

lemma ex_download:
  "get_file_download plain_lib ex_service (encode_hash hash_zero) ''t'' ''alice/m'' None (fst ex_state2) (snd ex_state2) =
   Inr ex_response"
proof -
  have m: "svc_meta ex_service = sqlite_meta_ops (\<lambda>_. None) id 0" by (simp add: ex_service_def)
  have r: "parse_owner_name ''alice/m'' = Inr ex_repo"
    by (simp add: parse_owner_name_def ex_repo_def)
  have f: "sqlite_file_in_repo (\<lambda>_. None) hash_zero (repo_id ex_repo) (snd ex_state2) = Inr True"
    by (simp add: sqlite_file_in_repo_def query_def ex_tables)
  show ?thesis
    by (simp add: get_file_download_def decode_or_bad_def decode_encode_hash r core_def m sqlite_meta_ops_def f ex_lookup
        validated_filename_def disposition_header_def ex_response_def terms_total_def)
      (simp add: ex_service_def always_allow_ops_def ex_file_term_def)
qed

lemma ex_layout2: "sqlite_layout (snd ex_state2) hash_zero = ex_rows"
proof -
  have "db_frames (sq_db (snd ex_state2)) = db_frames (sq_db (snd ex_state1))"
    by (simp add: ex_tables ex_state1_def)
  then have "sqlite_layout (snd ex_state2) = sqlite_layout (snd ex_state1)" by (rule layout_frames_cong)
  then show ?thesis by (simp add: ex_layout1)
qed




end
