(* ===== verification/Stale_Layout.thy ===== *)
theory Stale_Layout
  imports Server_Example
begin

text \<open>
  What a refused blob write leaves behind. The upload handler records the layout before it stores the body and
  takes a layout without a body for harmless. The table keeps the first layout of a xorb, so when the body of
  that upload is refused and the same chunks arrive later in another compression, the old layout stays and no longer
  describes the stored body.
\<close>

text \<open>Two bodies with the same two chunks, the first chunk stored plain or halved by a decompressor that doubles.\<close>

definition body_plain :: bytes where
  "body_plain = [0, 2, 0, 0, 0, 2, 0, 0, 5, 5,  0, 1, 0, 0, 0, 1, 0, 0, 9]"

definition body_packed :: bytes where
  "body_packed = [0, 1, 0, 0, 1, 2, 0, 0, 5,  0, 1, 0, 0, 0, 1, 0, 0, 9]"

definition doubling_lib :: externals where
  "doubling_lib = plain_lib\<lparr>x_decompress := (\<lambda>sch d. if sch = SchemeLZ4 then Inr (d @ d) else Inr d)\<rparr>"

definition frames_plain :: "xorb_chunk_frame list" where
  "frames_plain = [\<lparr>xc_on_disk_start = 0, xc_on_disk_len = 10, xc_uncompressed_len = 2, xc_compression_scheme = 0\<rparr>,
     \<lparr>xc_on_disk_start = 10, xc_on_disk_len = 9, xc_uncompressed_len = 1, xc_compression_scheme = 0\<rparr>]"

definition frames_packed :: "xorb_chunk_frame list" where
  "frames_packed = [\<lparr>xc_on_disk_start = 0, xc_on_disk_len = 9, xc_uncompressed_len = 2, xc_compression_scheme = 1\<rparr>,
     \<lparr>xc_on_disk_start = 9, xc_on_disk_len = 9, xc_uncompressed_len = 1, xc_compression_scheme = 0\<rparr>]"

lemma parse_plain: "parse_xorb_frames body_plain = Inr frames_plain"
  by (simp add: parse_xorb_frames_def body_plain_def frames_plain_def xorb_frames_loop.simps HEADER_LEN_def u24_le_def
      u32_max_def u64_max_def)

lemma parse_packed: "parse_xorb_frames body_packed = Inr frames_packed"
  by (simp add: parse_xorb_frames_def body_packed_def frames_packed_def xorb_frames_loop.simps HEADER_LEN_def u24_le_def
      u32_max_def u64_max_def)

lemma doubling_hash: "length es = 2 \<Longrightarrow> x_xorb_hash doubling_lib es = hash_zero"
  using plain_xorb_hash [of es] by (simp add: doubling_lib_def)

lemma doubling_decompress: "x_decompress doubling_lib sch d = (if sch = SchemeLZ4 then Inr (d @ d) else Inr d)"
  by (simp add: doubling_lib_def)

lemma verified_plain: "verified doubling_lib hash_zero body_plain"
  by (simp add: verified_def verify_xorb_body_def parse_plain)
    (simp add: body_plain_def frames_plain_def decompress_frame_def frame_scheme_def frame_payload_def HEADER_LEN_def
      doubling_hash doubling_decompress)

lemma verified_packed: "verified doubling_lib hash_zero body_packed"
  by (simp add: verified_def verify_xorb_body_def parse_packed)
    (simp add: body_packed_def frames_packed_def decompress_frame_def frame_scheme_def frame_payload_def HEADER_LEN_def
      doubling_hash doubling_decompress)

lemma doubling_checks:
  assumes "verified doubling_lib hash_zero body" and "parse_xorb_frames body = Inr frames"
    and "length body \<le> MAX_BODY_BYTES" and "db_quotas (sq_db m) = []"
  shows "upload_xorb_checks doubling_lib ex_service ex_claims (encode_hash hash_zero) body b m =
    Inr (hash_zero, layout_rows frames)"
  using assms(1) [unfolded verified_def] assms(2-4)
  by (simp add: upload_xorb_checks_def decode_or_bad_def decode_encode_hash Let_def
      xorb_quota_check_def effective_quota_def core_def ex_service_def
      sqlite_meta_ops_def sqlite_get_owner_quota_def query_def)

definition stale_db :: meta_db where
  "stale_db = insert_frames hash_zero (layout_rows frames_plain) db_empty"

lemma refused:
  "upload_xorb doubling_lib ex_service ex_claims (encode_hash hash_zero) body_plain (mem_with_max_bytes 18 mem_new)
     \<lparr>sq_db = db_empty, sq_tick = 0\<rparr> =
   (Inl (ApiError 400 ''mem store capacity exhausted''), mem_with_max_bytes 18 mem_new, \<lparr>sq_db = stale_db, sq_tick = 3\<rparr>)"
proof -
  have "upload_xorb_checks doubling_lib ex_service ex_claims (encode_hash hash_zero) body_plain
      (mem_with_max_bytes 18 mem_new) \<lparr>sq_db = db_empty, sq_tick = 0\<rparr> = Inr (hash_zero, layout_rows frames_plain)"
    by (rule doubling_checks [OF verified_plain parse_plain]) (simp_all add: body_plain_def MAX_BODY_BYTES_def db_empty_def)
  moreover have "layout_rows frames_plain \<noteq> []" "length (layout_rows frames_plain) \<le> CHUNK_INSERT_BATCH"
    by (simp_all add: frames_plain_def layout_rows_def CHUNK_INSERT_BATCH_def)
  moreover have "length body_plain = 19" by (simp add: body_plain_def)
  ultimately show ?thesis
    by (simp add: upload_xorb_def ex_service_def sqlite_meta_ops_def mem_blob_ops_def calm_layout stale_db_def
        mem_put_xorb_def mem_new_def mem_with_max_bytes_def mem_reserve_def reserve_next_def u64_max_def core_def
        api_of_core_def)
qed

lemma stale_layout: "sqlite_layout \<lparr>sq_db = stale_db, sq_tick = n\<rparr> hash_zero = layout_rows frames_plain"
  by (simp add: stale_db_def sqlite_layout_def frames_plain_def layout_rows_def
      insert_frames_def insert_ignore_all_def insert_ignore_def db_empty_def select_frames_def mk_frame_rec_def
      row_to_frame_def frame_key_def get_u32_def)

lemma stale_kept: "insert_frames hash_zero (layout_rows frames_packed) stale_db = stale_db"
  by (simp add: stale_db_def frames_plain_def frames_packed_def layout_rows_def
      insert_frames_def insert_ignore_all_def insert_ignore_def db_empty_def mk_frame_rec_def frame_key_def)

definition stale_blobs :: mem_blob_store where
  "stale_blobs = \<lparr>mem_xorbs = [hash_zero \<mapsto> body_packed], mem_shards = Map.empty, mem_stored_bytes = 18,
     mem_max_bytes = Some 18\<rparr>"

lemma accepted:
  "upload_xorb doubling_lib ex_service ex_claims (encode_hash hash_zero) body_packed (mem_with_max_bytes 18 mem_new)
     \<lparr>sq_db = stale_db, sq_tick = 3\<rparr> = (Inr True, stale_blobs, \<lparr>sq_db = stale_db, sq_tick = 6\<rparr>)"
proof -
  have "db_quotas stale_db = []" by (simp add: stale_db_def insert_frames_def db_empty_def)
  then have "upload_xorb_checks doubling_lib ex_service ex_claims (encode_hash hash_zero) body_packed
      (mem_with_max_bytes 18 mem_new) \<lparr>sq_db = stale_db, sq_tick = 3\<rparr> = Inr (hash_zero, layout_rows frames_packed)"
    by (intro doubling_checks [OF verified_packed parse_packed]) (simp_all add: body_packed_def MAX_BODY_BYTES_def)
  moreover have "layout_rows frames_packed \<noteq> []" "length (layout_rows frames_packed) \<le> CHUNK_INSERT_BATCH"
    by (simp_all add: frames_packed_def layout_rows_def CHUNK_INSERT_BATCH_def)
  moreover have "length body_packed = 18" by (simp add: body_packed_def)
  ultimately show ?thesis
    by (simp add: upload_xorb_def ex_service_def sqlite_meta_ops_def mem_blob_ops_def calm_layout stale_kept stale_blobs_def
        mem_put_xorb_def mem_new_def mem_with_max_bytes_def mem_reserve_def reserve_next_def u64_max_def core_def)
qed

definition second_chunk :: file_term where
  "second_chunk = \<lparr>ft_xorb = hash_zero, ft_chunk_idx_start = 1, ft_chunk_idx_end = 2, ft_unpacked_segment_bytes = 1,
     ft_verification = None\<rparr>"

lemma second_chunk_lost:
  "fetch_and_decompress_term doubling_lib ex_service second_chunk stale_blobs \<lparr>sq_db = stale_db, sq_tick = 6\<rparr> =
   Inl (ApiError 500 ''decompress term: xorb contained no chunk frames'')"
proof -
  have lay: "xorb_frame_layout (svc_meta ex_service) hash_zero \<lparr>sq_db = stale_db, sq_tick = 6\<rparr> =
      Inr (layout_rows frames_plain)"
    using stale_layout [of 6]
    by (simp add: ex_service_def sqlite_meta_ops_def sqlite_xorb_frame_layout_def query_def sqlite_layout_def)
  have "get_xorb_range (svc_blobs ex_service) hash_zero 10 19 stale_blobs = Inr [1, 0, 0, 0, 1, 0, 0, 9]"
    by (simp add: ex_service_def mem_blob_ops_def mem_get_xorb_range_def stale_blobs_def body_packed_def)
  moreover have "parse_xorb_frames [1, 0, 0, 0, 1, 0, 0, 9] = Inl XorbEmpty"
    by (simp add: parse_xorb_frames_def xorb_frames_loop.simps HEADER_LEN_def u32_max_def)
  ultimately show ?thesis using lay
    by (simp add: fetch_and_decompress_term_def second_chunk_def core_def term_range_invalid_def term_byte_range_def
        MAX_TERM_UNPACKED_BYTES_def decompress_xorb_chunks_into_def xorb_verify_error_text_def xorb_parse_error_text_def)
      (simp add: frames_plain_def layout_rows_def word_le_nat_alt xorb_verify_error_text_def xorb_parse_error_text_def)
qed

text \<open>C39: a layout without a body is not harmless. On a server whose blob store has room for 18 bytes, the upload of the plain
  body is refused after its layout was recorded; the packed body with the same chunks and hash is then
  accepted and stored, but the recorded layout stays that of the refused body, so that the second chunk of
  the stored xorb cannot be served.\<close>

theorem refused_put_leaves_stale_layout:
  "\<exists>e b1 m1 b2 m2.
     upload_xorb doubling_lib ex_service ex_claims (encode_hash hash_zero) body_plain
       (mem_with_max_bytes 18 mem_new) \<lparr>sq_db = db_empty, sq_tick = 0\<rparr> = (Inl e, b1, m1) \<and>
     upload_xorb doubling_lib ex_service ex_claims (encode_hash hash_zero) body_packed b1 m1 = (Inr True, b2, m2) \<and>
     mem_xorbs b2 hash_zero = Some body_packed \<and> verified doubling_lib hash_zero body_packed \<and>
     sqlite_layout m2 hash_zero \<noteq> body_layout body_packed \<and>
     (\<exists>msg. fetch_and_decompress_term doubling_lib ex_service second_chunk b2 m2 = Inl (ApiError 500 msg))"
proof -
  have "layout_rows frames_plain \<noteq> body_layout body_packed"
    by (simp add: body_layout_def parse_packed) (simp add: frames_plain_def frames_packed_def layout_rows_def)
  then have "sqlite_layout \<lparr>sq_db = stale_db, sq_tick = 6\<rparr> hash_zero \<noteq> body_layout body_packed"
    by (simp only: stale_layout not_False_eq_True)
  moreover have "mem_xorbs stale_blobs hash_zero = Some body_packed" by (simp add: stale_blobs_def)
  ultimately show ?thesis using refused accepted verified_packed second_chunk_lost by blast
qed

end
