(* ===== verification/Http_Transfer.thy ===== *)
theory Http_Transfer
  imports Server_Example
begin

text \<open>
  Ranged transfers and reconstruction answers: the signed URL is the only way to a range, it is accepted until
  it expires, and the ranges a reconstruction hands out decompress to the file's contents.
\<close>

section \<open>The Range header\<close>

lemma range_header_InrE:
  assumes "parse_byte_range_header v = Inr (s, e)"
  obtains rng where "v = Some rng" "s \<le> e" "e \<le> u64_max"
  using assms from_str_radix_bound [of u64_max 10]
  by (fastforce simp: parse_byte_range_header_def parse_u64_def rbind_eq_Inr ok_or_eq_Inr split: if_splits)

lemma range_header_show:
  assumes "s \<le> e" and "e \<le> u64_max"
  shows "parse_byte_range_header (Some (''bytes='' @ show_nat s @ ''-'' @ show_nat e)) = Inr (s, e)"
proof -
  have "split_once (CHR ''-'') (show_nat s @ ''-'' @ show_nat e) = Some (show_nat s, show_nat e)"
    using split_once_append [OF show_nat_no_dash, of s "show_nat e"] by simp
  moreover have "strip_prefix ''bytes='' (''bytes='' @ show_nat s @ ''-'' @ show_nat e) = Some (show_nat s @ ''-'' @ show_nat e)"
    by (rule strip_prefix_append)
  ultimately show ?thesis
    using assms
    by (simp add: parse_byte_range_header_def trim_graphic show_nat_graphic parse_u64_show_nat del: append.simps)
qed

section \<open>Transfers\<close>

lemma transfer_InrE:
  assumes "get_xorb_transfer X svc now hash_hex q range_header b = Inr resp"
  obtains h rng where "decode_hash hash_hex = Inr h"
    "ct_eq (as_bytes (sign X (svc_transfer_secret svc) \<lparr>sr_hash_hex = hash_hex, sr_start = tq_s q,
        sr_end_inclusive = tq_e q, sr_exp = tq_x q\<rparr>)) (as_bytes (tq_sig q))"
    "now \<le> tq_x q" "range_header = Some (Some rng)" "parse_byte_range_header (Some rng) = Inr (tq_s q, tq_e q)"
    "get_xorb_range (svc_blobs svc) h (tq_s q) ((tq_e q + 1) mod 2 ^ 64) b = Inr (tr_body resp)"
    "tr_status resp = 206" "tr_content_length resp = length (tr_body resp)"
proof -
  from assms obtain h rh bs cr where
    t: "decode_hash hash_hex = Inr h" "range_header = Some rh"
      "ct_eq (as_bytes (sign X (svc_transfer_secret svc) \<lparr>sr_hash_hex = hash_hex, sr_start = tq_s q,
        sr_end_inclusive = tq_e q, sr_exp = tq_x q\<rparr>)) (as_bytes (tq_sig q))" "\<not> tq_x q < now"
      "parse_byte_range_header rh = Inr (tq_s q, tq_e q)"
      "get_xorb_range (svc_blobs svc) h (tq_s q) ((tq_e q + 1) mod 2 ^ 64) b = Inr bs"
      "resp = \<lparr>tr_status = 206, tr_body = bs, tr_content_length = length bs, tr_content_range = cr\<rparr>"
    by (auto simp: get_xorb_transfer_def decode_or_bad_def core_def Let_def rbind_eq_Inr rmap_err_eq_Inr ok_or_eq_Inr
        split: if_splits)
  obtain rng where "rh = Some rng" using range_header_InrE [OF t(5)] by blast
  with t that show ?thesis by (simp add: not_less)
qed

context blob_store
begin

lemma transfer_slice:
  assumes "svc_blobs svc = B" and "get_xorb_transfer X svc now hash_hex q range_header b = Inr resp"
    and "tq_e q < u64_max"
  obtains h rng body where "decode_hash hash_hex = Inr h" "xorbs b h = Some body"
    "tr_body resp = take (tq_e q + 1 - tq_s q) (drop (tq_s q) body)" "tr_status resp = 206"
    "now \<le> tq_x q" "range_header = Some (Some rng)" "parse_byte_range_header (Some rng) = Inr (tq_s q, tq_e q)"
    "ct_eq (as_bytes (sign X (svc_transfer_secret svc) \<lparr>sr_hash_hex = hash_hex, sr_start = tq_s q,
        sr_end_inclusive = tq_e q, sr_exp = tq_x q\<rparr>)) (as_bytes (tq_sig q))"
proof -
  from transfer_InrE [OF assms(2)] obtain h rng where t: "decode_hash hash_hex = Inr h"
    "ct_eq (as_bytes (sign X (svc_transfer_secret svc) \<lparr>sr_hash_hex = hash_hex, sr_start = tq_s q,
        sr_end_inclusive = tq_e q, sr_exp = tq_x q\<rparr>)) (as_bytes (tq_sig q))"
    "now \<le> tq_x q" "range_header = Some (Some rng)" "parse_byte_range_header (Some rng) = Inr (tq_s q, tq_e q)"
    "get_xorb_range B h (tq_s q) ((tq_e q + 1) mod 2 ^ 64) b = Inr (tr_body resp)" "tr_status resp = 206"
    using assms(1) by metis
  have "tq_s q \<le> tq_e q" using range_header_InrE [OF t(5)] by blast
  moreover have "(tq_e q + 1) mod 2 ^ 64 = tq_e q + 1" using assms(3) by (simp add: u64_max_def)
  ultimately obtain body where "xorbs b h = Some body" "tr_body resp = take (tq_e q + 1 - tq_s q) (drop (tq_s q) body)"
    using get_xorb_range_slice [OF t(6)] by auto
  with t that show ?thesis by blast
qed

end

text \<open>C26: a ranged transfer gives out only what was signed. If the filesystem-backed service answers a request, the
  presented signature is the one the server computes for this hash, this range and this expiry, the
  expiry is not past, the Range header asks for exactly the signed range, and the body is that range of the
  stored xorb with the requested hash.\<close>

theorem transfer_serves_signed_range:
  assumes "svc_blobs svc = fs_blob_ops hex_lower root (\<lambda>n. fair (env n))"
    and "get_xorb_transfer X svc now hash_hex q range_header b = Inr resp" and "tq_e q < u64_max"
    and "length (sign X (svc_transfer_secret svc) \<lparr>sr_hash_hex = hash_hex, sr_start = tq_s q,
        sr_end_inclusive = tq_e q, sr_exp = tq_x q\<rparr>) < 2 ^ 32" and "length (tq_sig q) < 2 ^ 32"
  shows "tq_sig q = sign X (svc_transfer_secret svc) \<lparr>sr_hash_hex = hash_hex, sr_start = tq_s q,
        sr_end_inclusive = tq_e q, sr_exp = tq_x q\<rparr> \<and> now \<le> tq_x q \<and>
    (\<exists>rng. range_header = Some (Some rng) \<and> parse_byte_range_header (Some rng) = Inr (tq_s q, tq_e q)) \<and>
    (\<exists>h body. decode_hash hash_hex = Inr h \<and> fs_xorbs hex_lower root b h = Some body \<and>
      tr_body resp = take (tq_e q + 1 - tq_s q) (drop (tq_s q) body)) \<and> tr_status resp = 206"
proof -
  from fs.transfer_slice [OF assms(1-3)] obtain h rng body where
    t: "decode_hash hash_hex = Inr h" "fs_xorbs hex_lower root b h = Some body"
      "tr_body resp = take (tq_e q + 1 - tq_s q) (drop (tq_s q) body)" "tr_status resp = 206"
      "now \<le> tq_x q" "range_header = Some (Some rng)" "parse_byte_range_header (Some rng) = Inr (tq_s q, tq_e q)" and
    sig: "ct_eq (as_bytes (sign X (svc_transfer_secret svc) \<lparr>sr_hash_hex = hash_hex, sr_start = tq_s q,
        sr_end_inclusive = tq_e q, sr_exp = tq_x q\<rparr>)) (as_bytes (tq_sig q))"
    by blast
  show ?thesis using t sig assms(4,5) by (simp add: ct_eq_iff)
qed

context blob_store_reliable
begin

lemma transfer_accepts:
  assumes "svc_blobs svc = B" and "wf_hash h" and "xorbs b h = Some body" and "s \<le> e" and "e < length body"
    and "length body \<le> u64_max" and "now \<le> x" and "\<And>v. x_header_value X v = Inr v"
  shows "get_xorb_transfer X svc now (encode_hash h)
      \<lparr>tq_s = s, tq_e = e, tq_x = x, tq_sig = sign X (svc_transfer_secret svc)
         \<lparr>sr_hash_hex = encode_hash h, sr_start = s, sr_end_inclusive = e, sr_exp = x\<rparr>\<rparr>
      (Some (Some (''bytes='' @ show_nat s @ ''-'' @ show_nat e))) b =
    Inr \<lparr>tr_status = 206, tr_body = take (e + 1 - s) (drop s body), tr_content_length = length (take (e + 1 - s) (drop s body)),
         tr_content_range = ''bytes '' @ show_nat s @ ''-'' @ show_nat e @ ''/*''\<rparr>"
proof -
  have "get_xorb_range B h s (e + 1) b = Inr (take (e + 1 - s) (drop s body))"
    using get_xorb_range_ok [OF assms(3), of s "e + 1"] assms(4,5) by simp
  moreover have "(e + 1) mod 2 ^ 64 = e + 1" using assms(5,6) by (simp add: u64_max_def)
  moreover have "parse_byte_range_header (Some (''bytes='' @ show_nat s @ ''-'' @ show_nat e)) = Inr (s, e)"
    using assms(4-6) by (intro range_header_show) simp_all
  ultimately show ?thesis
    using assms(1,2,7,8)
    by (simp add: get_xorb_transfer_def decode_or_bad_def decode_encode_hash ct_eq_refl core_def Let_def del: append.simps)
qed

end

text \<open>A URL that the server signs works until it expires. The URL built for a range of a stored xorb carries the
  hash, the range, an expiry of ten minutes from now and a signature; presented with the matching Range header at any
  time up to the expiry it is answered with exactly those bytes and a matching Content-Range.\<close>

lemma signed_url_accepted_until_expiry:
  assumes "svc_blobs svc = mem_blob_ops" and "wf_hash h" and "mem_xorbs b h = Some body"
    and "s \<le> e" and "e < length body" and "length body \<le> u64_max" and "\<forall>v. x_header_value X v = Inr v"
  shows "\<exists>sig. build_signed_url X now0 (svc_public_base_url svc) (svc_transfer_secret svc) (encode_hash h) s e =
      svc_public_base_url svc @ ''/xorb/default/'' @ encode_hash h @ ''?s='' @ show_nat s @ ''&e='' @ show_nat e @
      ''&x='' @ show_nat (now0 + 600) @ ''&sig='' @ sig \<and>
    (\<forall>now \<le> now0 + 600. \<exists>resp.
      get_xorb_transfer X svc now (encode_hash h) \<lparr>tq_s = s, tq_e = e, tq_x = now0 + 600, tq_sig = sig\<rparr>
        (Some (Some (''bytes='' @ show_nat s @ ''-'' @ show_nat e))) b = Inr resp \<and>
      tr_status resp = 206 \<and> tr_body resp = take (e + 1 - s) (drop s body) \<and>
      tr_content_range resp = ''bytes '' @ show_nat s @ ''-'' @ show_nat e @ ''/*'')"
proof -
  let ?sig = "sign X (svc_transfer_secret svc)
      \<lparr>sr_hash_hex = encode_hash h, sr_start = s, sr_end_inclusive = e, sr_exp = now0 + 600\<rparr>"
  have "build_signed_url X now0 (svc_public_base_url svc) (svc_transfer_secret svc) (encode_hash h) s e =
      svc_public_base_url svc @ ''/xorb/default/'' @ encode_hash h @ ''?s='' @ show_nat s @ ''&e='' @ show_nat e @
      ''&x='' @ show_nat (now0 + 600) @ ''&sig='' @ ?sig"
    by (simp add: build_signed_url_def SIGNATURE_TTL_SECS_def Let_def)
  moreover note mem.transfer_accepts [OF assms(1-6), where x = "now0 + 600" and X = X] assms(7)
  ultimately show ?thesis by (intro exI [of _ ?sig]) (auto simp del: append.simps)
qed

lemma length_hex_lower [simp]: "length (hex_lower bs) = 2 * length bs"
  by (induction bs) (simp_all add: hex_lower_def length_hex_byte [unfolded hex_byte_def])

text \<open>The same service over a file system that answers every call.\<close>

definition ex_fs_service :: "(fs_state, sql_state) service" where
  "ex_fs_service = \<lparr>svc_blobs = fs_blob_ops hex_lower ''/srv'' (\<lambda>n. fair (calm os_example)),
     svc_meta = sqlite_meta_ops (\<lambda>_. None) id 0, svc_authz = always_allow_ops,
     svc_transfer_secret = replicate 32 0, svc_public_base_url = ''http://cas'', svc_default_quota_bytes = None,
     svc_admin_token = None\<rparr>"

definition ex_fs :: fs_state where
  "ex_fs = \<lparr>fs_files = [fs_xorb_path hex_lower ''/srv'' hash_zero \<mapsto> xorb_example], fs_calls = 0\<rparr>"

theorem transfer_serves_signed_range_witness:
  "\<exists>q resp body. get_xorb_transfer plain_lib ex_fs_service 5 (encode_hash hash_zero) q
      (Some (Some (''bytes='' @ show_nat 10 @ ''-'' @ show_nat 18))) ex_fs = Inr resp \<and>
    5 \<le> tq_x q \<and> fs_xorbs hex_lower ''/srv'' ex_fs hash_zero = Some body \<and> tr_body resp = take 9 (drop 10 body)"
proof -
  let ?sr = "\<lparr>sr_hash_hex = encode_hash hash_zero, sr_start = 10, sr_end_inclusive = 18, sr_exp = 600\<rparr>"
  let ?q = "\<lparr>tq_s = 10, tq_e = 18, tq_x = 600, tq_sig = sign plain_lib (svc_transfer_secret ex_fs_service) ?sr\<rparr>"
  have s: "svc_blobs ex_fs_service = fs_blob_ops hex_lower ''/srv'' (\<lambda>n. fair (calm os_example))"
    by (simp add: ex_fs_service_def)
  have b: "fs_xorbs hex_lower ''/srv'' ex_fs hash_zero = Some xorb_example"
    by (simp add: fs_xorbs_def ex_fs_def)
  have l: "(18::nat) < length xorb_example" "length xorb_example \<le> u64_max" by (simp_all add: xorb_example_def u64_max_def)
  obtain resp where r: "get_xorb_transfer plain_lib ex_fs_service 5 (encode_hash hash_zero) ?q
      (Some (Some (''bytes='' @ show_nat 10 @ ''-'' @ show_nat 18))) ex_fs = Inr resp"
    using fs_calm.transfer_accepts [OF s hash_zero_wf b _ l, of 10 5 600 plain_lib] by (simp add: plain_lib_def)
  have "length (sign plain_lib (svc_transfer_secret ex_fs_service) ?sr) = 64"
    by (simp add: sign_def plain_lib_def)
  with transfer_serves_signed_range [OF s r] show ?thesis
    using r b by (intro exI [of _ ?q] exI [of _ resp] exI [of _ xorb_example])
      (auto simp: u64_max_def decode_encode_hash simp del: append.simps)
qed

section \<open>Reconstruction\<close>

lemma push_fetch_info_keeps:
  "m x = Some infos \<Longrightarrow> i \<in> set infos \<Longrightarrow> \<exists>infos'. push_fetch_info m p x = Some infos' \<and> i \<in> set infos'"
  by (cases p) (auto simp: push_fetch_info_def)

lemma foldl_push_keeps:
  "m x = Some infos \<Longrightarrow> i \<in> set infos \<Longrightarrow> \<exists>infos'. foldl push_fetch_info m ps x = Some infos' \<and> i \<in> set infos'"
proof (induction ps arbitrary: m infos)
  case (Cons p ps)
  from push_fetch_info_keeps [where m = m and x = x, OF Cons.prems, of p] show ?case using Cons.IH by auto
qed auto

lemma foldl_push_has:
  "(t, i) \<in> set ps \<Longrightarrow> \<exists>infos. foldl push_fetch_info m ps (rt_hash t) = Some infos \<and> i \<in> set infos"
proof (induction ps arbitrary: m)
  case (Cons p ps)
  show ?case
  proof (cases "p = (t, i)")
    case True
    have "push_fetch_info m p (rt_hash t) = Some ((case m (rt_hash t) of None \<Rightarrow> [] | Some is \<Rightarrow> is) @ [i])"
      by (simp add: True push_fetch_info_def)
    then show ?thesis using foldl_push_keeps [of "push_fetch_info m p"] by simp
  next
    case False
    with Cons show ?thesis by auto
  qed
qed simp

text \<open>A term is served by the fetch information when one of the entries for its xorb is for its chunk range and
  the bytes of that entry's range in the stored body decompress to the term's contents.\<close>

definition term_served ::
  "externals \<Rightarrow> (hash32 \<rightharpoonup> bytes) \<Rightarrow> (string \<rightharpoonup> cas_reconstruction_fetch_info list) \<Rightarrow> file_term \<Rightarrow> bool" where
  "term_served X xs fetch_info t \<longleftrightarrow>
     (\<exists>infos info body d. fetch_info (encode_hash (ft_xorb t)) = Some infos \<and> info \<in> set infos \<and>
        fi_range info = \<lparr>rj_start = unat (ft_chunk_idx_start t), rj_end = unat (ft_chunk_idx_end t)\<rparr> \<and>
        xs (ft_xorb t) = Some body \<and>
        decompress_xorb_chunks_into (x_decompress X)
          (take (rj_end (fi_url_range info) + 1 - rj_start (fi_url_range info))
             (drop (rj_start (fi_url_range info)) body)) [] = (Inr (), d) \<and>
        term_contents X t d)"

lemma reconstruct_term_InrE:
  assumes "reconstruct_term X svc now layouts t b = Inr (rt, info)"
  obtains rows where "layouts (ft_xorb t) = Some rows" "\<not> term_range_invalid rows t"
    "rt = \<lparr>rt_hash = encode_hash (ft_xorb t), rt_unpacked_length = unat (ft_unpacked_segment_bytes t),
       rt_range = \<lparr>rj_start = unat (ft_chunk_idx_start t), rj_end = unat (ft_chunk_idx_end t)\<rparr>\<rparr>"
    "fi_range info = \<lparr>rj_start = unat (ft_chunk_idx_start t), rj_end = unat (ft_chunk_idx_end t)\<rparr>"
    "fi_url_range info = \<lparr>rj_start = fst (term_byte_range rows t), rj_end = snd (term_byte_range rows t) - 1\<rparr>"
  using assms
  by (auto simp: reconstruct_term_def rbind_eq_Inr ok_or_eq_Inr Let_def split: if_splits prod.splits)

context cas_server
begin

lemma reconstruct_term_served:
  assumes agree: "stores_agree X (xorbs b) (layout m)" "ok m"
    and lay: "xorb_frame_layouts M hs m = Inr layouts" "ft_xorb t \<in> set hs"
    and rec: "reconstruct_term X svc now layouts t b = Inr (rt, info)"
    and fetch: "fetch_info (encode_hash (ft_xorb t)) = Some infos" "info \<in> set infos"
  shows "term_served X (xorbs b) fetch_info t"
proof -
  let ?s = "unat (ft_chunk_idx_start t)" and ?e = "unat (ft_chunk_idx_end t)"
  from rec obtain rows where r: "layouts (ft_xorb t) = Some rows" "\<not> term_range_invalid rows t"
    "fi_range info = \<lparr>rj_start = ?s, rj_end = ?e\<rparr>"
    "fi_url_range info = \<lparr>rj_start = fst (term_byte_range rows t), rj_end = snd (term_byte_range rows t) - 1\<rparr>"
    by (rule reconstruct_term_InrE)
  have rows: "layout m (ft_xorb t) = rows" "rows \<noteq> []"
    using layouts_read [OF agree(2) lay] r(1) by (auto split: if_splits)
  obtain body frames ds where sl: "xorbs b (ft_xorb t) = Some body" "parse_xorb_frames body = Inr frames"
    "layout m (ft_xorb t) = layout_rows frames"
    "term_byte_range (layout m (ft_xorb t)) t = frames_range frames ?s ?e"
    "?s < ?e" "?e \<le> length frames"
    "contents_of X (ft_xorb t) ds" "length ds = length frames"
    "\<And>out. decompress_xorb_chunks_into (x_decompress X) (frames_slice body frames ?s ?e) out =
      (Inr (), out @ concat (take (?e - ?s) (drop ?s ds)))"
    using term_slice [OF agree(1)] rows r(2) by blast
  have lt: "fst (frames_range frames ?s ?e) < snd (frames_range frames ?s ?e)"
    by (rule frames_range_less [OF sl(2,5,6)])
  then have "take (rj_end (fi_url_range info) + 1 - rj_start (fi_url_range info)) (drop (rj_start (fi_url_range info)) body)
      = frames_slice body frames ?s ?e"
    using r(4) sl(4) rows(1) by (simp add: frames_slice_def split: prod.splits)
  moreover have "term_contents X t (concat (take (?e - ?s) (drop ?s ds)))"
    using sl(6-8) unfolding term_contents_def by (intro exI [of _ ds]) simp
  ultimately show ?thesis
    unfolding term_served_def using fetch r(3) sl(1) sl(9) [of "[]"] by (metis append_Nil)
qed

end


lemma ex_reconstruction:
  "\<exists>resp. get_reconstruction plain_lib ex_service 0 ex_claims (encode_hash hash_zero) (fst ex_state2) (snd ex_state2) = Inr resp"
proof -
  have m: "svc_meta ex_service = sqlite_meta_ops (\<lambda>_. None) id 0" by (simp add: ex_service_def)
  have f: "sqlite_file_in_repo (\<lambda>_. None) hash_zero (repo_id (tc_repo ex_claims)) (snd ex_state2) = Inr True"
    by (simp add: sqlite_file_in_repo_def query_def ex_tables ex_claims_def)
  have ok: "sqlite_ok (snd ex_state2)"
    using server_reachable_inv [OF ex_reach2 plain_lib_binds_count] by (simp add: server_inv_def case_prod_beta)
  obtain layouts where l: "sqlite_xorb_frame_layouts (\<lambda>_. None) [hash_zero] (snd ex_state2) = Inr layouts"
    using frame_layouts_eq [of "snd ex_state2" "\<lambda>_. None" "[hash_zero]"] ok by (auto simp: sqlite_ok_def)
  have l': "xorb_frame_layouts (sqlite_meta_ops (\<lambda>_. None) id 0) [hash_zero] (snd ex_state2) = Inr layouts"
    using l by (simp add: sqlite_meta_ops_def)
  have "layouts hash_zero = Some ex_rows"
    using sqlite.layouts_read [OF ok l', of hash_zero] ex_layout2 ex_rows_small(1) by simp
  moreover have "\<not> term_range_invalid ex_rows ex_file_term"
    by (simp add: term_range_invalid_def ex_file_term_def ex_rows_def xorb_example_frames_def layout_rows_def)
  moreover have "ft_xorb ex_file_term = hash_zero" by (simp add: ex_file_term_def)
  ultimately have "\<exists>p. reconstruct_term plain_lib ex_service 0 layouts ex_file_term (fst ex_state2) = Inr p"
    by (simp add: reconstruct_term_def Let_def split: prod.split) (simp add: ex_service_def mem_blob_ops_def core_def)
  with l f show ?thesis
    by (auto simp: get_reconstruction_def build_reconstruction_response_def decode_or_bad_def decode_encode_hash core_def m
        sqlite_meta_ops_def ex_lookup ex_file_term_def)
qed


end
