(* ===== verification/Http_Guards.thy ===== *)
theory Http_Guards
  imports Server_Example
begin

text \<open>
  What the handlers refuse and what they leave behind: authentication and isolation of repositories, the gates of a shard
  upload, quotas, and the administrative endpoints.
\<close>

section \<open>Shard uploads\<close>

lemma sqlite_register_xorb_tables:
  assumes "sqlite_register_xorb fl now x cs s = (r, s')"
  shows "db_files (sq_db s') = db_files (sq_db s) \<and> db_terms (sq_db s') = db_terms (sq_db s) \<and>
    db_quotas (sq_db s') = db_quotas (sq_db s)"
  using assms
  by (cases r rule: unit_sum_cases) (auto dest: write_Inl register_xorb_Inr simp: insert_chunks_def insert_xorb_def)

lemma register_cas_blocks_tables:
  assumes "register_cas_blocks (sqlite_meta_ops fl pick now) layouts cbs m = (r, m')"
  shows "db_files (sq_db m') = db_files (sq_db m) \<and> db_terms (sq_db m') = db_terms (sq_db m) \<and>
    db_quotas (sq_db m') = db_quotas (sq_db m)"
  using register_cas_blocks_keeps [OF _ assms, where I = "\<lambda>x. db_files (sq_db x) = db_files (sq_db m) \<and>
      db_terms (sq_db x) = db_terms (sq_db m) \<and> db_quotas (sq_db x) = db_quotas (sq_db m)"]
    sqlite_register_xorb_tables by (simp add: sqlite_meta_ops_def)

text \<open>C25: a failed shard upload registers no file. Whatever refuses it (size, format, a missing xorb, an empty range, the quota, a
  store or database failure at any point), the tables of files, terms and quotas and the stored xorbs are what they
  were.\<close>

theorem failed_shard_upload_registers_nothing:
  assumes "svc_blobs svc = mem_blob_ops" and "svc_meta svc = sqlite_meta_ops fl pick now"
    and "upload_shard X svc claims body b m = (Inl e, b', m')"
  shows "db_files (sq_db m') = db_files (sq_db m) \<and> db_terms (sq_db m') = db_terms (sq_db m) \<and>
    db_quotas (sq_db m') = db_quotas (sq_db m) \<and> mem_xorbs b' = mem_xorbs b"
proof -
  have "mem_xorbs b' = mem_xorbs b" using mem_sqlite.upload_shard_keeps [OF assms] by blast
  moreover from assms(3) have "db_files (sq_db m') = db_files (sq_db m) \<and> db_terms (sq_db m') = db_terms (sq_db m) \<and>
    db_quotas (sq_db m') = db_quotas (sq_db m)"
  proof (cases rule: upload_shard_cases)
    case (registered sh layouts rr e')
    with assms(2) show ?thesis by (metis register_cas_blocks_tables)
  next
    case (unstored sh layouts e' e'')
    with assms(2) show ?thesis by (metis register_cas_blocks_tables)
  next
    case (stored sh layouts m1 files rf)
    then obtain e' where "sqlite_register_files fl now (tc_repo claims) files m1 = (Inl e', m')"
      using assms(2) by (auto simp: sqlite_meta_ops_def split: sum.splits)
    then have "sq_db m' = sq_db m1" by (rule register_files_Inl)
    with stored(2) assms(2) show ?thesis by (metis register_cas_blocks_tables)
  qed auto
  ultimately show ?thesis by blast
qed

lemma fold_apply_file_row:
  "h \<in> fst ` set files \<Longrightarrow>
   \<exists>r \<in> set (db_files (fold (apply_file now repo) files db)). fl_file_hash r = hash_to_blob h \<and> fl_repo_id r = repo_id repo"
proof (induction files arbitrary: db rule: rev_induct)
  case (snoc f files)
  obtain h' ts where f: "f = (h', ts)" by (cases f)
  let ?db = "fold (apply_file now repo) files db"
  let ?r = "mk_file_rec now h' repo ts"
  have files: "db_files (fold (apply_file now repo) (files @ [f]) db) = insert_replace file_key ?r (db_files ?db)"
    by (simp add: f apply_file_other(5))
  show ?case
  proof (cases "h = h'")
    case True
    then show ?thesis unfolding files by (intro bexI [of _ ?r]) (simp_all add: mk_file_rec_def in_insert_replace)
  next
    case False
    with snoc obtain r where r: "r \<in> set (db_files ?db)" "fl_file_hash r = hash_to_blob h" "fl_repo_id r = repo_id repo"
      by (auto simp: f)
    then show ?thesis
      unfolding files using False by (intro bexI [of _ r]) (auto simp: in_insert_replace file_key_def mk_file_rec_def)
  qed
qed simp

text \<open>C3: an accepted shard is well founded and its files are in the repository. Every xorb named by a CAS block or by a term of a file is
  stored, every term has a non-empty chunk range, and afterwards every file of the shard has a row in the repository of the
  token.\<close>

theorem accepted_shard_is_well_founded:
  assumes "svc_blobs svc = mem_blob_ops" and "svc_meta svc = sqlite_meta_ops fl pick now"
    and "upload_shard X svc claims body b m = (Inr n, b', m')"
  shows "\<exists>sh. parse body = Inr sh \<and> (\<forall>cb \<in> set (ps_cas_blocks sh). mem_xorbs b' (cb_xorb cb) \<noteq> None) \<and>
    (\<forall>f \<in> set (ps_files sh). \<forall>e \<in> set (pf_entries f).
       mem_xorbs b' (fe_xorb e) \<noteq> None \<and> fe_chunk_idx_start e < fe_chunk_idx_end e) \<and>
    (\<forall>f \<in> set (ps_files sh). \<exists>r \<in> set (db_files (sq_db m')).
       fl_file_hash r = hash_to_blob (pf_file_hash f) \<and> fl_repo_id r = repo_id (tc_repo claims))"
  using assms(3)
proof (cases rule: upload_shard_cases)
  case (stored sh layouts m1 files rf)
  note c = shard_checks_Inr [OF stored(1)]
  have x: "mem_xorbs b' = mem_xorbs b" using mem_sqlite.upload_shard_keeps [OF assms] by blast
  have blocks: "mem_xorbs b (cb_xorb cb) \<noteq> None" if "cb \<in> set (ps_cas_blocks sh)" for cb
    using mem_sqlite.checked_blocks [OF assms(1)] c that by blast
  have terms: "mem_xorbs b (fe_xorb e) \<noteq> None \<and> fe_chunk_idx_start e < fe_chunk_idx_end e"
    if "f \<in> set (ps_files sh)" "e \<in> set (pf_entries f)" for f e
    using mem_sqlite.checked_terms [OF assms(1), of "shard_entries sh"] c that by (auto simp: shard_entries_def)
  have "list_all wf_shard_file (ps_files sh)" using c parse_wf_length by (auto simp: wf_shard_def)
  then have files: "files = map (\<lambda>f. (pf_file_hash f, shard_file_terms f)) (ps_files sh)"
    using files_to_register stored(4) by simp
  have "sqlite_register_files fl now (tc_repo claims) files m1 = (Inr (), m')"
    using stored(6,7) assms(2) by (auto simp: sqlite_meta_ops_def split: sum.splits)
  then have db: "sq_db m' = fold (apply_file now (tc_repo claims)) files (sq_db m1)" by (rule register_files_Inr)
  have "\<exists>r \<in> set (db_files (sq_db m')). fl_file_hash r = hash_to_blob (pf_file_hash f) \<and> fl_repo_id r = repo_id (tc_repo claims)"
    if "f \<in> set (ps_files sh)" for f
    unfolding db using that by (intro fold_apply_file_row) (force simp: files)
  with c x blocks terms show ?thesis by metis
qed auto

theorem failed_shard_upload_registers_nothing_witness:
  "case upload_shard plain_lib ex_service ex_claims [] (fst ex_state2) (snd ex_state2) of
     (r, b', m') \<Rightarrow> (\<exists>e. r = Inl e) \<and> db_files (sq_db m') = db_files (sq_db (snd ex_state2))"
proof -
  have "\<exists>e. parse [] = Inl e" by (simp add: parse_def cursor_take_def cursor_need_def cursor_new_def cursor_remaining_def HASH_LEN_def)
  then obtain e where up: "upload_shard plain_lib ex_service ex_claims [] (fst ex_state2) (snd ex_state2) =
      (Inl e, fst ex_state2, snd ex_state2)"
    by (auto simp: upload_shard_def upload_shard_checks_def)
  have "svc_blobs ex_service = mem_blob_ops" "svc_meta ex_service = sqlite_meta_ops (\<lambda>_. None) id 0"
    by (simp_all add: ex_service_def)
  from failed_shard_upload_registers_nothing [OF this up] up show ?thesis by (simp add: case_prod_beta)
qed

theorem accepted_shard_is_well_founded_witness:
  "\<exists>r \<in> set (db_files (sq_db (snd ex_state2))). fl_file_hash r = hash_to_blob hash_zero \<and> fl_repo_id r = repo_id ex_repo"
proof -
  have s: "svc_blobs ex_service = mem_blob_ops" "svc_meta ex_service = sqlite_meta_ops (\<lambda>_. None) id 0"
    by (simp_all add: ex_service_def)
  have "ps_files (relocate_footer shard_example) = ps_files shard_example" by (simp add: relocate_footer_def)
  moreover have "\<exists>f \<in> set (ps_files shard_example). pf_file_hash f = hash_zero" by (simp add: shard_example_def)
  moreover have "tc_repo ex_claims = ex_repo" by (simp add: ex_claims_def)
  ultimately show ?thesis
    using accepted_shard_is_well_founded [OF s ex_run2] ex_parse by fastforce
qed

section \<open>Quotas\<close>

lemma files_xorbs_shard:
  "files_xorbs (map (\<lambda>f. (pf_file_hash f, shard_file_terms f)) fs) = map fe_xorb (concat (map pf_entries fs))"
proof -
  have "map ft_xorb (shard_file_terms f) = map fe_xorb (pf_entries f)" for f
    by (rule nth_equalityI) (simp_all add: shard_file_terms_def shard_term_def nth_enumerate_eq)
  then show ?thesis by (induction fs) (simp_all add: files_xorbs_def)
qed

lemma file_terms_cong: "db_terms db = db_terms db' \<Longrightarrow> file_terms h db = file_terms h db'"
  by (simp add: file_terms_def select_terms_def)


definition ex_quota_service :: "(mem_blob_store, sql_state) service" where
  "ex_quota_service = ex_service\<lparr>svc_default_quota_bytes := Some 19\<rparr>"

lemma ex_quota_fields:
  "svc_blobs ex_quota_service = svc_blobs ex_service" "svc_meta ex_quota_service = svc_meta ex_service"
  "svc_default_quota_bytes ex_quota_service = Some 19"
  by (simp_all add: ex_quota_service_def)

lemma ex_quota_run:
  "upload_shard plain_lib ex_quota_service ex_claims (serialize shard_example) (fst ex_state1) (snd ex_state1) =
   (Inr 1, fst ex_state2, snd ex_state2)"
proof (rule ex_run)
  let ?m = "\<lparr>sq_db = ex_db1, sq_tick = 7\<rparr>"
  have q: "effective_quota (svc_meta ex_quota_service) (Some 19) owner ?m = Inr (Some 19)" for owner
    by (simp add: effective_quota_def ex_quota_fields ex_service_def sqlite_meta_ops_def sqlite_get_owner_quota_def query_def
        core_def ex_db1_tables)
  have s: "sqlite_stored_bytes_for_owner (\<lambda>_. None) owner ?m = Inr 0" for owner
    by (simp add: sqlite_stored_bytes_for_owner_def query_sum_def query_def on_disk_of_def referenced_def ex_db1_tables
        nonneg_i64_to_u64_def)
  have u: "sqlite_unaccounted_xorb_bytes_for_owner (\<lambda>_. None) owner [hash_zero] ?m = Inr 19" for owner
    by (simp add: sqlite_unaccounted_xorb_bytes_for_owner_def query_sum_def query_def on_disk_of_def referenced_def
        ex_db1_tables nonneg_i64_to_u64_def dedup_sorted_xorbs_def mk_xorb_rec_def ex_info_def i64_max_def)
  show "shard_quota_check ex_quota_service owner (relocate_footer shard_example) ?m = Inr ()" for owner
    by (simp add: shard_quota_check_def ex_quota_fields(3) q ex_shard_parts)
      (simp add: ex_quota_fields ex_service_def sqlite_meta_ops_def s u core_def saturating_add_def u64_max_def)
qed (simp_all add: ex_quota_fields ex_service_def)


end
