(* ===== verification/Http_Access.thy ===== *)
theory Http_Access
  imports Server_Example
begin

text \<open>
  Who may do what: tokens from their issue to their use, the isolation of repositories, and the administrative
  endpoint.
\<close>

section \<open>From issue to use\<close>

lemma auth_middleware_bearer:
  "auth_middleware svc is_post (Some (''Bearer '' @ token)) =
   rbind (core (verify_xet_token (svc_authz svc) token)) (\<lambda>claims.
     if is_post \<and> tc_scope claims = Read then Inl (ApiError 403 ''this endpoint requires a write-scope token'')
     else Inr claims)"
  unfolding auth_middleware_def by (simp del: append_Cons)

text \<open>C35: a token the service issues opens the service exactly for what was granted. Issue implies that the bearer has a
  grant for the repository and the scope asked for; until the expiry in the answer the middleware accepts the token, with the
  claims of that user, repository and scope, except that a read token is refused on a POST.\<close>

theorem issued_token_authorizes:
  assumes "jwt_laws J" and "svc_authz svc = config_authz_ops J clock now a"
    and "svc_authz svc' = config_authz_ops J clock' now' a"
    and "issue_xet_token svc type_seg ns name tok_seg rev' authorization = Inr resp" and "now' \<le> xt_exp resp"
  shows "\<exists>hub user rt sc. parse_hf_repo_type type_seg = Inr rt \<and> parse_hf_token_scope tok_seg = Inr sc \<and>
    authorization = Some (''Bearer '' @ hub) \<and>
    config_check_repo_access a hub \<lparr>repo_type_of = rt, repo_id = ns @ ''/'' @ name, revision = rev'\<rparr> sc = Inr user \<and>
    auth_middleware svc' is_post (Some (''Bearer '' @ xt_access_token resp)) =
      (if is_post \<and> sc = Read then Inl (ApiError 403 ''this endpoint requires a write-scope token'')
       else Inr \<lparr>tc_user = user, tc_repo = \<lparr>repo_type_of = rt, repo_id = ns @ ''/'' @ name, revision = rev'\<rparr>,
                 tc_scope = sc, tc_expires_at = xt_exp resp\<rparr>)"
proof -
  obtain rt sc hub user where p: "parse_hf_repo_type type_seg = Inr rt" "parse_hf_token_scope tok_seg = Inr sc"
    and hub: "bearer_of authorization = Some hub"
    and grant: "config_check_repo_access a hub \<lparr>repo_type_of = rt, repo_id = ns @ ''/'' @ name, revision = rev'\<rparr> sc = Inr user"
    and mint: "mint J clock (ca_jwt_secret a) user \<lparr>repo_type_of = rt, repo_id = ns @ ''/'' @ name, revision = rev'\<rparr> sc
      DEFAULT_TOKEN_TTL_SECS = Inr (xt_access_token resp, xt_exp resp)"
    using assms(2,4)
    by (auto simp: issue_xet_token_def rbind_eq_Inr ok_or_eq_Inr rmap_err_eq_Inr core_def config_authz_ops_def Let_def)
  have "authorization = Some (''Bearer '' @ hub)"
    using hub by (simp add: bearer_of_def strip_prefix_eq_Some split: option.splits)
  with p grant minted_verifies [OF assms(1) mint assms(5)] assms(3) show ?thesis
    by (auto simp: auth_middleware_bearer core_def config_authz_ops_def simp del: append_Cons)
qed

definition ex_config :: config_authz where
  "ex_config = grant ''hub'' ''alice'' ''alice/m'' Read (config_authz_new [])"

definition ex_token_service :: "nat \<Rightarrow> (mem_blob_store, sql_state) service" where
  "ex_token_service now = ex_service\<lparr>svc_authz := config_authz_ops one_token_lib (Inr 100) now ex_config\<rparr>"

theorem issued_token_authorizes_witness:
  "auth_middleware (ex_token_service 399) False (Some ''Bearer t'') =
     Inr \<lparr>tc_user = ''alice'', tc_repo = alice_repo, tc_scope = Read, tc_expires_at = 400\<rparr> \<and>
   auth_middleware (ex_token_service 399) True (Some ''Bearer t'') =
     Inl (ApiError 403 ''this endpoint requires a write-scope token'')"
proof -
  let ?resp = "\<lparr>xt_access_token = ''t'', xt_exp = 400, xt_cas_url = svc_public_base_url (ex_token_service 100)\<rparr>"
  have az: "svc_authz (ex_token_service now) = config_authz_ops one_token_lib (Inr 100) now ex_config" for now
    by (simp add: ex_token_service_def)
  have grant: "config_check_repo_access ex_config ''hub'' r Read = Inr ''alice''" if "repo_id r = ''alice/m''" for r
    using that by (simp add: config_check_repo_access_def ex_config_def grant_def config_authz_new_def ct_eq_refl)
  have "issue_xet_token (ex_token_service 100) ''models'' ''alice'' ''m'' ''bale-read-token'' ''main'' (Some ''Bearer hub'') =
      Inr ?resp"
    using strip_prefix_append [of "''Bearer ''" "''hub''"]
    by (simp add: issue_xet_token_def parse_hf_repo_type_def parse_hf_token_scope_def bearer_of_def az config_authz_ops_def
        core_def grant mint_def one_token_lib_def one_claim_def repo_type_str_def scope_str_def
        DEFAULT_TOKEN_TTL_SECS_def saturating_add_def u64_max_def)
  from issued_token_authorizes [OF one_token_laws az az this, of 399]
  show ?thesis by (auto simp: parse_hf_repo_type_def parse_hf_token_scope_def alice_repo_def grant)
qed

section \<open>Isolation of repositories\<close>

text \<open>C36: repositories are isolated. When no row puts a file in a repository, asking for it there says \<open>file not found\<close>
  whether or not other repositories have it: the reconstruction is a 404, and the whole-file download fails exactly as it does
  on an empty server.\<close>

theorem foreign_file_is_hidden:
  assumes "svc_meta svc = sqlite_meta_ops (\<lambda>_. None) pick now" and "decode_hash file_hex = Inr h"
    and "\<And>r. r \<in> set (db_files (sq_db m)) \<Longrightarrow> fl_file_hash r = hash_to_blob h \<Longrightarrow> fl_repo_id r \<noteq> rid"
  shows "(repo_id (tc_repo claims) = rid \<longrightarrow>
       get_reconstruction X svc t claims file_hex b m = Inl (ApiError 404 ''file not found'')) \<and>
    (\<exists>e. get_file_download X svc file_hex token rid filename b m = Inl e \<and>
       get_file_download X svc file_hex token rid filename b' \<lparr>sq_db = db_empty, sq_tick = n\<rparr> = Inl e)"
proof -
  have no: "file_in_repo (svc_meta svc) h rid m = Inr False"
    "file_in_repo (svc_meta svc) h rid \<lparr>sq_db = db_empty, sq_tick = n\<rparr> = Inr False"
    using assms(1,3) by (auto simp: sqlite_meta_ops_def sqlite_file_in_repo_def query_def db_empty_def)
  have rid: "repo_id repo = rid" if "parse_owner_name rid = Inr repo" for repo
    using that by (auto simp: parse_owner_name_def rbind_eq_Inr split: if_splits)
  have "repo_id (tc_repo claims) = rid \<longrightarrow>
      get_reconstruction X svc t claims file_hex b m = Inl (ApiError 404 ''file not found'')"
    using no assms(2) by (simp add: get_reconstruction_def decode_or_bad_def core_def)
  moreover have "\<exists>e. get_file_download X svc file_hex token rid filename b m = Inl e \<and>
      get_file_download X svc file_hex token rid filename b' \<lparr>sq_db = db_empty, sq_tick = n\<rparr> = Inl e"
  proof (cases "parse_owner_name rid")
    case (Inr repo)
    show ?thesis
      by (cases "check_repo_access (svc_authz svc) token repo Read")
        (simp_all add: get_file_download_def decode_or_bad_def assms(2) Inr core_def rid [OF Inr] no)
  qed (simp add: get_file_download_def decode_or_bad_def assms(2))
  ultimately show ?thesis by blast
qed

theorem foreign_file_is_hidden_witness:
  "get_reconstruction plain_lib ex_service 0
     (ex_claims\<lparr>tc_repo := \<lparr>repo_type_of = Model, repo_id = ''bob/x'', revision = ''main''\<rparr>\<rparr>)
     (encode_hash hash_zero) (fst ex_state2) (snd ex_state2) = Inl (ApiError 404 ''file not found'')"
proof -
  have s: "svc_meta ex_service = sqlite_meta_ops (\<lambda>_. None) id 0" by (simp add: ex_service_def)
  have h: "decode_hash (encode_hash hash_zero) = Inr hash_zero" by (simp add: decode_encode_hash)
  have r: "fl_repo_id r \<noteq> ''bob/x''" if "r \<in> set (db_files (sq_db (snd ex_state2)))" for r
    using that by (auto simp: ex_tables mk_file_rec_def ex_repo_def)
  from foreign_file_is_hidden [OF s h, of "snd ex_state2" "''bob/x''"] r show ?thesis by simp
qed

section \<open>Administration\<close>

lemma put_owner_quota_cases:
  assumes "put_owner_quota X svc owner authorization limit m = (r, m')"
  obtains (refused) e where "r = Inl e" "m' = m"
  | (admitted) admin raw presented q where "svc_admin_token svc = Some admin" "authorization = Some (''Bearer '' @ raw)"
      "x_hex_decode X (trim raw) = Some presented" "ct_eq presented admin"
      "set_owner_quota (svc_meta svc) owner limit m = (q, m')" "r = Inr 204 \<longleftrightarrow> q = Inr ()"
  using assms
  by (auto simp: put_owner_quota_def rbind_eq_Inr ok_or_eq_Inr bearer_of_def strip_prefix_eq_Some api_of_core_def
      split: sum.splits prod.splits if_splits option.splits core_error.splits)

text \<open>Quotas change only by the administrator's hand. If a request changes the database at all, the admin endpoint is
  configured and the request carried the hexadecimal text of the admin token; then only the quota table differs, and there only
  the row of the named owner.\<close>

lemma quota_change_needs_admin:
  assumes "svc_meta svc = sqlite_meta_ops fl pick now"
    and "\<And>t bs. x_hex_decode X t = Some bs \<Longrightarrow> length bs < 2 ^ 32"
    and "\<And>admin. svc_admin_token svc = Some admin \<Longrightarrow> length admin < 2 ^ 32"
    and "put_owner_quota X svc owner authorization limit m = (r, m')" and "sq_db m' \<noteq> sq_db m"
  shows "(\<exists>admin raw. svc_admin_token svc = Some admin \<and> authorization = Some (''Bearer '' @ raw) \<and>
      x_hex_decode X (trim raw) = Some admin) \<and> r = Inr 204 \<and>
    (\<exists>q. sq_db m' = (sq_db m)\<lparr>db_quotas := q\<rparr> \<and>
      (\<forall>p. fst p \<noteq> owner \<longrightarrow> p \<in> set q \<longleftrightarrow> p \<in> set (db_quotas (sq_db m))))"
  using assms(4)
proof (cases rule: put_owner_quota_cases)
  case (admitted admin raw presented q)
  have "presented = admin" using ct_eq_iff assms(2,3) admitted by blast
  moreover have set: "sqlite_set_owner_quota fl owner limit m = (q, m')"
    using admitted assms(1) by (simp add: sqlite_meta_ops_def)
  have "q = Inr ()" using set assms(5)
    by (cases q rule: unit_sum_cases)
      (auto simp: sqlite_set_owner_quota_def exec_stmt_def Let_def split: option.splits)
  moreover have "\<exists>q. sq_db m' = (sq_db m)\<lparr>db_quotas := q\<rparr> \<and>
      (\<forall>p. fst p \<noteq> owner \<longrightarrow> p \<in> set q \<longleftrightarrow> p \<in> set (db_quotas (sq_db m)))"
    using set_owner_quota_Inr [OF set [unfolded \<open>q = Inr ()\<close>]]
    by (cases limit) (auto simp: in_insert_replace intro!: exI)
  ultimately show ?thesis using admitted by blast
qed (use assms(5) in simp)

definition ex_admin_service :: "(mem_blob_store, sql_state) service" where
  "ex_admin_service = ex_service\<lparr>svc_admin_token := Some [7]\<rparr>"

definition ex_admin_lib :: externals where
  "ex_admin_lib = plain_lib\<lparr>x_hex_decode := (\<lambda>t. if t = ''07'' then Some [7] else None)\<rparr>"

end
