(* ===== verification/Client_Io.thy ===== *)
theory Client_Io
  imports Prelude
begin

text \<open>
  What the client (\<open>git-bale\<close>) sees of the outside: errors of input and output, an input stream that ends in end of file
  or in a failing read, an output stream whose writes may fail half way, and the sequencing of steps that stop at the first
  error.
\<close>

section \<open>Errors and steps\<close>

text \<open>\<open>io::Error\<close> by its kind; \<open>InvalidUtf8\<close> is the kind \<open>InvalidData\<close> around the error of \<open>String::from_utf8\<close>.\<close>

datatype io_error =
    UnexpectedEof
  | IoNotFound
  | InvalidData string
  | InvalidUtf8 bytes
  | InvalidInput string
  | IoOther string

text \<open>A fallible step on a state, and the operator \<open>?\<close> between two of them.\<close>

type_synonym ('s, 'e, 'a) step = "'s \<Rightarrow> ('e + 'a) \<times> 's"

definition sbind :: "('s, 'e, 'a) step \<Rightarrow> ('a \<Rightarrow> ('s, 'e, 'b) step) \<Rightarrow> ('s, 'e, 'b) step" where
  "sbind m f = (\<lambda>s. case m s of (Inl e, s') \<Rightarrow> (Inl e, s') | (Inr x, s') \<Rightarrow> f x s')"

definition sret :: "'a \<Rightarrow> ('s, 'e, 'a) step" where
  "sret x = (\<lambda>s. (Inr x, s))"

text \<open>\<open>anyhow\<close> contexts: an error is the text \<open>{e:#}\<close> prints.\<close>

definition with_context :: "string \<Rightarrow> string + 'a \<Rightarrow> string + 'a" where
  "with_context c r = rmap_err (\<lambda>e. c @ '': '' @ e) r"

definition sfail :: "'e \<Rightarrow> ('s, 'e, 'a) step" where
  "sfail e = (\<lambda>s. (Inl e, s))"

lemma sret_simp [simp]: "sret x s = (Inr x, s)"
  by (simp add: sret_def)

lemma sfail_simp [simp]: "sfail e s = (Inl e, s)"
  by (simp add: sfail_def)

lemma sbind_InrE:
  assumes "sbind m f s = (Inr y, s')"
  obtains x s1 where "m s = (Inr x, s1)" "f x s1 = (Inr y, s')"
  using assms by (auto simp: sbind_def split: prod.splits sum.splits)

lemma sbind_Inr [simp]: "m s = (Inr x, s1) \<Longrightarrow> sbind m f s = f x s1"
  by (simp add: sbind_def)

lemma sbind_Inl [simp]: "m s = (Inl e, s1) \<Longrightarrow> sbind m f s = (Inl e, s1)"
  by (simp add: sbind_def)

lemma sbind_split:
  "P (sbind m f s) \<longleftrightarrow>
   (\<forall>e s1. m s = (Inl e, s1) \<longrightarrow> P (Inl e, s1)) \<and> (\<forall>x s1. m s = (Inr x, s1) \<longrightarrow> P (f x s1))"
  by (auto simp: sbind_def split: prod.splits sum.splits)

section \<open>Text\<close>

declare utf8_valid.simps(2) [simp del]

lemma utf8_valid_ascii_Cons [simp]: "a < 0x80 \<Longrightarrow> utf8_valid (a # bs) = utf8_valid bs"
  by (simp add: utf8_valid.simps)

lemma utf8_valid_ascii: "list_all (\<lambda>b. b < 0x80) bs \<Longrightarrow> utf8_valid bs"
  by (induction bs) simp_all

lemma utf8_valid_append: "utf8_valid bs \<Longrightarrow> utf8_valid cs \<Longrightarrow> utf8_valid (bs @ cs)"
proof (induction bs rule: utf8_valid.induct)
  case (2 a bs)
  show ?case
  proof (cases "a < 0x80")
    case False
    then show ?thesis
      using 2 by (auto simp: utf8_valid.simps(2) [of a] split: list.splits if_splits)
  qed (use 2 in simp)
qed simp

lemma length_show_radix16: "n < 16 ^ k \<Longrightarrow> 0 < k \<Longrightarrow> length (show_radix 16 n) \<le> k"
proof (induction k arbitrary: n)
  case (Suc k)
  show ?case
  proof (cases "n < 16")
    case False
    then have "0 < k" using Suc.prems by (cases k) auto
    moreover have "n div 16 < 16 ^ k" using Suc.prems(1) by (simp add: less_mult_imp_div_less mult.commute)
    ultimately show ?thesis using Suc.IH [of "n div 16"] False by (simp add: show_radix.simps [of 16 n])
  qed (simp add: show_radix.simps [of 16 n])
qed simp

lemma length_hex_pad: "n < 16 ^ w \<Longrightarrow> 0 < w \<Longrightarrow> length (hex_pad w n) = w"
  using length_show_radix16 [of n w] by (simp add: hex_pad_def Let_def)

section \<open>Input\<close>

text \<open>The bytes still to come and what the read after them answers: end of file or an error.\<close>

record source =
  src_bytes :: bytes
  src_end :: "string option"

definition at_end :: "source \<Rightarrow> io_error" where
  "at_end r = (case src_end r of None \<Rightarrow> UnexpectedEof | Some e \<Rightarrow> IoOther e)"

text \<open>\<open>Read::read_exact\<close>: a short stream is consumed to its end.\<close>

definition read_exact :: "nat \<Rightarrow> (source, io_error, bytes) step" where
  "read_exact n r =
     (if n \<le> length (src_bytes r) then (Inr (take n (src_bytes r)), r\<lparr>src_bytes := drop n (src_bytes r)\<rparr>)
      else (Inl (at_end r), r\<lparr>src_bytes := []\<rparr>))"

lemma read_exact_append: "length bs = n \<Longrightarrow> src_bytes r = bs @ rest \<Longrightarrow> read_exact n r = (Inr bs, r\<lparr>src_bytes := rest\<rparr>)"
  by (simp add: read_exact_def)

lemma read_exact_Inr:
  "read_exact n r = (Inr bs, r') \<Longrightarrow> src_bytes r = bs @ src_bytes r' \<and> length bs = n \<and> src_end r' = src_end r"
  by (auto simp: read_exact_def split: if_splits)

section \<open>Output\<close>

text \<open>Every call of the sink may fail, after some of its bytes went out.\<close>

record sink =
  snk_data :: bytes
  snk_tick :: nat

type_synonym sink_faults = "nat \<Rightarrow> (nat \<times> string) option"

definition write_all :: "sink_faults \<Rightarrow> bytes \<Rightarrow> (sink, io_error, unit) step" where
  "write_all fl bs s =
     (case fl (snk_tick s) of
        None \<Rightarrow> (Inr (), s\<lparr>snk_data := snk_data s @ bs, snk_tick := snk_tick s + 1\<rparr>)
      | Some (k, e) \<Rightarrow> (Inl (IoOther e), s\<lparr>snk_data := snk_data s @ take k bs, snk_tick := snk_tick s + 1\<rparr>))"

definition flush :: "sink_faults \<Rightarrow> (sink, io_error, unit) step" where
  "flush fl s =
     (case fl (snk_tick s) of
        None \<Rightarrow> (Inr (), s\<lparr>snk_tick := snk_tick s + 1\<rparr>)
      | Some (k, e) \<Rightarrow> (Inl (IoOther e), s\<lparr>snk_tick := snk_tick s + 1\<rparr>))"

text \<open>What a step on a sink sends if nothing fails; if something fails, a prefix of it.\<close>

definition sends :: "(sink, io_error, unit) step \<Rightarrow> bytes \<Rightarrow> bool" where
  "sends m bs \<longleftrightarrow>
     (\<forall>s s'. m s = (Inr (), s') \<longrightarrow> snk_data s' = snk_data s @ bs) \<and>
     (\<forall>s e s'. m s = (Inl e, s') \<longrightarrow> (\<exists>cs ds. bs = cs @ ds \<and> snk_data s' = snk_data s @ cs))"

lemma sends_Inr: "sends m bs \<Longrightarrow> m s = (Inr u, s') \<Longrightarrow> snk_data s' = snk_data s @ bs"
  by (cases u) (simp add: sends_def)

lemma sends_Inl: "sends m bs \<Longrightarrow> m s = (Inl e, s') \<Longrightarrow> \<exists>cs ds. bs = cs @ ds \<and> snk_data s' = snk_data s @ cs"
  by (simp add: sends_def)

lemma sends_write_all: "sends (write_all fl bs) bs"
  unfolding sends_def write_all_def by (auto split: option.splits) (metis append_take_drop_id)

lemma sends_flush: "sends (flush fl) []"
  by (auto simp: sends_def flush_def split: option.splits)

lemma sends_sret: "sends (sret ()) []"
  by (simp add: sends_def)

lemma sends_sbind:
  assumes "sends m bs" and "sends (f ()) cs"
  shows "sends (sbind m f) (bs @ cs)"
  unfolding sends_def
proof (intro conjI allI impI)
  fix s s'
  assume "sbind m f s = (Inr (), s')"
  then show "snk_data s' = snk_data s @ bs @ cs"
    using sends_Inr [OF assms(1)] sends_Inr [OF assms(2)] by (fastforce elim: sbind_InrE)
next
  fix s e s'
  assume "sbind m f s = (Inl e, s')"
  then consider "m s = (Inl e, s')" | s1 where "m s = (Inr (), s1)" "f () s1 = (Inl e, s')"
    by (auto simp: sbind_def split: prod.splits sum.splits)
  then show "\<exists>xs ys. bs @ cs = xs @ ys \<and> snk_data s' = snk_data s @ xs"
  proof cases
    case 1
    then show ?thesis using sends_Inl [OF assms(1)] by (metis append_assoc)
  next
    case 2
    then show ?thesis using sends_Inr [OF assms(1)] sends_Inl [OF assms(2)] by (metis append_assoc)
  qed
qed

end
