(* ===== verification/Pktline.thy ===== *)
theory Pktline
  imports Client_Io
begin

text \<open>
  Git's packet lines, \<open>git-bale/src/pktline.rs\<close>: the reader and the writer of the framing the filter protocol uses. The reader
  is a step on a \<^typ>\<open>source\<close>, the writer one on a \<^typ>\<open>sink\<close>. The loops recurse on the bytes that are left; that every
  packet consumes its header makes them terminate on every input.
\<close>

section \<open>Model\<close>

definition MAX_PKT_PAYLOAD :: nat where "MAX_PKT_PAYLOAD = 65516"
definition PKT_HEADER_LEN :: nat where "PKT_HEADER_LEN = 4"

datatype packet = Flush | Delim | ResponseEnd | Data bytes

text \<open>\<open>{other:?}\<close> of a packet.\<close>

fun join_text :: "string \<Rightarrow> string list \<Rightarrow> string" where
  "join_text sep [] = []"
| "join_text sep [x] = x"
| "join_text sep (x # xs) = x @ sep @ join_text sep xs"

fun packet_debug :: "packet \<Rightarrow> string" where
  "packet_debug Flush = ''Flush''"
| "packet_debug Delim = ''Delim''"
| "packet_debug ResponseEnd = ''ResponseEnd''"
| "packet_debug (Data bs) = ''Data(['' @ join_text '', '' (map (\<lambda>b. show_nat (unat b)) bs) @ ''])''"

definition read_packet :: "(source, io_error, packet) step" where
  "read_packet =
     sbind (read_exact PKT_HEADER_LEN) (\<lambda>header.
       case from_utf8 header of
         None \<Rightarrow> sfail (InvalidData ''non-utf8 pkt-line header'')
       | Some header_str \<Rightarrow>
           (case from_str_radix 65535 16 header_str of
              None \<Rightarrow> sfail (InvalidData (''bad pkt-line header '' @ [CHR 0x27] @ header_str @ [CHR 0x27]))
            | Some len \<Rightarrow>
                if len = 0 then sret Flush
                else if len = 1 then sret Delim
                else if len = 2 then sret ResponseEnd
                else if len < PKT_HEADER_LEN then sfail (InvalidData (''undersized pkt-line length '' @ show_nat len))
                else sbind (read_exact (len - PKT_HEADER_LEN)) (\<lambda>buf. sret (Data buf))))"

definition chomp :: "bytes \<Rightarrow> bytes" where
  "chomp bs = (if bs \<noteq> [] \<and> last bs = 0x0A then butlast bs else bs)"

definition text_of :: "bytes \<Rightarrow> io_error + string" where
  "text_of bs = ok_or (InvalidUtf8 (chomp bs)) (from_utf8 (chomp bs))"

definition read_text :: "(source, io_error, string) step" where
  "read_text =
     sbind read_packet (\<lambda>p.
       case p of
         Data bs \<Rightarrow> (\<lambda>r. (text_of bs, r))
       | other \<Rightarrow> sfail (InvalidData (''expected text pkt-line, got '' @ packet_debug other)))"

lemma read_packet_consumes:
  assumes "read_packet r = (Inr p, r')"
  shows "length (src_bytes r') + 4 \<le> length (src_bytes r)"
proof -
  obtain h r1 where h: "read_exact PKT_HEADER_LEN r = (Inr h, r1)"
    using assms unfolding read_packet_def by (rule sbind_InrE)
  then have "length (src_bytes r1) + 4 \<le> length (src_bytes r)"
    using read_exact_Inr [OF h] by (simp add: PKT_HEADER_LEN_def)
  moreover have "length (src_bytes r') \<le> length (src_bytes r1)"
    using assms h unfolding read_packet_def
    by (auto split: option.splits if_splits elim!: sbind_InrE dest: read_exact_Inr)
  ultimately show ?thesis by simp
qed

lemma read_packet_less: "read_packet r = (Inr p, r') \<Longrightarrow> length (src_bytes r') < length (src_bytes r)"
  using read_packet_consumes by fastforce

function read_text_list_loop :: "string list \<Rightarrow> (source, io_error, string list) step" where
  "read_text_list_loop out r =
     (case read_packet r of
        (Inl e, r') \<Rightarrow> (Inl e, r')
      | (Inr Flush, r') \<Rightarrow> (Inr out, r')
      | (Inr (Data bs), r') \<Rightarrow>
          (case text_of bs of
             Inl e \<Rightarrow> (Inl e, r')
           | Inr line \<Rightarrow> read_text_list_loop (out @ [line]) r')
      | (Inr other, r') \<Rightarrow> (Inl (InvalidData (''expected text packet or flush, got '' @ packet_debug other)), r'))"
  by pat_completeness auto
termination
  by (relation "measure (\<lambda>(out, r). length (src_bytes r))") (auto dest!: read_packet_less [OF sym])

definition read_text_list :: "(source, io_error, string list) step" where
  "read_text_list = read_text_list_loop []"

text \<open>The copy target is a buffer or \<open>io::sink\<close>, which never fail: the bytes copied are returned with the result.\<close>

function read_binary_loop :: "nat \<Rightarrow> nat \<Rightarrow> bytes \<Rightarrow> source \<Rightarrow> ((io_error + nat) \<times> bytes) \<times> source" where
  "read_binary_loop cap count out r =
     (case read_packet r of
        (Inl e, r') \<Rightarrow> ((Inl e, out), r')
      | (Inr Flush, r') \<Rightarrow> ((Inr count, out), r')
      | (Inr (Data bs), r') \<Rightarrow>
          (if saturating_add count (length bs) > cap
           then ((Inl (InvalidData (''pkt-line payload exceeded cap of '' @ show_nat cap @ '' bytes'')), out), r')
           else read_binary_loop cap (count + length bs) (out @ bs) r')
      | (Inr other, r') \<Rightarrow>
          ((Inl (InvalidData (''expected data packet or flush, got '' @ packet_debug other)), out), r'))"
  by pat_completeness auto
termination
  by (relation "measure (\<lambda>(cap, n, out, r). length (src_bytes r))") (auto dest!: read_packet_less [OF sym])

definition read_binary_to :: "nat \<Rightarrow> bytes \<Rightarrow> source \<Rightarrow> ((io_error + nat) \<times> bytes) \<times> source" where
  "read_binary_to max_total_bytes out = read_binary_loop max_total_bytes 0 out"

declare read_text_list_loop.simps [simp del] read_binary_loop.simps [simp del]

text \<open>The writer.\<close>

definition flush_packet :: "sink_faults \<Rightarrow> (sink, io_error, unit) step" where
  "flush_packet fl = sbind (write_all fl (as_bytes ''0000'')) (\<lambda>_. flush fl)"

definition write_text :: "sink_faults \<Rightarrow> string \<Rightarrow> (sink, io_error, unit) step" where
  "write_text fl line =
     (let bs = as_bytes line
      in if length bs + 1 > MAX_PKT_PAYLOAD then sfail (InvalidInput ''pkt-line text exceeds 65516 bytes'')
         else
           let total = length bs + 1 + PKT_HEADER_LEN
           in sbind (write_all fl (as_bytes (hex_pad 4 total))) (\<lambda>_.
              sbind (write_all fl bs) (\<lambda>_. write_all fl [0x0A])))"

fun write_text_list :: "sink_faults \<Rightarrow> string list \<Rightarrow> (sink, io_error, unit) step" where
  "write_text_list fl [] = flush_packet fl"
| "write_text_list fl (line # lines) = sbind (write_text fl line) (\<lambda>_. write_text_list fl lines)"

function write_binary :: "sink_faults \<Rightarrow> bytes \<Rightarrow> (sink, io_error, unit) step" where
  "write_binary fl data =
     (if data = [] then sret ()
      else
        let n = min (length data) MAX_PKT_PAYLOAD; total = n + PKT_HEADER_LEN
        in sbind (write_all fl (as_bytes (hex_pad 4 total))) (\<lambda>_.
           sbind (write_all fl (take n data)) (\<lambda>_. write_binary fl (drop n data))))"
  by pat_completeness auto
termination
  by (relation "measure (\<lambda>(fl, data). length data)") (auto simp: MAX_PKT_PAYLOAD_def)

declare write_binary.simps [simp del]

definition write_all_then_flush :: "sink_faults \<Rightarrow> bytes \<Rightarrow> (sink, io_error, unit) step" where
  "write_all_then_flush fl data = sbind (write_binary fl data) (\<lambda>_. flush_packet fl)"

text \<open>\<open>Write for PktWriter\<close>: one packet, at most the largest payload.\<close>

definition pkt_write :: "sink_faults \<Rightarrow> bytes \<Rightarrow> (sink, io_error, nat) step" where
  "pkt_write fl buf =
     (let n = min (length buf) MAX_PKT_PAYLOAD; total = n + PKT_HEADER_LEN
      in sbind (write_all fl (as_bytes (hex_pad 4 total))) (\<lambda>_.
         sbind (write_all fl (take n buf)) (\<lambda>_. sret n)))"

section \<open>Frames\<close>

text \<open>The wire form of a data packet, of a line and of a payload cut into packets.\<close>

definition frame :: "bytes \<Rightarrow> bytes" where
  "frame payload = as_bytes (hex_pad 4 (length payload + PKT_HEADER_LEN)) @ payload"

definition line_frame :: "string \<Rightarrow> bytes" where
  "line_frame line = frame (as_bytes line @ [0x0A])"

function payload_frames :: "bytes \<Rightarrow> bytes" where
  "payload_frames data =
     (if data = [] then []
      else frame (take MAX_PKT_PAYLOAD data) @ payload_frames (drop MAX_PKT_PAYLOAD data))"
  by pat_completeness auto
termination
  by (relation "measure length") (auto simp: MAX_PKT_PAYLOAD_def)

declare payload_frames.simps [simp del]

definition flush_frame :: bytes where
  "flush_frame = as_bytes ''0000''"

lemma digit_chr_zero: "digit_chr 0 = CHR ''0''"
  by code_simp

lemma ascii_hex_pad: "list_all (\<lambda>b. b < 0x80) (as_bytes (hex_pad w n))"
proof -
  have d: "(word_of_nat (of_char (digit_chr d)) :: u8) < 0x80" if "d < 16" for d
    using that by (auto simp: digit_chr_def word_less_nat_alt unat_of_nat)
  have "\<exists>d < 16. c = digit_chr d" if "c \<in> set (hex_pad w n)" for c
  proof (cases "c \<in> set (show_radix 16 n)")
    case False
    with that have "c = digit_chr 0" by (auto simp: hex_pad_def Let_def digit_chr_zero)
    then show ?thesis by (intro exI [of _ 0]) simp
  qed (use set_show_radix [of 16 c n] in simp)
  with d show ?thesis by (auto simp: list_all_iff as_bytes_def)
qed

lemma read_header:
  assumes "n < 65536"
  shows "read_exact PKT_HEADER_LEN \<lparr>src_bytes = as_bytes (hex_pad 4 n) @ rest, src_end = e\<rparr> =
      (Inr (as_bytes (hex_pad 4 n)), \<lparr>src_bytes = rest, src_end = e\<rparr>)"
    and "from_utf8 (as_bytes (hex_pad 4 n)) = Some (hex_pad 4 n)"
    and "from_str_radix 65535 16 (hex_pad 4 n) = Some n"
  using assms by (simp_all add: read_exact_def PKT_HEADER_LEN_def length_hex_pad [where w = 4] from_utf8_def
      utf8_valid_ascii [OF ascii_hex_pad] from_str_radix_hex_pad)

lemma read_packet_frame:
  assumes "length payload \<le> MAX_PKT_PAYLOAD"
  shows "read_packet \<lparr>src_bytes = frame payload @ rest, src_end = e\<rparr> =
    (Inr (Data payload), \<lparr>src_bytes = rest, src_end = e\<rparr>)"
proof -
  have n: "length payload + PKT_HEADER_LEN < 65536" using assms by (simp add: MAX_PKT_PAYLOAD_def PKT_HEADER_LEN_def)
  show ?thesis
    by (simp add: read_packet_def frame_def read_header [OF n])
      (simp add: PKT_HEADER_LEN_def read_exact_append)
qed

lemma read_packet_flush:
  "read_packet \<lparr>src_bytes = flush_frame @ rest, src_end = e\<rparr> = (Inr Flush, \<lparr>src_bytes = rest, src_end = e\<rparr>)"
proof -
  have f: "flush_frame = as_bytes (hex_pad 4 0)"
    by (simp add: flush_frame_def hex_pad_def show_radix.simps digit_chr_zero numeral_eq_Suc)
  have "read_packet \<lparr>src_bytes = as_bytes (hex_pad 4 0) @ rest, src_end = e\<rparr> = (Inr Flush, \<lparr>src_bytes = rest, src_end = e\<rparr>)"
    by (simp add: read_packet_def read_header)
  with f show ?thesis by metis
qed

section \<open>Round trips\<close>

lemma chomp_line: "chomp (bs @ [0x0A]) = bs"
  by (simp add: chomp_def)

lemma read_text_list_frames:
  assumes "\<And>l. l \<in> set lines \<Longrightarrow> utf8_valid (as_bytes l) \<and> length l + 1 \<le> MAX_PKT_PAYLOAD"
  shows "read_text_list_loop out \<lparr>src_bytes = concat (map line_frame lines) @ flush_frame @ rest, src_end = e\<rparr> =
    (Inr (out @ lines), \<lparr>src_bytes = rest, src_end = e\<rparr>)"
  using assms
proof (induction lines arbitrary: out)
  case Nil
  then show ?case by (simp add: read_text_list_loop.simps [of out] read_packet_flush)
next
  case (Cons l lines)
  have p: "read_packet \<lparr>src_bytes = line_frame l @ tl', src_end = e\<rparr> =
      (Inr (Data (as_bytes l @ [0x0A])), \<lparr>src_bytes = tl', src_end = e\<rparr>)" for tl'
    unfolding line_frame_def by (rule read_packet_frame) (use Cons.prems [of l] in simp)
  have t: "text_of (as_bytes l @ [0x0A]) = Inr l"
    using Cons.prems [of l] by (simp add: text_of_def chomp_line from_utf8_def)
  from Cons show ?case by (subst read_text_list_loop.simps) (simp add: p t)
qed

lemma sends_flush_packet: "sends (flush_packet fl) flush_frame"
  using sends_sbind [OF sends_write_all sends_flush] by (simp add: flush_packet_def flush_frame_def)

lemma sends_write_text: "length line + 1 \<le> MAX_PKT_PAYLOAD \<Longrightarrow> sends (write_text fl line) (line_frame line)"
  using sends_sbind [OF sends_write_all sends_sbind [OF sends_write_all sends_write_all]]
  by (simp add: write_text_def line_frame_def frame_def)

lemma sends_write_text_list:
  "(\<And>l. l \<in> set lines \<Longrightarrow> length l + 1 \<le> MAX_PKT_PAYLOAD) \<Longrightarrow>
   sends (write_text_list fl lines) (concat (map line_frame lines) @ flush_frame)"
proof (induction lines)
  case (Cons l lines)
  then have "sends (sbind (write_text fl l) (\<lambda>_. write_text_list fl lines))
      (line_frame l @ concat (map line_frame lines) @ flush_frame)"
    by (intro sends_sbind sends_write_text) auto
  then show ?case by simp
qed (simp add: sends_flush_packet)

lemma sends_write_binary: "sends (write_binary fl data) (payload_frames data)"
proof (induction data rule: payload_frames.induct)
  case (1 data)
  show ?case
  proof (cases "data = []")
    case False
    let ?n = "min (length data) MAX_PKT_PAYLOAD"
    have cut: "take ?n data = take MAX_PKT_PAYLOAD data" "drop ?n data = drop MAX_PKT_PAYLOAD data"
      by (simp_all add: min_def)
    have "sends (write_binary fl (drop ?n data)) (payload_frames (drop ?n data))"
      using 1 False by (simp add: cut)
    then have "sends (sbind (write_all fl (as_bytes (hex_pad 4 (?n + PKT_HEADER_LEN)))) (\<lambda>_.
        sbind (write_all fl (take ?n data)) (\<lambda>_. write_binary fl (drop ?n data))))
        (as_bytes (hex_pad 4 (?n + PKT_HEADER_LEN)) @ take ?n data @ payload_frames (drop ?n data))"
      by (intro sends_sbind sends_write_all)
    moreover have "length (take ?n data) = ?n" by simp
    ultimately show ?thesis
      using False by (subst write_binary.simps, subst payload_frames.simps) (simp only: Let_def frame_def cut append_assoc if_False)
  qed (subst write_binary.simps, subst payload_frames.simps, simp only: simp_thms if_True sends_sret)
qed

lemma sends_write_all_then_flush: "sends (write_all_then_flush fl data) (payload_frames data @ flush_frame)"
  unfolding write_all_then_flush_def by (rule sends_sbind [OF sends_write_binary sends_flush_packet])

lemma read_binary_frames:
  "count + length data \<le> cap \<Longrightarrow> cap \<le> u64_max \<Longrightarrow>
   read_binary_loop cap count out \<lparr>src_bytes = payload_frames data @ flush_frame @ rest, src_end = e\<rparr> =
   ((Inr (count + length data), out @ data), \<lparr>src_bytes = rest, src_end = e\<rparr>)"
proof (induction data arbitrary: count out rule: payload_frames.induct)
  case (1 data)
  show ?case
  proof (cases "data = []")
    case True
    then show ?thesis by (simp add: read_binary_loop.simps [of _ _ _ "\<lparr>src_bytes = flush_frame @ rest, src_end = e\<rparr>"] payload_frames.simps read_packet_flush)
  next
    case False
    let ?hd = "take MAX_PKT_PAYLOAD data" and ?tl = "drop MAX_PKT_PAYLOAD data"
    have sum: "length ?hd + length ?tl = length data" by (metis append_take_drop_id length_append)
    have pkt: "read_packet \<lparr>src_bytes = frame ?hd @ more, src_end = e\<rparr> = (Inr (Data ?hd), \<lparr>src_bytes = more, src_end = e\<rparr>)" for more
      by (rule read_packet_frame) simp
    have small: "\<not> cap < saturating_add count (length ?hd)"
      using "1.prems"(1) sum by (simp add: saturating_add_def)
    have "read_binary_loop cap (count + length ?hd) (out @ ?hd)
        \<lparr>src_bytes = payload_frames ?tl @ flush_frame @ rest, src_end = e\<rparr> =
        ((Inr (count + length ?hd + length ?tl), (out @ ?hd) @ ?tl), \<lparr>src_bytes = rest, src_end = e\<rparr>)"
      using "1.prems" sum False by (intro "1.IH") simp_all
    then show ?thesis
      using False sum small pkt [of "payload_frames ?tl @ flush_frame @ rest"]
      by (subst payload_frames.simps, subst read_binary_loop.simps) (simp add: add.assoc)
  qed
qed

lemma write_text_list_short:
  "write_text_list fl lines s = (Inr (), s') \<Longrightarrow> l \<in> set lines \<Longrightarrow> length l + 1 \<le> MAX_PKT_PAYLOAD"
proof (induction lines arbitrary: s)
  case (Cons k lines)
  then obtain s1 where "write_text fl k s = (Inr (), s1)" "write_text_list fl lines s1 = (Inr (), s')"
    by (auto elim!: sbind_InrE)
  with Cons show ?case by (auto simp: write_text_def Let_def split: if_splits)
qed simp

text \<open>C18: what the writer sends the reader reads back. A list of lines followed by a payload of any size, written without an
  error, arrives as exactly those lines and that payload, whatever follows it in the stream, and reading stops right after it.\<close>

theorem pktline_round_trip:
  assumes "\<And>l. l \<in> set lines \<Longrightarrow> utf8_valid (as_bytes l)" and "length data \<le> cap" and "cap \<le> u64_max"
    and "sbind (write_text_list fl lines) (\<lambda>_. write_all_then_flush fl data) s = (Inr (), s')"
  shows "\<exists>bs. snk_data s' = snk_data s @ bs \<and>
    (\<forall>rest e out. \<exists>mid. read_text_list \<lparr>src_bytes = bs @ rest, src_end = e\<rparr> = (Inr lines, mid) \<and>
       read_binary_to cap out mid = ((Inr (length data), out @ data), \<lparr>src_bytes = rest, src_end = e\<rparr>))"
proof -
  let ?bs = "(concat (map line_frame lines) @ flush_frame) @ payload_frames data @ flush_frame"
  have short: "length l + 1 \<le> MAX_PKT_PAYLOAD" if "l \<in> set lines" for l
    using assms(4) write_text_list_short that by (fastforce elim: sbind_InrE)
  then have "sends (sbind (write_text_list fl lines) (\<lambda>_. write_all_then_flush fl data)) ?bs"
    by (intro sends_sbind sends_write_text_list sends_write_all_then_flush)
  then have "snk_data s' = snk_data s @ ?bs" using assms(4) by (rule sends_Inr)
  moreover have "read_text_list \<lparr>src_bytes = ?bs @ rest, src_end = e\<rparr> =
      (Inr lines, \<lparr>src_bytes = payload_frames data @ flush_frame @ rest, src_end = e\<rparr>)" for rest e
    using read_text_list_frames [of lines "[]" "payload_frames data @ flush_frame @ rest" e] assms(1) short
    by (simp add: read_text_list_def)
  moreover have "read_binary_to cap out \<lparr>src_bytes = payload_frames data @ flush_frame @ rest, src_end = e\<rparr> =
      ((Inr (length data), out @ data), \<lparr>src_bytes = rest, src_end = e\<rparr>)" for rest e out
    using read_binary_frames [of 0 data cap out rest e] assms(2,3) by (simp add: read_binary_to_def)
  ultimately show ?thesis by blast
qed

theorem pktline_round_trip_witness:
  "\<exists>bs mid. snk_data (snd (sbind (write_text_list (\<lambda>_. None) [''status=success'']) (\<lambda>_.
      write_all_then_flush (\<lambda>_. None) [1, 2]) \<lparr>snk_data = [], snk_tick = 0\<rparr>)) = bs \<and>
    read_text_list \<lparr>src_bytes = bs, src_end = None\<rparr> = (Inr [''status=success''], mid) \<and>
    read_binary_to 10 [] mid = ((Inr 2, [1, 2]), \<lparr>src_bytes = [], src_end = None\<rparr>)"
proof -
  let ?m = "sbind (write_text_list (\<lambda>_. None) [''status=success'']) (\<lambda>_. write_all_then_flush (\<lambda>_. None) [1, 2])"
  let ?s = "\<lparr>snk_data = [], snk_tick = 0\<rparr>"
  have v: "utf8_valid (as_bytes ''status=success'')" by code_simp
  have "fst (?m ?s) = Inr ()"
    by (simp add: sbind_def write_text_def write_all_def flush_packet_def flush_def write_all_then_flush_def
        write_binary.simps MAX_PKT_PAYLOAD_def Let_def)
  then have "?m ?s = (Inr (), snd (?m ?s))" by (metis prod.collapse)
  from pktline_round_trip [OF _ _ _ this, of 10] v
  have "\<exists>bs. snk_data (snd (?m ?s)) = bs \<and> (\<forall>rest e out. \<exists>mid.
      read_text_list \<lparr>src_bytes = bs @ rest, src_end = e\<rparr> = (Inr [''status=success''], mid) \<and>
      read_binary_to 10 out mid = ((Inr 2, out @ [1, 2]), \<lparr>src_bytes = rest, src_end = e\<rparr>))"
    by (simp add: u64_max_def numeral_2_eq_2)
  then show ?thesis by (metis append_Nil append_Nil2)
qed

section \<open>Bounds\<close>

lemma read_packet_suffix: "read_packet r = (p, r') \<Longrightarrow> \<exists>bs. src_bytes r = bs @ src_bytes r' \<and> src_end r' = src_end r"
  unfolding read_packet_def read_exact_def
  by (auto simp: sbind_def split: option.splits if_splits sum.splits prod.splits)
    (metis append_take_drop_id append.assoc)+

lemma read_binary_loop_bounded:
  "read_binary_loop cap count out r = ((res, out'), r') \<Longrightarrow> cap < u64_max \<Longrightarrow> count \<le> cap \<Longrightarrow>
   (\<exists>bs used. out' = out @ bs \<and> count + length bs \<le> cap \<and> (\<forall>n. res = Inr n \<longrightarrow> n = count + length bs) \<and>
     src_bytes r = used @ src_bytes r')"
proof (induction cap count out r rule: read_binary_loop.induct)
  case (1 cap count out r)
  obtain p r1 where p: "read_packet r = (p, r1)" by (cases "read_packet r")
  obtain used where used: "src_bytes r = used @ src_bytes r1" using read_packet_suffix [OF p] by blast
  show ?case
  proof (cases "\<exists>bs. p = Inr (Data bs) \<and> \<not> saturating_add count (length bs) > cap")
    case True
    then obtain bs where bs: "p = Inr (Data bs)" "\<not> saturating_add count (length bs) > cap" by blast
    then have le: "count + length bs \<le> cap" using "1.prems"(2) by (simp add: saturating_add_def split: if_splits)
    have "read_binary_loop cap (count + length bs) (out @ bs) r1 = ((res, out'), r')"
      using "1.prems"(1) p bs by (subst (asm) read_binary_loop.simps) simp
    from "1.IH" [OF p [symmetric] bs(1) refl bs(2) this "1.prems"(2) le] used show ?thesis
      by (metis append_assoc add.assoc length_append)
  next
    case False
    then have "out' = out \<and> r' = r1 \<and> (\<forall>n. res = Inr n \<longrightarrow> n = count)"
      using "1.prems"(1) p by (subst (asm) read_binary_loop.simps) (auto split: sum.splits packet.splits if_splits)
    with used "1.prems"(3) show ?thesis by auto
  qed
qed

text \<open>A peer cannot make the reader hold more than its cap. Whatever bytes arrive, copying a payload keeps at most \<open>cap\<close>
  bytes, reports exactly the number it kept on success, and only ever consumes a prefix of the stream.\<close>

lemma read_binary_bounded:
  assumes "read_binary_to cap out r = ((res, out'), r')" and "cap < u64_max"
  shows "\<exists>bs used. out' = out @ bs \<and> length bs \<le> cap \<and> (\<forall>n. res = Inr n \<longrightarrow> n = length bs) \<and>
    src_bytes r = used @ src_bytes r'"
  using read_binary_loop_bounded [of cap 0 out r res out' r'] assms by (simp add: read_binary_to_def)

text \<open>The reader is laxer than the framing of Git: \<open>from_str_radix\<close> takes a sign, so the header \<open>+00f\<close> is a packet of 15.\<close>

lemma read_packet_signed_header:
  "read_packet \<lparr>src_bytes = as_bytes ''+006ab'', src_end = None\<rparr> = (Inr (Data (as_bytes ''ab'')), \<lparr>src_bytes = [], src_end = None\<rparr>)"
proof -
  have "from_str_radix 65535 16 ''+006'' = Some 6" by (simp add: from_str_radix_def digit_val_def)
  moreover have "utf8_valid (as_bytes ''+006'')" by code_simp
  moreover have "as_bytes ''+006ab'' = as_bytes ''+006'' @ as_bytes ''ab''" by (simp add: as_bytes_def)
  ultimately show ?thesis
    by (simp add: read_packet_def sbind_def read_exact_def PKT_HEADER_LEN_def from_utf8_def)
qed

end
