(* ===== verification/Pointer.thy ===== *)
theory Pointer
  imports Client_Io
begin

text \<open>
  Pointer files, \<open>git-bale/src/pointer.rs\<close>: the small JSON documents Git stores in place of the content. The file information
  of \<open>xet_data\<close> is known by its accessors and the JSON library is a parameter.
\<close>

section \<open>Model\<close>

definition POINTER_MAX_BYTES :: nat where "POINTER_MAX_BYTES = 4096"

definition POINTER_SENTINEL :: string where
  "POINTER_SENTINEL = [CHR 0x22] @ ''hash'' @ [CHR 0x22]"

text \<open>\<open>XetFileInfo\<close>: the accessors the client uses.\<close>

record xet_file_info =
  xfi_hash :: string
  xfi_file_size :: "nat option"

record json_lib =
  js_to_string_pretty :: "xet_file_info \<Rightarrow> string + string"
  js_from_str :: "string \<Rightarrow> string + xet_file_info"

datatype pointer_error = TooLarge | NotAPointer | PointerIo io_error | PointerJson string

definition encode_pointer_string :: "json_lib \<Rightarrow> xet_file_info \<Rightarrow> pointer_error + string" where
  "encode_pointer_string J info =
     rbind (rmap_err PointerJson (js_to_string_pretty J info)) (\<lambda>s. Inr (s @ [CHR 0x0A]))"

definition encode_pointer :: "json_lib \<Rightarrow> xet_file_info \<Rightarrow> pointer_error + bytes" where
  "encode_pointer J info = rbind (encode_pointer_string J info) (\<lambda>s. Inr (as_bytes s))"

definition write_pointer :: "json_lib \<Rightarrow> sink_faults \<Rightarrow> xet_file_info \<Rightarrow> (sink, pointer_error, unit) step" where
  "write_pointer J fl info w =
     (case encode_pointer_string J info of
        Inl e \<Rightarrow> (Inl e, w)
      | Inr s \<Rightarrow> (case write_all fl (as_bytes s) w of (r, w') \<Rightarrow> (rmap_err PointerIo r, w')))"

definition parse_pointer :: "json_lib \<Rightarrow> bytes \<Rightarrow> pointer_error + xet_file_info" where
  "parse_pointer J bs =
     (if length bs > POINTER_MAX_BYTES then Inl TooLarge
      else
        rbind (ok_or NotAPointer (from_utf8 bs)) (\<lambda>s.
        if \<not> contains_str POINTER_SENTINEL s then Inl NotAPointer
        else rmap_err PointerJson (js_from_str J (trim s))))"

text \<open>Reading stops one byte past the cap; a failing read loses what came before it.\<close>

definition read_pointer :: "json_lib \<Rightarrow> source \<Rightarrow> (pointer_error + xet_file_info \<times> bytes) \<times> source" where
  "read_pointer J r =
     (let lim = POINTER_MAX_BYTES + 1; buf = take lim (src_bytes r); r' = r\<lparr>src_bytes := drop lim (src_bytes r)\<rparr>
      in if length (src_bytes r) < lim \<and> src_end r \<noteq> None then (Inl (PointerIo (at_end r)), r')
         else (rbind (parse_pointer J buf) (\<lambda>info. Inr (info, buf)), r'))"

fun windows :: "nat \<Rightarrow> 'a list \<Rightarrow> 'a list list" where
  "windows n xs = (if length xs < n \<or> n = 0 then [] else take n xs # (case xs of [] \<Rightarrow> [] | _ # ys \<Rightarrow> windows n ys))"

declare windows.simps [simp del]

definition looks_like_pointer :: "bytes \<Rightarrow> bool" where
  "looks_like_pointer bs \<longleftrightarrow>
     length bs \<le> POINTER_MAX_BYTES \<and>
     list_ex (\<lambda>w. w = as_bytes POINTER_SENTINEL)
       (windows (length POINTER_SENTINEL) (take (min (length bs) 64) bs))"

section \<open>Round trip\<close>

text \<open>Text between two printable characters survives trimming, whatever newline ends it.\<close>

lemma trim_line:
  assumes "graphic a" and "graphic z"
  shows "trim (a # s @ [z] @ [CHR 0x0A]) = a # s @ [z]"
proof -
  have z: "\<not> ws1 (of_char z)" "\<not> ws2 m (of_char z)" "\<not> ws3 m n (of_char z)" for m n
    using assms(2) by (auto simp: graphic_def ws1_def ws2_def ws3_def)
  have "ws_len (a # t) = 0" for t using assms(1) by (simp add: ws_len_def graphic_not_ws split: list.split)
  then have front: "trim_by ws_len (a # t) = a # t" for t by (simp add: trim_by.simps [of ws_len])
  have "ws_len_rev (z # t) = 0" for t using z by (simp add: ws_len_rev_def split: list.split)
  then have "trim_by ws_len_rev (z # t) = z # t" for t by (simp add: trim_by.simps [of ws_len_rev])
  moreover have "ws_len_rev (CHR 0x0A # t) = 1" for t by (simp add: ws_len_rev_def ws1_def)
  ultimately have "trim_by ws_len_rev (CHR 0x0A # z # t) = z # t" for t
    by (simp add: trim_by.simps [of ws_len_rev "CHR 0x0A # z # t"])
  then show ?thesis using front by (simp add: trim_def)
qed

text \<open>A pointer that was written is read back, if the JSON library prints an object naming \<open>hash\<close> within the cap and parses its own
  output.\<close>

lemma encoded_pointer_parses:
  assumes "js_to_string_pretty J info = Inr (CHR ''{'' # body @ ''}'')"
    and "js_from_str J (CHR ''{'' # body @ ''}'') = Inr info"
    and "contains_str POINTER_SENTINEL (CHR ''{'' # body @ ''}'')"
    and "utf8_valid (as_bytes (CHR ''{'' # body @ ''}''))" and "length body + 3 \<le> POINTER_MAX_BYTES"
  shows "encode_pointer_string J info = Inr ((CHR ''{'' # body @ ''}'') @ [CHR 0x0A])"
    and "parse_pointer J (as_bytes ((CHR ''{'' # body @ ''}'') @ [CHR 0x0A])) = Inr info"
proof -
  let ?t = "CHR ''{'' # body @ ''}''"
  show "encode_pointer_string J info = Inr (?t @ [CHR 0x0A])" using assms(1) by (simp add: encode_pointer_string_def)
  have "utf8_valid (as_bytes (?t @ [CHR 0x0A]))"
    unfolding as_bytes_append by (rule utf8_valid_append [OF assms(4)]) (simp add: as_bytes_def)
  moreover have "contains_str POINTER_SENTINEL (?t @ [CHR 0x0A])"
    using assms(3) by (metis append.assoc contains_str_iff)
  moreover have "trim (?t @ [CHR 0x0A]) = ?t"
    using trim_line [of "CHR ''{''" "CHR ''}''" body] by (simp add: graphic_def)
  ultimately show "parse_pointer J (as_bytes (?t @ [CHR 0x0A])) = Inr info"
    using assms(2,5) by (simp add: parse_pointer_def from_utf8_def)
qed

end
