(* ===== verification/Clean_Cache.thy ===== *)
theory Clean_Cache
  imports Client_Io "HOL-Library.Multiset"
begin

text \<open>
  The chunk index of the clean cache, \<open>git-bale/src/clean_cache.rs\<close>: fingerprints of a file in chunks of one MiB, their
  verification in memory and by worker threads on an open file, and the order in which the workers look. The hash \<open>xxh3\<close> is the
  parameter \<open>hx\<close>. Arithmetic on 64-bit offsets wraps as in a release build; a slice out of bounds panics, which is \<^const>\<open>None\<close>.
\<close>

section \<open>Chunk index\<close>

definition CHUNK_SIZE :: nat where "CHUNK_SIZE = 1048576"
definition CLEAN_CACHE_VERSION :: nat where "CLEAN_CACHE_VERSION = 3"
definition MIDDLE_SAMPLES :: nat where "MIDDLE_SAMPLES = 3"
definition VERIFY_PARALLELISM :: nat where "VERIFY_PARALLELISM = 3"

record cache_chunk =
  ck_start :: nat
  ck_end :: nat
  ck_hash :: string

record cache_entry =
  ce_v :: nat
  ce_size :: nat
  ce_chunks :: "cache_chunk list"
  ce_pointer :: string

definition chunk_hash_hex :: "(bytes \<Rightarrow> u64) \<Rightarrow> bytes \<Rightarrow> string" where
  "chunk_hash_hex hx bs = hex_pad 16 (unat (hx bs))"

definition slice :: "nat \<Rightarrow> nat \<Rightarrow> 'a list \<Rightarrow> 'a list" where
  "slice a b xs = take (b - a) (drop a xs)"

function slice_chunks :: "(bytes \<Rightarrow> u64) \<Rightarrow> bytes \<Rightarrow> nat \<Rightarrow> cache_chunk list" where
  "slice_chunks hx bs pos =
     (if pos < length bs
      then let end' = min (pos + CHUNK_SIZE) (length bs)
           in \<lparr>ck_start = pos, ck_end = end', ck_hash = chunk_hash_hex hx (slice pos end' bs)\<rparr> # slice_chunks hx bs end'
      else [])"
  by pat_completeness auto
termination
  by (relation "measure (\<lambda>(hx, bs, pos). length bs - pos)") (auto simp: CHUNK_SIZE_def)

declare slice_chunks.simps [simp del]

definition compute_chunks_from_slice :: "(bytes \<Rightarrow> u64) \<Rightarrow> bytes \<Rightarrow> cache_chunk list" where
  "compute_chunks_from_slice hx bs =
     (let chunks = slice_chunks hx bs 0
      in if chunks = [] then [\<lparr>ck_start = 0, ck_end = 0, ck_hash = chunk_hash_hex hx []\<rparr>] else chunks)"

text \<open>Streaming the file: \<open>size\<close> is the size the caller knows, the file may have become shorter.\<close>

function file_chunks :: "(bytes \<Rightarrow> u64) \<Rightarrow> nat \<Rightarrow> nat \<Rightarrow> source \<Rightarrow> io_error + cache_chunk list" where
  "file_chunks hx file_size pos file =
     (if pos < file_size
      then let to_read = min (file_size - pos) CHUNK_SIZE
           in (case read_exact to_read file of
                 (Inl e, file') \<Rightarrow> Inl e
               | (Inr buf, file') \<Rightarrow>
                   rbind (file_chunks hx file_size (pos + to_read) file') (\<lambda>rest.
                     Inr (\<lparr>ck_start = pos, ck_end = pos + to_read, ck_hash = chunk_hash_hex hx buf\<rparr> # rest)))
      else Inr [])"
  by pat_completeness auto
termination
  by (relation "measure (\<lambda>(hx, file_size, pos, file). file_size - pos)") (auto simp: CHUNK_SIZE_def)

declare file_chunks.simps [simp del]

definition compute_chunks :: "(bytes \<Rightarrow> u64) \<Rightarrow> io_error + source \<Rightarrow> nat \<Rightarrow> io_error + cache_chunk list" where
  "compute_chunks hx opened file_size =
     rbind opened (\<lambda>file.
     rbind (file_chunks hx file_size 0 file) (\<lambda>chunks.
       Inr (if chunks = [] then [\<lparr>ck_start = 0, ck_end = 0, ck_hash = chunk_hash_hex hx []\<rparr>] else chunks)))"

section \<open>Verification in memory\<close>

definition wrapping_sub64 :: "nat \<Rightarrow> nat \<Rightarrow> nat" where
  "wrapping_sub64 a b = (if b \<le> a then a - b else a + 2 ^ 64 - b)"

definition covered :: "cache_chunk list \<Rightarrow> nat" where
  "covered cached = sum_list (map (\<lambda>c. wrapping_sub64 (ck_end c) (ck_start c)) cached) mod 2 ^ 64"

definition expected_hash :: "cache_chunk \<Rightarrow> nat option" where
  "expected_hash c =
     (case from_str_radix u64_max 16 (ck_hash c) of
        Some v \<Rightarrow> if length (ck_hash c) \<noteq> 16 then None else Some v
      | None \<Rightarrow> None)"

fun verify_loop :: "(bytes \<Rightarrow> u64) \<Rightarrow> cache_chunk list \<Rightarrow> bytes \<Rightarrow> bool option" where
  "verify_loop hx [] bs = Some True"
| "verify_loop hx (c # cs) bs =
     (case expected_hash c of
        None \<Rightarrow> Some False
      | Some v \<Rightarrow>
          if ck_end c > length bs then Some False
          else if ck_start c > ck_end c then None
          else if unat (hx (slice (ck_start c) (ck_end c) bs)) \<noteq> v then Some False
          else verify_loop hx cs bs)"

definition verify_chunks_in_memory :: "(bytes \<Rightarrow> u64) \<Rightarrow> cache_chunk list \<Rightarrow> bytes \<Rightarrow> bool option" where
  "verify_chunks_in_memory hx cached bs =
     (if cached = [] then Some False
      else if covered cached \<noteq> length bs then Some False
      else verify_loop hx cached bs)"

section \<open>Verification by worker threads\<close>

text \<open>A positional read returns at least one byte before the end of the file, possibly fewer than asked: \<open>short\<close> says how many
  fewer, from the offset.\<close>

definition pread :: "(nat \<Rightarrow> nat) \<Rightarrow> bytes \<Rightarrow> nat \<Rightarrow> nat \<Rightarrow> bytes" where
  "pread short file len offset =
     (let avail = take len (drop offset file) in take (max 1 (length avail - short offset)) avail)"

function read_exact_at :: "(nat \<Rightarrow> nat) \<Rightarrow> bytes \<Rightarrow> nat \<Rightarrow> nat \<Rightarrow> io_error + bytes" where
  "read_exact_at short file remaining offset =
     (if remaining = 0 then Inr []
      else
        let got = pread short file remaining offset
        in if got = [] then Inl UnexpectedEof
           else rbind (read_exact_at short file (remaining - length got) (offset + length got)) (\<lambda>rest. Inr (got @ rest)))"
  by pat_completeness auto
termination
  by (relation "measure (\<lambda>(short, file, remaining, offset). remaining)") (auto simp: pread_def Let_def)

declare read_exact_at.simps [simp del]

text \<open>The body of the loop of one worker on one chunk: whether it reports a mismatch, by comparing or by a failed read.\<close>

definition chunk_fails :: "(bytes \<Rightarrow> u64) \<Rightarrow> (nat \<Rightarrow> nat) \<Rightarrow> cache_chunk list \<Rightarrow> nat list \<Rightarrow> bytes \<Rightarrow> nat \<Rightarrow> bool" where
  "chunk_fails hx short cached decoded file idx \<longleftrightarrow>
     (case read_exact_at short file (ck_end (cached ! idx) - ck_start (cached ! idx)) (ck_start (cached ! idx)) of
        Inl _ \<Rightarrow> True
      | Inr buf \<Rightarrow> unat (hx buf) \<noteq> decoded ! idx)"

text \<open>The workers run concurrently, one per stripe, and share a flag. A step of a worker takes its next chunk (it has seen the
  flag clear, perhaps before another worker set it) or, having seen the flag set, gives up.\<close>

inductive verify_step :: "(nat \<Rightarrow> bool) \<Rightarrow> nat list list \<times> bool \<Rightarrow> nat list list \<times> bool \<Rightarrow> bool" for fails where
  check: "w < length ws \<Longrightarrow> ws ! w = i # is \<Longrightarrow> \<not> fails i \<Longrightarrow> verify_step fails (ws, flag) (ws[w := is], flag)"
| mismatch: "w < length ws \<Longrightarrow> ws ! w = i # is \<Longrightarrow> fails i \<Longrightarrow> verify_step fails (ws, flag) (ws[w := []], True)"
| give_up: "w < length ws \<Longrightarrow> ws ! w = i # is \<Longrightarrow> verify_step fails (ws, True) (ws[w := []], True)"

text \<open>The schedule that runs one worker after the other.\<close>

fun verify_stripe :: "(nat \<Rightarrow> bool) \<Rightarrow> nat list \<Rightarrow> bool \<Rightarrow> bool" where
  "verify_stripe fails [] flag = flag"
| "verify_stripe fails (i # is) flag = (if flag then flag else if fails i then True else verify_stripe fails is flag)"

definition verify_stripes :: "(nat \<Rightarrow> bool) \<Rightarrow> nat list list \<Rightarrow> bool" where
  "verify_stripes fails ws = fold (verify_stripe fails) ws False"

text \<open>\<open>slice::chunks\<close>.\<close>

function stripes :: "nat \<Rightarrow> 'a list \<Rightarrow> 'a list list" where
  "stripes n xs = (if xs = [] \<or> n = 0 then [] else take n xs # stripes n (drop n xs))"
  by pat_completeness auto
termination
  by (relation "measure (\<lambda>(n, xs). length xs)") auto

declare stripes.simps [simp del]

section \<open>Order of verification\<close>

definition xorshift :: "u64 \<Rightarrow> u64" where
  "xorshift s0 =
     (let s1 = s0 XOR push_bit 13 s0; s2 = s1 XOR drop_bit 7 s1 in s2 XOR push_bit 17 s2)"

definition swap_at :: "nat \<Rightarrow> nat \<Rightarrow> 'a list \<Rightarrow> 'a list" where
  "swap_at i j xs = xs[i := xs ! j, j := xs ! i]"

definition shuffle :: "u64 \<Rightarrow> 'a list \<Rightarrow> 'a list" where
  "shuffle seed xs =
     snd (fold (\<lambda>i (state, ys). let state' = xorshift state; j = unat state' mod (i + 1) in (state', swap_at i j ys))
            (rev [1..<length xs]) (seed, xs))"

definition priority_order :: "u64 \<Rightarrow> nat \<Rightarrow> nat list" where
  "priority_order seed n =
     (if n = 0 then []
      else if n \<le> 2 then [0..<n]
      else
        let middle = shuffle (if seed = 0 then 1 else seed) [1..<n - 1];
            sample_take = min (length middle) MIDDLE_SAMPLES
        in [0, n - 1] @ take sample_take middle @ drop sample_take middle)"

text \<open>With an inverted chunk among the cached ones the worker that reaches it panics: the result is \<^const>\<open>None\<close>.\<close>

definition verify_chunks ::
  "(bytes \<Rightarrow> u64) \<Rightarrow> (nat \<Rightarrow> nat) \<Rightarrow> u64 \<Rightarrow> cache_chunk list \<Rightarrow> io_error + bytes \<Rightarrow> nat \<Rightarrow> io_error + bool option" where
  "verify_chunks hx short seed cached opened file_size =
     (if cached = [] then Inr (Some False)
      else if covered cached \<noteq> file_size then Inr (Some False)
      else if list_ex (\<lambda>c. expected_hash c = None) cached then Inr (Some False)
      else
        let decoded = map (\<lambda>c. the (expected_hash c)) cached in
        rbind opened (\<lambda>file.
        if list_ex (\<lambda>c. ck_start c > ck_end c) cached then Inr None
        else
          let order = priority_order seed (length cached);
              stripe_size = max ((length order + VERIFY_PARALLELISM - 1) div VERIFY_PARALLELISM) 1
          in Inr (Some (\<not> verify_stripes (chunk_fails hx short cached decoded file) (stripes stripe_size order)))))"

section \<open>Every schedule agrees\<close>

lemma verify_stripe_iff: "verify_stripe fails is flag \<longleftrightarrow> flag \<or> list_ex fails is"
  by (induction "is" arbitrary: flag) auto

lemma verify_stripes_iff: "verify_stripes fails ws \<longleftrightarrow> list_ex fails (concat ws)"
proof -
  have "fold (verify_stripe fails) ws flag \<longleftrightarrow> flag \<or> list_ex fails (concat ws)" for flag
    by (induction ws arbitrary: flag) (auto simp: verify_stripe_iff)
  then show ?thesis by (simp add: verify_stripes_def)
qed

definition pending :: "nat list list \<Rightarrow> nat set" where
  "pending ws = set (concat ws)"

definition others :: "nat \<Rightarrow> nat list list \<Rightarrow> nat list" where
  "others w ws = concat (take w ws) @ concat (drop (Suc w) ws)"

lemma verify_stripes_pending: "verify_stripes fails ws \<longleftrightarrow> (\<exists>i \<in> pending ws. fails i)"
  by (simp add: verify_stripes_iff list_ex_iff pending_def del: set_concat)

lemma others_update [simp]: "others w (ws[w := v]) = others w ws"
  by (simp add: others_def)

lemma concat_update: "w < length ws \<Longrightarrow> mset (concat (ws[w := v])) = mset v + mset (others w ws)"
  by (simp add: upd_conv_take_nth_drop others_def)

lemma concat_nth: "w < length ws \<Longrightarrow> mset (concat ws) = mset (ws ! w) + mset (others w ws)"
  using concat_update [of w ws "ws ! w"] by simp

lemma pending_update:
  assumes "w < length ws"
  shows "pending (ws[w := v]) = set v \<union> set (others w ws)" and "pending ws = set (ws ! w) \<union> set (others w ws)"
  using arg_cong [OF concat_update [OF assms, of v], of set_mset] arg_cong [OF concat_nth [OF assms], of set_mset]
  by (simp_all add: pending_def)

text \<open>What holds between a start and any state reached from it: a set flag has a reason, and as long as the flag is clear every
  chunk that is gone was fine.\<close>

lemma verify_steps_inv:
  assumes "(verify_step fails)\<^sup>*\<^sup>* (ws0, False) st"
  shows "pending (fst st) \<subseteq> pending ws0 \<and> (snd st \<longrightarrow> (\<exists>i \<in> pending ws0. fails i)) \<and>
    (\<not> snd st \<longrightarrow> (\<forall>i \<in> pending ws0. i \<in> pending (fst st) \<or> \<not> fails i))"
  using assms
proof (induction st rule: rtranclp_induct)
  case (step st st')
  from step(2) show ?case
    using step.IH by cases (auto simp: pending_update)
qed simp

lemma verify_step_measure: "verify_step fails st st' \<Longrightarrow> size (mset (concat (fst st'))) < size (mset (concat (fst st)))"
  by (induction rule: verify_step.induct) (simp_all add: concat_update concat_nth del: mset_concat size_mset)

lemma verify_stuck: "\<not> (\<exists>st'. verify_step fails (ws, flag) st') \<Longrightarrow> pending ws = {}"
proof (rule ccontr)
  assume stuck: "\<not> (\<exists>st'. verify_step fails (ws, flag) st')" and "pending ws \<noteq> {}"
  then obtain is' where "is' \<in> set ws" "is' \<noteq> []" by (auto simp: pending_def)
  then obtain w i "is" where "w < length ws" "ws ! w = i # is" by (metis in_set_conv_nth neq_Nil_conv)
  then show False using stuck verify_step.check verify_step.mismatch by metis
qed

text \<open>C30: the workers agree with the sequential check. Under every interleaving the workers come to rest,
  and whenever no step is left the shared flag is set exactly when the sequential pass reports a mismatch.\<close>

theorem verify_any_schedule:
  shows "wfp (\<lambda>st' st. verify_step fails st st') \<and>
    (\<forall>st. (verify_step fails)\<^sup>*\<^sup>* (ws, False) st \<and> \<not> (\<exists>st'. verify_step fails st st') \<longrightarrow>
       snd st = verify_stripes fails ws)"
proof (intro conjI allI impI)
  show "wfp (\<lambda>st' st. verify_step fails st st')"
    by (rule wfp_if_convertible_to_nat [where f = "\<lambda>st. size (mset (concat (fst st)))"]) (rule verify_step_measure)
next
  fix st
  assume st: "(verify_step fails)\<^sup>*\<^sup>* (ws, False) st \<and> \<not> (\<exists>st'. verify_step fails st st')"
  then have "pending (fst st) = {}" using verify_stuck [of fails "fst st" "snd st"] by simp
  with verify_steps_inv [of fails ws st] st show "snd st = verify_stripes fails ws"
    by (auto simp: verify_stripes_pending)
qed

theorem verify_any_schedule_witness:
  "(verify_step (\<lambda>i. i = 1))\<^sup>*\<^sup>* ([[0], [1]], False) ([[], []], True) \<and> verify_stripes (\<lambda>i. i = 1) [[0], [1]]"
proof -
  have "verify_step (\<lambda>i. i = 1) ([[0], [1]], False) ([[0], [1]][1 := []], True)"
    by (rule verify_step.mismatch) simp_all
  moreover have "verify_step (\<lambda>i. i = 1) ([[0], []], True) ([[0], []][0 := []], True)"
    by (rule verify_step.give_up) simp_all
  ultimately have run: "(verify_step (\<lambda>i. i = 1))\<^sup>*\<^sup>* ([[0], [1]], False) ([[], []], True)"
    by (simp add: converse_rtranclp_into_rtranclp)
  have "\<not> (\<exists>st'. verify_step (\<lambda>i. i = 1) ([[], []], True) st')"
    by (auto elim!: verify_step.cases simp: less_Suc_eq numeral_2_eq_2 nth_Cons split: nat.splits)
  with verify_any_schedule [of "\<lambda>i. i = 1" "[[0], [1]]"] run
  have "snd ([[] :: nat list, []], True) = verify_stripes (\<lambda>i. i = 1) [[0], [1]]" by blast
  with run show ?thesis by simp
qed

section \<open>The order is a permutation\<close>

lemma mset_swap_at: "i < length xs \<Longrightarrow> j < length xs \<Longrightarrow> mset (swap_at i j xs) = mset xs"
  unfolding swap_at_def by (rule mset_swap)

lemma shuffle_fold:
  "\<forall>i \<in> set is. i < length xs \<Longrightarrow>
   mset (snd (fold (\<lambda>i (state, ys). let state' = xorshift state; j = unat state' mod (i + 1) in (state', swap_at i j ys))
            is (seed, xs))) = mset xs"
proof (induction "is" arbitrary: seed xs)
  case (Cons i "is")
  let ?j = "unat (xorshift seed) mod (i + 1)"
  have "?j < length xs"
    using Cons.prems by (metis Suc_eq_plus1 less_Suc_eq_le list.set_intros(1) mod_less_divisor order_le_less_trans zero_less_Suc)
  moreover have "length (swap_at i ?j xs) = length xs" by (simp add: swap_at_def)
  ultimately show ?case
    using Cons.prems Cons.IH [of "swap_at i ?j xs" "xorshift seed"] by (simp add: Let_def mset_swap_at)
qed simp

lemma mset_shuffle: "mset (shuffle seed xs) = mset xs"
  unfolding shuffle_def by (rule shuffle_fold) simp

lemma mset_priority_order: "mset (priority_order seed n) = mset [0..<n]"
proof (cases "n \<le> 2")
  case False
  define k where "k = n - 2"
  with False have n: "n = Suc (Suc k)" "0 < k" by simp_all
  let ?mid = "shuffle (if seed = 0 then 1 else seed) [1..<n - 1]"
  have "mset (priority_order seed n) = {#0, n - 1#} + mset ?mid"
    using n by (simp add: priority_order_def Let_def flip: mset_append)
  also have "\<dots> = mset (0 # [1..<n - 1] @ [n - 1])" by (simp only: mset_shuffle) simp
  also have "0 # [1..<n - 1] @ [n - 1] = [0..<n]"
    unfolding n(1) by (subst upt_conv_Cons [of 0 "Suc (Suc k)"]) simp_all
  finally show ?thesis .
qed (simp add: priority_order_def)

lemma concat_stripes: "0 < n \<Longrightarrow> concat (stripes n xs) = xs"
  by (induction n xs rule: stripes.induct) (subst stripes.simps, simp)

section \<open>A hit means an equal index\<close>

lemma expected_chunk_hash: "expected_hash \<lparr>ck_start = a, ck_end = b, ck_hash = chunk_hash_hex hx bs\<rparr> = Some (unat (hx bs))"
proof -
  have "unat (hx bs) < 16 ^ 16" using unsigned_less [of "hx bs", where 'a = nat] by simp
  then show ?thesis
    by (simp add: expected_hash_def chunk_hash_hex_def from_str_radix_hex_pad length_hex_pad u64_max_def)
qed

lemma chunk_hash_hex_inject: "chunk_hash_hex hx a = chunk_hash_hex hx b \<longleftrightarrow> unat (hx a) = unat (hx b)"
proof
  assume "chunk_hash_hex hx a = chunk_hash_hex hx b"
  then have "Some (unat (hx a)) = Some (unat (hx b))" by (metis expected_chunk_hash)
  then show "unat (hx a) = unat (hx b)" by simp
qed (simp add: chunk_hash_hex_def)

lemma slice_chunks_covered:
  "pos \<le> length bs \<Longrightarrow>
   sum_list (map (\<lambda>c. wrapping_sub64 (ck_end c) (ck_start c)) (slice_chunks hx bs pos)) = length bs - pos"
proof (induction hx bs pos rule: slice_chunks.induct)
  case (1 hx bs pos)
  show ?case
  proof (cases "pos < length bs")
    case True
    let ?e = "min (pos + CHUNK_SIZE) (length bs)"
    have "pos \<le> ?e" "?e \<le> length bs" using True by auto
    moreover have "sum_list (map (\<lambda>c. wrapping_sub64 (ck_end c) (ck_start c)) (slice_chunks hx bs ?e)) = length bs - ?e"
      using "1.IH" True by simp
    ultimately show ?thesis
      using True by (subst slice_chunks.simps) (simp add: Let_def wrapping_sub64_def)
  qed (simp add: slice_chunks.simps [of hx bs pos])
qed

lemma compute_covered: "length bs < 2 ^ 64 \<Longrightarrow> covered (compute_chunks_from_slice hx bs) = length bs"
  using slice_chunks_covered [of 0 bs hx]
  by (simp add: covered_def compute_chunks_from_slice_def wrapping_sub64_def slice_chunks.simps [of hx bs 0] Let_def split: if_splits)

lemma verify_slice_chunks:
  "length bs = length content \<Longrightarrow>
   verify_loop hx (slice_chunks hx content pos) bs = Some (slice_chunks hx content pos = slice_chunks hx bs pos)"
proof (induction hx content pos rule: slice_chunks.induct)
  case (1 hx content pos)
  show ?case
  proof (cases "pos < length content")
    case True
    let ?e = "min (pos + CHUNK_SIZE) (length content)"
    have "verify_loop hx (slice_chunks hx content ?e) bs = Some (slice_chunks hx content ?e = slice_chunks hx bs ?e)"
      using "1.IH" True "1.prems" by simp
    then show ?thesis
      using True "1.prems"
      by (subst (1 2) slice_chunks.simps [of hx content pos], subst slice_chunks.simps [of hx bs pos])
        (auto simp: Let_def expected_chunk_hash chunk_hash_hex_inject)
  qed (simp add: slice_chunks.simps [of hx content pos] slice_chunks.simps [of hx bs pos] "1.prems")
qed

text \<open>The clean cache hits exactly when the chunk index is the same. Verifying new bytes against the index of earlier
  content never panics, and accepts precisely if indexing the new bytes would give that index; so unchanged content always hits
  and a hit on changed content needs a collision of 64-bit fingerprints.\<close>

lemma cache_hit_iff_same_index:
  assumes "length content < 2 ^ 64" and "length bs < 2 ^ 64"
  shows "verify_chunks_in_memory hx (compute_chunks_from_slice hx content) bs =
    Some (compute_chunks_from_slice hx bs = compute_chunks_from_slice hx content)"
proof (cases "length bs = length content")
  case False
  moreover from this have "compute_chunks_from_slice hx bs \<noteq> compute_chunks_from_slice hx content"
    using compute_covered [OF assms(1)] compute_covered [OF assms(2)] by metis
  ultimately show ?thesis
    using compute_covered [OF assms(1)] by (simp add: verify_chunks_in_memory_def)
next
  case True
  have cov: "covered (compute_chunks_from_slice hx content) = length bs" using compute_covered [OF assms(1)] True by simp
  show ?thesis
  proof (cases "content = []")
    case True
    with \<open>length bs = length content\<close> cov show ?thesis
      by (simp add: verify_chunks_in_memory_def compute_chunks_from_slice_def slice_chunks.simps expected_chunk_hash slice_def)
  next
    case False
    then have "compute_chunks_from_slice hx content = slice_chunks hx content 0"
      "compute_chunks_from_slice hx bs = slice_chunks hx bs 0" "slice_chunks hx content 0 \<noteq> []"
      using True by (auto simp: compute_chunks_from_slice_def Let_def slice_chunks.simps [of hx _ 0])
    with cov verify_slice_chunks [OF True, of hx 0] show ?thesis
      by (auto simp: verify_chunks_in_memory_def)
  qed
qed

definition last_byte :: "bytes \<Rightarrow> u64" where
  "last_byte bs = ucast (last (0 # bs))"

lemma last_byte_index:
  "compute_chunks_from_slice last_byte [a, b] = [\<lparr>ck_start = 0, ck_end = 2, ck_hash = chunk_hash_hex last_byte [a, b]\<rparr>]"
  by (simp add: compute_chunks_from_slice_def slice_chunks.simps CHUNK_SIZE_def slice_def numeral_2_eq_2)

section \<open>The file is verified as the buffer is\<close>

lemma read_exact_at_eq:
  "read_exact_at short fb remaining offset =
   (if remaining = 0 \<or> offset + remaining \<le> length fb then Inr (take remaining (drop offset fb)) else Inl UnexpectedEof)"
proof (induction short fb remaining offset rule: read_exact_at.induct)
  case (1 short fb remaining offset)
  let ?got = "pread short fb remaining offset"
  show ?case
  proof (cases "remaining = 0 \<or> ?got = []")
    case True
    then show ?thesis
      by (subst read_exact_at.simps) (auto simp: pread_def Let_def)
  next
    case False
    define k where "k = length ?got"
    have k: "0 < k" "k \<le> remaining" "offset + k \<le> length fb" and got: "?got = take k (drop offset fb)"
      using False by (auto simp: k_def pread_def Let_def min_def split: if_splits)
    have IH: "read_exact_at short fb (remaining - k) (offset + k) =
        (if remaining - k = 0 \<or> offset + k + (remaining - k) \<le> length fb
         then Inr (take (remaining - k) (drop (offset + k) fb)) else Inl UnexpectedEof)"
      unfolding k_def by (rule "1.IH" [OF _ refl]) (use False in simp_all)
    have "take k (drop offset fb) @ take (remaining - k) (drop (offset + k) fb) = take remaining (drop offset fb)"
      using k(2) by (metis add.commute drop_drop le_add_diff_inverse take_add)
    with False k IH got show ?thesis
      by (subst read_exact_at.simps) (auto simp: Let_def simp flip: k_def)
  qed
qed

lemma verify_loop_all:
  "\<forall>c \<in> set cs. ck_start c \<le> ck_end c \<Longrightarrow>
   verify_loop hx cs bs = Some (\<forall>c \<in> set cs. ck_end c \<le> length bs \<and> expected_hash c = Some (unat (hx (slice (ck_start c) (ck_end c) bs))))"
  by (induction cs) (auto split: option.splits)

lemma chunk_fails_iff:
  assumes "i < length cached" and "ck_start (cached ! i) < ck_end (cached ! i) \<or> ck_end (cached ! i) \<le> length file"
    and "ck_start (cached ! i) \<le> ck_end (cached ! i)" and "expected_hash (cached ! i) = Some v"
  shows "chunk_fails hx short cached (map (\<lambda>c. the (expected_hash c)) cached) file i \<longleftrightarrow>
    \<not> (ck_end (cached ! i) \<le> length file \<and> v = unat (hx (slice (ck_start (cached ! i)) (ck_end (cached ! i)) file)))"
  using assms by (auto simp: chunk_fails_def read_exact_at_eq slice_def)

text \<open>C29: verifying a spilled file gives the answer of verifying the buffer. For cached chunks that are not inverted, and not
  both empty and beyond the file, the threaded check over positional reads, in any random order and with any short reads, answers
  what the sequential check of the same bytes in memory answers.\<close>

theorem verify_file_eq_memory:
  assumes "\<And>c. c \<in> set cached \<Longrightarrow> ck_start c \<le> ck_end c \<and> (ck_start c < ck_end c \<or> ck_end c \<le> length file)"
  shows "verify_chunks hx short seed cached (Inr file) (length file) = Inr (verify_chunks_in_memory hx cached file)"
proof -
  have ordered: "\<forall>c \<in> set cached. ck_start c \<le> ck_end c" using assms by blast
  consider "cached = [] \<or> covered cached \<noteq> length file" | "\<exists>c \<in> set cached. expected_hash c = None"
    | "cached \<noteq> []" "covered cached = length file" "\<forall>c \<in> set cached. expected_hash c \<noteq> None" by metis
  then show ?thesis
  proof cases
    case 2
    then obtain c where c: "c \<in> set cached" "expected_hash c = None" by blast
    then have "\<not> (\<forall>c \<in> set cached. ck_end c \<le> length file \<and>
        expected_hash c = Some (unat (hx (slice (ck_start c) (ck_end c) file))))" by force
    then have "verify_loop hx cached file = Some False" by (simp only: verify_loop_all [OF ordered])
    with c show ?thesis by (auto simp: verify_chunks_def verify_chunks_in_memory_def list_ex_iff)
  next
    case 3
    let ?fails = "chunk_fails hx short cached (map (\<lambda>c. the (expected_hash c)) cached) file"
    let ?order = "priority_order seed (length cached)"
    have idx: "set ?order = {..<length cached}"
      using arg_cong [OF mset_priority_order [of seed "length cached"], of set_mset] by (simp add: atLeast0LessThan)
    have "verify_stripes ?fails (stripes (max ((length ?order + VERIFY_PARALLELISM - 1) div VERIFY_PARALLELISM) 1) ?order) \<longleftrightarrow>
        (\<exists>i < length cached. ?fails i)"
      by (auto simp: verify_stripes_iff concat_stripes list_ex_iff idx)
    also have "\<dots> \<longleftrightarrow> \<not> (\<forall>c \<in> set cached. ck_end c \<le> length file \<and>
        expected_hash c = Some (unat (hx (slice (ck_start c) (ck_end c) file))))"
    proof -
      have "?fails i \<longleftrightarrow> \<not> (ck_end (cached ! i) \<le> length file \<and>
          expected_hash (cached ! i) = Some (unat (hx (slice (ck_start (cached ! i)) (ck_end (cached ! i)) file))))"
        if "i < length cached" for i
      proof -
        have mem: "cached ! i \<in> set cached" using that by simp
        then obtain v where v: "expected_hash (cached ! i) = Some v" using 3(3) by auto
        have ok: "ck_start (cached ! i) < ck_end (cached ! i) \<or> ck_end (cached ! i) \<le> length file"
          "ck_start (cached ! i) \<le> ck_end (cached ! i)" using assms mem by blast+
        show ?thesis using chunk_fails_iff [OF that ok v] v by auto
      qed
      then show ?thesis by (auto simp: all_set_conv_all_nth)
    qed
    finally show ?thesis
      using 3 ordered by (auto simp: verify_chunks_def verify_chunks_in_memory_def verify_loop_all list_ex_iff Let_def)
  qed (auto simp: verify_chunks_def verify_chunks_in_memory_def)
qed

theorem verify_file_eq_memory_witness:
  "verify_chunks last_byte (\<lambda>_. 1) 7 (compute_chunks_from_slice last_byte [1, 2]) (Inr [9, 2]) (length [9 :: u8, 2]) = Inr (Some True)"
proof -
  have "verify_chunks last_byte (\<lambda>_. 1) 7 (compute_chunks_from_slice last_byte [1, 2]) (Inr [9, 2]) (length [9 :: u8, 2]) =
      Inr (verify_chunks_in_memory last_byte (compute_chunks_from_slice last_byte [1, 2]) [9, 2])"
    by (rule verify_file_eq_memory) (simp add: last_byte_index)
  moreover have "verify_chunks_in_memory last_byte (compute_chunks_from_slice last_byte [1, 2]) [9, 2] = Some True"
    by (simp add: last_byte_index verify_chunks_in_memory_def covered_def wrapping_sub64_def expected_chunk_hash slice_def last_byte_def)
  ultimately show ?thesis by simp
qed

text \<open>A cached entry with an inverted chunk passes the coverage test by wrap-around and then panics on the slice.\<close>

lemma inverted_chunk_panics:
  "verify_chunks_in_memory hx [\<lparr>ck_start = 0, ck_end = 2, ck_hash = chunk_hash_hex hx [1, 2]\<rparr>,
     \<lparr>ck_start = 2, ck_end = 1, ck_hash = chunk_hash_hex hx []\<rparr>,
     \<lparr>ck_start = 0, ck_end = 1, ck_hash = chunk_hash_hex hx []\<rparr>] [1, 2] = None"
  by (simp add: verify_chunks_in_memory_def covered_def wrapping_sub64_def expected_chunk_hash slice_def)

end
