(* ===== verification/Staging.thy ===== *)
theory Staging
  imports Client_Io "HOL-Library.List_Lexorder" "HOL-Library.Char_ord" "HOL-Library.Option_ord" "HOL-Library.Product_Lexorder"
begin

text \<open>
  The staging area and the object store of a repository, \<open>git-bale/src/staging.rs\<close> and the path functions of \<open>store.rs\<close>. The
  file system is a list of files by their path, in the order a directory listing returns them. Directories are not recorded: the
  code never depends on an empty one. What the operating system answers to each call is a parameter.
\<close>

section \<open>Files\<close>

type_synonym path = "string list"

record fnode =
  fn_body :: bytes
  fn_mtime :: nat

type_synonym fs = "(path \<times> fnode) list"

definition put_file :: "path \<Rightarrow> fnode \<Rightarrow> fs \<Rightarrow> fs" where
  "put_file p n fs = filter (\<lambda>e. fst e \<noteq> p) fs @ [(p, n)]"

definition del_file :: "path \<Rightarrow> fs \<Rightarrow> fs" where
  "del_file p fs = filter (\<lambda>e. fst e \<noteq> p) fs"

text \<open>The files directly in a directory, and all files below it.\<close>

definition read_dir :: "path \<Rightarrow> fs \<Rightarrow> (string \<times> fnode) list" where
  "read_dir d fs = map (\<lambda>(p, n). (last p, n)) (filter (\<lambda>(p, n). p \<noteq> [] \<and> butlast p = d) fs)"

definition below :: "path \<Rightarrow> path \<Rightarrow> bool" where
  "below d p \<longleftrightarrow> starts_with d p \<and> length d < length p"

lemma map_of_filter: "P k \<Longrightarrow> map_of (filter (\<lambda>e. P (fst e)) m) k = map_of m k"
  by (induction m) auto

lemma map_of_filter_None: "\<not> P k \<Longrightarrow> map_of (filter (\<lambda>e. P (fst e)) m) k = None"
  by (induction m) auto

lemma map_of_put_file [simp]: "map_of (put_file p n fs) q = (if q = p then Some n else map_of fs q)"
  by (auto simp: put_file_def map_add_def map_of_filter [of "\<lambda>k. k \<noteq> p"] map_of_filter_None [of "\<lambda>k. k \<noteq> p"] split: option.splits)

lemma map_of_del_file [simp]: "map_of (del_file p fs) q = (if q = p then None else map_of fs q)"
  by (auto simp: del_file_def map_of_filter [of "\<lambda>k. k \<noteq> p"] map_of_filter_None [of "\<lambda>k. k \<noteq> p"])

section \<open>Configuration and store paths\<close>

record raw_config =
  rc_server_url :: "string option"
  rc_token :: "string option"
  rc_token_expiration :: "nat option"
  rc_cache_dir :: path
  rc_git_dir :: "path option"
  rc_local_mode :: bool
  rc_local_store :: "path option"
  rc_local_shared :: bool
  rc_ssh_command :: "string option"

definition staging_root :: "path \<Rightarrow> path" where
  "staging_root git_dir = git_dir @ [''bale'', ''staging'']"

definition file_index_dir :: "path \<Rightarrow> path" where
  "file_index_dir git_dir = staging_root git_dir @ [''file-index'']"

definition file_marker_path :: "path \<Rightarrow> string \<Rightarrow> path" where
  "file_marker_path git_dir file_hex = file_index_dir git_dir @ [file_hex]"

definition default_local_store :: "path \<Rightarrow> path" where
  "default_local_store git_dir = git_dir @ [''bale'', ''store'']"

definition object_store_root :: "raw_config \<Rightarrow> string + path" where
  "object_store_root raw =
     (if rc_local_mode raw then
        (case rc_local_store raw of
           Some p \<Rightarrow> Inr p
         | None \<Rightarrow>
             rbind (ok_or ''local mode needs a git repo or an explicit bale.localStore'' (rc_git_dir raw)) (\<lambda>gd.
               Inr (default_local_store gd)))
      else rbind (ok_or ''no git directory resolved from cwd'' (rc_git_dir raw)) (\<lambda>gd. Inr (staging_root gd)))"

text \<open>The lock file is a sibling of the store: the root directory has no parent and no name.\<close>

definition lock_path :: "path \<Rightarrow> path" where
  "lock_path store =
     (if store = [] then [''.'', ''.store.lock'']
      else butlast store @ [CHR ''.'' # last store @ ''.lock''])"

section \<open>Markers\<close>

definition is_64_lower_hex :: "string \<Rightarrow> bool" where
  "is_64_lower_hex s \<longleftrightarrow>
     length s = 64 \<and>
     list_all (\<lambda>c. (48 \<le> (of_char c :: nat) \<and> (of_char c :: nat) \<le> 57) \<or> (97 \<le> (of_char c :: nat) \<and> (of_char c :: nat) \<le> 102)) s"

text \<open>Creating truncates; a failing write leaves a prefix of the body.\<close>

definition mark_file_staged ::
  "io_error option \<Rightarrow> io_error option \<Rightarrow> (nat \<times> io_error) option \<Rightarrow> nat \<Rightarrow> path \<Rightarrow> string \<Rightarrow> nat \<Rightarrow> fs \<Rightarrow> (io_error + unit) \<times> fs" where
  "mark_file_staged mkdir create write now git_dir file_hex file_size fs =
     (case mkdir of
        Some e \<Rightarrow> (Inl e, fs)
      | None \<Rightarrow>
          (case create of
             Some e \<Rightarrow> (Inl e, fs)
           | None \<Rightarrow>
               let body = as_bytes (show_nat file_size); p = file_marker_path git_dir file_hex
               in case write of
                    None \<Rightarrow> (Inr (), put_file p \<lparr>fn_body = body, fn_mtime = now\<rparr> fs)
                  | Some (k, e) \<Rightarrow> (Inl e, put_file p \<lparr>fn_body = take k body, fn_mtime = now\<rparr> fs)))"

definition file_is_staged :: "path \<Rightarrow> string \<Rightarrow> fs \<Rightarrow> bool" where
  "file_is_staged git_dir file_hex fs \<longleftrightarrow> map_of fs (file_marker_path git_dir file_hex) \<noteq> None"

text \<open>\<open>stat_ok\<close>: the metadata of the marker can be read.\<close>

definition marker_mtime :: "(path \<Rightarrow> bool) \<Rightarrow> path \<Rightarrow> string \<Rightarrow> fs \<Rightarrow> nat option" where
  "marker_mtime stat_ok git_dir file_hex fs =
     (let p = file_marker_path git_dir file_hex
      in if stat_ok p then (case map_of fs p of None \<Rightarrow> None | Some n \<Rightarrow> Some (fn_mtime n)) else None)"

definition touch_marker_if_exists ::
  "io_error option \<Rightarrow> io_error option \<Rightarrow> nat \<Rightarrow> path \<Rightarrow> string \<Rightarrow> fs \<Rightarrow> (io_error + bool) \<times> fs" where
  "touch_marker_if_exists open_fault set_fault now git_dir file_hex fs =
     (let p = file_marker_path git_dir file_hex
      in case map_of fs p of
           None \<Rightarrow> (Inr False, fs)
         | Some n \<Rightarrow>
             (case open_fault of
                Some e \<Rightarrow> (if e = IoNotFound then Inr False else Inl e, fs)
              | None \<Rightarrow>
                  (case set_fault of
                     Some e \<Rightarrow> (Inl e, fs)
                   | None \<Rightarrow> (Inr True, put_file p (n\<lparr>fn_mtime := now\<rparr>) fs))))"

text \<open>The size in a marker's body, if it can be read as text and as a number.\<close>

definition marker_size :: "bool \<Rightarrow> bytes \<Rightarrow> nat option" where
  "marker_size readable body =
     (case from_utf8 body of
        Some s \<Rightarrow> if readable then parse_u64 (trim s) else parse_u64 []
      | None \<Rightarrow> parse_u64 [])"

definition list_staged_files ::
  "io_error option \<Rightarrow> (path \<Rightarrow> bool) \<Rightarrow> path \<Rightarrow> fs \<Rightarrow> io_error + (string \<times> nat option) list" where
  "list_staged_files list_fault readable git_dir fs =
     (case list_fault of
        Some e \<Rightarrow> if e = IoNotFound then Inr [] else Inl e
      | None \<Rightarrow>
          Inr (sort (map (\<lambda>(name, n). (name, marker_size (readable (file_marker_path git_dir name)) (fn_body n)))
                 (filter (\<lambda>(name, n). is_64_lower_hex name) (read_dir (file_index_dir git_dir) fs)))))"

text \<open>Removing a directory tree may stop half way; \<open>kept\<close> are the files it did not get to.\<close>

definition clear_file_markers :: "(io_error \<times> (path \<Rightarrow> bool)) option \<Rightarrow> path \<Rightarrow> fs \<Rightarrow> (io_error + unit) \<times> fs" where
  "clear_file_markers fault git_dir fs =
     (case fault of
        None \<Rightarrow> (Inr (), filter (\<lambda>e. \<not> below (file_index_dir git_dir) (fst e)) fs)
      | Some (e, kept) \<Rightarrow>
          (if e = IoNotFound then Inr () else Inl e,
           filter (\<lambda>x. below (file_index_dir git_dir) (fst x) \<longrightarrow> kept (fst x)) fs))"

definition remove_marker :: "io_error option \<Rightarrow> path \<Rightarrow> string \<Rightarrow> fs \<Rightarrow> (io_error + unit) \<times> fs" where
  "remove_marker fault git_dir file_hex fs =
     (case fault of
        None \<Rightarrow> (Inr (), del_file (file_marker_path git_dir file_hex) fs)
      | Some e \<Rightarrow> (if e = IoNotFound then Inr () else Inl e, fs))"

section \<open>Objects\<close>

definition is_xorb_filename :: "string \<Rightarrow> bool" where
  "is_xorb_filename name \<longleftrightarrow> (case strip_prefix ''default.'' name of Some h \<Rightarrow> is_64_lower_hex h | None \<Rightarrow> False)"

definition is_shard_filename :: "string \<Rightarrow> bool" where
  "is_shard_filename name \<longleftrightarrow> (case strip_suffix ''.mdb'' name of Some h \<Rightarrow> is_64_lower_hex h | None \<Rightarrow> False)"

definition is_object :: "path \<Rightarrow> path \<Rightarrow> bool" where
  "is_object store p \<longleftrightarrow> below store p \<and> (is_xorb_filename (last p) \<or> is_shard_filename (last p))"

text \<open>The recursive sweep: it ends at the first directory that cannot be listed, and a failing unlink is ignored. \<open>unlinked\<close>
  says of each object whether the sweep got to it and removed it; without a listing error it gets to all of them.\<close>

definition remove_all_staged_objects ::
  "io_error option \<Rightarrow> (path \<Rightarrow> bool) \<Rightarrow> path \<Rightarrow> fs \<Rightarrow> (io_error + unit) \<times> fs" where
  "remove_all_staged_objects list_fault unlinked store fs =
     (case list_fault of Some e \<Rightarrow> if e = IoNotFound then Inr () else Inl e | None \<Rightarrow> Inr (),
      filter (\<lambda>e. \<not> (is_object store (fst e) \<and> unlinked (fst e))) fs)"

section \<open>Properties\<close>

lemma marker_below: "below (file_index_dir git_dir) (file_marker_path git_dir h)"
  by (simp add: below_def file_marker_path_def)

lemma marker_path_inject [simp]: "file_marker_path git_dir a = file_marker_path git_dir b \<longleftrightarrow> a = b"
  by (simp add: file_marker_path_def)

lemma in_read_dir: "(name, n) \<in> set (read_dir d fs) \<longleftrightarrow> (d @ [name], n) \<in> set fs"
proof
  assume "(name, n) \<in> set (read_dir d fs)"
  then obtain p where p: "(p, n) \<in> set fs" "p \<noteq> []" "butlast p = d" "last p = name"
    by (auto simp: read_dir_def)
  then have "p = d @ [name]" by (metis append_butlast_last_id)
  with p show "(d @ [name], n) \<in> set fs" by simp
qed (force simp: read_dir_def)

lemma staged_names:
  assumes "list_staged_files None readable git_dir fs = Inr l"
  shows "fst ` set l = {h. is_64_lower_hex h \<and> map_of fs (file_marker_path git_dir h) \<noteq> None}"
proof -
  have "fst ` set l = {h. is_64_lower_hex h \<and> (\<exists>n. (h, n) \<in> set (read_dir (file_index_dir git_dir) fs))}"
    using assms by (auto simp: list_staged_files_def image_iff)
  also have "\<dots> = {h. is_64_lower_hex h \<and> (\<exists>n. (file_marker_path git_dir h, n) \<in> set fs)}"
    by (simp add: in_read_dir file_marker_path_def)
  also have "\<dots> = {h. is_64_lower_hex h \<and> map_of fs (file_marker_path git_dir h) \<noteq> None}"
    by (force simp: map_of_eq_None_iff image_iff)
  finally show ?thesis .
qed

text \<open>A marker never has the name of an object, so a sweep of the staging directory spares the markers in it.\<close>

lemma hex_not_object: "is_64_lower_hex h \<Longrightarrow> \<not> is_xorb_filename h \<and> \<not> is_shard_filename h"
  by (auto simp: is_xorb_filename_def is_shard_filename_def is_64_lower_hex_def strip_prefix_eq_Some strip_suffix_eq_Some
      split: option.splits)

lemma marker_not_object: "is_64_lower_hex h \<Longrightarrow> \<not> is_object store (file_marker_path git_dir h)"
  by (simp add: is_object_def file_marker_path_def hex_not_object)

end
