(* ===== verification/Cache_Files.thy ===== *)
theory Cache_Files
  imports Staging Clean_Cache
begin

text \<open>
  The two caches below \<open>.git/bale\<close> as files: the clean cache (\<open>clean_cache.rs\<close>: \<open>load\<close>, \<open>save\<close>, \<open>forget_hashes\<close>) and the
  manifests (\<open>manifest_cache.rs\<close>). Serialization to JSON and the hash of a path are parameters; so is what the operating system
  answers to each call of the write protocol (temporary file, sync, rename).
\<close>

section \<open>Atomic replacement\<close>

record save_faults =
  sv_mkdir :: "io_error option"
  sv_create :: "io_error option"
  sv_body :: "(nat \<times> io_error) option"
  sv_sync :: "io_error option"
  sv_rename :: "io_error option"

definition calm_save :: save_faults where
  "calm_save = \<lparr>sv_mkdir = None, sv_create = None, sv_body = None, sv_sync = None, sv_rename = None\<rparr>"

text \<open>Write a temporary sibling, sync it, rename it over the target. The body is serialized after the file was created.\<close>

definition replace_file ::
  "save_faults \<Rightarrow> nat \<Rightarrow> path \<Rightarrow> path \<Rightarrow> io_error + bytes \<Rightarrow> fs \<Rightarrow> (io_error + unit) \<times> fs" where
  "replace_file F now tmp final body fs =
     (case sv_mkdir F of Some e \<Rightarrow> (Inl e, fs) | None \<Rightarrow>
     (case sv_create F of Some e \<Rightarrow> (Inl e, fs) | None \<Rightarrow>
     (case body of
        Inl e \<Rightarrow> (Inl e, put_file tmp \<lparr>fn_body = [], fn_mtime = now\<rparr> fs)
      | Inr bs \<Rightarrow>
     (case sv_body F of Some (k, e) \<Rightarrow> (Inl e, put_file tmp \<lparr>fn_body = take k bs, fn_mtime = now\<rparr> fs) | None \<Rightarrow>
     (case sv_sync F of Some e \<Rightarrow> (Inl e, put_file tmp \<lparr>fn_body = bs, fn_mtime = now\<rparr> fs) | None \<Rightarrow>
     (case sv_rename F of
        Some e \<Rightarrow> (Inl e, put_file tmp \<lparr>fn_body = bs, fn_mtime = now\<rparr> fs)
      | None \<Rightarrow> (Inr (), put_file final \<lparr>fn_body = bs, fn_mtime = now\<rparr> (del_file tmp fs))))))))"

lemma replace_file_target:
  assumes "replace_file F now tmp final body fs = (r, fs')" and "tmp \<noteq> final"
  shows "map_of fs' final = (case (r, body) of (Inr _, Inr bs) \<Rightarrow> Some \<lparr>fn_body = bs, fn_mtime = now\<rparr> | _ \<Rightarrow> map_of fs final)"
  using assms unfolding replace_file_def by (auto split: option.splits sum.splits)

lemma replace_file_others:
  assumes "replace_file F now tmp final body fs = (r, fs')" and "p \<noteq> tmp" and "p \<noteq> final"
  shows "map_of fs' p = map_of fs p"
  using assms unfolding replace_file_def by (auto split: option.splits sum.splits)

lemma replace_file_Inr:
  assumes "replace_file F now tmp final body fs = (Inr u, fs')"
  shows "\<exists>bs. body = Inr bs"
  using assms unfolding replace_file_def by (auto split: option.splits sum.splits)

section \<open>Clean cache\<close>

record cache_lib =
  cl_path_hex :: "string \<Rightarrow> string"
  cl_to_vec :: "cache_entry \<Rightarrow> string + bytes"
  cl_from_slice :: "bytes \<Rightarrow> cache_entry option"
  cl_pointer_hash :: "string \<Rightarrow> string option"

definition clean_cache_dir :: "path \<Rightarrow> path" where
  "clean_cache_dir git_dir = git_dir @ [''bale'', ''clean-cache'']"

definition cache_path :: "path \<Rightarrow> string \<Rightarrow> path" where
  "cache_path git_dir key_hex = clean_cache_dir git_dir @ [key_hex]"

definition cache_load :: "cache_lib \<Rightarrow> io_error option \<Rightarrow> path \<Rightarrow> string \<Rightarrow> fs \<Rightarrow> io_error + cache_entry option" where
  "cache_load L read_fault git_dir key_hex fs =
     (case map_of fs (cache_path git_dir key_hex) of
        None \<Rightarrow> Inr None
      | Some n \<Rightarrow>
          (case read_fault of
             Some e \<Rightarrow> if e = IoNotFound then Inr None else Inl e
           | None \<Rightarrow>
               (case cl_from_slice L (fn_body n) of
                  None \<Rightarrow> Inr None
                | Some entry \<Rightarrow> if ce_v entry \<noteq> CLEAN_CACHE_VERSION then Inr None else Inr (Some entry))))"

definition cache_tmp :: "path \<Rightarrow> string \<Rightarrow> nat \<Rightarrow> path" where
  "cache_tmp git_dir key_hex pid = clean_cache_dir git_dir @ [key_hex @ ''.tmp.'' @ show_nat pid]"

definition cache_save ::
  "cache_lib \<Rightarrow> save_faults \<Rightarrow> nat \<Rightarrow> nat \<Rightarrow> path \<Rightarrow> string \<Rightarrow> cache_entry \<Rightarrow> fs \<Rightarrow> (io_error + unit) \<times> fs" where
  "cache_save L F pid now git_dir key_hex entry =
     replace_file F now (cache_tmp git_dir key_hex pid) (cache_path git_dir key_hex)
       (rmap_err InvalidData (cl_to_vec L entry))"

text \<open>Dropping the entries whose pointer names one of the hashes: the answers of the operating system are by path.\<close>

record forget_faults =
  fg_list :: "io_error option"
  fg_entry :: "path \<Rightarrow> io_error option"
  fg_readable :: "path \<Rightarrow> bool"
  fg_unlink :: "path \<Rightarrow> io_error option"

fun forget_loop ::
  "cache_lib \<Rightarrow> forget_faults \<Rightarrow> path \<Rightarrow> string set \<Rightarrow> (string \<times> fnode) list \<Rightarrow> nat \<Rightarrow> fs \<Rightarrow> (io_error + nat) \<times> fs" where
  "forget_loop L F git_dir hashes [] removed fs = (Inr removed, fs)"
| "forget_loop L F git_dir hashes ((name, n) # es) removed fs =
     (let p = cache_path git_dir name in
      case fg_entry F p of
        Some e \<Rightarrow> (Inl e, fs)
      | None \<Rightarrow>
          if \<not> fg_readable F p then forget_loop L F git_dir hashes es removed fs
          else (case cl_from_slice L (fn_body n) of
                  None \<Rightarrow> forget_loop L F git_dir hashes es removed fs
                | Some entry \<Rightarrow>
                    (case cl_pointer_hash L (ce_pointer entry) of
                       None \<Rightarrow> forget_loop L F git_dir hashes es removed fs
                     | Some h \<Rightarrow>
                         if h \<notin> hashes then forget_loop L F git_dir hashes es removed fs
                         else (case fg_unlink F p of
                                 None \<Rightarrow> forget_loop L F git_dir hashes es (removed + 1) (del_file p fs)
                               | Some e \<Rightarrow> if e = IoNotFound then forget_loop L F git_dir hashes es removed fs else (Inl e, fs)))))"

definition forget_hashes ::
  "cache_lib \<Rightarrow> forget_faults \<Rightarrow> path \<Rightarrow> string set \<Rightarrow> fs \<Rightarrow> (io_error + nat) \<times> fs" where
  "forget_hashes L F git_dir hashes fs =
     (if hashes = {} then (Inr 0, fs)
      else case fg_list F of
             Some e \<Rightarrow> (if e = IoNotFound then Inr 0 else Inl e, fs)
           | None \<Rightarrow> forget_loop L F git_dir hashes (read_dir (clean_cache_dir git_dir) fs) 0 fs)"

section \<open>Manifests\<close>

definition MANIFEST_VERSION :: nat where "MANIFEST_VERSION = 1"

record cached_term =
  ct_xorb_hash :: string
  ct_chunk_start :: u32
  ct_chunk_end :: u32
  ct_unpacked_length :: nat

record cached_manifest =
  cm_v :: nat
  cm_terms :: "cached_term list"

record manifest_lib =
  ml_to_vec_pretty :: "cached_manifest \<Rightarrow> string + bytes"
  ml_from_slice :: "bytes \<Rightarrow> cached_manifest option"

definition manifest_path :: "path \<Rightarrow> string \<Rightarrow> path" where
  "manifest_path git_dir file_id_hex = git_dir @ [''bale'', ''manifests'', file_id_hex @ ''.json'']"

definition manifest_load :: "manifest_lib \<Rightarrow> io_error option \<Rightarrow> path \<Rightarrow> string \<Rightarrow> fs \<Rightarrow> io_error + cached_manifest option" where
  "manifest_load L read_fault git_dir file_id_hex fs =
     (case map_of fs (manifest_path git_dir file_id_hex) of
        None \<Rightarrow> Inr None
      | Some n \<Rightarrow>
          (case read_fault of
             Some e \<Rightarrow> if e = IoNotFound then Inr None else Inl e
           | None \<Rightarrow>
               (case ml_from_slice L (fn_body n) of
                  None \<Rightarrow> Inr None
                | Some manifest \<Rightarrow> if cm_v manifest \<noteq> MANIFEST_VERSION then Inr None else Inr (Some manifest))))"

definition manifest_tmp :: "path \<Rightarrow> string \<Rightarrow> nat \<Rightarrow> path" where
  "manifest_tmp git_dir file_id_hex pid = git_dir @ [''bale'', ''manifests'', file_id_hex @ ''.json.tmp.'' @ show_nat pid]"

definition manifest_save ::
  "manifest_lib \<Rightarrow> save_faults \<Rightarrow> nat \<Rightarrow> nat \<Rightarrow> path \<Rightarrow> string \<Rightarrow> cached_manifest \<Rightarrow> fs \<Rightarrow> (io_error + unit) \<times> fs" where
  "manifest_save L F pid now git_dir file_id_hex manifest =
     replace_file F now (manifest_tmp git_dir file_id_hex pid) (manifest_path git_dir file_id_hex)
       (rbind (rmap_err InvalidData (ml_to_vec_pretty L manifest)) (\<lambda>body. Inr (body @ [0x0A])))"

section \<open>Properties\<close>

text \<open>Saving a clean-cache entry is all or nothing. Whatever step of the write protocol fails, a later lookup sees either
  exactly the new entry (when saving succeeded) or exactly what it saw before, and no other entry changes.\<close>

lemma cache_save_all_or_nothing:
  assumes "\<And>bs. cl_to_vec L entry = Inr bs \<Longrightarrow> cl_from_slice L bs = Some entry" and "ce_v entry = CLEAN_CACHE_VERSION"
    and "cache_save L F pid now git_dir key entry fs = (r, fs')"
  shows "cache_load L None git_dir key fs' = (case r of Inr _ \<Rightarrow> Inr (Some entry) | Inl _ \<Rightarrow> cache_load L None git_dir key fs) \<and>
    (other \<noteq> key \<and> other \<noteq> key @ ''.tmp.'' @ show_nat pid \<longrightarrow>
       cache_load L None git_dir other fs' = cache_load L None git_dir other fs)"
proof (intro conjI impI)
  have tmp: "cache_tmp git_dir key pid \<noteq> cache_path git_dir key" by (simp add: cache_tmp_def cache_path_def)
  note save = assms(3) [unfolded cache_save_def]
  show "cache_load L None git_dir key fs' = (case r of Inr _ \<Rightarrow> Inr (Some entry) | Inl _ \<Rightarrow> cache_load L None git_dir key fs)"
  proof (cases r)
    case (Inr u)
    then obtain bs where bs: "cl_to_vec L entry = Inr bs" using replace_file_Inr save by (metis rmap_err_eq_Inr)
    with replace_file_target [OF save tmp] Inr assms(1) [OF bs] assms(2) show ?thesis by (simp add: cache_load_def)
  qed (use replace_file_target [OF save tmp] in \<open>simp add: cache_load_def\<close>)
next
  assume "other \<noteq> key \<and> other \<noteq> key @ ''.tmp.'' @ show_nat pid"
  then have "cache_path git_dir other \<noteq> cache_tmp git_dir key pid" "cache_path git_dir other \<noteq> cache_path git_dir key"
    by (simp_all add: cache_path_def cache_tmp_def)
  with replace_file_others [OF assms(3) [unfolded cache_save_def]]
  show "cache_load L None git_dir other fs' = cache_load L None git_dir other fs" by (simp add: cache_load_def)
qed

definition ex_entry :: cache_entry where
  "ex_entry = \<lparr>ce_v = 3, ce_size = 0, ce_chunks = [], ce_pointer = ''p''\<rparr>"

definition ex_cache_lib :: cache_lib where
  "ex_cache_lib = \<lparr>cl_path_hex = id, cl_to_vec = (\<lambda>_. Inr [1]), cl_from_slice = (\<lambda>bs. if bs = [1] then Some ex_entry else None),
     cl_pointer_hash = (\<lambda>p. Some p)\<rparr>"

text \<open>Forgetting touches nothing but files of the clean cache, and a complete run leaves no readable entry with one of the
  hashes.\<close>

lemma forget_loop_other:
  "forget_loop L F git_dir hashes es removed fs = (r, fs') \<Longrightarrow> (\<And>name. p \<noteq> cache_path git_dir name) \<Longrightarrow> map_of fs' p = map_of fs p"
  by (induction es arbitrary: removed fs)
    (auto simp: Let_def split: option.splits if_splits prod.splits)

lemma forget_hashes_other:
  "forget_hashes L F git_dir hashes fs = (r, fs') \<Longrightarrow> (\<And>name. p \<noteq> cache_path git_dir name) \<Longrightarrow> map_of fs' p = map_of fs p"
  using forget_loop_other by (fastforce simp: forget_hashes_def split: option.splits if_splits)

lemma forget_loop_subset:
  "forget_loop L F git_dir hashes es removed fs = (r, fs') \<Longrightarrow> map_of fs' p = None \<or> map_of fs' p = map_of fs p"
proof (induction es arbitrary: removed fs)
  case (Cons e es)
  obtain name n where e: "e = (name, n)" by (cases e)
  have "map_of fs' p = None \<or> map_of fs' p = map_of (del_file (cache_path git_dir name) fs) p" if
    "forget_loop L F git_dir hashes es (removed + 1) (del_file (cache_path git_dir name) fs) = (r, fs')"
    using Cons.IH [OF that] .
  with Cons show ?case by (auto simp: e Let_def split: option.splits if_splits)
qed simp

definition calm_forget :: forget_faults where
  "calm_forget = \<lparr>fg_list = None, fg_entry = (\<lambda>_. None), fg_readable = (\<lambda>_. True), fg_unlink = (\<lambda>_. None)\<rparr>"

lemma calm_forget_simps [simp]:
  "fg_list calm_forget = None" "fg_entry calm_forget p = None" "fg_readable calm_forget p" "fg_unlink calm_forget p = None"
  by (simp_all add: calm_forget_def)

lemma forget_loop_removes:
  assumes "forget_loop L calm_forget git_dir hashes es removed fs = (r, fs')"
    and "(name, n) \<in> set es" and "cl_from_slice L (fn_body n) = Some entry"
    and "cl_pointer_hash L (ce_pointer entry) = Some h" and "h \<in> hashes"
  shows "map_of fs' (cache_path git_dir name) = None"
  using assms(1,2)
proof (induction es arbitrary: removed fs)
  case (Cons e es)
  obtain name' n' where e: "e = (name', n')" by (cases e)
  show ?case
  proof (cases "(name', n') = (name, n)")
    case True
    with Cons.prems(1) assms(3-5)
    have "forget_loop L calm_forget git_dir hashes es (removed + 1) (del_file (cache_path git_dir name) fs) = (r, fs')"
      by (simp add: e)
    from forget_loop_subset [OF this, of "cache_path git_dir name"] show ?thesis by auto
  next
    case False
    then have "(name, n) \<in> set es" using Cons.prems(2) e by auto
    with Cons show ?thesis by (auto simp: e Let_def split: option.splits if_splits)
  qed
qed simp

end
