(* ===== verification/Gc.thy ===== *)
theory Gc
  imports Cache_Files Pointer
begin

text \<open>
  Garbage collection of the staging area, \<open>git-bale/src/gc.rs\<close>, over the caches and the staging area. The Git repository
  is what \<open>gix\<close> answers about it (index, references, objects, revision walk, tree diff), a parameter.
\<close>

section \<open>The repository as \<open>gix\<close> shows it\<close>

type_synonym oid = bytes

datatype object_kind = Tree | Blob | Commit | Tag

record git_repo =
  gr_git_dir :: path
  gr_index :: "(bool \<times> oid) list option"
  gr_head :: "oid option"
  gr_refs :: "(string \<times> oid option) list option"
  gr_header :: "oid \<Rightarrow> (object_kind \<times> nat) option"
  gr_data :: "oid \<Rightarrow> bytes option"
  gr_walk :: "oid list \<Rightarrow> oid list \<Rightarrow> oid list option"
  gr_tree :: "oid \<Rightarrow> oid option"
  gr_parents :: "oid \<Rightarrow> oid list"
  gr_empty_tree :: oid
  gr_diff :: "oid \<Rightarrow> oid \<Rightarrow> (bool \<times> oid) list"

text \<open>\<open>gr_index\<close>: the entries, each with whether its mode is that of a regular or executable file. \<open>gr_refs\<close>: names with the
  peeled id if peeling succeeds; a reference that cannot be read has no name and is left out. \<open>gr_diff\<close>: the added and modified
  entries between two trees, each with whether it is a blob; empty if the diff cannot be made. \<open>gr_walk\<close>: the readable commits from
  some tips with the ancestors of others hidden, \<^const>\<open>None\<close> if the walk cannot start.\<close>

definition is_commit :: "git_repo \<Rightarrow> oid \<Rightarrow> bool" where
  "is_commit repo oid \<longleftrightarrow> (case gr_header repo oid of Some (k, _) \<Rightarrow> k = Commit | None \<Rightarrow> False)"

definition ref_tips :: "git_repo \<Rightarrow> oid list \<times> oid list" where
  "ref_tips repo =
     (let head = (case gr_head repo of Some i \<Rightarrow> if is_commit repo i then [i] else [] | None \<Rightarrow> []);
          peeled = (case gr_refs repo of
                      None \<Rightarrow> []
                    | Some rs \<Rightarrow> concat (map (\<lambda>(name, r). case r of Some i \<Rightarrow> if is_commit repo i then [(name, i)] else [] | None \<Rightarrow> []) rs));
          remote = (\<lambda>(name, i). starts_with ''refs/remotes/'' name)
      in (head @ map snd (filter (\<lambda>r. \<not> remote r) peeled), map snd (filter remote peeled)))"

section \<open>Liveness\<close>

text \<open>The file hash a blob points to: small, parsing as a pointer.\<close>

definition blob_pointer :: "json_lib \<Rightarrow> git_repo \<Rightarrow> oid \<Rightarrow> string option" where
  "blob_pointer J repo oid =
     (case gr_header repo oid of
        None \<Rightarrow> None
      | Some (kind, sz) \<Rightarrow>
          if kind \<noteq> Blob \<or> sz = 0 \<or> sz > POINTER_MAX_BYTES then None
          else (case gr_data repo oid of
                  None \<Rightarrow> None
                | Some data \<Rightarrow> (case parse_pointer J data of Inr info \<Rightarrow> Some (xfi_hash info) | Inl _ \<Rightarrow> None)))"

definition consider_blob ::
  "json_lib \<Rightarrow> git_repo \<Rightarrow> string set \<Rightarrow> oid \<Rightarrow> oid set \<times> string set \<Rightarrow> oid set \<times> string set" where
  "consider_blob J repo want oid = (\<lambda>(seen, live).
     if oid \<in> seen then (seen, live)
     else (insert oid seen,
           case blob_pointer J repo oid of Some h \<Rightarrow> if h \<in> want then insert h live else live | None \<Rightarrow> live))"

text \<open>Scanning entries stops once every wanted hash is live; the flag tells.\<close>

fun scan_entries ::
  "json_lib \<Rightarrow> git_repo \<Rightarrow> string set \<Rightarrow> (bool \<times> oid) list \<Rightarrow> oid set \<times> string set \<Rightarrow> bool \<times> oid set \<times> string set" where
  "scan_entries J repo want [] st = (False, st)"
| "scan_entries J repo want ((is_file, oid) # es) st =
     (if \<not> is_file then scan_entries J repo want es st
      else let st' = consider_blob J repo want oid st
           in if card (snd st') = card want then (True, st') else scan_entries J repo want es st')"

definition collect_changed_pointers ::
  "json_lib \<Rightarrow> git_repo \<Rightarrow> oid \<Rightarrow> oid \<Rightarrow> string set \<Rightarrow> oid set \<times> string set \<Rightarrow> oid set \<times> string set" where
  "collect_changed_pointers J repo parent_tree commit_tree want st =
     snd (scan_entries J repo want (gr_diff repo parent_tree commit_tree) st)"

definition parent_tree_of :: "git_repo \<Rightarrow> oid \<Rightarrow> oid" where
  "parent_tree_of repo c =
     (case gr_parents repo c of
        [] \<Rightarrow> gr_empty_tree repo
      | pid # _ \<Rightarrow> (case gr_tree repo pid of Some t \<Rightarrow> t | None \<Rightarrow> gr_empty_tree repo))"

fun scan_commits ::
  "json_lib \<Rightarrow> git_repo \<Rightarrow> string set \<Rightarrow> oid list \<Rightarrow> oid set \<times> string set \<Rightarrow> oid set \<times> string set" where
  "scan_commits J repo want [] st = st"
| "scan_commits J repo want (c # cs) st =
     (case gr_tree repo c of
        None \<Rightarrow> scan_commits J repo want cs st
      | Some commit_tree \<Rightarrow>
          let st' = collect_changed_pointers J repo (parent_tree_of repo c) commit_tree want st
          in if card (snd st') = card want then st' else scan_commits J repo want cs st')"

definition reachable_hashes ::
  "json_lib \<Rightarrow> git_repo \<Rightarrow> string set \<Rightarrow> oid list \<Rightarrow> oid list \<Rightarrow> string set" where
  "reachable_hashes J repo want tips hidden =
     (let (full, st) = (case gr_index repo of
                          Some entries \<Rightarrow> scan_entries J repo want entries ({}, {})
                        | None \<Rightarrow> (False, ({}, {})))
      in if full \<or> tips = [] then snd st
         else case gr_walk repo tips hidden of
                None \<Rightarrow> snd st
              | Some walk \<Rightarrow> snd (scan_commits J repo want walk st))"

definition reachable_all :: "json_lib \<Rightarrow> git_repo \<Rightarrow> string set \<Rightarrow> string set" where
  "reachable_all J repo want =
     (case ref_tips repo of (local, remote) \<Rightarrow> reachable_hashes J repo want (local @ remote) [])"

section \<open>Locks and age\<close>

text \<open>\<open>Path::extension\<close> is \<open>lock\<close>: the name has a dot that is not its first character, and \<open>lock\<close> follows the last one.\<close>

definition has_lock_extension :: "string \<Rightarrow> bool" where
  "has_lock_extension name \<longleftrightarrow> (case rsplit_once (CHR ''.'') name of Some (stem, ext) \<Rightarrow> stem \<noteq> [] \<and> ext = ''lock'' | None \<Rightarrow> False)"

text \<open>\<open>unreadable\<close>: the directories that cannot be listed, which count as free of locks.\<close>

definition dir_has_lock :: "(path \<Rightarrow> bool) \<Rightarrow> path \<Rightarrow> bool \<Rightarrow> fs \<Rightarrow> bool" where
  "dir_has_lock unreadable dir recurse fs \<longleftrightarrow>
     list_ex (\<lambda>(p, n). below dir p \<and> has_lock_extension (last p) \<and>
        (if recurse then list_all (\<lambda>k. \<not> unreadable (take k p)) [length dir..<length p]
         else butlast p = dir \<and> \<not> unreadable dir)) fs"

definition git_op_in_flight :: "bool \<Rightarrow> (path \<Rightarrow> bool) \<Rightarrow> path \<Rightarrow> fs \<Rightarrow> bool" where
  "git_op_in_flight index_file_locked unreadable git_dir fs \<longleftrightarrow>
     index_file_locked \<or> dir_has_lock unreadable git_dir False fs \<or>
     dir_has_lock unreadable (git_dir @ [''refs'']) True fs \<or> dir_has_lock unreadable (git_dir @ [''reftable'']) True fs"

definition DEFAULT_GRACE_SECS :: nat where "DEFAULT_GRACE_SECS = 600"

text \<open>Times are in nanoseconds.\<close>

definition reclaim_grace :: "string option \<Rightarrow> nat" where
  "reclaim_grace var =
     (case var of
        None \<Rightarrow> DEFAULT_GRACE_SECS
      | Some v \<Rightarrow> (case parse_u64 (trim v) of Some n \<Rightarrow> n | None \<Rightarrow> DEFAULT_GRACE_SECS)) * 1000000000"

definition marker_age_exceeds :: "(path \<Rightarrow> bool) \<Rightarrow> path \<Rightarrow> string \<Rightarrow> nat \<Rightarrow> nat \<Rightarrow> fs \<Rightarrow> bool" where
  "marker_age_exceeds stat_ok git_dir h grace now fs \<longleftrightarrow>
     (case marker_mtime stat_ok git_dir h fs of
        Some mtime \<Rightarrow> mtime \<le> now \<and> now - mtime > grace
      | None \<Rightarrow> False)"

section \<open>Reconciliation\<close>

record gc_env =
  ge_config :: "raw_config option"
  ge_try_lock :: "io_error + bool"
  ge_index_file_locked :: bool
  ge_unreadable :: "path \<Rightarrow> bool"
  ge_list_before :: "io_error option"
  ge_list_after :: "io_error option"
  ge_readable :: "path \<Rightarrow> bool"
  ge_stat_ok :: "path \<Rightarrow> bool"
  ge_grace_var :: "string option"
  ge_now :: nat
  ge_unlink :: "path \<Rightarrow> io_error option"
  ge_forget :: forget_faults
  ge_clear :: "(io_error \<times> (path \<Rightarrow> bool)) option"
  ge_sweep_list :: "io_error option"
  ge_unlinked :: "path \<Rightarrow> bool"

definition default_config :: "path \<Rightarrow> raw_config" where
  "default_config git_dir = \<lparr>rc_server_url = None, rc_token = None, rc_token_expiration = None, rc_cache_dir = [''.''],
     rc_git_dir = Some git_dir, rc_local_mode = False, rc_local_store = None, rc_local_shared = False, rc_ssh_command = None\<rparr>"

text \<open>What is dead: staged, not live, and older than the grace.\<close>

definition gc_dead :: "json_lib \<Rightarrow> gc_env \<Rightarrow> git_repo \<Rightarrow> raw_config \<Rightarrow> string set \<Rightarrow> fs \<Rightarrow> string list \<Rightarrow> string list" where
  "gc_dead J E repo raw want fs hexes =
     (case ref_tips repo of (local_tips, remote_tips) \<Rightarrow>
        let live = (if rc_local_mode raw then reachable_hashes J repo want (local_tips @ remote_tips) []
                    else reachable_hashes J repo want local_tips remote_tips)
        in filter (\<lambda>h. marker_age_exceeds (ge_stat_ok E) (gr_git_dir repo) h (reclaim_grace (ge_grace_var E)) (ge_now E) fs)
             (filter (\<lambda>h. h \<notin> live) hexes))"

definition gc_orphaned :: "json_lib \<Rightarrow> git_repo \<Rightarrow> raw_config \<Rightarrow> string set \<Rightarrow> string list \<Rightarrow> string set" where
  "gc_orphaned J repo raw want dead =
     (case ref_tips repo of (local_tips, remote_tips) \<Rightarrow>
        if rc_local_mode raw \<or> remote_tips = [] then set dead
        else set (filter (\<lambda>h. h \<notin> reachable_hashes J repo want (local_tips @ remote_tips) []) dead))"

definition remove_markers :: "gc_env \<Rightarrow> path \<Rightarrow> string list \<Rightarrow> fs \<Rightarrow> fs" where
  "remove_markers E git_dir dead fs =
     fold (\<lambda>h fs. snd (remove_marker (ge_unlink E (file_marker_path git_dir h)) git_dir h fs)) dead fs"

definition gc_sweep :: "gc_env \<Rightarrow> path \<Rightarrow> path \<Rightarrow> fs \<Rightarrow> fs" where
  "gc_sweep E git_dir store fs =
     (let remaining = (case list_staged_files (ge_list_after E) (ge_readable E) git_dir fs of Inr l \<Rightarrow> length l | Inl _ \<Rightarrow> 0)
      in if remaining = 0
         then snd (remove_all_staged_objects (ge_sweep_list E) (ge_unlinked E) store
                (snd (clear_file_markers (ge_clear E) git_dir fs)))
         else fs)"

definition gc_config :: "gc_env \<Rightarrow> git_repo \<Rightarrow> raw_config" where
  "gc_config E repo = (case ge_config E of Some c \<Rightarrow> c | None \<Rightarrow> default_config (gr_git_dir repo))"

definition gc_store :: "gc_env \<Rightarrow> git_repo \<Rightarrow> path" where
  "gc_store E repo = (case object_store_root (gc_config E repo) of Inr p \<Rightarrow> p | Inl _ \<Rightarrow> staging_root (gr_git_dir repo))"

definition reconcile :: "json_lib \<Rightarrow> cache_lib \<Rightarrow> gc_env \<Rightarrow> git_repo option \<Rightarrow> fs \<Rightarrow> fs" where
  "reconcile J L E discovered fs =
     (case discovered of
        None \<Rightarrow> fs
      | Some repo \<Rightarrow>
          let git_dir = gr_git_dir repo;
              raw = gc_config E repo
          in if rc_local_mode raw \<and> rc_local_shared raw then fs
             else
               let store = gc_store E repo
               in if ge_try_lock E \<noteq> Inr True then fs
                  else if git_op_in_flight (ge_index_file_locked E) (ge_unreadable E) git_dir fs then fs
                  else
                    let staged = (case list_staged_files (ge_list_before E) (ge_readable E) git_dir fs of Inr l \<Rightarrow> l | Inl _ \<Rightarrow> [])
                    in if staged = [] then fs
                       else
                         let want = set (map fst staged);
                             dead = gc_dead J E repo raw want fs (map fst staged)
                         in if dead = [] then fs
                            else
                              let fs1 = remove_markers E git_dir dead fs;
                                  fs2 = snd (forget_hashes L (ge_forget E) git_dir (gc_orphaned J repo raw want dead) fs1)
                              in gc_sweep E git_dir store fs2)"

section \<open>What the scan finds\<close>

text \<open>The blobs the scan may look at.\<close>

definition entry_blobs :: "(bool \<times> oid) list \<Rightarrow> oid set" where
  "entry_blobs es = snd ` {e \<in> set es. fst e}"

definition index_blobs :: "git_repo \<Rightarrow> oid set" where
  "index_blobs repo = (case gr_index repo of Some es \<Rightarrow> entry_blobs es | None \<Rightarrow> {})"

definition changed_blobs :: "git_repo \<Rightarrow> oid \<Rightarrow> oid set" where
  "changed_blobs repo c =
     (case gr_tree repo c of Some t \<Rightarrow> entry_blobs (gr_diff repo (parent_tree_of repo c) t) | None \<Rightarrow> {})"

definition pointed :: "json_lib \<Rightarrow> git_repo \<Rightarrow> string set \<Rightarrow> oid set \<Rightarrow> string set" where
  "pointed J repo want os = {h \<in> want. \<exists>i \<in> os. blob_pointer J repo i = Some h}"

definition live_blobs :: "git_repo \<Rightarrow> oid list \<Rightarrow> oid list \<Rightarrow> oid set" where
  "live_blobs repo tips hidden = index_blobs repo \<union>
     (if tips = [] then {} else case gr_walk repo tips hidden of None \<Rightarrow> {} | Some w \<Rightarrow> (\<Union>c \<in> set w. changed_blobs repo c))"

text \<open>The state of a scan: what is live is what the seen blobs point to.\<close>

definition scanned :: "json_lib \<Rightarrow> git_repo \<Rightarrow> string set \<Rightarrow> oid set \<times> string set \<Rightarrow> bool" where
  "scanned J repo want st \<longleftrightarrow> snd st = pointed J repo want (fst st)"

lemma pointed_subset: "pointed J repo want os \<subseteq> want"
  by (auto simp: pointed_def)

lemma pointed_mono: "os \<subseteq> os' \<Longrightarrow> pointed J repo want os \<subseteq> pointed J repo want os'"
  by (auto simp: pointed_def)

lemma full_card: "finite want \<Longrightarrow> scanned J repo want st \<Longrightarrow> card (snd st) = card want \<Longrightarrow> snd st = want"
  using card_subset_eq [of want "snd st"] pointed_subset by (auto simp: scanned_def)

lemma consider_blob_spec:
  "scanned J repo want st \<Longrightarrow> scanned J repo want (consider_blob J repo want i st) \<and> fst (consider_blob J repo want i st) = insert i (fst st)"
  by (cases st) (auto simp: scanned_def consider_blob_def pointed_def split: option.splits)

lemma entry_blobs_simps [simp]:
  "entry_blobs [] = {}" "entry_blobs ((f, i) # es) = (if f then insert i (entry_blobs es) else entry_blobs es)"
  by (auto simp: entry_blobs_def image_iff)

lemma scan_entries_spec:
  assumes "finite want" and "scanned J repo want st"
  shows "scanned J repo want (snd (scan_entries J repo want es st)) \<and>
    fst (snd (scan_entries J repo want es st)) \<subseteq> fst st \<union> entry_blobs es \<and>
    (if fst (scan_entries J repo want es st) then snd (snd (scan_entries J repo want es st)) = want
     else fst (snd (scan_entries J repo want es st)) = fst st \<union> entry_blobs es)"
  using assms(2)
proof (induction es arbitrary: st)
  case (Cons e es)
  obtain is_file i where e: "e = (is_file, i)" by (cases e)
  show ?case
  proof (cases is_file)
    case True
    let ?st = "consider_blob J repo want i st"
    have st: "scanned J repo want ?st" "fst ?st = insert i (fst st)" using consider_blob_spec [OF Cons.prems] by auto
    have b: "entry_blobs (e # es) = insert i (entry_blobs es)" using True by (simp add: e)
    show ?thesis
    proof (cases "card (snd ?st) = card want")
      case full: True
      with st b full_card [OF assms(1) st(1)] True show ?thesis by (auto simp: e Let_def)
    next
      case False
      with Cons.IH [OF st(1)] st(2) b True show ?thesis by (simp add: e Let_def)
    qed
  next
    case False
    with Cons show ?thesis by (simp add: e)
  qed
qed simp

lemma scan_commits_spec:
  assumes "finite want" and "scanned J repo want st"
  shows "scanned J repo want (scan_commits J repo want cs st) \<and>
    fst (scan_commits J repo want cs st) \<subseteq> fst st \<union> (\<Union>c \<in> set cs. changed_blobs repo c) \<and>
    (snd (scan_commits J repo want cs st) = want \<or>
     fst (scan_commits J repo want cs st) = fst st \<union> (\<Union>c \<in> set cs. changed_blobs repo c))"
  using assms(2)
proof (induction cs arbitrary: st)
  case (Cons c cs)
  show ?case
  proof (cases "gr_tree repo c")
    case None
    with Cons show ?thesis by (simp add: changed_blobs_def)
  next
    case (Some t)
    let ?st = "collect_changed_pointers J repo (parent_tree_of repo c) t want st"
    note spec = scan_entries_spec [OF assms(1) Cons.prems, of "gr_diff repo (parent_tree_of repo c) t",
        folded collect_changed_pointers_def]
    have b: "changed_blobs repo c = entry_blobs (gr_diff repo (parent_tree_of repo c) t)" using Some by (simp add: changed_blobs_def)
    show ?thesis
    proof (cases "card (snd ?st) = card want")
      case True
      with spec full_card [OF assms(1), of J repo ?st] Some b show ?thesis by auto
    next
      case False
      then have "fst ?st = fst st \<union> changed_blobs repo c" using spec b by (auto split: if_splits)
      with False Cons.IH [of ?st] spec Some show ?thesis by (simp add: Un_assoc)
    qed
  qed
qed simp

text \<open>The liveness scan is exact. Skipping repeated blobs and stopping as soon as every wanted hash is found lose nothing:
  the result is the set of wanted hashes some blob in the index, or changed by a walked commit, points to.\<close>

lemma reachable_hashes_exact:
  assumes "finite want"
  shows "reachable_hashes J repo want tips hidden = pointed J repo want (live_blobs repo tips hidden)"
proof -
  define r where "r = (case gr_index repo of Some es \<Rightarrow> scan_entries J repo want es ({}, {}) | None \<Rightarrow> (False, ({}, {})))"
  define W where "W = (if tips = [] then [] else case gr_walk repo tips hidden of None \<Rightarrow> [] | Some w \<Rightarrow> w)"
  have start: "scanned J repo want ({}, {})" by (simp add: scanned_def pointed_def)
  have r: "scanned J repo want (snd r)" "fst (snd r) \<subseteq> index_blobs repo"
    "if fst r then snd (snd r) = want else fst (snd r) = index_blobs repo"
    using scan_entries_spec [OF assms start] start unfolding r_def index_blobs_def by (cases "gr_index repo"; simp)+
  have B: "live_blobs repo tips hidden = index_blobs repo \<union> (\<Union>c \<in> set W. changed_blobs repo c)"
    by (auto simp: live_blobs_def W_def split: option.splits)
  define fin where "fin = (if fst r \<or> W = [] then snd r else scan_commits J repo want W (snd r))"
  have res: "reachable_hashes J repo want tips hidden = snd fin"
    by (auto simp: reachable_hashes_def fin_def W_def case_prod_beta simp flip: r_def split: option.splits)
  have "scanned J repo want fin" "fst fin \<subseteq> live_blobs repo tips hidden"
    "snd fin = want \<or> fst fin = live_blobs repo tips hidden"
    using r scan_commits_spec [OF assms r(1), of W] unfolding fin_def B by (auto split: if_splits)
  moreover from this have "snd fin \<subseteq> pointed J repo want (live_blobs repo tips hidden)"
    using pointed_mono by (auto simp: scanned_def)
  ultimately show ?thesis
    unfolding res using pointed_subset [of J repo want "live_blobs repo tips hidden"] by (auto simp: scanned_def)
qed

section \<open>What a run keeps\<close>

text \<open>The hashes a run must keep: those a blob of the index or of an unpushed commit points to; in local mode of any commit.\<close>

definition gc_live :: "json_lib \<Rightarrow> git_repo \<Rightarrow> raw_config \<Rightarrow> string \<Rightarrow> bool" where
  "gc_live J repo raw h \<longleftrightarrow>
     (case ref_tips repo of (local_tips, remote_tips) \<Rightarrow>
        \<exists>i \<in> (if rc_local_mode raw then live_blobs repo (local_tips @ remote_tips) [] else live_blobs repo local_tips remote_tips).
          blob_pointer J repo i = Some h)"

lemma gc_dead_iff:
  assumes "finite want" and "set hexes \<subseteq> want"
  shows "h \<in> set (gc_dead J E repo raw want fs hexes) \<longleftrightarrow> h \<in> set hexes \<and> \<not> gc_live J repo raw h \<and>
    marker_age_exceeds (ge_stat_ok E) (gr_git_dir repo) h (reclaim_grace (ge_grace_var E)) (ge_now E) fs"
  using assms
  by (auto simp: gc_dead_def gc_live_def Let_def reachable_hashes_exact pointed_def split: prod.splits if_splits)

lemma reconcile_cases:
  assumes "reconcile J L E (Some repo) fs = fs'"
  obtains (unchanged) "fs' = fs"
  | (collected) staged dead fs1 where
      "list_staged_files (ge_list_before E) (ge_readable E) (gr_git_dir repo) fs = Inr staged"
      "dead = gc_dead J E repo (gc_config E repo) (set (map fst staged)) fs (map fst staged)" "dead \<noteq> []"
      "fs1 = snd (forget_hashes L (ge_forget E) (gr_git_dir repo)
         (gc_orphaned J repo (gc_config E repo) (set (map fst staged)) dead) (remove_markers E (gr_git_dir repo) dead fs))"
      "fs' = gc_sweep E (gr_git_dir repo) (gc_store E repo) fs1"
proof (cases "fs' = fs")
  case False
  then obtain staged where l: "list_staged_files (ge_list_before E) (ge_readable E) (gr_git_dir repo) fs = Inr staged"
    using assms by (cases "list_staged_files (ge_list_before E) (ge_readable E) (gr_git_dir repo) fs")
      (simp_all add: reconcile_def Let_def split: if_splits)
  show ?thesis
    by (rule collected [OF l refl _ refl]) (use False assms l in \<open>simp_all add: reconcile_def Let_def split: if_splits\<close>)
qed (rule unchanged)

lemma remove_marker_other: "p \<noteq> file_marker_path git_dir h \<Longrightarrow> map_of (snd (remove_marker f git_dir h fs)) p = map_of fs p"
  by (simp add: remove_marker_def split: option.splits)

lemma remove_markers_other:
  "p \<notin> file_marker_path git_dir ` set dead \<Longrightarrow> map_of (remove_markers E git_dir dead fs) p = map_of fs p"
  unfolding remove_markers_def by (induction dead arbitrary: fs) (simp_all add: remove_marker_other)

lemma marker_not_cache: "file_marker_path git_dir h \<noteq> cache_path git_dir name"
  by (simp add: file_marker_path_def file_index_dir_def staging_root_def cache_path_def clean_cache_dir_def)

lemma gc_sweep_spares:
  assumes "ge_list_after E = None" and "is_64_lower_hex h" and "map_of fs (file_marker_path git_dir h) \<noteq> None"
  shows "gc_sweep E git_dir store fs = fs"
proof -
  obtain l where l: "list_staged_files None (ge_readable E) git_dir fs = Inr l" by (simp add: list_staged_files_def)
  then have "h \<in> fst ` set l" using staged_names assms(2,3) by blast
  then have "l \<noteq> []" by auto
  with l assms(1) show ?thesis by (simp add: gc_sweep_def)
qed


lemma reconcile_collects:
  assumes "\<not> (rc_local_mode (gc_config E repo) \<and> rc_local_shared (gc_config E repo))" and "ge_try_lock E = Inr True"
    and "\<not> git_op_in_flight (ge_index_file_locked E) (ge_unreadable E) (gr_git_dir repo) fs"
    and "list_staged_files (ge_list_before E) (ge_readable E) (gr_git_dir repo) fs = Inr staged"
    and "dead = gc_dead J E repo (gc_config E repo) (set (map fst staged)) fs (map fst staged)" and "dead \<noteq> []"
  shows "reconcile J L E (Some repo) fs = gc_sweep E (gr_git_dir repo) (gc_store E repo)
    (snd (forget_hashes L (ge_forget E) (gr_git_dir repo)
       (gc_orphaned J repo (gc_config E repo) (set (map fst staged)) dead) (remove_markers E (gr_git_dir repo) dead fs)))"
proof -
  have "staged \<noteq> []" using assms(5,6) by (auto simp: gc_dead_def split: prod.splits)
  with assms show ?thesis by (auto simp: reconcile_def Let_def)
qed

lemma gc_sweep_all:
  assumes "ge_list_after E = Some e" and "ge_clear E = None" and "\<And>p. ge_unlinked E p"
    and "is_object store p \<or> below (file_index_dir git_dir) p"
  shows "map_of (gc_sweep E git_dir store fs) p = None"
proof -
  let ?fs = "filter (\<lambda>x. \<not> below (file_index_dir git_dir) (fst x)) fs"
  have "gc_sweep E git_dir store fs = filter (\<lambda>x. \<not> is_object store (fst x)) ?fs"
    using assms(1-3)
    by (simp add: gc_sweep_def list_staged_files_def clear_file_markers_def remove_all_staged_objects_def split: if_splits)
  then show ?thesis using assms(4)
    by (auto simp: map_of_eq_None_iff)
qed

text \<open>A failing listing makes garbage collection drop live data. If anything is dead and the directory of markers cannot be listed
  a second time, the run takes that for an empty staging area and removes every marker and every object of the store, also those of
  live files.\<close>

lemma gc_listing_failure_sweeps_live:
  assumes "\<not> (rc_local_mode (gc_config E repo) \<and> rc_local_shared (gc_config E repo))" and "ge_try_lock E = Inr True"
    and "\<not> git_op_in_flight (ge_index_file_locked E) (ge_unreadable E) (gr_git_dir repo) fs"
    and "ge_list_before E = None" and "ge_list_after E = Some e" and "ge_clear E = None" and "\<And>p. ge_unlinked E p"
    and "is_64_lower_hex d" and "map_of fs (file_marker_path (gr_git_dir repo) d) \<noteq> None"
    and "\<not> gc_live J repo (gc_config E repo) d"
    and "marker_age_exceeds (ge_stat_ok E) (gr_git_dir repo) d (reclaim_grace (ge_grace_var E)) (ge_now E) fs"
    and "is_object (gc_store E repo) p \<or> below (file_index_dir (gr_git_dir repo)) p"
  shows "map_of (reconcile J L E (Some repo) fs) p = None"
proof -
  obtain staged where l: "list_staged_files (ge_list_before E) (ge_readable E) (gr_git_dir repo) fs = Inr staged"
    using assms(4) by (simp add: list_staged_files_def)
  then have "d \<in> set (map fst staged)" using staged_names assms(4,8,9) by fastforce
  then have "gc_dead J E repo (gc_config E repo) (set (map fst staged)) fs (map fst staged) \<noteq> []"
    using gc_dead_iff [of "set (map fst staged)" "map fst staged" d J E repo "gc_config E repo" fs] assms(10,11) by auto
  from reconcile_collects [OF assms(1-3) l refl this] gc_sweep_all [OF assms(5-7)] assms(12) show ?thesis by metis
qed

section \<open>A repository with one live and one abandoned file\<close>

definition ex_hex :: "char \<Rightarrow> string" where
  "ex_hex c = replicate 64 c"

definition ex_gc_json :: json_lib where
  "ex_gc_json = \<lparr>js_to_string_pretty = (\<lambda>_. Inl ''unused''),
     js_from_str = (\<lambda>_. Inr \<lparr>xfi_hash = ex_hex (CHR ''a''), xfi_file_size = None\<rparr>)\<rparr>"

definition ex_gc_repo :: git_repo where
  "ex_gc_repo = \<lparr>gr_git_dir = [''g''], gr_index = Some [(True, [1])], gr_head = None, gr_refs = None,
     gr_header = (\<lambda>_. Some (Blob, 6)), gr_data = (\<lambda>_. Some (as_bytes POINTER_SENTINEL)), gr_walk = (\<lambda>_ _. None),
     gr_tree = (\<lambda>_. None), gr_parents = (\<lambda>_. []), gr_empty_tree = [], gr_diff = (\<lambda>_ _. [])\<rparr>"

definition ex_gc_env :: "io_error option \<Rightarrow> gc_env" where
  "ex_gc_env after = \<lparr>ge_config = None, ge_try_lock = Inr True, ge_index_file_locked = False, ge_unreadable = (\<lambda>_. False),
     ge_list_before = None, ge_list_after = after, ge_readable = (\<lambda>_. True), ge_stat_ok = (\<lambda>_. True), ge_grace_var = None,
     ge_now = 1000000000000, ge_unlink = (\<lambda>_. None), ge_forget = calm_forget, ge_clear = None, ge_sweep_list = None,
     ge_unlinked = (\<lambda>_. True)\<rparr>"

definition ex_object :: path where
  "ex_object = [''g'', ''bale'', ''staging'', ''default.'' @ ex_hex (CHR ''a'')]"

definition ex_gc_fs :: fs where
  "ex_gc_fs = [(file_marker_path [''g''] (ex_hex (CHR ''a'')), \<lparr>fn_body = [], fn_mtime = 0\<rparr>),
     (file_marker_path [''g''] (ex_hex (CHR ''b'')), \<lparr>fn_body = [], fn_mtime = 0\<rparr>),
     (ex_object, \<lparr>fn_body = [7], fn_mtime = 0\<rparr>)]"

lemma ex_hex: "is_64_lower_hex (ex_hex (CHR ''a''))" "is_64_lower_hex (ex_hex (CHR ''b''))"
  "ex_hex (CHR ''a'') \<noteq> ex_hex (CHR ''b'')"
  by (simp_all add: ex_hex_def is_64_lower_hex_def list_all_iff)

lemma ex_object_path: "ex_object = staging_root [''g''] @ [''default.'' @ ex_hex (CHR ''a'')]"
  by (simp add: ex_object_def staging_root_def)

lemma ex_gc_fields:
  "gr_git_dir ex_gc_repo = [''g'']" "ge_list_after (ex_gc_env a) = a" "gc_store (ex_gc_env a) ex_gc_repo = staging_root [''g'']"
  "gc_config (ex_gc_env a) ex_gc_repo = default_config [''g'']"
  by (simp_all add: ex_gc_repo_def ex_gc_env_def gc_store_def gc_config_def default_config_def object_store_root_def)

lemma ex_is_object: "is_object (staging_root [''g'']) ex_object"
proof -
  have "is_xorb_filename (''default.'' @ ex_hex (CHR ''a''))"
    unfolding is_xorb_filename_def by (simp only: strip_prefix_append option.case ex_hex)
  then show ?thesis by (simp add: is_object_def below_def ex_object_path del: append_Cons)
qed

lemma ex_gc_pointer: "blob_pointer ex_gc_json ex_gc_repo i = Some (ex_hex (CHR ''a''))"
proof -
  have "contains_str POINTER_SENTINEL POINTER_SENTINEL" by (auto simp: contains_str_iff intro: exI [of _ "[]"])
  moreover have "utf8_valid (as_bytes POINTER_SENTINEL)"
    by (rule utf8_valid_ascii) (simp add: POINTER_SENTINEL_def as_bytes_def)
  ultimately have "parse_pointer ex_gc_json (as_bytes POINTER_SENTINEL) = Inr \<lparr>xfi_hash = ex_hex (CHR ''a''), xfi_file_size = None\<rparr>"
    by (simp add: parse_pointer_def from_utf8_def ex_gc_json_def POINTER_MAX_BYTES_def POINTER_SENTINEL_def)
  then show ?thesis by (simp add: blob_pointer_def ex_gc_repo_def POINTER_MAX_BYTES_def)
qed

lemma ex_gc_live: "gc_live ex_gc_json ex_gc_repo (default_config [''g'']) h \<longleftrightarrow> h = ex_hex (CHR ''a'')"
  using ex_gc_pointer
  by (auto simp: gc_live_def ref_tips_def live_blobs_def index_blobs_def ex_gc_repo_def default_config_def)

lemma lock_extension_last: "has_lock_extension name \<Longrightarrow> last name = CHR ''k''"
  by (auto simp: has_lock_extension_def rsplit_once_eq_Some split: option.splits prod.splits)


lemma gc_listing_failure_sweeps_live_example:
  "gc_live ex_gc_json ex_gc_repo (default_config [''g'']) (ex_hex (CHR ''a'')) \<and> map_of ex_gc_fs ex_object \<noteq> None \<and>
   map_of (reconcile ex_gc_json ex_cache_lib (ex_gc_env (Some (IoOther ''EMFILE''))) (Some ex_gc_repo) ex_gc_fs) ex_object = None"
proof -
  let ?E = "ex_gc_env (Some (IoOther ''EMFILE''))"
  have live: "gc_live ex_gc_json ex_gc_repo (default_config [''g'']) (ex_hex (CHR ''a''))" "map_of ex_gc_fs ex_object \<noteq> None"
    by (simp_all add: ex_gc_live ex_gc_fs_def)
  have "last (last p) \<noteq> CHR ''k''" if "(p, n) \<in> set ex_gc_fs" for p n
    using that by (auto simp: ex_gc_fs_def file_marker_path_def ex_object_def ex_hex_def)
  then have "\<not> has_lock_extension (last p)" if "(p, n) \<in> set ex_gc_fs" for p n
    using that lock_extension_last by blast
  then have lk: "\<not> git_op_in_flight (ge_index_file_locked ?E) (ge_unreadable ?E) (gr_git_dir ex_gc_repo) ex_gc_fs"
    by (auto simp: git_op_in_flight_def dir_has_lock_def ex_gc_env_def list_ex_iff)
  have "map_of (reconcile ex_gc_json ex_cache_lib ?E (Some ex_gc_repo) ex_gc_fs) ex_object = None"
    by (rule gc_listing_failure_sweeps_live [OF _ _ lk, where d = "ex_hex (CHR ''b'')" and e = "IoOther ''EMFILE''"])
      (simp_all add: ex_gc_fields ex_gc_live ex_hex ex_hex(3) [symmetric] ex_is_object, simp_all add: ex_gc_env_def default_config_def ex_gc_fs_def
        marker_age_exceeds_def marker_mtime_def reclaim_grace_def DEFAULT_GRACE_SECS_def ex_hex(3) [symmetric] Let_def)
  with live show ?thesis by blast
qed

end
