(* ===== verification/Filter_Process.thy ===== *)
theory Filter_Process
  imports Pktline Gc
begin

text \<open>
  The long-running filter, \<open>git-bale/src/filter_process.rs\<close>, with cache-only reconstruction (\<open>local_reconstruct.rs\<close>). A session
  is a function of the bytes Git sends; its state has the input, the output, the files of the repository and the two slots the
  process fills on first use. \<open>xet-data\<close> (cleaning into a store, downloading from a store or from the server), the chunk cache, the
  authentication and the answers of the operating system are the fields of an environment, one per request.

  An \<open>anyhow\<close> error is the text \<open>{e:#}\<close> prints, with the context of a fault already in it; \<open>fe_debug\<close> is
  \<open>{:?}\<close> of a string. A panic ends the process; a call that never returns has the result \<open>Hang\<close>.
\<close>

section \<open>Environment and state\<close>

definition SMUDGE_PAYLOAD_CAP :: nat where "SMUDGE_PAYLOAD_CAP = POINTER_MAX_BYTES + 4096"
definition CLEAN_PAYLOAD_CAP :: nat where "CLEAN_PAYLOAD_CAP = 128 * 1024 * 1024 * 1024"
definition DRAIN_PAYLOAD_CAP :: nat where "DRAIN_PAYLOAD_CAP = 64 * 1024 * 1024"
definition MAX_INLINE_CLEAN :: nat where "MAX_INLINE_CLEAN = 4 * 1024 * 1024 * 1024"
definition FILTER_VERSION :: string where "FILTER_VERSION = ''version=2''"

datatype filter_error = Fail string | Panic | Hang

record resolved_auth =
  ra_server_url :: string
  ra_token :: string
  ra_token_expiration :: nat

record bale_config =
  bc_server_url :: string
  bc_token :: string
  bc_token_expiration :: nat
  bc_cache_dir :: path
  bc_git_dir :: "path option"

text \<open>A download into a file: its result and the bytes that reached the file, from its start.\<close>

type_synonym download = "(string + unit) \<times> bytes"

text \<open>What the watchdog of the cold path observes: every two seconds the number of bytes written so far, until the download ends.\<close>

datatype cold_event = Finished "string + unit" | Poll nat

record filter_env =
  fe_json :: json_lib
  fe_cache :: cache_lib
  fe_manifests :: manifest_lib
  fe_hx :: "bytes \<Rightarrow> u64"
  fe_io_text :: "io_error \<Rightarrow> string"
  fe_debug :: "string \<Rightarrow> string"
  fe_pointer_text :: "pointer_error \<Rightarrow> string"
  fe_sink :: sink_faults
  fe_now :: nat
  fe_pid :: nat
  fe_max_inline :: "string option"
  fe_spill :: "nat \<Rightarrow> io_error option"
  fe_spill_open :: "io_error option"
  fe_short :: "nat \<Rightarrow> nat"
  fe_seed :: u64
  fe_cache_read :: "io_error option"
  fe_lock :: "string option"
  fe_touch_open :: "io_error option"
  fe_touch_set :: "io_error option"
  fe_runtime :: "string option"
  fe_mkdirs :: "string option"
  fe_translator :: "string option"
  fe_clean :: "path \<Rightarrow> bytes \<Rightarrow> fs \<Rightarrow> (string + xet_file_info) \<times> fs"
  fe_mark_mkdir :: "io_error option"
  fe_mark_create :: "io_error option"
  fe_mark_write :: "(nat \<times> io_error) option"
  fe_save :: save_faults
  fe_chunk_cache :: "string option"
  fe_tmp_new :: "string option"
  fe_manifest_read :: "io_error option"
  fe_tmp_hot :: "string option"
  fe_merkle_err :: "string \<Rightarrow> string option"
  fe_chunk_get :: "string \<Rightarrow> u32 \<Rightarrow> u32 \<Rightarrow> string + bytes option"
  fe_hot_write :: "nat \<Rightarrow> io_error option"
  fe_store_exists :: "path \<Rightarrow> bool"
  fe_tmp_store :: "string option"
  fe_store_download :: "path \<Rightarrow> xet_file_info \<Rightarrow> nat \<Rightarrow> fs \<Rightarrow> download"
  fe_tmp_reset :: "string option"
  fe_tmp_stat_ok :: bool
  fe_resolve :: "string + resolved_auth"
  fe_tmp_cold :: "string option"
  fe_session :: "bale_config \<Rightarrow> string option"
  fe_stall_var :: "string option"
  fe_cold_download :: "bale_config \<Rightarrow> xet_file_info \<Rightarrow> nat \<Rightarrow> cold_event list \<times> bytes"
  fe_fetch_manifest :: "bale_config \<Rightarrow> xet_file_info \<Rightarrow> string + cached_manifest"
  fe_tmp_open :: "io_error option"
  fe_tmp_read :: "(nat \<times> io_error) option"

record filter_state =
  ft_in :: source
  ft_out :: sink
  ft_fs :: fs
  ft_runtime :: bool
  ft_auth :: "bale_config option"

type_synonym 'a fstep = "(filter_state, filter_error, 'a) step"

text \<open>Steps on the parts of the state, and results without an effect.\<close>

definition lift_res :: "string + 'a \<Rightarrow> 'a fstep" where
  "lift_res r = (\<lambda>s. (rmap_err Fail r, s))"

definition pure_res :: "filter_error + 'a \<Rightarrow> 'a fstep" where
  "pure_res r = (\<lambda>s. (r, s))"

definition with_fs :: "(fs \<Rightarrow> 'a fstep) \<Rightarrow> 'a fstep" where
  "with_fs f = (\<lambda>s. f (ft_fs s) s)"

definition fault :: "string option \<Rightarrow> unit fstep" where
  "fault f = lift_res (case f of Some e \<Rightarrow> Inl e | None \<Rightarrow> Inr ())"

definition on_in :: "filter_env \<Rightarrow> (source, io_error, 'a) step \<Rightarrow> 'a fstep" where
  "on_in E m = (\<lambda>s. case m (ft_in s) of (r, i) \<Rightarrow> (rmap_err (\<lambda>e. Fail (fe_io_text E e)) r, s\<lparr>ft_in := i\<rparr>))"

definition on_out :: "filter_env \<Rightarrow> (sink, io_error, 'a) step \<Rightarrow> 'a fstep" where
  "on_out E m = (\<lambda>s. case m (ft_out s) of (r, w) \<Rightarrow> (rmap_err (\<lambda>e. Fail (fe_io_text E e)) r, s\<lparr>ft_out := w\<rparr>))"

definition read_payload :: "filter_env \<Rightarrow> nat \<Rightarrow> bytes fstep" where
  "read_payload E cap = (\<lambda>s.
     case read_binary_to cap [] (ft_in s) of ((r, out), i) \<Rightarrow>
       (case r of Inl e \<Rightarrow> Inl (Fail (fe_io_text E e)) | Inr _ \<Rightarrow> Inr out, s\<lparr>ft_in := i\<rparr>))"

section \<open>Opening a session\<close>

definition debug_list :: "filter_env \<Rightarrow> string list \<Rightarrow> string" where
  "debug_list E xs = ''['' @ join_text '', '' (map (fe_debug E) xs) @ '']''"

definition handshake :: "filter_env \<Rightarrow> unit fstep" where
  "handshake E =
     sbind (on_in E read_text) (\<lambda>welcome.
     if welcome \<noteq> ''git-filter-client'' then sfail (Fail (''invalid filter-process welcome message: '' @ fe_debug E welcome))
     else
       sbind (on_in E read_text_list) (\<lambda>versions.
       if FILTER_VERSION \<notin> set versions then sfail (Fail (''git does not support '' @ FILTER_VERSION @ '' (offered: '' @ debug_list E versions @ '')''))
       else on_out E (write_text_list (fe_sink E) [''git-filter-server'', FILTER_VERSION])))"

definition negotiate_capabilities :: "filter_env \<Rightarrow> unit fstep" where
  "negotiate_capabilities E =
     sbind (on_in E read_text_list) (\<lambda>supported.
     case filter (\<lambda>req. req \<notin> set supported) [''capability=clean'', ''capability=smudge''] of
       req # _ \<Rightarrow> sfail (Fail (''git does not advertise '' @ req @ '' (got: '' @ debug_list E supported @ '')''))
     | [] \<Rightarrow> on_out E (write_text_list (fe_sink E) [''capability=clean'', ''capability=smudge'']))"

definition parse_headers :: "string list \<Rightarrow> (string \<times> string) list" where
  "parse_headers lines = List.map_filter (split_once (CHR ''='')) lines"

definition header_value :: "string \<Rightarrow> string \<Rightarrow> (string \<times> string) list \<Rightarrow> string" where
  "header_value key dflt hs = (case List.find (\<lambda>(k, v). k = key) hs of Some (_, v) \<Rightarrow> v | None \<Rightarrow> dflt)"

definition drain_payload :: "filter_env \<Rightarrow> unit fstep" where
  "drain_payload E = sbind (read_payload E DRAIN_PAYLOAD_CAP) (\<lambda>_. sret ())"

definition report_request_error :: "filter_env \<Rightarrow> string \<Rightarrow> string \<Rightarrow> unit fstep" where
  "report_request_error E op e =
     (let err_line = ''error='' @ op @ '' failed: '' @ e
      in sbind (on_out E (write_text_list (fe_sink E) [''status=error'', err_line])) (\<lambda>_.
         on_out E (flush_packet (fe_sink E))))"

definition ensure_runtime :: "filter_env \<Rightarrow> unit fstep" where
  "ensure_runtime E = (\<lambda>s.
     if ft_runtime s then (Inr (), s)
     else case fe_runtime E of
            Some e \<Rightarrow> (Inl (Fail (''starting xet runtime: '' @ e)), s)
          | None \<Rightarrow> (Inr (), s\<lparr>ft_runtime := True\<rparr>))"

text \<open>The three parts of a successful answer.\<close>

definition respond :: "filter_env \<Rightarrow> bytes \<Rightarrow> unit fstep" where
  "respond E body =
     sbind (on_out E (write_text_list (fe_sink E) [''status=success''])) (\<lambda>_.
     sbind (on_out E (write_all_then_flush (fe_sink E) body)) (\<lambda>_.
       on_out E (write_text_list (fe_sink E) [''status=success''])))"

section \<open>Clean\<close>

datatype clean_payload = InMemory bytes | Spilled bytes

fun payload_bytes :: "clean_payload \<Rightarrow> bytes" where
  "payload_bytes (InMemory bs) = bs"
| "payload_bytes (Spilled bs) = bs"

definition max_inline_clean :: "filter_env \<Rightarrow> nat" where
  "max_inline_clean E =
     (case fe_max_inline E of
        None \<Rightarrow> MAX_INLINE_CLEAN
      | Some v \<Rightarrow> (case parse_u64 v of Some n \<Rightarrow> n | None \<Rightarrow> MAX_INLINE_CLEAN))"

text \<open>The loop holds the buffer, the contents of the temporary file once there is one, and the number of calls made on it.\<close>

function drain_loop ::
  "filter_env \<Rightarrow> nat \<Rightarrow> bytes \<Rightarrow> bytes option \<Rightarrow> nat \<Rightarrow> nat \<Rightarrow> source \<Rightarrow> (filter_error + clean_payload \<times> nat) \<times> source" where
  "drain_loop E max_inline buf spilled tally k r =
     (case read_packet r of
        (Inl e, r') \<Rightarrow> (Inl (Fail (fe_io_text E e)), r')
      | (Inr Flush, r') \<Rightarrow>
          (case spilled of
             None \<Rightarrow> (Inr (InMemory buf, tally), r')
           | Some f \<Rightarrow>
               (case fe_spill E k of
                  Some e \<Rightarrow> (Inl (Fail (fe_io_text E e)), r')
                | None \<Rightarrow> (Inr (Spilled f, tally), r')))
      | (Inr (Data bs), r') \<Rightarrow>
          (if saturating_add tally (length bs) > CLEAN_PAYLOAD_CAP
           then (Inl (Fail (''pkt-line payload exceeded cap of '' @ show_nat CLEAN_PAYLOAD_CAP @ '' bytes'')), r')
           else case spilled of
                  Some f \<Rightarrow>
                    (case fe_spill E k of
                       Some e \<Rightarrow> (Inl (Fail (fe_io_text E e)), r')
                     | None \<Rightarrow> drain_loop E max_inline buf (Some (f @ bs)) (tally + length bs) (k + 1) r')
                | None \<Rightarrow>
                    if saturating_add (length buf) (length bs) > max_inline
                    then (case fe_spill E k of
                            Some e \<Rightarrow> (Inl (Fail (fe_io_text E e)), r')
                          | None \<Rightarrow> drain_loop E max_inline [] (Some (buf @ bs)) (tally + length bs) (k + 1) r')
                    else drain_loop E max_inline (buf @ bs) None (tally + length bs) k r')
      | (Inr other, r') \<Rightarrow>
          (Inl (Fail (''expected pkt-line data or flush in clean payload, got '' @ packet_debug other)), r'))"
  by pat_completeness auto
termination
  by (relation "measure (\<lambda>(E, m, b, sp, c, k, r). length (src_bytes r))") (auto dest!: read_packet_less [OF sym])

declare drain_loop.simps [simp del]

definition drain_clean_payload :: "filter_env \<Rightarrow> (clean_payload \<times> nat) fstep" where
  "drain_clean_payload E = (\<lambda>s.
     case drain_loop E (max_inline_clean E) [] None 0 0 (ft_in s) of (r, i) \<Rightarrow> (r, s\<lparr>ft_in := i\<rparr>))"

text \<open>Whether the cached entry describes the payload; an error of the check counts as a mismatch.\<close>

definition cached_answer :: "filter_env \<Rightarrow> path \<Rightarrow> string \<Rightarrow> clean_payload \<Rightarrow> nat \<Rightarrow> fs \<Rightarrow> filter_error + string option" where
  "cached_answer E git_dir cache_key payload file_size fs =
     (case cache_load (fe_cache E) (fe_cache_read E) git_dir cache_key fs of
        Inr (Some entry) \<Rightarrow>
          if ce_size entry \<noteq> file_size then Inr None
          else
            let verified = (case payload of
                   InMemory buf \<Rightarrow> Inr (verify_chunks_in_memory (fe_hx E) (ce_chunks entry) buf)
                 | Spilled f \<Rightarrow>
                     verify_chunks (fe_hx E) (fe_short E) (fe_seed E) (ce_chunks entry)
                       (case fe_spill_open E of Some e \<Rightarrow> Inl e | None \<Rightarrow> Inr f) file_size)
            in (case verified of
                  Inr (Some True) \<Rightarrow> Inr (Some (ce_pointer entry))
                | Inr (Some False) \<Rightarrow> Inr None
                | Inr None \<Rightarrow> Inl Panic
                | Inl _ \<Rightarrow> Inr None)
      | _ \<Rightarrow> Inr None)"

definition touch_marker :: "filter_env \<Rightarrow> path \<Rightarrow> string \<Rightarrow> unit fstep" where
  "touch_marker E git_dir pointer = (\<lambda>s.
     (Inr (), case parse_pointer (fe_json E) (as_bytes pointer) of
        Inr info \<Rightarrow>
          s\<lparr>ft_fs := snd (touch_marker_if_exists (fe_touch_open E) (fe_touch_set E) (fe_now E) git_dir (xfi_hash info) (ft_fs s))\<rparr>
      | Inl _ \<Rightarrow> s))"

definition save_entry :: "filter_env \<Rightarrow> path \<Rightarrow> string \<Rightarrow> cache_entry \<Rightarrow> unit fstep" where
  "save_entry E git_dir cache_key entry = (\<lambda>s.
     (Inr (), s\<lparr>ft_fs := snd (cache_save (fe_cache E) (fe_save E) (fe_pid E) (fe_now E) git_dir cache_key entry (ft_fs s))\<rparr>))"

definition mark_staged :: "filter_env \<Rightarrow> path \<Rightarrow> string \<Rightarrow> nat \<Rightarrow> unit fstep" where
  "mark_staged E git_dir file_hex file_size = (\<lambda>s.
     (Inr (), s\<lparr>ft_fs := snd (mark_file_staged (fe_mark_mkdir E) (fe_mark_create E) (fe_mark_write E) (fe_now E)
        git_dir file_hex file_size (ft_fs s))\<rparr>))"

text \<open>Cleaning through \<open>xet-data\<close> into the store: the pointer and the file hash.\<close>

definition xet_clean :: "filter_env \<Rightarrow> path \<Rightarrow> bytes \<Rightarrow> (string \<times> string) fstep" where
  "xet_clean E store bs = (\<lambda>s.
     case fe_clean E store bs (ft_fs s) of (r, fs) \<Rightarrow>
       (rmap_err Fail (rbind r (\<lambda>info.
          rbind (rmap_err (fe_pointer_text E) (encode_pointer_string (fe_json E) info)) (\<lambda>p. Inr (p, xfi_hash info)))),
        s\<lparr>ft_fs := fs\<rparr>))"

text \<open>Both variants of \<open>handle_clean\<close>: they differ in where the chunk index of the new entry comes from.\<close>

definition payload_chunks :: "filter_env \<Rightarrow> clean_payload \<Rightarrow> nat \<Rightarrow> io_error + cache_chunk list" where
  "payload_chunks E payload file_size =
     (case payload of
        InMemory bs \<Rightarrow> Inr (compute_chunks_from_slice (fe_hx E) bs)
      | Spilled f \<Rightarrow> compute_chunks (fe_hx E)
          (case fe_spill_open E of Some e \<Rightarrow> Inl e | None \<Rightarrow> Inr \<lparr>src_bytes = f, src_end = None\<rparr>) file_size)"

definition handle_clean :: "filter_env \<Rightarrow> path \<Rightarrow> path \<Rightarrow> clean_payload \<Rightarrow> string \<Rightarrow> nat \<Rightarrow> unit fstep" where
  "handle_clean E git_dir store payload cache_key file_size =
     sbind (fault (fe_mkdirs E)) (\<lambda>_.
     sbind (fault (fe_translator E)) (\<lambda>_.
     sbind (xet_clean E store (payload_bytes payload)) (\<lambda>(pointer, file_hex).
     sbind (mark_staged E git_dir file_hex file_size) (\<lambda>_.
     sbind (respond E (as_bytes pointer)) (\<lambda>_.
       case payload_chunks E payload file_size of
         Inr cs \<Rightarrow> save_entry E git_dir cache_key
           \<lparr>ce_v = CLEAN_CACHE_VERSION, ce_size = file_size, ce_chunks = cs, ce_pointer = pointer\<rparr>
       | Inl _ \<Rightarrow> sret ())))))"

definition do_clean :: "filter_env \<Rightarrow> raw_config \<Rightarrow> string \<Rightarrow> unit fstep" where
  "do_clean E raw pathname =
     sbind (drain_clean_payload E) (\<lambda>(payload, file_size).
     sbind (lift_res (ok_or (''clean: cannot stage upload '' @ [CHR 0xE2, CHR 0x80, CHR 0x94] @ '' no git directory resolved from cwd'')
       (rc_git_dir raw))) (\<lambda>git_dir.
     sbind (lift_res (with_context ''resolving object store root'' (object_store_root raw))) (\<lambda>store.
     let cache_key = cl_path_hex (fe_cache E) pathname in
     sbind (with_fs (\<lambda>fs. pure_res (cached_answer E git_dir cache_key payload file_size fs))) (\<lambda>hit.
     case hit of
       Some pointer \<Rightarrow>
         sbind (fault (fe_lock E)) (\<lambda>_.
         sbind (touch_marker E git_dir pointer) (\<lambda>_.
           respond E (as_bytes pointer)))
     | None \<Rightarrow>
         sbind (ensure_runtime E) (\<lambda>_.
         sbind (fault (fe_lock E)) (\<lambda>_.
           handle_clean E git_dir store payload cache_key file_size))))))"

section \<open>Cache-only reconstruction\<close>

datatype cache_outcome = Wrote nat | Miss

text \<open>The bytes that went out come with the outcome: after a miss they are a useless beginning.\<close>

fun reconstruct_terms :: "filter_env \<Rightarrow> cached_term list \<Rightarrow> nat \<Rightarrow> bytes \<Rightarrow> (filter_error + nat option) \<times> bytes" where
  "reconstruct_terms E [] written out = (Inr (Some written), out)"
| "reconstruct_terms E (t # ts) written out =
     (case fe_merkle_err E (ct_xorb_hash t) of
        Some e \<Rightarrow> (Inl (Fail (''malformed xorb hash '' @ ct_xorb_hash t @ '': '' @ e)), out)
      | None \<Rightarrow>
          (case fe_chunk_get E (ct_xorb_hash t) (ct_chunk_start t) (ct_chunk_end t) of
             Inr (Some data) \<Rightarrow>
               if length data \<noteq> ct_unpacked_length t then (Inr None, out)
               else (case fe_hot_write E written of
                       Some e \<Rightarrow> (Inl (Fail (fe_io_text E e)), out)
                     | None \<Rightarrow> reconstruct_terms E ts (written + length data) (out @ data))
           | _ \<Rightarrow> (Inr None, out)))"

definition try_reconstruct_from_cache ::
  "filter_env \<Rightarrow> cached_manifest \<Rightarrow> nat \<Rightarrow> (filter_error + cache_outcome) \<times> bytes" where
  "try_reconstruct_from_cache E manifest expected_size =
     (case reconstruct_terms E (cm_terms manifest) 0 [] of
        (Inl e, out) \<Rightarrow> (Inl e, out)
      | (Inr None, out) \<Rightarrow> (Inr Miss, out)
      | (Inr (Some written), out) \<Rightarrow> (Inr (if written \<noteq> expected_size then Miss else Wrote written), out))"

section \<open>Smudge\<close>

definition is_safe_file_id :: "string \<Rightarrow> bool" where
  "is_safe_file_id s \<longleftrightarrow>
     length s = 64 \<and>
     list_all (\<lambda>c. (48 \<le> (of_char c :: nat) \<and> (of_char c :: nat) \<le> 57) \<or> (97 \<le> (of_char c :: nat) \<and> (of_char c :: nat) \<le> 102)) s"

text \<open>The watchdog of the cold path. \<open>idle\<close> is in seconds; a limit of 0 turns the watchdog off. \<^const>\<open>None\<close>: the observed
  events do not end the wait.\<close>

definition STALL_POLL :: nat where "STALL_POLL = 2"

fun stall_loop :: "nat \<Rightarrow> string \<Rightarrow> nat \<Rightarrow> nat \<Rightarrow> cold_event list \<Rightarrow> (string + unit) option" where
  "stall_loop stall_secs label last_seen idle [] = None"
| "stall_loop stall_secs label last_seen idle (Finished r # es) = Some r"
| "stall_loop stall_secs label last_seen idle (Poll cur # es) =
     (if cur > last_seen then stall_loop stall_secs label cur 0 es
      else if idle + STALL_POLL \<ge> stall_secs
      then Some (Inl (''download of '' @ [CHR 0x27] @ label @ [CHR 0x27] @ '' stalled: no data received for '' @
             show_nat stall_secs @ ''s. The bale storage server is unreachable or misconfigured '' @ [CHR 0xE2, CHR 0x80, CHR 0x94] @
             '' check your network connection, or contact the repository administrator.''))
      else stall_loop stall_secs label last_seen (idle + STALL_POLL) es)"

fun await_download :: "cold_event list \<Rightarrow> (string + unit) option" where
  "await_download [] = None"
| "await_download (Finished r # es) = Some r"
| "await_download (Poll cur # es) = await_download es"

definition download_cold :: "nat \<Rightarrow> string \<Rightarrow> cold_event list \<Rightarrow> (string + unit) option" where
  "download_cold stall_secs label events =
     (if stall_secs = 0 then await_download events else stall_loop stall_secs label 0 0 events)"

definition DEFAULT_DOWNLOAD_STALL_SECS :: nat where "DEFAULT_DOWNLOAD_STALL_SECS = 30"

definition cold_download_stall_secs :: "string option \<Rightarrow> nat" where
  "cold_download_stall_secs var =
     (case var of None \<Rightarrow> DEFAULT_DOWNLOAD_STALL_SECS
      | Some v \<Rightarrow> (case parse_u64 v of Some n \<Rightarrow> n | None \<Rightarrow> DEFAULT_DOWNLOAD_STALL_SECS))"

text \<open>Writing from the start of the temporary file does not cut it.\<close>

definition overlay :: "bytes \<Rightarrow> bytes \<Rightarrow> bytes" where
  "overlay written old = written @ drop (length written) old"

definition resolve_cached :: "filter_env \<Rightarrow> raw_config \<Rightarrow> bale_config fstep" where
  "resolve_cached E raw = (\<lambda>s.
     case ft_auth s of
       Some c \<Rightarrow> (Inr c, s)
     | None \<Rightarrow>
         (case fe_resolve E of
            Inl e \<Rightarrow> (Inl (Fail e), s)
          | Inr a \<Rightarrow>
              let c = \<lparr>bc_server_url = ra_server_url a, bc_token = ra_token a, bc_token_expiration = ra_token_expiration a,
                       bc_cache_dir = rc_cache_dir raw, bc_git_dir = rc_git_dir raw\<rparr>
              in (Inr c, s\<lparr>ft_auth := Some c\<rparr>)))"

text \<open>\<open>Ok(false)\<close> when the store does not exist; else the result of the download. The contents of the temporary file come along.\<close>

definition try_smudge_from_store ::
  "filter_env \<Rightarrow> path \<Rightarrow> xet_file_info \<Rightarrow> nat \<Rightarrow> fs \<Rightarrow> bytes \<Rightarrow> (string + bool) \<times> bytes" where
  "try_smudge_from_store E store info file_size fs tmp =
     (if \<not> fe_store_exists E store then (Inr False, tmp)
      else case fe_translator E of
             Some e \<Rightarrow> (Inl e, tmp)
           | None \<Rightarrow>
               (case fe_tmp_store E of
                  Some e \<Rightarrow> (Inl e, tmp)
                | None \<Rightarrow>
                    (case fe_store_download E store info file_size fs of
                       (r, written) \<Rightarrow> (rbind r (\<lambda>_. Inr True), overlay written tmp))))"

definition populate_clean_cache_from_smudge :: "filter_env \<Rightarrow> path \<Rightarrow> string \<Rightarrow> bytes \<Rightarrow> bytes \<Rightarrow> nat \<Rightarrow> unit fstep" where
  "populate_clean_cache_from_smudge E git_dir pathname content pointer_bytes file_size =
     (case from_utf8 pointer_bytes of
        None \<Rightarrow> sret ()
      | Some pointer \<Rightarrow>
          (case compute_chunks (fe_hx E)
             (case fe_tmp_open E of Some e \<Rightarrow> Inl e | None \<Rightarrow> Inr \<lparr>src_bytes = content, src_end = None\<rparr>) file_size of
             Inl _ \<Rightarrow> sret ()
           | Inr chunks \<Rightarrow> save_entry E git_dir (cl_path_hex (fe_cache E) pathname)
               \<lparr>ce_v = CLEAN_CACHE_VERSION, ce_size = file_size, ce_chunks = chunks, ce_pointer = pointer\<rparr>))"

text \<open>The content goes out in the blocks the file is read in; \<open>write_binary\<close> frames each, so the packets are those of the whole
  when every read but the last fills the buffer, as reads of a regular file do.\<close>

definition stream_file :: "filter_env \<Rightarrow> bytes \<Rightarrow> unit fstep" where
  "stream_file E content =
     (case fe_tmp_read E of
        None \<Rightarrow> on_out E (write_binary (fe_sink E) content)
      | Some (n, e) \<Rightarrow>
          sbind (on_out E (write_binary (fe_sink E) (take n content))) (\<lambda>_. sfail (Fail (fe_io_text E e))))"

definition finish_smudge :: "filter_env \<Rightarrow> bytes \<Rightarrow> unit fstep" where
  "finish_smudge E content =
     sbind (on_out E (write_text_list (fe_sink E) [''status=success''])) (\<lambda>_.
     sbind (fault (map_option (fe_io_text E) (fe_tmp_open E))) (\<lambda>_.
     sbind (stream_file E content) (\<lambda>_.
     sbind (on_out E (flush_packet (fe_sink E))) (\<lambda>_.
       on_out E (write_text_list (fe_sink E) [''status=success''])))))"

text \<open>The hot path: whether the cache alone gave the content, and the temporary file after it.\<close>

definition smudge_hot :: "filter_env \<Rightarrow> raw_config \<Rightarrow> string \<Rightarrow> nat \<Rightarrow> fs \<Rightarrow> (filter_error + bool) \<times> bytes" where
  "smudge_hot E raw file_id_hex file_size fs =
     (case rc_git_dir raw of
        None \<Rightarrow> (Inr False, [])
      | Some git_dir \<Rightarrow>
          (case manifest_load (fe_manifests E) (fe_manifest_read E) git_dir file_id_hex fs of
             Inr (Some manifest) \<Rightarrow>
               (case fe_tmp_hot E of
                  Some e \<Rightarrow> (Inl (Fail e), [])
                | None \<Rightarrow>
                    (case try_reconstruct_from_cache E manifest file_size of
                       (r, out) \<Rightarrow> (rbind r (\<lambda>outcome. Inr (case outcome of Wrote _ \<Rightarrow> True | Miss \<Rightarrow> False)), out)))
           | _ \<Rightarrow> (Inr False, [])))"

text \<open>The lukewarm path, in server mode only and gated on the marker.\<close>

definition smudge_staged :: "filter_env \<Rightarrow> raw_config \<Rightarrow> bool \<Rightarrow> xet_file_info \<Rightarrow> nat \<Rightarrow> fs \<Rightarrow> bytes \<Rightarrow> bool \<times> bytes" where
  "smudge_staged E raw cache_hit info file_size fs tmp =
     (case rc_git_dir raw of
        Some gd \<Rightarrow>
          if \<not> cache_hit \<and> \<not> rc_local_mode raw \<and> file_is_staged gd (xfi_hash info) fs
          then (case try_smudge_from_store E (staging_root gd) info file_size fs tmp of
                  (r, tmp') \<Rightarrow> (case r of Inr ok \<Rightarrow> ok | Inl _ \<Rightarrow> False, tmp'))
          else (False, tmp)
      | None \<Rightarrow> (False, tmp))"

definition local_store_text :: "path \<Rightarrow> string \<Rightarrow> nat \<Rightarrow> nat \<Rightarrow> string" where
  "local_store_text store file_id_hex written file_size =
     ''local store at '' @ join_text ''/'' store @ '' cannot reconstruct '' @ file_id_hex @ '' ('' @ show_nat written @ '' of '' @
     show_nat file_size @ '' bytes); the object data is missing '' @ [CHR 0xE2, CHR 0x80, CHR 0x94] @
     '' was this repo copied without its store, or the store pruned?''"

definition finish_with_cache :: "filter_env \<Rightarrow> raw_config \<Rightarrow> string \<Rightarrow> bytes \<Rightarrow> bytes \<Rightarrow> nat \<Rightarrow> unit fstep" where
  "finish_with_cache E raw pathname tmp pointer_buf file_size =
     sbind (case rc_git_dir raw of
              Some git_dir \<Rightarrow> populate_clean_cache_from_smudge E git_dir pathname tmp pointer_buf file_size
            | None \<Rightarrow> sret ()) (\<lambda>_.
       finish_smudge E tmp)"

text \<open>Local mode: only the durable store, and a short result is an error.\<close>

definition smudge_local :: "filter_env \<Rightarrow> raw_config \<Rightarrow> string \<Rightarrow> xet_file_info \<Rightarrow> nat \<Rightarrow> bytes \<Rightarrow> unit fstep" where
  "smudge_local E raw pathname info file_size pointer_buf =
     sbind (lift_res (with_context ''resolving object store root'' (object_store_root raw))) (\<lambda>store.
     sbind (fault (fe_tmp_reset E)) (\<lambda>_. with_fs (\<lambda>fs.
       (case try_smudge_from_store E store info file_size fs [] of
          (r, tmp) \<Rightarrow>
            sbind (lift_res (with_context (''reconstructing '' @ xfi_hash info @ '' from local store'') r)) (\<lambda>ok.
            let written = (if fe_tmp_stat_ok E then length tmp else 0)
            in if \<not> ok \<or> written \<noteq> file_size
               then sfail (Fail (local_store_text store (xfi_hash info) written file_size))
               else finish_with_cache E raw pathname tmp pointer_buf file_size)))))"

text \<open>The manifest is fetched and saved after a cold download, best effort; without a valid hash the clean cache stays as it is.\<close>

definition save_manifest :: "filter_env \<Rightarrow> path \<Rightarrow> bale_config \<Rightarrow> xet_file_info \<Rightarrow> unit fstep" where
  "save_manifest E git_dir cfg info = (\<lambda>s.
     (Inr (), case fe_fetch_manifest E cfg info of
        Inr manifest \<Rightarrow> s\<lparr>ft_fs := snd (manifest_save (fe_manifests E) (fe_save E) (fe_pid E) (fe_now E) git_dir (xfi_hash info)
          manifest (ft_fs s))\<rparr>
      | Inl _ \<Rightarrow> s))"

definition cold_result :: "(string + unit) option \<Rightarrow> unit fstep" where
  "cold_result r = (case r of Some q \<Rightarrow> lift_res q | None \<Rightarrow> sfail Hang)"

definition smudge_cold :: "filter_env \<Rightarrow> raw_config \<Rightarrow> string \<Rightarrow> xet_file_info \<Rightarrow> nat \<Rightarrow> bytes \<Rightarrow> unit fstep" where
  "smudge_cold E raw pathname info file_size pointer_buf =
     sbind (fault (fe_tmp_reset E)) (\<lambda>_.
     sbind (resolve_cached E raw) (\<lambda>cfg.
     sbind (fault (fe_translator E)) (\<lambda>_.
     sbind (fault (fe_tmp_cold E)) (\<lambda>_.
     sbind (fault (fe_session E cfg)) (\<lambda>_.
     case fe_cold_download E cfg info file_size of (events, written) \<Rightarrow>
       sbind (cold_result (download_cold (cold_download_stall_secs (fe_stall_var E)) pathname events)) (\<lambda>_.
       case rc_git_dir raw of
         None \<Rightarrow> finish_with_cache E raw pathname written pointer_buf file_size
       | Some git_dir \<Rightarrow>
           if fe_merkle_err E (xfi_hash info) \<noteq> None then finish_smudge E written
           else sbind (save_manifest E git_dir cfg info) (\<lambda>_.
                  finish_with_cache E raw pathname written pointer_buf file_size)))))))"

definition handle_smudge :: "filter_env \<Rightarrow> raw_config \<Rightarrow> string \<Rightarrow> unit fstep" where
  "handle_smudge E raw pathname =
     sbind (read_payload E SMUDGE_PAYLOAD_CAP) (\<lambda>pointer_buf.
     sbind (lift_res (with_context ''smudge: input is not a bale pointer''
        (rmap_err (fe_pointer_text E) (parse_pointer (fe_json E) pointer_buf)))) (\<lambda>info.
     sbind (lift_res (ok_or ''bale pointer missing file_size'' (xfi_file_size info))) (\<lambda>file_size.
     let file_id_hex = xfi_hash info in
     if \<not> is_safe_file_id file_id_hex
     then sfail (Fail (''bale pointer hash is not lowercase hex (got '' @ show_nat (length file_id_hex) @ '' chars)''))
     else
       sbind (fault (fe_chunk_cache E)) (\<lambda>_.
       sbind (fault (fe_tmp_new E)) (\<lambda>_. with_fs (\<lambda>fs.
         (case smudge_hot E raw file_id_hex file_size fs of
            (hot, tmp) \<Rightarrow>
              sbind (pure_res hot) (\<lambda>cache_hit.
              case smudge_staged E raw cache_hit info file_size fs tmp of
                (staging_hit, tmp') \<Rightarrow>
                  if rc_local_mode raw \<and> \<not> cache_hit then smudge_local E raw pathname info file_size pointer_buf
                  else if \<not> cache_hit \<and> \<not> staging_hit then smudge_cold E raw pathname info file_size pointer_buf
                  else finish_with_cache E raw pathname tmp' pointer_buf file_size))))))))"

section \<open>Requests\<close>

definition unknown_command :: "filter_env \<Rightarrow> string \<Rightarrow> unit fstep" where
  "unknown_command E other =
     sbind (drain_payload E) (\<lambda>_.
     sbind (on_out E (write_text_list (fe_sink E)
        [''status=error'', ''error=unknown command '' @ [CHR 0x22] @ other @ [CHR 0x22]])) (\<lambda>_.
       on_out E (flush_packet (fe_sink E))))"

text \<open>A failed request is answered; only a panic or a failing answer ends the session.\<close>

definition or_report :: "filter_env \<Rightarrow> string \<Rightarrow> unit fstep \<Rightarrow> unit fstep" where
  "or_report E op m = (\<lambda>s.
     case m s of
       (Inl (Fail e), s') \<Rightarrow> report_request_error E op e s'
     | r \<Rightarrow> r)"

definition handle_request :: "filter_env \<Rightarrow> raw_config \<Rightarrow> string list \<Rightarrow> unit fstep" where
  "handle_request E raw headers =
     (let hs = parse_headers headers;
          command = header_value ''command'' [] hs;
          pathname = header_value ''pathname'' ''<unknown>'' hs
      in if command = ''clean'' then or_report E ''clean'' (do_clean E raw pathname)
         else if command = ''smudge'' then
           sbind (ensure_runtime E) (\<lambda>_. or_report E ''smudge'' (handle_smudge E raw pathname))
         else unknown_command E command)"

section \<open>Reading never goes back\<close>

definition keeps_in :: "'a fstep \<Rightarrow> bool" where
  "keeps_in m \<longleftrightarrow> (\<forall>s r s'. m s = (r, s') \<longrightarrow> ft_in s' = ft_in s)"

definition shrinks :: "'a fstep \<Rightarrow> bool" where
  "shrinks m \<longleftrightarrow> (\<forall>s r s'. m s = (r, s') \<longrightarrow> length (src_bytes (ft_in s')) \<le> length (src_bytes (ft_in s)))"

named_theorems keeps_intros \<open>steps that leave the input alone\<close>

lemma keeps_inD: "keeps_in m \<Longrightarrow> m s = (r, s') \<Longrightarrow> ft_in s' = ft_in s"
  by (auto simp: keeps_in_def)

lemma keeps_shrinks: "keeps_in m \<Longrightarrow> shrinks m"
  by (auto simp: keeps_in_def shrinks_def)

lemma keeps_sbind [keeps_intros]: "keeps_in m \<Longrightarrow> (\<And>x. keeps_in (f x)) \<Longrightarrow> keeps_in (sbind m f)"
  unfolding keeps_in_def sbind_def by (auto split: prod.splits sum.splits)

lemma shrinks_sbind: "shrinks m \<Longrightarrow> (\<And>x. shrinks (f x)) \<Longrightarrow> shrinks (sbind m f)"
  unfolding shrinks_def sbind_def by (auto split: prod.splits sum.splits) (meson order_trans)

lemma keeps_basic [keeps_intros]:
  "keeps_in (sret x)" "keeps_in (sfail e)" "keeps_in (lift_res r)" "keeps_in (fault f)" "keeps_in (on_out E w)"
  by (auto simp: keeps_in_def lift_res_def fault_def on_out_def split: prod.splits)

lemma keeps_fs [keeps_intros]: "keeps_in (pure_res r)" "(\<And>fs. keeps_in (f fs)) \<Longrightarrow> keeps_in (with_fs f)"
  by (auto simp: keeps_in_def pure_res_def with_fs_def)

lemma keeps_cases [keeps_intros]:
  "keeps_in a \<Longrightarrow> keeps_in b \<Longrightarrow> keeps_in (if c then a else b)"
  "(\<And>x y. keeps_in (f x y)) \<Longrightarrow> keeps_in (case p of (x, y) \<Rightarrow> f x y)"
  "keeps_in a \<Longrightarrow> (\<And>x. keeps_in (g x)) \<Longrightarrow> keeps_in (case opt of None \<Rightarrow> a | Some x \<Rightarrow> g x)"
  "(\<And>e. keeps_in (h e)) \<Longrightarrow> (\<And>x. keeps_in (g' x)) \<Longrightarrow> keeps_in (case res of Inl e \<Rightarrow> h e | Inr x \<Rightarrow> g' x)"
  by (auto split: prod.splits option.splits sum.splits)

lemma keeps_state [keeps_intros]:
  "keeps_in (ensure_runtime E)" "keeps_in (touch_marker E gd p)" "keeps_in (save_entry E gd k en)"
  "keeps_in (mark_staged E gd h n)" "keeps_in (xet_clean E st bs)" "keeps_in (resolve_cached E raw)" "keeps_in (save_manifest E gd cfg info)"
  by (auto simp: keeps_in_def ensure_runtime_def touch_marker_def save_entry_def mark_staged_def xet_clean_def resolve_cached_def Let_def
      save_manifest_def split: option.splits sum.splits prod.splits if_splits)

lemma keeps_respond [keeps_intros]: "keeps_in (respond E b)" "keeps_in (report_request_error E op e)"
  unfolding respond_def report_request_error_def Let_def by (intro keeps_intros)+

lemma keeps_stream [keeps_intros]: "keeps_in (stream_file E c)" "keeps_in (cold_result r)"
  unfolding stream_file_def cold_result_def by (auto split: option.splits intro!: keeps_intros)

lemma keeps_finish [keeps_intros]: "keeps_in (finish_smudge E c)"
  unfolding finish_smudge_def by (intro keeps_intros)

lemma keeps_populate [keeps_intros]: "keeps_in (populate_clean_cache_from_smudge E gd pn c pb n)"
  unfolding populate_clean_cache_from_smudge_def by (intro keeps_intros)

lemma keeps_finish_with_cache [keeps_intros]: "keeps_in (finish_with_cache E raw pn c pb n)"
  unfolding finish_with_cache_def by (intro keeps_intros)

lemma keeps_handle_clean [keeps_intros]: "keeps_in (handle_clean E gd st p k n)"
  unfolding handle_clean_def Let_def by (intro keeps_intros)

lemma keeps_smudge_local [keeps_intros]: "keeps_in (smudge_local E raw pn info n pb)"
  unfolding smudge_local_def Let_def by (intro keeps_intros)

lemma keeps_smudge_cold [keeps_intros]: "keeps_in (smudge_cold E raw pn info n pb)"
  unfolding smudge_cold_def by (intro keeps_intros)

text \<open>The two handlers: after their payload they read no more.\<close>

definition clean_rest :: "filter_env \<Rightarrow> raw_config \<Rightarrow> string \<Rightarrow> clean_payload \<times> nat \<Rightarrow> unit fstep" where
  "clean_rest E raw pathname = (\<lambda>(payload, file_size).
     sbind (lift_res (ok_or (''clean: cannot stage upload '' @ [CHR 0xE2, CHR 0x80, CHR 0x94] @ '' no git directory resolved from cwd'')
       (rc_git_dir raw))) (\<lambda>git_dir.
     sbind (lift_res (with_context ''resolving object store root'' (object_store_root raw))) (\<lambda>store.
     let cache_key = cl_path_hex (fe_cache E) pathname in
     sbind (with_fs (\<lambda>fs. pure_res (cached_answer E git_dir cache_key payload file_size fs))) (\<lambda>hit.
     case hit of
       Some pointer \<Rightarrow>
         sbind (fault (fe_lock E)) (\<lambda>_.
         sbind (touch_marker E git_dir pointer) (\<lambda>_.
           respond E (as_bytes pointer)))
     | None \<Rightarrow>
         sbind (ensure_runtime E) (\<lambda>_.
         sbind (fault (fe_lock E)) (\<lambda>_.
           handle_clean E git_dir store payload cache_key file_size))))))"

lemma do_clean_split: "do_clean E raw pathname = sbind (drain_clean_payload E) (clean_rest E raw pathname)"
  unfolding do_clean_def clean_rest_def ..

lemma keeps_clean_rest [keeps_intros]: "keeps_in (clean_rest E raw pathname p)"
  unfolding clean_rest_def Let_def by (intro keeps_intros)

definition smudge_rest :: "filter_env \<Rightarrow> raw_config \<Rightarrow> string \<Rightarrow> bytes \<Rightarrow> unit fstep" where
  "smudge_rest E raw pathname pointer_buf =
     sbind (lift_res (with_context ''smudge: input is not a bale pointer''
        (rmap_err (fe_pointer_text E) (parse_pointer (fe_json E) pointer_buf)))) (\<lambda>info.
     sbind (lift_res (ok_or ''bale pointer missing file_size'' (xfi_file_size info))) (\<lambda>file_size.
     let file_id_hex = xfi_hash info in
     if \<not> is_safe_file_id file_id_hex
     then sfail (Fail (''bale pointer hash is not lowercase hex (got '' @ show_nat (length file_id_hex) @ '' chars)''))
     else
       sbind (fault (fe_chunk_cache E)) (\<lambda>_.
       sbind (fault (fe_tmp_new E)) (\<lambda>_. with_fs (\<lambda>fs.
         (case smudge_hot E raw file_id_hex file_size fs of
            (hot, tmp) \<Rightarrow>
              sbind (pure_res hot) (\<lambda>cache_hit.
              case smudge_staged E raw cache_hit info file_size fs tmp of
                (staging_hit, tmp') \<Rightarrow>
                  if rc_local_mode raw \<and> \<not> cache_hit then smudge_local E raw pathname info file_size pointer_buf
                  else if \<not> cache_hit \<and> \<not> staging_hit then smudge_cold E raw pathname info file_size pointer_buf
                  else finish_with_cache E raw pathname tmp' pointer_buf file_size)))))))"

lemma handle_smudge_split: "handle_smudge E raw pathname = sbind (read_payload E SMUDGE_PAYLOAD_CAP) (smudge_rest E raw pathname)"
  unfolding handle_smudge_def smudge_rest_def ..

lemma keeps_smudge_rest [keeps_intros]: "keeps_in (smudge_rest E raw pathname b)"
  unfolding smudge_rest_def Let_def by (intro keeps_intros)

lemma shrinks_read_payload: "shrinks (read_payload E cap)"
proof -
  have "length (src_bytes i) \<le> length (src_bytes r)" if "read_binary_loop c n out r = ((res, out'), i)" for c n out res out' i r
    using that
  proof (induction c n out r rule: read_binary_loop.induct)
    case (1 c n out r)
    obtain p r1 where p: "read_packet r = (p, r1)" by (cases "read_packet r")
    have "length (src_bytes r1) \<le> length (src_bytes r)" using read_packet_suffix [OF p] by auto
    with "1.IH" [OF p [symmetric]] "1.prems" [unfolded read_binary_loop.simps [of c n out r] p] show ?case
      by (force split: sum.splits packet.splits if_splits)
  qed
  then show ?thesis by (auto simp: shrinks_def read_payload_def read_binary_to_def split: prod.splits)
qed

lemma shrinks_drain: "shrinks (drain_clean_payload E)"
proof -
  have "length (src_bytes i) \<le> length (src_bytes r)" if "drain_loop E m b sp c k r = (res, i)" for m b sp c k res i r
    using that
  proof (induction E m b sp c k r rule: drain_loop.induct)
    case (1 E m b sp c k r)
    obtain p r1 where p: "read_packet r = (p, r1)" by (cases "read_packet r")
    have "length (src_bytes r1) \<le> length (src_bytes r)" using read_packet_suffix [OF p] by auto
    with 1 p show ?case
      by (subst (asm) (4) drain_loop.simps) (force split: sum.splits packet.splits if_splits option.splits)
  qed
  then show ?thesis by (auto simp: shrinks_def drain_clean_payload_def split: prod.splits)
qed

lemma shrinks_or_report: "shrinks m \<Longrightarrow> shrinks (or_report E op m)"
  unfolding shrinks_def or_report_def
  by (auto split: prod.splits sum.splits filter_error.splits dest!: keeps_inD [OF keeps_respond(2)])

lemma shrinks_handle_request: "shrinks (handle_request E raw headers)"
proof -
  have "shrinks (do_clean E raw pn)" for pn
    unfolding do_clean_split by (intro shrinks_sbind shrinks_drain keeps_shrinks keeps_intros)
  moreover have "shrinks (handle_smudge E raw pn)" for pn
    unfolding handle_smudge_split by (intro shrinks_sbind shrinks_read_payload keeps_shrinks keeps_intros)
  moreover have "shrinks (unknown_command E c)" for c
    unfolding unknown_command_def drain_payload_def
    by (intro shrinks_sbind shrinks_read_payload) (intro keeps_shrinks keeps_intros)+
  moreover have "shrinks (ensure_runtime E)" by (intro keeps_shrinks keeps_intros)
  ultimately show ?thesis
    unfolding handle_request_def Let_def by (auto intro!: shrinks_or_report shrinks_sbind)
qed

section \<open>The session\<close>

lemma read_text_list_less:
  "read_text_list r = (Inr ls, r') \<Longrightarrow> length (src_bytes r') < length (src_bytes r)"
proof -
  have "length (src_bytes r') < length (src_bytes r)" if "read_text_list_loop out r = (Inr ls, r')" for out
    using that
  proof (induction out r rule: read_text_list_loop.induct)
    case (1 out r)
    then show ?case
      by (subst (asm) (2) read_text_list_loop.simps)
        (force split: prod.splits sum.splits packet.splits dest: read_packet_less)
  qed
  then show "read_text_list r = (Inr ls, r') \<Longrightarrow> length (src_bytes r') < length (src_bytes r)"
    by (simp add: read_text_list_def)
qed

lemma request_consumes:
  assumes "read_text_list (ft_in s) = (Inr headers, i)" and "handle_request E raw headers (s\<lparr>ft_in := i\<rparr>) = (r, s')"
  shows "length (src_bytes (ft_in s')) < length (src_bytes (ft_in s))"
  using read_text_list_less [OF assms(1)] shrinks_handle_request [unfolded shrinks_def, rule_format, OF assms(2)] by simp

function serve :: "(nat \<Rightarrow> filter_env) \<Rightarrow> raw_config \<Rightarrow> nat \<Rightarrow> unit fstep" where
  "serve Es raw n s =
     (case read_text_list (ft_in s) of
        (Inl e, i) \<Rightarrow> (if e = UnexpectedEof then Inr () else Inl (Fail (fe_io_text (Es n) e)), s\<lparr>ft_in := i\<rparr>)
      | (Inr headers, i) \<Rightarrow>
          if headers = [] then (Inr (), s\<lparr>ft_in := i\<rparr>)
          else (case handle_request (Es n) raw headers (s\<lparr>ft_in := i\<rparr>) of
                  (Inl e, s') \<Rightarrow> (Inl e, s')
                | (Inr _, s') \<Rightarrow> serve Es raw (n + 1) s'))"
  by pat_completeness auto
termination
  by (relation "measure (\<lambda>(Es, raw, n, s). length (src_bytes (ft_in s)))") (auto dest!: request_consumes [OF sym sym])

declare serve.simps [simp del]

definition run :: "(nat \<Rightarrow> filter_env) \<Rightarrow> raw_config \<Rightarrow> unit fstep" where
  "run Es raw =
     sbind (handshake (Es 0)) (\<lambda>_.
     sbind (negotiate_capabilities (Es 0)) (\<lambda>_.
       serve Es raw 1))"

end
