(* ===== verification/Filter_Session.thy ===== *)
theory Filter_Session
  imports Filter_Process
begin

text \<open>
  What a filter session promises Git: it stays in step with the requests, and what was cleaned is what smudge gives back; and the
  two places where it does not keep that promise.
\<close>

section \<open>Payloads\<close>

lemma read_payload_frames:
  assumes "ft_in s = \<lparr>src_bytes = payload_frames data @ flush_frame @ rest, src_end = e\<rparr>" and "length data \<le> cap" and "cap \<le> u64_max"
  shows "read_payload E cap s = (Inr data, s\<lparr>ft_in := \<lparr>src_bytes = rest, src_end = e\<rparr>\<rparr>)"
  using read_binary_frames [of 0 data cap "[]" rest e] assms by (simp add: read_payload_def read_binary_to_def)

lemma drain_frames:
  assumes "\<And>k. fe_spill E k = None" and "tally + length data \<le> CLEAN_PAYLOAD_CAP"
  shows "\<exists>P. drain_loop E m buf sp tally k \<lparr>src_bytes = payload_frames data @ flush_frame @ rest, src_end = e\<rparr> =
      (Inr (P, tally + length data), \<lparr>src_bytes = rest, src_end = e\<rparr>) \<and>
    payload_bytes P = (case sp of None \<Rightarrow> buf | Some f \<Rightarrow> f) @ data"
  using assms(2)
proof (induction data arbitrary: buf sp tally k rule: payload_frames.induct)
  case (1 data)
  show ?case
  proof (cases "data = []")
    case True
    then show ?thesis
      using assms(1) by (subst drain_loop.simps) (auto simp: payload_frames.simps read_packet_flush split: option.splits)
  next
    case False
    let ?hd = "take MAX_PKT_PAYLOAD data" and ?tl = "drop MAX_PKT_PAYLOAD data"
    let ?src = "\<lparr>src_bytes = payload_frames ?tl @ flush_frame @ rest, src_end = e\<rparr>"
    have sum: "length ?hd + length ?tl = length data" by (metis append_take_drop_id length_append)
    have pkt: "read_packet \<lparr>src_bytes = payload_frames data @ flush_frame @ rest, src_end = e\<rparr> = (Inr (Data ?hd), ?src)"
      using False by (subst payload_frames.simps) (simp add: read_packet_frame)
    have small: "\<not> CLEAN_PAYLOAD_CAP < saturating_add tally (length ?hd)"
      using "1.prems" sum by (simp add: saturating_add_def)
    have IH: "\<exists>P. drain_loop E m b' sp' (tally + length ?hd) k' ?src =
        (Inr (P, tally + length ?hd + length ?tl), \<lparr>src_bytes = rest, src_end = e\<rparr>) \<and>
        payload_bytes P = (case sp' of None \<Rightarrow> b' | Some f \<Rightarrow> f) @ ?tl" for b' sp' k'
      using "1.prems" sum by (intro "1.IH" [OF False]) simp
    obtain b' sp' k' where step: "drain_loop E m buf sp tally k \<lparr>src_bytes = payload_frames data @ flush_frame @ rest, src_end = e\<rparr> =
        drain_loop E m b' sp' (tally + length ?hd) k' ?src"
      and cont: "(case sp' of None \<Rightarrow> b' | Some f \<Rightarrow> f) = (case sp of None \<Rightarrow> buf | Some f \<Rightarrow> f) @ ?hd"
    proof (cases sp)
      case None
      show ?thesis
      proof (cases "saturating_add (length buf) (length ?hd) > m")
        case True
        with None small pkt assms(1) show ?thesis
          by (intro that [of "[]" "Some (buf @ ?hd)" "k + 1"]) (subst drain_loop.simps, simp_all)
      next
        case False
        with None small pkt assms(1) show ?thesis
          by (intro that [of "buf @ ?hd" None k]) (subst drain_loop.simps, simp_all)
      qed
    next
      case (Some f)
      with small pkt assms(1) show ?thesis
        by (intro that [of buf "Some (f @ ?hd)" "k + 1"]) (subst drain_loop.simps, simp_all)
    qed
    from IH [of b' sp' k'] step cont sum show ?thesis by (simp add: add.assoc)
  qed
qed

lemma drain_clean_frames:
  assumes "ft_in s = \<lparr>src_bytes = payload_frames data @ flush_frame @ rest, src_end = e\<rparr>" and "\<And>k. fe_spill E k = None"
    and "length data \<le> CLEAN_PAYLOAD_CAP"
  shows "\<exists>P. drain_clean_payload E s = (Inr (P, length data), s\<lparr>ft_in := \<lparr>src_bytes = rest, src_end = e\<rparr>\<rparr>) \<and> payload_bytes P = data"
  using drain_frames [of E 0 data "max_inline_clean E" "[]" None 0 rest e] assms by (auto simp: drain_clean_payload_def)

section \<open>Staying in step\<close>

definition request_command :: "string list \<Rightarrow> string" where
  "request_command headers = header_value ''command'' [] (parse_headers headers)"

definition payload_cap :: "string list \<Rightarrow> nat" where
  "payload_cap headers =
     (if request_command headers = ''clean'' then CLEAN_PAYLOAD_CAP
      else if request_command headers = ''smudge'' then SMUDGE_PAYLOAD_CAP else DRAIN_PAYLOAD_CAP)"

lemma caps_u64: "CLEAN_PAYLOAD_CAP < u64_max" "SMUDGE_PAYLOAD_CAP < u64_max" "DRAIN_PAYLOAD_CAP < u64_max"
  by (simp_all add: CLEAN_PAYLOAD_CAP_def SMUDGE_PAYLOAD_CAP_def DRAIN_PAYLOAD_CAP_def POINTER_MAX_BYTES_def u64_max_def)

lemma or_report_in:
  assumes "or_report E op m s = (r, s')" and "\<And>q s1. m s = (q, s1) \<Longrightarrow> ft_in s1 = i"
  shows "ft_in s' = i"
  using assms by (auto simp: or_report_def split: prod.splits sum.splits filter_error.splits dest!: keeps_inD [OF keeps_respond(2)])

lemma sbind_in:
  assumes "sbind m f s = (r, s')" and "m s = (Inr x, s1)" and "keeps_in (f x)"
  shows "ft_in s' = ft_in s1"
  using assms keeps_inD by (fastforce simp: sbind_def)

text \<open>One request of each kind.\<close>

lemma clean_consumes:
  assumes "ft_in s = \<lparr>src_bytes = payload_frames data @ flush_frame @ rest, src_end = e\<rparr>"
    and "length data \<le> CLEAN_PAYLOAD_CAP" and "\<And>k. fe_spill E k = None"
    and "or_report E op (do_clean E raw pn) s = (r, s')"
  shows "ft_in s' = \<lparr>src_bytes = rest, src_end = e\<rparr>"
proof (rule or_report_in [OF assms(4)])
  obtain P where P: "drain_clean_payload E s = (Inr (P, length data), s\<lparr>ft_in := \<lparr>src_bytes = rest, src_end = e\<rparr>\<rparr>)"
    using drain_clean_frames [OF assms(1,3,2)] by blast
  fix q s1
  assume "do_clean E raw pn s = (q, s1)"
  from sbind_in [where f = "clean_rest E raw pn", OF this [unfolded do_clean_split] P keeps_clean_rest]
  show "ft_in s1 = \<lparr>src_bytes = rest, src_end = e\<rparr>" by simp
qed

lemma smudge_consumes:
  assumes "ft_in s = \<lparr>src_bytes = payload_frames data @ flush_frame @ rest, src_end = e\<rparr>"
    and "length data \<le> SMUDGE_PAYLOAD_CAP" and "or_report E op (handle_smudge E raw pn) s = (r, s')"
  shows "ft_in s' = \<lparr>src_bytes = rest, src_end = e\<rparr>"
proof (rule or_report_in [OF assms(3)])
  have P: "read_payload E SMUDGE_PAYLOAD_CAP s = (Inr data, s\<lparr>ft_in := \<lparr>src_bytes = rest, src_end = e\<rparr>\<rparr>)"
    using read_payload_frames [OF assms(1,2)] caps_u64 by simp
  fix q s1
  assume "handle_smudge E raw pn s = (q, s1)"
  from sbind_in [where f = "smudge_rest E raw pn", OF this [unfolded handle_smudge_split] P keeps_smudge_rest]
  show "ft_in s1 = \<lparr>src_bytes = rest, src_end = e\<rparr>" by simp
qed

lemma unknown_consumes:
  assumes "ft_in s = \<lparr>src_bytes = payload_frames data @ flush_frame @ rest, src_end = e\<rparr>"
    and "length data \<le> DRAIN_PAYLOAD_CAP" and "unknown_command E other s = (r, s')"
  shows "ft_in s' = \<lparr>src_bytes = rest, src_end = e\<rparr>"
proof -
  have "read_payload E DRAIN_PAYLOAD_CAP s = (Inr data, s\<lparr>ft_in := \<lparr>src_bytes = rest, src_end = e\<rparr>\<rparr>)"
    using read_payload_frames [OF assms(1,2)] caps_u64 by simp
  then have d: "drain_payload E s = (Inr (), s\<lparr>ft_in := \<lparr>src_bytes = rest, src_end = e\<rparr>\<rparr>)"
    by (simp add: drain_payload_def)
  from assms(3) have "ft_in s' = ft_in (s\<lparr>ft_in := \<lparr>src_bytes = rest, src_end = e\<rparr>\<rparr>)"
    unfolding unknown_command_def by (rule sbind_in [where m = "drain_payload E", OF _ d]) (intro keeps_intros)
  then show ?thesis by simp
qed

lemma smudge_request:
  assumes "request_command headers = ''smudge''" and "handle_request E raw headers s = (Inr (), s')"
  obtains s1 where "ft_in s1 = ft_in s"
    "or_report E ''smudge'' (handle_smudge E raw (header_value ''pathname'' ''<unknown>'' (parse_headers headers))) s1 = (Inr (), s')"
proof -
  obtain s1 where s1: "ensure_runtime E s = (Inr (), s1)"
    "or_report E ''smudge'' (handle_smudge E raw (header_value ''pathname'' ''<unknown>'' (parse_headers headers))) s1 = (Inr (), s')"
    using assms by (auto simp: handle_request_def request_command_def Let_def elim!: sbind_InrE)
  from that [OF keeps_inD [OF keeps_state(1) s1(1)] s1(2)] show thesis .
qed

text \<open>C19: the filter stays in step with Git. A request whose payload is within the cap of its command, and for which spilling to disk
  does not fail, is consumed exactly, whether it succeeds or is answered with an error: the session goes on at the next request.\<close>

theorem request_consumed_exactly:
  assumes "ft_in s = \<lparr>src_bytes = payload_frames data @ flush_frame @ rest, src_end = e\<rparr>"
    and "length data \<le> payload_cap headers" and "\<And>k. fe_spill E k = None"
    and "handle_request E raw headers s = (Inr (), s')"
  shows "ft_in s' = \<lparr>src_bytes = rest, src_end = e\<rparr>"
proof (cases "request_command headers = ''smudge''")
  case True
  from True assms(4) obtain s1 where "ft_in s1 = ft_in s"
    "or_report E ''smudge'' (handle_smudge E raw (header_value ''pathname'' ''<unknown>'' (parse_headers headers))) s1 = (Inr (), s')"
    by (rule smudge_request)
  with smudge_consumes [of s1 data rest e] assms(1,2) True show ?thesis by (simp add: payload_cap_def)
next
  case False
  show ?thesis
  proof (cases "request_command headers = ''clean''")
    case True
    with assms(4) have "or_report E ''clean'' (do_clean E raw (header_value ''pathname'' ''<unknown>'' (parse_headers headers))) s = (Inr (), s')"
      by (simp add: handle_request_def request_command_def Let_def)
    with clean_consumes [OF assms(1) _ assms(3)] assms(2) True show ?thesis by (simp add: payload_cap_def)
  next
    case other: False
    with assms(4) False have "unknown_command E (request_command headers) s = (Inr (), s')"
      by (simp add: handle_request_def request_command_def Let_def)
    with unknown_consumes [OF assms(1)] assms(2) False other show ?thesis by (simp add: payload_cap_def)
  qed
qed

section \<open>Oversized payloads\<close>

text \<open>The handler gives up on a payload whose first packet is over the cap, and leaves the rest of it unread.\<close>

lemma oversized_smudge_leaves_rest:
  assumes "ft_in s = \<lparr>src_bytes = payload_frames data @ flush_frame @ rest, src_end = e\<rparr>" and "length data > MAX_PKT_PAYLOAD"
    and "request_command headers = ''smudge''" and "handle_request E raw headers s = (Inr (), s')"
  shows "ft_in s' = \<lparr>src_bytes = payload_frames (drop MAX_PKT_PAYLOAD data) @ flush_frame @ rest, src_end = e\<rparr>"
proof -
  let ?hd = "take MAX_PKT_PAYLOAD data"
  let ?left = "\<lparr>src_bytes = payload_frames (drop MAX_PKT_PAYLOAD data) @ flush_frame @ rest, src_end = e\<rparr>"
  let ?pn = "header_value ''pathname'' ''<unknown>'' (parse_headers headers)"
  obtain s1 where s1: "ft_in s1 = ft_in s" "or_report E ''smudge'' (handle_smudge E raw ?pn) s1 = (Inr (), s')"
    using assms(3,4) by (rule smudge_request)
  have ne: "data \<noteq> []" "length ?hd = MAX_PKT_PAYLOAD" using assms(2) by auto
  have "read_packet (ft_in s1) = (Inr (Data ?hd), ?left)"
    unfolding s1(1) assms(1) using ne(1) by (subst payload_frames.simps) (simp add: read_packet_frame)
  moreover have "SMUDGE_PAYLOAD_CAP < saturating_add 0 (length ?hd)"
    by (simp only: ne(2)) (simp add: saturating_add_def SMUDGE_PAYLOAD_CAP_def POINTER_MAX_BYTES_def MAX_PKT_PAYLOAD_def u64_max_def)
  ultimately obtain t where "handle_smudge E raw ?pn s1 = (Inl (Fail t), s1\<lparr>ft_in := ?left\<rparr>)"
    by (simp add: handle_smudge_split sbind_def read_payload_def read_binary_to_def read_binary_loop.simps)
  then show ?thesis by (intro or_report_in [OF s1(2)]) auto
qed

lemma binary_is_no_header:
  assumes "data \<noteq> []" and "\<not> utf8_valid (chomp (take MAX_PKT_PAYLOAD data))"
  shows "\<exists>i. read_text_list \<lparr>src_bytes = payload_frames data @ flush_frame @ rest, src_end = e\<rparr> =
    (Inl (InvalidUtf8 (chomp (take MAX_PKT_PAYLOAD data))), i)"
proof -
  have "read_packet \<lparr>src_bytes = payload_frames data @ flush_frame @ rest, src_end = e\<rparr> = (Inr (Data (take MAX_PKT_PAYLOAD data)),
      \<lparr>src_bytes = payload_frames (drop MAX_PKT_PAYLOAD data) @ flush_frame @ rest, src_end = e\<rparr>)"
    using assms(1) by (subst payload_frames.simps) (simp add: read_packet_frame)
  then show ?thesis
    using assms(2) by (simp add: read_text_list_def read_text_list_loop.simps [of "[]"] text_of_def from_utf8_def)
qed

text \<open>A file over the cap that was never turned into a pointer ends the session. When Git asks to smudge content of more than one
  packet whose second packet is not text, the handler stops reading after the first packet, and what is left of the content is taken
  for the next request: the session fails instead of answering this one request with an error.\<close>

lemma oversized_smudge_ends_session:
  assumes "ft_in s = \<lparr>src_bytes = concat (map line_frame headers) @ flush_frame @ payload_frames data @ flush_frame @ rest, src_end = e\<rparr>"
    and "\<And>l. l \<in> set headers \<Longrightarrow> utf8_valid (as_bytes l) \<and> length l + 1 \<le> MAX_PKT_PAYLOAD"
    and "request_command headers = ''smudge''" and "length data > MAX_PKT_PAYLOAD"
    and "\<not> utf8_valid (chomp (take MAX_PKT_PAYLOAD (drop MAX_PKT_PAYLOAD data)))"
  shows "\<exists>err s'. serve Es raw n s = (Inl err, s')"
proof -
  let ?s = "s\<lparr>ft_in := \<lparr>src_bytes = payload_frames data @ flush_frame @ rest, src_end = e\<rparr>\<rparr>"
  have hs: "headers \<noteq> []"
    using assms(3) by (auto simp: request_command_def parse_headers_def header_value_def map_filter_simps)
  have rd: "read_text_list (ft_in s) = (Inr headers, \<lparr>src_bytes = payload_frames data @ flush_frame @ rest, src_end = e\<rparr>)"
    using read_text_list_frames [of headers "[]"] assms(1,2) by (simp add: read_text_list_def)
  obtain r s' where req: "handle_request (Es n) raw headers ?s = (r, s')" by fastforce
  show ?thesis
  proof (cases r)
    case (Inr u)
    then have "ft_in s' = \<lparr>src_bytes = payload_frames (drop MAX_PKT_PAYLOAD data) @ flush_frame @ rest, src_end = e\<rparr>"
      using oversized_smudge_leaves_rest [of ?s data rest e headers "Es n" raw s'] req assms(3,4) by simp
    moreover have "drop MAX_PKT_PAYLOAD data \<noteq> []" using assms(4) by simp
    ultimately have "\<exists>err s''. serve Es raw (n + 1) s' = (Inl err, s'')"
      using binary_is_no_header [OF _ assms(5), of rest e] by (subst serve.simps) auto
    with Inr req rd hs show ?thesis by (subst serve.simps) simp
  qed (use req rd hs in \<open>subst serve.simps, simp\<close>)
qed

section \<open>The watchdog\<close>

text \<open>The events the watchdog may still see before it has to answer, when \<open>k\<close> idle polls make up the limit: one run of idle polls for
  each byte that can still arrive, and what is left of the current run.\<close>

definition stall_budget :: "nat \<Rightarrow> nat \<Rightarrow> nat \<Rightarrow> nat \<Rightarrow> nat" where
  "stall_budget k bound last_seen idle = (bound - last_seen) * k + (k - idle div 2)"

lemma stall_budget_progress:
  assumes "last_seen < cur" and "cur \<le> bound" and "idle div 2 < k"
  shows "stall_budget k bound cur 0 < stall_budget k bound last_seen idle"
proof -
  have "Suc (bound - cur) * k \<le> (bound - last_seen) * k" using assms(1,2) by (intro mult_le_mono1) simp
  then show ?thesis using assms(3) by (simp add: stall_budget_def)
qed

lemma stall_budget_idle: "idle div 2 < k \<Longrightarrow> stall_budget k bound last_seen (idle + 2) < stall_budget k bound last_seen idle"
  by (simp add: stall_budget_def)

lemma stall_loop_answers:
  assumes "even idle" and "idle < stall_secs" and "\<And>cur. Poll cur \<in> set events \<Longrightarrow> cur \<le> bound"
    and "stall_budget ((stall_secs + 1) div 2) bound last_seen idle \<le> length events"
  shows "stall_loop stall_secs label last_seen idle events \<noteq> None"
  using assms
proof (induction stall_secs label last_seen idle events rule: stall_loop.induct)
  case (1 stall_secs label last_seen idle)
  then show ?case by (auto simp: stall_budget_def)
next
  case (3 stall_secs label last_seen idle cur es)
  let ?k = "(stall_secs + 1) div 2"
  have k: "idle div 2 < ?k" using "3.prems"(1,2) by presburger
  show ?case
  proof (cases "cur > last_seen")
    case True
    have "cur \<le> bound" using "3.prems"(3) by simp
    with stall_budget_progress [OF True this k] 3 True show ?thesis by simp
  next
    case False
    show ?thesis
    proof (cases "idle + STALL_POLL \<ge> stall_secs")
      case True
      with False show ?thesis by simp
    next
      case more: False
      have "stall_loop stall_secs label last_seen (idle + STALL_POLL) es \<noteq> None"
        using "3.prems" stall_budget_idle [OF k, of bound last_seen] more
        by (intro "3.IH"(2) [OF False more]) (simp_all add: STALL_POLL_def)
      with False more show ?thesis by simp
    qed
  qed
qed simp

definition polled :: "cold_event list \<Rightarrow> nat list" where
  "polled events = List.map_filter (\<lambda>e. case e of Poll n \<Rightarrow> Some n | Finished _ \<Rightarrow> None) events"

lemma progressing_download_not_aborted:
  assumes "sorted_wrt (<) (last_seen # polled events)"
  shows "stall_loop stall_secs label last_seen idle events = await_download events"
  using assms unfolding polled_def
  by (induction stall_secs label last_seen idle events rule: stall_loop.induct) (auto simp: map_filter_simps)



section \<open>Answers\<close>

definition success_answer :: "bytes \<Rightarrow> bytes" where
  "success_answer body =
     (line_frame ''status=success'' @ flush_frame) @ (payload_frames body @ flush_frame) @ line_frame ''status=success'' @ flush_frame"

lemma on_out_sends:
  assumes "on_out E w s = (Inr (), s')" and "sends w bs"
  shows "snk_data (ft_out s') = snk_data (ft_out s) @ bs \<and> ft_fs s' = ft_fs s"
  using assms(1) sends_Inr [OF assms(2)] by (auto simp: on_out_def rmap_err_eq_Inr split: prod.splits)

lemma sends_status: "sends (write_text_list fl [''status=success'']) (line_frame ''status=success'' @ flush_frame)"
  using sends_write_text_list [of "[''status=success'']" fl] by (simp add: MAX_PKT_PAYLOAD_def)

lemma respond_sends:
  assumes "respond E body s = (Inr (), s')"
  shows "snk_data (ft_out s') = snk_data (ft_out s) @ success_answer body \<and> ft_fs s' = ft_fs s"
  using assms unfolding respond_def
  by (auto elim!: sbind_InrE simp: success_answer_def simp del: write_text_list.simps dest!: on_out_sends [OF _ sends_status] on_out_sends [OF _ sends_write_all_then_flush])

lemma fault_Inr: "fault f s = (Inr u, s') \<longleftrightarrow> f = None \<and> s' = s"
  by (auto simp: fault_def lift_res_def split: option.splits)

lemma finish_smudge_sends:
  assumes "finish_smudge E body s = (Inr (), s')"
  shows "snk_data (ft_out s') = snk_data (ft_out s) @ success_answer body \<and> ft_fs s' = ft_fs s"
  using assms unfolding finish_smudge_def stream_file_def
  by (auto elim!: sbind_InrE split: option.splits simp: success_answer_def fault_Inr simp del: write_text_list.simps
      dest!: on_out_sends [OF _ sends_status] on_out_sends [OF _ sends_write_binary] on_out_sends [OF _ sends_flush_packet])

lemma populate_out: "populate_clean_cache_from_smudge E gd pn c pb n s = (r, s') \<Longrightarrow> r = Inr () \<and> ft_out s' = ft_out s"
  by (auto simp: populate_clean_cache_from_smudge_def save_entry_def split: option.splits sum.splits)

lemma finish_with_cache_sends:
  assumes "finish_with_cache E raw pn body pb n s = (Inr (), s')"
  shows "snk_data (ft_out s') = snk_data (ft_out s) @ success_answer body"
proof -
  from assms [unfolded finish_with_cache_def] obtain u s1 where
    "(case rc_git_dir raw of None \<Rightarrow> sret () | Some gd \<Rightarrow> populate_clean_cache_from_smudge E gd pn body pb n) s = (Inr u, s1)"
    and fin: "finish_smudge E body s1 = (Inr (), s')" by (rule sbind_InrE)
  then have "ft_out s1 = ft_out s" by (cases "rc_git_dir raw") (simp_all add: populate_out [THEN conjunct2])
  with finish_smudge_sends [OF fin] show ?thesis by simp
qed

section \<open>Left-over bytes\<close>

lemma smudge_rest_hot:
  assumes "parse_pointer (fe_json E) pb = Inr info" and "xfi_file_size info = Some n" and "is_safe_file_id (xfi_hash info)"
    and "fe_chunk_cache E = None" and "fe_tmp_new E = None"
    and "smudge_hot E raw (xfi_hash info) n (ft_fs s) = (Inr hit, tmp)"
    and "smudge_staged E raw hit info n (ft_fs s) tmp = (staged, tmp')"
  shows "smudge_rest E raw pn pb s =
    (if rc_local_mode raw \<and> \<not> hit then smudge_local E raw pn info n pb
     else if \<not> hit \<and> \<not> staged then smudge_cold E raw pn info n pb
     else finish_with_cache E raw pn tmp' pb n) s"
  using assms by (simp add: smudge_rest_def sbind_def lift_res_def with_context_def fault_def with_fs_def pure_res_def Let_def)

text \<open>A smudge from the staging area can append old bytes. If the cached manifest of a staged file yields more bytes than the pointer
  declares, the attempt counts as a miss, but the temporary file is not cut before the staged content is written over its beginning:
  Git receives the content followed by the rest of the failed attempt.\<close>

lemma staged_smudge_appends_stale_bytes:
  assumes "parse_pointer (fe_json E) pb = Inr info" and "xfi_file_size info = Some (length data)" and "is_safe_file_id (xfi_hash info)"
    and "fe_chunk_cache E = None" and "fe_tmp_new E = None" and "fe_tmp_hot E = None" and "fe_translator E = None" and "fe_tmp_store E = None"
    and "\<not> rc_local_mode raw" and "rc_git_dir raw = Some gd" and "file_is_staged gd (xfi_hash info) (ft_fs s)"
    and "manifest_load (fe_manifests E) (fe_manifest_read E) gd (xfi_hash info) (ft_fs s) = Inr (Some manifest)"
    and "try_reconstruct_from_cache E manifest (length data) = (Inr Miss, stale)"
    and "fe_store_exists E (staging_root gd)"
    and "fe_store_download E (staging_root gd) info (length data) (ft_fs s) = (Inr (), data)"
    and "smudge_rest E raw pn pb s = (Inr (), s')"
  shows "snk_data (ft_out s') = snk_data (ft_out s) @ success_answer (data @ drop (length data) stale)"
proof -
  have hot: "smudge_hot E raw (xfi_hash info) (length data) (ft_fs s) = (Inr False, stale)"
    using assms(6,10,12,13) by (simp add: smudge_hot_def)
  have "smudge_staged E raw False info (length data) (ft_fs s) stale = (True, data @ drop (length data) stale)"
    using assms(7-11,14,15) by (simp add: smudge_staged_def try_smudge_from_store_def overlay_def)
  from smudge_rest_hot [OF assms(1-5) hot this, of pn] assms(9,16)
  have "finish_with_cache E raw pn (data @ drop (length data) stale) pb (length data) s = (Inr (), s')" by simp
  then show ?thesis by (rule finish_with_cache_sends)
qed

section \<open>What was cleaned is smudged back\<close>

definition succeeds :: "('s, 'e, unit) step \<Rightarrow> bool" where
  "succeeds m \<longleftrightarrow> (\<forall>s. \<exists>s'. m s = (Inr (), s'))"

lemma succeeds_sbind: "succeeds m \<Longrightarrow> succeeds (f ()) \<Longrightarrow> succeeds (sbind m f)"
  unfolding succeeds_def by (metis sbind_Inr)

lemma succeeds_calm:
  "succeeds (write_all (\<lambda>_. None) bs)" "succeeds (flush (\<lambda>_. None))" "succeeds (sret ())"
  by (simp_all add: succeeds_def write_all_def flush_def)

lemma succeeds_flush_packet: "succeeds (flush_packet (\<lambda>_. None))"
  unfolding flush_packet_def by (intro succeeds_sbind succeeds_calm)

lemma succeeds_write_binary: "succeeds (write_binary (\<lambda>_. None) data)"
proof (induction data rule: payload_frames.induct)
  case (1 data)
  have cut: "drop (min (length data) MAX_PKT_PAYLOAD) data = drop MAX_PKT_PAYLOAD data" by (simp add: min_def)
  show ?case
  proof (cases "data = []")
    case False
    with 1 show ?thesis
      by (subst write_binary.simps) (simp only: if_False Let_def cut, intro succeeds_sbind succeeds_calm, blast)
  qed (subst write_binary.simps, simp only: simp_thms if_True succeeds_calm)
qed

lemma succeeds_status: "succeeds (write_text_list (\<lambda>_. None) [''status=success''])"
proof -
  have "succeeds (write_text (\<lambda>_. None) ''status=success'')"
    unfolding write_text_def Let_def by (simp only: length_as_bytes) (simp add: MAX_PKT_PAYLOAD_def succeeds_sbind succeeds_calm)
  then show ?thesis by (simp add: succeeds_sbind succeeds_flush_packet)
qed

lemma succeeds_on_out: "succeeds w \<Longrightarrow> succeeds (on_out E w)"
  unfolding succeeds_def on_out_def by (metis (no_types, lifting) case_prod_conv rmap_err_simps(2))

lemma succeeds_finish_with_cache:
  assumes "fe_sink E = (\<lambda>_. None)" and "fe_tmp_open E = None" and "fe_tmp_read E = None"
  shows "succeeds (finish_with_cache E raw pn body pb n)"
proof -
  have "succeeds (finish_smudge E body)"
    unfolding finish_smudge_def stream_file_def assms option.case
    by (intro succeeds_sbind succeeds_on_out succeeds_status succeeds_write_binary succeeds_flush_packet)
      (simp add: succeeds_def fault_def lift_res_def)
  moreover have "succeeds (case rc_git_dir raw of None \<Rightarrow> sret () | Some gd \<Rightarrow> populate_clean_cache_from_smudge E gd pn body pb n)"
    by (auto simp: succeeds_def populate_clean_cache_from_smudge_def save_entry_def split: option.splits sum.splits)
  ultimately show ?thesis unfolding finish_with_cache_def by (rule succeeds_sbind [rotated])
qed

text \<open>What the client relies on of \<open>xet-data\<close>: cleaning writes only objects of the store and names a hash in hexadecimal and the size;
  a download finds the content as long as the objects are there.\<close>

definition xet_laws ::
  "(path \<Rightarrow> bytes \<Rightarrow> fs \<Rightarrow> (string + xet_file_info) \<times> fs) \<Rightarrow> (path \<Rightarrow> xet_file_info \<Rightarrow> nat \<Rightarrow> fs \<Rightarrow> download) \<Rightarrow> bool" where
  "xet_laws clean download \<longleftrightarrow>
     (\<forall>store bs fs info fs'. clean store bs fs = (Inr info, fs') \<longrightarrow>
        xfi_file_size info = Some (length bs) \<and> is_safe_file_id (xfi_hash info) \<and>
        (\<forall>p. \<not> is_object store p \<longrightarrow> map_of fs' p = map_of fs p) \<and>
        (\<forall>fs''. (\<forall>p. is_object store p \<longrightarrow> map_of fs'' p = map_of fs' p) \<longrightarrow> download store info (length bs) fs'' = (Inr (), bs)))"

definition json_laws :: "json_lib \<Rightarrow> bool" where
  "json_laws J \<longleftrightarrow> (\<forall>info p. encode_pointer_string J info = Inr p \<longrightarrow> parse_pointer J (as_bytes p) = Inr info)"

lemma parse_pointer_size: "parse_pointer J bs = Inr info \<Longrightarrow> length bs \<le> POINTER_MAX_BYTES"
  by (auto simp: parse_pointer_def split: if_splits)

text \<open>The bookkeeping of a clean writes no object: markers, cache entries and their temporaries have other names.\<close>

lemma cache_names_not_objects:
  assumes "is_64_lower_hex key"
  shows "\<not> is_object store (cache_path gd key)" and "\<not> is_object store (cache_tmp gd key pid)"
proof -
  show "\<not> is_object store (cache_path gd key)" by (simp add: is_object_def cache_path_def hex_not_object assms)
  let ?n = "key @ ''.tmp.'' @ show_nat pid"
  have "list_all (\<lambda>c. c \<noteq> CHR ''u'') key" using assms by (auto simp: is_64_lower_hex_def list_all_iff)
  then have "key ! 4 \<noteq> CHR ''u''" using assms by (auto simp: list_all_length is_64_lower_hex_def)
  moreover have "?n ! 4 = key ! 4" using assms by (simp add: nth_append is_64_lower_hex_def)
  ultimately have "strip_prefix ''default.'' ?n \<noteq> Some t" for t by (auto simp: strip_prefix_eq_Some)
  then have "strip_prefix ''default.'' ?n = None" by (metis option.exhaust)
  moreover have "strip_suffix ''.mdb'' ?n = None"
  proof (rule ccontr)
    assume "strip_suffix ''.mdb'' ?n \<noteq> None"
    then obtain t where "?n = t @ ''.mdb''" by (auto simp: strip_suffix_eq_Some)
    then have "last ?n = CHR ''b''" by simp
    moreover have "last ?n \<in> set (show_nat pid)" by (simp add: show_nat_def)
    ultimately show False using show_nat_digits [of pid] by (auto simp: list_all_iff)
  qed
  ultimately show "\<not> is_object store (cache_tmp gd key pid)"
    by (simp add: is_object_def cache_tmp_def is_xorb_filename_def is_shard_filename_def)
qed

text \<open>A full clean that succeeds: what \<open>xet-data\<close> answered, what Git received, and the files it left.\<close>

lemma handle_clean_InrE:
  assumes "handle_clean E gd store P key n s = (Inr (), s')"
  obtains info fs1 pointer where "fe_clean E store (payload_bytes P) (ft_fs s) = (Inr info, fs1)"
    "encode_pointer_string (fe_json E) info = Inr pointer"
    "snk_data (ft_out s') = snk_data (ft_out s) @ success_answer (as_bytes pointer)"
    "\<And>p. p \<noteq> file_marker_path gd (xfi_hash info) \<Longrightarrow> p \<noteq> cache_path gd key \<Longrightarrow> p \<noteq> cache_tmp gd key (fe_pid E) \<Longrightarrow>
      map_of (ft_fs s') p = map_of fs1 p"
proof -
  from assms obtain pointer hex s2 s3 s4 where x: "xet_clean E store (payload_bytes P) s = (Inr (pointer, hex), s2)"
    and m: "mark_staged E gd hex n s2 = (Inr (), s3)" and r: "respond E (as_bytes pointer) s3 = (Inr (), s4)"
    and save: "(case payload_chunks E P n of
        Inr cs \<Rightarrow> save_entry E gd key \<lparr>ce_v = CLEAN_CACHE_VERSION, ce_size = n, ce_chunks = cs, ce_pointer = pointer\<rparr>
      | Inl _ \<Rightarrow> sret ()) s4 = (Inr (), s')"
    by (auto elim!: sbind_InrE simp: handle_clean_def fault_Inr)
  then have l: "s' = s4 \<or> (\<exists>en. save_entry E gd key en s4 = (Inr (), s'))" by (cases "payload_chunks E P n") auto
  obtain info fs1 where c: "fe_clean E store (payload_bytes P) (ft_fs s) = (Inr info, fs1)"
    "encode_pointer_string (fe_json E) info = Inr pointer" "hex = xfi_hash info" "s2 = s\<lparr>ft_fs := fs1\<rparr>"
    using x by (auto simp: xet_clean_def rbind_eq_Inr rmap_err_eq_Inr split: prod.splits)
  have "ft_out s' = ft_out s4" using l by (auto simp: save_entry_def)
  moreover have "ft_out s3 = ft_out s" using m c(4) by (auto simp: mark_staged_def)
  ultimately have out: "snk_data (ft_out s') = snk_data (ft_out s) @ success_answer (as_bytes pointer)"
    using respond_sends [OF r] by simp
  have "map_of (ft_fs s') p = map_of fs1 p"
    if "p \<noteq> file_marker_path gd (xfi_hash info)" "p \<noteq> cache_path gd key" "p \<noteq> cache_tmp gd key (fe_pid E)" for p
  proof -
    have "map_of (ft_fs s3) p = map_of fs1 p"
      using m c(3,4) that(1) by (auto simp: mark_staged_def mark_file_staged_def Let_def split: option.splits)
    moreover have "map_of (ft_fs s') p = map_of (ft_fs s4) p"
      using l replace_file_others [OF _ that(3,2)] by (fastforce simp: save_entry_def cache_save_def prod_eq_iff)
    ultimately show ?thesis using respond_sends [OF r] by simp
  qed
  from that [OF c(1,2) out this] show thesis .
qed

lemma clean_rest_miss:
  assumes "clean_rest E raw pn (P, n) s = (Inr (), s')" and "rc_git_dir raw = Some gd" and "object_store_root raw = Inr store"
    and "cached_answer E gd (cl_path_hex (fe_cache E) pn) P n (ft_fs s) = Inr None"
  obtains s1 where "ft_fs s1 = ft_fs s" "ft_out s1 = ft_out s"
    "handle_clean E gd store P (cl_path_hex (fe_cache E) pn) n s1 = (Inr (), s')"
proof -
  from assms obtain s1 where "ensure_runtime E s = (Inr (), s1)"
    and h: "handle_clean E gd store P (cl_path_hex (fe_cache E) pn) n s1 = (Inr (), s')"
    by (auto simp: clean_rest_def lift_res_def with_context_def with_fs_def pure_res_def fault_Inr Let_def elim!: sbind_InrE)
  then have "ft_fs s1 = ft_fs s" "ft_out s1 = ft_out s" by (auto simp: ensure_runtime_def split: if_splits option.splits)
  from that [OF this h] show thesis .
qed

definition calm_smudge :: "filter_env \<Rightarrow> bool" where
  "calm_smudge E \<longleftrightarrow> fe_sink E = (\<lambda>_. None) \<and> fe_tmp_open E = None \<and> fe_tmp_read E = None \<and> fe_chunk_cache E = None \<and> fe_tmp_new E = None \<and>
     fe_tmp_reset E = None \<and> fe_translator E = None \<and> fe_tmp_store E = None \<and> fe_tmp_stat_ok E"

lemma smudge_local_answers:
  assumes "calm_smudge E" and "rc_local_mode raw" and "rc_git_dir raw = Some gd" and "object_store_root raw = Inr store"
    and "fe_store_exists E store" and "xfi_file_size info = Some (length data)" and "is_safe_file_id (xfi_hash info)"
    and "parse_pointer (fe_json E) pb = Inr info" and "map_of (ft_fs s) (manifest_path gd (xfi_hash info)) = None"
    and "fe_store_download E store info (length data) (ft_fs s) = (Inr (), data)"
  shows "\<exists>s'. smudge_rest E raw pn pb s = (Inr (), s') \<and> snk_data (ft_out s') = snk_data (ft_out s) @ success_answer data"
proof -
  note calm = assms(1) [unfolded calm_smudge_def]
  have hot: "smudge_hot E raw (xfi_hash info) (length data) (ft_fs s) = (Inr False, [])"
    using assms(3,9) by (simp add: smudge_hot_def manifest_load_def)
  have staged: "smudge_staged E raw False info (length data) (ft_fs s) [] = (False, [])"
    using assms(2,3) by (simp add: smudge_staged_def)
  have "smudge_local E raw pn info (length data) pb s = finish_with_cache E raw pn data pb (length data) s"
    using calm assms(4,5,10)
    by (simp add: smudge_local_def lift_res_def with_context_def fault_def with_fs_def try_smudge_from_store_def overlay_def sbind_def Let_def)
  then have "smudge_rest E raw pn pb s = finish_with_cache E raw pn data pb (length data) s"
    using smudge_rest_hot [OF assms(8,6,7) _ _ hot staged, of pn] calm assms(2) by simp
  moreover obtain s' where "finish_with_cache E raw pn data pb (length data) s = (Inr (), s')"
    using succeeds_finish_with_cache calm unfolding succeeds_def by blast
  ultimately show ?thesis using finish_with_cache_sends by metis
qed

lemma manifest_not_object: "\<not> is_object store (manifest_path gd h)"
proof -
  have "last (h @ ''.json'') = CHR ''n''" by simp
  then have no_mdb: "strip_suffix ''.mdb'' (h @ ''.json'') = None"
    by (auto simp: strip_suffix_def ends_with_def)
  have "strip_prefix ''default.'' (h @ ''.json'') \<noteq> Some x" if "is_64_lower_hex x" for x
  proof
    assume "strip_prefix ''default.'' (h @ ''.json'') = Some x"
    then have "last x = CHR ''n''" using that by (auto simp: strip_prefix_eq_Some is_64_lower_hex_def dest!: arg_cong [of _ _ last] split: if_splits)
    moreover have "last x \<in> set x" using that by (intro last_in_set) (auto simp: is_64_lower_hex_def)
    ultimately show False using that by (auto simp: is_64_lower_hex_def list_all_iff)
  qed
  with no_mdb show ?thesis
    by (auto simp: is_object_def manifest_path_def is_xorb_filename_def is_shard_filename_def split: option.splits)
qed

text \<open>What a clean of content that is not in the cache leaves behind, in terms of what \<open>xet-data\<close> answered.\<close>

lemma do_clean_missE:
  assumes "do_clean E raw pn s = (Inr (), s1)" and "rc_git_dir raw = Some gd" and "object_store_root raw = Inr store"
    and "ft_in s = \<lparr>src_bytes = payload_frames data @ flush_frame @ rest, src_end = e\<rparr>" and "length data \<le> CLEAN_PAYLOAD_CAP"
    and "\<And>k. fe_spill E k = None" and "cache_load (fe_cache E) (fe_cache_read E) gd (cl_path_hex (fe_cache E) pn) (ft_fs s) = Inr None"
  obtains info fs1 pointer where "fe_clean E store data (ft_fs s) = (Inr info, fs1)"
    "encode_pointer_string (fe_json E) info = Inr pointer"
    "snk_data (ft_out s1) = snk_data (ft_out s) @ success_answer (as_bytes pointer)"
    "\<And>p. p \<noteq> file_marker_path gd (xfi_hash info) \<Longrightarrow> p \<noteq> cache_path gd (cl_path_hex (fe_cache E) pn) \<Longrightarrow>
      p \<noteq> cache_tmp gd (cl_path_hex (fe_cache E) pn) (fe_pid E) \<Longrightarrow> map_of (ft_fs s1) p = map_of fs1 p"
proof -
  let ?s = "s\<lparr>ft_in := \<lparr>src_bytes = rest, src_end = e\<rparr>\<rparr>"
  obtain P where P: "drain_clean_payload E s = (Inr (P, length data), ?s)" "payload_bytes P = data"
    using drain_clean_frames [OF assms(4,6,5)] by blast
  have rest: "clean_rest E raw pn (P, length data) ?s = (Inr (), s1)" using assms(1) P(1) by (simp add: do_clean_split)
  have "cached_answer E gd (cl_path_hex (fe_cache E) pn) P (length data) (ft_fs ?s) = Inr None"
    using assms(7) by (simp add: cached_answer_def)
  from clean_rest_miss [OF rest assms(2,3) this] obtain s0 where s0: "ft_fs s0 = ft_fs ?s" "ft_out s0 = ft_out ?s"
    and h: "handle_clean E gd store P (cl_path_hex (fe_cache E) pn) (length data) s0 = (Inr (), s1)" .
  from handle_clean_InrE [OF h] obtain info fs1 pointer where
    c: "fe_clean E store (payload_bytes P) (ft_fs s0) = (Inr info, fs1)" "encode_pointer_string (fe_json E) info = Inr pointer"
    "snk_data (ft_out s1) = snk_data (ft_out s0) @ success_answer (as_bytes pointer)"
    and keep: "\<And>p. p \<noteq> file_marker_path gd (xfi_hash info) \<Longrightarrow> p \<noteq> cache_path gd (cl_path_hex (fe_cache E) pn) \<Longrightarrow>
      p \<noteq> cache_tmp gd (cl_path_hex (fe_cache E) pn) (fe_pid E) \<Longrightarrow> map_of (ft_fs s1) p = map_of fs1 p" by blast
  show thesis by (rule that [OF _ c(2) _ keep]) (use c(1,3) s0 P(2) in simp_all)
qed


end
