(* ===== verification/Filter_Example.thy ===== *)
theory Filter_Example
  imports Filter_Session
begin

text \<open>
  A repository in local mode, with a library that stores one kind of content, to run the filter's properties on concrete sessions.
\<close>

section \<open>Libraries\<close>

definition ex_ptr_body :: string where
  "ex_ptr_body = POINTER_SENTINEL @ '': 1''"

definition ex_ptr :: string where
  "ex_ptr = (CHR ''{'' # ex_ptr_body @ ''}'') @ [CHR 0x0A]"

definition ex_file_info :: xet_file_info where
  "ex_file_info = \<lparr>xfi_hash = ex_hex (CHR ''a''), xfi_file_size = Some 3\<rparr>"

definition ex_json :: json_lib where
  "ex_json = \<lparr>js_to_string_pretty = (\<lambda>info. if info = ex_file_info then Inr (CHR ''{'' # ex_ptr_body @ ''}'') else Inl ''unsupported''),
     js_from_str = (\<lambda>_. Inr ex_file_info)\<rparr>"

lemma ex_ptr_facts:
  "encode_pointer_string ex_json ex_file_info = Inr ex_ptr" "parse_pointer ex_json (as_bytes ex_ptr) = Inr ex_file_info"
proof -
  have "contains_str POINTER_SENTINEL (CHR ''{'' # ex_ptr_body @ ''}'')"
    unfolding contains_str_iff ex_ptr_body_def by (intro exI [of _ "''{''"] exI [of _ "'': 1}''"]) simp
  moreover have "utf8_valid (as_bytes (CHR ''{'' # ex_ptr_body @ ''}''))"
    by (rule utf8_valid_ascii) (simp add: ex_ptr_body_def POINTER_SENTINEL_def as_bytes_def)
  moreover have "length ex_ptr_body + 3 \<le> POINTER_MAX_BYTES"
    by (simp add: ex_ptr_body_def POINTER_SENTINEL_def POINTER_MAX_BYTES_def)
  ultimately show "encode_pointer_string ex_json ex_file_info = Inr ex_ptr" "parse_pointer ex_json (as_bytes ex_ptr) = Inr ex_file_info"
    unfolding ex_ptr_def by (intro encoded_pointer_parses; simp add: ex_json_def)+
qed

lemma ex_json_laws: "json_laws ex_json"
  using ex_ptr_facts by (auto simp: json_laws_def encode_pointer_string_def ex_json_def rbind_eq_Inr rmap_err_eq_Inr split: if_splits)

definition ex_blob :: "path \<Rightarrow> path" where
  "ex_blob store = store @ [''default.'' @ ex_hex (CHR ''a'')]"

definition ex_clean :: "path \<Rightarrow> bytes \<Rightarrow> fs \<Rightarrow> (string + xet_file_info) \<times> fs" where
  "ex_clean store bs fs =
     (if length bs = 3 then (Inr ex_file_info, put_file (ex_blob store) \<lparr>fn_body = bs, fn_mtime = 0\<rparr> fs) else (Inl ''unsupported'', fs))"

definition ex_fetch :: "path \<Rightarrow> xet_file_info \<Rightarrow> nat \<Rightarrow> fs \<Rightarrow> download" where
  "ex_fetch store info n fs =
     (case map_of fs (ex_blob store) of Some f \<Rightarrow> (Inr (), fn_body f) | None \<Rightarrow> (Inl ''missing'', []))"

lemma ex_blob_object: "is_object store (ex_blob store)"
proof -
  have "is_xorb_filename (''default.'' @ ex_hex (CHR ''a''))"
    unfolding is_xorb_filename_def by (simp only: strip_prefix_append option.case ex_hex)
  then show ?thesis by (simp add: is_object_def below_def ex_blob_def del: append_Cons)
qed

lemma ex_xet_laws: "xet_laws ex_clean ex_fetch"
  using ex_blob_object ex_hex(1)
  by (auto simp: xet_laws_def ex_clean_def ex_fetch_def ex_file_info_def is_safe_file_id_def is_64_lower_hex_def split: if_splits)

definition ex_manifest :: cached_manifest where
  "ex_manifest = \<lparr>cm_v = 1, cm_terms = [\<lparr>ct_xorb_hash = ''x'', ct_chunk_start = 0, ct_chunk_end = 1, ct_unpacked_length = 5\<rparr>]\<rparr>"

definition ex_filter_env :: filter_env where
  "ex_filter_env = \<lparr>fe_json = ex_json, fe_cache = ex_cache_lib\<lparr>cl_path_hex := (\<lambda>_. ex_hex (CHR ''b''))\<rparr>,
     fe_manifests = \<lparr>ml_to_vec_pretty = (\<lambda>_. Inr []), ml_from_slice = (\<lambda>_. Some ex_manifest)\<rparr>, fe_hx = last_byte,
     fe_io_text = (\<lambda>_. ''io''), fe_debug = id, fe_pointer_text = (\<lambda>_. ''pointer''), fe_sink = (\<lambda>_. None), fe_now = 0, fe_pid = 1,
     fe_max_inline = None, fe_spill = (\<lambda>_. None), fe_spill_open = None, fe_short = (\<lambda>_. 0), fe_seed = 1, fe_cache_read = None,
     fe_lock = None, fe_touch_open = None, fe_touch_set = None, fe_runtime = None, fe_mkdirs = None, fe_translator = None,
     fe_clean = ex_clean, fe_mark_mkdir = None, fe_mark_create = None, fe_mark_write = None, fe_save = calm_save,
     fe_chunk_cache = None, fe_tmp_new = None, fe_manifest_read = None, fe_tmp_hot = None, fe_merkle_err = (\<lambda>_. None),
     fe_chunk_get = (\<lambda>_ _ _. Inr (Some [9, 9, 9, 9, 9])), fe_hot_write = (\<lambda>_. None), fe_store_exists = (\<lambda>_. True), fe_tmp_store = None,
     fe_store_download = ex_fetch, fe_tmp_reset = None, fe_tmp_stat_ok = True, fe_resolve = Inl ''offline'', fe_tmp_cold = None,
     fe_session = (\<lambda>_. None), fe_stall_var = None,
     fe_cold_download = (\<lambda>_ _ _. ([Finished (Inl ''offline'')], [])), fe_fetch_manifest = (\<lambda>_ _. Inl ''offline''),
     fe_tmp_open = None, fe_tmp_read = None\<rparr>"

definition ex_raw :: "bool \<Rightarrow> raw_config" where
  "ex_raw local = (default_config [''g''])\<lparr>rc_local_mode := local\<rparr>"

definition ex_filter_state :: "bytes \<Rightarrow> fs \<Rightarrow> filter_state" where
  "ex_filter_state input fs = \<lparr>ft_in = \<lparr>src_bytes = input, src_end = None\<rparr>, ft_out = \<lparr>snk_data = [], snk_tick = 0\<rparr>, ft_fs = fs,
     ft_runtime = True, ft_auth = None\<rparr>"

lemma ex_calm: "calm_smudge ex_filter_env" "\<And>k. fe_spill ex_filter_env k = None"
  by (simp_all add: calm_smudge_def ex_filter_env_def)

section \<open>Sessions\<close>

lemma succeeds_text_list: "\<forall>l \<in> set lines. length l + 1 \<le> MAX_PKT_PAYLOAD \<Longrightarrow> succeeds (write_text_list (\<lambda>_. None) lines)"
proof (induction lines)
  case (Cons l lines)
  then have "succeeds (write_text (\<lambda>_. None) l)"
    by (simp add: write_text_def Let_def succeeds_sbind succeeds_calm)
  with Cons show ?case by (simp add: succeeds_sbind)
qed (simp add: succeeds_flush_packet)

theorem request_consumed_exactly_witness:
  "ft_in (snd (handle_request ex_filter_env (ex_raw True) [''command=list'']
     (ex_filter_state (payload_frames [1] @ flush_frame @ [7]) []))) = \<lparr>src_bytes = [7], src_end = None\<rparr>"
proof -
  let ?s = "ex_filter_state (payload_frames [1] @ flush_frame @ [7]) []"
  have in': "ft_in ?s = \<lparr>src_bytes = payload_frames [1] @ flush_frame @ [7], src_end = None\<rparr>" by (simp add: ex_filter_state_def)
  have cmd: "request_command [''command=list''] = ''list''"
    by (simp add: request_command_def parse_headers_def map_filter_simps header_value_def)
  have cap: "length [1 :: u8] \<le> payload_cap [''command=list'']" by (simp add: payload_cap_def cmd DRAIN_PAYLOAD_CAP_def)
  have "read_payload ex_filter_env DRAIN_PAYLOAD_CAP ?s = (Inr [1], ?s\<lparr>ft_in := \<lparr>src_bytes = [7], src_end = None\<rparr>\<rparr>)"
    using caps_u64(3) by (intro read_payload_frames [OF in']) (simp_all add: DRAIN_PAYLOAD_CAP_def)
  then have d: "drain_payload ex_filter_env ?s = (Inr (), ?s\<lparr>ft_in := \<lparr>src_bytes = [7], src_end = None\<rparr>\<rparr>)"
    by (simp add: drain_payload_def)
  have sink: "fe_sink ex_filter_env = (\<lambda>_. None)" by (simp add: ex_filter_env_def)
  have "succeeds (sbind (on_out ex_filter_env (write_text_list (fe_sink ex_filter_env)
      [''status=error'', ''error=unknown command '' @ [CHR 0x22] @ ''list'' @ [CHR 0x22]]))
      (\<lambda>_. on_out ex_filter_env (flush_packet (fe_sink ex_filter_env))))"
    unfolding sink by (intro succeeds_sbind succeeds_on_out succeeds_text_list succeeds_flush_packet) (auto simp: MAX_PKT_PAYLOAD_def)
  then have "\<exists>s'. unknown_command ex_filter_env ''list'' ?s = (Inr (), s')"
    unfolding unknown_command_def succeeds_def sbind_Inr [where m = "drain_payload ex_filter_env", OF d] by blast
  then obtain s' where run: "handle_request ex_filter_env (ex_raw True) [''command=list''] ?s = (Inr (), s')"
    using cmd by (auto simp: handle_request_def request_command_def Let_def)
  from request_consumed_exactly [OF in' cap ex_calm(2) run] run show ?thesis by simp
qed

lemma oversized_smudge_ends_session_example:
  "\<exists>err s'. serve (\<lambda>_. ex_filter_env) (ex_raw True) 1
     (ex_filter_state (line_frame ''command=smudge'' @ flush_frame @ payload_frames (replicate (MAX_PKT_PAYLOAD + 1) 0xFF) @ flush_frame) []) =
     (Inl err, s')"
proof (rule oversized_smudge_ends_session)
  show "ft_in (ex_filter_state (line_frame ''command=smudge'' @ flush_frame @ payload_frames (replicate (MAX_PKT_PAYLOAD + 1) 0xFF) @ flush_frame) []) =
    \<lparr>src_bytes = concat (map line_frame [''command=smudge'']) @ flush_frame @ payload_frames (replicate (MAX_PKT_PAYLOAD + 1) 0xFF) @
       flush_frame @ [], src_end = None\<rparr>"
    by (simp add: ex_filter_state_def)
  show "utf8_valid (as_bytes l) \<and> length l + 1 \<le> MAX_PKT_PAYLOAD" if "l \<in> set [''command=smudge'']" for l
    using that by (auto intro!: utf8_valid_ascii simp: as_bytes_def MAX_PKT_PAYLOAD_def)
  show "request_command [''command=smudge''] = ''smudge''"
    by (simp add: request_command_def parse_headers_def map_filter_simps header_value_def)
  have "take MAX_PKT_PAYLOAD (drop MAX_PKT_PAYLOAD (replicate (MAX_PKT_PAYLOAD + 1) (0xFF :: u8))) = [0xFF]"
    by (simp only: drop_replicate take_replicate) (simp add: MAX_PKT_PAYLOAD_def)
  then show "\<not> utf8_valid (chomp (take MAX_PKT_PAYLOAD (drop MAX_PKT_PAYLOAD (replicate (MAX_PKT_PAYLOAD + 1) 0xFF))))"
    by (simp only:) (simp add: chomp_def utf8_valid.simps)
qed simp_all

definition ex_stale_fs :: fs where
  "ex_stale_fs = [(file_marker_path [''g''] (ex_hex (CHR ''a'')), \<lparr>fn_body = [], fn_mtime = 0\<rparr>),
     (manifest_path [''g''] (ex_hex (CHR ''a'')), \<lparr>fn_body = [], fn_mtime = 0\<rparr>),
     (ex_blob (staging_root [''g'']), \<lparr>fn_body = [1, 2, 3], fn_mtime = 0\<rparr>)]"

lemma staged_smudge_appends_stale_bytes_example:
  "snk_data (ft_out (snd (smudge_rest ex_filter_env (ex_raw False) ''f'' (as_bytes ex_ptr) (ex_filter_state [] ex_stale_fs)))) =
     success_answer [1, 2, 3, 9, 9]"
proof -
  let ?E = ex_filter_env and ?raw = "ex_raw False" and ?s = "ex_filter_state [] ex_stale_fs"
  have pp: "parse_pointer (fe_json ?E) (as_bytes ex_ptr) = Inr ex_file_info" using ex_ptr_facts by (simp add: ex_filter_env_def)
  have info: "xfi_file_size ex_file_info = Some (length [1 :: u8, 2, 3])" "is_safe_file_id (xfi_hash ex_file_info)"
    using ex_hex(1) by (simp_all add: ex_file_info_def is_safe_file_id_def is_64_lower_hex_def)
  have E: "fe_chunk_cache ?E = None" "fe_tmp_new ?E = None" "fe_tmp_hot ?E = None" "fe_translator ?E = None" "fe_tmp_store ?E = None"
    by (simp_all add: ex_filter_env_def)
  have raw: "\<not> rc_local_mode ?raw" "rc_git_dir ?raw = Some [''g'']" by (simp_all add: ex_raw_def default_config_def)
  have staged: "file_is_staged [''g''] (xfi_hash ex_file_info) (ft_fs ?s)"
    by (simp add: file_is_staged_def ex_filter_state_def ex_stale_fs_def ex_file_info_def)
  have mf: "manifest_load (fe_manifests ?E) (fe_manifest_read ?E) [''g''] (xfi_hash ex_file_info) (ft_fs ?s) = Inr (Some ex_manifest)"
    by (simp add: manifest_load_def ex_filter_env_def ex_filter_state_def ex_stale_fs_def ex_file_info_def file_marker_path_def
        file_index_dir_def staging_root_def manifest_path_def ex_manifest_def MANIFEST_VERSION_def)
  have rec: "try_reconstruct_from_cache ?E ex_manifest (length [1 :: u8, 2, 3]) = (Inr Miss, [9, 9, 9, 9, 9])"
    by (simp add: try_reconstruct_from_cache_def ex_manifest_def ex_filter_env_def)
  have st: "fe_store_exists ?E (staging_root [''g''])" by (simp add: ex_filter_env_def)
  have dl: "fe_store_download ?E (staging_root [''g'']) ex_file_info (length [1 :: u8, 2, 3]) (ft_fs ?s) = (Inr (), [1, 2, 3])"
    by (simp add: ex_filter_env_def ex_fetch_def ex_filter_state_def ex_stale_fs_def ex_blob_def file_marker_path_def
        file_index_dir_def manifest_path_def staging_root_def)
  have "smudge_hot ?E ?raw (xfi_hash ex_file_info) (length [1 :: u8, 2, 3]) (ft_fs ?s) = (Inr False, [9, 9, 9, 9, 9])"
    using raw mf rec E by (simp add: smudge_hot_def)
  moreover have "smudge_staged ?E ?raw False ex_file_info (length [1 :: u8, 2, 3]) (ft_fs ?s) [9, 9, 9, 9, 9] = (True, [1, 2, 3, 9, 9])"
    using raw staged st dl E by (simp add: smudge_staged_def try_smudge_from_store_def overlay_def)
  ultimately have "smudge_rest ?E ?raw ''f'' (as_bytes ex_ptr) ?s =
      finish_with_cache ?E ?raw ''f'' [1, 2, 3, 9, 9] (as_bytes ex_ptr) (length [1 :: u8, 2, 3]) ?s"
    using smudge_rest_hot [OF pp info E(1,2)] raw by simp
  moreover have "succeeds (finish_with_cache ?E ?raw ''f'' [1, 2, 3, 9, 9] (as_bytes ex_ptr) (length [1 :: u8, 2, 3]))"
    by (rule succeeds_finish_with_cache) (simp_all add: ex_filter_env_def)
  ultimately obtain s' where run: "smudge_rest ?E ?raw ''f'' (as_bytes ex_ptr) ?s = (Inr (), s')" unfolding succeeds_def by metis
  from staged_smudge_appends_stale_bytes [OF pp info E raw staged mf rec st dl run] run show ?thesis
    by (simp add: ex_filter_state_def)
qed

text \<open>A clean that is not in the cache, with nothing going wrong around the library, is answered.\<close>

lemma succeeds_respond: "fe_sink E = (\<lambda>_. None) \<Longrightarrow> succeeds (respond E body)"
  unfolding respond_def write_all_then_flush_def
  by (simp only:) (intro succeeds_sbind succeeds_on_out succeeds_status succeeds_write_binary succeeds_flush_packet)

lemma calm_clean_succeeds:
  assumes "fe_sink E = (\<lambda>_. None)" "fe_lock E = None" "fe_mkdirs E = None" "fe_translator E = None" "ft_runtime s"
    and "rc_git_dir raw = Some gd" and "object_store_root raw = Inr store"
    and "cached_answer E gd (cl_path_hex (fe_cache E) pn) P n (ft_fs s) = Inr None"
    and "fe_clean E store (payload_bytes P) (ft_fs s) = (Inr info, fs1)" and "encode_pointer_string (fe_json E) info = Inr pointer"
  shows "\<exists>s1. clean_rest E raw pn (P, n) s = (Inr (), s1)"
proof -
  let ?key = "cl_path_hex (fe_cache E) pn"
  have x: "xet_clean E store (payload_bytes P) s = (Inr (pointer, xfi_hash info), s\<lparr>ft_fs := fs1\<rparr>)"
    using assms(9,10) by (simp add: xet_clean_def)
  have "succeeds (sbind (mark_staged E gd (xfi_hash info) n) (\<lambda>_. sbind (respond E (as_bytes pointer)) (\<lambda>_.
      case payload_chunks E P n of
        Inr cs \<Rightarrow> save_entry E gd ?key \<lparr>ce_v = CLEAN_CACHE_VERSION, ce_size = n, ce_chunks = cs, ce_pointer = pointer\<rparr>
      | Inl _ \<Rightarrow> sret ())))"
    by (intro succeeds_sbind succeeds_respond assms(1))
      (simp_all add: succeeds_def mark_staged_def save_entry_def split: sum.splits)
  then obtain s1 where "handle_clean E gd store P ?key n s = (Inr (), s1)"
    using x assms(3,4) unfolding succeeds_def by (fastforce simp: handle_clean_def fault_def lift_res_def)
  then show ?thesis
    using assms by (simp add: clean_rest_def lift_res_def with_context_def with_fs_def pure_res_def fault_def ensure_runtime_def Let_def)
qed


end
