(* ===== verification/Vfs.thy ===== *)
theory Vfs
  imports Staging "HOL-Library.AList"
begin

text \<open>
  The read-only file system behind a mount: the changed files between two commits (\<open>git-bale/src/mount/diff.rs\<close>) and the tree of inodes
  that shows them, or one commit, to the kernel (\<open>mount/vfs.rs\<close>). Inodes are natural numbers handed out in order. The children of a
  directory are an association list with one entry per name; the maps from inodes are partial functions. A result of \<^const>\<open>None\<close>
  where an operation returns an option of a state is a panic.
\<close>

section \<open>Changed files\<close>

datatype diff_status = Added | Deleted | Modified | Other

record diff_entry =
  de_path_a :: "string option"
  de_path_b :: "string option"
  de_oid_a :: "string option"
  de_oid_b :: "string option"
  de_status :: diff_status

text \<open>A change as \<open>gix\<close> reports it: the location as bytes, object ids in hexadecimal, and whether the modes are those of a blob.\<close>

datatype change =
    Addition string string bool
  | Deletion string string bool
  | Modification string string string bool bool
  | Rewrite

text \<open>The part of \<open>gix\<close> used here, each step failing with a text: revisions, objects, peeling to a commit, its tree, and the
  differences of two trees. \<open>rv_lossy\<close> replaces invalid UTF-8.\<close>

record revisions =
  rv_open :: "string option"
  rv_parse :: "string \<Rightarrow> string + string"
  rv_object :: "string \<Rightarrow> string option"
  rv_peel :: "string \<Rightarrow> string + string"
  rv_tree :: "string \<Rightarrow> string + string"
  rv_changes :: "string \<Rightarrow> string \<Rightarrow> string + change list"
  rv_lossy :: "string \<Rightarrow> string"

definition open_repo :: "revisions \<Rightarrow> string \<Rightarrow> string + unit" where
  "open_repo R repo_path =
     (case rv_open R of Some e \<Rightarrow> Inl (''opening git repo at '' @ repo_path @ '': '' @ e) | None \<Rightarrow> Inr ())"

definition load_object :: "revisions \<Rightarrow> string \<Rightarrow> string \<Rightarrow> string + string" where
  "load_object R what i = (case rv_object R i of Some e \<Rightarrow> Inl (what @ '': '' @ e) | None \<Rightarrow> Inr i)"

definition rev_parse_commit :: "revisions \<Rightarrow> string \<Rightarrow> string \<Rightarrow> string + string" where
  "rev_parse_commit R repo_path revision =
     rbind (open_repo R repo_path) (\<lambda>_.
     rbind (with_context (''git rev-parse '' @ revision) (rv_parse R revision)) (\<lambda>resolved.
     rbind (load_object R (''loading object for '' @ revision) resolved) (\<lambda>obj.
       with_context (revision @ '' does not point to a commit'') (rv_peel R obj))))"

definition ensure_distinct_commits :: "revisions \<Rightarrow> string \<Rightarrow> string \<Rightarrow> string \<Rightarrow> string + unit" where
  "ensure_distinct_commits R repo_path rev_a rev_b =
     rbind (rev_parse_commit R repo_path rev_a) (\<lambda>a.
     rbind (rev_parse_commit R repo_path rev_b) (\<lambda>b.
       if a = b then Inl (rev_a @ '' and '' @ rev_b @ '' both resolve to '' @ a) else Inr ()))"

definition resolve_tree :: "revisions \<Rightarrow> string \<Rightarrow> string + string" where
  "resolve_tree R revision =
     rbind (with_context (''git rev-parse '' @ revision) (rv_parse R revision)) (\<lambda>resolved.
     rbind (load_object R (''loading '' @ revision) resolved) (\<lambda>obj.
     rbind (with_context (revision @ '' does not point to a commit'') (rv_peel R obj)) (\<lambda>commit.
       with_context (''loading tree for '' @ revision) (rv_tree R commit))))"

definition bstr_path_matches :: "string \<Rightarrow> string list \<Rightarrow> bool" where
  "bstr_path_matches location filters \<longleftrightarrow>
     list_ex (\<lambda>f. let f = trim_end_matches (CHR ''/'') f
        in f = [] \<or> location = f \<or>
           (length location > length f \<and> starts_with f location \<and> location ! length f = CHR ''/'')) filters"

fun change_in_pathspec :: "string list \<Rightarrow> change \<Rightarrow> bool" where
  "change_in_pathspec filters (Addition location i m) \<longleftrightarrow> filters = [] \<or> bstr_path_matches location filters"
| "change_in_pathspec filters (Deletion location i m) \<longleftrightarrow> filters = [] \<or> bstr_path_matches location filters"
| "change_in_pathspec filters (Modification location p i m pm) \<longleftrightarrow> filters = [] \<or> bstr_path_matches location filters"
| "change_in_pathspec filters Rewrite \<longleftrightarrow> filters = []"

fun change_to_entry :: "revisions \<Rightarrow> change \<Rightarrow> diff_entry option" where
  "change_to_entry R (Addition location i is_blob) =
     (if \<not> is_blob then None
      else Some \<lparr>de_path_a = None, de_path_b = Some (rv_lossy R location), de_oid_a = None, de_oid_b = Some i, de_status = Added\<rparr>)"
| "change_to_entry R (Deletion location i is_blob) =
     (if \<not> is_blob then None
      else Some \<lparr>de_path_a = Some (rv_lossy R location), de_path_b = None, de_oid_a = Some i, de_oid_b = None, de_status = Deleted\<rparr>)"
| "change_to_entry R (Modification location previous_id i is_blob previous_is_blob) =
     (if \<not> is_blob \<and> \<not> previous_is_blob then None
      else if previous_id = i then None
      else Some \<lparr>de_path_a = Some (rv_lossy R location), de_path_b = Some (rv_lossy R location), de_oid_a = Some previous_id,
                 de_oid_b = Some i, de_status = Modified\<rparr>)"
| "change_to_entry R Rewrite = None"

definition run_diff :: "revisions \<Rightarrow> string \<Rightarrow> string \<Rightarrow> string \<Rightarrow> string list \<Rightarrow> string + diff_entry list" where
  "run_diff R repo_path rev_a rev_b paths =
     rbind (open_repo R repo_path) (\<lambda>_.
     rbind (resolve_tree R rev_a) (\<lambda>tree_a.
     rbind (resolve_tree R rev_b) (\<lambda>tree_b.
     rbind (with_context ''walking tree diff'' (rv_changes R tree_a tree_b)) (\<lambda>changes.
       Inr (List.map_filter (change_to_entry R) (filter (change_in_pathspec paths) changes))))))"

section \<open>Nodes and directories\<close>

record blob_source =
  bs_oid :: string

datatype node_kind = Dir | File nat blob_source

record node =
  nd_inode :: nat
  nd_kind :: node_kind

record lazy_dir =
  ld_tree_oid :: string
  ld_path_prefix :: string

record dir_state =
  ds_children :: "(string \<times> nat) list"
  ds_lazy :: "lazy_dir option"

record vfs_state =
  vs_nodes :: "nat \<rightharpoonup> node"
  vs_dirs :: "nat \<rightharpoonup> dir_state"
  vs_next_inode :: nat

datatype entry_mode = TreeMode | BlobMode | OtherMode

record tree_entry =
  te_filename :: string
  te_mode :: entry_mode
  te_oid :: string

text \<open>The repository of a lazy file system: what loading an object as a tree gives. \<^const>\<open>None\<close>: the object is no tree, which
  panics; otherwise an error, or the entries, each of which may fail to decode.\<close>

record lazy_context =
  lc_load :: "string \<Rightarrow> (string + (string + tree_entry) list) option"
  lc_pathspec :: "string list"

record diff_vfs =
  dv_state :: vfs_state
  dv_lazy :: "lazy_context option"

definition ROOT_INODE :: nat where "ROOT_INODE = 1"

definition empty_state :: vfs_state where
  "empty_state = \<lparr>vs_nodes = Map.empty, vs_dirs = Map.empty, vs_next_inode = ROOT_INODE + 1\<rparr>"

definition add_dir :: "nat \<Rightarrow> lazy_dir option \<Rightarrow> vfs_state \<Rightarrow> vfs_state" where
  "add_dir inode lazy st = st\<lparr>vs_nodes := (vs_nodes st)(inode \<mapsto> \<lparr>nd_inode = inode, nd_kind = Dir\<rparr>),
     vs_dirs := (vs_dirs st)(inode \<mapsto> \<lparr>ds_children = [], ds_lazy = lazy\<rparr>)\<rparr>"

definition add_file :: "nat \<Rightarrow> string \<Rightarrow> vfs_state \<Rightarrow> vfs_state" where
  "add_file inode oid st =
     st\<lparr>vs_nodes := (vs_nodes st)(inode \<mapsto> \<lparr>nd_inode = inode, nd_kind = File u64_max \<lparr>bs_oid = oid\<rparr>\<rparr>)\<rparr>"

definition add_eager_root :: "vfs_state \<Rightarrow> vfs_state" where
  "add_eager_root st = add_dir ROOT_INODE None st"

definition alloc_inode :: "vfs_state \<Rightarrow> nat \<times> vfs_state" where
  "alloc_inode st = (vs_next_inode st, st\<lparr>vs_next_inode := vs_next_inode st + 1\<rparr>)"

text \<open>\<open>expect("parent dir exists")\<close>.\<close>

definition insert_child :: "nat \<Rightarrow> string \<Rightarrow> nat \<Rightarrow> vfs_state \<Rightarrow> vfs_state option" where
  "insert_child parent name inode st =
     (case vs_dirs st parent of
        None \<Rightarrow> None
      | Some d \<Rightarrow> Some (st\<lparr>vs_dirs := (vs_dirs st)(parent \<mapsto> d\<lparr>ds_children := AList.update name inode (ds_children d)\<rparr>)\<rparr>))"

section \<open>Eager construction\<close>

definition child_of :: "vfs_state \<Rightarrow> nat \<Rightarrow> string \<Rightarrow> nat option" where
  "child_of st parent name = (case vs_dirs st parent of Some d \<Rightarrow> map_of (ds_children d) name | None \<Rightarrow> None)"

definition is_dir_node :: "vfs_state \<Rightarrow> nat \<Rightarrow> bool" where
  "is_dir_node st i \<longleftrightarrow> (case vs_nodes st i of Some n \<Rightarrow> nd_kind n = Dir | None \<Rightarrow> False)"

definition ensure_dir :: "nat \<Rightarrow> string \<Rightarrow> vfs_state \<Rightarrow> (nat \<times> vfs_state) option" where
  "ensure_dir parent name st =
     (let fresh = (case alloc_inode st of (inode, st) \<Rightarrow>
            map_option (Pair inode) (insert_child parent name inode (add_dir inode None st)))
      in case child_of st parent name of
           Some existing \<Rightarrow> if is_dir_node st existing then Some (existing, st) else fresh
         | None \<Rightarrow> fresh)"

fun ensure_dirs :: "nat \<Rightarrow> string list \<Rightarrow> vfs_state \<Rightarrow> (nat \<times> vfs_state) option" where
  "ensure_dirs parent [] st = Some (parent, st)"
| "ensure_dirs parent (d # ds) st =
     (case ensure_dir parent d st of None \<Rightarrow> None | Some (parent, st) \<Rightarrow> ensure_dirs parent ds st)"

definition label_filename :: "string \<Rightarrow> string \<Rightarrow> string" where
  "label_filename name label =
     (case rsplit_once (CHR ''.'') name of
        Some (stem, ext) \<Rightarrow> if stem \<noteq> [] then stem @ ''__'' @ label @ ''.'' @ ext else name @ ''__'' @ label
      | None \<Rightarrow> name @ ''__'' @ label)"

definition insert_leaf :: "nat \<Rightarrow> string \<Rightarrow> string \<Rightarrow> vfs_state \<Rightarrow> vfs_state option" where
  "insert_leaf parent name oid st =
     (if child_of st parent name \<noteq> None then Some st
      else case alloc_inode st of (inode, st) \<Rightarrow> insert_child parent name inode (add_file inode oid st))"

definition eager_insert :: "string \<Rightarrow> string \<Rightarrow> string option \<Rightarrow> vfs_state \<Rightarrow> vfs_state option" where
  "eager_insert path oid label st =
     (let components = filter (\<lambda>c. c \<noteq> []) (split_on (CHR ''/'') path)
      in if components = [] then Some st
         else case ensure_dirs ROOT_INODE (butlast components) st of
                None \<Rightarrow> None
              | Some (parent, st) \<Rightarrow>
                  insert_leaf parent (case label of Some l \<Rightarrow> label_filename (last components) l | None \<Rightarrow> last components) oid st)"

definition insert_side :: "string option \<Rightarrow> string option \<Rightarrow> string \<Rightarrow> vfs_state \<Rightarrow> vfs_state option" where
  "insert_side path oid label st =
     (case (path, oid) of (Some p, Some i) \<Rightarrow> eager_insert p i (Some label) st | _ \<Rightarrow> Some st)"

fun build_entries :: "diff_entry list \<Rightarrow> string \<Rightarrow> string \<Rightarrow> vfs_state \<Rightarrow> vfs_state option" where
  "build_entries [] label_a label_b st = Some st"
| "build_entries (e # es) label_a label_b st =
     Option.bind (insert_side (de_path_a e) (de_oid_a e) label_a st) (\<lambda>st.
     Option.bind (insert_side (de_path_b e) (de_oid_b e) label_b st) (\<lambda>st.
       build_entries es label_a label_b st))"

definition build :: "diff_entry list \<Rightarrow> string \<Rightarrow> string \<Rightarrow> diff_vfs option" where
  "build entries label_a label_b =
     map_option (\<lambda>st. \<lparr>dv_state = st, dv_lazy = None\<rparr>) (build_entries entries label_a label_b (add_eager_root empty_state))"

section \<open>Lazy construction\<close>

definition build_single_lazy :: "lazy_context \<Rightarrow> string \<Rightarrow> diff_vfs" where
  "build_single_lazy ctx root_tree =
     \<lparr>dv_state = add_dir ROOT_INODE (Some \<lparr>ld_tree_oid = root_tree, ld_path_prefix = []\<rparr>) empty_state, dv_lazy = Some ctx\<rparr>"

definition pathspec_matches_file :: "string \<Rightarrow> string list \<Rightarrow> bool" where
  "pathspec_matches_file path filters \<longleftrightarrow>
     filters = [] \<or>
     list_ex (\<lambda>f. let f = trim_end_matches (CHR ''/'') f in path = f \<or> starts_with (f @ ''/'') path) filters"

definition pathspec_intersects_dir :: "string \<Rightarrow> string list \<Rightarrow> bool" where
  "pathspec_intersects_dir path filters \<longleftrightarrow>
     filters = [] \<or>
     list_ex (\<lambda>f. let f = trim_end_matches (CHR ''/'') f
        in path = f \<or> starts_with (f @ ''/'') path \<or> starts_with (path @ ''/'') f) filters"

datatype pending_kind = PendingDir string string | PendingFile string

definition full_path_of :: "string \<Rightarrow> string \<Rightarrow> string" where
  "full_path_of prefix name = (if prefix = [] then name else prefix @ ''/'' @ name)"

definition pending_child :: "lazy_context \<Rightarrow> string \<Rightarrow> tree_entry \<Rightarrow> (string \<times> pending_kind) option" where
  "pending_child ctx prefix e =
     (let full_path = full_path_of prefix (te_filename e)
      in case te_mode e of
           TreeMode \<Rightarrow>
             if \<not> pathspec_intersects_dir full_path (lc_pathspec ctx) then None
             else Some (te_filename e, PendingDir (te_oid e) full_path)
         | BlobMode \<Rightarrow>
             if \<not> pathspec_matches_file full_path (lc_pathspec ctx) then None
             else Some (te_filename e, PendingFile (te_oid e))
         | OtherMode \<Rightarrow> None)"

fun pending_children :: "lazy_context \<Rightarrow> string \<Rightarrow> (string + tree_entry) list \<Rightarrow> string + (string \<times> pending_kind) list" where
  "pending_children ctx prefix [] = Inr []"
| "pending_children ctx prefix (r # rs) =
     rbind (with_context ''decoding tree entry'' r) (\<lambda>e.
     rbind (pending_children ctx prefix rs) (\<lambda>rest.
       Inr ((case pending_child ctx prefix e of Some c \<Rightarrow> [c] | None \<Rightarrow> []) @ rest)))"

fun add_child :: "nat \<Rightarrow> string \<times> pending_kind \<Rightarrow> vfs_state \<Rightarrow> vfs_state option" where
  "add_child parent (name, kind) st =
     (case alloc_inode st of (inode, st) \<Rightarrow>
        insert_child parent name inode
          (case kind of
             PendingDir tree_oid full_path \<Rightarrow> add_dir inode (Some \<lparr>ld_tree_oid = tree_oid, ld_path_prefix = full_path\<rparr>) st
           | PendingFile oid_hex \<Rightarrow> add_file inode oid_hex st))"

fun add_children :: "nat \<Rightarrow> (string \<times> pending_kind) list \<Rightarrow> vfs_state \<Rightarrow> vfs_state option" where
  "add_children parent [] st = Some st"
| "add_children parent (c # cs) st = Option.bind (add_child parent c st) (add_children parent cs)"

definition clear_lazy :: "nat \<Rightarrow> vfs_state \<Rightarrow> vfs_state" where
  "clear_lazy parent st =
     (case vs_dirs st parent of
        Some d \<Rightarrow> st\<lparr>vs_dirs := (vs_dirs st)(parent \<mapsto> d\<lparr>ds_lazy := None\<rparr>)\<rparr>
      | None \<Rightarrow> st)"

definition populate_dir_locked :: "lazy_context \<Rightarrow> nat \<Rightarrow> vfs_state \<Rightarrow> (string + vfs_state) option" where
  "populate_dir_locked ctx parent st =
     (case Option.bind (vs_dirs st parent) ds_lazy of
        None \<Rightarrow> Some (Inr st)
      | Some l \<Rightarrow>
          (case lc_load ctx (ld_tree_oid l) of
             None \<Rightarrow> None
           | Some loaded \<Rightarrow>
               (case rbind (with_context (''loading tree object '' @ ld_tree_oid l) loaded)
                       (pending_children ctx (ld_path_prefix l)) of
                  Inl e \<Rightarrow> Some (Inl e)
                | Inr pending \<Rightarrow> map_option (\<lambda>st. Inr (clear_lazy parent st)) (add_children parent pending st))))"

definition populate_if_lazy :: "lazy_context option \<Rightarrow> nat \<Rightarrow> vfs_state \<Rightarrow> vfs_state option" where
  "populate_if_lazy lazy parent st =
     (case lazy of
        None \<Rightarrow> Some st
      | Some ctx \<Rightarrow>
          if Option.bind (vs_dirs st parent) ds_lazy = None then Some st
          else (case populate_dir_locked ctx parent st of
                  None \<Rightarrow> None
                | Some (Inl e) \<Rightarrow> Some (clear_lazy parent st)
                | Some (Inr st') \<Rightarrow> Some st'))"

section \<open>Lookups\<close>

definition lookup_by_inode :: "nat \<Rightarrow> diff_vfs \<Rightarrow> node option" where
  "lookup_by_inode inode v = vs_nodes (dv_state v) inode"

definition lookup_child :: "nat \<Rightarrow> string \<Rightarrow> diff_vfs \<Rightarrow> (node option \<times> diff_vfs) option" where
  "lookup_child parent name v =
     map_option (\<lambda>st. (Option.bind (child_of st parent name) (vs_nodes st), v\<lparr>dv_state := st\<rparr>))
       (populate_if_lazy (dv_lazy v) parent (dv_state v))"

definition readdir :: "nat \<Rightarrow> diff_vfs \<Rightarrow> ((string \<times> node) list option \<times> diff_vfs) option" where
  "readdir parent v =
     map_option (\<lambda>st.
       (map_option (\<lambda>d. sort_key fst (List.map_filter (\<lambda>(name, inode). map_option (Pair name) (vs_nodes st inode)) (ds_children d)))
          (vs_dirs st parent), v\<lparr>dv_state := st\<rparr>))
       (populate_if_lazy (dv_lazy v) parent (dv_state v))"

section \<open>Paths\<close>

text \<open>The walk of both backends (\<open>backend/mod.rs\<close>), from a node over the components of a path.\<close>

fun lookup_from :: "node \<Rightarrow> string list \<Rightarrow> diff_vfs \<Rightarrow> (node option \<times> diff_vfs) option" where
  "lookup_from current [] v = Some (Some current, v)"
| "lookup_from current (c # cs) v =
     Option.bind (lookup_child (nd_inode current) c v) (\<lambda>(r, v).
       case r of None \<Rightarrow> Some (None, v) | Some child \<Rightarrow> lookup_from child cs v)"

definition path_components :: "string \<Rightarrow> string list" where
  "path_components path = filter (\<lambda>c. c \<noteq> []) (split_on (CHR ''/'') path)"

definition lookup_path :: "string \<Rightarrow> diff_vfs \<Rightarrow> (node option \<times> diff_vfs) option" where
  "lookup_path path v =
     (case lookup_by_inode ROOT_INODE v of
        None \<Rightarrow> Some (None, v)
      | Some root \<Rightarrow> lookup_from root (path_components path) v)"

end
