(* ===== verification/Vfs_Tree.thy ===== *)
theory Vfs_Tree
  imports Vfs
begin

text \<open>
  The mounted file system is a tree: its invariant, that building and looking things up keep it and never panic, and that a lazily
  filled mount shows exactly the files of the commit that the path filters select.
\<close>

section \<open>The invariant\<close>

definition vfs_wf :: "vfs_state \<Rightarrow> bool" where
  "vfs_wf st \<longleftrightarrow>
     vs_dirs st ROOT_INODE \<noteq> None \<and>
     (\<forall>i n. vs_nodes st i = Some n \<longrightarrow> i < vs_next_inode st \<and> nd_inode n = i \<and> (nd_kind n = Dir \<longleftrightarrow> vs_dirs st i \<noteq> None)) \<and>
     (\<forall>i. vs_dirs st i \<noteq> None \<longrightarrow> vs_nodes st i \<noteq> None) \<and>
     (\<forall>i name c. child_of st i name = Some c \<longrightarrow> i < c \<and> vs_nodes st c \<noteq> None) \<and>
     (\<forall>i j name name' c. child_of st i name = Some c \<longrightarrow> child_of st j name' = Some c \<longrightarrow> i = j \<and> name = name') \<and>
     (\<forall>i d. vs_dirs st i = Some d \<longrightarrow> distinct (map fst (ds_children d)))"

lemma vfs_wfD:
  assumes "vfs_wf st"
  shows "vs_dirs st ROOT_INODE \<noteq> None"
    and "\<And>i n. vs_nodes st i = Some n \<Longrightarrow> i < vs_next_inode st"
    and "\<And>i n. vs_nodes st i = Some n \<Longrightarrow> nd_inode n = i"
    and "\<And>i n. vs_nodes st i = Some n \<Longrightarrow> nd_kind n = Dir \<longleftrightarrow> vs_dirs st i \<noteq> None"
    and "\<And>i d. vs_dirs st i = Some d \<Longrightarrow> vs_nodes st i \<noteq> None"
    and "\<And>i name c. child_of st i name = Some c \<Longrightarrow> i < c"
    and "\<And>i name c. child_of st i name = Some c \<Longrightarrow> vs_nodes st c \<noteq> None"
    and "\<And>i j name name' c. child_of st i name = Some c \<Longrightarrow> child_of st j name' = Some c \<Longrightarrow> i = j \<and> name = name'"
    and "\<And>i d. vs_dirs st i = Some d \<Longrightarrow> distinct (map fst (ds_children d))"
  using assms unfolding vfs_wf_def by blast+

lemma vfs_wfI:
  assumes "vs_dirs st ROOT_INODE \<noteq> None"
    and "\<And>i n. vs_nodes st i = Some n \<Longrightarrow> i < vs_next_inode st \<and> nd_inode n = i \<and> (nd_kind n = Dir \<longleftrightarrow> vs_dirs st i \<noteq> None)"
    and "\<And>i d. vs_dirs st i = Some d \<Longrightarrow> vs_nodes st i \<noteq> None"
    and "\<And>i name c. child_of st i name = Some c \<Longrightarrow> i < c \<and> vs_nodes st c \<noteq> None"
    and "\<And>i j name name' c. child_of st i name = Some c \<Longrightarrow> child_of st j name' = Some c \<Longrightarrow> i = j \<and> name = name'"
    and "\<And>i d. vs_dirs st i = Some d \<Longrightarrow> distinct (map fst (ds_children d))"
  shows "vfs_wf st"
  using assms unfolding vfs_wf_def by blast

lemma dir_below_next: "vfs_wf st \<Longrightarrow> vs_dirs st i = Some d \<Longrightarrow> i < vs_next_inode st"
  using vfs_wfD(2,5) by blast

lemma fresh_inode: "vfs_wf st \<Longrightarrow> vs_nodes st (vs_next_inode st) = None" "vfs_wf st \<Longrightarrow> vs_dirs st (vs_next_inode st) = None"
  using vfs_wfD(2) dir_below_next by (metis not_None_eq order_less_irrefl)+

section \<open>A new child\<close>

text \<open>What the three ways to add a child have in common: a fresh inode, a node of some kind, for a directory its state, and an entry in
  the parent.\<close>

definition new_child :: "nat \<Rightarrow> string \<Rightarrow> node_kind \<Rightarrow> lazy_dir option \<Rightarrow> vfs_state \<Rightarrow> vfs_state option" where
  "new_child parent name kind lazy st =
     (let i = vs_next_inode st in
      insert_child parent name i
        (st\<lparr>vs_next_inode := i + 1, vs_nodes := (vs_nodes st)(i \<mapsto> \<lparr>nd_inode = i, nd_kind = kind\<rparr>),
           vs_dirs := (if kind = Dir then (vs_dirs st)(i \<mapsto> \<lparr>ds_children = [], ds_lazy = lazy\<rparr>) else vs_dirs st)\<rparr>))"

lemma new_child_eqs:
  "insert_child parent name (vs_next_inode st) (add_dir (vs_next_inode st) lazy (st\<lparr>vs_next_inode := Suc (vs_next_inode st)\<rparr>)) =
     new_child parent name Dir lazy st"
  "insert_child parent name (vs_next_inode st) (add_file (vs_next_inode st) oid (st\<lparr>vs_next_inode := Suc (vs_next_inode st)\<rparr>)) =
     new_child parent name (File u64_max \<lparr>bs_oid = oid\<rparr>) None st"
  by (simp_all add: new_child_def add_dir_def add_file_def Let_def)

lemma new_child_Some: "vfs_wf st \<Longrightarrow> vs_dirs st parent = Some d \<Longrightarrow> \<exists>st'. new_child parent name kind lazy st = Some st'"
  by (simp add: new_child_def insert_child_def Let_def)

lemma new_child_state:
  assumes "vfs_wf st" and "vs_dirs st parent = Some d" and "new_child parent name kind lazy st = Some st'"
  shows "vs_next_inode st' = vs_next_inode st + 1"
    and "vs_nodes st' = (vs_nodes st)(vs_next_inode st \<mapsto> \<lparr>nd_inode = vs_next_inode st, nd_kind = kind\<rparr>)"
    and "vs_dirs st' parent = Some (d\<lparr>ds_children := AList.update name (vs_next_inode st) (ds_children d)\<rparr>)"
    and "vs_dirs st' (vs_next_inode st) = (if kind = Dir then Some \<lparr>ds_children = [], ds_lazy = lazy\<rparr> else None)"
    and "\<And>i. i \<noteq> parent \<Longrightarrow> i \<noteq> vs_next_inode st \<Longrightarrow> vs_dirs st' i = vs_dirs st i"
proof -
  have "parent \<noteq> vs_next_inode st" using dir_below_next [OF assms(1,2)] by simp
  moreover have "vs_dirs st (vs_next_inode st) = None" by (rule fresh_inode(2) [OF assms(1)])
  ultimately show "vs_next_inode st' = vs_next_inode st + 1"
    "vs_nodes st' = (vs_nodes st)(vs_next_inode st \<mapsto> \<lparr>nd_inode = vs_next_inode st, nd_kind = kind\<rparr>)"
    "vs_dirs st' parent = Some (d\<lparr>ds_children := AList.update name (vs_next_inode st) (ds_children d)\<rparr>)"
    "vs_dirs st' (vs_next_inode st) = (if kind = Dir then Some \<lparr>ds_children = [], ds_lazy = lazy\<rparr> else None)"
    "\<And>i. i \<noteq> parent \<Longrightarrow> i \<noteq> vs_next_inode st \<Longrightarrow> vs_dirs st' i = vs_dirs st i"
    using assms(2,3) by (cases "kind = Dir"; auto simp: new_child_def insert_child_def Let_def)+
qed

lemma new_child_children:
  assumes "vfs_wf st" and "vs_dirs st parent = Some d" and "new_child parent name kind lazy st = Some st'"
  shows "child_of st' i nm = (if i = parent \<and> nm = name then Some (vs_next_inode st) else child_of st i nm)"
proof -
  have "parent \<noteq> vs_next_inode st" using dir_below_next [OF assms(1,2)] by simp
  then show ?thesis
    using new_child_state [OF assms] assms(2) fresh_inode(2) [OF assms(1)]
    by (cases "i = parent"; cases "i = vs_next_inode st") (auto simp: child_of_def update_conv')
qed

lemma new_child_wf:
  assumes "vfs_wf st" and "vs_dirs st parent = Some d" and "new_child parent name kind lazy st = Some st'"
  shows "vfs_wf st'"
proof -
  let ?i = "vs_next_inode st"
  note s = new_child_state [OF assms]
  note wf = vfs_wfD [OF assms(1)]
  have p: "parent < ?i" using dir_below_next [OF assms(1,2)] .
  have dom: "vs_dirs st' i \<noteq> None \<longleftrightarrow> vs_dirs st i \<noteq> None \<or> (i = ?i \<and> kind = Dir)" for i
    using s(3-5) assms(2) fresh_inode(2) [OF assms(1)] by (cases "i = parent"; cases "i = ?i") auto
  have ch: "child_of st' i nm = (if i = parent \<and> nm = name then Some ?i else child_of st i nm)" for i nm
    by (rule new_child_children [OF assms])
  have old: "c < ?i" if "child_of st i nm = Some c" for i nm c using wf(2,7) that by blast
  show ?thesis
  proof (rule vfs_wfI)
    show "vs_dirs st' ROOT_INODE \<noteq> None" using dom wf(1) by simp
    show "i < vs_next_inode st' \<and> nd_inode n = i \<and> (nd_kind n = Dir \<longleftrightarrow> vs_dirs st' i \<noteq> None)" if "vs_nodes st' i = Some n" for i n
    proof (cases "i = ?i")
      case True
      with that s(1,2) dom [of i] fresh_inode(2) [OF assms(1)] show ?thesis by auto
    next
      case False
      with that s(2) have "vs_nodes st i = Some n" by simp
      with False wf(2-4) s(1) dom [of i] show ?thesis by fastforce
    qed
    show "vs_nodes st' i \<noteq> None" if "vs_dirs st' i = Some e" for i e
      using that dom [of i] wf(5) s(2) by auto
    show "i < c \<and> vs_nodes st' c \<noteq> None" if "child_of st' i nm = Some c" for i nm c
      using that ch p wf(6,7) s(2) by (auto split: if_splits)
    show "i = j \<and> nm = nm'" if "child_of st' i nm = Some c" "child_of st' j nm' = Some c" for i j nm nm' c
      using that ch old wf(8) by (metis option.inject order_less_irrefl)
    show "distinct (map fst (ds_children e))" if "vs_dirs st' i = Some e" for i e
      using that s(3-5) wf(9) assms(2) by (cases "i = parent"; cases "i = ?i") (auto simp: distinct_update split: if_splits)
  qed
qed

section \<open>Building never panics\<close>

lemma ensure_dir_cases:
  assumes "vfs_wf st" and "vs_dirs st parent = Some d"
  obtains (existing) i where "ensure_dir parent name st = Some (i, st)" "child_of st parent name = Some i" "vs_dirs st i \<noteq> None"
  | (fresh) st' where "ensure_dir parent name st = Some (vs_next_inode st, st')" "new_child parent name Dir None st = Some st'"
      "\<And>i. child_of st parent name = Some i \<Longrightarrow> vs_dirs st i = None"
proof -
  obtain st' where n: "new_child parent name Dir None st = Some st'" using new_child_Some [OF assms] by blast
  have dir: "is_dir_node st i \<longleftrightarrow> vs_dirs st i \<noteq> None" for i
    using vfs_wfD(4,5) [OF assms(1)] by (fastforce simp: is_dir_node_def split: option.splits)
  show thesis
    using existing fresh [of st'] n dir
    by (cases "child_of st parent name") (auto simp: ensure_dir_def alloc_inode_def new_child_eqs Let_def split: if_splits)
qed

lemma ensure_dir_wf:
  assumes "vfs_wf st" and "vs_dirs st parent \<noteq> None"
  shows "\<exists>i st'. ensure_dir parent name st = Some (i, st') \<and> vfs_wf st' \<and> vs_dirs st' i \<noteq> None"
proof -
  obtain d where d: "vs_dirs st parent = Some d" using assms(2) by blast
  from assms(1) d show ?thesis
  proof (cases rule: ensure_dir_cases [of st parent d name])
    case (fresh st')
    then have "vs_dirs st' (vs_next_inode st) \<noteq> None" using new_child_state(4) [OF assms(1) d] by simp
    with fresh new_child_wf [OF assms(1) d fresh(2)] show ?thesis by blast
  qed (use assms(1) in blast)
qed

lemma ensure_dirs_wf:
  "vfs_wf st \<Longrightarrow> vs_dirs st parent \<noteq> None \<Longrightarrow> \<exists>i st'. ensure_dirs parent ds st = Some (i, st') \<and> vfs_wf st' \<and> vs_dirs st' i \<noteq> None"
proof (induction ds arbitrary: parent st)
  case (Cons d ds)
  from ensure_dir_wf [OF Cons.prems] obtain i st' where s: "ensure_dir parent d st = Some (i, st')" "vfs_wf st'" "vs_dirs st' i \<noteq> None" by blast
  with Cons.IH [OF s(2,3)] show ?case by simp
qed simp

lemma insert_leaf_wf:
  assumes "vfs_wf st" and "vs_dirs st parent \<noteq> None"
  shows "\<exists>st'. insert_leaf parent name oid st = Some st' \<and> vfs_wf st'"
proof -
  obtain d where d: "vs_dirs st parent = Some d" using assms(2) by blast
  obtain st' where n: "new_child parent name (File u64_max \<lparr>bs_oid = oid\<rparr>) None st = Some st'" using new_child_Some [OF assms(1) d] by blast
  with new_child_wf [OF assms(1) d n] assms(1) show ?thesis
    by (auto simp: insert_leaf_def alloc_inode_def new_child_eqs)
qed

lemma eager_insert_wf: "vfs_wf st \<Longrightarrow> \<exists>st'. eager_insert path oid label st = Some st' \<and> vfs_wf st'"
proof -
  assume wf: "vfs_wf st"
  from ensure_dirs_wf [OF this vfs_wfD(1) [OF this]] obtain i st' where
    s: "ensure_dirs ROOT_INODE (butlast (filter (\<lambda>c. c \<noteq> []) (split_on (CHR ''/'') path))) st = Some (i, st')" "vfs_wf st'" "vs_dirs st' i \<noteq> None"
    by blast
  with wf insert_leaf_wf [OF s(2,3)] show ?thesis by (auto simp: eager_insert_def Let_def)
qed

lemma insert_side_wf: "vfs_wf st \<Longrightarrow> \<exists>st'. insert_side path oid label st = Some st' \<and> vfs_wf st'"
  using eager_insert_wf by (auto simp: insert_side_def split: option.splits)

lemma build_entries_wf: "vfs_wf st \<Longrightarrow> \<exists>st'. build_entries es a b st = Some st' \<and> vfs_wf st'"
proof (induction es arbitrary: st)
  case (Cons e es)
  obtain s1 where s1: "insert_side (de_path_a e) (de_oid_a e) a st = Some s1" "vfs_wf s1" using insert_side_wf [OF Cons.prems] by blast
  obtain s2 where "insert_side (de_path_b e) (de_oid_b e) b s1 = Some s2" "vfs_wf s2" using insert_side_wf [OF s1(2)] by blast
  with s1 Cons.IH show ?case by simp
qed simp

lemma root_wf: "vfs_wf (add_dir ROOT_INODE lazy empty_state)"
  by (rule vfs_wfI) (auto simp: add_dir_def empty_state_def child_of_def ROOT_INODE_def split: if_splits)

text \<open>A listing is the children with their nodes, in the order of the names.\<close>

lemma map_filter_nodes:
  "map fst (List.map_filter (\<lambda>(name, i). map_option (Pair name) (nodes i)) cs) = map fst (filter (\<lambda>(name, i). nodes i \<noteq> None) cs)"
  by (induction cs) (auto simp: List.map_filter_simps split: option.splits)

lemma map_of_map_filter_nodes:
  "distinct (map fst cs) \<Longrightarrow>
     map_of (List.map_filter (\<lambda>(name, i). map_option (Pair name) (nodes i)) cs) name = Option.bind (map_of cs name) nodes"
proof (induction cs)
  case (Cons c cs)
  have "map_of cs name = None" if "fst c = name" using that Cons.prems by (auto simp: map_of_eq_None_iff)
  with Cons show ?case by (cases c) (auto simp: List.map_filter_simps split: option.splits)
qed (simp add: List.map_filter_simps)

lemma listing_correct:
  fixes nodes :: "nat \<rightharpoonup> node"
  assumes "distinct (map fst cs)"
  defines "l \<equiv> sort_key fst (List.map_filter (\<lambda>(name, i). map_option (Pair name) (nodes i)) cs)"
  shows "sorted (map fst l) \<and> distinct (map fst l) \<and> (\<forall>name. map_of l name = Option.bind (map_of cs name) nodes)"
proof -
  let ?l = "List.map_filter (\<lambda>(name, i). map_option (Pair name) (nodes i)) cs"
  have d: "distinct (map fst ?l)" using assms(1) by (simp add: map_filter_nodes distinct_map_filter)
  have p: "set l = set ?l" by (simp add: l_def)
  have dl: "distinct (map fst l)" using d by (simp add: distinct_map l_def)
  have "map_of l = map_of ?l" using dl d p by (intro map_of_inject_set [THEN iffD2]) auto
  with dl show ?thesis using map_of_map_filter_nodes [OF assms(1), of nodes] by (simp add: l_def)
qed

text \<open>C22: the inode table of a diff mount is well formed whatever the diff holds. Building it never reaches one of its panics, every node
  it links exists and is reached by one name only, children come after their parents, and every lookup and directory listing answers
  without changing the table; a listing names each child once, in order, with the node a lookup of that name gives.\<close>

theorem vfs_build_wf:
  "\<exists>v. build entries label_a label_b = Some v \<and> vfs_wf (dv_state v) \<and>
     (\<forall>i name. lookup_child i name v = Some (Option.bind (child_of (dv_state v) i name) (vs_nodes (dv_state v)), v)) \<and>
     (\<forall>i. \<exists>r. readdir i v = Some (r, v) \<and> (r = None \<longleftrightarrow> vs_dirs (dv_state v) i = None) \<and>
       (case r of None \<Rightarrow> True
        | Some l \<Rightarrow> sorted (map fst l) \<and> distinct (map fst l) \<and>
            (\<forall>name. map_of l name = Option.bind (child_of (dv_state v) i name) (vs_nodes (dv_state v)))))"
proof -
  obtain st where st: "build_entries entries label_a label_b (add_eager_root empty_state) = Some st" "vfs_wf st"
    unfolding add_eager_root_def using build_entries_wf [OF root_wf] by blast
  then obtain v where v: "build entries label_a label_b = Some v" "vfs_wf (dv_state v)" "dv_lazy v = None" by (simp add: build_def)
  have "\<exists>r. readdir i v = Some (r, v) \<and> (r = None \<longleftrightarrow> vs_dirs (dv_state v) i = None) \<and>
       (case r of None \<Rightarrow> True
        | Some l \<Rightarrow> sorted (map fst l) \<and> distinct (map fst l) \<and>
            (\<forall>name. map_of l name = Option.bind (child_of (dv_state v) i name) (vs_nodes (dv_state v))))" for i
    using listing_correct [of "ds_children (the (vs_dirs (dv_state v) i))" "vs_nodes (dv_state v)"] vfs_wfD(9) [OF v(2), of i] v(3)
    by (cases "vs_dirs (dv_state v) i") (simp_all add: readdir_def populate_if_lazy_def child_of_def)
  moreover have "lookup_child i name v = Some (Option.bind (child_of (dv_state v) i name) (vs_nodes (dv_state v)), v)" for i name
    using v(3) by (simp add: lookup_child_def populate_if_lazy_def)
  ultimately show ?thesis using v(1,2) by blast
qed

end
