(* ===== verification/Vfs_Lazy.thy ===== *)
theory Vfs_Lazy
  imports Vfs_Tree
begin

text \<open>
  A lazily filled mount against the commit it shows: the abstract view of a tree, the relation between it and the inodes, and that every
  lookup keeps the relation.
\<close>

section \<open>What a directory shows\<close>

text \<open>The children a tree contributes, if it can be read; of two entries with one name the later.\<close>

definition visible :: "lazy_context \<Rightarrow> string \<Rightarrow> string \<Rightarrow> string \<Rightarrow> pending_kind option" where
  "visible ctx t prefix name =
     (case lc_load ctx t of
        Some (Inr rs) \<Rightarrow> (case pending_children ctx prefix rs of Inr ps \<Rightarrow> map_of (rev ps) name | Inl _ \<Rightarrow> None)
      | _ \<Rightarrow> None)"

fun tree_lookup :: "lazy_context \<Rightarrow> pending_kind \<Rightarrow> string list \<Rightarrow> pending_kind option" where
  "tree_lookup ctx k [] = Some k"
| "tree_lookup ctx (PendingFile i) (n # ns) = None"
| "tree_lookup ctx (PendingDir t p) (n # ns) = Option.bind (visible ctx t p n) (\<lambda>k. tree_lookup ctx k ns)"

text \<open>The trees below a commit.\<close>

inductive subtree :: "lazy_context \<Rightarrow> string \<Rightarrow> string \<Rightarrow> bool" for ctx root where
  top: "subtree ctx root root"
| below: "subtree ctx root t \<Longrightarrow> lc_load ctx t = Some (Inr rs) \<Longrightarrow> Inr e \<in> set rs \<Longrightarrow> te_mode e = TreeMode \<Longrightarrow> subtree ctx root (te_oid e)"

lemma pending_children_from:
  "pending_children ctx prefix rs = Inr ps \<Longrightarrow> c \<in> set ps \<Longrightarrow> \<exists>e. Inr e \<in> set rs \<and> pending_child ctx prefix e = Some c"
proof (induction rs arbitrary: ps)
  case (Cons r rs)
  then obtain e rest where e: "r = Inr e" "pending_children ctx prefix rs = Inr rest"
    "ps = (case pending_child ctx prefix e of Some c \<Rightarrow> [c] | None \<Rightarrow> []) @ rest"
    by (auto simp: rbind_eq_Inr rmap_err_eq_Inr with_context_def)
  show ?case
  proof (cases "c \<in> set rest")
    case True
    with Cons.IH [OF e(2)] show ?thesis by auto
  next
    case False
    with Cons.prems(2) e(1,3) show ?thesis by (auto split: option.splits)
  qed
qed simp

lemma pending_child_dir: "pending_child ctx prefix e = Some (name, PendingDir t p) \<Longrightarrow> te_mode e = TreeMode \<and> te_oid e = t"
  by (auto simp: pending_child_def Let_def split: entry_mode.splits if_splits)

section \<open>The relation\<close>

text \<open>\<open>org\<close> gives for every directory the tree and the path it stands for.\<close>

fun shows_as :: "vfs_state \<Rightarrow> (nat \<rightharpoonup> string \<times> string) \<Rightarrow> pending_kind \<Rightarrow> nat \<Rightarrow> bool" where
  "shows_as st org (PendingDir t p) c \<longleftrightarrow> org c = Some (t, p)"
| "shows_as st org (PendingFile i) c \<longleftrightarrow> vs_nodes st c = Some \<lparr>nd_inode = c, nd_kind = File u64_max \<lparr>bs_oid = i\<rparr>\<rparr>"

definition dir_shows :: "vfs_state \<Rightarrow> (nat \<rightharpoonup> string \<times> string) \<Rightarrow> (string \<rightharpoonup> pending_kind) \<Rightarrow> dir_state \<Rightarrow> bool" where
  "dir_shows st org v d \<longleftrightarrow> (\<forall>name. rel_option (shows_as st org) (v name) (map_of (ds_children d) name))"

definition dir_ok :: "lazy_context \<Rightarrow> vfs_state \<Rightarrow> (nat \<rightharpoonup> string \<times> string) \<Rightarrow> nat \<Rightarrow> bool" where
  "dir_ok ctx st org i \<longleftrightarrow>
     (\<forall>d t p. vs_dirs st i = Some d \<longrightarrow> org i = Some (t, p) \<longrightarrow>
        (case ds_lazy d of
           Some l \<Rightarrow> l = \<lparr>ld_tree_oid = t, ld_path_prefix = p\<rparr> \<and> ds_children d = []
         | None \<Rightarrow> dir_shows st org (visible ctx t p) d))"

definition lazy_frame :: "(string \<Rightarrow> bool) \<Rightarrow> vfs_state \<Rightarrow> (nat \<rightharpoonup> string \<times> string) \<Rightarrow> bool" where
  "lazy_frame P st org \<longleftrightarrow> vfs_wf st \<and> dom org = dom (vs_dirs st) \<and> (\<forall>i t p. org i = Some (t, p) \<longrightarrow> P t)"

definition lazy_ok :: "lazy_context \<Rightarrow> string \<Rightarrow> vfs_state \<Rightarrow> (nat \<rightharpoonup> string \<times> string) \<Rightarrow> bool" where
  "lazy_ok ctx root st org \<longleftrightarrow> lazy_frame (subtree ctx root) st org \<and> org ROOT_INODE = Some (root, []) \<and> (\<forall>i. dir_ok ctx st org i)"

lemma shows_as_mono:
  assumes "vs_nodes st \<subseteq>\<^sub>m vs_nodes st'" and "org \<subseteq>\<^sub>m org'"
  shows "shows_as st org k c \<Longrightarrow> shows_as st' org' k c"
  using assms by (cases k) (auto simp: map_le_def dom_def)

lemma dir_shows_mono:
  assumes "dir_shows st org v d" and "vs_nodes st \<subseteq>\<^sub>m vs_nodes st'" and "org \<subseteq>\<^sub>m org'"
  shows "dir_shows st' org' v d"
  unfolding dir_shows_def
proof
  fix name
  have "rel_option (shows_as st org) (v name) (map_of (ds_children d) name)" using assms(1) by (simp add: dir_shows_def)
  then show "rel_option (shows_as st' org') (v name) (map_of (ds_children d) name)"
    using shows_as_mono [OF assms(2,3)] by (cases rule: option.rel_cases) auto
qed

lemma dir_okD:
  "dir_ok ctx st org i \<Longrightarrow> vs_dirs st i = Some d \<Longrightarrow> org i = Some (t, p) \<Longrightarrow> ds_lazy d = None \<Longrightarrow> dir_shows st org (visible ctx t p) d"
  by (auto simp: dir_ok_def split: option.splits)

lemma dir_ok_mono:
  assumes "dir_ok ctx st org i" and "vs_nodes st \<subseteq>\<^sub>m vs_nodes st'" and "org \<subseteq>\<^sub>m org'" and "vs_dirs st' i = vs_dirs st i"
    and "dom org = dom (vs_dirs st)"
  shows "dir_ok ctx st' org' i"
  unfolding dir_ok_def
proof (intro allI impI)
  fix d t p
  assume d: "vs_dirs st' i = Some d" and o: "org' i = Some (t, p)"
  then have "i \<in> dom org" using assms(4,5) by auto
  with o assms(3) have "org i = Some (t, p)" by (metis map_le_def)
  with d assms(1,4) have "case ds_lazy d of
      Some l \<Rightarrow> l = \<lparr>ld_tree_oid = t, ld_path_prefix = p\<rparr> \<and> ds_children d = []
    | None \<Rightarrow> dir_shows st org (visible ctx t p) d" by (simp add: dir_ok_def)
  then show "case ds_lazy d of
      Some l \<Rightarrow> l = \<lparr>ld_tree_oid = t, ld_path_prefix = p\<rparr> \<and> ds_children d = []
    | None \<Rightarrow> dir_shows st' org' (visible ctx t p) d"
    using dir_shows_mono [OF _ assms(2,3)] by (cases "ds_lazy d") auto
qed

section \<open>Filling a directory\<close>

definition child_org :: "pending_kind \<Rightarrow> (nat \<rightharpoonup> string \<times> string) \<Rightarrow> nat \<Rightarrow> (nat \<rightharpoonup> string \<times> string)" where
  "child_org k org i = (case k of PendingDir t p \<Rightarrow> org(i \<mapsto> (t, p)) | PendingFile _ \<Rightarrow> org)"

fun pending_node :: "pending_kind \<Rightarrow> node_kind \<times> lazy_dir option" where
  "pending_node (PendingDir t p) = (Dir, Some \<lparr>ld_tree_oid = t, ld_path_prefix = p\<rparr>)"
| "pending_node (PendingFile i) = (File u64_max \<lparr>bs_oid = i\<rparr>, None)"

lemma add_child_new: "add_child parent (name, k) st = new_child parent name (fst (pending_node k)) (snd (pending_node k)) st"
  by (cases k) (simp_all add: alloc_inode_def new_child_eqs)

declare add_child.simps [simp del]

lemma add_child_frame:
  assumes "lazy_frame P st org" and "vs_dirs st parent = Some d" and "ds_lazy d = Some l"
    and "dir_shows st org (map_of ready) d" and "\<And>i. i \<noteq> parent \<Longrightarrow> dir_ok ctx st org i" and "\<forall>t p. k = PendingDir t p \<longrightarrow> P t"
  shows "\<exists>st' d'. add_child parent (name, k) st = Some st' \<and> vs_dirs st' parent = Some d' \<and> ds_lazy d' = Some l \<and>
    (let org' = child_org k org (vs_next_inode st) in
       lazy_frame P st' org' \<and> org \<subseteq>\<^sub>m org' \<and> vs_nodes st \<subseteq>\<^sub>m vs_nodes st' \<and> dir_shows st' org' (map_of ((name, k) # ready)) d' \<and>
       (\<forall>i. i \<noteq> parent \<longrightarrow> dir_ok ctx st' org' i))"
proof -
  let ?i = "vs_next_inode st"
  let ?org = "child_org k org ?i"
  let ?d = "d\<lparr>ds_children := AList.update name ?i (ds_children d)\<rparr>"
  have wf: "vfs_wf st" and dom: "dom org = dom (vs_dirs st)" using assms(1) by (simp_all add: lazy_frame_def)
  obtain st' where n: "new_child parent name (fst (pending_node k)) (snd (pending_node k)) st = Some st'"
    using new_child_Some [OF wf assms(2)] by blast
  note s = new_child_state [OF wf assms(2) n]
  have fresh: "vs_nodes st ?i = None" "vs_dirs st ?i = None" "org ?i = None" "parent \<noteq> ?i"
    using fresh_inode [OF wf] dom dir_below_next [OF wf assms(2)] by auto
  have dirs: "vs_dirs st' j \<noteq> None \<longleftrightarrow> vs_dirs st j \<noteq> None \<or> (j = ?i \<and> fst (pending_node k) = Dir)" for j
    using s(3-5) assms(2) fresh(2) by (cases "j = parent"; cases "j = ?i") auto
  have "dom ?org = dom (vs_dirs st')" using dom dirs fresh(3) by (cases k) (auto simp: child_org_def dom_def)
  moreover have "P t" if "?org i = Some (t, p)" for i t p
    using that assms(1,6) by (cases k) (auto simp: child_org_def lazy_frame_def split: if_splits)
  ultimately have frame: "lazy_frame P st' ?org" using new_child_wf [OF wf assms(2) n] by (simp add: lazy_frame_def)
  have nodes: "vs_nodes st \<subseteq>\<^sub>m vs_nodes st'" using s(2) fresh(1) by (auto simp: map_le_def dom_def)
  have org: "org \<subseteq>\<^sub>m ?org" using fresh(3) by (auto simp: child_org_def map_le_def dom_def split: pending_kind.splits)
  have new: "shows_as st' ?org k ?i" using s(2) by (cases k) (auto simp: child_org_def)
  have "dir_shows st' ?org (map_of ((name, k) # ready)) ?d"
    using dir_shows_mono [OF assms(4) nodes org] new by (auto simp: dir_shows_def update_conv')
  moreover have "dir_ok ctx st' ?org j" if "j \<noteq> parent" for j
  proof (cases "j = ?i")
    case True
    with s(4) show ?thesis by (cases k) (auto simp: dir_ok_def child_org_def)
  next
    case False
    with that s(5) show ?thesis by (intro dir_ok_mono [OF assms(5) [OF that] nodes org _ dom]) simp
  qed
  ultimately show ?thesis using n s(3) frame nodes org assms(3) by (simp add: add_child_new Let_def)
qed

lemma add_children_frame:
  assumes "lazy_frame P st org" and "vs_dirs st parent = Some d" and "ds_lazy d = Some l"
    and "dir_shows st org (map_of ready) d" and "\<And>i. i \<noteq> parent \<Longrightarrow> dir_ok ctx st org i"
    and "\<forall>name t p. (name, PendingDir t p) \<in> set cs \<longrightarrow> P t"
  shows "\<exists>st' d' org'. add_children parent cs st = Some st' \<and> vs_dirs st' parent = Some d' \<and> ds_lazy d' = Some l \<and>
     lazy_frame P st' org' \<and> org \<subseteq>\<^sub>m org' \<and> vs_nodes st \<subseteq>\<^sub>m vs_nodes st' \<and> dir_shows st' org' (map_of (rev cs @ ready)) d' \<and>
     (\<forall>i. i \<noteq> parent \<longrightarrow> dir_ok ctx st' org' i)"
  using assms
proof (induction cs arbitrary: st org d ready)
  case Nil
  then show ?case by (auto intro!: exI [of _ org] simp: map_le_def)
next
  case (Cons c cs)
  obtain name k where c: "c = (name, k)" by fastforce
  have P: "\<forall>t p. k = PendingDir t p \<longrightarrow> P t" and Ps: "\<forall>name t p. (name, PendingDir t p) \<in> set cs \<longrightarrow> P t"
    using Cons.prems(6) c by auto
  from add_child_frame [where name = name and k = k, OF Cons.prems(1-5) P] obtain st1 d1 where
    s1: "add_child parent (name, k) st = Some st1" "vs_dirs st1 parent = Some d1" "ds_lazy d1 = Some l"
    and o1: "lazy_frame P st1 (child_org k org (vs_next_inode st))" "org \<subseteq>\<^sub>m child_org k org (vs_next_inode st)" "vs_nodes st \<subseteq>\<^sub>m vs_nodes st1"
      "dir_shows st1 (child_org k org (vs_next_inode st)) (map_of ((name, k) # ready)) d1"
      "\<And>i. i \<noteq> parent \<Longrightarrow> dir_ok ctx st1 (child_org k org (vs_next_inode st)) i" by (auto simp: Let_def)
  from Cons.IH [OF o1(1) s1(2,3) o1(4,5) Ps] obtain st' d' org' where r:
    "add_children parent cs st1 = Some st'" "vs_dirs st' parent = Some d'" "ds_lazy d' = Some l" "lazy_frame P st' org'"
    "child_org k org (vs_next_inode st) \<subseteq>\<^sub>m org'" "vs_nodes st1 \<subseteq>\<^sub>m vs_nodes st'"
    "dir_shows st' org' (map_of (rev cs @ (name, k) # ready)) d'" "\<forall>i. i \<noteq> parent \<longrightarrow> dir_ok ctx st' org' i" by blast
  have "org \<subseteq>\<^sub>m org'" "vs_nodes st \<subseteq>\<^sub>m vs_nodes st'" using map_le_trans [OF o1(2) r(5)] map_le_trans [OF o1(3) r(6)] by simp_all
  with r s1(1) c show ?case by (intro exI [of _ st'] exI [of _ d'] exI [of _ org']) simp
qed

text \<open>Clearing the flag of a directory changes nothing but its own state.\<close>

lemma clear_lazy_state:
  assumes "vs_dirs st parent = Some d"
  shows "vs_nodes (clear_lazy parent st) = vs_nodes st" "vs_next_inode (clear_lazy parent st) = vs_next_inode st"
    "vs_dirs (clear_lazy parent st) = (vs_dirs st)(parent \<mapsto> d\<lparr>ds_lazy := None\<rparr>)"
  using assms by (simp_all add: clear_lazy_def)

lemma clear_lazy_frame:
  assumes "lazy_frame P st org" and "vs_dirs st parent = Some d"
  shows "lazy_frame P (clear_lazy parent st) org"
proof -
  note c = clear_lazy_state [OF assms(2)]
  have wf: "vfs_wf st" using assms(1) by (simp add: lazy_frame_def)
  have ch: "child_of (clear_lazy parent st) i name = child_of st i name" for i name
    using assms(2) c(3) by (simp add: child_of_def)
  have dirs: "vs_dirs (clear_lazy parent st) i \<noteq> None \<longleftrightarrow> vs_dirs st i \<noteq> None" for i using c(3) assms(2) by simp
  have "vfs_wf (clear_lazy parent st)"
    using vfs_wfD [OF wf] assms(2) by (intro vfs_wfI) (auto simp: ch c split: if_splits)
  moreover have "dom org = dom (vs_dirs (clear_lazy parent st))" using assms dirs by (auto simp: lazy_frame_def dom_def)
  ultimately show ?thesis using assms(1) by (simp add: lazy_frame_def)
qed

lemma clear_lazy_ok:
  assumes "lazy_frame (subtree ctx root) st org" and "vs_dirs st parent = Some d" and "org parent = Some (t, p)" and "org ROOT_INODE = Some (root, [])"
    and "dir_shows st org (visible ctx t p) d" and "\<And>i. i \<noteq> parent \<Longrightarrow> dir_ok ctx st org i"
  shows "lazy_ok ctx root (clear_lazy parent st) org"
proof -
  note c = clear_lazy_state [OF assms(2)]
  have le: "vs_nodes st \<subseteq>\<^sub>m vs_nodes (clear_lazy parent st)" "org \<subseteq>\<^sub>m org" using c(1) by simp_all
  have dom: "dom org = dom (vs_dirs st)" using assms(1) by (simp add: lazy_frame_def)
  have "dir_ok ctx (clear_lazy parent st) org i" for i
  proof (cases "i = parent")
    case True
    have "dir_shows (clear_lazy parent st) org (visible ctx t p) (d\<lparr>ds_lazy := None\<rparr>)"
      using dir_shows_mono [OF assms(5) le] by (simp add: dir_shows_def)
    with True assms(3) c(3) show ?thesis by (simp add: dir_ok_def)
  next
    case False
    with c(3) show ?thesis by (intro dir_ok_mono [OF assms(6) [OF False] le _ dom]) simp
  qed
  then show ?thesis using clear_lazy_frame [OF assms(1,2)] assms(4) by (simp add: lazy_ok_def)
qed

lemma populate_ok:
  assumes "lazy_ok ctx root st org" and "\<And>t. subtree ctx root t \<Longrightarrow> lc_load ctx t \<noteq> None"
  shows "\<exists>st' org'. populate_if_lazy (Some ctx) parent st = Some st' \<and> lazy_ok ctx root st' org' \<and> org \<subseteq>\<^sub>m org' \<and>
    vs_nodes st \<subseteq>\<^sub>m vs_nodes st' \<and> Option.bind (vs_dirs st' parent) ds_lazy = None"
proof (cases "Option.bind (vs_dirs st parent) ds_lazy")
  case None
  with assms(1) show ?thesis by (auto simp: populate_if_lazy_def intro!: exI [of _ org])
next
  case (Some l)
  then obtain d where d: "vs_dirs st parent = Some d" "ds_lazy d = Some l" by (cases "vs_dirs st parent") auto
  have frame: "lazy_frame (subtree ctx root) st org" and root: "org ROOT_INODE = Some (root, [])" and ok: "\<And>i. dir_ok ctx st org i"
    using assms(1) by (simp_all add: lazy_ok_def)
  have "parent \<in> dom org" using frame d(1) by (auto simp: lazy_frame_def)
  then obtain t p where o: "org parent = Some (t, p)" by force
  then have l: "l = \<lparr>ld_tree_oid = t, ld_path_prefix = p\<rparr>" "ds_children d = []" using ok [of parent] d by (auto simp: dir_ok_def)
  have sub: "subtree ctx root t" using frame o by (auto simp: lazy_frame_def)
  then obtain loaded where ld: "lc_load ctx t = Some loaded" using assms(2) by blast
  show ?thesis
  proof (cases "rbind (with_context (''loading tree object '' @ t) loaded) (pending_children ctx p)")
    case (Inl e)
    then have "visible ctx t p = Map.empty"
      using ld by (cases loaded) (simp_all add: visible_def with_context_def fun_eq_iff)
    then have "dir_shows st org (visible ctx t p) d" using l(2) by (simp add: dir_shows_def)
    from clear_lazy_ok [OF frame d(1) o root this ok] Inl ld l(1) d show ?thesis
      by (auto simp: populate_if_lazy_def populate_dir_locked_def clear_lazy_def intro!: exI [of _ org])
  next
    case (Inr pending)
    then have v: "visible ctx t p = map_of (rev pending)"
      using ld by (auto simp: visible_def with_context_def rbind_eq_Inr rmap_err_eq_Inr)
    have "\<forall>name t' p'. (name, PendingDir t' p') \<in> set pending \<longrightarrow> subtree ctx root t'"
    proof (intro allI impI)
      fix name t' p'
      assume c: "(name, PendingDir t' p') \<in> set pending"
      obtain rs where rs: "loaded = Inr rs" "pending_children ctx p rs = Inr pending"
        using Inr by (auto simp: with_context_def rbind_eq_Inr rmap_err_eq_Inr)
      from pending_children_from [OF rs(2) c] pending_child_dir show "subtree ctx root t'" using subtree.below [OF sub] ld rs(1) by blast
    qed
    moreover have "dir_shows st org (map_of []) d" using l(2) by (simp add: dir_shows_def)
    ultimately obtain st' d' org' where
      a: "add_children parent pending st = Some st'" "vs_dirs st' parent = Some d'" "ds_lazy d' = Some l" "lazy_frame (subtree ctx root) st' org'"
      "org \<subseteq>\<^sub>m org'" "vs_nodes st \<subseteq>\<^sub>m vs_nodes st'" "dir_shows st' org' (map_of (rev pending)) d'" "\<And>i. i \<noteq> parent \<Longrightarrow> dir_ok ctx st' org' i"
      using add_children_frame [OF frame d _ ok, where cs = pending and ready = "[]"] by auto
    have le: "org' parent = Some (t, p)" "org' ROOT_INODE = Some (root, [])" using a(5) o root by (metis domI map_le_def)+
    have "lazy_ok ctx root (clear_lazy parent st') org'"
      using a(7) v by (intro clear_lazy_ok [OF a(4,2) le _ a(8)]) simp
    with a(1,2,5,6) Inr ld l(1) d show ?thesis
      by (auto simp: populate_if_lazy_def populate_dir_locked_def clear_lazy_def intro!: exI [of _ org'])
  qed
qed

section \<open>Walking a path\<close>

definition lazy_inv :: "lazy_context \<Rightarrow> string \<Rightarrow> diff_vfs \<Rightarrow> bool" where
  "lazy_inv ctx root v \<longleftrightarrow> dv_lazy v = Some ctx \<and> (\<exists>org. lazy_ok ctx root (dv_state v) org)"

lemma lookup_child_shows:
  assumes "dv_lazy v = Some ctx" and "lazy_ok ctx root (dv_state v) org" and "\<And>t. subtree ctx root t \<Longrightarrow> lc_load ctx t \<noteq> None" and "org i = Some (t, p)"
  shows "\<exists>r v' org'. lookup_child i name v = Some (r, v') \<and> dv_lazy v' = Some ctx \<and> lazy_ok ctx root (dv_state v') org' \<and> org \<subseteq>\<^sub>m org' \<and>
    vs_nodes (dv_state v) \<subseteq>\<^sub>m vs_nodes (dv_state v') \<and>
    rel_option (\<lambda>k nd. shows_as (dv_state v') org' k (nd_inode nd) \<and> vs_nodes (dv_state v') (nd_inode nd) = Some nd) (visible ctx t p name) r"
proof -
  from populate_ok [OF assms(2,3), of i] obtain st' org' where
    pop: "populate_if_lazy (Some ctx) i (dv_state v) = Some st'" "lazy_ok ctx root st' org'" "org \<subseteq>\<^sub>m org'"
    "vs_nodes (dv_state v) \<subseteq>\<^sub>m vs_nodes st'" "Option.bind (vs_dirs st' i) ds_lazy = None" by blast
  have o: "org' i = Some (t, p)" using pop(3) assms(4) by (metis domI map_le_def)
  have wf: "vfs_wf st'" "dom org' = dom (vs_dirs st')" using pop(2) by (simp_all add: lazy_ok_def lazy_frame_def)
  obtain d where d: "vs_dirs st' i = Some d" using o wf(2) by blast
  then have "dir_shows st' org' (visible ctx t p) d"
    using pop(2,5) o by (intro dir_okD [of ctx st' org' i]) (simp_all add: lazy_ok_def)
  then have rel: "rel_option (shows_as st' org') (visible ctx t p name) (child_of st' i name)"
    using d by (simp add: dir_shows_def child_of_def)
  have "rel_option (\<lambda>k nd. shows_as st' org' k (nd_inode nd) \<and> vs_nodes st' (nd_inode nd) = Some nd) (visible ctx t p name)
      (Option.bind (child_of st' i name) (vs_nodes st'))"
    using rel
  proof (cases rule: option.rel_cases)
    case (Some k c)
    obtain nd where "vs_nodes st' c = Some nd" using vfs_wfD(7) [OF wf(1) Some(2)] by blast
    with Some vfs_wfD(3) [OF wf(1) this] show ?thesis by simp
  qed simp
  with pop assms(1) show ?thesis by (auto simp: lookup_child_def intro!: exI [of _ org'])
qed

text \<open>A path leads where the abstract lookup says.\<close>

lemma lookup_from_shows:
  assumes "dv_lazy v = Some ctx" and "lazy_ok ctx root (dv_state v) org" and "\<And>t. subtree ctx root t \<Longrightarrow> lc_load ctx t \<noteq> None"
    and "shows_as (dv_state v) org k (nd_inode nd)" and "vs_nodes (dv_state v) (nd_inode nd) = Some nd"
  shows "\<exists>r v' org'. lookup_from nd path v = Some (r, v') \<and> dv_lazy v' = Some ctx \<and> lazy_ok ctx root (dv_state v') org' \<and>
    rel_option (\<lambda>k nd. shows_as (dv_state v') org' k (nd_inode nd) \<and> vs_nodes (dv_state v') (nd_inode nd) = Some nd) (tree_lookup ctx k path) r"
  using assms
proof (induction path arbitrary: v org k nd)
  case Nil
  then show ?case by auto
next
  case (Cons n ns)
  show ?case
  proof (cases k)
    case (PendingDir t p)
    with Cons.prems(4) have "org (nd_inode nd) = Some (t, p)" by simp
    from lookup_child_shows [OF Cons.prems(1-3) this, of n] obtain r v' org' where
      l: "lookup_child (nd_inode nd) n v = Some (r, v')" "dv_lazy v' = Some ctx" "lazy_ok ctx root (dv_state v') org'"
      and rel: "rel_option (\<lambda>k nd. shows_as (dv_state v') org' k (nd_inode nd) \<and> vs_nodes (dv_state v') (nd_inode nd) = Some nd) (visible ctx t p n) r"
      by blast
    from rel show ?thesis
    proof (cases rule: option.rel_cases)
      case None
      with l PendingDir show ?thesis by auto
    next
      case (Some k' nd')
      from Some(3) have "shows_as (dv_state v') org' k' (nd_inode nd')" "vs_nodes (dv_state v') (nd_inode nd') = Some nd'" by auto
      from Cons.IH [OF l(2,3) Cons.prems(3) this] Some l(1) PendingDir show ?thesis by simp
    qed
  next
    case (PendingFile o')
    have "vfs_wf (dv_state v)" using Cons.prems(2) by (simp add: lazy_ok_def lazy_frame_def)
    moreover have "nd_kind nd = File u64_max \<lparr>bs_oid = o'\<rparr>" using PendingFile Cons.prems(4,5) by (cases nd) simp
    ultimately have "vs_dirs (dv_state v) (nd_inode nd) = None" using vfs_wfD(4) [OF _ Cons.prems(5)] by simp
    then have "lookup_child (nd_inode nd) n v = Some (None, v)"
      using Cons.prems(1) by (simp add: lookup_child_def populate_if_lazy_def child_of_def)
    with PendingFile Cons.prems show ?thesis by auto
  qed
qed

lemma lookup_path_shows:
  assumes "dv_lazy v = Some ctx" and "lazy_ok ctx root (dv_state v) org" and "\<And>t. subtree ctx root t \<Longrightarrow> lc_load ctx t \<noteq> None"
  shows "\<exists>r v' org'. lookup_path path v = Some (r, v') \<and> dv_lazy v' = Some ctx \<and> lazy_ok ctx root (dv_state v') org' \<and>
    rel_option (\<lambda>k nd. shows_as (dv_state v') org' k (nd_inode nd) \<and> vs_nodes (dv_state v') (nd_inode nd) = Some nd)
      (tree_lookup ctx (PendingDir root []) (path_components path)) r"
proof -
  have wf: "vfs_wf (dv_state v)" using assms(2) by (simp add: lazy_ok_def lazy_frame_def)
  then obtain nd where nd: "vs_nodes (dv_state v) ROOT_INODE = Some nd" using vfs_wfD(1,5) by blast
  with vfs_wfD(3) [OF wf nd] have "nd_inode nd = ROOT_INODE" "vs_nodes (dv_state v) (nd_inode nd) = Some nd" by simp_all
  moreover have "shows_as (dv_state v) org (PendingDir root []) ROOT_INODE" using assms(2) by (simp add: lazy_ok_def)
  ultimately show ?thesis
    using lookup_from_shows [OF assms, where nd = nd and k = "PendingDir root []" and path = "path_components path"] nd
    by (simp add: lookup_path_def lookup_by_inode_def)
qed

text \<open>A node is a file with some blob exactly if the abstract lookup ends at that blob.\<close>

lemma shows_file_iff:
  assumes "lazy_ok ctx root st org"
    and "rel_option (\<lambda>k nd. shows_as st org k (nd_inode nd) \<and> vs_nodes st (nd_inode nd) = Some nd) t r"
  shows "(\<exists>nd. r = Some nd \<and> nd_kind nd = File u64_max \<lparr>bs_oid = i\<rparr>) \<longleftrightarrow> t = Some (PendingFile i)"
  using assms(2)
proof (cases rule: option.rel_cases)
  case (Some k nd)
  have wf: "vfs_wf st" "dom org = dom (vs_dirs st)" using assms(1) by (simp_all add: lazy_ok_def lazy_frame_def)
  have "nd_kind nd = Dir \<longleftrightarrow> vs_dirs st (nd_inode nd) \<noteq> None" using vfs_wfD(4) [OF wf(1)] Some(3) by blast
  with Some wf(2) show ?thesis by (cases k; cases nd) (auto simp: dom_def)
qed simp

lemma shows_kind:
  assumes "lazy_ok ctx root st org"
    and "rel_option (\<lambda>k nd. shows_as st org k (nd_inode nd) \<and> vs_nodes st (nd_inode nd) = Some nd) t (Some nd)"
  shows "nd_kind nd = Dir \<or> (\<exists>i. nd_kind nd = File u64_max \<lparr>bs_oid = i\<rparr>)"
  using assms(2)
proof (cases rule: option.rel_cases)
  case (Some k nd')
  have wf: "vfs_wf st" "dom org = dom (vs_dirs st)" using assms(1) by (simp_all add: lazy_ok_def lazy_frame_def)
  have "nd_kind nd = Dir \<longleftrightarrow> vs_dirs st (nd_inode nd) \<noteq> None" using vfs_wfD(4) [OF wf(1)] Some by blast
  with Some wf(2) show ?thesis by (cases k; cases nd) (auto simp: dom_def)
qed simp

section \<open>Everything a client can do\<close>

inductive vfs_step :: "diff_vfs \<Rightarrow> diff_vfs \<Rightarrow> bool" where
  look: "lookup_child i name v = Some (r, v') \<Longrightarrow> vfs_step v v'"
| list: "readdir i v = Some (r, v') \<Longrightarrow> vfs_step v v'"

inductive_cases vfs_stepE: "vfs_step v v'"

lemma lazy_inv_start: "lazy_inv ctx root (build_single_lazy ctx root)"
proof -
  let ?st = "dv_state (build_single_lazy ctx root)" and ?org = "[ROOT_INODE \<mapsto> (root, [])]"
  have "vfs_wf ?st" by (simp add: build_single_lazy_def root_wf)
  then have "lazy_ok ctx root ?st ?org"
    by (auto simp: lazy_ok_def lazy_frame_def dir_ok_def build_single_lazy_def add_dir_def empty_state_def subtree.top split: if_splits)
  then show ?thesis by (auto simp: lazy_inv_def build_single_lazy_def)
qed

lemma lazy_inv_step:
  assumes "lazy_inv ctx root v" and "\<And>t. subtree ctx root t \<Longrightarrow> lc_load ctx t \<noteq> None" and "vfs_step v v'"
  shows "lazy_inv ctx root v'"
proof -
  obtain i st where v': "v' = v\<lparr>dv_state := st\<rparr>" "populate_if_lazy (dv_lazy v) i (dv_state v) = Some st"
    using assms(3) by (auto elim!: vfs_stepE simp: lookup_child_def readdir_def)
  obtain org where o: "dv_lazy v = Some ctx" "lazy_ok ctx root (dv_state v) org" using assms(1) by (auto simp: lazy_inv_def)
  from populate_ok [OF o(2) assms(2), of i] o(1) v' show ?thesis by (auto simp: lazy_inv_def)
qed

lemma lazy_inv_steps:
  assumes "vfs_step\<^sup>*\<^sup>* (build_single_lazy ctx root) v" and "\<And>t. subtree ctx root t \<Longrightarrow> lc_load ctx t \<noteq> None"
  shows "lazy_inv ctx root v"
  using assms(1) by (induction rule: rtranclp_induct) (use lazy_inv_start lazy_inv_step [OF _ assms(2)] in blast)+

section \<open>The commit\<close>

text \<open>Trees as Git writes them: readable, with one entry per name and no empty name.\<close>

definition good_tree :: "lazy_context \<Rightarrow> string \<Rightarrow> bool" where
  "good_tree ctx t \<longleftrightarrow>
     (\<exists>es. lc_load ctx t = Some (Inr (map Inr es)) \<and> distinct (map te_filename es) \<and> (\<forall>e \<in> set es. te_filename e \<noteq> []))"

definition entry_at :: "lazy_context \<Rightarrow> string \<Rightarrow> string \<Rightarrow> tree_entry option" where
  "entry_at ctx t name =
     (case lc_load ctx t of
        Some (Inr rs) \<Rightarrow> List.find (\<lambda>e. te_filename e = name) (List.map_filter (\<lambda>r. case r of Inr e \<Rightarrow> Some e | Inl _ \<Rightarrow> None) rs)
      | _ \<Rightarrow> None)"

text \<open>The blob a commit has at a path.\<close>

fun blob_at :: "lazy_context \<Rightarrow> string \<Rightarrow> string list \<Rightarrow> string option" where
  "blob_at ctx t [] = None"
| "blob_at ctx t (n # ns) =
     (case entry_at ctx t n of
        None \<Rightarrow> None
      | Some e \<Rightarrow>
          if ns = [] then (if te_mode e = BlobMode then Some (te_oid e) else None)
          else if te_mode e = TreeMode then blob_at ctx (te_oid e) ns else None)"

definition path_text :: "string \<Rightarrow> string list \<Rightarrow> string" where
  "path_text prefix path = foldl full_path_of prefix path"

lemma path_text_simps [simp]: "path_text p [] = p" "path_text p (n # ns) = path_text (full_path_of p n) ns"
  by (simp_all add: path_text_def)

lemma path_text_extends: "q \<noteq> [] \<Longrightarrow> ns \<noteq> [] \<Longrightarrow> \<exists>rest. path_text q ns = q @ ''/'' @ rest"
proof (induction ns arbitrary: q)
  case (Cons n ns)
  show ?case
  proof (cases "ns = []")
    case True
    with Cons.prems show ?thesis by (simp add: full_path_of_def)
  next
    case False
    obtain rest where "path_text (full_path_of q n) ns = full_path_of q n @ ''/'' @ rest"
      using Cons.IH [of "full_path_of q n"] False Cons.prems by (auto simp: full_path_of_def)
    with Cons.prems show ?thesis by (simp add: full_path_of_def)
  qed
qed simp

lemma starts_with_linear: "starts_with (f @ ''/'') x \<Longrightarrow> starts_with (d @ ''/'') x \<Longrightarrow> f = d \<or> starts_with (f @ ''/'') d \<or> starts_with (d @ ''/'') f"
  by (auto simp: starts_with_iff append_eq_append_conv2 append_eq_Cons_conv Cons_eq_append_conv)

text \<open>The filter on directories never hides a selected file.\<close>

lemma pathspec_down:
  assumes "pathspec_matches_file (q @ ''/'' @ rest) filters"
  shows "pathspec_intersects_dir q filters"
proof -
  have q: "starts_with (q @ ''/'') (q @ ''/'' @ rest)" by (simp add: starts_with_iff)
  have "q = f \<or> starts_with (f @ ''/'') q \<or> starts_with (q @ ''/'') f" if "q @ ''/'' @ rest = f \<or> starts_with (f @ ''/'') (q @ ''/'' @ rest)" for f
    using that starts_with_linear [OF _ q, of f] q by auto
  with assms show ?thesis
    unfolding pathspec_matches_file_def pathspec_intersects_dir_def Let_def list_ex_iff by blast
qed

lemma pending_children_good: "pending_children ctx p (map Inr es) = Inr (List.map_filter (pending_child ctx p) es)"
  by (induction es) (simp_all add: with_context_def map_filter_simps split: option.splits)

lemma map_filter_Inr [simp]: "List.map_filter (\<lambda>r. case r of Inr e \<Rightarrow> Some e | Inl _ \<Rightarrow> None) (map Inr es) = es"
  by (induction es) (simp_all add: map_filter_simps)

lemma pending_child_name: "pending_child ctx p e = Some (name, k) \<Longrightarrow> name = te_filename e"
  by (auto simp: pending_child_def Let_def split: entry_mode.splits if_splits)

lemma map_filter_map_of:
  "distinct (map te_filename es) \<Longrightarrow>
   distinct (map fst (List.map_filter (pending_child ctx p) es)) \<and> fst ` set (List.map_filter (pending_child ctx p) es) \<subseteq> te_filename ` set es \<and>
   map_of (List.map_filter (pending_child ctx p) es) name =
     Option.bind (List.find (\<lambda>e. te_filename e = name) es) (\<lambda>e. map_option snd (pending_child ctx p e))"
proof (induction es)
  case (Cons e es)
  show ?case
  proof (cases "pending_child ctx p e")
    case None
    have "List.find (\<lambda>e'. te_filename e' = te_filename e) es = None"
      using Cons.prems by (simp add: find_None_iff) (metis imageI)
    with None Cons show ?thesis by (auto simp: map_filter_simps)
  next
    case (Some c)
    with pending_child_name [of ctx p e "fst c" "snd c"] Cons show ?thesis by (auto simp: map_filter_simps)
  qed
qed (simp add: map_filter_simps)

lemma visible_good:
  assumes "good_tree ctx t"
  shows "visible ctx t p name = Option.bind (entry_at ctx t name) (\<lambda>e. map_option snd (pending_child ctx p e))"
proof -
  obtain es where es: "lc_load ctx t = Some (Inr (map Inr es))" "distinct (map te_filename es)" using assms by (auto simp: good_tree_def)
  let ?ps = "List.map_filter (pending_child ctx p) es"
  note ps = map_filter_map_of [OF es(2), of ctx p name]
  then have "map_of (rev ?ps) = map_of ?ps" by (subst map_of_inject_set) (simp_all add: rev_map [symmetric])
  with ps show ?thesis by (simp add: visible_def entry_at_def es(1) pending_children_good)
qed

lemma tree_lookup_file:
  assumes "\<And>t. subtree ctx root t \<Longrightarrow> good_tree ctx t" and "subtree ctx root t" and "path \<noteq> []"
  shows "tree_lookup ctx (PendingDir t p) path = Some (PendingFile i) \<longleftrightarrow>
    blob_at ctx t path = Some i \<and> pathspec_matches_file (path_text p path) (lc_pathspec ctx)"
  using assms(2,3)
proof (induction path arbitrary: t p)
  case (Cons n ns)
  note vis = visible_good [OF assms(1) [OF Cons.prems(1)], of p n]
  show ?case
  proof (cases "entry_at ctx t n")
    case None
    with vis show ?thesis by simp
  next
    case (Some e)
    obtain es where es: "lc_load ctx t = Some (Inr (map Inr es))" "\<forall>e \<in> set es. te_filename e \<noteq> []"
      using assms(1) [OF Cons.prems(1)] by (auto simp: good_tree_def)
    have e: "e \<in> set es" "te_filename e = n" using Some es(1) by (auto simp: entry_at_def find_Some_iff)
    with es(2) have n: "n \<noteq> []" by auto
    show ?thesis
    proof (cases "ns = []")
      case True
      with vis Some e(2) show ?thesis
        by (cases "te_mode e") (auto simp: pending_child_def Let_def)
    next
      case ns: False
      show ?thesis
      proof (cases "te_mode e = TreeMode")
        case True
        have "subtree ctx root (te_oid e)" using e(1) True es(1) by (intro subtree.below [OF Cons.prems(1)]) auto
        note IH = Cons.IH [OF this ns, of "full_path_of p n"]
        have "full_path_of p n \<noteq> []" using n by (simp add: full_path_of_def)
        then obtain rest where "path_text (full_path_of p n) ns = full_path_of p n @ ''/'' @ rest" using path_text_extends ns by blast
        then have "pathspec_intersects_dir (full_path_of p n) (lc_pathspec ctx)" if "pathspec_matches_file (path_text (full_path_of p n) ns) (lc_pathspec ctx)"
          using that pathspec_down by simp
        with IH vis Some True ns e(2) show ?thesis by (auto simp: pending_child_def Let_def)
      next
        case False
        with vis Some ns e(2) show ?thesis
          by (cases "te_mode e"; cases ns) (auto simp: pending_child_def Let_def)
      qed
    qed
  qed
qed simp

text \<open>A mount of one commit shows that commit. After any sequence of lookups and directory listings, walking a path from the root ends at
  a file exactly if the commit has a blob there and the path filters select it, and the file names that blob; nothing panics as long as
  the trees of the commit can be read.\<close>

lemma lazy_mount_shows_commit:
  assumes "\<And>t. subtree ctx root t \<Longrightarrow> good_tree ctx t" and "vfs_step\<^sup>*\<^sup>* (build_single_lazy ctx root) v" and "path_components path \<noteq> []"
  shows "\<exists>r v'. lookup_path path v = Some (r, v') \<and>
    (\<forall>i. (\<exists>nd. r = Some nd \<and> nd_kind nd = File u64_max \<lparr>bs_oid = i\<rparr>) \<longleftrightarrow>
         blob_at ctx root (path_components path) = Some i \<and>
         pathspec_matches_file (path_text [] (path_components path)) (lc_pathspec ctx))"
proof -
  have load: "lc_load ctx t \<noteq> None" if "subtree ctx root t" for t using assms(1) [OF that] by (auto simp: good_tree_def)
  obtain org where "dv_lazy v = Some ctx" "lazy_ok ctx root (dv_state v) org"
    using lazy_inv_steps [OF assms(2) load] by (auto simp: lazy_inv_def)
  from lookup_path_shows [OF this load, of path] obtain r v' org' where w: "lookup_path path v = Some (r, v')" "lazy_ok ctx root (dv_state v') org'"
    and rel: "rel_option (\<lambda>k nd. shows_as (dv_state v') org' k (nd_inode nd) \<and> vs_nodes (dv_state v') (nd_inode nd) = Some nd)
      (tree_lookup ctx (PendingDir root []) (path_components path)) r" by blast
  show ?thesis
    using w(1) shows_file_iff [OF w(2) rel]
      tree_lookup_file [where root = root and t = root and p = "[]", OF assms(1) subtree.top assms(3)] by simp
qed

text \<open>A commit with the file \<open>d/f\<close>, mounted with the filter \<open>d/\<close>, after its root was listed.\<close>

definition example_trees :: lazy_context where
  "example_trees =
     \<lparr>lc_load = (\<lambda>t. if t = ''root'' then Some (Inr [Inr \<lparr>te_filename = ''d'', te_mode = TreeMode, te_oid = ''sub''\<rparr>,
                                                 Inr \<lparr>te_filename = ''g'', te_mode = BlobMode, te_oid = ''b2''\<rparr>])
                  else if t = ''sub'' then Some (Inr [Inr \<lparr>te_filename = ''f'', te_mode = BlobMode, te_oid = ''b1''\<rparr>])
                  else None),
      lc_pathspec = [''d/'']\<rparr>"

lemma example_subtrees: "subtree example_trees ''root'' t \<Longrightarrow> t = ''root'' \<or> t = ''sub''"
  by (induction rule: subtree.induct) (auto simp: example_trees_def split: if_splits)

lemma example_good:
  assumes "subtree example_trees ''root'' t"
  shows "good_tree example_trees t"
  using example_subtrees [OF assms]
proof
  assume "t = ''root''"
  then show ?thesis
    by (auto simp: good_tree_def example_trees_def intro!: exI [of _ "[\<lparr>te_filename = ''d'', te_mode = TreeMode, te_oid = ''sub''\<rparr>,
      \<lparr>te_filename = ''g'', te_mode = BlobMode, te_oid = ''b2''\<rparr>]"])
next
  assume "t = ''sub''"
  then show ?thesis
    by (auto simp: good_tree_def example_trees_def intro!: exI [of _ "[\<lparr>te_filename = ''f'', te_mode = BlobMode, te_oid = ''b1''\<rparr>]"])
qed

end
