(* ===== verification/Reader.thy ===== *)
theory Reader
  imports Filter_Process
begin

text \<open>
  The byte source of a mount, \<open>git-bale/src/mount/reader.rs\<close>: the cache of reconstructed files with its byte budget, sizes, open handles
  and reads at an offset, and the reconstruction of a pointer's content from the chunk cache or, failing that, from the server. The
  object database, the download library and the operating system are parameters, shared with the filter where the code shares them.
\<close>

section \<open>The byte-budgeted cache\<close>

definition PLAIN_BLOB_MAX_BYTES :: nat where "PLAIN_BLOB_MAX_BYTES = 16 * 1024 * 1024"
definition BALE_LRU_BUDGET_BYTES :: nat where "BALE_LRU_BUDGET_BYTES = 1024 * 1024 * 1024"

text \<open>The oldest key is the first of \<open>lru_order\<close>.\<close>

record bale_lru =
  lru_map :: "string \<rightharpoonup> bytes"
  lru_order :: "string list"
  lru_bytes_used :: nat
  lru_budget :: nat

definition lru_new :: "nat \<Rightarrow> bale_lru" where
  "lru_new budget = \<lparr>lru_map = Map.empty, lru_order = [], lru_bytes_used = 0, lru_budget = budget\<rparr>"

definition lru_get :: "string \<Rightarrow> bale_lru \<Rightarrow> bytes option \<times> bale_lru" where
  "lru_get key l =
     (case lru_map l key of
        None \<Rightarrow> (None, l)
      | Some v \<Rightarrow> (Some v, if key \<in> set (lru_order l) then l\<lparr>lru_order := remove1 key (lru_order l) @ [key]\<rparr> else l))"

text \<open>The loop of \<open>put\<close>: drop the oldest until the new entry fits or nothing is left.\<close>

fun lru_evict :: "nat \<Rightarrow> nat \<Rightarrow> string list \<Rightarrow> (string \<rightharpoonup> bytes) \<Rightarrow> nat \<Rightarrow> string list \<times> (string \<rightharpoonup> bytes) \<times> nat" where
  "lru_evict sz budget [] m used = ([], m, used)"
| "lru_evict sz budget (victim # vs) m used =
     (if used + sz > budget
      then (case m victim of
              Some old \<Rightarrow> lru_evict sz budget vs (m(victim := None)) (used - length old)
            | None \<Rightarrow> lru_evict sz budget vs m used)
      else (victim # vs, m, used))"

definition lru_put :: "string \<Rightarrow> bytes \<Rightarrow> bale_lru \<Rightarrow> bale_lru" where
  "lru_put key blob l =
     (if length blob > lru_budget l then l
      else case lru_evict (length blob) (lru_budget l) (lru_order l) (lru_map l) (lru_bytes_used l) of
             (order, m, used) \<Rightarrow>
               l\<lparr>lru_map := m(key \<mapsto> blob), lru_order := order @ [key], lru_bytes_used := used + length blob\<rparr>)"

section \<open>The reader\<close>

datatype handle_data = HandleBytes bytes | HandleTempfile bytes nat

text \<open>The contents of a temporary file stand for the file. \<open>rd_repo\<close>, \<open>rd_rt\<close> and \<open>rd_chunk_cache\<close> are \<^const>\<open>True\<close> if the field is there;
  \<open>rd_fs\<close> is the file system.\<close>

record reader =
  rd_repo :: bool
  rd_raw :: "raw_config option"
  rd_rt :: bool
  rd_chunk_cache :: bool
  rd_bale_cfg :: "bale_config option"
  rd_size_cache :: "string \<rightharpoonup> nat"
  rd_plain_cache :: "string \<rightharpoonup> bytes"
  rd_bale_cache :: bale_lru
  rd_handles :: "u64 \<rightharpoonup> handle_data"
  rd_next_handle :: u64
  rd_fs :: fs

text \<open>\<open>re_from_hex\<close>: why a text is no object id. \<open>re_find_object\<close>: the kind and the data of an object. \<open>re_pread\<close>: what a read at an
  offset of a wanted length answers, an error or how many bytes it gives.\<close>

record reader_env =
  re_filter :: filter_env
  re_from_hex :: "string \<Rightarrow> string option"
  re_find_object :: "string \<Rightarrow> string + (object_kind \<times> bytes)"
  re_runtime :: "string option"
  re_cache :: "string option"
  re_slurp :: "string option"
  re_reopen :: "string option"
  re_pread :: "nat \<Rightarrow> nat \<Rightarrow> string + nat"

type_synonym 'a rstep = "(reader, filter_error, 'a) step"

definition r_lift :: "string + 'a \<Rightarrow> 'a rstep" where
  "r_lift r = (\<lambda>s. (rmap_err Fail r, s))"

definition r_fault :: "string option \<Rightarrow> unit rstep" where
  "r_fault f = r_lift (case f of Some e \<Rightarrow> Inl e | None \<Rightarrow> Inr ())"

definition new_reader :: "reader_env \<Rightarrow> raw_config \<Rightarrow> fs \<Rightarrow> string + reader" where
  "new_reader E raw fs =
     (case re_runtime E of
        Some e \<Rightarrow> Inl (''starting xet runtime: '' @ e)
      | None \<Rightarrow>
          (case re_cache E of
             Some e \<Rightarrow> Inl (''init chunk cache at '' @ join_text ''/'' (rc_cache_dir raw) @ '': '' @ e)
           | None \<Rightarrow>
               Inr \<lparr>rd_repo = True, rd_raw = Some raw, rd_rt = True, rd_chunk_cache = True, rd_bale_cfg = None,
                    rd_size_cache = Map.empty, rd_plain_cache = Map.empty, rd_bale_cache = lru_new BALE_LRU_BUDGET_BYTES,
                    rd_handles = Map.empty, rd_next_handle = 0, rd_fs = fs\<rparr>))"

definition repo_thread_local :: "unit rstep" where
  "repo_thread_local s = (if rd_repo s then (Inr (), s) else (Inl (Fail ''reader was constructed without a repo''), s))"

definition kind_debug :: "object_kind \<Rightarrow> string" where
  "kind_debug k = (case k of Tree \<Rightarrow> ''Tree'' | Blob \<Rightarrow> ''Blob'' | Commit \<Rightarrow> ''Commit'' | Tag \<Rightarrow> ''Tag'')"

text \<open>Both \<open>size_of\<close> and \<open>materialize\<close> read the object this way.\<close>

definition read_blob :: "reader_env \<Rightarrow> string \<Rightarrow> bytes rstep" where
  "read_blob E oid =
     sbind repo_thread_local (\<lambda>_.
     sbind (r_fault (map_option (\<lambda>e. ''parsing OID '' @ oid @ '': '' @ e) (re_from_hex E oid))) (\<lambda>_.
     sbind (r_lift (with_context (''loading object '' @ oid) (re_find_object E oid))) (\<lambda>(kind, data).
       if kind \<noteq> Blob then sfail (Fail (''expected blob for OID '' @ oid @ '', found '' @ kind_debug kind)) else sret data)))"

definition size_of :: "reader_env \<Rightarrow> string \<Rightarrow> nat rstep" where
  "size_of E oid s =
     (case rd_size_cache s oid of
        Some n \<Rightarrow> (Inr n, s)
      | None \<Rightarrow>
          sbind (read_blob E oid) (\<lambda>data.
          sbind (if looks_like_pointer data
                 then (case parse_pointer (fe_json (re_filter E)) data of
                         Inr info \<Rightarrow> r_lift (ok_or (''bale pointer '' @ oid @ '' missing file_size'') (xfi_file_size info))
                       | Inl _ \<Rightarrow> sret (length data))
                 else sret (length data)) (\<lambda>n s.
            (Inr n, s\<lparr>rd_size_cache := (rd_size_cache s)(oid \<mapsto> n)\<rparr>))) s)"

definition resolved_cfg :: "reader_env \<Rightarrow> bale_config rstep" where
  "resolved_cfg E s =
     (case rd_bale_cfg s of
        Some cfg \<Rightarrow> (Inr cfg, s)
      | None \<Rightarrow>
          if \<not> rd_rt s then (Inl (Fail ''reader was constructed without a xet runtime''), s)
          else case rd_raw s of
                 None \<Rightarrow> (Inl (Fail ''reader was constructed without a config''), s)
               | Some raw \<Rightarrow>
                   (case fe_resolve (re_filter E) of
                      Inl e \<Rightarrow> (Inl (Fail e), s)
                    | Inr a \<Rightarrow>
                        let cfg = \<lparr>bc_server_url = ra_server_url a, bc_token = ra_token a, bc_token_expiration = ra_token_expiration a,
                                   bc_cache_dir = rc_cache_dir raw, bc_git_dir = rc_git_dir raw\<rparr>
                        in (Inr cfg, s\<lparr>rd_bale_cfg := Some cfg\<rparr>)))"

text \<open>Whether the chunk cache alone gives the content, and the contents of the temporary file after the attempt. Unlike in the filter, a
  manifest that cannot be read is an error.\<close>

definition cache_attempt :: "reader_env \<Rightarrow> raw_config \<Rightarrow> string \<Rightarrow> nat \<Rightarrow> fs \<Rightarrow> filter_error + (bool \<times> bytes)" where
  "cache_attempt E raw file_id_hex file_size fs =
     (let F = re_filter E in
      case rc_git_dir raw of
        None \<Rightarrow> Inr (False, [])
      | Some git_dir \<Rightarrow>
          (case manifest_load (fe_manifests F) (fe_manifest_read F) git_dir file_id_hex fs of
             Inl e \<Rightarrow> Inl (Fail (fe_io_text F e))
           | Inr None \<Rightarrow> Inr (False, [])
           | Inr (Some manifest) \<Rightarrow>
               (case fe_tmp_hot F of
                  Some e \<Rightarrow> Inl (Fail e)
                | None \<Rightarrow>
                    (case try_reconstruct_from_cache F manifest file_size of
                       (r, out) \<Rightarrow> rbind r (\<lambda>outcome. Inr (case outcome of Wrote _ \<Rightarrow> True | Miss \<Rightarrow> False, out))))))"

text \<open>The manifest for the next mount, best effort.\<close>

definition backfill_manifest :: "reader_env \<Rightarrow> raw_config \<Rightarrow> bale_config \<Rightarrow> xet_file_info \<Rightarrow> unit rstep" where
  "backfill_manifest E raw cfg info s =
     (let F = re_filter E in
      (Inr (), case rc_git_dir raw of
         None \<Rightarrow> s
       | Some git_dir \<Rightarrow>
           if fe_merkle_err F (xfi_hash info) \<noteq> None then s
           else (case fe_fetch_manifest F cfg info of
                   Inl _ \<Rightarrow> s
                 | Inr manifest \<Rightarrow>
                     s\<lparr>rd_fs := snd (manifest_save (fe_manifests F) (fe_save F) (fe_pid F) (fe_now F) git_dir (xfi_hash info)
                         manifest (rd_fs s))\<rparr>)))"

definition download_from_server :: "reader_env \<Rightarrow> raw_config \<Rightarrow> xet_file_info \<Rightarrow> nat \<Rightarrow> bytes rstep" where
  "download_from_server E raw info file_size =
     (let F = re_filter E in
      sbind (r_fault (fe_tmp_reset F)) (\<lambda>_.
      sbind (resolved_cfg E) (\<lambda>cfg.
      sbind (r_fault (fe_translator F)) (\<lambda>_.
      sbind (r_fault (fe_tmp_cold F)) (\<lambda>_.
      sbind (r_fault (fe_session F cfg)) (\<lambda>_.
      case fe_cold_download F cfg info file_size of (events, written) \<Rightarrow>
        sbind (case download_cold (cold_download_stall_secs (fe_stall_var F)) (xfi_hash info) events of
                 Some r \<Rightarrow> r_lift r | None \<Rightarrow> sfail Hang) (\<lambda>_.
        sbind (backfill_manifest E raw cfg info) (\<lambda>_.
          sret written))))))))"

definition reconstruct_bale_to_tempfile :: "reader_env \<Rightarrow> xet_file_info \<Rightarrow> bytes rstep" where
  "reconstruct_bale_to_tempfile E info s =
     (if \<not> rd_rt s then (Inl (Fail ''reader was constructed without a xet runtime''), s)
      else if \<not> rd_chunk_cache s then (Inl (Fail ''reader was constructed without a chunk cache''), s)
      else case rd_raw s of
        None \<Rightarrow> (Inl (Fail ''reader was constructed without a config''), s)
      | Some raw \<Rightarrow>
          (case xfi_file_size info of
             None \<Rightarrow> (Inl (Fail ''bale pointer missing file_size''), s)
           | Some file_size \<Rightarrow>
               if \<not> is_safe_file_id (xfi_hash info)
               then (Inl (Fail (''bale pointer hash is not canonical hex (got '' @ show_nat (length (xfi_hash info)) @ '' chars)'')), s)
               else sbind (r_fault (fe_tmp_new (re_filter E))) (\<lambda>_.
                    sbind (\<lambda>s. (cache_attempt E raw (xfi_hash info) file_size (rd_fs s), s)) (\<lambda>(cache_hit, out).
                      if cache_hit then sret out else download_from_server E raw info file_size)) s))"

definition lru_lookup :: "string \<Rightarrow> bytes option rstep" where
  "lru_lookup key s = (case lru_get key (rd_bale_cache s) of (r, l) \<Rightarrow> (Inr r, s\<lparr>rd_bale_cache := l\<rparr>))"

definition lru_store :: "string \<Rightarrow> bytes \<Rightarrow> unit rstep" where
  "lru_store key blob s = (Inr (), s\<lparr>rd_bale_cache := lru_put key blob (rd_bale_cache s)\<rparr>)"

definition materialize_pointer :: "reader_env \<Rightarrow> xet_file_info \<Rightarrow> handle_data rstep" where
  "materialize_pointer E info =
     sbind (lru_lookup (xfi_hash info)) (\<lambda>cached.
     case cached of
       Some b \<Rightarrow> sret (HandleBytes b)
     | None \<Rightarrow>
         sbind (r_lift (ok_or ''bale pointer missing file_size'' (xfi_file_size info))) (\<lambda>file_size.
         sbind (reconstruct_bale_to_tempfile E info) (\<lambda>tmp.
         if file_size \<le> BALE_LRU_BUDGET_BYTES
         then sbind (r_fault (re_slurp E)) (\<lambda>_.
              sbind (lru_store (xfi_hash info) tmp) (\<lambda>_. sret (HandleBytes tmp)))
         else sbind (r_fault (map_option (\<lambda>e. ''opening reconstruction tempfile for read: '' @ e) (re_reopen E))) (\<lambda>_.
                sret (HandleTempfile tmp file_size)))))"

definition too_large_text :: "string \<Rightarrow> nat \<Rightarrow> string" where
  "too_large_text oid n =
     ''plain blob '' @ oid @ '' is '' @ show_nat n @ '' bytes (> '' @ show_nat PLAIN_BLOB_MAX_BYTES @
     ''); mount-diff only handles plain blobs up to 16 MiB. Track it via `git-bale track` so it'' @ [CHR 0x27] @
     ''s stored as a Bale pointer.''"

definition materialize_plain :: "string \<Rightarrow> bytes \<Rightarrow> handle_data rstep" where
  "materialize_plain oid raw s =
     (if length raw > PLAIN_BLOB_MAX_BYTES then (Inl (Fail (too_large_text oid (length raw))), s)
      else (Inr (HandleBytes raw), s\<lparr>rd_plain_cache := (rd_plain_cache s)(oid \<mapsto> raw)\<rparr>))"

definition materialize :: "reader_env \<Rightarrow> string \<Rightarrow> handle_data rstep" where
  "materialize E oid s =
     (case rd_plain_cache s oid of
        Some b \<Rightarrow> (Inr (HandleBytes b), s)
      | None \<Rightarrow>
          sbind (read_blob E oid) (\<lambda>raw.
            if looks_like_pointer raw
            then (case parse_pointer (fe_json (re_filter E)) raw of
                    Inr info \<Rightarrow> materialize_pointer E info
                  | Inl _ \<Rightarrow> materialize_plain oid raw)
            else materialize_plain oid raw) s)"

text \<open>The handle counter wraps; 0 is the uninitialized handle of the callbacks.\<close>

definition open_source :: "reader_env \<Rightarrow> string \<Rightarrow> u64 rstep" where
  "open_source E oid =
     sbind (materialize E oid) (\<lambda>data s.
       let fh = rd_next_handle s + 1
       in (Inr fh, s\<lparr>rd_next_handle := rd_next_handle s + 1, rd_handles := (rd_handles s)(fh \<mapsto> data)\<rparr>))"

text \<open>An end past the range of machine integers panics, in a checked build at the addition and else at the slice.\<close>

definition reader_pread :: "reader_env \<Rightarrow> u64 \<Rightarrow> nat \<Rightarrow> nat \<Rightarrow> reader \<Rightarrow> filter_error + bytes" where
  "reader_pread E fh offset len s =
     (case rd_handles s fh of
        None \<Rightarrow> Inl (Fail (''unknown open handle '' @ show_nat (unat fh)))
      | Some (HandleBytes b) \<Rightarrow>
          if offset \<ge> length b then Inr []
          else if offset + len > u64_max then Inl Panic
          else let end' = min (offset + len) (length b) in Inr (take (end' - offset) (drop offset b))
      | Some (HandleTempfile content n) \<Rightarrow>
          if offset \<ge> n then Inr []
          else let want = min len (n - offset)
               in case re_pread E offset want of
                    Inl e \<Rightarrow> Inl (Fail (''pread fh='' @ show_nat (unat fh) @ '' off='' @ show_nat offset @ '' len='' @ show_nat want @ '': '' @ e))
                  | Inr k \<Rightarrow> Inr (take (min k want) (drop offset content)))"

definition close :: "u64 \<Rightarrow> reader \<Rightarrow> bool \<times> reader" where
  "close fh s = (rd_handles s fh \<noteq> None, s\<lparr>rd_handles := (rd_handles s)(fh := None)\<rparr>)"

end
