(* ===== verification/Reader_Lru.thy ===== *)
theory Reader_Lru
  imports Reader "HOL-Library.Multiset"
begin

text \<open>
  The byte budget of the mount's cache: it bounds the bytes held in memory whatever the order of the calls, those of racing opens of
  one file included; and the accounting is exact unless two opens race.
\<close>

section \<open>Bytes held\<close>

definition held :: "(string \<rightharpoonup> bytes) \<Rightarrow> nat" where
  "held m = (\<Sum>k\<in>dom m. length (the (m k)))"

lemma held_empty [simp]: "held Map.empty = 0"
  by (simp add: held_def)

lemma held_remove:
  assumes "finite (dom m)" and "m k = Some b"
  shows "held m = length b + held (m(k := None))"
proof -
  have "dom (m(k := None)) = dom m - {k}" by auto
  moreover have "held m = length (the (m k)) + (\<Sum>j\<in>dom m - {k}. length (the (m j)))"
    unfolding held_def using assms by (intro sum.remove) auto
  ultimately show ?thesis using assms(2) by (simp add: held_def)
qed

lemma held_insert:
  assumes "finite (dom m)"
  shows "held (m(k \<mapsto> b)) = length b + held (m(k := None))"
  using held_remove [of "m(k \<mapsto> b)" k b] assms by simp

lemma held_remove_le: "finite (dom m) \<Longrightarrow> held (m(k := None)) \<le> held m"
  using held_remove by (cases "m k") (auto simp: fun_upd_idem)

section \<open>Every order of calls\<close>

definition lru_inv :: "bale_lru \<Rightarrow> bool" where
  "lru_inv l \<longleftrightarrow>
     finite (dom (lru_map l)) \<and> dom (lru_map l) \<subseteq> set (lru_order l) \<and>
     held (lru_map l) \<le> lru_bytes_used l \<and> held (lru_map l) \<le> lru_budget l"

lemma lru_evict_inv:
  assumes "lru_evict sz budget order m used = (order', m', used')"
    and "finite (dom m)" and "dom m \<subseteq> set order" and "held m \<le> used"
  shows "finite (dom m') \<and> dom m' \<subseteq> set order' \<and> held m' \<le> used' \<and> m' \<subseteq>\<^sub>m m \<and> (used' + sz \<le> budget \<or> m' = Map.empty)"
  using assms
proof (induction sz budget order m used rule: lru_evict.induct)
  case (2 sz budget v vs m used)
  show ?case
  proof (cases "used + sz > budget")
    case True
    show ?thesis
    proof (cases "m v")
      case None
      have "dom m \<subseteq> set vs" using "2.prems"(3) None by (auto simp: dom_def)
      with "2.prems" True None show ?thesis by (intro "2.IH"(1)) simp_all
    next
      case (Some old)
      have "finite (dom (m(v := None)))" "dom (m(v := None)) \<subseteq> set vs" using "2.prems"(2,3) by auto
      moreover have "held (m(v := None)) \<le> used - length old" using held_remove [OF "2.prems"(2) Some] "2.prems"(4) by simp
      moreover have "lru_evict sz budget vs (m(v := None)) (used - length old) = (order', m', used')" using "2.prems"(1) True Some by simp
      moreover have "m(v := None) \<subseteq>\<^sub>m m" by (simp add: map_le_def)
      ultimately show ?thesis using "2.IH"(2) [OF True Some] map_le_trans by fast
    qed
  next
    case False
    with "2.prems" show ?thesis by auto
  qed
qed auto

lemma lru_put_cases:
  assumes "lru_inv l"
  obtains (skip) "lru_budget l < length b" "lru_put k b l = l"
  | (stored) order m used where "length b \<le> lru_budget l"
      "lru_put k b l = l\<lparr>lru_map := m(k \<mapsto> b), lru_order := order @ [k], lru_bytes_used := used + length b\<rparr>"
      "finite (dom m)" "dom m \<subseteq> set order" "held m \<le> used" "m \<subseteq>\<^sub>m lru_map l" "used + length b \<le> lru_budget l \<or> m = Map.empty"
proof (cases "lru_budget l < length b")
  case True
  with skip show thesis by (simp add: lru_put_def)
next
  case False
  obtain order m used where e: "lru_evict (length b) (lru_budget l) (lru_order l) (lru_map l) (lru_bytes_used l) = (order, m, used)"
    by (metis prod_cases3)
  from lru_evict_inv [OF e] assms have "finite (dom m) \<and> dom m \<subseteq> set order \<and> held m \<le> used \<and> m \<subseteq>\<^sub>m lru_map l \<and>
      (used + length b \<le> lru_budget l \<or> m = Map.empty)" by (simp add: lru_inv_def)
  with stored [where order = order and m = m and used = used] False e show thesis by (simp add: lru_put_def)
qed

lemma lru_put_budget [simp]: "lru_budget (lru_put k b l) = lru_budget l"
  by (simp add: lru_put_def split: prod.splits)

lemma lru_put_inv:
  assumes "lru_inv l"
  shows "lru_inv (lru_put k b l)"
  using assms
proof (cases rule: lru_put_cases [of l b k])
  case (stored order m used)
  have "held (m(k \<mapsto> b)) \<le> length b + held m" using held_insert [OF stored(3)] held_remove_le [OF stored(3)] by simp
  moreover have "held m + length b \<le> lru_budget l" using stored(1,5,7) by auto
  ultimately show ?thesis using stored by (auto simp: lru_inv_def)
qed (use assms in auto)

lemma lru_get_state [simp]:
  "lru_map (snd (lru_get k l)) = lru_map l" "lru_bytes_used (snd (lru_get k l)) = lru_bytes_used l"
  "lru_budget (snd (lru_get k l)) = lru_budget l" "set (lru_order (snd (lru_get k l))) = set (lru_order l)"
  "fst (lru_get k l) = lru_map l k" "distinct (lru_order (snd (lru_get k l))) = distinct (lru_order l)"
proof -
  have "mset (remove1 k xs @ [k]) = mset xs" if "k \<in> set xs" for xs :: "string list" using that by simp
  then have "set (remove1 k xs @ [k]) = set xs" "distinct (remove1 k xs @ [k]) = distinct xs" if "k \<in> set xs" for xs :: "string list"
    using that mset_eq_setD mset_eq_imp_distinct_iff by metis+
  then show "set (lru_order (snd (lru_get k l))) = set (lru_order l)" "distinct (lru_order (snd (lru_get k l))) = distinct (lru_order l)"
    by (auto simp: lru_get_def split: option.splits)
qed (auto simp: lru_get_def split: option.splits)

lemma lru_get_inv: "lru_inv l \<Longrightarrow> lru_inv (snd (lru_get k l))"
  by (simp add: lru_inv_def)

text \<open>The calls of all threads in the order in which they hold the lock.\<close>

datatype lru_op = Get string | Put string bytes

fun lru_call :: "lru_op \<Rightarrow> bale_lru \<Rightarrow> bale_lru" where
  "lru_call (Get k) l = snd (lru_get k l)"
| "lru_call (Put k b) l = lru_put k b l"

text \<open>The blob a key was last given, among those the budget admits.\<close>

definition last_put :: "nat \<Rightarrow> string \<Rightarrow> lru_op list \<Rightarrow> bytes option \<Rightarrow> bytes option" where
  "last_put budget k = fold (\<lambda>c acc. case c of Put j b \<Rightarrow> if j = k \<and> length b \<le> budget then Some b else acc | Get _ \<Rightarrow> acc)"

lemma lru_calls_inv:
  assumes "lru_inv l" and "\<forall>k b. lru_map l k = Some b \<longrightarrow> v k = Some b"
  shows "lru_inv (fold lru_call ops l) \<and> lru_budget (fold lru_call ops l) = lru_budget l \<and>
    (\<forall>k b. lru_map (fold lru_call ops l) k = Some b \<longrightarrow> last_put (lru_budget l) k ops (v k) = Some b)"
  using assms
proof (induction ops arbitrary: l v)
  case (Cons c ops)
  show ?case
  proof (cases c)
    case (Get j)
    with Cons.IH [OF lru_get_inv [OF Cons.prems(1), of j], where v = v] Cons.prems(2) show ?thesis by (simp add: last_put_def)
  next
    case (Put j b)
    let ?v = "\<lambda>k. if j = k \<and> length b \<le> lru_budget l then Some b else v k"
    have "lru_map (lru_put j b l) k = Some c \<longrightarrow> ?v k = Some c" for k c
      using Cons.prems(1)
    proof (cases rule: lru_put_cases [of l b j])
      case (stored order m used)
      then show ?thesis using Cons.prems(2) by (auto simp: map_le_def dom_def)
    qed (use Cons.prems(2) in simp)
    with Cons.IH [OF lru_put_inv [OF Cons.prems(1), of j b], where v = ?v] Put show ?thesis by (simp add: last_put_def)
  qed
qed (simp add: last_put_def)

section \<open>Exact accounting\<close>

text \<open>Without a second put of a key that is still there, the counter is the number of bytes held.\<close>

definition lru_exact :: "bale_lru \<Rightarrow> bool" where
  "lru_exact l \<longleftrightarrow>
     finite (dom (lru_map l)) \<and> distinct (lru_order l) \<and> set (lru_order l) = dom (lru_map l) \<and>
     lru_bytes_used l = held (lru_map l) \<and> lru_bytes_used l \<le> lru_budget l"

lemma lru_evict_exact:
  assumes "lru_evict sz budget order m used = (order', m', used')" and "sz \<le> budget"
    and "finite (dom m)" and "distinct order" and "set order = dom m" and "used = held m"
  shows "finite (dom m') \<and> distinct order' \<and> set order' = dom m' \<and> used' = held m' \<and> used' + sz \<le> budget \<and> dom m' \<subseteq> dom m"
  using assms
proof (induction sz budget order m used rule: lru_evict.induct)
  case (2 sz budget v vs m used)
  show ?case
  proof (cases "used + sz > budget")
    case True
    obtain old where old: "m v = Some old" using "2.prems"(5) by auto
    have m: "finite (dom (m(v := None)))" "set vs = dom (m(v := None))" "distinct vs" "dom (m(v := None)) \<subseteq> dom m"
      using "2.prems"(3-5) by auto
    have "used - length old = held (m(v := None))" using held_remove [OF "2.prems"(3) old] "2.prems"(6) by simp
    moreover have "lru_evict sz budget vs (m(v := None)) (used - length old) = (order', m', used')" using "2.prems"(1) True old by simp
    ultimately show ?thesis using "2.IH"(2) [OF True old _ "2.prems"(2) m(1,3,2)] m(4) by blast
  next
    case False
    with "2.prems" show ?thesis by auto
  qed
qed (auto simp: held_def)

lemma lru_put_exact:
  assumes "lru_exact l" and "lru_map l k = None"
  shows "lru_exact (lru_put k b l)"
proof (cases "lru_budget l < length b")
  case True
  with assms(1) show ?thesis by (simp add: lru_put_def)
next
  case False
  obtain order m used where e: "lru_evict (length b) (lru_budget l) (lru_order l) (lru_map l) (lru_bytes_used l) = (order, m, used)"
    by (metis prod_cases3)
  from lru_evict_exact [OF e] False assms(1)
  have m: "finite (dom m)" "distinct order" "set order = dom m" "used = held m" "used + length b \<le> lru_budget l" "dom m \<subseteq> dom (lru_map l)"
    by (simp_all add: lru_exact_def)
  then have "m k = None" using assms(2) by blast
  then have "held (m(k \<mapsto> b)) = length b + held m" using held_insert [OF m(1)] by (simp add: fun_upd_idem)
  with m e False \<open>m k = None\<close> show ?thesis by (auto simp: lru_put_def lru_exact_def)
qed

lemma lru_get_exact: "lru_exact l \<Longrightarrow> lru_exact (snd (lru_get k l))"
  by (simp add: lru_exact_def)

text \<open>Two opens of one file that both miss the cache put it twice: the second put counts its bytes again, and evicting the key later
  gives them back only once.\<close>

lemma second_put_counts_twice:
  assumes "2 * length b \<le> budget"
  shows "lru_bytes_used (lru_put k b (lru_put k b (lru_new budget))) = 2 * length b"
    "held (lru_map (lru_put k b (lru_put k b (lru_new budget)))) = length b"
    "length b + sz > budget \<Longrightarrow> lru_evict sz budget [k, k] [k \<mapsto> b] (2 * length b) = ([], Map.empty, length b)"
  using assms by (auto simp: lru_put_def lru_new_def held_insert)

section \<open>The bound\<close>

text \<open>The mount's cache stays within its budget. Whatever the threads look up and put, in whatever order they get the lock and even
  if two of them put one file twice, the files held never take more bytes than the budget and never more than the counter says, and a
  file in the cache is what was last put under its name.\<close>

lemma lru_memory_bounded:
  "held (lru_map (fold lru_call ops (lru_new budget))) \<le> min budget (lru_bytes_used (fold lru_call ops (lru_new budget))) \<and>
   fst (lru_get k (fold lru_call ops (lru_new budget))) \<in> {None, last_put budget k ops None}"
proof -
  have "lru_inv (lru_new budget)" "\<forall>k b. lru_map (lru_new budget) k = Some b \<longrightarrow> (\<lambda>_. None) k = Some b" by (simp_all add: lru_inv_def lru_new_def)
  from lru_calls_inv [OF this, of ops] show ?thesis
    by (cases "lru_map (fold lru_call ops (lru_new budget)) k") (simp_all add: lru_inv_def lru_new_def)
qed

end
