(* ===== verification/Reader_Content.thy ===== *)
theory Reader_Content
  imports Reader
begin

text \<open>
  What a mount's reader hands out is the content of the blob that was opened: caches, manifests and handles hold only true content,
  whatever the calls before, as long as the libraries and the server are truthful.
\<close>

section \<open>The truth\<close>

text \<open>The objects of the repository, the content behind a pointer's hash, and the bytes of a range of chunks of a xorb.\<close>

record mount_world =
  mw_json :: json_lib
  mw_manifests :: manifest_lib
  mw_objects :: "string \<Rightarrow> bytes"
  mw_content :: "string \<Rightarrow> bytes"
  mw_xorb :: "string \<Rightarrow> u32 \<Rightarrow> u32 \<Rightarrow> bytes"

definition manifest_bytes :: "mount_world \<Rightarrow> cached_manifest \<Rightarrow> bytes" where
  "manifest_bytes W m = concat (map (\<lambda>t. mw_xorb W (ct_xorb_hash t) (ct_chunk_start t) (ct_chunk_end t)) (cm_terms m))"

definition true_content :: "mount_world \<Rightarrow> string \<Rightarrow> bytes" where
  "true_content W oid =
     (let data = mw_objects W oid
      in if looks_like_pointer data
         then (case parse_pointer (mw_json W) data of Inr info \<Rightarrow> mw_content W (xfi_hash info) | Inl _ \<Rightarrow> data)
         else data)"

text \<open>What the reader relies on: manifests survive serialization, and a pointer names the length of its content.\<close>

definition honest_world :: "mount_world \<Rightarrow> bool" where
  "honest_world W \<longleftrightarrow>
     (\<forall>m bs. ml_to_vec_pretty (mw_manifests W) m = Inr bs \<longrightarrow> ml_from_slice (mw_manifests W) (bs @ [0x0A]) = Some m) \<and>
     (\<forall>oid info. parse_pointer (mw_json W) (mw_objects W oid) = Inr info \<longrightarrow>
        xfi_file_size info = Some (length (mw_content W (xfi_hash info))))"

text \<open>Each call may meet different faults, but objects do not change, cached chunks and fetched manifests belong to what they are filed
  under, and a download of the whole length that ends well wrote the content.\<close>

definition truthful :: "mount_world \<Rightarrow> reader_env \<Rightarrow> bool" where
  "truthful W E \<longleftrightarrow>
     fe_json (re_filter E) = mw_json W \<and> fe_manifests (re_filter E) = mw_manifests W \<and>
     (\<forall>oid d. re_find_object E oid = Inr (Blob, d) \<longrightarrow> d = mw_objects W oid) \<and>
     (\<forall>x a b d. fe_chunk_get (re_filter E) x a b = Inr (Some d) \<longrightarrow> d = mw_xorb W x a b) \<and>
     (\<forall>cfg info m. fe_fetch_manifest (re_filter E) cfg info = Inr m \<longrightarrow> manifest_bytes W m = mw_content W (xfi_hash info)) \<and>
     (\<forall>cfg info events written.
        fe_cold_download (re_filter E) cfg info (length (mw_content W (xfi_hash info))) = (events, written) \<longrightarrow>
        Finished (Inr ()) \<in> set events \<longrightarrow> written = mw_content W (xfi_hash info))"

lemma truthfulD:
  assumes "truthful W E"
  shows "fe_json (re_filter E) = mw_json W" "fe_manifests (re_filter E) = mw_manifests W"
    "re_find_object E oid = Inr (Blob, d) \<Longrightarrow> d = mw_objects W oid"
    "fe_chunk_get (re_filter E) x a b = Inr (Some d') \<Longrightarrow> d' = mw_xorb W x a b"
    "fe_fetch_manifest (re_filter E) cfg info = Inr m \<Longrightarrow> manifest_bytes W m = mw_content W (xfi_hash info)"
    "fe_cold_download (re_filter E) cfg info (length (mw_content W (xfi_hash info))) = (events, written) \<Longrightarrow>
       Finished (Inr ()) \<in> set events \<Longrightarrow> written = mw_content W (xfi_hash info)"
  using assms unfolding truthful_def by blast+

section \<open>The invariant\<close>

definition manifests_true :: "mount_world \<Rightarrow> raw_config \<Rightarrow> fs \<Rightarrow> bool" where
  "manifests_true W raw fs \<longleftrightarrow>
     (\<forall>git_dir h n m. rc_git_dir raw = Some git_dir \<longrightarrow> is_safe_file_id h \<longrightarrow> map_of fs (manifest_path git_dir h) = Some n \<longrightarrow>
        ml_from_slice (mw_manifests W) (fn_body n) = Some m \<longrightarrow> manifest_bytes W m = mw_content W h)"

definition reader_ok :: "mount_world \<Rightarrow> raw_config \<Rightarrow> reader \<Rightarrow> bool" where
  "reader_ok W raw s \<longleftrightarrow>
     rd_raw s = Some raw \<and> manifests_true W raw (rd_fs s) \<and>
     (\<forall>oid b. rd_plain_cache s oid = Some b \<longrightarrow> b = true_content W oid) \<and>
     (\<forall>h b. lru_map (rd_bale_cache s) h = Some b \<longrightarrow> b = mw_content W h) \<and>
     (\<forall>oid n. rd_size_cache s oid = Some n \<longrightarrow> n = length (true_content W oid))"

fun good_handle :: "bytes \<Rightarrow> handle_data \<Rightarrow> bool" where
  "good_handle c (HandleBytes b) \<longleftrightarrow> b = c"
| "good_handle c (HandleTempfile b n) \<longleftrightarrow> b = c \<and> n = length c"

text \<open>A step keeps a property of the state and gives only results of a kind.\<close>

definition keeps :: "('s \<Rightarrow> bool) \<Rightarrow> ('s, 'e, 'a) step \<Rightarrow> ('a \<Rightarrow> bool) \<Rightarrow> bool" where
  "keeps P m Q \<longleftrightarrow> (\<forall>s r s'. P s \<longrightarrow> m s = (r, s') \<longrightarrow> P s' \<and> (\<forall>x. r = Inr x \<longrightarrow> Q x))"

lemma keepsD: "keeps P m Q \<Longrightarrow> P s \<Longrightarrow> m s = (r, s') \<Longrightarrow> P s' \<and> (\<forall>x. r = Inr x \<longrightarrow> Q x)"
  by (simp add: keeps_def)

named_theorems keeps_rules

lemma holds_sbind [keeps_rules]:
  assumes "keeps P m Q" and "\<And>x. Q x \<Longrightarrow> keeps P (f x) R"
  shows "keeps P (sbind m f) R"
  unfolding keeps_def
proof (intro allI impI)
  fix s r s'
  assume P: "P s" and r: "sbind m f s = (r, s')"
  obtain r1 s1 where m: "m s = (r1, s1)" by fastforce
  note k = keepsD [OF assms(1) P m]
  show "P s' \<and> (\<forall>x. r = Inr x \<longrightarrow> R x)"
  proof (cases r1)
    case (Inl e)
    with r m k show ?thesis by (auto simp: sbind_def)
  next
    case (Inr x)
    with k have "keeps P (f x) R" "P s1" using assms(2) by auto
    with r m Inr show ?thesis by (auto simp: sbind_def dest: keepsD)
  qed
qed

lemma keeps_pure [keeps_rules]:
  "Q x \<Longrightarrow> keeps P (sret x) Q" "keeps P (sfail e) Q" "(\<And>x. r = Inr x \<Longrightarrow> Q x) \<Longrightarrow> keeps P (r_lift r) Q" "keeps P (r_fault f) (\<lambda>_. True)"
  by (auto simp: keeps_def r_lift_def r_fault_def rmap_err_def split: sum.splits)

section \<open>Reconstruction\<close>

lemma reconstruct_terms_true:
  assumes "truthful W E"
  shows "reconstruct_terms (re_filter E) ts w out = (Inr (Some w'), out') \<Longrightarrow>
    out' = out @ concat (map (\<lambda>t. mw_xorb W (ct_xorb_hash t) (ct_chunk_start t) (ct_chunk_end t)) ts)"
proof (induction ts arbitrary: w out)
  case (Cons t ts)
  then obtain data where d: "fe_chunk_get (re_filter E) (ct_xorb_hash t) (ct_chunk_start t) (ct_chunk_end t) = Inr (Some data)"
    "reconstruct_terms (re_filter E) ts (w + length data) (out @ data) = (Inr (Some w'), out')"
    by (auto split: option.splits sum.splits if_splits)
  with Cons.IH [OF d(2)] truthfulD(4) [OF assms d(1)] show ?case by simp
qed simp

lemma cache_attempt_true:
  assumes "truthful W E" and "manifests_true W raw fs" and "is_safe_file_id h" and "cache_attempt E raw h n fs = Inr (True, out)"
  shows "out = mw_content W h"
proof -
  obtain git_dir f m w where m: "rc_git_dir raw = Some git_dir" "map_of fs (manifest_path git_dir h) = Some f"
    "ml_from_slice (mw_manifests W) (fn_body f) = Some m" "reconstruct_terms (re_filter E) (cm_terms m) 0 [] = (Inr (Some w), out)"
    using assms(4) truthfulD(2) [OF assms(1)]
    by (auto simp: cache_attempt_def manifest_load_def try_reconstruct_from_cache_def rbind_eq_Inr Let_def
        split: option.splits sum.splits if_splits prod.splits cache_outcome.splits)
  with reconstruct_terms_true [OF assms(1) m(4)] assms(2,3) show ?thesis by (simp add: manifests_true_def manifest_bytes_def)
qed

lemma download_cold_Inr: "download_cold secs label events = Some (Inr ()) \<Longrightarrow> Finished (Inr ()) \<in> set events"
proof -
  have "Finished (Inr ()) \<in> set events" if "stall_loop secs label seen idle events = Some (Inr ())" for seen idle
    using that by (induction secs label seen idle events rule: stall_loop.induct) (auto split: if_splits)
  moreover have "Finished (Inr ()) \<in> set events" if "await_download events = Some (Inr ())"
    using that by (induction events rule: await_download.induct) auto
  ultimately show "download_cold secs label events = Some (Inr ()) \<Longrightarrow> Finished (Inr ()) \<in> set events"
    by (auto simp: download_cold_def split: if_splits)
qed

lemma manifest_save_true:
  assumes "honest_world W" and "manifests_true W raw fs" and "is_safe_file_id h" and "manifest_bytes W m = mw_content W h"
    and "rc_git_dir raw = Some git_dir"
  shows "manifests_true W raw (snd (manifest_save (mw_manifests W) F pid now git_dir h m fs))"
  unfolding manifests_true_def
proof (intro allI impI)
  fix gd h' n m'
  assume gd: "rc_git_dir raw = Some gd" and h': "is_safe_file_id h'"
    and n: "map_of (snd (manifest_save (mw_manifests W) F pid now git_dir h m fs)) (manifest_path gd h') = Some n"
    and m': "ml_from_slice (mw_manifests W) (fn_body n) = Some m'"
  obtain r fs' where s: "manifest_save (mw_manifests W) F pid now git_dir h m fs = (r, fs')" by fastforce
  note save = s [unfolded manifest_save_def]
  have gd: "gd = git_dir" using gd assms(5) by simp
  have "length h = 64" "length h' = 64" using assms(3) h' by (simp_all add: is_safe_file_id_def)
  then have tmp: "manifest_path git_dir k \<noteq> manifest_tmp git_dir h pid" if "length k = 64" for k
    using that by (auto simp: manifest_path_def manifest_tmp_def dest: arg_cong [where f = length])
  show "manifest_bytes W m' = mw_content W h'"
  proof (cases "map_of fs' (manifest_path git_dir h') = map_of fs (manifest_path git_dir h')")
    case True
    with n s gd have "map_of fs (manifest_path git_dir h') = Some n" by simp
    with assms(2,5) h' m' show ?thesis unfolding manifests_true_def by blast
  next
    case False
    have hh: "h' = h"
    proof (rule ccontr)
      assume "h' \<noteq> h"
      then have "manifest_path git_dir h' \<noteq> manifest_path git_dir h" by (simp add: manifest_path_def)
      with replace_file_others [OF save] tmp \<open>length h' = 64\<close> False show False by simp
    qed
    have "manifest_tmp git_dir h pid \<noteq> manifest_path git_dir h" using tmp \<open>length h = 64\<close> by metis
    from replace_file_target [OF save this] False hh obtain bs where
      "ml_to_vec_pretty (mw_manifests W) m = Inr bs" "map_of fs' (manifest_path git_dir h) = Some \<lparr>fn_body = bs @ [0x0A], fn_mtime = now\<rparr>"
      by (auto simp: rbind_def rmap_err_def split: sum.splits)
    with n s gd hh m' assms(1,4) show ?thesis by (auto simp: honest_world_def)
  qed
qed

lemma backfill_keeps [keeps_rules]:
  assumes "honest_world W" and "truthful W E" and "is_safe_file_id (xfi_hash info)"
  shows "keeps (reader_ok W raw) (backfill_manifest E raw cfg info) (\<lambda>_. True)"
  using manifest_save_true [OF assms(1) _ assms(3)] truthfulD(2,5) [OF assms(2)]
  by (auto simp: keeps_def backfill_manifest_def reader_ok_def Let_def split: option.splits if_splits sum.splits)

lemma resolved_cfg_keeps [keeps_rules]: "keeps (reader_ok W raw) (resolved_cfg E) (\<lambda>_. True)"
  by (auto simp: keeps_def resolved_cfg_def reader_ok_def Let_def split: option.splits if_splits sum.splits)

lemma download_keeps [keeps_rules]:
  assumes "honest_world W" and "truthful W E" and "is_safe_file_id (xfi_hash info)"
  shows "keeps (reader_ok W raw) (download_from_server E raw info (length (mw_content W (xfi_hash info)))) (\<lambda>b. b = mw_content W (xfi_hash info))"
proof -
  have c: "keeps (reader_ok W raw)
      (case download_cold (cold_download_stall_secs (fe_stall_var (re_filter E))) (xfi_hash info) events of Some r \<Rightarrow> r_lift r | None \<Rightarrow> sfail Hang)
      (\<lambda>_. written = mw_content W (xfi_hash info))"
    if "fe_cold_download (re_filter E) cfg info (length (mw_content W (xfi_hash info))) = (events, written)" for cfg events written
    using truthfulD(6) [OF assms(2) that] download_cold_Inr by (auto split: option.splits intro!: keeps_rules)
  have "keeps (reader_ok W raw)
      (case fe_cold_download (re_filter E) cfg info (length (mw_content W (xfi_hash info))) of (events, written) \<Rightarrow>
        sbind (case download_cold (cold_download_stall_secs (fe_stall_var (re_filter E))) (xfi_hash info) events of
                 Some r \<Rightarrow> r_lift r | None \<Rightarrow> sfail Hang) (\<lambda>_.
        sbind (backfill_manifest E raw cfg info) (\<lambda>_. sret written)))
      (\<lambda>b. b = mw_content W (xfi_hash info))" for cfg
    using c by (auto split: prod.splits intro!: holds_sbind [OF c] holds_sbind [OF backfill_keeps [OF assms]] keeps_pure(1))
  then show ?thesis
    unfolding download_from_server_def Let_def
    by (intro holds_sbind [OF keeps_pure(4)] holds_sbind [OF resolved_cfg_keeps])
qed

lemma reconstruct_keeps:
  assumes "honest_world W" and "truthful W E" and "xfi_file_size info = Some (length (mw_content W (xfi_hash info)))"
  shows "keeps (reader_ok W raw) (reconstruct_bale_to_tempfile E info) (\<lambda>b. b = mw_content W (xfi_hash info))"
proof -
  let ?c = "mw_content W (xfi_hash info)"
  have a: "keeps (reader_ok W raw) (\<lambda>s. (cache_attempt E raw (xfi_hash info) (length ?c) (rd_fs s), s)) (\<lambda>(hit, out). hit \<longrightarrow> out = ?c)"
    if "is_safe_file_id (xfi_hash info)"
    using cache_attempt_true [OF assms(2) _ that] by (auto simp: keeps_def reader_ok_def)
  have "keeps (reader_ok W raw) (sbind (r_fault (fe_tmp_new (re_filter E))) (\<lambda>_.
        sbind (\<lambda>s. (cache_attempt E raw (xfi_hash info) (length ?c) (rd_fs s), s)) (\<lambda>(cache_hit, out).
          if cache_hit then sret out else download_from_server E raw info (length ?c)))) (\<lambda>b. b = ?c)" if "is_safe_file_id (xfi_hash info)"
    by (intro holds_sbind [OF keeps_pure(4)] holds_sbind [OF a [OF that]])
      (auto intro!: keeps_pure(1) download_keeps [OF assms(1,2) that])
  note run = this
  show ?thesis
    unfolding keeps_def
  proof (intro allI impI)
    fix s r s'
    assume ok: "reader_ok W raw s" and r: "reconstruct_bale_to_tempfile E info s = (r, s')"
    have raw: "rd_raw s = Some raw" using ok by (simp add: reader_ok_def)
    show "reader_ok W raw s' \<and> (\<forall>x. r = Inr x \<longrightarrow> x = ?c)"
    proof (cases "rd_rt s \<and> rd_chunk_cache s \<and> is_safe_file_id (xfi_hash info)")
      case True
      with r ok show ?thesis
        by (intro keepsD [OF run ok]) (simp_all add: reconstruct_bale_to_tempfile_def assms(3) raw)
    next
      case False
      with r ok show ?thesis by (auto simp: reconstruct_bale_to_tempfile_def assms(3) raw split: if_splits)
    qed
  qed
qed

lemma lru_lookup_keeps: "keeps (reader_ok W raw) (lru_lookup h) (\<lambda>r. \<forall>b. r = Some b \<longrightarrow> b = mw_content W h)"
  by (auto simp: keeps_def lru_lookup_def lru_get_def reader_ok_def split: option.splits if_splits)

lemma lru_evict_le: "lru_evict sz budget order m used = (order', m', used') \<Longrightarrow> m' \<subseteq>\<^sub>m m"
proof (induction sz budget order m used rule: lru_evict.induct)
  case (2 sz budget v vs m used)
  have le: "m(v := None) \<subseteq>\<^sub>m m" by (simp add: map_le_def)
  show ?case
  proof (cases "used + sz > budget")
    case True
    show ?thesis
    proof (cases "m v")
      case None
      with "2.IH"(1) [OF True None] "2.prems" True show ?thesis by simp
    next
      case (Some old)
      with "2.prems" True have "lru_evict sz budget vs (m(v := None)) (used - length old) = (order', m', used')" by simp
      from map_le_trans [OF "2.IH"(2) [OF True Some this] le] show ?thesis .
    qed
  qed (use "2.prems" in simp)
qed simp

lemma lru_put_from: "lru_map (lru_put k b l) j = Some c \<Longrightarrow> j = k \<and> c = b \<or> lru_map l j = Some c"
  using lru_evict_le [of "length b" "lru_budget l" "lru_order l" "lru_map l" "lru_bytes_used l"]
  by (auto simp: lru_put_def map_le_def dom_def split: prod.splits if_splits)

lemma lru_store_keeps: "b = mw_content W h \<Longrightarrow> keeps (reader_ok W raw) (lru_store h b) (\<lambda>_. True)"
  using lru_put_from by (fastforce simp: keeps_def lru_store_def reader_ok_def)

lemma read_blob_keeps:
  assumes "truthful W E"
  shows "keeps (reader_ok W raw) (read_blob E oid) (\<lambda>d. d = mw_objects W oid)"
  using truthfulD(3) [OF assms, of oid]
  by (auto simp: keeps_def read_blob_def sbind_def repo_thread_local_def r_fault_def r_lift_def with_context_def rmap_err_def
      split: prod.splits sum.splits if_splits option.splits)

lemma materialize_pointer_keeps:
  assumes "honest_world W" and "truthful W E" and "xfi_file_size info = Some (length (mw_content W (xfi_hash info)))"
  shows "keeps (reader_ok W raw) (materialize_pointer E info) (good_handle (mw_content W (xfi_hash info)))"
  unfolding materialize_pointer_def
proof (rule holds_sbind [OF lru_lookup_keeps])
  fix cached
  assume c: "\<forall>b. cached = Some b \<longrightarrow> b = mw_content W (xfi_hash info)"
  show "keeps (reader_ok W raw) (case cached of
       Some b \<Rightarrow> sret (HandleBytes b)
     | None \<Rightarrow>
         sbind (r_lift (ok_or ''bale pointer missing file_size'' (xfi_file_size info))) (\<lambda>file_size.
         sbind (reconstruct_bale_to_tempfile E info) (\<lambda>tmp.
         if file_size \<le> BALE_LRU_BUDGET_BYTES
         then sbind (r_fault (re_slurp E)) (\<lambda>_.
              sbind (lru_store (xfi_hash info) tmp) (\<lambda>_. sret (HandleBytes tmp)))
         else sbind (r_fault (map_option (\<lambda>e. ''opening reconstruction tempfile for read: '' @ e) (re_reopen E))) (\<lambda>_.
                sret (HandleTempfile tmp file_size))))) (good_handle (mw_content W (xfi_hash info)))"
  proof (cases cached)
    case None
    have n: "keeps (reader_ok W raw) (r_lift (ok_or ''bale pointer missing file_size'' (xfi_file_size info)))
        (\<lambda>n. n = length (mw_content W (xfi_hash info)))"
      by (rule keeps_pure(3)) (simp add: assms(3) ok_or_def)
    show ?thesis
      unfolding None option.case
      by (intro holds_sbind [OF n] holds_sbind [OF reconstruct_keeps [OF assms]])
        (auto intro!: holds_sbind [OF keeps_pure(4)] holds_sbind [OF lru_store_keeps] keeps_pure(1))
  qed (use c in \<open>auto intro!: keeps_pure(1)\<close>)
qed

lemma materialize_plain_keeps: "b = true_content W oid \<Longrightarrow> keeps (reader_ok W raw) (materialize_plain oid b) (good_handle (true_content W oid))"
  by (auto simp: keeps_def materialize_plain_def reader_ok_def)

lemma materialize_keeps:
  assumes "honest_world W" and "truthful W E"
  shows "keeps (reader_ok W raw) (materialize E oid) (good_handle (true_content W oid))"
proof -
  let ?rest = "\<lambda>raw. if looks_like_pointer raw
            then (case parse_pointer (fe_json (re_filter E)) raw of
                    Inr info \<Rightarrow> materialize_pointer E info
                  | Inl _ \<Rightarrow> materialize_plain oid raw)
            else materialize_plain oid raw"
  have p: "keeps (reader_ok W raw) (materialize_pointer E info) (good_handle (mw_content W (xfi_hash info)))"
    if "parse_pointer (mw_json W) (mw_objects W oid) = Inr info" for info
    using that assms(1) by (intro materialize_pointer_keeps [OF assms]) (auto simp: honest_world_def)
  have "keeps (reader_ok W raw) (?rest d) (good_handle (true_content W oid))" if "d = mw_objects W oid" for d
    unfolding that using p truthfulD(1) [OF assms(2)] materialize_plain_keeps [of "mw_objects W oid" W oid]
    by (auto simp: true_content_def Let_def split: sum.splits)
  then have k: "keeps (reader_ok W raw) (sbind (read_blob E oid) ?rest) (good_handle (true_content W oid))"
    by (rule holds_sbind [OF read_blob_keeps [OF assms(2)]])
  show ?thesis
    unfolding keeps_def
  proof (intro allI impI)
    fix s r s'
    assume ok: "reader_ok W raw s" and r: "materialize E oid s = (r, s')"
    show "reader_ok W raw s' \<and> (\<forall>x. r = Inr x \<longrightarrow> good_handle (true_content W oid) x)"
    proof (cases "rd_plain_cache s oid")
      case None
      with r show ?thesis by (intro keepsD [OF k ok]) (simp add: materialize_def)
    next
      case (Some b)
      with r ok show ?thesis by (auto simp: materialize_def reader_ok_def)
    qed
  qed
qed

section \<open>Every call\<close>

inductive reader_step :: "mount_world \<Rightarrow> reader \<Rightarrow> reader \<Rightarrow> bool" for W where
  stat: "truthful W E \<Longrightarrow> size_of E oid s = (r, s') \<Longrightarrow> reader_step W s s'"
| opened: "truthful W E \<Longrightarrow> open_source E oid s = (r', s') \<Longrightarrow> reader_step W s s'"
| closed: "close fh s = (b, s') \<Longrightarrow> reader_step W s s'"

lemma size_of_keeps:
  assumes "honest_world W" and "truthful W E"
  shows "keeps (reader_ok W raw) (size_of E oid) (\<lambda>n. n = length (true_content W oid))"
proof -
  let ?len = "\<lambda>data. if looks_like_pointer data
      then (case parse_pointer (fe_json (re_filter E)) data of
              Inr info \<Rightarrow> r_lift (ok_or (''bale pointer '' @ oid @ '' missing file_size'') (xfi_file_size info))
            | Inl _ \<Rightarrow> sret (length data))
      else sret (length data)"
  have n: "keeps (reader_ok W raw) (?len d) (\<lambda>n. n = length (true_content W oid))" if "d = mw_objects W oid" for d
    unfolding that using assms(1) truthfulD(1) [OF assms(2)]
    by (auto simp: true_content_def Let_def honest_world_def ok_or_def split: sum.splits intro!: keeps_pure)
  have st: "keeps (reader_ok W raw) (\<lambda>s. (Inr n, s\<lparr>rd_size_cache := (rd_size_cache s)(oid \<mapsto> n)\<rparr>)) (\<lambda>n. n = length (true_content W oid))"
    if "n = length (true_content W oid)" for n
    using that by (auto simp: keeps_def reader_ok_def)
  have k: "keeps (reader_ok W raw) (sbind (read_blob E oid) (\<lambda>data. sbind (?len data)
      (\<lambda>n s. (Inr n, s\<lparr>rd_size_cache := (rd_size_cache s)(oid \<mapsto> n)\<rparr>)))) (\<lambda>n. n = length (true_content W oid))"
    by (intro holds_sbind [OF read_blob_keeps [OF assms(2)]] holds_sbind [OF n] st)
  show ?thesis
    unfolding keeps_def
  proof (intro allI impI)
    fix s r s'
    assume ok: "reader_ok W raw s" and r: "size_of E oid s = (r, s')"
    show "reader_ok W raw s' \<and> (\<forall>x. r = Inr x \<longrightarrow> x = length (true_content W oid))"
    proof (cases "rd_size_cache s oid")
      case None
      with r show ?thesis by (intro keepsD [OF k ok]) (simp add: size_of_def)
    next
      case (Some n)
      with r ok show ?thesis by (auto simp: size_of_def reader_ok_def)
    qed
  qed
qed

lemma open_source_ok:
  assumes "honest_world W" and "truthful W E" and "reader_ok W raw s" and "open_source E oid s = (r, s')"
  shows "reader_ok W raw s' \<and> (\<forall>fh. r = Inr fh \<longrightarrow> (\<exists>d. rd_handles s' fh = Some d \<and> good_handle (true_content W oid) d))"
proof -
  obtain r1 s1 where m: "materialize E oid s = (r1, s1)" by fastforce
  note k = keepsD [OF materialize_keeps [OF assms(1,2)] assms(3) m]
  show ?thesis
  proof (cases r1)
    case (Inl e)
    with assms(4) m k show ?thesis by (auto simp: open_source_def)
  next
    case (Inr d)
    with assms(4) m have "r = Inr (rd_next_handle s1 + 1)"
      "s' = s1\<lparr>rd_next_handle := rd_next_handle s1 + 1, rd_handles := (rd_handles s1)(rd_next_handle s1 + 1 \<mapsto> d)\<rparr>"
      by (simp_all add: open_source_def Let_def)
    with k Inr show ?thesis by (auto simp: reader_ok_def)
  qed
qed

lemma reader_step_ok:
  assumes "honest_world W" and "reader_step W s s'" and "reader_ok W raw s"
  shows "reader_ok W raw s'"
  using assms(2)
proof cases
  case (stat E oid r)
  with keepsD [OF size_of_keeps [OF assms(1) stat(1)] assms(3) stat(2)] show ?thesis by simp
next
  case (opened E oid r)
  with open_source_ok [OF assms(1) opened(1) assms(3) opened(2)] show ?thesis by simp
qed (use assms(3) in \<open>auto simp: close_def reader_ok_def\<close>)

lemma reader_steps_ok:
  assumes "honest_world W" and "manifests_true W raw fs" and "new_reader E0 raw fs = Inr s0" and "(reader_step W)\<^sup>*\<^sup>* s0 s"
  shows "reader_ok W raw s"
  using assms(4)
proof (induction rule: rtranclp_induct)
  case base
  from assms(2,3) show ?case by (auto simp: new_reader_def reader_ok_def lru_new_def split: option.splits)
qed (use reader_step_ok [OF assms(1)] in blast)

lemma good_handle_pread:
  assumes "rd_handles s fh = Some d" and "good_handle c d" and "offset + len \<le> u64_max" and "\<And>off want. re_pread E off want = Inr want"
  shows "reader_pread E fh offset len s = Inr (take len (drop offset c))"
proof (cases d)
  case (HandleBytes b)
  with assms(1-3) show ?thesis by (auto simp: reader_pread_def Let_def min_def)
next
  case (HandleTempfile b n)
  with assms(1,2,4) show ?thesis by (auto simp: reader_pread_def Let_def min_def)
qed

text \<open>A mounted file reads as its content. After any calls on the reader, \<open>size_of\<close> gives the length of the true content of a blob
  (what its pointer stands for, or the blob itself), and a handle that \<open>open\<close> gives reads that content at every offset for as long as
  it is open, whatever is opened, evicted from the cache or closed meanwhile, whether it is served from memory or from a temporary file.\<close>

lemma mounted_file_reads_content:
  assumes "honest_world W" and "manifests_true W raw fs" and "new_reader E0 raw fs = Inr s0" and "(reader_step W)\<^sup>*\<^sup>* s0 s" and "truthful W E"
  shows "(\<forall>n s1. size_of E oid s = (Inr n, s1) \<longrightarrow> n = length (true_content W oid)) \<and>
    (\<forall>fh s1 E2 s2 offset len.
       open_source E oid s = (Inr fh, s1) \<longrightarrow> rd_handles s2 fh = rd_handles s1 fh \<longrightarrow> (\<forall>off want. re_pread E2 off want = Inr want) \<longrightarrow>
       offset + len \<le> u64_max \<longrightarrow> reader_pread E2 fh offset len s2 = Inr (take len (drop offset (true_content W oid))))"
proof -
  have ok: "reader_ok W raw s" by (rule reader_steps_ok [OF assms(1-4)])
  have "n = length (true_content W oid)" if "size_of E oid s = (Inr n, s1)" for n s1
    using keepsD [OF size_of_keeps [OF assms(1,5)] ok that] by simp
  moreover have "reader_pread E2 fh offset len s2 = Inr (take len (drop offset (true_content W oid)))"
    if "open_source E oid s = (Inr fh, s1)" "rd_handles s2 fh = rd_handles s1 fh" "\<forall>off want. re_pread E2 off want = Inr want"
      "offset + len \<le> u64_max" for fh s1 E2 s2 offset len
    using open_source_ok [OF assms(1,5) ok that(1)] good_handle_pread that(2-4) by auto
  ultimately show ?thesis by blast
qed

end
