(* ===== verification/Fuse.thy ===== *)
theory Fuse
  imports Vfs_Lazy Reader_Content
begin

unbundle bit_operations_syntax

text \<open>
  The two backends of a mount, \<open>mount/backend/libfuse.rs\<close> and \<open>mount/backend/winfsp.rs\<close>: the callbacks the kernel drives, as steps on the
  process-wide file system (the inode table and the reader), and the interface both implement.
\<close>

section \<open>Replies\<close>

definition ENOENT :: nat where "ENOENT = 2"
definition EIO :: nat where "EIO = 5"
definition EBADF :: nat where "EBADF = 9"
definition EFAULT :: nat where "EFAULT = 14"
definition ENOTDIR :: nat where "ENOTDIR = 20"
definition EISDIR :: nat where "EISDIR = 21"
definition EROFS :: nat where "EROFS = 30"

text \<open>A callback answers zero or a count with what it filled in, a negated error number, or it takes the process down.\<close>

datatype 'a reply = Reply 'a | Errno nat | Abort filter_error

record mount_fs =
  mf_vfs :: diff_vfs
  mf_reader :: reader

text \<open>The active file system is \<^const>\<open>None\<close> before it is installed.\<close>

type_synonym 'a callback = "mount_fs option \<Rightarrow> 'a reply \<times> mount_fs option"

record stat =
  st_ino :: nat
  st_uid :: nat
  st_gid :: nat
  st_nlink :: nat
  st_mode :: nat
  st_size :: int

definition as_c_int :: "nat \<Rightarrow> int" where
  "as_c_int n = sint (of_nat n :: 32 word)"

definition cstr_to_path :: "bytes option \<Rightarrow> string option" where
  "cstr_to_path p = Option.bind p from_utf8"

text \<open>The beginning of every path callback; a lookup that panics aborts.\<close>

definition with_node :: "bytes option \<Rightarrow> (node \<Rightarrow> mount_fs \<Rightarrow> 'a reply \<times> mount_fs) \<Rightarrow> 'a callback" where
  "with_node path k active =
     (case cstr_to_path path of
        None \<Rightarrow> (Errno ENOENT, active)
      | Some p \<Rightarrow>
          (case active of
             None \<Rightarrow> (Errno EIO, active)
           | Some m \<Rightarrow>
               (case lookup_path p (mf_vfs m) of
                  None \<Rightarrow> (Abort Panic, active)
                | Some (r, v) \<Rightarrow>
                    (case r of
                       None \<Rightarrow> (Errno ENOENT, Some (m\<lparr>mf_vfs := v\<rparr>))
                     | Some node \<Rightarrow> (case k node (m\<lparr>mf_vfs := v\<rparr>) of (x, m') \<Rightarrow> (x, Some m'))))))"

definition reader_call :: "'a rstep \<Rightarrow> ('a \<Rightarrow> 'b) \<Rightarrow> mount_fs \<Rightarrow> 'b reply \<times> mount_fs" where
  "reader_call call f m =
     (case call (mf_reader m) of (r, rd) \<Rightarrow>
        (case r of Inr x \<Rightarrow> Reply (f x) | Inl (Fail _) \<Rightarrow> Errno EIO | Inl e \<Rightarrow> Abort e, m\<lparr>mf_reader := rd\<rparr>))"

section \<open>libfuse\<close>

definition node_stat :: "nat \<times> nat \<Rightarrow> node \<Rightarrow> nat \<Rightarrow> nat \<Rightarrow> int \<Rightarrow> stat" where
  "node_stat owner node nlink mode sz =
     \<lparr>st_ino = nd_inode node, st_uid = fst owner, st_gid = snd owner, st_nlink = nlink, st_mode = mode, st_size = sz\<rparr>"

definition S_IFDIR :: nat where "S_IFDIR = 0x4000"
definition S_IFREG :: nat where "S_IFREG = 0x8000"

definition getattr_node :: "reader_env \<Rightarrow> nat \<times> nat \<Rightarrow> node \<Rightarrow> mount_fs \<Rightarrow> stat reply \<times> mount_fs" where
  "getattr_node E owner node m =
     (case nd_kind node of
        Dir \<Rightarrow> (Reply (node_stat owner node 2 (S_IFDIR OR 0x16D) 0), m)
      | File sz src \<Rightarrow> reader_call (size_of E (bs_oid src)) (\<lambda>n. node_stat owner node 1 (S_IFREG OR 0x124) (as_i64 n)) m)"

text \<open>\<open>stbuf\<close> and \<open>buf\<close> say whether the pointer is there; the owner is the user and the group of the process.\<close>

definition op_getattr :: "reader_env \<Rightarrow> nat \<times> nat \<Rightarrow> bytes option \<Rightarrow> bool \<Rightarrow> stat callback" where
  "op_getattr E owner path stbuf active =
     (if \<not> stbuf then (Errno EFAULT, active) else with_node path (getattr_node E owner) active)"

text \<open>\<open>fi\<close>: the open flags of the file information, if it is there.\<close>

definition op_open :: "reader_env \<Rightarrow> bytes option \<Rightarrow> 32 word option \<Rightarrow> u64 callback" where
  "op_open E path fi =
     with_node path (\<lambda>node m.
       case nd_kind node of
         Dir \<Rightarrow> (Errno EISDIR, m)
       | File sz src \<Rightarrow>
           (case fi of
              None \<Rightarrow> (Errno EIO, m)
            | Some flags \<Rightarrow> if flags AND 3 \<noteq> 0 then (Errno EROFS, m) else reader_call (open_source E (bs_oid src)) (\<lambda>fh. fh) m))"

definition op_read :: "reader_env \<Rightarrow> bool \<Rightarrow> nat \<Rightarrow> int \<Rightarrow> u64 option \<Rightarrow> (int \<times> bytes) callback" where
  "op_read E buf len offset fi active =
     (if \<not> buf then (Errno EFAULT, active)
      else case active of
        None \<Rightarrow> (Errno EIO, active)
      | Some m \<Rightarrow>
          (case fi of
             None \<Rightarrow> (Errno EBADF, active)
           | Some fh \<Rightarrow>
               if fh = 0 then (Errno EBADF, active)
               else (case reader_pread E fh (nat (offset mod 2 ^ 64)) len (mf_reader m) of
                       Inl (Fail _) \<Rightarrow> Errno EIO
                     | Inl e \<Rightarrow> Abort e
                     | Inr bs \<Rightarrow> Reply (as_c_int (length bs), bs), active)))"

definition op_release :: "u64 option \<Rightarrow> unit callback" where
  "op_release fi active =
     (Reply (), case fi of
        None \<Rightarrow> active
      | Some fh \<Rightarrow> if fh = 0 then active else map_option (\<lambda>m. m\<lparr>mf_reader := snd (close fh (mf_reader m))\<rparr>) active)"

text \<open>The names given to the filler; a name with a NUL byte is left out.\<close>

definition op_readdir :: "bytes option \<Rightarrow> string list callback" where
  "op_readdir path =
     with_node path (\<lambda>node m.
       if nd_kind node \<noteq> Dir then (Errno ENOTDIR, m)
       else case readdir (nd_inode node) (mf_vfs m) of
              None \<Rightarrow> (Abort Panic, m)
            | Some (r, v) \<Rightarrow>
                (Reply ([''.'', ''..''] @
                   (case r of None \<Rightarrow> [] | Some children \<Rightarrow> filter (\<lambda>n. CHR 0x00 \<notin> set n) (map fst children))), m\<lparr>mf_vfs := v\<rparr>))"

section \<open>WinFsp\<close>

text \<open>Ownership is left zero, the open flags are not inspected, and a negative offset reads from the start.\<close>

definition win_getattr :: "reader_env \<Rightarrow> bytes option \<Rightarrow> bool \<Rightarrow> stat callback" where
  "win_getattr E path stbuf active =
     (if \<not> stbuf then (Errno EFAULT, active) else with_node path (getattr_node E (0, 0)) active)"

definition win_open :: "reader_env \<Rightarrow> bytes option \<Rightarrow> bool \<Rightarrow> u64 callback" where
  "win_open E path fi =
     with_node path (\<lambda>node m.
       case nd_kind node of
         Dir \<Rightarrow> (Errno EISDIR, m)
       | File sz src \<Rightarrow> if \<not> fi then (Errno EIO, m) else reader_call (open_source E (bs_oid src)) (\<lambda>fh. fh) m)"

definition win_read :: "reader_env \<Rightarrow> bool \<Rightarrow> nat \<Rightarrow> int \<Rightarrow> u64 option \<Rightarrow> (int \<times> bytes) callback" where
  "win_read E buf len offset fi active =
     (if \<not> buf then (Errno EFAULT, active)
      else case active of
        None \<Rightarrow> (Errno EIO, active)
      | Some m \<Rightarrow>
          (case fi of
             None \<Rightarrow> (Errno EBADF, active)
           | Some fh \<Rightarrow>
               if fh = 0 then (Errno EBADF, active)
               else (case reader_pread E fh (nat (max offset 0)) len (mf_reader m) of
                       Inl (Fail _) \<Rightarrow> Errno EIO
                     | Inl e \<Rightarrow> Abort e
                     | Inr bs \<Rightarrow> let n = min (length bs) len in Reply (as_c_int n, take n bs), active)))"

definition win_release :: "u64 option \<Rightarrow> unit callback" where
  "win_release fi active =
     (Reply (), case fi of
        None \<Rightarrow> active
      | Some fh \<Rightarrow> if fh = 0 then active else map_option (\<lambda>m. m\<lparr>mf_reader := snd (close fh (mf_reader m))\<rparr>) active)"

definition win_readdir :: "bytes option \<Rightarrow> string list callback" where
  "win_readdir path =
     with_node path (\<lambda>node m.
       if nd_kind node \<noteq> Dir then (Errno ENOTDIR, m)
       else case readdir (nd_inode node) (mf_vfs m) of
              None \<Rightarrow> (Abort Panic, m)
            | Some (r, v) \<Rightarrow>
                (Reply ([''.'', ''..''] @
                   (case r of None \<Rightarrow> [] | Some children \<Rightarrow> filter (\<lambda>n. CHR 0x00 \<notin> set n) (map fst children))), m\<lparr>mf_vfs := v\<rparr>))"

end
