(* ===== verification/Mount.thy ===== *)
theory Mount
  imports Fuse
begin

text \<open>
  The two mount commands, \<open>git-bale/src/mount/mod.rs\<close>, and the start of the libfuse backend (\<open>backend/libfuse.rs\<close>): what is checked before
  anything is mounted, and what is handed to the backend.
\<close>

section \<open>libfuse at run time\<close>

definition libfuse_candidates :: "string list" where
  "libfuse_candidates = [''libfuse.so.2'', ''libfuse.so'', ''/usr/lib/x86_64-linux-gnu/libfuse.so.2'',
     ''/usr/lib/aarch64-linux-gnu/libfuse.so.2'', ''/usr/lib64/libfuse.so.2'']"

text \<open>\<open>load\<close> gives the error of loading a library, if it fails.\<close>

fun first_library :: "(string \<Rightarrow> string option) \<Rightarrow> string list \<Rightarrow> (string \<times> string) list + string" where
  "first_library load [] = Inl []"
| "first_library load (name # names) =
     (case load name of
        None \<Rightarrow> Inr name
      | Some e \<Rightarrow> rmap_err (\<lambda>tried. (name, e) # tried) (first_library load names))"

definition ensure_available :: "(string \<Rightarrow> string option) \<Rightarrow> (string \<times> string) list + unit" where
  "ensure_available load = rbind (first_library load libfuse_candidates) (\<lambda>_. Inr ())"

definition load_libfuse :: "(string \<Rightarrow> string option) \<Rightarrow> string + string" where
  "load_libfuse load =
     rmap_err (\<lambda>tried. ''libfuse disappeared between availability check and mount. Tried: '' @
         join_text ''; '' (map (\<lambda>(name, e). name @ '': '' @ e) tried))
       (first_library load libfuse_candidates)"

text \<open>The mount point as the operating system shows it, the libraries and \<open>fuse_main_real\<close>, which runs until the file system is unmounted
  and gives its status and the state it leaves.\<close>

record libfuse_env =
  lf_point :: string
  lf_exists :: bool
  lf_is_dir :: bool
  lf_utf8 :: bool
  lf_load :: "string \<Rightarrow> string option"
  lf_symbol :: "string option"
  lf_nul :: "string option"
  lf_main :: "mount_fs \<Rightarrow> int \<times> mount_fs"

definition libfuse_mount :: "libfuse_env \<Rightarrow> mount_fs \<Rightarrow> mount_fs option \<Rightarrow> (string + unit) \<times> mount_fs option" where
  "libfuse_mount L vfs active =
     (if \<not> lf_exists L then (Inl (''mount point '' @ lf_point L @ '' does not exist; create it first (mkdir)''), active)
      else if \<not> lf_is_dir L then (Inl (''mount point '' @ lf_point L @ '' is not a directory''), active)
      else if active \<noteq> None then (Inl ''mount: another mount is already active in this process'', active)
      else case rbind (with_context ''loading libfuse / fuse-t'' (load_libfuse (lf_load L))) (\<lambda>_.
                case lf_symbol L of
                  Some e \<Rightarrow> Inl (''looking up fuse_main_real in libfuse: '' @ e)
                | None \<Rightarrow>
                    if \<not> lf_utf8 L then Inl (''mount point path is not UTF-8: '' @ lf_point L)
                    else (case lf_nul L of Some e \<Rightarrow> Inl (''CString for mount point: '' @ e) | None \<Rightarrow> Inr ())) of
             Inl e \<Rightarrow> (Inl e, Some vfs)
           | Inr _ \<Rightarrow>
               (case lf_main L vfs of (rc, vfs') \<Rightarrow>
                  (if rc \<noteq> 0
                   then Inl (''fuse_main_real returned non-zero status '' @ (if rc < 0 then ''-'' else []) @ show_nat (nat \<bar>rc\<bar>) @ ''; check stderr'')
                   else Inr (), Some vfs')))"

section \<open>Commands\<close>

record mount_diff_args =
  md_rev_a :: string
  md_rev_b :: string
  md_label_a :: "string option"
  md_label_b :: "string option"
  md_paths :: "string list"

record mount_rev_args =
  mr_rev :: string
  mr_paths :: "string list"

text \<open>\<open>me_trees\<close> loads the trees of a revision as the lazy file system does, \<open>me_config\<close> is the configuration or why it cannot be loaded,
  \<open>me_debug\<close> prints paths and labels as \<open>{:?}\<close> does.\<close>

record mount_env =
  me_cwd :: "string + string"
  me_revs :: revisions
  me_trees :: "string \<Rightarrow> (string + (string + tree_entry) list) option"
  me_config :: "string + raw_config"
  me_reader :: reader_env
  me_fs :: fs
  me_debug :: "string list \<Rightarrow> string"
  me_debug_label :: "string \<Rightarrow> string"
  me_libfuse :: libfuse_env

text \<open>A command exits with a status and a text, panics, or mounts and returns what the backend gave.\<close>

datatype outcome = ExitProcess nat "(string \<times> string) list" | MountPanic | MountFailed string | Mounted mount_fs "string + unit"

definition in_context :: "string \<Rightarrow> string + 'a \<Rightarrow> ('a \<Rightarrow> outcome) \<Rightarrow> outcome" where
  "in_context what r k = (case with_context what r of Inl e \<Rightarrow> MountFailed e | Inr x \<Rightarrow> k x)"

definition under_text :: "mount_env \<Rightarrow> string list \<Rightarrow> string" where
  "under_text M paths = (if paths = [] then [] else '' under '' @ me_debug M paths)"

text \<open>Characters, not bytes: of a character beyond ASCII only its first byte counts.\<close>

definition sanitize_label :: "string \<Rightarrow> string" where
  "sanitize_label revision =
     (let keep = (\<lambda>c. let n = (of_char c :: nat) in (48 \<le> n \<and> n \<le> 57) \<or> (65 \<le> n \<and> n \<le> 90) \<or> (97 \<le> n \<and> n \<le> 122) \<or>
                   c = CHR ''_'' \<or> c = CHR ''-'' \<or> c = CHR ''.'');
          out = map (\<lambda>c. if keep c then c else CHR ''_'') (filter (\<lambda>c. \<not> (128 \<le> (of_char c :: nat) \<and> (of_char c :: nat) < 192)) revision)
      in if out = [] then ''rev'' else out)"

definition resolve_commit_and_tree :: "revisions \<Rightarrow> string \<Rightarrow> string + (string \<times> string)" where
  "resolve_commit_and_tree R revision =
     rbind (with_context (''git rev-parse '' @ revision) (rv_parse R revision)) (\<lambda>resolved.
     rbind (load_object R (''loading object for '' @ revision) resolved) (\<lambda>obj.
     rbind (with_context (revision @ '' does not point to a commit'') (rv_peel R obj)) (\<lambda>commit.
     rbind (with_context (''loading tree for '' @ revision) (rv_tree R commit)) (\<lambda>tree.
       Inr (commit, tree)))))"

text \<open>Both commands end this way, in a process that has no mount yet.\<close>

definition hand_over :: "mount_env \<Rightarrow> mount_fs \<Rightarrow> outcome" where
  "hand_over M vfs = Mounted vfs (fst (libfuse_mount (me_libfuse M) vfs None))"

definition run_rev :: "mount_env \<Rightarrow> mount_rev_args \<Rightarrow> outcome" where
  "run_rev M args =
     (case ensure_available (lf_load (me_libfuse M)) of
        Inl tried \<Rightarrow> ExitProcess 2 tried
      | Inr _ \<Rightarrow>
          in_context ''resolving cwd'' (me_cwd M) (\<lambda>cwd.
          case open_repo (me_revs M) cwd of
            Inl e \<Rightarrow> MountFailed e
          | Inr _ \<Rightarrow>
              in_context (''resolving '' @ mr_rev args) (resolve_commit_and_tree (me_revs M) (mr_rev args)) (\<lambda>(commit, tree).
              in_context ''loading bale config'' (me_config M) (\<lambda>raw.
              in_context ''starting blob reader'' (new_reader (me_reader M) raw (me_fs M)) (\<lambda>rd.
              case readdir ROOT_INODE (build_single_lazy \<lparr>lc_load = me_trees M, lc_pathspec = mr_paths args\<rparr> tree) of
                None \<Rightarrow> MountPanic
              | Some (r, vfs) \<Rightarrow>
                  if (case r of None \<Rightarrow> True | Some es \<Rightarrow> es = [])
                  then MountFailed (''no files in '' @ mr_rev args @ under_text M (mr_paths args))
                  else hand_over M \<lparr>mf_vfs = vfs, mf_reader = rd\<rparr>)))))"

definition run_mount_diff :: "mount_env \<Rightarrow> mount_diff_args \<Rightarrow> outcome" where
  "run_mount_diff M args =
     (case ensure_available (lf_load (me_libfuse M)) of
        Inl tried \<Rightarrow> ExitProcess 2 tried
      | Inr _ \<Rightarrow>
          in_context ''resolving cwd'' (me_cwd M) (\<lambda>cwd.
          in_context ''validating revisions'' (ensure_distinct_commits (me_revs M) cwd (md_rev_a args) (md_rev_b args)) (\<lambda>_.
          in_context ''running git diff --raw'' (run_diff (me_revs M) cwd (md_rev_a args) (md_rev_b args) (md_paths args)) (\<lambda>entries.
          if entries = []
          then MountFailed (''no files differ between '' @ md_rev_a args @ '' and '' @ md_rev_b args @ under_text M (md_paths args))
          else
            let label_a = (case md_label_a args of Some l \<Rightarrow> l | None \<Rightarrow> sanitize_label (md_rev_a args));
                label_b = (case md_label_b args of Some l \<Rightarrow> l | None \<Rightarrow> sanitize_label (md_rev_b args))
            in if label_a = label_b
               then MountFailed (''labelA and labelB both resolve to '' @ me_debug_label M label_a @ ''; pass --label-a/--label-b to disambiguate'')
               else
                 in_context ''loading bale config'' (me_config M) (\<lambda>raw.
                 case open_repo (me_revs M) cwd of
                   Inl e \<Rightarrow> MountFailed e
                 | Inr _ \<Rightarrow>
                     in_context ''starting blob reader'' (new_reader (me_reader M) raw (me_fs M)) (\<lambda>rd.
                     case build entries label_a label_b of
                       None \<Rightarrow> MountPanic
                     | Some vfs \<Rightarrow> hand_over M \<lparr>mf_vfs = vfs, mf_reader = rd\<rparr>))))))"

end
