(* ===== verification/Fuse_Content.thy ===== *)
theory Fuse_Content
  imports Mount
begin

text \<open>
  What a mount promises its users, stated once for any backend that opens and reads through the inode table and the reader, and
  discharged for libfuse and for WinFsp.
\<close>

section \<open>The state behind a mount of a commit\<close>

definition mount_ok :: "mount_world \<Rightarrow> raw_config \<Rightarrow> lazy_context \<Rightarrow> string \<Rightarrow> mount_fs \<Rightarrow> bool" where
  "mount_ok W raw ctx root m \<longleftrightarrow> lazy_inv ctx root (mf_vfs m) \<and> reader_ok W raw (mf_reader m)"

text \<open>What a callback may do to the state: look up paths, list directories, and call the reader.\<close>

definition vfs_reader_step :: "mount_world \<Rightarrow> mount_fs \<Rightarrow> mount_fs \<Rightarrow> bool" where
  "vfs_reader_step W m m' \<longleftrightarrow> vfs_step\<^sup>*\<^sup>* (mf_vfs m) (mf_vfs m') \<and> (reader_step W)\<^sup>*\<^sup>* (mf_reader m) (mf_reader m')"

lemma vfs_reader_step_trans: "vfs_reader_step W m m1 \<Longrightarrow> vfs_reader_step W m1 m2 \<Longrightarrow> vfs_reader_step W m m2"
  by (auto simp: vfs_reader_step_def)

lemma vfs_reader_step_refl [simp]: "vfs_reader_step W m m"
  by (simp add: vfs_reader_step_def)

lemma lookup_from_steps: "lookup_from nd cs v = Some (r, v') \<Longrightarrow> vfs_step\<^sup>*\<^sup>* v v'"
proof (induction cs arbitrary: nd v)
  case (Cons c cs)
  then obtain r1 v1 where l: "lookup_child (nd_inode nd) c v = Some (r1, v1)" by (auto simp: bind_eq_Some_conv)
  have s: "vfs_step v v1" using l by (rule vfs_step.look)
  show ?case
  proof (cases r1)
    case None
    with Cons.prems l s show ?thesis by auto
  next
    case (Some nd')
    with Cons.prems l have "lookup_from nd' cs v1 = Some (r, v')" by simp
    from converse_rtranclp_into_rtranclp [of vfs_step, OF s Cons.IH [OF this]] show ?thesis .
  qed
qed simp

lemma lookup_path_steps: "lookup_path p v = Some (r, v') \<Longrightarrow> vfs_step\<^sup>*\<^sup>* v v'"
  by (auto simp: lookup_path_def dest: lookup_from_steps split: option.splits)

lemma with_node_step:
  assumes "with_node path k (Some m) = (x, active)" and "\<And>nd m y m'. k nd m = (y, m') \<Longrightarrow> vfs_reader_step W m m'"
  shows "\<exists>m'. active = Some m' \<and> vfs_reader_step W m m'"
proof (cases "cstr_to_path path")
  case None
  with assms(1) show ?thesis by (auto simp: with_node_def)
next
  case (Some p)
  show ?thesis
  proof (cases "lookup_path p (mf_vfs m)")
    case None
    with Some assms(1) show ?thesis by (auto simp: with_node_def)
  next
    case (Some rv)
    obtain r v where rv: "rv = (r, v)" by fastforce
    have s: "vfs_reader_step W m (m\<lparr>mf_vfs := v\<rparr>)" using Some rv by (auto simp: vfs_reader_step_def dest: lookup_path_steps)
    show ?thesis
    proof (cases r)
      case None
      with Some rv \<open>cstr_to_path path = Some p\<close> assms(1) s show ?thesis by (auto simp: with_node_def)
    next
      case (Some nd)
      obtain y m' where k: "k nd (m\<lparr>mf_vfs := v\<rparr>) = (y, m')" by fastforce
      from vfs_reader_step_trans [OF s assms(2) [OF k]] \<open>lookup_path p (mf_vfs m) = Some rv\<close> Some rv k \<open>cstr_to_path path = Some p\<close> assms(1)
      show ?thesis by (auto simp: with_node_def)
    qed
  qed
qed

lemma with_node_keeps:
  assumes "with_node path k (Some m) = (x, Some m')" and "\<And>nd m y m'. k nd m = (y, m') \<Longrightarrow> vfs_reader_step W m m'"
  shows "vfs_reader_step W m m'"
  using with_node_step [OF assms] by simp

lemma reader_call_step:
  assumes "reader_call call f m = (x, m')" and "\<And>r rd. call (mf_reader m) = (r, rd) \<Longrightarrow> reader_step W (mf_reader m) rd"
  shows "vfs_reader_step W m m'"
  using assms by (auto simp: reader_call_def vfs_reader_step_def split: prod.splits)

lemma mount_ok_step:
  assumes "honest_world W" and "\<And>t. subtree ctx root t \<Longrightarrow> lc_load ctx t \<noteq> None" and "mount_ok W raw ctx root m" and "vfs_reader_step W m m'"
  shows "mount_ok W raw ctx root m'"
proof -
  have "vfs_step\<^sup>*\<^sup>* (mf_vfs m) (mf_vfs m')" using assms(4) by (simp add: vfs_reader_step_def)
  then have "lazy_inv ctx root (mf_vfs m')"
  proof (induction rule: rtranclp_induct)
    case base
    from assms(3) show ?case by (simp add: mount_ok_def)
  qed (use lazy_inv_step [OF _ assms(2)] in blast)
  moreover have "(reader_step W)\<^sup>*\<^sup>* (mf_reader m) (mf_reader m')" using assms(4) by (simp add: vfs_reader_step_def)
  then have "reader_ok W raw (mf_reader m')"
  proof (induction rule: rtranclp_induct)
    case base
    from assms(3) show ?case by (simp add: mount_ok_def)
  qed (use reader_step_ok [OF assms(1)] in blast)
  ultimately show ?thesis by (simp add: mount_ok_def)
qed

section \<open>The interface\<close>

text \<open>A run of callbacks, each in its own circumstances.\<close>

definition session :: "(reader_env \<Rightarrow> mount_fs \<Rightarrow> mount_fs \<Rightarrow> bool) \<Rightarrow> mount_world \<Rightarrow> mount_fs \<Rightarrow> mount_fs \<Rightarrow> bool" where
  "session cb W m m' \<longleftrightarrow> (\<exists>E. truthful W E \<and> cb E m m')"

text \<open>\<open>cb\<close>: one callback of any kind. \<open>open_cb\<close> and \<open>read_cb\<close>: opening for reading and reading with everything the kernel passes in
  place.\<close>

locale mount_backend =
  fixes cb :: "reader_env \<Rightarrow> mount_fs \<Rightarrow> mount_fs \<Rightarrow> bool"
    and open_cb :: "reader_env \<Rightarrow> bytes \<Rightarrow> u64 callback"
    and read_cb :: "reader_env \<Rightarrow> nat \<Rightarrow> int \<Rightarrow> u64 \<Rightarrow> (int \<times> bytes) callback"
  assumes cb_step: "truthful W E \<Longrightarrow> cb E m m' \<Longrightarrow> vfs_reader_step W m m'"
    and open_cb: "open_cb E path (Some m) = (Reply fh, active) \<Longrightarrow>
      \<exists>p nd v sz src m'. from_utf8 path = Some p \<and> lookup_path p (mf_vfs m) = Some (Some nd, v) \<and> nd_kind nd = File sz src \<and>
        open_source E (bs_oid src) (mf_reader m) = (Inr fh, mf_reader m') \<and> active = Some m'"
    and read_cb: "0 \<le> offset \<Longrightarrow> offset < 2 ^ 63 \<Longrightarrow> fh \<noteq> 0 \<Longrightarrow> reader_pread E fh (nat offset) len (mf_reader m) = Inr bs \<Longrightarrow> length bs \<le> len \<Longrightarrow>
      read_cb E len offset fh (Some m) = (Reply (as_c_int (length bs), bs), Some m)"
begin

lemma session_ok:
  assumes "honest_world W" and "\<And>t. subtree ctx root t \<Longrightarrow> lc_load ctx t \<noteq> None" and "mount_ok W raw ctx root m" and "(session cb W)\<^sup>*\<^sup>* m m'"
  shows "mount_ok W raw ctx root m'"
  using assms(4)
proof (induction rule: rtranclp_induct)
  case (step m1 m2)
  then show ?case using cb_step mount_ok_step [OF assms(1,2) step.IH] by (auto simp: session_def)
qed (rule assms(3))

text \<open>A path that opens is a file of the commit, and the handle reads that file.\<close>

lemma open_then_read:
  assumes "honest_world W" and "\<And>t. subtree ctx root t \<Longrightarrow> good_tree ctx t" and "mount_ok W raw ctx root m0" and "(session cb W)\<^sup>*\<^sup>* m0 m"
    and "truthful W E" and "open_cb E path (Some m) = (Reply fh, active)"
  shows "\<exists>p i m1. from_utf8 path = Some p \<and> blob_at ctx root (path_components p) = Some i \<and>
    pathspec_matches_file (path_text [] (path_components p)) (lc_pathspec ctx) \<and> active = Some m1 \<and>
    (\<forall>m2 E2 offset len. rd_handles (mf_reader m2) fh = rd_handles (mf_reader m1) fh \<longrightarrow> (\<forall>off want. re_pread E2 off want = Inr want) \<longrightarrow>
       fh \<noteq> 0 \<longrightarrow> 0 \<le> offset \<longrightarrow> offset < 2 ^ 63 \<longrightarrow> nat offset + len \<le> u64_max \<longrightarrow>
       (let bs = take len (drop (nat offset) (true_content W i))
        in read_cb E2 len offset fh (Some m2) = (Reply (as_c_int (length bs), bs), Some m2)))"
proof -
  have load: "lc_load ctx t \<noteq> None" if "subtree ctx root t" for t using assms(2) [OF that] by (auto simp: good_tree_def)
  have "mount_ok W raw ctx root m" by (rule session_ok [OF assms(1) load assms(3,4)])
  then obtain org where v: "dv_lazy (mf_vfs m) = Some ctx" "lazy_ok ctx root (dv_state (mf_vfs m)) org" and rd: "reader_ok W raw (mf_reader m)"
    by (auto simp: mount_ok_def lazy_inv_def)
  obtain p nd v1 sz src m1 where o: "from_utf8 path = Some p" "lookup_path p (mf_vfs m) = Some (Some nd, v1)" "nd_kind nd = File sz src"
    "open_source E (bs_oid src) (mf_reader m) = (Inr fh, mf_reader m1)" "active = Some m1"
    using open_cb [OF assms(6)] by blast
  from lookup_path_shows [OF v load, of p] o(2) obtain org' where ok: "lazy_ok ctx root (dv_state v1) org'"
    and rel: "rel_option (\<lambda>k nd. shows_as (dv_state v1) org' k (nd_inode nd) \<and> vs_nodes (dv_state v1) (nd_inode nd) = Some nd)
      (tree_lookup ctx (PendingDir root []) (path_components p)) (Some nd)" by auto
  have isfile: "sz = u64_max \<and> tree_lookup ctx (PendingDir root []) (path_components p) = Some (PendingFile (bs_oid src))"
    using shows_file_iff [OF ok rel, of "bs_oid src"] shows_kind [OF ok rel] o(3) by auto
  then have "path_components p \<noteq> []" by auto
  with isfile tree_lookup_file [where root = root and t = root and p = "[]", OF assms(2) subtree.top this]
  have "blob_at ctx root (path_components p) = Some (bs_oid src)" "pathspec_matches_file (path_text [] (path_components p)) (lc_pathspec ctx)"
    by simp_all
  moreover have "read_cb E2 len offset fh (Some m2) = (Reply (as_c_int (length bs), bs), Some m2)"
    if "rd_handles (mf_reader m2) fh = rd_handles (mf_reader m1) fh" "\<forall>off want. re_pread E2 off want = Inr want"
      "fh \<noteq> 0" "0 \<le> offset" "offset < 2 ^ 63" "nat offset + len \<le> u64_max" "bs = take len (drop (nat offset) (true_content W (bs_oid src)))"
    for m2 E2 offset len bs
  proof -
    obtain d where "rd_handles (mf_reader m1) fh = Some d" "good_handle (true_content W (bs_oid src)) d"
      using open_source_ok [OF assms(1,5) rd o(4)] by auto
    then have "reader_pread E2 fh (nat offset) len (mf_reader m2) = Inr bs"
      using good_handle_pread that by auto
    with that show ?thesis by (intro read_cb) auto
  qed
  ultimately show ?thesis using o(1,5) by (auto simp: Let_def)
qed

end

section \<open>The backends\<close>

inductive libfuse_cb :: "reader_env \<Rightarrow> mount_fs \<Rightarrow> mount_fs \<Rightarrow> bool" for E where
  "op_getattr E owner path stbuf (Some m) = (x, Some m') \<Longrightarrow> libfuse_cb E m m'"
| "op_open E path fi (Some m) = (y, Some m') \<Longrightarrow> libfuse_cb E m m'"
| "op_read E buf len offset fh (Some m) = (z, Some m') \<Longrightarrow> libfuse_cb E m m'"
| "op_release fh (Some m) = (u, Some m') \<Longrightarrow> libfuse_cb E m m'"
| "op_readdir path (Some m) = (w, Some m') \<Longrightarrow> libfuse_cb E m m'"

inductive winfsp_cb :: "reader_env \<Rightarrow> mount_fs \<Rightarrow> mount_fs \<Rightarrow> bool" for E where
  "win_getattr E path stbuf (Some m) = (x, Some m') \<Longrightarrow> winfsp_cb E m m'"
| "win_open E path present (Some m) = (y, Some m') \<Longrightarrow> winfsp_cb E m m'"
| "win_read E buf len offset fh (Some m) = (z, Some m') \<Longrightarrow> winfsp_cb E m m'"
| "win_release fh (Some m) = (u, Some m') \<Longrightarrow> winfsp_cb E m m'"
| "win_readdir path (Some m) = (w, Some m') \<Longrightarrow> winfsp_cb E m m'"

lemma getattr_node_step: "truthful W E \<Longrightarrow> getattr_node E owner nd m = (x, m') \<Longrightarrow> vfs_reader_step W m m'"
  by (auto simp: getattr_node_def split: node_kind.splits intro!: reader_call_step reader_step.stat)

lemma getattr_step: "truthful W E \<Longrightarrow> with_node path (getattr_node E owner) (Some m) = (x, Some m') \<Longrightarrow> vfs_reader_step W m m'"
  by (rule with_node_keeps, assumption) (simp add: getattr_node_step)

text \<open>Opening, in either backend, up to what it checks before.\<close>

definition open_node :: "reader_env \<Rightarrow> nat option \<Rightarrow> node \<Rightarrow> mount_fs \<Rightarrow> u64 reply \<times> mount_fs" where
  "open_node E refused nd m =
     (case nd_kind nd of
        Dir \<Rightarrow> (Errno EISDIR, m)
      | File sz src \<Rightarrow>
          (case refused of Some e \<Rightarrow> (Errno e, m) | None \<Rightarrow> reader_call (open_source E (bs_oid src)) (\<lambda>fh. fh) m))"

lemma opens_by_node:
  "op_open E path fi = with_node path (open_node E (case fi of None \<Rightarrow> Some EIO | Some flags \<Rightarrow> if flags AND 3 \<noteq> 0 then Some EROFS else None))"
  "win_open E path present = with_node path (open_node E (if present then None else Some EIO))"
proof -
  have k: "(\<lambda>node m. case nd_kind node of Dir \<Rightarrow> (Errno EISDIR, m)
       | File sz src \<Rightarrow> (case fi of None \<Rightarrow> (Errno EIO, m)
            | Some flags \<Rightarrow> if flags AND 3 \<noteq> 0 then (Errno EROFS, m) else reader_call (open_source E (bs_oid src)) (\<lambda>fh. fh) m)) =
     open_node E (case fi of None \<Rightarrow> Some EIO | Some flags \<Rightarrow> if flags AND 3 \<noteq> 0 then Some EROFS else None)"
    by (intro ext) (auto simp: open_node_def split: node_kind.split option.split)
  show "op_open E path fi = with_node path (open_node E (case fi of None \<Rightarrow> Some EIO | Some flags \<Rightarrow> if flags AND 3 \<noteq> 0 then Some EROFS else None))"
    unfolding op_open_def k ..
  have k: "(\<lambda>node m. case nd_kind node of Dir \<Rightarrow> (Errno EISDIR, m)
       | File sz src \<Rightarrow> if \<not> present then (Errno EIO, m) else reader_call (open_source E (bs_oid src)) (\<lambda>fh. fh) m) =
     open_node E (if present then None else Some EIO)"
    by (intro ext) (auto simp: open_node_def split: node_kind.split)
  show "win_open E path present = with_node path (open_node E (if present then None else Some EIO))"
    unfolding win_open_def k ..
qed

lemma open_node_step: "truthful W E \<Longrightarrow> open_node E refused nd m = (x, m') \<Longrightarrow> vfs_reader_step W m m'"
  by (auto simp: open_node_def split: node_kind.splits option.splits intro!: reader_call_step reader_step.opened)

lemma open_step: "truthful W E \<Longrightarrow> with_node path (open_node E refused) (Some m) = (x, Some m') \<Longrightarrow> vfs_reader_step W m m'"
  by (rule with_node_keeps, assumption) (simp add: open_node_step)

lemma open_reply:
  assumes "with_node path (open_node E refused) (Some m) = (Reply fh, active)"
  shows "\<exists>p nd v sz src m'. cstr_to_path path = Some p \<and> lookup_path p (mf_vfs m) = Some (Some nd, v) \<and> nd_kind nd = File sz src \<and>
        open_source E (bs_oid src) (mf_reader m) = (Inr fh, mf_reader m') \<and> active = Some m'"
  using assms
  by (auto simp: with_node_def open_node_def reader_call_def split: option.splits prod.splits node_kind.splits sum.splits filter_error.splits)

lemma release_step: "map_option (\<lambda>m. m\<lparr>mf_reader := snd (close fh (mf_reader m))\<rparr>) (Some m) = Some m' \<Longrightarrow> vfs_reader_step W m m'"
  using reader_step.closed [of fh "mf_reader m" _ _ W] by (cases "close fh (mf_reader m)") (auto simp: vfs_reader_step_def)

lemma readdir_step: "op_readdir path (Some m) = (x, Some m') \<Longrightarrow> vfs_reader_step W m m'"
  unfolding op_readdir_def
  by (erule with_node_keeps)
    (auto simp: vfs_reader_step_def split: if_splits option.splits prod.splits intro: vfs_step.list)

interpretation libfuse: mount_backend libfuse_cb "\<lambda>E path. op_open E (Some path) (Some 0)" "\<lambda>E len offset fh. op_read E True len offset (Some fh)"
proof
  fix W E m m'
  assume t: "truthful W E" and "libfuse_cb E m m'"
  from this(2) show "vfs_reader_step W m m'"
  proof cases
    case (1 owner path stbuf x)
    with getattr_step [OF t] show ?thesis by (cases stbuf) (auto simp: op_getattr_def)
  next
    case (2 path fi y)
    with open_step [OF t] show ?thesis by (simp add: opens_by_node)
  next
    case (3 buf len offset fh z)
    then show ?thesis by (auto simp: op_read_def split: if_splits option.splits)
  next
    case (4 fh u)
    with release_step show ?thesis by (auto simp: op_release_def split: if_splits option.splits)
  next
    case (5 path w)
    with readdir_step show ?thesis by blast
  qed
qed (use open_reply in \<open>fastforce simp: opens_by_node cstr_to_path_def\<close>, simp add: op_read_def)

text \<open>WinFsp shares what it does after its own checks.\<close>

lemma win_shared: "win_readdir = op_readdir" "win_release = op_release"
  by (simp_all add: fun_eq_iff win_readdir_def op_readdir_def win_release_def op_release_def)

interpretation winfsp: mount_backend winfsp_cb "\<lambda>E path. win_open E (Some path) True" "\<lambda>E len offset fh. win_read E True len offset (Some fh)"
proof
  fix W E m m'
  assume t: "truthful W E" and "winfsp_cb E m m'"
  from this(2) show "vfs_reader_step W m m'"
  proof cases
    case (1 path stbuf x)
    with getattr_step [OF t] show ?thesis by (cases stbuf) (auto simp: win_getattr_def)
  next
    case (2 path present y)
    with open_step [OF t] show ?thesis by (simp add: opens_by_node)
  next
    case (3 buf len offset fh z)
    then show ?thesis by (auto simp: win_read_def split: if_splits option.splits)
  next
    case (4 fh u)
    with release_step show ?thesis by (auto simp: win_shared op_release_def split: if_splits option.splits)
  next
    case (5 path w)
    with readdir_step show ?thesis by (simp add: win_shared)
  qed
qed (use open_reply in \<open>fastforce simp: opens_by_node cstr_to_path_def\<close>, simp add: win_read_def)

section \<open>The mount of a revision\<close>

lemma new_reader_ok: "manifests_true W raw fs \<Longrightarrow> new_reader E raw fs = Inr rd \<Longrightarrow> reader_ok W raw rd"
  by (auto simp: new_reader_def reader_ok_def lru_new_def split: option.splits)

lemma in_context_Mounted: "in_context what r k = Mounted m x \<Longrightarrow> \<exists>y. r = Inr y \<and> k y = Mounted m x"
  by (cases r) (auto simp: in_context_def with_context_def rmap_err_def)

lemma run_rev_Mounted:
  assumes "run_rev M args = Mounted m result"
  obtains commit tree raw rd r vfs where "resolve_commit_and_tree (me_revs M) (mr_rev args) = Inr (commit, tree)" "me_config M = Inr raw"
    "new_reader (me_reader M) raw (me_fs M) = Inr rd"
    "readdir ROOT_INODE (build_single_lazy \<lparr>lc_load = me_trees M, lc_pathspec = mr_paths args\<rparr> tree) = Some (r, vfs)"
    "m = \<lparr>mf_vfs = vfs, mf_reader = rd\<rparr>"
  using assms unfolding run_rev_def
  by (auto simp: hand_over_def split: sum.splits option.splits prod.splits if_splits dest!: in_context_Mounted)

lemma run_rev_ok:
  assumes "run_rev M args = Mounted m result" and "resolve_commit_and_tree (me_revs M) (mr_rev args) = Inr (commit, root)"
    and "me_config M = Inr raw" and "manifests_true W raw (me_fs M)" and "\<And>t. subtree \<lparr>lc_load = me_trees M, lc_pathspec = mr_paths args\<rparr> root t \<Longrightarrow> me_trees M t \<noteq> None"
  shows "mount_ok W raw \<lparr>lc_load = me_trees M, lc_pathspec = mr_paths args\<rparr> root m"
proof -
  from run_rev_Mounted [OF assms(1)] assms(2,3) obtain rd r vfs where m: "new_reader (me_reader M) raw (me_fs M) = Inr rd"
    "readdir ROOT_INODE (build_single_lazy \<lparr>lc_load = me_trees M, lc_pathspec = mr_paths args\<rparr> root) = Some (r, vfs)"
    "m = \<lparr>mf_vfs = vfs, mf_reader = rd\<rparr>" by (metis Pair_inject sum.inject(2))
  have "lazy_inv \<lparr>lc_load = me_trees M, lc_pathspec = mr_paths args\<rparr> root vfs"
    using lazy_inv_step [OF lazy_inv_start _ vfs_step.list [OF m(2)]] assms(5) by simp
  with new_reader_ok [OF assms(4) m(1)] m(3) show ?thesis by (simp add: mount_ok_def)
qed

text \<open>C13: reading a path of a mounted revision gives that revision's file. Once \<open>git-bale mount\<close> has mounted a revision, and after any
  callbacks, a path the kernel opens is a path of the commit that the filters select, and until the handle is closed every read through
  it gives the bytes of that blob's content at the offset: the blob itself, or what its pointer stands for. So for libfuse, and so for
  WinFsp with the same file system behind it.\<close>

theorem mounted_path_reads_commit:
  fixes M args
  defines "ctx \<equiv> \<lparr>lc_load = me_trees M, lc_pathspec = mr_paths args\<rparr>"
  assumes "run_rev M args = Mounted m0 result" and "resolve_commit_and_tree (me_revs M) (mr_rev args) = Inr (commit, root)"
    and "me_config M = Inr raw" and "manifests_true W raw (me_fs M)" and "honest_world W"
    and "\<And>t. subtree ctx root t \<Longrightarrow> good_tree ctx t" and "truthful W E"
    and "(cb, opener, reads) \<in> {(libfuse_cb, \<lambda>E path. op_open E (Some path) (Some 0), \<lambda>E len offset fh. op_read E True len offset (Some fh)),
      (winfsp_cb, \<lambda>E path. win_open E (Some path) True, \<lambda>E len offset fh. win_read E True len offset (Some fh))}"
    and "(session cb W)\<^sup>*\<^sup>* m0 m" and "opener E path (Some m) = (Reply fh, active)"
  shows "\<exists>p i m1. from_utf8 path = Some p \<and> blob_at ctx root (path_components p) = Some i \<and>
    pathspec_matches_file (path_text [] (path_components p)) (mr_paths args) \<and> active = Some m1 \<and>
    (\<forall>m2 E2 offset len. rd_handles (mf_reader m2) fh = rd_handles (mf_reader m1) fh \<longrightarrow> (\<forall>off want. re_pread E2 off want = Inr want) \<longrightarrow>
       fh \<noteq> 0 \<longrightarrow> 0 \<le> offset \<longrightarrow> offset < 2 ^ 63 \<longrightarrow> nat offset + len \<le> u64_max \<longrightarrow>
       (let bs = take len (drop (nat offset) (true_content W i))
        in reads E2 len offset fh (Some m2) = (Reply (as_c_int (length bs), bs), Some m2)))"
proof -
  have "me_trees M t \<noteq> None" if "subtree ctx root t" for t using assms(7) [OF that] by (auto simp: good_tree_def ctx_def)
  then have start: "mount_ok W raw ctx root m0" unfolding ctx_def by (intro run_rev_ok [OF assms(2-5)]) blast
  have paths: "mr_paths args = lc_pathspec ctx" by (simp add: ctx_def)
  from assms(9) consider
    (libfuse) "cb = libfuse_cb" "opener = (\<lambda>E path. op_open E (Some path) (Some 0))" "reads = (\<lambda>E len offset fh. op_read E True len offset (Some fh))"
    | (winfsp) "cb = winfsp_cb" "opener = (\<lambda>E path. win_open E (Some path) True)" "reads = (\<lambda>E len offset fh. win_read E True len offset (Some fh))"
    by auto
  then show ?thesis
  proof cases
    case libfuse
    show ?thesis
      using libfuse.open_then_read [OF assms(6,7) start _ assms(8)] assms(10,11) unfolding libfuse paths by simp
  next
    case winfsp
    show ?thesis
      using winfsp.open_then_read [OF assms(6,7) start _ assms(8)] assms(10,11) unfolding winfsp paths by simp
  qed
qed

text \<open>A diff mount never panics while it is set up.\<close>

lemma in_context_panic: "in_context what r k = MountPanic \<Longrightarrow> \<exists>y. k y = MountPanic"
  by (cases r) (auto simp: in_context_def with_context_def rmap_err_def)

lemma run_mount_diff_no_panic: "run_mount_diff M args \<noteq> MountPanic"
proof
  assume "run_mount_diff M args = MountPanic"
  then obtain entries a b where "build entries a b = None"
    unfolding run_mount_diff_def
    by (auto simp: hand_over_def Let_def split: sum.splits option.splits if_splits dest!: in_context_panic)
  moreover have "build entries a b \<noteq> None"
    using build_entries_wf [OF root_wf, of entries a b] by (auto simp: build_def add_eager_root_def)
  ultimately show False by simp
qed

end
