(* ===== verification/Mount_Example.thy ===== *)
theory Mount_Example
  imports Filter_Example Fuse_Content
begin

text \<open>
  A repository with one pointer blob whose content a server delivers, to run the reader's properties on.
\<close>

definition ex_mount_manifests :: manifest_lib where
  "ex_mount_manifests = \<lparr>ml_to_vec_pretty = (\<lambda>m. if m = ex_manifest then Inr [5] else Inl ''unsupported''),
     ml_from_slice = (\<lambda>bs. if bs = [5, 0x0A] then Some ex_manifest else None)\<rparr>"

definition ex_world :: mount_world where
  "ex_world = \<lparr>mw_json = ex_json, mw_manifests = ex_mount_manifests, mw_objects = (\<lambda>_. as_bytes ex_ptr),
     mw_content = (\<lambda>_. [1, 2, 3]), mw_xorb = (\<lambda>_ _ _. [9, 9, 9, 9, 9])\<rparr>"

definition ex_reader_env :: reader_env where
  "ex_reader_env = \<lparr>re_filter = ex_filter_env\<lparr>fe_manifests := ex_mount_manifests,
       fe_resolve := Inr \<lparr>ra_server_url = ''s'', ra_token = ''t'', ra_token_expiration = 9\<rparr>,
       fe_cold_download := (\<lambda>_ _ _. ([Poll 0, Finished (Inr ())], [1, 2, 3]))\<rparr>,
     re_from_hex = (\<lambda>_. None), re_find_object = (\<lambda>_. Inr (Blob, as_bytes ex_ptr)), re_runtime = None, re_cache = None,
     re_slurp = None, re_reopen = None, re_pread = (\<lambda>_ want. Inr want)\<rparr>"

lemma ex_world_honest: "honest_world ex_world"
  using ex_ptr_facts(2) by (auto simp: honest_world_def ex_world_def ex_mount_manifests_def ex_file_info_def split: if_splits)

lemma ex_reader_truthful: "truthful ex_world ex_reader_env"
  by (auto simp: truthful_def ex_world_def ex_reader_env_def ex_filter_env_def)

definition ex_reader :: reader where
  "ex_reader = \<lparr>rd_repo = True, rd_raw = Some (ex_raw False), rd_rt = True, rd_chunk_cache = True, rd_bale_cfg = None,
     rd_size_cache = Map.empty, rd_plain_cache = Map.empty, rd_bale_cache = lru_new BALE_LRU_BUDGET_BYTES,
     rd_handles = Map.empty, rd_next_handle = 0, rd_fs = []\<rparr>"

lemma ex_ptr_looks: "looks_like_pointer (as_bytes ex_ptr)"
  by code_simp

lemma ex_content: "true_content ex_world oid = [1, 2, 3]"
  using ex_ptr_looks ex_ptr_facts(2) by (simp add: true_content_def ex_world_def)

lemma ex_new_reader: "new_reader ex_reader_env (ex_raw False) [] = Inr ex_reader"
  by (simp add: new_reader_def ex_reader_env_def ex_reader_def)

lemma ex_manifests_true: "manifests_true ex_world (ex_raw False) []"
  by (simp add: manifests_true_def)

lemma ex_read_blob: "read_blob ex_reader_env oid ex_reader = (Inr (as_bytes ex_ptr), ex_reader)"
  by (simp add: read_blob_def repo_thread_local_def sbind_def r_fault_def r_lift_def ex_reader_env_def ex_reader_def with_context_def rmap_err_def)

lemma ex_reconstruct: "\<exists>s'. reconstruct_bale_to_tempfile ex_reader_env ex_file_info ex_reader = (Inr [1, 2, 3], s') \<and> rd_next_handle s' = 0"
proof -
  have "is_safe_file_id (xfi_hash ex_file_info)"
    using ex_hex(1) by (simp add: ex_file_info_def is_safe_file_id_def is_64_lower_hex_def)
  then show ?thesis
    by (simp add: reconstruct_bale_to_tempfile_def ex_file_info_def cache_attempt_def manifest_load_def sbind_def r_fault_def r_lift_def rmap_err_def
        download_from_server_def resolved_cfg_def download_cold_def cold_download_stall_secs_def DEFAULT_DOWNLOAD_STALL_SECS_def STALL_POLL_def
        backfill_manifest_def ex_reader_env_def ex_filter_env_def ex_reader_def ex_raw_def default_config_def Let_def)
qed

lemma ex_open: "\<exists>fh s1. open_source ex_reader_env oid ex_reader = (Inr fh, s1) \<and> fh = 1"
proof -
  obtain s' where rec: "reconstruct_bale_to_tempfile ex_reader_env ex_file_info ex_reader = (Inr [1, 2, 3], s')" "rd_next_handle s' = 0" using ex_reconstruct by blast
  have look: "lru_lookup h ex_reader = (Inr None, ex_reader)" for h
    by (simp add: lru_lookup_def lru_get_def ex_reader_def lru_new_def)
  have "\<exists>d s1. materialize_pointer ex_reader_env ex_file_info ex_reader = (Inr d, s1) \<and> rd_next_handle s1 = 0"
    unfolding materialize_pointer_def sbind_Inr [where m = "lru_lookup (xfi_hash ex_file_info)", OF look] option.case
    using rec by (simp add: sbind_def r_lift_def r_fault_def ok_or_def lru_store_def ex_file_info_def BALE_LRU_BUDGET_BYTES_def
        ex_reader_env_def rmap_err_def)
  moreover have "parse_pointer (fe_json (re_filter ex_reader_env)) (as_bytes ex_ptr) = Inr ex_file_info"
    using ex_ptr_facts(2) by (simp add: ex_reader_env_def ex_filter_env_def)
  moreover have "rd_plain_cache ex_reader oid = None" by (simp add: ex_reader_def)
  ultimately have "\<exists>d s1. materialize ex_reader_env oid ex_reader = (Inr d, s1) \<and> rd_next_handle s1 = 0"
    using ex_ptr_looks by (simp add: materialize_def sbind_Inr [where m = "read_blob ex_reader_env oid", OF ex_read_blob])
  then show ?thesis by (auto simp: open_source_def Let_def)
qed

lemma mounted_file_reads_content_example:
  "\<exists>fh s1. open_source ex_reader_env ''o'' ex_reader = (Inr fh, s1) \<and> reader_pread ex_reader_env fh 1 5 s1 = Inr [2, 3]"
proof -
  obtain fh s1 where o: "open_source ex_reader_env ''o'' ex_reader = (Inr fh, s1)" using ex_open by blast
  have c: "true_content ex_world ''o'' = [1, 2, 3]" by (rule ex_content)
  have "reader_pread ex_reader_env fh 1 5 s1 = Inr (take 5 (drop 1 (true_content ex_world ''o'')))"
    using mounted_file_reads_content [OF ex_world_honest ex_manifests_true ex_new_reader rtranclp.rtrancl_refl ex_reader_truthful, of "''o''"] o
    by (simp add: ex_reader_env_def u64_max_def)
  with o c show ?thesis by auto
qed

section \<open>The mount\<close>

lemma ex_mount_lookup:
  assumes "lazy_inv example_trees ''root'' v"
  shows "\<exists>nd v'. lookup_path ''/d/f'' v = Some (Some nd, v') \<and> nd_kind nd = File u64_max \<lparr>bs_oid = ''b1''\<rparr>"
proof -
  let ?p = "path_components ''/d/f''"
  obtain org where v: "dv_lazy v = Some example_trees" "lazy_ok example_trees ''root'' (dv_state v) org"
    using assms by (auto simp: lazy_inv_def)
  have load: "lc_load example_trees t \<noteq> None" if "subtree example_trees ''root'' t" for t
    using example_good [OF that] by (auto simp: good_tree_def)
  from lookup_path_shows [OF v load, of "''/d/f''"] obtain r v' org' where
    w: "lookup_path ''/d/f'' v = Some (r, v')" "lazy_ok example_trees ''root'' (dv_state v') org'"
    and rel: "rel_option (\<lambda>k nd. shows_as (dv_state v') org' k (nd_inode nd) \<and> vs_nodes (dv_state v') (nd_inode nd) = Some nd)
      (tree_lookup example_trees (PendingDir ''root'' []) ?p) r" by blast
  have "blob_at example_trees ''root'' ?p = Some ''b1''" "pathspec_matches_file (path_text [] ?p) (lc_pathspec example_trees)" "?p \<noteq> []" by code_simp+
  then have "tree_lookup example_trees (PendingDir ''root'' []) ?p = Some (PendingFile ''b1'')"
    using tree_lookup_file [where root = "''root''" and t = "''root''" and p = "[]" and ctx = example_trees, OF example_good subtree.top] by simp
  with shows_file_iff [OF w(2) rel, of "''b1''"] w(1) show ?thesis by auto
qed

lemma ex_op_open:
  assumes "lazy_inv example_trees ''root'' (mf_vfs m)" and "mf_reader m = ex_reader"
  shows "\<exists>m'. op_open ex_reader_env (Some (as_bytes ''/d/f'')) (Some 0) (Some m) = (Reply 1, Some m')"
proof -
  obtain nd v where l: "lookup_path ''/d/f'' (mf_vfs m) = Some (Some nd, v)" "nd_kind nd = File u64_max \<lparr>bs_oid = ''b1''\<rparr>"
    using ex_mount_lookup [OF assms(1)] by blast
  obtain s1 where o: "open_source ex_reader_env ''b1'' ex_reader = (Inr 1, s1)" using ex_open by blast
  have p: "from_utf8 (as_bytes ''/d/f'') = Some ''/d/f''" by code_simp
  show ?thesis using l o by (simp add: op_open_def with_node_def cstr_to_path_def p assms(2) reader_call_def)
qed

definition ex_mount_env :: mount_env where
  "ex_mount_env = \<lparr>me_cwd = Inr ''w'',
     me_revs = \<lparr>rv_open = None, rv_parse = (\<lambda>r. Inr ''c''), rv_object = (\<lambda>_. None), rv_peel = Inr, rv_tree = (\<lambda>_. Inr ''root''),
       rv_changes = (\<lambda>_ _. Inr []), rv_lossy = id\<rparr>,
     me_trees = lc_load example_trees, me_config = Inr (ex_raw False), me_reader = ex_reader_env, me_fs = [], me_debug = concat,
     me_debug_label = id,
     me_libfuse = \<lparr>lf_point = ''m'', lf_exists = True, lf_is_dir = True, lf_utf8 = True, lf_load = (\<lambda>_. None), lf_symbol = None,
       lf_nul = None, lf_main = Pair 0\<rparr>\<rparr>"

definition ex_mount_args :: mount_rev_args where
  "ex_mount_args = \<lparr>mr_rev = ''HEAD'', mr_paths = [''d/'']\<rparr>"

lemma ex_ctx: "\<lparr>lc_load = me_trees ex_mount_env, lc_pathspec = mr_paths ex_mount_args\<rparr> = example_trees"
  by (simp add: ex_mount_env_def ex_mount_args_def example_trees_def)

lemma ex_listing: "\<exists>es v. readdir ROOT_INODE (build_single_lazy example_trees ''root'') = Some (Some es, v) \<and> es \<noteq> []"
proof -
  have "case readdir ROOT_INODE (build_single_lazy example_trees ''root'') of Some (Some (e # es), v) \<Rightarrow> True | _ \<Rightarrow> False"
    by code_simp
  then show ?thesis by (auto split: option.splits list.splits)
qed

lemma ex_run_rev: "\<exists>v r. run_rev ex_mount_env ex_mount_args = Mounted \<lparr>mf_vfs = v, mf_reader = ex_reader\<rparr> r \<and> lazy_inv example_trees ''root'' v"
proof -
  obtain es v where l: "readdir ROOT_INODE (build_single_lazy example_trees ''root'') = Some (Some es, v)" "es \<noteq> []" using ex_listing by blast
  have "lc_load example_trees t \<noteq> None" if "subtree example_trees ''root'' t" for t
    using example_good [OF that] by (auto simp: good_tree_def)
  then have "lazy_inv example_trees ''root'' v" using lazy_inv_step [OF lazy_inv_start _ vfs_step.list [OF l(1)]] by blast
  moreover have "ensure_available (lf_load (me_libfuse ex_mount_env)) = Inr ()" "me_cwd ex_mount_env = Inr ''w''"
    "open_repo (me_revs ex_mount_env) ''w'' = Inr ()"
    "resolve_commit_and_tree (me_revs ex_mount_env) (mr_rev ex_mount_args) = Inr (''c'', ''root'')"
    "me_config ex_mount_env = Inr (ex_raw False)" "new_reader (me_reader ex_mount_env) (ex_raw False) (me_fs ex_mount_env) = Inr ex_reader"
    using ex_new_reader
    by (simp_all add: ex_mount_env_def ensure_available_def libfuse_candidates_def open_repo_def resolve_commit_and_tree_def load_object_def
        with_context_def)
  ultimately show ?thesis using l ex_ctx by (simp add: run_rev_def in_context_def with_context_def hand_over_def)
qed

theorem mounted_path_reads_commit_witness:
  "\<exists>m0 r m. run_rev ex_mount_env ex_mount_args = Mounted m0 r \<and>
     op_open ex_reader_env (Some (as_bytes ''/d/f'')) (Some 0) (Some m0) = (Reply 1, Some m) \<and>
     op_read ex_reader_env True 5 1 (Some 1) (Some m) = (Reply (2, [2, 3]), Some m)"
proof -
  obtain m0 r where m0: "run_rev ex_mount_env ex_mount_args = Mounted m0 r" "lazy_inv example_trees ''root'' (mf_vfs m0)" "mf_reader m0 = ex_reader"
    using ex_run_rev by fastforce
  obtain m where m: "op_open ex_reader_env (Some (as_bytes ''/d/f'')) (Some 0) (Some m0) = (Reply 1, Some m)" using ex_op_open [OF m0(2,3)] by blast
  have tree: "resolve_commit_and_tree (me_revs ex_mount_env) (mr_rev ex_mount_args) = Inr (''c'', ''root'')"
    by (simp add: ex_mount_env_def resolve_commit_and_tree_def load_object_def with_context_def)
  have cfg: "me_config ex_mount_env = Inr (ex_raw False)" "me_fs ex_mount_env = []" by (simp_all add: ex_mount_env_def)
  have "\<exists>p i m1. from_utf8 (as_bytes ''/d/f'') = Some p \<and>
    blob_at \<lparr>lc_load = me_trees ex_mount_env, lc_pathspec = mr_paths ex_mount_args\<rparr> ''root'' (path_components p) = Some i \<and>
    pathspec_matches_file (path_text [] (path_components p)) (mr_paths ex_mount_args) \<and> Some m = Some m1 \<and>
    (\<forall>m2 E2 offset len. rd_handles (mf_reader m2) 1 = rd_handles (mf_reader m1) 1 \<longrightarrow> (\<forall>off want. re_pread E2 off want = Inr want) \<longrightarrow>
       (1 :: u64) \<noteq> 0 \<longrightarrow> 0 \<le> offset \<longrightarrow> offset < 2 ^ 63 \<longrightarrow> nat offset + len \<le> u64_max \<longrightarrow>
       (let bs = take len (drop (nat offset) (true_content ex_world i))
        in op_read E2 True len offset (Some 1) (Some m2) = (Reply (as_c_int (length bs), bs), Some m2)))"
    by (rule mounted_path_reads_commit [OF m0(1) tree cfg(1) _ ex_world_honest _ ex_reader_truthful,
          where cb = libfuse_cb and opener = "\<lambda>E path. op_open E (Some path) (Some 0)"
          and reads = "\<lambda>E len offset fh. op_read E True len offset (Some fh)" and m = m0])
      (simp_all add: m cfg ex_manifests_true ex_ctx example_good)
  then obtain i where "\<And>m2 E2 offset len. rd_handles (mf_reader m2) 1 = rd_handles (mf_reader m) 1 \<Longrightarrow> (\<forall>off want. re_pread E2 off want = Inr want) \<Longrightarrow>
       0 \<le> offset \<Longrightarrow> offset < 2 ^ 63 \<Longrightarrow> nat offset + len \<le> u64_max \<Longrightarrow>
       op_read E2 True len offset (Some 1) (Some m2) = (let bs = take len (drop (nat offset) (true_content ex_world i)) in (Reply (as_c_int (length bs), bs), Some m2))"
    by (auto simp: Let_def)
  from this [of m ex_reader_env 1 5] have "op_read ex_reader_env True 5 1 (Some 1) (Some m) = (Reply (2, [2, 3]), Some m)"
    by (simp add: ex_content ex_reader_env_def u64_max_def as_c_int_def)
  with m0(1) m show ?thesis by blast
qed

end
