(* ===== verification/Prune.thy ===== *)
theory Prune
  imports Filter_Process
begin

text \<open>
  A shared local store: its registry of repositories (\<open>git-bale/src/store.rs\<close>) and its compaction (\<open>prune.rs\<close>). A compaction reconstructs
  every live file from the store, cleans it into a fresh one and swaps the two. Directories are moved by renaming the files below them.
  What other processes do to the files while the compaction runs is a parameter.
\<close>

section \<open>Registry\<close>

definition show_path :: "path \<Rightarrow> string" where
  "show_path p = CHR ''/'' # join_text ''/'' p"

definition path_of_text :: "string \<Rightarrow> path" where
  "path_of_text s = filter (\<lambda>c. c \<noteq> []) (split_on (CHR ''/'') s)"

definition registry_dir :: "path \<Rightarrow> path" where
  "registry_dir store_root = store_root @ [''repos'']"

text \<open>The operating system and BLAKE3: \<open>rg_canon\<close> makes a path absolute, \<open>rg_key\<close> is the name of a path's file, \<open>rg_entry\<close> and \<open>rg_read\<close> the
  errors of listing an entry and of reading it.\<close>

record registry_env =
  rg_faults :: save_faults
  rg_canon :: "path \<Rightarrow> string + path"
  rg_key :: "string \<Rightarrow> string"
  rg_text :: "io_error \<Rightarrow> string"
  rg_list :: "io_error option"
  rg_entry :: "string \<Rightarrow> string option"
  rg_read :: "string \<Rightarrow> string option"

definition register_repo :: "registry_env \<Rightarrow> nat \<Rightarrow> nat \<Rightarrow> path \<Rightarrow> path \<Rightarrow> fs \<Rightarrow> (string + unit) \<times> fs" where
  "register_repo R pid now store_root git_dir fs =
     (let dir = registry_dir store_root in
      case sv_mkdir (rg_faults R) of
        Some e \<Rightarrow> (Inl (''creating shared-store registry '' @ show_path dir @ '': '' @ rg_text R e), fs)
      | None \<Rightarrow>
          (case rg_canon R git_dir of
             Inl e \<Rightarrow> (Inl (''canonicalizing git dir '' @ show_path git_dir @ '': '' @ e), fs)
           | Inr abs' \<Rightarrow>
               let name = rg_key R (show_path abs');
                   tmp = dir @ [CHR ''.'' # name @ ''.tmp.'' @ show_nat pid]
               in case replace_file (rg_faults R) now tmp (dir @ [name]) (Inr (as_bytes (show_path abs'))) fs of
                    (r, fs') \<Rightarrow> (rmap_err (rg_text R) r, fs')))"

fun read_registry :: "registry_env \<Rightarrow> (string \<times> fnode) list \<Rightarrow> string + path list" where
  "read_registry R [] = Inr []"
| "read_registry R ((name, n) # es) =
     (case rg_entry R name of
        Some e \<Rightarrow> Inl e
      | None \<Rightarrow>
          if starts_with ''.'' name then read_registry R es
          else case rg_read R name of
                 Some e \<Rightarrow> Inl e
               | None \<Rightarrow>
                   (case from_utf8 (fn_body n) of
                      None \<Rightarrow> Inl ''stream did not contain valid UTF-8''
                    | Some body \<Rightarrow>
                        rbind (read_registry R es) (\<lambda>out.
                          Inr ((if trim body \<noteq> [] then [path_of_text (trim body)] else []) @ out))))"

definition registered_repos :: "registry_env \<Rightarrow> path \<Rightarrow> fs \<Rightarrow> string + path list" where
  "registered_repos R store_root fs =
     (let dir = registry_dir store_root in
      case rg_list R of
        Some e \<Rightarrow> if e = IoNotFound then Inr [] else Inl (''reading registry '' @ show_path dir @ '': '' @ rg_text R e)
      | None \<Rightarrow> rbind (read_registry R (read_dir dir fs)) (\<lambda>out. Inr (remdups_adj (sort out))))"

section \<open>What is live\<close>

text \<open>\<open>pr_exists\<close>: the directory of a registered repository is there. \<open>pr_list\<close>, \<open>pr_readable\<close>: listing its markers and reading them.
  \<open>pr_open\<close>: the repository, if it opens. \<open>pr_interfere\<close>: what others do between the two fingerprints.\<close>

record prune_env =
  pr_json :: json_lib
  pr_config :: "string + raw_config"
  pr_lock :: "string option"
  pr_registry :: registry_env
  pr_exists :: "path \<Rightarrow> bool"
  pr_list :: "path \<Rightarrow> io_error option"
  pr_readable :: "path \<Rightarrow> bool"
  pr_open :: "path \<Rightarrow> git_repo option"
  pr_unlisted :: "path \<Rightarrow> bool"
  pr_runtime :: "string option"
  pr_mkdir :: "string option"
  pr_old_config :: "string option"
  pr_new_config :: "string option"
  pr_sessions :: "string option"
  pr_tmp :: "string \<Rightarrow> string option"
  pr_download :: "path \<Rightarrow> xet_file_info \<Rightarrow> nat \<Rightarrow> fs \<Rightarrow> download"
  pr_clean :: "path \<Rightarrow> bytes \<Rightarrow> fs \<Rightarrow> (string + xet_file_info) \<times> fs"
  pr_finalize :: "path \<Rightarrow> fs \<Rightarrow> (string + unit) \<times> fs"
  pr_interfere :: "fs \<Rightarrow> fs"
  pr_unremoved :: "path \<Rightarrow> bool"
  pr_copy :: "string option"
  pr_copy_entry :: "string \<Rightarrow> string option"
  pr_aside :: "string option"
  pr_swap :: "string option"
  pr_rollback :: "string option"
  pr_pid :: nat
  pr_now :: nat

definition staged_in :: "prune_env \<Rightarrow> path \<Rightarrow> fs \<Rightarrow> (string \<times> nat option) list" where
  "staged_in P git_dir fs =
     (case list_staged_files (pr_list P git_dir) (pr_readable P) git_dir fs of Inr l \<Rightarrow> l | Inl _ \<Rightarrow> [])"

definition reachable_in_repo :: "prune_env \<Rightarrow> path \<Rightarrow> string set \<Rightarrow> string set" where
  "reachable_in_repo P git_dir want = (case pr_open P git_dir of Some repo \<Rightarrow> reachable_all (pr_json P) repo want | None \<Rightarrow> {})"

definition missing_text :: "path \<Rightarrow> string" where
  "missing_text git_dir =
     ''registered repo '' @ show_path git_dir @ '' is missing; its objects might be the only copy. '' @
     ''Re-attach it, deregister it, or pass --force to prune anyway.''"

text \<open>The candidates and the live ones among them, over all repositories.\<close>

fun scan_repos :: "prune_env \<Rightarrow> bool \<Rightarrow> path list \<Rightarrow> fs \<Rightarrow> string + (string set \<times> string set)" where
  "scan_repos P force [] fs = Inr ({}, {})"
| "scan_repos P force (git_dir # repos) fs =
     (if \<not> pr_exists P git_dir
      then if force then scan_repos P force repos fs else Inl (missing_text git_dir)
      else
        let markers = set (map fst (staged_in P git_dir fs))
        in rbind (scan_repos P force repos fs) (\<lambda>(want_all, live).
             Inr (markers \<union> want_all, reachable_in_repo P git_dir markers \<union> live)))"

text \<open>Of several markers for one file the first with a size counts.\<close>

definition sized_markers :: "prune_env \<Rightarrow> path list \<Rightarrow> fs \<Rightarrow> (string \<times> nat) list" where
  "sized_markers P repos fs =
     concat (map (\<lambda>git_dir. List.map_filter (\<lambda>(h, sz). map_option (Pair h) sz) (staged_in P git_dir fs)) (filter (pr_exists P) repos))"

definition collect_sizes :: "prune_env \<Rightarrow> path list \<Rightarrow> string list \<Rightarrow> fs \<Rightarrow> string + (string \<times> nat) list" where
  "collect_sizes P repos live fs =
     rmapM (\<lambda>h. case map_of (sized_markers P repos fs) h of
                  Some sz \<Rightarrow> Inr (h, sz)
                | None \<Rightarrow> Inl (''live file '' @ h @ '' has no sized marker in any registered repo; cannot reconstruct'')) live"

section \<open>Compaction\<close>

text \<open>The fingerprint has the names of the objects in directories that can be listed.\<close>

definition object_fingerprint :: "prune_env \<Rightarrow> path \<Rightarrow> fs \<Rightarrow> string set" where
  "object_fingerprint P dir fs =
     set (map (\<lambda>e. last (fst e))
       (filter (\<lambda>e. below dir (fst e) \<and> list_all (\<lambda>k. \<not> pr_unlisted P (take k (fst e))) [length dir..<length (fst e)] \<and>
          (starts_with ''default.'' (last (fst e)) \<or> ends_with ''.mdb'' (last (fst e)))) fs))"

definition sibling :: "path \<Rightarrow> string \<Rightarrow> nat \<Rightarrow> path" where
  "sibling store infix' pid =
     (if store = [] then [''store'' @ infix' @ show_nat pid] else butlast store @ [last store @ infix' @ show_nat pid])"

fun compact_files :: "prune_env \<Rightarrow> path \<Rightarrow> path \<Rightarrow> (string \<times> nat) list \<Rightarrow> fs \<Rightarrow> (string + unit) \<times> fs" where
  "compact_files P store new_store [] fs = (Inr (), fs)"
| "compact_files P store new_store ((file_hex, sz) # files) fs =
     (case pr_tmp P file_hex of
        Some e \<Rightarrow> (Inl e, fs)
      | None \<Rightarrow>
          (case pr_download P store \<lparr>xfi_hash = file_hex, xfi_file_size = Some sz\<rparr> sz fs of
             (Inl e, written) \<Rightarrow> (Inl (''reconstructing '' @ file_hex @ '' from old store: '' @ e), fs)
           | (Inr _, written) \<Rightarrow>
               (case pr_clean P new_store written fs of
                  (Inl e, fs) \<Rightarrow> (Inl (''re-cleaning '' @ file_hex @ '' into new store: '' @ e), fs)
                | (Inr new_info, fs) \<Rightarrow>
                    if xfi_hash new_info \<noteq> file_hex
                    then (Inl (''compaction hash mismatch for '' @ file_hex @ '' (got '' @ xfi_hash new_info @ ''); aborting before swap''), fs)
                    else compact_files P store new_store files fs)))"

definition rebuild :: "prune_env \<Rightarrow> path \<Rightarrow> path \<Rightarrow> (string \<times> nat) list \<Rightarrow> fs \<Rightarrow> (string + unit) \<times> fs" where
  "rebuild P store new_store live_sized fs =
     (case pr_sessions P of
        Some e \<Rightarrow> (Inl e, fs)
      | None \<Rightarrow>
          (case compact_files P store new_store live_sized fs of
             (Inl e, fs) \<Rightarrow> (Inl e, fs)
           | (Inr _, fs) \<Rightarrow> pr_finalize P new_store fs))"

definition remove_dir_all :: "(path \<Rightarrow> bool) \<Rightarrow> path \<Rightarrow> fs \<Rightarrow> fs" where
  "remove_dir_all kept dir fs = filter (\<lambda>e. \<not> (below dir (fst e) \<and> \<not> kept (fst e))) fs"

fun copy_entries :: "prune_env \<Rightarrow> path \<Rightarrow> (string \<times> fnode) list \<Rightarrow> fs \<Rightarrow> (string + unit) \<times> fs" where
  "copy_entries P dst [] fs = (Inr (), fs)"
| "copy_entries P dst ((name, n) # es) fs =
     (case pr_copy_entry P name of
        Some e \<Rightarrow> (Inl e, fs)
      | None \<Rightarrow> copy_entries P dst es (put_file (dst @ [name]) \<lparr>fn_body = fn_body n, fn_mtime = pr_now P\<rparr> fs))"

definition copy_registry :: "prune_env \<Rightarrow> path \<Rightarrow> path \<Rightarrow> fs \<Rightarrow> (string + unit) \<times> fs" where
  "copy_registry P src dst fs =
     (case pr_copy P of
        Some e \<Rightarrow> (Inl e, fs)
      | None \<Rightarrow> copy_entries P dst (read_dir src fs) fs)"

text \<open>A directory moves with all files below it; the target must be empty.\<close>

definition rename_dir :: "string option \<Rightarrow> path \<Rightarrow> path \<Rightarrow> fs \<Rightarrow> (string + unit) \<times> fs" where
  "rename_dir failure src dst fs =
     (case failure of
        Some e \<Rightarrow> (Inl e, fs)
      | None \<Rightarrow>
          if list_ex (\<lambda>e. below dst (fst e)) fs then (Inl ''Directory not empty'', fs)
          else (Inr (), map (\<lambda>(p, n). (if below src p then dst @ drop (length src) p else p, n)) fs))"

definition swap_stores :: "prune_env \<Rightarrow> path \<Rightarrow> path \<Rightarrow> fs \<Rightarrow> (string + unit) \<times> fs" where
  "swap_stores P store new_store fs =
     (let backup = sibling store ''.old.'' (pr_pid P) in
      case rename_dir (pr_aside P) store backup fs of
        (Inl e, fs) \<Rightarrow> (Inl (''moving old store '' @ show_path store @ '' aside: '' @ e), fs)
      | (Inr _, fs) \<Rightarrow>
          (case rename_dir (pr_swap P) new_store store fs of
             (Inl e, fs) \<Rightarrow> (Inl (''swapping compacted store into place: '' @ e), snd (rename_dir (pr_rollback P) backup store fs))
           | (Inr _, fs) \<Rightarrow> (Inr (), remove_dir_all (pr_unremoved P) backup fs)))"

definition changed_text :: "path \<Rightarrow> string" where
  "changed_text store =
     ''the shared store at '' @ show_path store @ '' changed during prune (a concurrent `git add`?) '' @ [CHR 0xE2, CHR 0x80, CHR 0x94] @
     '' no changes made. Re-run `git-bale prune --shared` when no git operations are in flight.''"

definition finish_prune :: "prune_env \<Rightarrow> path \<Rightarrow> path \<Rightarrow> string set \<Rightarrow> fs \<Rightarrow> (string + unit) \<times> fs" where
  "finish_prune P store new_store before fs =
     (if object_fingerprint P store fs \<noteq> before
      then (Inl (changed_text store), remove_dir_all (pr_unremoved P) new_store fs)
      else case copy_registry P (registry_dir store) (registry_dir new_store) fs of
             (Inl e, fs) \<Rightarrow> (Inl (''copying shared-store registry into the compacted store: '' @ e), remove_dir_all (pr_unremoved P) new_store fs)
           | (Inr _, fs) \<Rightarrow> swap_stores P store new_store fs)"

definition compact_store :: "prune_env \<Rightarrow> path \<Rightarrow> (string \<times> nat) list \<Rightarrow> fs \<Rightarrow> (string + unit) \<times> fs" where
  "compact_store P store live_sized fs =
     (let new_store = sibling store ''.compact.'' (pr_pid P) in
      case (pr_runtime P, pr_mkdir P, pr_old_config P, pr_new_config P) of
        (Some e, _) \<Rightarrow> (Inl (''starting xet runtime: '' @ e), fs)
      | (_, Some e, _) \<Rightarrow> (Inl (''creating temp store '' @ show_path new_store @ '': '' @ e), fs)
      | (_, _, Some e, _) \<Rightarrow> (Inl (''building download config for old store: '' @ e), fs)
      | (_, _, _, Some e) \<Rightarrow> (Inl (''building upload config for new store: '' @ e), fs)
      | _ \<Rightarrow>
          (case rebuild P store new_store live_sized fs of
             (Inl e, fs) \<Rightarrow> (Inl e, fs)
           | (Inr _, fs') \<Rightarrow> finish_prune P store new_store (object_fingerprint P store fs) (pr_interfere P fs')))"

definition prune_locked :: "prune_env \<Rightarrow> bool \<Rightarrow> path \<Rightarrow> fs \<Rightarrow> (string + unit) \<times> fs" where
  "prune_locked P force store fs =
     (case registered_repos (pr_registry P) store fs of
        Inl e \<Rightarrow> (Inl e, fs)
      | Inr [] \<Rightarrow> (Inl (''no repos registered against '' @ show_path store), fs)
      | Inr repos \<Rightarrow>
          (case scan_repos P force repos fs of
             Inl e \<Rightarrow> (Inl e, fs)
           | Inr (want_all, live) \<Rightarrow>
               if want_all - live = {} then (Inr (), fs)
               else (case collect_sizes P repos (sorted_list_of_set live) fs of
                       Inl e \<Rightarrow> (Inl e, fs)
                     | Inr live_sized \<Rightarrow> compact_store P store live_sized fs)))"

definition prune_run :: "prune_env \<Rightarrow> bool \<Rightarrow> fs \<Rightarrow> (string + unit) \<times> fs" where
  "prune_run P force fs =
     (case pr_config P of
        Inl e \<Rightarrow> (Inl e, fs)
      | Inr raw \<Rightarrow>
          if \<not> rc_local_mode raw \<or> \<not> rc_local_shared raw
          then (Inl ''`git-bale prune --shared` must run in a repo using a shared local store'', fs)
          else (case object_store_root raw of
                  Inl e \<Rightarrow> (Inl e, fs)
                | Inr store \<Rightarrow>
                    (case pr_lock P of
                       Some e \<Rightarrow> (Inl (''locking shared store for prune: '' @ e), fs)
                     | None \<Rightarrow> prune_locked P force store fs)))"

end
