(* ===== verification/Prune_Safe.thy ===== *)
theory Prune_Safe
  imports Prune
begin

text \<open>
  What a compaction of a shared store keeps: after success every file some registered repository still needs, after failure everything.
\<close>

section \<open>Moving directories\<close>

lemma below_append: "below d (d @ rel) \<longleftrightarrow> rel \<noteq> []"
  by (simp add: below_def starts_with_def)

lemma below_split: "below d p \<Longrightarrow> \<exists>rel. rel \<noteq> [] \<and> p = d @ rel"
  unfolding below_def starts_with_def by (metis append_take_drop_id drop_eq_Nil leD)

lemma below_disjoint: "length d = length d' \<Longrightarrow> d \<noteq> d' \<Longrightarrow> below d p \<Longrightarrow> \<not> below d' p"
  by (auto dest!: below_split)

definition untouched :: "path \<Rightarrow> fs \<Rightarrow> fs \<Rightarrow> bool" where
  "untouched d fs fs' \<longleftrightarrow> (\<forall>p. below d p \<longrightarrow> map_of fs' p = map_of fs p)"

lemma untouched_refl [simp]: "untouched d fs fs"
  by (simp add: untouched_def)

lemma untouched_trans: "untouched d fs fs1 \<Longrightarrow> untouched d fs1 fs2 \<Longrightarrow> untouched d fs fs2"
  by (simp add: untouched_def)

lemma map_of_move:
  assumes "length src = length dst" and "src \<noteq> dst" and "\<forall>e \<in> set fs. \<not> below dst (fst e)"
  defines "fs' \<equiv> map (\<lambda>(p, n). (if below src p then dst @ drop (length src) p else p, n)) fs"
  shows "map_of fs' p =
    (if below dst p then map_of fs (src @ drop (length dst) p) else if below src p then None else map_of fs p)"
  using assms(3) unfolding fs'_def
proof (induction fs)
  case (Cons e fs)
  obtain q n where e: "e = (q, n)" by fastforce
  show ?case
  proof (cases "below src q")
    case True
    then obtain rel where rel: "rel \<noteq> []" "q = src @ rel" using below_split by blast
    have "dst @ rel = p \<longleftrightarrow> below dst p \<and> src @ drop (length dst) p = q"
      using rel below_split [of dst p] below_append [of dst rel] by auto
    moreover have "\<not> below dst q" using below_disjoint [OF assms(1,2) True] .
    moreover have "p = q \<Longrightarrow> \<not> below dst p \<Longrightarrow> below src p" using True by simp
    ultimately show ?thesis using Cons e True rel by auto
  next
    case False
    have "\<not> below dst q" using Cons.prems e by simp
    moreover have "src @ drop (length dst) p \<noteq> q" if "below dst p"
    proof
      assume "src @ drop (length dst) p = q"
      moreover have "drop (length dst) p \<noteq> []" using that below_split by fastforce
      ultimately show False using False below_append by metis
    qed
    ultimately show ?thesis using Cons e False by auto
  qed
qed (simp add: if_splits)

lemma rename_dir_Inr:
  assumes "rename_dir f src dst fs = (Inr u, fs')" and "length src = length dst" and "src \<noteq> dst"
  shows "map_of fs' p = (if below dst p then map_of fs (src @ drop (length dst) p) else if below src p then None else map_of fs p)"
proof -
  have fs': "fs' = map (\<lambda>(p, n). (if below src p then dst @ drop (length src) p else p, n)) fs" and free: "\<forall>e \<in> set fs. \<not> below dst (fst e)"
    using assms(1) by (auto simp: rename_dir_def list_ex_iff split: option.splits if_splits)
  show ?thesis unfolding fs' by (rule map_of_move [OF assms(2,3) free])
qed

lemma rename_dir_Inl: "rename_dir f src dst fs = (Inl e, fs') \<Longrightarrow> fs' = fs"
  by (auto simp: rename_dir_def split: option.splits if_splits)

lemma rename_dir_free:
  assumes "\<And>p. below dst p \<Longrightarrow> map_of fs p = None"
  shows "\<exists>fs'. rename_dir None src dst fs = (Inr (), fs')"
proof -
  have "\<not> list_ex (\<lambda>e. below dst (fst e)) fs"
  proof
    assume "list_ex (\<lambda>e. below dst (fst e)) fs"
    then obtain p n where "(p, n) \<in> set fs" "below dst p" by (auto simp: list_ex_iff)
    with assms show False by (metis weak_map_of_SomeI option.distinct(1))
  qed
  then show ?thesis by (simp add: rename_dir_def)
qed

lemma map_of_remove_dir_all: "map_of (remove_dir_all kept dir fs) p = (if below dir p \<and> \<not> kept p then None else map_of fs p)"
  unfolding remove_dir_all_def
  using map_of_filter [of "\<lambda>p. \<not> (below dir p \<and> \<not> kept p)" p fs] map_of_filter_None [of "\<lambda>p. \<not> (below dir p \<and> \<not> kept p)" p fs] by simp

text \<open>The fresh store and the old one set aside are directories beside the store, with names of their own.\<close>

lemma sibling_facts:
  assumes "store \<noteq> []"
  shows "length (sibling store x pid) = length store" "sibling store ''.old.'' pid \<noteq> sibling store ''.compact.'' pid"
    "sibling store ''.old.'' pid \<noteq> store" "sibling store ''.compact.'' pid \<noteq> store"
proof -
  have "store = butlast store @ [last store]" using assms by simp
  then have "sibling store x pid = store \<Longrightarrow> last store @ x @ show_nat pid = last store" for x
    using assms unfolding sibling_def by (metis last_snoc)
  then show "sibling store ''.old.'' pid \<noteq> store" "sibling store ''.compact.'' pid \<noteq> store" by auto
qed (use assms in \<open>simp_all add: sibling_def\<close>)

section \<open>What the store library promises\<close>

fun clean_all :: "(path \<Rightarrow> bytes \<Rightarrow> fs \<Rightarrow> (string + xet_file_info) \<times> fs) \<Rightarrow> path \<Rightarrow> bytes list \<Rightarrow> fs \<Rightarrow> (string + xet_file_info list) \<times> fs" where
  "clean_all clean store [] fs = (Inr [], fs)"
| "clean_all clean store (b # bs) fs =
     (case clean store b fs of
        (Inl e, fs) \<Rightarrow> (Inl e, fs)
      | (Inr info, fs) \<Rightarrow>
          (case clean_all clean store bs fs of
             (Inl e, fs) \<Rightarrow> (Inl e, fs)
           | (Inr infos, fs) \<Rightarrow> (Inr (info # infos), fs)))"

text \<open>A session writes below its store only; a download reads the store only, wherever the store is and whatever the registry in it holds;
  and once a session is finalized every file cleaned in it can be downloaded.\<close>

definition store_laws ::
  "(path \<Rightarrow> bytes \<Rightarrow> fs \<Rightarrow> (string + xet_file_info) \<times> fs) \<Rightarrow> (path \<Rightarrow> fs \<Rightarrow> (string + unit) \<times> fs) \<Rightarrow>
   (path \<Rightarrow> xet_file_info \<Rightarrow> nat \<Rightarrow> fs \<Rightarrow> download) \<Rightarrow> bool" where
  "store_laws clean finalize download \<longleftrightarrow>
     (\<forall>store b fs r fs' p. clean store b fs = (r, fs') \<longrightarrow> \<not> below store p \<longrightarrow> map_of fs' p = map_of fs p) \<and>
     (\<forall>store fs r fs' p. finalize store fs = (r, fs') \<longrightarrow> \<not> below store p \<longrightarrow> map_of fs' p = map_of fs p) \<and>
     (\<forall>s fs s' fs' info n. (\<forall>c rel. c \<noteq> ''repos'' \<longrightarrow> map_of fs' (s' @ c # rel) = map_of fs (s @ c # rel)) \<longrightarrow>
        download s' info n fs' = download s info n fs) \<and>
     (\<forall>store bs fs infos fs1 fs2. clean_all clean store bs fs = (Inr infos, fs1) \<longrightarrow> finalize store fs1 = (Inr (), fs2) \<longrightarrow>
        list_all2 (\<lambda>b info. xfi_file_size info = Some (length b) \<and> download store info (length b) fs2 = (Inr (), b)) bs infos)"

lemma store_lawsD:
  assumes "store_laws clean finalize download"
  shows "clean store b fs = (r, fs') \<Longrightarrow> \<not> below store p \<Longrightarrow> map_of fs' p = map_of fs p"
    "finalize store fs = (r', fs') \<Longrightarrow> \<not> below store p \<Longrightarrow> map_of fs' p = map_of fs p"
    "\<forall>c rel. c \<noteq> ''repos'' \<longrightarrow> map_of fs' (s' @ c # rel) = map_of fs (s @ c # rel) \<Longrightarrow> download s' info n fs' = download s info n fs"
    "clean_all clean store bs fs = (Inr infos, fs1) \<Longrightarrow> finalize store fs1 = (Inr (), fs2) \<Longrightarrow>
       list_all2 (\<lambda>b info. xfi_file_size info = Some (length b) \<and> download store info (length b) fs2 = (Inr (), b)) bs infos"
proof -
  note laws = assms [unfolded store_laws_def]
  show "clean store b fs = (r, fs') \<Longrightarrow> \<not> below store p \<Longrightarrow> map_of fs' p = map_of fs p" using laws [THEN conjunct1] by blast
  show "finalize store fs = (r', fs') \<Longrightarrow> \<not> below store p \<Longrightarrow> map_of fs' p = map_of fs p" using laws [THEN conjunct2, THEN conjunct1] by blast
  show "\<forall>c rel. c \<noteq> ''repos'' \<longrightarrow> map_of fs' (s' @ c # rel) = map_of fs (s @ c # rel) \<Longrightarrow> download s' info n fs' = download s info n fs"
    by (rule laws [THEN conjunct2, THEN conjunct2, THEN conjunct1, rule_format]) simp
  show "clean_all clean store bs fs = (Inr infos, fs1) \<Longrightarrow> finalize store fs1 = (Inr (), fs2) \<Longrightarrow>
       list_all2 (\<lambda>b info. xfi_file_size info = Some (length b) \<and> download store info (length b) fs2 = (Inr (), b)) bs infos"
    using laws [THEN conjunct2, THEN conjunct2, THEN conjunct2] by blast
qed

lemma download_untouched:
  assumes "store_laws clean finalize download" and "untouched s fs fs'"
  shows "download s info n fs' = download s info n fs"
  using assms(2) by (intro store_lawsD(3) [OF assms(1)]) (simp add: untouched_def below_append)

section \<open>The rebuilt store\<close>

lemma compact_files_untouched:
  assumes "store_laws (pr_clean P) (pr_finalize P) (pr_download P)" and "compact_files P store new files fs = (r, fs')" and "\<not> below new p"
  shows "map_of fs' p = map_of fs p"
  using assms(2)
proof (induction files arbitrary: fs)
  case (Cons f files)
  obtain h sz where f: "f = (h, sz)" by fastforce
  show ?case
  proof (cases "pr_tmp P h")
    case None
    obtain d w where d: "pr_download P store \<lparr>xfi_hash = h, xfi_file_size = Some sz\<rparr> sz fs = (d, w)" by fastforce
    obtain c fs1 where c: "pr_clean P new w fs = (c, fs1)" by fastforce
    have "map_of fs1 p = map_of fs p" using store_lawsD(1) [OF assms(1) c assms(3)] .
    with Cons f None d c show ?thesis by (auto split: sum.splits if_splits)
  qed (use Cons.prems f in simp)
qed simp

text \<open>A complete pass is a session that cleaned the content of every file, each under its own hash.\<close>

lemma compact_files_clean_all:
  assumes "store_laws (pr_clean P) (pr_finalize P) (pr_download P)" and "length new = length store" and "new \<noteq> store"
    and "compact_files P store new files fs = (Inr u, fs')"
  shows "\<exists>bs infos. clean_all (pr_clean P) new bs fs = (Inr infos, fs') \<and> length bs = length files \<and> length infos = length files \<and>
    (\<forall>i < length files. xfi_hash (infos ! i) = fst (files ! i) \<and>
       pr_download P store \<lparr>xfi_hash = fst (files ! i), xfi_file_size = Some (snd (files ! i))\<rparr> (snd (files ! i)) fs = (Inr (), bs ! i))"
  using assms(4)
proof (induction files arbitrary: fs)
  case (Cons f files)
  obtain h sz where f: "f = (h, sz)" by fastforce
  from Cons.prems f obtain w info fs1 where s: "pr_download P store \<lparr>xfi_hash = h, xfi_file_size = Some sz\<rparr> sz fs = (Inr (), w)"
    "pr_clean P new w fs = (Inr info, fs1)" "xfi_hash info = h" "compact_files P store new files fs1 = (Inr u, fs')"
    by (auto split: option.splits prod.splits sum.splits if_splits)
  have "untouched store fs fs1"
    using store_lawsD(1) [OF assms(1) s(2)] below_disjoint [OF assms(2) assms(3)] by (auto simp: untouched_def)
  note same = download_untouched [OF assms(1) this]
  from Cons.IH [OF s(4)] obtain bs infos where r: "clean_all (pr_clean P) new bs fs1 = (Inr infos, fs')" "length bs = length files"
    "length infos = length files" "\<forall>i < length files. xfi_hash (infos ! i) = fst (files ! i) \<and>
       pr_download P store \<lparr>xfi_hash = fst (files ! i), xfi_file_size = Some (snd (files ! i))\<rparr> (snd (files ! i)) fs = (Inr (), bs ! i)"
    unfolding same by blast
  have "clean_all (pr_clean P) new (w # bs) fs = (Inr (info # infos), fs')" using s(2) r(1) by simp
  with r s(1,3) f show ?case by (intro exI [of _ "w # bs"] exI [of _ "info # infos"]) (auto simp: nth_Cons split: nat.splits)
qed simp

lemma rebuild_untouched:
  assumes "store_laws (pr_clean P) (pr_finalize P) (pr_download P)" and "rebuild P store new files fs = (r, fs')" and "\<not> below new p"
  shows "map_of fs' p = map_of fs p"
proof -
  obtain c fs1 where c: "compact_files P store new files fs = (c, fs1)" by fastforce
  have "map_of fs1 p = map_of fs p" by (rule compact_files_untouched [OF assms(1) c assms(3)])
  with assms(2,3) c store_lawsD(2) [OF assms(1)] show ?thesis by (auto simp: rebuild_def split: option.splits sum.splits)
qed

lemma rebuild_complete:
  assumes "store_laws (pr_clean P) (pr_finalize P) (pr_download P)" and "length new = length store" and "new \<noteq> store"
    and "rebuild P store new files fs = (Inr (), fs')" and "(h, sz) \<in> set files"
  shows "\<exists>b. pr_download P store \<lparr>xfi_hash = h, xfi_file_size = Some sz\<rparr> sz fs = (Inr (), b) \<and>
    pr_download P new \<lparr>xfi_hash = h, xfi_file_size = Some (length b)\<rparr> (length b) fs' = (Inr (), b)"
proof -
  from assms(4) obtain fs1 where c: "compact_files P store new files fs = (Inr (), fs1)" "pr_finalize P new fs1 = (Inr (), fs')"
    by (auto simp: rebuild_def split: option.splits prod.splits sum.splits)
  from compact_files_clean_all [OF assms(1-3) c(1)] obtain bs infos where r: "clean_all (pr_clean P) new bs fs = (Inr infos, fs1)"
    "length bs = length files" "length infos = length files" "\<And>i. i < length files \<Longrightarrow> xfi_hash (infos ! i) = fst (files ! i) \<and>
       pr_download P store \<lparr>xfi_hash = fst (files ! i), xfi_file_size = Some (snd (files ! i))\<rparr> (snd (files ! i)) fs = (Inr (), bs ! i)"
    by blast
  obtain i where i: "i < length files" "files ! i = (h, sz)" using assms(5) by (auto simp: in_set_conv_nth)
  have "xfi_file_size (infos ! i) = Some (length (bs ! i)) \<and> pr_download P new (infos ! i) (length (bs ! i)) fs' = (Inr (), bs ! i)"
    using list_all2_nthD [OF store_lawsD(4) [OF assms(1) r(1) c(2)]] i(1) r(2) by simp
  moreover have "infos ! i = \<lparr>xfi_hash = h, xfi_file_size = Some (length (bs ! i))\<rparr>"
    using calculation r(4) [OF i(1)] i(2) by (cases "infos ! i") simp
  ultimately show ?thesis using r(4) [OF i(1)] i(2) by auto
qed

section \<open>The swap\<close>

lemma copy_entries_other: "copy_entries P dst es fs = (r, fs') \<Longrightarrow> (\<And>name. p \<noteq> dst @ [name]) \<Longrightarrow> map_of fs' p = map_of fs p"
  by (induction es arbitrary: fs) (auto split: option.splits)

lemma copy_registry_other:
  assumes "copy_registry P src (registry_dir new) fs = (r, fs')" and "\<And>name. p \<noteq> new @ [''repos'', name]"
  shows "map_of fs' p = map_of fs p"
  using assms copy_entries_other [of P "registry_dir new" "read_dir src fs" fs r fs' p]
  by (auto simp: copy_registry_def registry_dir_def split: option.splits)

lemma swap_stores_Inr:
  assumes "store \<noteq> []" and "swap_stores P store (sibling store ''.compact.'' (pr_pid P)) fs = (Inr u, fs')" and "rel \<noteq> []"
  shows "map_of fs' (store @ rel) = map_of fs (sibling store ''.compact.'' (pr_pid P) @ rel)"
proof -
  let ?new = "sibling store ''.compact.'' (pr_pid P)" and ?old = "sibling store ''.old.'' (pr_pid P)"
  note f = sibling_facts [OF assms(1)] sibling_facts(2-4) [OF assms(1), THEN not_sym]
  from assms(2) obtain fs1 fs2 where s: "rename_dir (pr_aside P) store ?old fs = (Inr (), fs1)"
    "rename_dir (pr_swap P) ?new store fs1 = (Inr (), fs2)" "fs' = remove_dir_all (pr_unremoved P) ?old fs2"
    by (auto simp: swap_stores_def Let_def split: prod.splits sum.splits)
  have b: "below store (store @ rel)" "below ?new (?new @ rel)" using assms(3) by (simp_all add: below_append)
  have n: "\<not> below ?old (store @ rel)" "\<not> below ?old (?new @ rel)" "\<not> below store (?new @ rel)"
    by (rule below_disjoint [OF _ _ b(1)] below_disjoint [OF _ _ b(2)], simp add: f(1), rule f)+
  have "map_of fs' (store @ rel) = map_of fs2 (store @ rel)" using s(3) n(1) by (simp add: map_of_remove_dir_all)
  also have "\<dots> = map_of fs1 (?new @ rel)" using rename_dir_Inr [OF s(2), of "store @ rel"] f b(1) by simp
  also have "\<dots> = map_of fs (?new @ rel)" using rename_dir_Inr [OF s(1), of "?new @ rel"] f(1,3) n(2,3) by (metis (full_types))
  finally show ?thesis .
qed

lemma swap_stores_Inl:
  assumes "store \<noteq> []" and "swap_stores P store (sibling store ''.compact.'' (pr_pid P)) fs = (Inl e, fs')"
  shows "untouched store fs fs' \<or>
    (pr_rollback P \<noteq> None \<and> (\<forall>rel. rel \<noteq> [] \<longrightarrow> map_of fs' (sibling store ''.old.'' (pr_pid P) @ rel) = map_of fs (store @ rel)))"
proof -
  let ?new = "sibling store ''.compact.'' (pr_pid P)" and ?old = "sibling store ''.old.'' (pr_pid P)"
  note f = sibling_facts [OF assms(1)] sibling_facts(2-4) [OF assms(1), THEN not_sym]
  obtain r1 fs1 where r1: "rename_dir (pr_aside P) store ?old fs = (r1, fs1)" by fastforce
  show ?thesis
  proof (cases r1)
    case (Inl e1)
    with assms(2) r1 rename_dir_Inl show ?thesis by (fastforce simp: swap_stores_def Let_def)
  next
    case (Inr u)
    have aside: "map_of fs1 p = (if below ?old p then map_of fs (store @ drop (length ?old) p) else if below store p then None else map_of fs p)" for p
      by (rule rename_dir_Inr [OF r1 [unfolded Inr] _ f(6)]) (simp add: f(1))
    obtain r2 fs2 where r2: "rename_dir (pr_swap P) ?new store fs1 = (r2, fs2)" by fastforce
    from assms(2) r1 r2 Inr obtain e2 where "r2 = Inl e2" by (auto simp: swap_stores_def Let_def split: sum.splits)
    with assms(2) r1 r2 Inr rename_dir_Inl have fs': "fs' = snd (rename_dir (pr_rollback P) ?old store fs1)"
      by (fastforce simp: swap_stores_def Let_def)
    have old: "map_of fs1 (?old @ rel) = map_of fs (store @ rel)" if "rel \<noteq> []" for rel
      using aside [of "?old @ rel"] f(1) that by (simp add: below_append)
    show ?thesis
    proof (cases "pr_rollback P")
      case None
      have "map_of fs1 p = None" if "below store p" for p
        using aside [of p] below_disjoint [OF _ _ that, of ?old] f(1,3) that by (metis (full_types))
      from rename_dir_free [OF this] obtain fs3 where r3: "rename_dir None ?old store fs1 = (Inr (), fs3)" by blast
      have "map_of fs3 (store @ rel) = map_of fs1 (?old @ rel)" if "rel \<noteq> []" for rel
        using rename_dir_Inr [OF r3, of "store @ rel"] f(1,3) that by (simp add: below_append)
      then have "map_of fs3 p = map_of fs p" if "below store p" for p using below_split [OF that] old by auto
      with fs' None r3 show ?thesis by (simp add: untouched_def)
    next
      case (Some e3)
      with fs' have "fs' = fs1" by (simp add: rename_dir_def)
      with old Some show ?thesis by simp
    qed
  qed
qed

section \<open>A whole run\<close>

lemma staged_in_finite: "finite (set (map fst (staged_in P git_dir fs)))"
  by simp

lemma reachable_in_repo_subset: "finite want \<Longrightarrow> reachable_in_repo P git_dir want \<subseteq> want"
  by (auto simp: reachable_in_repo_def reachable_all_def reachable_hashes_exact pointed_def split: option.splits prod.splits)

lemma scan_repos_live:
  assumes "scan_repos P force repos fs = Inr (want_all, live)"
  shows "finite live" and "git_dir \<in> set repos \<Longrightarrow> pr_exists P git_dir \<Longrightarrow>
    reachable_in_repo P git_dir (set (map fst (staged_in P git_dir fs))) \<subseteq> live"
proof -
  have "finite live \<and> (\<forall>git_dir \<in> set repos. pr_exists P git_dir \<longrightarrow>
    reachable_in_repo P git_dir (set (map fst (staged_in P git_dir fs))) \<subseteq> live)"
    using assms
  proof (induction repos arbitrary: want_all live)
    case (Cons r repos)
    show ?case
    proof (cases "pr_exists P r")
      case False
      with Cons show ?thesis by (auto split: if_splits)
    next
      case True
      with Cons.prems obtain w l where s: "scan_repos P force repos fs = Inr (w, l)"
        "live = reachable_in_repo P r (set (map fst (staged_in P r fs))) \<union> l" by (auto simp: rbind_eq_Inr Let_def)
      have "finite (reachable_in_repo P r (set (map fst (staged_in P r fs))))"
        using finite_subset [OF reachable_in_repo_subset] by blast
      with Cons.IH [OF s(1)] s(2) show ?thesis by auto
    qed
  qed simp
  then show "finite live" "git_dir \<in> set repos \<Longrightarrow> pr_exists P git_dir \<Longrightarrow>
    reachable_in_repo P git_dir (set (map fst (staged_in P git_dir fs))) \<subseteq> live" by blast+
qed

text \<open>A file a registered repository needs: staged there, and some blob of its index or of a commit of any of its references points to it.\<close>

definition needs :: "prune_env \<Rightarrow> path \<Rightarrow> fs \<Rightarrow> string \<Rightarrow> bool" where
  "needs P git_dir fs h \<longleftrightarrow>
     is_64_lower_hex h \<and> file_is_staged git_dir h fs \<and>
     (case pr_open P git_dir of
        None \<Rightarrow> False
      | Some repo \<Rightarrow> \<exists>i \<in> live_blobs repo (fst (ref_tips repo) @ snd (ref_tips repo)) []. blob_pointer (pr_json P) repo i = Some h)"

lemma needs_reachable:
  assumes "needs P git_dir fs h" and "pr_list P git_dir = None"
  shows "h \<in> reachable_in_repo P git_dir (set (map fst (staged_in P git_dir fs)))"
proof -
  obtain l where l: "list_staged_files None (pr_readable P) git_dir fs = Inr l" by (simp add: list_staged_files_def)
  have "h \<in> fst ` set l" using assms(1) staged_names [OF l] by (simp add: needs_def file_is_staged_def)
  then have "h \<in> set (map fst (staged_in P git_dir fs))" using l assms(2) by (simp add: staged_in_def)
  then show ?thesis using assms(1)
    by (auto simp: needs_def reachable_in_repo_def reachable_all_def reachable_hashes_exact pointed_def split: option.splits prod.splits)
qed

lemma collect_sizes_all: "collect_sizes P repos live fs = Inr files \<Longrightarrow> h \<in> set live \<Longrightarrow> \<exists>sz. (h, sz) \<in> set files"
  unfolding collect_sizes_def
proof (induction live arbitrary: files)
  case (Cons x live)
  then show ?case by (fastforce simp: rbind_eq_Inr split: option.splits)
qed simp

lemma compact_storeE:
  assumes "compact_store P store files fs = (r, fs')"
  obtains (early) e where "r = Inl e" "fs' = fs"
  | (unbuilt) e where "r = Inl e" "rebuild P store (sibling store ''.compact.'' (pr_pid P)) files fs = (Inl e, fs')"
  | (built) fs1 where "rebuild P store (sibling store ''.compact.'' (pr_pid P)) files fs = (Inr (), fs1)"
      "finish_prune P store (sibling store ''.compact.'' (pr_pid P)) (object_fingerprint P store fs) (pr_interfere P fs1) = (r, fs')"
  using assms unfolding compact_store_def Let_def
  by (auto split: option.splits prod.splits sum.splits)

lemma prune_runE:
  assumes "prune_run P force fs = (r, fs')" and "pr_config P = Inr raw" and "object_store_root raw = Inr store"
  obtains (unchanged) "fs' = fs"
  | (compacted) repos want_all live files where "registered_repos (pr_registry P) store fs = Inr repos"
      "scan_repos P force repos fs = Inr (want_all, live)" "collect_sizes P repos (sorted_list_of_set live) fs = Inr files"
      "compact_store P store files fs = (r, fs')"
  using assms unfolding prune_run_def prune_locked_def
  by (auto split: if_splits option.splits sum.splits list.splits prod.splits)

lemma finish_prune_Inr:
  assumes "store \<noteq> []" and "finish_prune P store (sibling store ''.compact.'' (pr_pid P)) before fs = (Inr u, fs')" and "c \<noteq> ''repos''"
  shows "map_of fs' (store @ c # rel) = map_of fs (sibling store ''.compact.'' (pr_pid P) @ c # rel)"
proof -
  let ?new = "sibling store ''.compact.'' (pr_pid P)"
  from assms(2) obtain fs1 where s: "copy_registry P (registry_dir store) (registry_dir ?new) fs = (Inr (), fs1)"
    "swap_stores P store ?new fs1 = (Inr u, fs')"
    by (auto simp: finish_prune_def split: if_splits prod.splits sum.splits)
  have "map_of fs1 (?new @ c # rel) = map_of fs (?new @ c # rel)" using assms(3) by (intro copy_registry_other [OF s(1)]) simp
  with swap_stores_Inr [OF assms(1) s(2), of "c # rel"] show ?thesis by simp
qed

text \<open>C12: compacting a shared store keeps every file that is still needed. When \<open>git-bale prune --shared\<close> succeeds, a file that a
  registered repository needs, whose markers and objects could be read, is in the store afterwards: it downloads to the very content the
  store held before, under the same hash. Other processes may meanwhile do anything but write into the fresh store.\<close>

theorem prune_keeps_needed:
  assumes "store_laws (pr_clean P) (pr_finalize P) (pr_download P)"
    and "prune_run P force fs = (Inr (), fs')" and "pr_config P = Inr raw" and "object_store_root raw = Inr store" and "store \<noteq> []"
    and "\<And>fs. untouched (sibling store ''.compact.'' (pr_pid P)) fs (pr_interfere P fs)"
    and "registered_repos (pr_registry P) store fs = Inr repos" and "git_dir \<in> set repos" and "pr_exists P git_dir"
    and "pr_list P git_dir = None" and "needs P git_dir fs h"
  shows "fs' = fs \<or>
    (\<exists>n b. pr_download P store \<lparr>xfi_hash = h, xfi_file_size = Some n\<rparr> n fs = (Inr (), b) \<and>
       pr_download P store \<lparr>xfi_hash = h, xfi_file_size = Some (length b)\<rparr> (length b) fs' = (Inr (), b))"
  using assms(2-4)
proof (cases rule: prune_runE)
  case (compacted repos' want_all live files)
  let ?new = "sibling store ''.compact.'' (pr_pid P)"
  note f = sibling_facts [OF assms(5)]
  have "h \<in> live" using needs_reachable [OF assms(11,10)] scan_repos_live(2) [OF compacted(2)] compacted(1) assms(7-9) by auto
  then obtain sz where sz: "(h, sz) \<in> set files"
    using collect_sizes_all [OF compacted(3)] scan_repos_live(1) [OF compacted(2)] by fastforce
  from compacted(4) show ?thesis
  proof (cases rule: compact_storeE)
    case (built fs1)
    from rebuild_complete [OF assms(1) f(1,4) built(1) sz] obtain b where
      b: "pr_download P store \<lparr>xfi_hash = h, xfi_file_size = Some sz\<rparr> sz fs = (Inr (), b)"
      "pr_download P ?new \<lparr>xfi_hash = h, xfi_file_size = Some (length b)\<rparr> (length b) fs1 = (Inr (), b)" by blast
    have "pr_download P store \<lparr>xfi_hash = h, xfi_file_size = Some (length b)\<rparr> (length b) fs' =
        pr_download P ?new \<lparr>xfi_hash = h, xfi_file_size = Some (length b)\<rparr> (length b) (pr_interfere P fs1)"
      using finish_prune_Inr [OF assms(5) built(2)] by (intro store_lawsD(3) [OF assms(1)]) blast
    also have "\<dots> = (Inr (), b)" using download_untouched [OF assms(1,6)] b(2) by simp
    finally show ?thesis using b(1) by blast
  qed auto
qed simp


end
