(* ===== verification/Prune_Example.thy ===== *)
theory Prune_Example
  imports Prune_Safe
begin

text \<open>
  A shared store with one file that is needed and one that is not, kept by a library that files a content under its own text.
\<close>

definition ex_slot :: "path \<Rightarrow> string \<Rightarrow> path" where
  "ex_slot store h = store @ [''x'', h]"

definition ex_put :: "path \<Rightarrow> bytes \<Rightarrow> fs \<Rightarrow> (string + xet_file_info) \<times> fs" where
  "ex_put store b fs =
     (Inr \<lparr>xfi_hash = str_of_bytes b, xfi_file_size = Some (length b)\<rparr>, put_file (ex_slot store (str_of_bytes b)) \<lparr>fn_body = b, fn_mtime = 0\<rparr> fs)"

definition ex_get :: "path \<Rightarrow> xet_file_info \<Rightarrow> nat \<Rightarrow> fs \<Rightarrow> download" where
  "ex_get store info n fs =
     (case map_of fs (ex_slot store (xfi_hash info)) of Some f \<Rightarrow> (Inr (), fn_body f) | None \<Rightarrow> (Inl ''missing'', []))"

lemma ex_put_all:
  "clean_all ex_put store bs fs = (Inr infos, fs') \<Longrightarrow>
   infos = map (\<lambda>b. \<lparr>xfi_hash = str_of_bytes b, xfi_file_size = Some (length b)\<rparr>) bs \<and>
   (\<forall>b. b \<in> set bs \<or> map_of fs (ex_slot store (str_of_bytes b)) = Some \<lparr>fn_body = b, fn_mtime = 0\<rparr> \<longrightarrow>
      map_of fs' (ex_slot store (str_of_bytes b)) = Some \<lparr>fn_body = b, fn_mtime = 0\<rparr>)"
proof (induction bs arbitrary: fs infos)
  case (Cons c bs)
  let ?fs = "put_file (ex_slot store (str_of_bytes c)) \<lparr>fn_body = c, fn_mtime = 0\<rparr> fs"
  have "ex_put store c fs = (Inr \<lparr>xfi_hash = str_of_bytes c, xfi_file_size = Some (length c)\<rparr>, ?fs)" by (simp add: ex_put_def)
  with Cons.prems obtain rest where r: "clean_all ex_put store bs ?fs = (Inr rest, fs')"
    "infos = \<lparr>xfi_hash = str_of_bytes c, xfi_file_size = Some (length c)\<rparr> # rest"
    by (auto split: prod.splits sum.splits)
  have inj: "str_of_bytes b = str_of_bytes c \<longleftrightarrow> b = c" for b c by (metis as_bytes_str_of)
  have "map_of ?fs (ex_slot store (str_of_bytes b)) = Some \<lparr>fn_body = b, fn_mtime = 0\<rparr>"
    if "b = c \<or> map_of fs (ex_slot store (str_of_bytes b)) = Some \<lparr>fn_body = b, fn_mtime = 0\<rparr>" for b
    using that inj by (auto simp: ex_slot_def)
  with Cons.IH [OF r(1)] r(2) show ?case by auto
qed simp

lemma ex_store_laws: "store_laws ex_put (\<lambda>_ fs. (Inr (), fs)) ex_get"
  unfolding store_laws_def
proof (intro conjI allI impI)
  fix store b fs r fs' p
  assume "ex_put store b fs = (r, fs')" "\<not> below store p"
  then show "map_of fs' p = map_of fs p" by (auto simp: ex_put_def ex_slot_def below_def starts_with_def)
next
  fix s s' :: path and fs fs' :: fs and info n
  assume "\<forall>c rel. c \<noteq> ''repos'' \<longrightarrow> map_of fs' (s' @ c # rel) = map_of fs (s @ c # rel)"
  then show "ex_get s' info n fs' = ex_get s info n fs" by (simp add: ex_get_def ex_slot_def)
next
  fix store bs fs infos fs1 fs2
  assume "clean_all ex_put store bs fs = (Inr infos, fs1)" "(Inr (), fs1) = (Inr (), fs2)"
  with ex_put_all show "list_all2 (\<lambda>b info. xfi_file_size info = Some (length b) \<and> ex_get store info (length b) fs2 = (Inr (), b)) bs infos"
    by (fastforce simp: list_all2_conv_all_nth ex_get_def)
qed simp_all

definition ex_prune_env :: "string option \<Rightarrow> prune_env" where
  "ex_prune_env swap = \<lparr>pr_json = ex_gc_json,
     pr_config = Inr ((default_config [''g''])\<lparr>rc_local_mode := True, rc_local_store := Some [''s''], rc_local_shared := True\<rparr>),
     pr_lock = None,
     pr_registry = \<lparr>rg_faults = calm_save, rg_canon = Inr, rg_key = id, rg_text = (\<lambda>_. ''io''), rg_list = None, rg_entry = (\<lambda>_. None), rg_read = (\<lambda>_. None)\<rparr>,
     pr_exists = (\<lambda>_. True), pr_list = (\<lambda>_. None), pr_readable = (\<lambda>_. True), pr_open = (\<lambda>_. Some ex_gc_repo), pr_unlisted = (\<lambda>_. False),
     pr_runtime = None, pr_mkdir = None, pr_old_config = None, pr_new_config = None, pr_sessions = None, pr_tmp = (\<lambda>_. None),
     pr_download = ex_get, pr_clean = ex_put, pr_finalize = (\<lambda>_ fs. (Inr (), fs)), pr_interfere = id, pr_unremoved = (\<lambda>_. False),
     pr_copy = None, pr_copy_entry = (\<lambda>_. None), pr_aside = None, pr_swap = swap, pr_rollback = None, pr_pid = 7, pr_now = 0\<rparr>"

definition ex_prune_fs :: fs where
  "ex_prune_fs = [(file_marker_path [''g''] (ex_hex (CHR ''a'')), \<lparr>fn_body = as_bytes ''64'', fn_mtime = 0\<rparr>),
     (file_marker_path [''g''] (ex_hex (CHR ''b'')), \<lparr>fn_body = as_bytes ''64'', fn_mtime = 0\<rparr>),
     ([''s'', ''repos'', ''k''], \<lparr>fn_body = as_bytes ''/g'', fn_mtime = 0\<rparr>),
     (ex_slot [''s''] (ex_hex (CHR ''a'')), \<lparr>fn_body = as_bytes (ex_hex (CHR ''a'')), fn_mtime = 0\<rparr>),
     (ex_slot [''s''] (ex_hex (CHR ''b'')), \<lparr>fn_body = as_bytes (ex_hex (CHR ''b'')), fn_mtime = 0\<rparr>)]"

lemma ex_prune_paths:
  "sibling [''s''] ''.compact.'' 7 = [''s.compact.7'']" "sibling [''s''] ''.old.'' 7 = [''s.old.7'']"
  by code_simp+

lemma ex_registered: "registered_repos (pr_registry (ex_prune_env swap)) [''s''] ex_prune_fs = Inr [[''g'']]"
proof -
  have "read_dir (registry_dir [''s'']) ex_prune_fs = [(''k'', \<lparr>fn_body = as_bytes ''/g'', fn_mtime = 0\<rparr>)]"
    by (simp add: read_dir_def registry_dir_def ex_prune_fs_def file_marker_path_def file_index_dir_def staging_root_def ex_slot_def)
  moreover have "from_utf8 (as_bytes ''/g'') = Some ''/g''" "trim ''/g'' = ''/g''" "path_of_text ''/g'' = [''g'']" by code_simp+
  ultimately show ?thesis by (simp add: registered_repos_def ex_prune_env_def starts_with_def)
qed

lemma ex_staged_in: "staged_in (ex_prune_env swap) [''g''] ex_prune_fs = [(ex_hex (CHR ''a''), Some 64), (ex_hex (CHR ''b''), Some 64)]"
proof -
  have "read_dir (file_index_dir [''g'']) ex_prune_fs =
      [(ex_hex (CHR ''a''), \<lparr>fn_body = as_bytes ''64'', fn_mtime = 0\<rparr>), (ex_hex (CHR ''b''), \<lparr>fn_body = as_bytes ''64'', fn_mtime = 0\<rparr>)]"
    by (simp add: read_dir_def ex_prune_fs_def file_marker_path_def file_index_dir_def staging_root_def ex_slot_def)
  moreover have "marker_size True (as_bytes ''64'') = Some 64"
  proof -
    have "from_utf8 (as_bytes ''64'') = Some ''64''" "trim ''64'' = ''64''" by code_simp+
    moreover have "parse_u64 ''64'' = Some 64"
      by (simp add: parse_u64_def from_str_radix_def digit_val_def u64_max_def)
    ultimately show ?thesis by (simp add: marker_size_def)
  qed
  moreover have "ex_hex (CHR ''a'') \<le> ex_hex (CHR ''b'')" by (simp add: ex_hex_def numeral_eq_Suc)
  ultimately show ?thesis using ex_hex by (simp add: staged_in_def list_staged_files_def ex_prune_env_def)
qed

lemma ex_reachable: "reachable_in_repo (ex_prune_env swap) [''g''] {ex_hex (CHR ''a''), ex_hex (CHR ''b'')} = {ex_hex (CHR ''a'')}"
proof -
  have "blob_pointer ex_gc_json ex_gc_repo i = Some (ex_hex (CHR ''a''))" for i by (rule ex_gc_pointer)
  then show ?thesis using ex_hex(3)
    by (auto simp: reachable_in_repo_def ex_prune_env_def reachable_all_def reachable_hashes_exact pointed_def live_blobs_def index_blobs_def
        entry_blobs_def ref_tips_def ex_gc_repo_def)
qed

definition ex_rebuilt_fs :: fs where
  "ex_rebuilt_fs = ex_prune_fs @ [(ex_slot [''s.compact.7''] (ex_hex (CHR ''a'')), \<lparr>fn_body = as_bytes (ex_hex (CHR ''a'')), fn_mtime = 0\<rparr>)]"

lemma ex_rebuild: "rebuild (ex_prune_env swap) [''s''] [''s.compact.7''] [(ex_hex (CHR ''a''), 64)] ex_prune_fs = (Inr (), ex_rebuilt_fs)"
  by (simp add: rebuild_def ex_prune_env_def ex_get_def ex_put_def ex_slot_def ex_prune_fs_def ex_rebuilt_fs_def put_file_def
      file_marker_path_def file_index_dir_def staging_root_def)

lemma ex_fingerprint: "object_fingerprint (ex_prune_env swap) [''s''] fs = {}" if "fs \<in> {ex_prune_fs, ex_rebuilt_fs}"
proof -
  have "\<not> starts_with ''default.'' (ex_hex (CHR ''a''))" "\<not> ends_with ''.mdb'' (ex_hex (CHR ''a''))"
    "\<not> starts_with ''default.'' (ex_hex (CHR ''b''))" "\<not> ends_with ''.mdb'' (ex_hex (CHR ''b''))"
    by (simp_all add: ex_hex_def starts_with_def ends_with_def numeral_eq_Suc)
  with that show ?thesis
    by (auto simp: object_fingerprint_def ex_prune_fs_def ex_rebuilt_fs_def ex_slot_def below_def starts_with_def ends_with_def
        file_marker_path_def file_index_dir_def staging_root_def)
qed

definition ex_copied_fs :: fs where
  "ex_copied_fs = ex_rebuilt_fs @ [([''s.compact.7'', ''repos'', ''k''], \<lparr>fn_body = as_bytes ''/g'', fn_mtime = 0\<rparr>)]"

lemma ex_copied: "copy_registry (ex_prune_env swap) (registry_dir [''s'']) (registry_dir [''s.compact.7'']) ex_rebuilt_fs = (Inr (), ex_copied_fs)"
  by (simp add: copy_registry_def registry_dir_def read_dir_def ex_prune_env_def ex_prune_fs_def ex_rebuilt_fs_def ex_copied_fs_def ex_slot_def
      put_file_def file_marker_path_def file_index_dir_def staging_root_def)

lemma ex_swap: "fst (swap_stores (ex_prune_env swap) [''s''] [''s.compact.7''] ex_copied_fs) =
    (case swap of None \<Rightarrow> Inr () | Some e \<Rightarrow> Inl (''swapping compacted store into place: '' @ e))"
proof -
  have p: "pr_pid (ex_prune_env swap) = 7" "pr_aside (ex_prune_env swap) = None" "pr_swap (ex_prune_env swap) = swap"
    by (simp_all add: ex_prune_env_def)
  show ?thesis
    by (simp add: swap_stores_def Let_def p ex_prune_paths rename_dir_def ex_copied_fs_def ex_rebuilt_fs_def ex_prune_fs_def ex_slot_def
        below_def starts_with_def file_marker_path_def file_index_dir_def staging_root_def split: option.splits)
qed

lemma ex_prune_run:
  "prune_run (ex_prune_env swap) False ex_prune_fs = swap_stores (ex_prune_env swap) [''s''] [''s.compact.7''] ex_copied_fs"
proof -
  let ?P = "ex_prune_env swap" and ?a = "ex_hex (CHR ''a'')" and ?b = "ex_hex (CHR ''b'')"
  have scan: "scan_repos ?P False [[''g'']] ex_prune_fs = Inr ({?a, ?b}, {?a})"
    by (simp add: ex_staged_in ex_reachable) (simp add: ex_prune_env_def)
  have "pr_exists ?P [''g'']" by (simp add: ex_prune_env_def)
  then have sizes: "collect_sizes ?P [[''g'']] [?a] ex_prune_fs = Inr [(?a, 64)]"
    by (simp add: collect_sizes_def sized_markers_def ex_staged_in List.map_filter_simps)
  have "pr_runtime ?P = None" "pr_mkdir ?P = None" "pr_old_config ?P = None" "pr_new_config ?P = None" "pr_interfere ?P = id" "pr_pid ?P = 7"
    by (simp_all add: ex_prune_env_def)
  then have "compact_store ?P [''s''] [(?a, 64)] ex_prune_fs = swap_stores ?P [''s''] [''s.compact.7''] ex_copied_fs"
    by (simp add: compact_store_def Let_def ex_prune_paths ex_rebuild finish_prune_def ex_fingerprint ex_copied)
  moreover have "pr_config ?P = Inr ((default_config [''g''])\<lparr>rc_local_mode := True, rc_local_store := Some [''s''], rc_local_shared := True\<rparr>)"
    "pr_lock ?P = None" by (simp_all add: ex_prune_env_def)
  ultimately show ?thesis using ex_hex(3)
    by (simp add: prune_run_def prune_locked_def object_store_root_def ex_registered scan sizes del: scan_repos.simps)
qed

lemma ex_prune_facts:
  "store_laws (pr_clean (ex_prune_env swap)) (pr_finalize (ex_prune_env swap)) (pr_download (ex_prune_env swap))"
  "pr_config (ex_prune_env swap) = Inr ((default_config [''g''])\<lparr>rc_local_mode := True, rc_local_store := Some [''s''], rc_local_shared := True\<rparr>)"
  "object_store_root ((default_config [''g''])\<lparr>rc_local_mode := True, rc_local_store := Some [''s''], rc_local_shared := True\<rparr>) = Inr [''s'']"
  "untouched d fs (pr_interfere (ex_prune_env swap) fs)"
  using ex_store_laws by (simp_all add: ex_prune_env_def object_store_root_def)

theorem prune_keeps_needed_witness:
  "\<exists>fs' b. prune_run (ex_prune_env None) False ex_prune_fs = (Inr (), fs') \<and>
     map_of fs' (ex_slot [''s''] (ex_hex (CHR ''b''))) = None \<and>
     pr_download (ex_prune_env None) [''s''] \<lparr>xfi_hash = ex_hex (CHR ''a''), xfi_file_size = Some (length b)\<rparr> (length b) fs' = (Inr (), b)"
proof -
  let ?P = "ex_prune_env None"
  obtain fs' where run: "prune_run ?P False ex_prune_fs = (Inr (), fs')" using ex_swap [of None] unfolding ex_prune_run by (metis option.case(1) prod.collapse)
  have "\<exists>i \<in> live_blobs ex_gc_repo (fst (ref_tips ex_gc_repo) @ snd (ref_tips ex_gc_repo)) []. blob_pointer ex_gc_json ex_gc_repo i = Some (ex_hex (CHR ''a''))"
    using ex_gc_pointer by (simp add: live_blobs_def index_blobs_def entry_blobs_def ex_gc_repo_def)
  then have "needs ?P [''g''] ex_prune_fs (ex_hex (CHR ''a''))"
    using ex_hex(1) by (simp add: needs_def file_is_staged_def ex_prune_fs_def) (simp add: ex_prune_env_def)
  moreover have gone: "map_of fs' (ex_slot [''s''] (ex_hex (CHR ''b''))) = None"
  proof -
    have p: "sibling [''s''] ''.compact.'' (pr_pid ?P) = [''s.compact.7'']" unfolding ex_prune_paths(1) [symmetric] by (simp add: ex_prune_env_def)
    have "swap_stores ?P [''s''] (sibling [''s''] ''.compact.'' (pr_pid ?P)) ex_copied_fs = (Inr (), fs')" using run by (simp only: ex_prune_run p)
    from swap_stores_Inr [OF _ this, of "[''x'', ex_hex (CHR ''b'')]"] show ?thesis using ex_hex(3)
      by (auto simp: p ex_slot_def ex_copied_fs_def ex_rebuilt_fs_def ex_prune_fs_def file_marker_path_def file_index_dir_def staging_root_def)
  qed
  moreover have "fs' \<noteq> ex_prune_fs" using gone ex_hex(3) by (auto simp: ex_prune_fs_def ex_slot_def file_marker_path_def file_index_dir_def staging_root_def)
  moreover have "pr_exists ?P [''g'']" "pr_list ?P [''g''] = None" by (simp_all add: ex_prune_env_def)
  ultimately show ?thesis using run
    prune_keeps_needed [OF ex_prune_facts(1) run ex_prune_facts(2,3) _ ex_prune_facts(4) ex_registered, of "[''g'']" "ex_hex (CHR ''a'')"] by auto
qed


end
