(* ===== verification/Remote.thy ===== *)
theory Remote
  imports Staging
begin

text \<open>
  Addresses of Git remotes, \<open>git-bale/src/remote.rs\<close>. What \<open>gix\<close> tells of the configured remotes, the current directory and the texts
  of foreign errors are parameters.
\<close>

section \<open>Model\<close>

datatype remote_scheme = Http | Https | Ssh

record remote_url =
  ru_scheme :: remote_scheme
  ru_user :: "string option"
  ru_host :: string
  ru_port :: "nat option"
  ru_repo_path :: string

text \<open>\<open>rm_discover\<close>: the repository around a directory, known by the names of its remotes and, for each name, its fetch URL if it has
  one. \<open>rm_debug\<close> and \<open>rm_debug_path\<close> print a text and a path as \<open>{:?}\<close> does.\<close>

record git_remotes =
  gm_names :: "string list"
  gm_find :: "string \<Rightarrow> string + string option"

record remote_env =
  rm_cwd :: "path option"
  rm_discover :: "path \<Rightarrow> string + git_remotes"
  rm_debug :: "string \<Rightarrow> string"
  rm_debug_path :: "path \<Rightarrow> string"
  rm_port_error :: "string \<Rightarrow> string"

definition owner_and_repo :: "remote_url \<Rightarrow> string + (string \<times> string)" where
  "owner_and_repo r =
     (case split_once (CHR ''/'') (ru_repo_path r) of
        None \<Rightarrow> Inl (''remote repo path has no '' @ [CHR 0x27, CHR ''/'', CHR 0x27] @ '': '' @ ru_repo_path r)
      | Some (owner, repo) \<Rightarrow>
          if owner = [] \<or> repo = [] then Inl (''remote repo path missing owner or name: '' @ ru_repo_path r)
          else Inr (owner, repo))"

definition host_with_port :: "remote_url \<Rightarrow> nat \<Rightarrow> string" where
  "host_with_port r usual =
     (case ru_port r of
        Some p \<Rightarrow> if p \<noteq> usual then ru_host r @ '':'' @ show_nat p else ru_host r
      | None \<Rightarrow> ru_host r)"

definition https_base :: "remote_url \<Rightarrow> string" where
  "https_base r =
     (case ru_scheme r of
        Http \<Rightarrow> ''http://'' @ host_with_port r 80
      | Https \<Rightarrow> ''https://'' @ host_with_port r 443
      | Ssh \<Rightarrow> ''https://'' @ ru_host r)"

definition strip_dot_git :: "string \<Rightarrow> string" where
  "strip_dot_git p =
     (let q = trim_start_matches (CHR ''/'') p
      in case strip_suffix ''.git'' q of Some t \<Rightarrow> t | None \<Rightarrow> q)"

text \<open>\<open>str::split_once\<close> at a text.\<close>

fun split_once_str :: "string \<Rightarrow> string \<Rightarrow> (string \<times> string) option" where
  "split_once_str p [] = (if p = [] then Some ([], []) else None)"
| "split_once_str p (c # s) =
     (if starts_with p (c # s) then Some ([], drop (length p) (c # s))
      else case split_once_str p s of None \<Rightarrow> None | Some (a, b) \<Rightarrow> Some (c # a, b))"

definition parse_scheme :: "remote_env \<Rightarrow> string \<Rightarrow> string + remote_scheme" where
  "parse_scheme E s =
     (if s = ''http'' then Inr Http
      else if s = ''https'' then Inr Https
      else if s = ''ssh'' then Inr Ssh
      else Inl (''unsupported remote scheme '' @ rm_debug E s))"

definition user_or_git :: "string option \<Rightarrow> string option" where
  "user_or_git user = Some (case user of Some u \<Rightarrow> u | None \<Rightarrow> ''git'')"

definition split_user :: "string \<Rightarrow> string option \<times> string" where
  "split_user authority =
     (case split_once (CHR ''@'') authority of Some (u, h) \<Rightarrow> (Some u, h) | None \<Rightarrow> (None, authority))"

definition split_port :: "remote_env \<Rightarrow> string \<Rightarrow> string \<Rightarrow> string + (string \<times> nat option)" where
  "split_port E s host_port =
     (case rsplit_once (CHR '':'') host_port of
        None \<Rightarrow> Inr (host_port, None)
      | Some (h, p) \<Rightarrow>
          (case parse_u16 p of
             Some port \<Rightarrow> Inr (h, Some port)
           | None \<Rightarrow> Inl (''invalid port '' @ rm_debug E p @ '' in remote '' @ s @ '': '' @ rm_port_error E p)))"

text \<open>The form without a scheme, \<open>[user@]host:path\<close>.\<close>

definition parse_scp :: "string \<Rightarrow> string + remote_url" where
  "parse_scp s =
     (case split_once (CHR '':'') s of
        None \<Rightarrow> Inl (''unrecognized remote URL: '' @ s)
      | Some (before, p) \<Rightarrow>
          (case split_user before of (user, host) \<Rightarrow>
             if host = [] then Inl (''scp-style remote missing host: '' @ s)
             else Inr \<lparr>ru_scheme = Ssh, ru_user = user_or_git user, ru_host = host, ru_port = None, ru_repo_path = strip_dot_git p\<rparr>))"

definition parse_remote :: "remote_env \<Rightarrow> string \<Rightarrow> string + remote_url" where
  "parse_remote E untrimmed =
     (let s = trim untrimmed
      in case split_once_str ''://'' s of
           None \<Rightarrow> parse_scp s
         | Some (scheme_str, rest) \<Rightarrow>
             rbind (parse_scheme E scheme_str) (\<lambda>scheme.
               let (authority, p) = (case split_once (CHR ''/'') rest of Some ap \<Rightarrow> ap | None \<Rightarrow> (rest, []));
                   (user, host_port) = split_user authority
               in rbind (split_port E s host_port) (\<lambda>(host, port).
                    if host = [] then Inl (''remote URL missing host: '' @ s)
                    else Inr \<lparr>ru_scheme = scheme, ru_user = (if scheme = Ssh then user_or_git user else user), ru_host = host,
                           ru_port = port, ru_repo_path = strip_dot_git p\<rparr>)))"

text \<open>The directory to start from: the one given, or the current one.\<close>

definition start_dir :: "remote_env \<Rightarrow> path option \<Rightarrow> path option" where
  "start_dir E repo = (case repo of Some p \<Rightarrow> Some p | None \<Rightarrow> rm_cwd E)"

definition remote_order :: "string \<Rightarrow> bool \<times> string" where
  "remote_order name = (name \<noteq> ''origin'', name)"

definition fetch_remote :: "remote_env \<Rightarrow> git_remotes \<Rightarrow> string \<Rightarrow> (string \<times> remote_url) option" where
  "fetch_remote E g name =
     (case gm_find g name of
        Inr (Some url) \<Rightarrow> (case parse_remote E url of Inr r \<Rightarrow> Some (name, r) | Inl _ \<Rightarrow> None)
      | _ \<Rightarrow> None)"

definition parse_all_remotes :: "remote_env \<Rightarrow> path option \<Rightarrow> (string \<times> remote_url) list" where
  "parse_all_remotes E repo =
     (case start_dir E repo of
        None \<Rightarrow> []
      | Some d \<Rightarrow>
          (case rm_discover E d of
             Inl _ \<Rightarrow> []
           | Inr g \<Rightarrow> List.map_filter (fetch_remote E g) (sort_key remote_order (gm_names g))))"

definition parse_origin :: "remote_env \<Rightarrow> path option \<Rightarrow> string + remote_url" where
  "parse_origin E repo =
     (case start_dir E repo of
        None \<Rightarrow> Inl (''can'' @ [CHR 0x27] @ ''t resolve cwd to discover repo'')
      | Some d \<Rightarrow>
          (case rm_discover E d of
             Inl e \<Rightarrow> Inl (''opening repo at '' @ rm_debug_path E d @ '': '' @ e)
           | Inr g \<Rightarrow>
               (case gm_find g ''origin'' of
                  Inl e \<Rightarrow> Inl (''git remote get-url origin: '' @ e)
                | Inr None \<Rightarrow> Inl ''origin has no fetch URL configured''
                | Inr (Some url) \<Rightarrow> parse_remote E url)))"

section \<open>Round trip\<close>

text \<open>The canonical texts of an address, and the addresses that have one: printable, the separators where they belong.\<close>

definition scheme_text :: "remote_scheme \<Rightarrow> string" where
  "scheme_text sch = (case sch of Http \<Rightarrow> ''http'' | Https \<Rightarrow> ''https'' | Ssh \<Rightarrow> ''ssh'')"

definition url_text :: "remote_url \<Rightarrow> string" where
  "url_text r =
     scheme_text (ru_scheme r) @ ''://'' @ (case ru_user r of Some u \<Rightarrow> u @ ''@'' | None \<Rightarrow> []) @ ru_host r @
       (case ru_port r of Some p \<Rightarrow> '':'' @ show_nat p | None \<Rightarrow> []) @ ''/'' @ ru_repo_path r"

definition scp_text :: "remote_url \<Rightarrow> string" where
  "scp_text r = (case ru_user r of Some u \<Rightarrow> u @ ''@'' | None \<Rightarrow> []) @ ru_host r @ '':'' @ ru_repo_path r"

definition plain :: "char set \<Rightarrow> string \<Rightarrow> bool" where
  "plain seps s \<longleftrightarrow> list_all (\<lambda>c. graphic c \<and> c \<notin> seps) s"

definition wf_remote :: "remote_url \<Rightarrow> bool" where
  "wf_remote r \<longleftrightarrow>
     ru_host r \<noteq> [] \<and> plain {CHR ''@'', CHR ''/'', CHR '':''} (ru_host r) \<and>
     (case ru_user r of Some u \<Rightarrow> plain {CHR ''@'', CHR ''/'', CHR '':''} u | None \<Rightarrow> ru_scheme r \<noteq> Ssh) \<and>
     (case ru_port r of Some p \<Rightarrow> p < 2 ^ 16 | None \<Rightarrow> True) \<and>
     plain {} (ru_repo_path r) \<and> \<not> starts_with ''/'' (ru_repo_path r) \<and> \<not> ends_with ''.git'' (ru_repo_path r)"

lemma plain_append [simp]: "plain seps (s @ t) \<longleftrightarrow> plain seps s \<and> plain seps t"
  by (simp add: plain_def)

lemma plain_Cons [simp]: "plain seps (c # t) \<longleftrightarrow> graphic c \<and> c \<notin> seps \<and> plain seps t"
  by (auto simp: plain_def)

lemma plain_Nil [simp]: "plain seps []"
  by (simp add: plain_def)

lemma plain_sep: "plain seps s \<Longrightarrow> c \<in> seps \<Longrightarrow> c \<notin> set s"
  by (auto simp: plain_def list_all_iff)

lemma plain_trim: "plain seps s \<Longrightarrow> trim s = s"
  by (rule trim_graphic) (auto simp: plain_def list_all_iff)

lemma plain_mono: "plain seps s \<Longrightarrow> seps' \<subseteq> seps \<Longrightarrow> plain seps' s"
  by (auto simp: plain_def list_all_iff)

lemma graphic_simps [simp]: "graphic (CHR '':'')" "graphic (CHR ''/'')" "graphic (CHR ''@'')" "graphic (CHR ''.'')" "graphic (CHR ''g'')"
  "graphic (CHR ''i'')" "graphic (CHR ''t'')" "graphic (CHR ''h'')" "graphic (CHR ''p'')" "graphic (CHR ''s'')"
  by (simp_all add: graphic_def)

lemma plain_show_nat: "plain {CHR ''@'', CHR ''/'', CHR '':''} (show_nat n)"
  using show_nat_digits [of n] by (auto simp: plain_def list_all_iff graphic_def)

lemma parse_u16_show_nat: "n < 2 ^ 16 \<Longrightarrow> parse_u16 (show_nat n) = Some n"
  by (simp add: parse_u16_def show_nat_def from_str_radix_show)

lemma strip_dot_git_path:
  assumes "\<not> starts_with ''/'' p" and "\<not> ends_with ''.git'' p" and "dot \<in> {[], ''.git''}"
  shows "strip_dot_git (p @ dot) = p"
proof -
  have "trim_start_matches (CHR ''/'') (p @ dot) = p @ dot"
    using assms(1,3) by (cases p) (auto simp: trim_start_matches_def starts_with_iff)
  moreover have "strip_suffix ''.git'' p = None" using assms(2) by (simp add: strip_suffix_def)
  moreover have "strip_suffix ''.git'' (p @ ''.git'') = Some p" by (simp only: strip_suffix_eq_Some)
  ultimately show ?thesis using assms(3) by (auto simp: strip_dot_git_def)
qed

lemma split_scheme: "split_once_str ''://'' (scheme_text sch @ ''://'' @ rest) = Some (scheme_text sch, rest)"
  by (cases sch) (simp_all add: scheme_text_def starts_with_def)

lemma parse_scheme_text: "parse_scheme E (scheme_text sch) = Inr sch"
  by (cases sch) (simp_all add: parse_scheme_def scheme_text_def)

lemma split_once_str_None:
  assumes "\<not> contains_str p s" and "p \<noteq> []"
  shows "split_once_str p s = None"
  using assms by (induction s) auto

lemma split_port_text:
  assumes wf: "wf_remote r"
  shows "split_port E s (ru_host r @ (case ru_port r of Some p \<Rightarrow> '':'' @ show_nat p | None \<Rightarrow> [])) = Inr (ru_host r, ru_port r)"
proof (cases "ru_port r")
  case None
  have "CHR '':'' \<notin> set (ru_host r)" using wf plain_sep by (auto simp: wf_remote_def)
  then show ?thesis using None by (simp add: split_port_def rsplit_once_eq_None [THEN iffD2])
next
  case (Some p)
  have "CHR '':'' \<notin> set (show_nat p)" using plain_sep [OF plain_show_nat] by simp
  then have "rsplit_once (CHR '':'') (ru_host r @ CHR '':'' # show_nat p) = Some (ru_host r, show_nat p)"
    by (simp only: rsplit_once_eq_Some simp_thms)
  moreover have "p < 2 ^ 16" using wf Some by (simp add: wf_remote_def)
  ultimately show ?thesis using Some by (simp add: split_port_def parse_u16_show_nat)
qed

lemma parse_url_text:
  assumes wf: "wf_remote r" and dot: "dot \<in> {[], ''.git''}"
  shows "parse_remote E (url_text r @ dot) = Inr r"
proof -
  let ?seps = "{CHR ''@'', CHR ''/'', CHR '':''}"
  let ?port = "case ru_port r of Some p \<Rightarrow> '':'' @ show_nat p | None \<Rightarrow> []"
  let ?hp = "ru_host r @ ?port"
  let ?user = "case ru_user r of Some u \<Rightarrow> u @ ''@'' | None \<Rightarrow> []"
  have host: "plain ?seps (ru_host r)" and user: "\<And>u. ru_user r = Some u \<Longrightarrow> plain ?seps u"
    and path: "plain {} (ru_repo_path r @ dot)"
    using wf dot by (auto simp: wf_remote_def split: option.splits)
  have port: "plain {CHR ''@'', CHR ''/''} ?port"
    using plain_mono [OF plain_show_nat] by (auto split: option.splits)
  have hp: "plain {CHR ''@'', CHR ''/''} ?hp" using plain_mono [OF host] port by simp
  have slash: "CHR ''/'' \<notin> set (?user @ ?hp)"
    using plain_sep [OF hp, of "CHR ''/''"] user plain_sep [of ?seps _ "CHR ''/''"] by (auto split: option.splits)
  have whole: "trim (url_text r @ dot) = scheme_text (ru_scheme r) @ ''://'' @ (?user @ ?hp) @ CHR ''/'' # (ru_repo_path r @ dot)"
  proof -
    have "plain {} (scheme_text (ru_scheme r))" by (simp add: scheme_text_def split: remote_scheme.split)
    moreover have "plain {} ?user" using plain_mono [OF user] by (auto split: option.splits)
    moreover have "plain {} ?hp" using plain_mono [OF hp] by simp
    ultimately have "plain {} (url_text r @ dot)" using path by (simp add: url_text_def split: option.splits)
    then have "trim (url_text r @ dot) = url_text r @ dot" by (rule plain_trim)
    then show ?thesis by (simp only: url_text_def append_assoc append_Cons append_Nil)
  qed
  have split_user: "split_user (?user @ ?hp) = (ru_user r, ?hp)"
    using plain_sep [OF hp, of "CHR ''@''"] user plain_sep [of ?seps _ "CHR ''@''"]
    by (cases "ru_user r") (auto simp: split_user_def split_once_eq_None [THEN iffD2] split: option.splits)
  have split_port: "split_port E s ?hp = Inr (ru_host r, ru_port r)" for s
    using split_port_text [OF wf] by simp
  have git: "strip_dot_git (ru_repo_path r @ dot) = ru_repo_path r" and nonempty: "ru_host r \<noteq> []"
    using wf dot strip_dot_git_path by (auto simp: wf_remote_def)
  have ssh: "ru_scheme r = Ssh \<Longrightarrow> user_or_git (ru_user r) = ru_user r"
    using wf by (auto simp: wf_remote_def user_or_git_def split: option.splits)
  have cut: "split_once (CHR ''/'') ((?user @ ?hp) @ CHR ''/'' # (ru_repo_path r @ dot)) = Some (?user @ ?hp, ru_repo_path r @ dot)"
    by (rule split_once_append [OF slash])
  show ?thesis
    unfolding parse_remote_def Let_def whole split_scheme option.case prod.case parse_scheme_text cut split_user split_port rbind_simps
    using git nonempty ssh by simp
qed

lemma parse_scp_text:
  assumes wf: "wf_remote r" and dot: "dot \<in> {[], ''.git''}" and ssh: "ru_scheme r = Ssh" "ru_port r = None"
    and path: "\<not> contains_str ''://'' (scp_text r @ dot)"
  shows "parse_remote E (scp_text r @ dot) = Inr r"
proof -
  let ?seps = "{CHR ''@'', CHR ''/'', CHR '':''}"
  obtain u where u: "ru_user r = Some u" using wf ssh by (auto simp: wf_remote_def split: option.splits)
  have host: "plain ?seps (ru_host r)" and user: "plain ?seps u" and rest: "plain {} (ru_repo_path r @ dot)"
    using wf dot u by (auto simp: wf_remote_def split: option.splits)
  have "plain {} (scp_text r @ dot)" using rest plain_mono [OF host] plain_mono [OF user] by (simp add: scp_text_def u)
  then have whole: "trim (scp_text r @ dot) = (u @ CHR ''@'' # ru_host r) @ CHR '':'' # (ru_repo_path r @ dot)"
    using plain_trim [of "{}" "scp_text r @ dot"] by (simp add: scp_text_def u)
  have none: "split_once_str ''://'' ((u @ CHR ''@'' # ru_host r) @ CHR '':'' # (ru_repo_path r @ dot)) = None"
    using path by (intro split_once_str_None) (simp_all add: scp_text_def u)
  have "CHR '':'' \<notin> set (u @ CHR ''@'' # ru_host r)" using plain_sep [OF host] plain_sep [OF user] by auto
  note cut = split_once_append [OF this, of "ru_repo_path r @ dot"]
  have at: "split_user (u @ CHR ''@'' # ru_host r) = (Some u, ru_host r)"
    using plain_sep [OF user, of "CHR ''@''"] by (simp add: split_user_def)
  have "strip_dot_git (ru_repo_path r @ dot) = ru_repo_path r" "ru_host r \<noteq> []"
    using wf dot strip_dot_git_path by (auto simp: wf_remote_def)
  then show ?thesis
    unfolding parse_remote_def Let_def whole none option.case parse_scp_def cut prod.case at
    using ssh u by (simp add: user_or_git_def)
qed


definition ex_remote :: remote_url where
  "ex_remote = \<lparr>ru_scheme = Ssh, ru_user = Some ''git'', ru_host = ''h'', ru_port = None, ru_repo_path = ''o/r''\<rparr>"

definition ex_remote_env :: remote_env where
  "ex_remote_env = \<lparr>rm_cwd = None, rm_discover = (\<lambda>_. Inl ''none''), rm_debug = (\<lambda>s. s), rm_debug_path = concat, rm_port_error = (\<lambda>_. [])\<rparr>"


end
