(* ===== verification/Resolver.thy ===== *)
theory Resolver
  imports Remote Filter_Process
begin

text \<open>
  How the client finds a server and a token, \<open>git-bale/src/resolver.rs\<close>: from the configuration, or from the forge behind a remote over
  HTTP or SSH. The HTTP client, the processes it starts, the JSON library and the clock are parameters; every request and every process
  is recorded in a log.
\<close>

section \<open>Environment\<close>

datatype access_scope = ScopeRead | ScopeWrite

text \<open>A \<open>POST\<close> with the user and password of its Basic authentication, and a \<open>GET\<close> with its authorization header.\<close>

datatype request = Post string "(string \<times> string) option" | Get string string

datatype event = Sent request | RanSsh string "string list" | AskedCredential "path option" string

record ssh_auth_outcome =
  so_href :: string
  so_authorization :: string

text \<open>\<open>fo_send\<close>: status and body of an answer. \<open>fo_auth_json\<close>, \<open>fo_ssh_json\<close>, \<open>fo_token_json\<close>: the decoded answers (address and headers; address,
  flattened authorization and headers; token, expiry and address). \<open>fo_ssh\<close>, \<open>fo_credential\<close>: whether a process succeeded, its output and
  its error output as text. \<open>fo_text\<close>: the body as text, empty if it cannot be read; \<open>fo_lossy\<close>: \<open>from_utf8_lossy\<close>.\<close>

record forge_env =
  fo_remotes :: remote_env
  fo_now :: nat
  fo_client :: "string option"
  fo_send :: "request \<Rightarrow> string + (nat \<times> bytes)"
  fo_text :: "bytes \<Rightarrow> string"
  fo_lossy :: "bytes \<Rightarrow> string"
  fo_auth_json :: "bytes \<Rightarrow> string + (string \<times> (string \<times> string) list)"
  fo_ssh_json :: "bytes \<Rightarrow> string + (string \<times> string \<times> (string \<times> string) list)"
  fo_token_json :: "bytes \<Rightarrow> string + (string \<times> nat \<times> string option)"
  fo_join :: "string option"
  fo_ssh :: "string \<Rightarrow> string list \<Rightarrow> string + (bool \<times> bytes \<times> string)"
  fo_spawn_git :: "string option"
  fo_git_stdin :: "string option"
  fo_credential :: "path option \<Rightarrow> string \<Rightarrow> string + (bool \<times> bytes \<times> string)"
  fo_debug :: "string \<Rightarrow> string"
  fo_debug_args :: "string list \<Rightarrow> string"

type_synonym 'a asking = "(event list, string, 'a) step"

definition ask :: "event \<Rightarrow> string + 'a \<Rightarrow> 'a asking" where
  "ask ev r = (\<lambda>log. (r, log @ [ev]))"

definition known :: "string + 'a \<Rightarrow> 'a asking" where
  "known r = (\<lambda>log. (r, log))"

section \<open>Texts\<close>

definition scope_op :: "access_scope \<Rightarrow> string" where
  "scope_op sc = (case sc of ScopeRead \<Rightarrow> ''download'' | ScopeWrite \<Rightarrow> ''upload'')"

definition url_segment :: "access_scope \<Rightarrow> string" where
  "url_segment sc = (case sc of ScopeRead \<Rightarrow> ''bale-read-token'' | ScopeWrite \<Rightarrow> ''bale-write-token'')"

definition strip_bearer :: "string \<Rightarrow> string option" where
  "strip_bearer authz = (case strip_prefix ''Bearer '' authz of Some t \<Rightarrow> Some (trim t) | None \<Rightarrow> None)"

definition safe_char :: "char \<Rightarrow> bool" where
  "safe_char c \<longleftrightarrow>
     (let n = (of_char c :: nat)
      in (48 \<le> n \<and> n \<le> 57) \<or> (65 \<le> n \<and> n \<le> 90) \<or> (97 \<le> n \<and> n \<le> 122) \<or> c = CHR ''.'' \<or> c = CHR ''_'' \<or> c = CHR ''-'')"

definition validate_segment :: "forge_env \<Rightarrow> string \<Rightarrow> string \<Rightarrow> string + unit" where
  "validate_segment E label s =
     (if s = [] \<or> length s > 100 then Inl (label @ '' '' @ fo_debug E s @ '' has invalid length'')
      else if starts_with ''.'' s then Inl (label @ '' '' @ fo_debug E s @ '' starts with a dot'')
      else if \<not> list_all safe_char s then Inl (label @ '' '' @ fo_debug E s @ '' contains characters outside [A-Za-z0-9._-]'')
      else Inr ())"

text \<open>\<open>str::lines\<close>: cut at line feeds, a carriage return before one dropped, no empty last line.\<close>

definition drop_cr :: "string \<Rightarrow> string" where
  "drop_cr l = (case strip_suffix [CHR 0x0D] l of Some t \<Rightarrow> t | None \<Rightarrow> l)"

definition lines_of :: "string \<Rightarrow> string list" where
  "lines_of s =
     (let ls = split_on (CHR 0x0A) s
      in map drop_cr (butlast ls) @ (if last ls = [] then [] else [last ls]))"

definition far_future_epoch :: "forge_env \<Rightarrow> nat" where
  "far_future_epoch E = fo_now E + 100 * 365 * 24 * 60 * 60"

section \<open>The forge over HTTP\<close>

datatype auth_http_error = NeedsAuth | AuthOther string

definition into_anyhow :: "auth_http_error \<Rightarrow> string" where
  "into_anyhow e =
     (case e of
        NeedsAuth \<Rightarrow> ''/info/bale/authenticate returned HTTP 401/403 after presenting credentials''
      | AuthOther m \<Rightarrow> m)"

definition authenticate_url :: "remote_url \<Rightarrow> string \<Rightarrow> string \<Rightarrow> access_scope \<Rightarrow> string" where
  "authenticate_url r owner repo sc =
     https_base r @ ''/'' @ owner @ ''/'' @ repo @ ''.git/info/bale/authenticate?op='' @ scope_op sc"

definition is_success :: "nat \<Rightarrow> bool" where
  "is_success status \<longleftrightarrow> 200 \<le> status \<and> status < 300"

text \<open>What is made of the forge's answer.\<close>

definition read_authenticate :: "forge_env \<Rightarrow> string \<Rightarrow> nat \<Rightarrow> bytes \<Rightarrow> auth_http_error + ssh_auth_outcome" where
  "read_authenticate E url status body =
     (if status = 401 \<or> status = 403 then Inl NeedsAuth
      else if \<not> is_success status
      then Inl (AuthOther (''/info/bale/authenticate '' @ url @ '' returned HTTP '' @ show_nat status @ '' ('' @ trim (fo_text E body) @ '')''))
      else case fo_auth_json E body of
             Inl e \<Rightarrow> Inl (AuthOther (''decoding /info/bale/authenticate body: '' @ e))
           | Inr (href, header) \<Rightarrow>
               (case map_of header ''Authorization'' of
                  None \<Rightarrow> Inl (AuthOther ''/info/bale/authenticate response has no Authorization header'')
                | Some authz \<Rightarrow> Inr \<lparr>so_href = trim_end_matches (CHR ''/'') href, so_authorization = authz\<rparr>))"

definition authenticate_http ::
  "forge_env \<Rightarrow> remote_url \<Rightarrow> string \<Rightarrow> string \<Rightarrow> access_scope \<Rightarrow> (string \<times> string) option \<Rightarrow> (event list, auth_http_error, ssh_auth_outcome) step" where
  "authenticate_http E r owner repo sc creds log =
     (let url = authenticate_url r owner repo sc; req = Post url creds
      in case fo_client E of
           Some e \<Rightarrow> (Inl (AuthOther (''building http client: '' @ e)), log)
         | None \<Rightarrow>
             (case fo_send E req of
                Inl e \<Rightarrow> Inl (AuthOther (''POST '' @ url @ '': '' @ e))
              | Inr (status, body) \<Rightarrow> read_authenticate E url status body,
              log @ [Sent req]))"

text \<open>The fields of \<open>git credential fill\<close>: the last line of each kind counts.\<close>

definition last_field :: "string \<Rightarrow> string list \<Rightarrow> string option" where
  "last_field key ls = (case List.map_filter (strip_prefix key) ls of [] \<Rightarrow> None | vs \<Rightarrow> Some (last vs))"

definition credential_body :: "string \<Rightarrow> remote_url \<Rightarrow> string" where
  "credential_body protocol r =
     ''protocol='' @ protocol @ [CHR 0x0A] @ ''host='' @ ru_host r @ [CHR 0x0A] @
       (case ru_port r of Some p \<Rightarrow> ''port='' @ show_nat p @ [CHR 0x0A] | None \<Rightarrow> []) @ [CHR 0x0A]"

definition read_credential :: "forge_env \<Rightarrow> string + (bool \<times> bytes \<times> string) \<Rightarrow> string + (string \<times> string)" where
  "read_credential E out =
     rbind (with_context ''waiting on git credential fill'' out) (\<lambda>(ok, stdout, stderr).
       if \<not> ok then Inl (''git credential fill failed: '' @ trim stderr)
       else
         let ls = lines_of (fo_lossy E stdout)
         in case last_field ''password='' ls of
              None \<Rightarrow> Inl ''git credential fill returned no password field''
            | Some password \<Rightarrow> Inr (case last_field ''username='' ls of Some u \<Rightarrow> u | None \<Rightarrow> ''git'', password))"

definition git_credential_fill :: "forge_env \<Rightarrow> remote_url \<Rightarrow> path option \<Rightarrow> (string \<times> string) asking" where
  "git_credential_fill E r cwd =
     (let fill = (\<lambda>protocol.
            let body = credential_body protocol r
            in case fo_spawn_git E of
                 Some e \<Rightarrow> sfail (''spawning git credential fill: '' @ e)
               | None \<Rightarrow>
                   ask (AskedCredential cwd body)
                     (case fo_git_stdin E of Some e \<Rightarrow> Inl e | None \<Rightarrow> read_credential E (fo_credential E cwd body)))
      in case ru_scheme r of
           Http \<Rightarrow> fill ''http''
         | Https \<Rightarrow> fill ''https''
         | Ssh \<Rightarrow> sfail ''git_credential_fill called on SSH remote'')"

definition with_credentials :: "forge_env \<Rightarrow> remote_url \<Rightarrow> string \<Rightarrow> string \<Rightarrow> access_scope \<Rightarrow> path option \<Rightarrow> ssh_auth_outcome asking" where
  "with_credentials E r owner repo sc cwd =
     sbind (git_credential_fill E r cwd) (\<lambda>creds log.
       case authenticate_http E r owner repo sc (Some creds) log of (res, log') \<Rightarrow> (rmap_err into_anyhow res, log'))"

definition authenticate_http_with_fallback ::
  "forge_env \<Rightarrow> remote_url \<Rightarrow> string \<Rightarrow> string \<Rightarrow> access_scope \<Rightarrow> path option \<Rightarrow> ssh_auth_outcome asking" where
  "authenticate_http_with_fallback E r owner repo sc cwd log =
     (if sc = ScopeRead
      then case authenticate_http E r owner repo sc None log of
             (Inr outcome, log') \<Rightarrow> (Inr outcome, log')
           | (Inl NeedsAuth, log') \<Rightarrow> with_credentials E r owner repo sc cwd log'
           | (Inl (AuthOther e), log') \<Rightarrow> (Inl e, log')
      else with_credentials E r owner repo sc cwd log)"

section \<open>The forge over SSH\<close>

definition ssh_args :: "remote_url \<Rightarrow> string \<Rightarrow> string \<Rightarrow> access_scope \<Rightarrow> string list" where
  "ssh_args r owner repo sc =
     [''-o'', ''BatchMode=yes'', ''-o'', ''StrictHostKeyChecking=accept-new''] @
     (case ru_port r of Some p \<Rightarrow> [''-p'', show_nat p] | None \<Rightarrow> []) @
     [(case ru_user r of Some u \<Rightarrow> u | None \<Rightarrow> ''git'') @ ''@'' @ ru_host r,
      ''git-bale-authenticate '' @ owner @ ''/'' @ repo @ '' '' @ scope_op sc]"

text \<open>The program and its arguments, on Unix: a configured command goes through the shell.\<close>

definition ssh_subprocess :: "string option \<Rightarrow> string list \<Rightarrow> string \<times> string list" where
  "ssh_subprocess ssh_command args =
     (case ssh_command of
        None \<Rightarrow> (''ssh'', args)
      | Some c \<Rightarrow>
          let cmd = trim c
          in if cmd = [] then (''ssh'', args)
             else (''/bin/sh'', [''-c'', cmd @ [CHR '' '', CHR 0x22, CHR ''$'', CHR ''@'', CHR 0x22], cmd] @ args))"

definition read_ssh_answer :: "forge_env \<Rightarrow> string list \<Rightarrow> bool \<times> bytes \<times> string \<Rightarrow> string + ssh_auth_outcome" where
  "read_ssh_answer E args = (\<lambda>(ok, stdout, stderr).
     if \<not> ok then Inl (''ssh '' @ fo_debug_args E args @ '' failed: '' @ trim stderr)
     else
       rbind (with_context (''decoding git-bale-authenticate output ('' @ show_nat (length stdout) @ '' bytes)'') (fo_ssh_json E stdout))
         (\<lambda>(href, authorization, header).
            case (case map_of header ''Authorization'' of Some a \<Rightarrow> Some a | None \<Rightarrow> if authorization \<noteq> [] then Some authorization else None) of
              None \<Rightarrow> Inl ''git-bale-authenticate response has no Authorization header''
            | Some authz \<Rightarrow> Inr \<lparr>so_href = trim_end_matches (CHR ''/'') href, so_authorization = authz\<rparr>))"

definition ssh_authenticate ::
  "forge_env \<Rightarrow> remote_url \<Rightarrow> string \<Rightarrow> string \<Rightarrow> access_scope \<Rightarrow> string option \<Rightarrow> ssh_auth_outcome asking" where
  "ssh_authenticate E r owner repo sc ssh_command =
     (let args = ssh_args r owner repo sc; (program, argv) = ssh_subprocess ssh_command args
      in ask (RanSsh program argv)
           (case fo_join E of
              Some e \<Rightarrow> Inl (''joining ssh subprocess: '' @ e)
            | None \<Rightarrow> rbind (with_context ''spawning ssh'' (fo_ssh E program argv)) (read_ssh_answer E args)))"

section \<open>Tokens\<close>

definition exchange_url :: "string \<Rightarrow> string \<Rightarrow> string \<Rightarrow> string \<Rightarrow> access_scope \<Rightarrow> string" where
  "exchange_url server_url owner repo revision sc =
     trim_end_matches (CHR ''/'') server_url @ ''/api/models/'' @ owner @ ''/'' @ repo @ ''/'' @ url_segment sc @ ''/'' @ revision"

definition read_exchange :: "forge_env \<Rightarrow> string \<Rightarrow> string \<Rightarrow> nat \<times> bytes \<Rightarrow> string + resolved_auth" where
  "read_exchange E server_url url = (\<lambda>(status, body).
     if \<not> is_success status
     then Inl (''token exchange '' @ url @ '' returned HTTP '' @ show_nat status @ '' ('' @ trim (fo_text E body) @ '')'')
     else rbind (with_context ''decoding bale-token response'' (fo_token_json E body)) (\<lambda>(access_token, expiry, cas_url).
            Inr \<lparr>ra_server_url = trim_end_matches (CHR ''/'') (case cas_url of Some u \<Rightarrow> u | None \<Rightarrow> server_url),
              ra_token = access_token, ra_token_expiration = expiry\<rparr>))"

definition exchange_token :: "forge_env \<Rightarrow> string \<Rightarrow> string \<Rightarrow> string \<Rightarrow> string \<Rightarrow> access_scope \<Rightarrow> string \<Rightarrow> resolved_auth asking" where
  "exchange_token E server_url owner repo revision sc forge_bearer =
     (let url = exchange_url server_url owner repo revision sc; req = Get url (''Bearer '' @ forge_bearer)
      in case fo_client E of
           Some e \<Rightarrow> sfail (''building http client: '' @ e)
         | None \<Rightarrow> ask (Sent req) (rbind (with_context (''GET '' @ url) (fo_send E req)) (read_exchange E server_url url)))"

text \<open>A token from the configuration.\<close>

definition static_auth :: "forge_env \<Rightarrow> raw_config \<Rightarrow> string \<Rightarrow> string \<Rightarrow> resolved_auth" where
  "static_auth E raw url tok =
     \<lparr>ra_server_url = url, ra_token = tok,
      ra_token_expiration = (case rc_token_expiration raw of Some t \<Rightarrow> t | None \<Rightarrow> far_future_epoch E)\<rparr>"

definition parent_of :: "path \<Rightarrow> path option" where
  "parent_of p = (if p = [] then None else Some (butlast p))"

definition repo_cwd :: "raw_config \<Rightarrow> path option" where
  "repo_cwd raw = (case rc_git_dir raw of Some gd \<Rightarrow> parent_of gd | None \<Rightarrow> None)"

definition target_of :: "forge_env \<Rightarrow> raw_config \<Rightarrow> remote_url option \<Rightarrow> string + remote_url" where
  "target_of E raw remote_override =
     (case remote_override of
        Some r \<Rightarrow> Inr r
      | None \<Rightarrow>
          with_context (''auto-resolving Bale auth: failed to read git remote '' @ [CHR 0x27] @ ''origin'' @ [CHR 0x27])
            (parse_origin (fo_remotes E) (repo_cwd raw)))"

definition forge_authenticate :: "forge_env \<Rightarrow> raw_config \<Rightarrow> remote_url \<Rightarrow> string \<Rightarrow> string \<Rightarrow> access_scope \<Rightarrow> (string \<times> string) asking" where
  "forge_authenticate E raw r owner repo sc =
     (let (auth, what) = (if ru_scheme r = Ssh
            then (ssh_authenticate E r owner repo sc (rc_ssh_command raw), ''git-bale-authenticate returned non-Bearer Authorization'')
            else (authenticate_http_with_fallback E r owner repo sc (repo_cwd raw), ''/info/bale/authenticate returned non-Bearer Authorization''))
      in sbind auth (\<lambda>outcome.
           case strip_bearer (so_authorization outcome) of
             None \<Rightarrow> sfail what
           | Some bearer \<Rightarrow> sret (case rc_server_url raw of Some u \<Rightarrow> u | None \<Rightarrow> so_href outcome, bearer)))"

definition resolve_for_remote :: "forge_env \<Rightarrow> raw_config \<Rightarrow> access_scope \<Rightarrow> remote_url option \<Rightarrow> resolved_auth asking" where
  "resolve_for_remote E raw sc remote_override =
     (case (rc_server_url raw, rc_token raw) of
        (Some url, Some tok) \<Rightarrow> sret (static_auth E raw url tok)
      | _ \<Rightarrow>
          sbind (known (target_of E raw remote_override)) (\<lambda>r.
          sbind (known (owner_and_repo r)) (\<lambda>(owner, repo).
          sbind (known (validate_segment E ''owner'' owner)) (\<lambda>_.
          sbind (known (validate_segment E ''repo'' repo)) (\<lambda>_.
          sbind (forge_authenticate E raw r owner repo sc) (\<lambda>(server_url, forge_bearer).
          case rc_token raw of
            Some tok \<Rightarrow> sret (static_auth E raw server_url tok)
          | None \<Rightarrow> exchange_token E server_url owner repo ''main'' sc forge_bearer))))))"

section \<open>Refreshing\<close>

definition REFRESH_BUFFER_SEC :: nat where "REFRESH_BUFFER_SEC = 30"
definition MAX_EXPIRED_REFRESHES :: nat where "MAX_EXPIRED_REFRESHES = 3"

record token_refresher =
  tr_raw :: raw_config
  tr_scope :: access_scope
  tr_remote :: "remote_url option"
  tr_consecutive_expired :: u32

definition forge_refresher_for_remote :: "raw_config \<Rightarrow> access_scope \<Rightarrow> remote_url option \<Rightarrow> token_refresher" where
  "forge_refresher_for_remote raw sc remote = \<lparr>tr_raw = raw, tr_scope = sc, tr_remote = remote, tr_consecutive_expired = 0\<rparr>"

definition expired_text :: "nat \<Rightarrow> nat \<Rightarrow> u32 \<Rightarrow> string" where
  "expired_text expiry now n =
     ''re-minted bale token is already expired (exp '' @ show_nat expiry @ [CHR '' '', CHR 0xE2, CHR 0x89, CHR 0xA4] @ '' now '' @ show_nat now @ '') '' @
     show_nat (unat n) @ [CHR 0xC3, CHR 0x97] @ '' in a row; client and server clocks differ by more than the token TTL '' @
     [CHR 0xE2, CHR 0x80, CHR 0x94] @ '' sync clocks (NTP)''"

definition stale :: "forge_env \<Rightarrow> nat \<Rightarrow> bool" where
  "stale E expiry \<longleftrightarrow> expiry \<le> saturating_add (fo_now E) REFRESH_BUFFER_SEC"

definition refresh :: "forge_env \<Rightarrow> token_refresher \<Rightarrow> (string + (string \<times> nat)) \<times> token_refresher" where
  "refresh E tr =
     (case fst (resolve_for_remote E (tr_raw tr) (tr_scope tr) (tr_remote tr) []) of
        Inl e \<Rightarrow> (Inl e, tr)
      | Inr resolved \<Rightarrow>
          let expiry = ra_token_expiration resolved; token = Inr (ra_token resolved, expiry)
          in if stale E expiry
             then let n = tr_consecutive_expired tr + 1; tr' = tr\<lparr>tr_consecutive_expired := n\<rparr>
                  in if unat n > MAX_EXPIRED_REFRESHES then (Inl (expired_text expiry (fo_now E) n), tr') else (token, tr')
             else (token, tr\<lparr>tr_consecutive_expired := 0\<rparr>))"

end
