(* ===== verification/Resolver_Trust.thy ===== *)
theory Resolver_Trust
  imports Resolver
begin

text \<open>
  What the resolver tells to whom, \<open>git-bale/src/resolver.rs\<close>: credentials go to the forge only and only after it refused an anonymous
  reader, the server sees a bearer the forge issued, and a command line holds validated names. A refresher gives up on tokens that
  arrive expired.
\<close>

section \<open>Requests\<close>

definition segment_ok :: "string \<Rightarrow> bool" where
  "segment_ok s \<longleftrightarrow> s \<noteq> [] \<and> length s \<le> 100 \<and> hd s \<noteq> CHR ''.'' \<and> list_all safe_char s"

definition refused :: "string + (nat \<times> bytes) \<Rightarrow> bool" where
  "refused answer \<longleftrightarrow> (\<exists>status body. answer = Inr (status, body) \<and> (status = 401 \<or> status = 403))"

text \<open>An answer of the forge that names a server and a bearer.\<close>

definition forge_issued :: "forge_env \<Rightarrow> remote_url \<Rightarrow> string \<Rightarrow> string \<Rightarrow> access_scope \<Rightarrow> raw_config \<Rightarrow> string \<Rightarrow> string \<Rightarrow> bool" where
  "forge_issued E r owner repo sc raw href bearer \<longleftrightarrow>
     (\<exists>outcome. so_href outcome = href \<and> strip_bearer (so_authorization outcome) = Some bearer \<and>
        (if ru_scheme r = Ssh
         then \<exists>answer. fo_ssh E (fst (ssh_subprocess (rc_ssh_command raw) (ssh_args r owner repo sc)))
                 (snd (ssh_subprocess (rc_ssh_command raw) (ssh_args r owner repo sc))) = Inr answer \<and>
               read_ssh_answer E (ssh_args r owner repo sc) answer = Inr outcome
         else \<exists>creds status body. fo_send E (Post (authenticate_url r owner repo sc) creds) = Inr (status, body) \<and>
               read_authenticate E (authenticate_url r owner repo sc) status body = Inr outcome))"

definition allowed :: "forge_env \<Rightarrow> raw_config \<Rightarrow> remote_url \<Rightarrow> string \<Rightarrow> string \<Rightarrow> access_scope \<Rightarrow> event \<Rightarrow> bool" where
  "allowed E raw r owner repo sc ev \<longleftrightarrow>
     (let url = authenticate_url r owner repo sc; may_ask = (sc = ScopeRead \<longrightarrow> refused (fo_send E (Post url None)))
      in case ev of
           Sent (Post u creds) \<Rightarrow> ru_scheme r \<noteq> Ssh \<and> u = url \<and> (creds \<noteq> None \<longrightarrow> may_ask) \<and> (creds = None \<longrightarrow> sc = ScopeRead)
         | AskedCredential cwd body \<Rightarrow> ru_scheme r \<noteq> Ssh \<and> cwd = repo_cwd raw \<and> may_ask
         | RanSsh program argv \<Rightarrow>
             ru_scheme r = Ssh \<and> last argv = ''git-bale-authenticate '' @ owner @ ''/'' @ repo @ '' '' @ scope_op sc
         | Sent (Get u header) \<Rightarrow>
             rc_token raw = None \<and>
             (\<exists>href bearer server. forge_issued E r owner repo sc raw href bearer \<and> header = ''Bearer '' @ bearer \<and>
                server = (case rc_server_url raw of Some s \<Rightarrow> s | None \<Rightarrow> href) \<and> u = exchange_url server owner repo ''main'' sc))"

text \<open>Steps that log only what satisfies a predicate.\<close>

definition logs :: "(event \<Rightarrow> bool) \<Rightarrow> (event list, 'e, 'a) step \<Rightarrow> bool" where
  "logs P m \<longleftrightarrow> (\<forall>log res log'. m log = (res, log') \<longrightarrow> (\<exists>new. log' = log @ new \<and> list_all P new))"

lemma logsI: "(\<And>log. \<exists>new. snd (m log) = log @ new \<and> list_all P new) \<Longrightarrow> logs P m"
  unfolding logs_def by (metis snd_conv)

lemma logsE:
  assumes "logs P m" and "m log = (res, log')"
  obtains new where "log' = log @ new" "list_all P new"
  using assms unfolding logs_def by blast

lemma logs_sbind:
  assumes "logs P m" and "\<And>x log log'. m log = (Inr x, log') \<Longrightarrow> logs P (f x)"
  shows "logs P (sbind m f)"
proof (rule logsI)
  fix log
  obtain res log1 where m: "m log = (res, log1)" by force
  obtain new where new: "log1 = log @ new" "list_all P new" using logsE [OF assms(1) m] by blast
  show "\<exists>new. snd (sbind m f log) = log @ new \<and> list_all P new"
  proof (cases res)
    case (Inl e)
    then show ?thesis using m new by simp
  next
    case (Inr x)
    obtain res2 log2 where f: "f x log1 = (res2, log2)" by force
    have "logs P (f x)" using assms(2) m Inr by blast
    from logsE [OF this f] obtain new2 where "log2 = log1 @ new2" "list_all P new2" by blast
    then show ?thesis using m Inr f new by auto
  qed
qed

lemma logs_basic [simp]: "logs P (sret x)" "logs P (sfail e)" "logs P (known r)"
  by (auto simp: logs_def known_def)

lemma logs_ask [simp]: "P ev \<Longrightarrow> logs P (ask ev r)"
  by (auto simp: logs_def ask_def)

lemma known_Inr: "known r log = (Inr x, log') \<Longrightarrow> r = Inr x \<and> log' = log"
  by (simp add: known_def)

lemma sbind_known: "sbind (known r) f log = (case r of Inl e \<Rightarrow> (Inl e, log) | Inr x \<Rightarrow> f x log)"
  by (auto simp: sbind_def known_def split: sum.split)

lemma ask_Inr: "ask ev r log = (Inr x, log') \<Longrightarrow> r = Inr x"
  by (simp add: ask_def)

lemma validate_segment_ok: "validate_segment E label s = Inr x \<Longrightarrow> segment_ok s"
  by (cases s) (auto simp: validate_segment_def segment_ok_def starts_with_def split: if_splits)

section \<open>The forge\<close>

lemma authenticate_http_result:
  assumes "authenticate_http E r owner repo sc creds log = (res, log')"
  shows "(\<exists>e. res = Inl (AuthOther e)) \<or>
    (\<exists>status body. fo_send E (Post (authenticate_url r owner repo sc) creds) = Inr (status, body) \<and>
       res = read_authenticate E (authenticate_url r owner repo sc) status body)"
  using assms by (auto simp: authenticate_http_def Let_def split: option.splits sum.splits)

lemma read_authenticate_NeedsAuth: "read_authenticate E url status body = Inl NeedsAuth \<Longrightarrow> status = 401 \<or> status = 403"
  by (auto simp: read_authenticate_def split: if_splits sum.splits option.splits prod.splits)

lemma logs_authenticate_http:
  assumes "P (Sent (Post (authenticate_url r owner repo sc) creds))"
  shows "logs P (authenticate_http E r owner repo sc creds)"
  using assms by (intro logsI) (auto simp: authenticate_http_def Let_def split: option.splits)

lemma logs_credential:
  assumes "\<And>body. ru_scheme r \<noteq> Ssh \<Longrightarrow> P (AskedCredential cwd body)"
  shows "logs P (git_credential_fill E r cwd)"
  using assms by (cases "ru_scheme r") (auto simp: git_credential_fill_def Let_def split: option.splits)

lemma logs_with_credentials:
  assumes "\<And>body. P (AskedCredential cwd body)" and "\<And>c. P (Sent (Post (authenticate_url r owner repo sc) (Some c)))"
  shows "logs P (with_credentials E r owner repo sc cwd)"
  unfolding with_credentials_def
proof (rule logs_sbind)
  show "logs P (git_credential_fill E r cwd)" using logs_credential assms(1) by blast
  fix creds :: "string \<times> string"
  have "logs P (authenticate_http E r owner repo sc (Some creds))" by (rule logs_authenticate_http) (rule assms(2))
  then show "logs P (\<lambda>log. case authenticate_http E r owner repo sc (Some creds) log of (res, log') \<Rightarrow> (rmap_err into_anyhow res, log'))"
    by (intro logsI) (auto split: prod.split elim: logsE)
qed

lemma with_credentials_Inr:
  assumes "with_credentials E r owner repo sc cwd log = (Inr outcome, log')"
  shows "\<exists>creds status body. fo_send E (Post (authenticate_url r owner repo sc) creds) = Inr (status, body) \<and>
    read_authenticate E (authenticate_url r owner repo sc) status body = Inr outcome"
proof -
  obtain c log1 where "rmap_err into_anyhow (fst (authenticate_http E r owner repo sc (Some c) log1)) = Inr outcome"
  proof (rule sbind_InrE [OF assms [unfolded with_credentials_def]])
    fix c log1
    assume "(case authenticate_http E r owner repo sc (Some c) log1 of (res, log') \<Rightarrow> (rmap_err into_anyhow res, log')) = (Inr outcome, log')"
    then have "rmap_err into_anyhow (fst (authenticate_http E r owner repo sc (Some c) log1)) = Inr outcome"
      by (simp add: case_prod_beta)
    then show thesis by (rule that)
  qed
  then have "fst (authenticate_http E r owner repo sc (Some c) log1) = Inr outcome" by (simp add: rmap_err_eq_Inr)
  then show ?thesis
    using authenticate_http_result [of E r owner repo sc "Some c" log1] by (metis prod.collapse sum.distinct(1))
qed

lemma fallback_Inr:
  assumes "authenticate_http_with_fallback E r owner repo sc cwd log = (Inr outcome, log')"
  shows "\<exists>creds status body. fo_send E (Post (authenticate_url r owner repo sc) creds) = Inr (status, body) \<and>
    read_authenticate E (authenticate_url r owner repo sc) status body = Inr outcome"
proof (cases "sc = ScopeRead")
  case True
  obtain res log1 where a: "authenticate_http E r owner repo sc None log = (res, log1)" by force
  show ?thesis
  proof (cases "res = Inl NeedsAuth")
    case needs: True
    then have "with_credentials E r owner repo sc cwd log1 = (Inr outcome, log')"
      using assms a True by (simp add: authenticate_http_with_fallback_def)
    then show ?thesis by (rule with_credentials_Inr)
  next
    case False
    then have "res = Inr outcome"
      using assms a True by (auto simp: authenticate_http_with_fallback_def split: sum.splits auth_http_error.splits)
    then show ?thesis using authenticate_http_result [OF a] by (metis sum.distinct(1))
  qed
next
  case False
  then show ?thesis using assms with_credentials_Inr by (auto simp: authenticate_http_with_fallback_def)
qed

lemma logs_fallback:
  assumes "ru_scheme r \<noteq> Ssh"
  shows "logs (allowed E raw r owner repo sc) (authenticate_http_with_fallback E r owner repo sc (repo_cwd raw))" (is "logs ?P ?m")
proof (cases "sc = ScopeRead")
  case True
  have probe: "logs ?P (authenticate_http E r owner repo sc None)"
    using assms True by (intro logs_authenticate_http) (simp add: allowed_def)
  show ?thesis
  proof (rule logsI)
    fix log
    obtain res log1 where a: "authenticate_http E r owner repo sc None log = (res, log1)" by force
    obtain new where new: "log1 = log @ new" "list_all ?P new" using logsE [OF probe a] by blast
    show "\<exists>new. snd (?m log) = log @ new \<and> list_all ?P new"
    proof (cases "res = Inl NeedsAuth")
      case needs: True
      have "refused (fo_send E (Post (authenticate_url r owner repo sc) None))"
        using authenticate_http_result [OF a] needs read_authenticate_NeedsAuth unfolding refused_def by blast
      then have creds: "logs ?P (with_credentials E r owner repo sc (repo_cwd raw))"
        using assms by (intro logs_with_credentials) (auto simp: allowed_def)
      obtain res2 log2 where b: "with_credentials E r owner repo sc (repo_cwd raw) log1 = (res2, log2)" by force
      obtain new2 where "log2 = log1 @ new2" "list_all ?P new2" using logsE [OF creds b] by blast
      then show ?thesis using a b needs True new by (auto simp: authenticate_http_with_fallback_def)
    next
      case False
      then show ?thesis
        using a new True by (auto simp: authenticate_http_with_fallback_def split: sum.split auth_http_error.split)
    qed
  qed
next
  case False
  have "logs ?P (with_credentials E r owner repo sc (repo_cwd raw))"
    using assms False by (intro logs_with_credentials) (simp_all add: allowed_def)
  moreover have "?m = with_credentials E r owner repo sc (repo_cwd raw)"
    using False by (simp add: authenticate_http_with_fallback_def fun_eq_iff)
  ultimately show ?thesis by simp
qed

lemma last_ssh_args: "last (ssh_args r owner repo sc) = ''git-bale-authenticate '' @ owner @ ''/'' @ repo @ '' '' @ scope_op sc"
  by (simp add: ssh_args_def)

lemma last_subprocess: "args \<noteq> [] \<Longrightarrow> last (snd (ssh_subprocess c args)) = last args"
  by (cases c) (auto simp: ssh_subprocess_def Let_def)

lemma logs_ssh:
  assumes "ru_scheme r = Ssh"
  shows "logs (allowed E raw r owner repo sc) (ssh_authenticate E r owner repo sc (rc_ssh_command raw))"
proof -
  have "ssh_args r owner repo sc \<noteq> []" by (simp add: ssh_args_def)
  then have "last (snd (ssh_subprocess (rc_ssh_command raw) (ssh_args r owner repo sc))) = ''git-bale-authenticate '' @ owner @ ''/'' @ repo @ '' '' @ scope_op sc"
    using last_subprocess last_ssh_args by metis
  then show ?thesis
    using assms by (auto simp: ssh_authenticate_def Let_def allowed_def split: prod.split)
qed

lemma ssh_Inr:
  assumes "ssh_authenticate E r owner repo sc c log = (Inr outcome, log')"
  shows "\<exists>answer. fo_ssh E (fst (ssh_subprocess c (ssh_args r owner repo sc))) (snd (ssh_subprocess c (ssh_args r owner repo sc))) = Inr answer \<and>
    read_ssh_answer E (ssh_args r owner repo sc) answer = Inr outcome"
  using assms
  by (auto simp: ssh_authenticate_def Let_def ask_def with_context_def rbind_eq_Inr rmap_err_eq_Inr split: prod.splits option.splits)

section \<open>Resolution\<close>

lemma logs_forge: "logs (allowed E raw r owner repo sc) (forge_authenticate E raw r owner repo sc)"
  using logs_ssh logs_fallback
  by (auto simp: forge_authenticate_def intro!: logs_sbind split: option.split)

lemma forge_Inr:
  assumes "forge_authenticate E raw r owner repo sc log = (Inr (server, bearer), log')"
  shows "\<exists>href. forge_issued E r owner repo sc raw href bearer \<and> server = (case rc_server_url raw of Some s \<Rightarrow> s | None \<Rightarrow> href)"
proof -
  let ?auth = "if ru_scheme r = Ssh then ssh_authenticate E r owner repo sc (rc_ssh_command raw)
    else authenticate_http_with_fallback E r owner repo sc (repo_cwd raw)"
  obtain outcome log1 where o: "?auth log = (Inr outcome, log1)" "strip_bearer (so_authorization outcome) = Some bearer"
      "server = (case rc_server_url raw of Some s \<Rightarrow> s | None \<Rightarrow> so_href outcome)"
    using assms by (auto simp: forge_authenticate_def elim!: sbind_InrE split: if_splits option.splits)
  have "forge_issued E r owner repo sc raw (so_href outcome) bearer"
    using o(1,2) ssh_Inr fallback_Inr unfolding forge_issued_def by (auto split: if_splits)
  then show ?thesis using o(3) by blast
qed

lemma logs_exchange:
  assumes "forge_issued E r owner repo sc raw href bearer" and "rc_token raw = None"
    and "server = (case rc_server_url raw of Some s \<Rightarrow> s | None \<Rightarrow> href)"
  shows "logs (allowed E raw r owner repo sc) (exchange_token E server owner repo ''main'' sc bearer)"
proof -
  have "allowed E raw r owner repo sc (Sent (Get (exchange_url server owner repo ''main'' sc) (''Bearer '' @ bearer)))"
    using assms unfolding allowed_def Let_def by (simp only: event.case request.case) blast
  then show ?thesis unfolding exchange_token_def Let_def by (cases "fo_client E") (simp_all only: option.case logs_basic logs_ask)
qed

lemma logs_resolve:
  assumes "target_of E raw ov = Inr r" and "owner_and_repo r = Inr (owner, repo)"
  shows "logs (allowed E raw r owner repo sc)
    (sbind (forge_authenticate E raw r owner repo sc) (\<lambda>(server_url, forge_bearer).
       case rc_token raw of
         Some tok \<Rightarrow> sret (static_auth E raw server_url tok)
       | None \<Rightarrow> exchange_token E server_url owner repo ''main'' sc forge_bearer))"
proof (rule logs_sbind [OF logs_forge])
  fix x log log'
  assume "forge_authenticate E raw r owner repo sc log = (Inr x, log')"
  then obtain href where "forge_issued E r owner repo sc raw href (snd x)" "fst x = (case rc_server_url raw of Some s \<Rightarrow> s | None \<Rightarrow> href)"
    using forge_Inr [of E raw r owner repo sc log "fst x" "snd x" log'] by auto
  then show "logs (allowed E raw r owner repo sc) (case x of (server_url, forge_bearer) \<Rightarrow>
      case rc_token raw of Some tok \<Rightarrow> sret (static_auth E raw server_url tok)
      | None \<Rightarrow> exchange_token E server_url owner repo ''main'' sc forge_bearer)"
    using logs_exchange by (auto split: prod.split option.split)
qed


section \<open>Refreshing\<close>

text \<open>A history of refreshes, each in its own environment, with the results.\<close>

fun refresh_run :: "forge_env list \<Rightarrow> token_refresher \<Rightarrow> (forge_env \<times> (string + (string \<times> nat))) list" where
  "refresh_run [] tr = []"
| "refresh_run (E # Es) tr = (case refresh E tr of (res, tr') \<Rightarrow> (E, res) # refresh_run Es tr')"

text \<open>The tokens handed out in a stretch of a history, and a stretch in which no usable one is.\<close>

definition handed_out :: "(forge_env \<times> (string + (string \<times> nat))) list \<Rightarrow> nat" where
  "handed_out rs = length (filter (\<lambda>(E, res). case res of Inr _ \<Rightarrow> True | Inl _ \<Rightarrow> False) rs)"

definition only_stale :: "(forge_env \<times> (string + (string \<times> nat))) list \<Rightarrow> bool" where
  "only_stale rs \<longleftrightarrow> list_all (\<lambda>(E, res). case res of Inr (tok, expiry) \<Rightarrow> stale E expiry | Inl _ \<Rightarrow> True) rs"

lemma refresh_cases:
  assumes "refresh E tr = (res, tr')"
  obtains (failed) e where "res = Inl e" "tr' = tr"
  | (fresh) tok expiry where "res = Inr (tok, expiry)" "\<not> stale E expiry" "tr_consecutive_expired tr' = 0"
  | (given_up) e where "res = Inl e" "unat (tr_consecutive_expired tr + 1) > MAX_EXPIRED_REFRESHES"
      "tr_consecutive_expired tr' = tr_consecutive_expired tr + 1"
  | (expired) tok expiry where "res = Inr (tok, expiry)" "stale E expiry" "unat (tr_consecutive_expired tr + 1) \<le> MAX_EXPIRED_REFRESHES"
      "tr_consecutive_expired tr' = tr_consecutive_expired tr + 1"
proof (cases "fst (resolve_for_remote E (tr_raw tr) (tr_scope tr) (tr_remote tr) [])")
  case (Inl e)
  then show thesis using assms failed by (auto simp: refresh_def)
next
  case (Inr resolved)
  show thesis
  proof (cases "stale E (ra_token_expiration resolved)")
    case False
    then have "res = Inr (ra_token resolved, ra_token_expiration resolved)" "tr' = tr\<lparr>tr_consecutive_expired := 0\<rparr>"
      using assms Inr by (simp_all add: refresh_def Let_def)
    then show thesis using False fresh by simp
  next
    case True
    then have tr': "tr' = tr\<lparr>tr_consecutive_expired := tr_consecutive_expired tr + 1\<rparr>"
      using assms Inr by (simp add: refresh_def Let_def split: if_splits)
    show thesis
    proof (cases "unat (tr_consecutive_expired tr + 1) > MAX_EXPIRED_REFRESHES")
      case True
      then have "\<exists>e. res = Inl e" using \<open>stale E (ra_token_expiration resolved)\<close> assms Inr by (simp add: refresh_def Let_def) blast
      then show thesis using True tr' given_up by auto
    next
      case False
      then have "res = Inr (ra_token resolved, ra_token_expiration resolved)"
        using \<open>stale E (ra_token_expiration resolved)\<close> assms Inr by (simp add: refresh_def Let_def)
      then show thesis using False tr' \<open>stale E (ra_token_expiration resolved)\<close> expired by simp
    qed
  qed
qed

lemma unat_succ: "unat (c :: u32) + 1 < 2 ^ 32 \<Longrightarrow> unat (c + 1) = unat c + 1"
  by (simp add: unat_plus_simple [THEN iffD1] unat_word_ariths)

lemma stale_prefix_bound:
  assumes "refresh_run Es tr = mid @ post" and "only_stale mid" and "unat (tr_consecutive_expired tr) + length Es < 2 ^ 32"
  shows "handed_out mid \<le> MAX_EXPIRED_REFRESHES - unat (tr_consecutive_expired tr)"
  using assms
proof (induction Es arbitrary: tr mid)
  case Nil
  then show ?case by (simp add: handed_out_def)
next
  case (Cons E Es)
  obtain res tr' where step: "refresh E tr = (res, tr')" by force
  show ?case
  proof (cases mid)
    case Nil
    then show ?thesis by (simp add: handed_out_def)
  next
    case (Cons x mid')
    have x: "x = (E, res)" "refresh_run Es tr' = mid' @ post" using Cons.prems(1) step Cons by auto
    have "only_stale mid'" using Cons.prems(2) Cons by (simp add: only_stale_def)
    note IH = Cons.IH [OF x(2) this]
    have succ: "unat (tr_consecutive_expired tr + 1) = unat (tr_consecutive_expired tr) + 1"
      using Cons.prems(3) by (intro unat_succ) simp
    from step show ?thesis
    proof (cases rule: refresh_cases)
      case failed
      then show ?thesis using IH Cons.prems(3) Cons x by (simp add: handed_out_def)
    next
      case fresh
      then show ?thesis using Cons.prems(2) Cons x by (simp add: only_stale_def)
    next
      case given_up
      then show ?thesis using IH Cons.prems(3) Cons x succ by (simp add: handed_out_def)
    next
      case expired
      then show ?thesis using IH Cons.prems(3) Cons x succ by (simp add: handed_out_def)
    qed
  qed
qed

lemma refresh_run_split:
  assumes "refresh_run Es tr = pre @ rest" and "unat (tr_consecutive_expired tr) + length Es < 2 ^ 32"
  shows "\<exists>Es' tr'. refresh_run Es' tr' = rest \<and> unat (tr_consecutive_expired tr') + length Es' < 2 ^ 32"
  using assms
proof (induction pre arbitrary: Es tr)
  case Nil
  then show ?case by auto
next
  case (Cons x pre)
  obtain E Es1 where Es: "Es = E # Es1" using Cons.prems(1) by (cases Es) auto
  obtain res tr1 where step: "refresh E tr = (res, tr1)" by force
  have run: "refresh_run Es1 tr1 = pre @ rest" using Cons.prems(1) Es step by simp
  have succ: "unat (tr_consecutive_expired tr + 1) = unat (tr_consecutive_expired tr) + 1"
    using Cons.prems(2) Es by (intro unat_succ) simp
  have "unat (tr_consecutive_expired tr1) \<le> unat (tr_consecutive_expired tr) + 1"
    using step succ by (cases rule: refresh_cases) simp_all
  then have "unat (tr_consecutive_expired tr1) + length Es1 < 2 ^ 32" using Cons.prems(2) Es by simp
  then show ?case using Cons.IH [OF run] by blast
qed

text \<open>C23: a new refresher hands out at most three expired tokens between two usable ones, whatever the forge and the clocks do, in any
  history shorter than the range of its 32-bit counter.\<close>

theorem refresh_gives_up:
  assumes "refresh_run Es (forge_refresher_for_remote raw sc remote) = pre @ mid @ post" and "only_stale mid" and "length Es < 2 ^ 32"
  shows "handed_out mid \<le> MAX_EXPIRED_REFRESHES"
proof -
  have "unat (tr_consecutive_expired (forge_refresher_for_remote raw sc remote)) + length Es < 2 ^ 32"
    using assms(3) by (simp add: forge_refresher_for_remote_def)
  then obtain Es' tr' where "refresh_run Es' tr' = mid @ post" "unat (tr_consecutive_expired tr') + length Es' < 2 ^ 32"
    using refresh_run_split [OF assms(1)] by blast
  then show ?thesis using stale_prefix_bound [OF _ assms(2)] by (meson diff_le_self le_trans)
qed

section \<open>Examples\<close>

definition ex_raw :: raw_config where
  "ex_raw = \<lparr>rc_server_url = None, rc_token = None, rc_token_expiration = None, rc_cache_dir = [], rc_git_dir = None,
     rc_local_mode = False, rc_local_store = None, rc_local_shared = False, rc_ssh_command = None\<rparr>"

text \<open>A forge that refuses anonymous readers, and hands out tokens that end at second 5.\<close>

definition ex_forge :: "nat \<Rightarrow> forge_env" where
  "ex_forge now = \<lparr>fo_remotes = ex_remote_env, fo_now = now, fo_client = None,
     fo_send = (\<lambda>req. Inr (case req of Post _ None \<Rightarrow> (401, []) | _ \<Rightarrow> (200, []))),
     fo_text = (\<lambda>_. []), fo_lossy = (\<lambda>_. ''password=p''), fo_auth_json = (\<lambda>_. Inr (''s'', [(''Authorization'', ''Bearer b'')])),
     fo_ssh_json = (\<lambda>_. Inr (''s'', ''Bearer b'', [])), fo_token_json = (\<lambda>_. Inr (''t'', 5, None)), fo_join = None,
     fo_ssh = (\<lambda>_ _. Inr (True, [], [])), fo_spawn_git = None, fo_git_stdin = None, fo_credential = (\<lambda>_ _. Inr (True, [], [])),
     fo_debug = (\<lambda>s. s), fo_debug_args = concat\<rparr>"

definition ex_web :: remote_url where
  "ex_web = ex_remote\<lparr>ru_scheme := Https, ru_user := None\<rparr>"

lemma ex_resolve:
  "resolve_for_remote (ex_forge now) ex_raw ScopeRead (Some ex_web) [] =
    (Inr \<lparr>ra_server_url = ''s'', ra_token = ''t'', ra_token_expiration = 5\<rparr>,
     [Sent (Post ''https://h/o/r.git/info/bale/authenticate?op=download'' None),
      AskedCredential None (''protocol=https'' @ [CHR 0x0A] @ ''host=h'' @ [CHR 0x0A, CHR 0x0A]),
      Sent (Post ''https://h/o/r.git/info/bale/authenticate?op=download'' (Some (''git'', ''p''))),
      Sent (Get ''s/api/models/o/r/bale-read-token/main'' ''Bearer b'')])"
  by code_simp


lemma ex_refresh:
  assumes "n < 3"
  shows "refresh (ex_forge now) (forge_refresher_for_remote ex_raw ScopeRead (Some ex_web)\<lparr>tr_consecutive_expired := of_nat n\<rparr>) =
    (Inr (''t'', 5), forge_refresher_for_remote ex_raw ScopeRead (Some ex_web)\<lparr>tr_consecutive_expired := of_nat (n + 1)\<rparr>)"
proof -
  have "n = 0 \<or> n = 1 \<or> n = 2" using assms by arith
  then have "unat (of_nat (n + 1) :: u32) = n + 1" by auto
  moreover have "stale (ex_forge now) 5" by (simp add: stale_def saturating_add_def REFRESH_BUFFER_SEC_def u64_max_def)
  ultimately show ?thesis
    using assms by (simp add: refresh_def forge_refresher_for_remote_def ex_resolve Let_def MAX_EXPIRED_REFRESHES_def add.commute)
qed

theorem refresh_gives_up_witness:
  "handed_out [(ex_forge 9, Inr (''t'', 5)), (ex_forge 10, Inr (''t'', 5)), (ex_forge 11, Inr (''t'', 5))] \<le> MAX_EXPIRED_REFRESHES"
proof -
  let ?tr = "forge_refresher_for_remote ex_raw ScopeRead (Some ex_web)"
  have "?tr = ?tr\<lparr>tr_consecutive_expired := of_nat 0\<rparr>" by (simp add: forge_refresher_for_remote_def)
  then have "refresh_run [ex_forge 9, ex_forge 10, ex_forge 11] ?tr = [] @ [(ex_forge 9, Inr (''t'', 5)), (ex_forge 10, Inr (''t'', 5)), (ex_forge 11, Inr (''t'', 5))] @ []"
    using ex_refresh [of 0] ex_refresh [of 1] ex_refresh [of 2] by simp
  moreover have "only_stale [(ex_forge 9, Inr (''t'', 5)), (ex_forge 10, Inr (''t'', 5)), (ex_forge 11, Inr (''t'', 5))]"
    by (simp add: only_stale_def stale_def saturating_add_def REFRESH_BUFFER_SEC_def u64_max_def ex_forge_def)
  ultimately show ?thesis by (rule refresh_gives_up) simp
qed

text \<open>The user part of an SSH remote is not checked, and reaches the command line as it is: a remote whose user starts with a dash is
  taken for an option by \<open>ssh\<close>, here one that names a program to run.\<close>

lemma dashed_user_becomes_ssh_option:
  "\<exists>r. parse_remote (fo_remotes (ex_forge 0)) ''-oProxyCommand=x@h:o/r'' = Inr r \<and>
    RanSsh ''ssh'' [''-o'', ''BatchMode=yes'', ''-o'', ''StrictHostKeyChecking=accept-new'', ''-oProxyCommand=x@h'', ''git-bale-authenticate o/r download'']
      \<in> set (snd (resolve_for_remote (ex_forge 0) ex_raw ScopeRead (Some r) []))"
proof (rule exI, rule conjI)
  let ?r = "\<lparr>ru_scheme = Ssh, ru_user = Some ''-oProxyCommand=x'', ru_host = ''h'', ru_port = None, ru_repo_path = ''o/r''\<rparr>"
  show "parse_remote (fo_remotes (ex_forge 0)) ''-oProxyCommand=x@h:o/r'' = Inr ?r" by code_simp
  show "RanSsh ''ssh'' [''-o'', ''BatchMode=yes'', ''-o'', ''StrictHostKeyChecking=accept-new'', ''-oProxyCommand=x@h'', ''git-bale-authenticate o/r download'']
      \<in> set (snd (resolve_for_remote (ex_forge 0) ex_raw ScopeRead (Some ?r) []))" by code_simp
qed

end
