(* ===== verification/Push_Pending.thy ===== *)
theory Push_Pending
  imports Resolver Gc
begin

text \<open>
  \<open>git-bale push-pending\<close>, \<open>git-bale/src/push_pending.rs\<close>: before Git pushes, every staged file and every file the pushed commits point to
  is brought to the server of the remote. The sessions of \<open>xet-data\<close>, the repository as \<open>gix\<close> shows it, the HTTP client and the operating
  system are parameters. An upload session is the list of contents that were cleaned through it, in order; they reach the server when it
  is finalized. Progress output and its counters are left out.
\<close>

section \<open>Environment\<close>

record push_args =
  pa_remote_name :: "string option"
  pa_remote_url :: "string option"

text \<open>\<open>pp_from_hex\<close>: object ids by their text. \<open>pp_staging_download\<close>, \<open>pp_remote_download\<close>: a download from staging and from a server.
  \<open>pp_clean\<close>: cleaning a content in a session that holds others. \<open>pp_probe\<close>: the status of a request with an authorization header.
  \<open>pp_interfere\<close>: what other processes do to the files while the command runs.\<close>

record push_env =
  pp_json :: json_lib
  pp_cwd :: "string + path"
  pp_config :: "string + raw_config"
  pp_debug :: "string \<Rightarrow> string"
  pp_io_text :: "io_error \<Rightarrow> string"
  pp_list_before :: "io_error option"
  pp_readable :: "path \<Rightarrow> bool"
  pp_stdin :: "string + string"
  pp_from_hex :: "string \<Rightarrow> oid option"
  pp_repo :: "git_repo option"
  pp_runtime :: "string option"
  pp_bridge_auth :: "string option"
  pp_forge :: forge_env
  pp_online_config :: "string option"
  pp_bridge_upload :: "string option"
  pp_upload_new :: "string option"
  pp_local_config :: "string option"
  pp_local_session :: "string option"
  pp_tmp_new :: "string \<Rightarrow> string option"
  pp_tmp_reopen :: "string \<Rightarrow> string option"
  pp_staging_download :: "path \<Rightarrow> xet_file_info \<Rightarrow> nat \<Rightarrow> fs \<Rightarrow> download"
  pp_read_config :: "resolved_auth \<Rightarrow> string option"
  pp_read_session :: "resolved_auth \<Rightarrow> string option"
  pp_remote_download :: "resolved_auth \<Rightarrow> xet_file_info \<Rightarrow> nat \<Rightarrow> download"
  pp_clean :: "bytes list \<Rightarrow> bytes \<Rightarrow> string + xet_file_info"
  pp_finalize :: "bytes list \<Rightarrow> string option"
  pp_probe_client :: bool
  pp_probe :: "string \<Rightarrow> string \<Rightarrow> string + nat"
  pp_cache_var :: "string option"
  pp_interfere :: "fs \<Rightarrow> fs"
  pp_lock :: "string option"
  pp_unlink :: "path \<Rightarrow> io_error option"
  pp_list_after :: "io_error option"
  pp_sweep_list :: "io_error option"
  pp_unlinked :: "path \<Rightarrow> bool"

section \<open>What the push advertises\<close>

text \<open>A sorted map from hashes to sizes.\<close>

fun bt_insert :: "string \<Rightarrow> nat \<Rightarrow> (string \<times> nat) list \<Rightarrow> (string \<times> nat) list" where
  "bt_insert k v [] = [(k, v)]"
| "bt_insert k v ((k', v') # m) =
     (if k < k' then (k, v) # (k', v') # m else if k = k' then (k, v) # m else (k', v') # bt_insert k v m)"

text \<open>\<open>str::split_whitespace\<close>.\<close>

function split_ws :: "string \<Rightarrow> string \<Rightarrow> string list" where
  "split_ws cur s =
     (if s = [] then (if cur = [] then [] else [cur])
      else if ws_len s = 0 then split_ws (cur @ [hd s]) (tl s)
      else (if cur = [] then [] else [cur]) @ split_ws [] (drop (ws_len s) s))"
  by pat_completeness auto
termination
  by (relation "measure (\<lambda>(cur, s). length s)") auto

declare split_ws.simps [simp del]

definition parse_oid :: "push_env \<Rightarrow> string \<Rightarrow> oid option" where
  "parse_oid E s =
     (case pp_from_hex E s of
        None \<Rightarrow> None
      | Some i \<Rightarrow> if list_all (\<lambda>b. b = 0) i then None else Some i)"

definition ref_update :: "push_env \<Rightarrow> string \<Rightarrow> (oid \<times> oid option) option" where
  "ref_update E line =
     (let parts = split_ws [] line
      in if length parts < 4 then None
         else case parse_oid E (parts ! 1) of
                None \<Rightarrow> None
              | Some local \<Rightarrow> Some (local, parse_oid E (parts ! 3)))"

definition read_ref_updates_from_stdin :: "push_env \<Rightarrow> string + (oid \<times> oid option) list" where
  "read_ref_updates_from_stdin E =
     rbind (with_context ''reading pre-push ref updates from stdin'' (pp_stdin E)) (\<lambda>buf.
       Inr (List.map_filter (ref_update E) (lines_of buf)))"

text \<open>A small blob that parses as a pointer with a size.\<close>

definition pointer_entry :: "json_lib \<Rightarrow> git_repo \<Rightarrow> oid \<Rightarrow> (string \<times> nat) option" where
  "pointer_entry J repo oid =
     (case gr_header repo oid of
        None \<Rightarrow> None
      | Some (kind, sz) \<Rightarrow>
          if kind \<noteq> Blob \<or> sz = 0 \<or> sz > POINTER_MAX_BYTES then None
          else (case gr_data repo oid of
                  None \<Rightarrow> None
                | Some data \<Rightarrow>
                    (case parse_pointer J data of
                       Inl _ \<Rightarrow> None
                     | Inr info \<Rightarrow> (case xfi_file_size info of None \<Rightarrow> None | Some n \<Rightarrow> Some (xfi_hash info, n)))))"

definition push_consider_blob :: "json_lib \<Rightarrow> git_repo \<Rightarrow> oid \<Rightarrow> (string \<times> nat) list \<Rightarrow> (string \<times> nat) list" where
  "push_consider_blob J repo oid out = (case pointer_entry J repo oid of Some (h, n) \<Rightarrow> bt_insert h n out | None \<Rightarrow> out)"

definition push_collect_changed :: "json_lib \<Rightarrow> git_repo \<Rightarrow> oid \<Rightarrow> oid \<Rightarrow> (string \<times> nat) list \<Rightarrow> (string \<times> nat) list" where
  "push_collect_changed J repo parent_tree commit_tree out =
     fold (\<lambda>(is_blob, oid) out. if is_blob then push_consider_blob J repo oid out else out) (gr_diff repo parent_tree commit_tree) out"

definition collect_commit :: "json_lib \<Rightarrow> git_repo \<Rightarrow> oid \<Rightarrow> (string \<times> nat) list \<Rightarrow> (string \<times> nat) list" where
  "collect_commit J repo c out =
     (case gr_tree repo c of
        None \<Rightarrow> out
      | Some commit_tree \<Rightarrow> push_collect_changed J repo (parent_tree_of repo c) commit_tree out)"

definition collect_delta :: "json_lib \<Rightarrow> git_repo \<Rightarrow> oid list \<Rightarrow> oid list \<Rightarrow> (string \<times> nat) list \<Rightarrow> bool \<times> (string \<times> nat) list" where
  "collect_delta J repo tips hidden out =
     (case gr_walk repo tips hidden of
        None \<Rightarrow> (False, out)
      | Some walk \<Rightarrow> (True, fold (collect_commit J repo) walk out))"

definition push_tips :: "git_repo \<Rightarrow> (oid \<times> oid option) list \<Rightarrow> oid list" where
  "push_tips repo updates = filter (is_commit repo) (map fst updates)"

definition push_hidden :: "(oid \<times> oid option) list \<Rightarrow> oid list" where
  "push_hidden updates = List.map_filter snd updates"

definition reachable_pointers :: "push_env \<Rightarrow> (oid \<times> oid option) list \<Rightarrow> (string \<times> nat) list" where
  "reachable_pointers E updates =
     (case pp_repo E of
        None \<Rightarrow> []
      | Some repo \<Rightarrow>
          let tips = push_tips repo updates; hidden = push_hidden updates
          in if tips = [] then []
             else case collect_delta (pp_json E) repo tips hidden [] of
                    (ok, out) \<Rightarrow> if \<not> ok \<and> hidden \<noteq> [] then snd (collect_delta (pp_json E) repo tips [] []) else out)"

section \<open>Uploading\<close>

record source_sessions =
  ss_remotes :: "(string \<times> remote_url) list"
  ss_built :: "resolved_auth option list"
  ss_dead :: "bool list"

definition new_sources :: "(string \<times> remote_url) list \<Rightarrow> source_sessions" where
  "new_sources remotes = \<lparr>ss_remotes = remotes, ss_built = replicate (length remotes) None, ss_dead = replicate (length remotes) False\<rparr>"

record upload_state =
  us_cleaned :: "bytes list"
  us_sources :: source_sessions

type_synonym 'a upload = "(upload_state, string, 'a) step"

definition re_translate_one :: "push_env \<Rightarrow> (xet_file_info \<Rightarrow> nat \<Rightarrow> download) \<Rightarrow> string \<Rightarrow> nat \<Rightarrow> string \<Rightarrow> unit upload" where
  "re_translate_one E download file_hex file_size source s =
     (case pp_tmp_new E file_hex of
        Some e \<Rightarrow> (Inl (''creating temp file for re-translation: '' @ e), s)
      | None \<Rightarrow>
          (case pp_tmp_reopen E file_hex of
             Some e \<Rightarrow> (Inl (''reopening temp file for download write: '' @ e), s)
           | None \<Rightarrow>
               (case download \<lparr>xfi_hash = file_hex, xfi_file_size = Some file_size\<rparr> file_size of
                  (Inl e, _) \<Rightarrow> (Inl (source @ '' reconstruct of '' @ file_hex @ '' failed: '' @ e), s)
                | (Inr _, content) \<Rightarrow>
                    (case pp_clean E (us_cleaned s) content of
                       Inl e \<Rightarrow> (Inl (''re-cleaning '' @ file_hex @ '' through online session: '' @ e), s)
                     | Inr info \<Rightarrow>
                         (if xfi_hash info \<noteq> file_hex
                          then Inl (''re-translation produced file_hash '' @ xfi_hash info @ '' but expected '' @ file_hex @ [CHR '' '', CHR 0xE2, CHR 0x80, CHR 0x94] @
                                 '' aborting push to keep the server'' @ [CHR 0x27] @ ''s view consistent with Git'' @ [CHR 0x27] @ ''s'')
                          else Inr (),
                          s\<lparr>us_cleaned := us_cleaned s @ [content]\<rparr>)))))"

definition build_read_session :: "push_env \<Rightarrow> raw_config \<Rightarrow> remote_url \<Rightarrow> string + resolved_auth" where
  "build_read_session E raw remote =
     rbind (fst (resolve_for_remote (pp_forge E) raw ScopeRead (Some remote) [])) (\<lambda>auth.
       case pp_read_config E auth of
         Some e \<Rightarrow> Inl (''building read TranslatorConfig for re-sourcing: '' @ e)
       | None \<Rightarrow> (case pp_read_session E auth of Some e \<Rightarrow> Inl e | None \<Rightarrow> Inr auth))"

definition source_session :: "push_env \<Rightarrow> raw_config \<Rightarrow> nat \<Rightarrow> source_sessions \<Rightarrow> resolved_auth option \<times> source_sessions" where
  "source_session E raw i ss =
     (if ss_dead ss ! i then (None, ss)
      else case ss_built ss ! i of
             Some a \<Rightarrow> (Some a, ss)
           | None \<Rightarrow>
               (case build_read_session E raw (snd (ss_remotes ss ! i)) of
                  Inr a \<Rightarrow> (Some a, ss\<lparr>ss_built := (ss_built ss)[i := Some a]\<rparr>)
                | Inl _ \<Rightarrow> (None, ss\<lparr>ss_dead := (ss_dead ss)[i := True]\<rparr>)))"

fun from_any_loop :: "push_env \<Rightarrow> raw_config \<Rightarrow> string \<Rightarrow> nat \<Rightarrow> nat list \<Rightarrow> unit upload" where
  "from_any_loop E raw file_hex file_size [] s =
     (Inl (''no configured remote can reconstruct already-committed bale file '' @ file_hex @ ''; its bytes are on no reachable server. '' @
           ''Push it to the remote that originally received it first.''), s)"
| "from_any_loop E raw file_hex file_size (i # is) s =
     (case source_session E raw i (us_sources s) of
        (None, ss) \<Rightarrow> from_any_loop E raw file_hex file_size is (s\<lparr>us_sources := ss\<rparr>)
      | (Some auth, ss) \<Rightarrow>
          (case re_translate_one E (pp_remote_download E auth) file_hex file_size
                  (''remote '' @ [CHR 0x27] @ fst (ss_remotes ss ! i) @ [CHR 0x27]) (s\<lparr>us_sources := ss\<rparr>) of
             (Inr _, s') \<Rightarrow> (Inr (), s')
           | (Inl _, s') \<Rightarrow> from_any_loop E raw file_hex file_size is s'))"

definition re_translate_from_any :: "push_env \<Rightarrow> raw_config \<Rightarrow> string \<Rightarrow> nat \<Rightarrow> unit upload" where
  "re_translate_from_any E raw file_hex file_size s =
     from_any_loop E raw file_hex file_size [0..<length (ss_remotes (us_sources s))] s"

definition file_registered_on_target :: "push_env \<Rightarrow> string \<Rightarrow> string \<Rightarrow> string \<Rightarrow> bool" where
  "file_registered_on_target E server_url token file_hex \<longleftrightarrow>
     (case pp_probe E (server_url @ ''/v1/reconstructions/'' @ file_hex) (''Bearer '' @ token) of
        Inr status \<Rightarrow> is_success status
      | Inl _ \<Rightarrow> False)"

fun upload_staged :: "push_env \<Rightarrow> path \<Rightarrow> fs \<Rightarrow> (string \<times> nat) list \<Rightarrow> unit upload" where
  "upload_staged E staging fs [] s = (Inr (), s)"
| "upload_staged E staging fs ((file_hex, file_size) # files) s =
     (case re_translate_one E (\<lambda>info n. pp_staging_download E staging info n fs) file_hex file_size ''local'' s of
        (Inl e, s') \<Rightarrow> (Inl (''re-translating staged file '' @ file_hex @ '': '' @ e), s')
      | (Inr _, s') \<Rightarrow> upload_staged E staging fs files s')"

fun upload_referenced :: "push_env \<Rightarrow> raw_config \<Rightarrow> string \<Rightarrow> string \<Rightarrow> (string \<times> nat) list \<Rightarrow> unit upload" where
  "upload_referenced E raw server token [] s = (Inr (), s)"
| "upload_referenced E raw server token ((file_hex, file_size) # files) s =
     (if pp_probe_client E \<and> file_registered_on_target E server token file_hex
      then upload_referenced E raw server token files s
      else case re_translate_from_any E raw file_hex file_size s of
             (Inl e, s') \<Rightarrow> (Inl (''ensuring already-pushed file '' @ file_hex @ '' reaches the push target: '' @ e), s')
           | (Inr _, s') \<Rightarrow> upload_referenced E raw server token files s')"

definition open_staging :: "push_env \<Rightarrow> (string \<times> nat) list \<Rightarrow> string + unit" where
  "open_staging E staged =
     (if staged = [] then Inr ()
      else case pp_local_config E of
             Some e \<Rightarrow> Inl (''building local TranslatorConfig for staging reconstruction: '' @ e)
           | None \<Rightarrow> (case pp_local_session E of Some e \<Rightarrow> Inl e | None \<Rightarrow> Inr ()))"

definition transfer ::
  "push_env \<Rightarrow> raw_config \<Rightarrow> path \<Rightarrow> fs \<Rightarrow> resolved_auth \<Rightarrow> (string \<times> remote_url) list \<Rightarrow> (string \<times> nat) list \<Rightarrow> (string \<times> nat) list \<Rightarrow> string + bytes list" where
  "transfer E raw staging fs auth remotes staged from_refs =
     (case pp_upload_new E of
        Some e \<Rightarrow> Inl e
      | None \<Rightarrow>
          rbind (open_staging E staged) (\<lambda>_.
          case sbind (upload_staged E staging fs staged) (\<lambda>_.
                 upload_referenced E raw (trim_end_matches (CHR ''/'') (ra_server_url auth)) (ra_token auth) from_refs)
                 \<lparr>us_cleaned = [], us_sources = new_sources remotes\<rparr> of
            (Inl e, _) \<Rightarrow> Inl e
          | (Inr _, s) \<Rightarrow> (case pp_finalize E (us_cleaned s) of Some e \<Rightarrow> Inl e | None \<Rightarrow> Inr (us_cleaned s))))"

definition explain_quota_exceeded :: "string \<Rightarrow> string \<Rightarrow> string" where
  "explain_quota_exceeded server_url err =
     (if contains_str ''(429'' err \<or> contains_str ''Too Many Requests'' err \<or> contains_str ''quota exceeded'' err
      then ''push to '' @ server_url @ '' was rejected: you are over your storage quota. Free up '' @
           ''space by removing large tracked files from history (or ask an administrator '' @
           ''to raise your quota), then push again.: '' @ err
      else err)"

definition explain_dedup_cache_mismatch :: "push_env \<Rightarrow> string \<Rightarrow> string \<Rightarrow> string" where
  "explain_dedup_cache_mismatch E server_url err =
     (if contains_str ''shards'' err \<and> (contains_str ''400'' err \<or> contains_str ''Bad Request'' err)
      then ''push to '' @ server_url @ '' was rejected: the server is missing content this '' @
           ''push depends on. This almost always means your local cache is incompatible '' @
           ''with the server. Either clear the cache to continue or set a new cache directory. '' @
           ''Active cache directory: '' @ (case pp_cache_var E of Some d \<Rightarrow> d | None \<Rightarrow> ''~/.cache/bale/xet'') @
           ''. Set env var '' @ [CHR 0x22] @ ''$BALE_XET_CACHE'' @ [CHR 0x22] @ '' to override.: '' @ err
      else err)"

section \<open>The command\<close>

fun sized_staged :: "(string \<times> nat option) list \<Rightarrow> (string \<times> nat) list \<Rightarrow> string + (string \<times> nat) list" where
  "sized_staged [] m = Inr m"
| "sized_staged ((hex, n) # files) m =
     (case n of
        None \<Rightarrow> Inl (''staged marker for '' @ hex @ '' has no size '' @ [CHR 0xE2, CHR 0x80, CHR 0x94] @ '' was it written by an older client? Run `git add` again to re-stage with a size.'')
      | Some k \<Rightarrow> sized_staged files (bt_insert hex k m))"

definition staged_files :: "push_env \<Rightarrow> path \<Rightarrow> fs \<Rightarrow> string + (string \<times> nat) list" where
  "staged_files E git_dir fs =
     (case list_staged_files (pp_list_before E) (pp_readable E) git_dir fs of
        Inl e \<Rightarrow> Inl (''listing staged files in '' @ join_text ''/'' (staging_root git_dir) @ '': '' @ pp_io_text E e)
      | Inr files \<Rightarrow> sized_staged files [])"

definition referenced_files :: "push_env \<Rightarrow> push_args \<Rightarrow> (string \<times> nat) list \<Rightarrow> string + (string \<times> nat) list" where
  "referenced_files E args staged =
     (if pa_remote_name args = None then Inr []
      else rbind (read_ref_updates_from_stdin E) (\<lambda>updates.
             Inr (filter (\<lambda>(h, _). h \<notin> fst ` set staged) (reachable_pointers E updates))))"

definition target_remote :: "push_env \<Rightarrow> push_args \<Rightarrow> string + remote_url option" where
  "target_remote E args =
     (case pa_remote_url args of
        None \<Rightarrow> Inr None
      | Some url \<Rightarrow>
          rbind (with_context (''parsing push remote URL '' @ pp_debug E url) (parse_remote (fo_remotes (pp_forge E)) url)) (\<lambda>r. Inr (Some r)))"

definition authorize :: "push_env \<Rightarrow> raw_config \<Rightarrow> remote_url option \<Rightarrow> string + resolved_auth" where
  "authorize E raw target =
     (case pp_runtime E of
        Some e \<Rightarrow> Inl (''starting xet runtime: '' @ e)
      | None \<Rightarrow>
          (case pp_bridge_auth E of
             Some e \<Rightarrow> Inl (''xet runtime error during Bale auth resolution: '' @ e)
           | None \<Rightarrow>
               rbind (fst (resolve_for_remote (pp_forge E) raw ScopeWrite target [])) (\<lambda>auth.
                 case pp_online_config E of
                   Some e \<Rightarrow> Inl (''building online TranslatorConfig for push-pending: '' @ e)
                 | None \<Rightarrow> Inr auth)))"

definition push_upload ::
  "push_env \<Rightarrow> raw_config \<Rightarrow> path \<Rightarrow> path \<Rightarrow> remote_url option \<Rightarrow> (string \<times> nat) list \<Rightarrow> (string \<times> nat) list \<Rightarrow> fs \<Rightarrow> string + bytes list" where
  "push_upload E raw cwd git_dir target staged from_refs fs =
     rbind (authorize E raw target) (\<lambda>auth.
       let remotes = (if from_refs = [] then [] else parse_all_remotes (fo_remotes (pp_forge E)) (Some cwd))
       in case pp_bridge_upload E of
            Some e \<Rightarrow> Inl (''xet runtime error during push-pending: '' @ e)
          | None \<Rightarrow>
              rmap_err (\<lambda>e. explain_dedup_cache_mismatch E (ra_server_url auth) (explain_quota_exceeded (ra_server_url auth) e))
                (transfer E raw (staging_root git_dir) fs auth remotes staged from_refs))"

text \<open>Draining, under the lock of the store: the markers of the uploaded files, and all objects once no marker is left.\<close>

definition drain_markers :: "push_env \<Rightarrow> path \<Rightarrow> string list \<Rightarrow> fs \<Rightarrow> fs" where
  "drain_markers E git_dir hexes fs =
     fold (\<lambda>h fs. snd (remove_marker (pp_unlink E (file_marker_path git_dir h)) git_dir h fs)) hexes fs"

definition drain :: "push_env \<Rightarrow> path \<Rightarrow> (string \<times> nat) list \<Rightarrow> fs \<Rightarrow> fs" where
  "drain E git_dir staged fs =
     (if staged = [] \<or> pp_lock E \<noteq> None then fs
      else
        let fs1 = drain_markers E git_dir (map fst staged) fs;
            remaining = (case list_staged_files (pp_list_after E) (pp_readable E) git_dir fs1 of Inr l \<Rightarrow> length l | Inl _ \<Rightarrow> 0)
        in if remaining = 0
           then snd (remove_all_staged_objects (pp_sweep_list E) (pp_unlinked E) (staging_root git_dir) fs1)
           else fs1)"

text \<open>What there is to do, if anything: the directory, the configuration, the repository, the remote, the staged and the referenced files.\<close>

definition push_plan :: "push_env \<Rightarrow> push_args \<Rightarrow> fs \<Rightarrow>
    string + (path \<times> raw_config \<times> path \<times> remote_url option \<times> (string \<times> nat) list \<times> (string \<times> nat) list) option" where
  "push_plan E args fs =
     rbind (pp_cwd E) (\<lambda>cwd.
     rbind (pp_config E) (\<lambda>raw.
     if rc_local_mode raw then Inr None
     else
       rbind (ok_or ''not inside a git repository'' (rc_git_dir raw)) (\<lambda>git_dir.
       rbind (target_remote E args) (\<lambda>target.
       rbind (staged_files E git_dir fs) (\<lambda>staged.
       rbind (referenced_files E args staged) (\<lambda>from_refs.
       if staged = [] \<and> from_refs = [] then Inr None
       else Inr (Some (cwd, raw, git_dir, target, staged, from_refs))))))))"

text \<open>The result, the files afterwards, and what was delivered to the server.\<close>

definition push_run :: "push_env \<Rightarrow> push_args \<Rightarrow> fs \<Rightarrow> (string + unit) \<times> fs \<times> bytes list" where
  "push_run E args fs =
     (case push_plan E args fs of
        Inl e \<Rightarrow> (Inl e, pp_interfere E fs, [])
      | Inr None \<Rightarrow> (Inr (), pp_interfere E fs, [])
      | Inr (Some (cwd, raw, git_dir, target, staged, from_refs)) \<Rightarrow>
          (case push_upload E raw cwd git_dir target staged from_refs fs of
             Inl e \<Rightarrow> (Inl e, pp_interfere E fs, [])
           | Inr delivered \<Rightarrow> (Inr (), drain E git_dir staged (pp_interfere E fs), delivered)))"

end
