(* ===== verification/Push_Safe.thy ===== *)
theory Push_Safe
  imports Push_Pending
begin

text \<open>
  What a successful push guarantees, \<open>git-bale/src/push_pending.rs\<close>: everything staged and everything the pushed commits introduce is on the
  server before Git sends the commits; what was staged meanwhile survives the clean-up; and a failing push removes nothing.
\<close>

section \<open>What is advertised\<close>

lemma fst_bt_insert [simp]: "fst ` set (bt_insert k v m) = insert k (fst ` set m)"
  by (induction k v m rule: bt_insert.induct) (simp_all add: insert_commute)

lemma sized_staged_keys: "sized_staged files m = Inr m' \<Longrightarrow> fst ` set m' = fst ` set files \<union> fst ` set m"
  by (induction files m rule: sized_staged.induct) (auto split: option.splits)

text \<open>The hashes the pointers among some blobs name, and the blobs a commit adds or changes.\<close>

definition pointed_files :: "json_lib \<Rightarrow> git_repo \<Rightarrow> oid set \<Rightarrow> string set" where
  "pointed_files J repo oids = {h. \<exists>oid \<in> oids. \<exists>n. pointer_entry J repo oid = Some (h, n)}"

definition introduced :: "git_repo \<Rightarrow> oid \<Rightarrow> oid set" where
  "introduced repo c = {oid. \<exists>t. gr_tree repo c = Some t \<and> (True, oid) \<in> set (gr_diff repo (parent_tree_of repo c) t)}"

lemma pointed_files_insert: "pointed_files J repo (insert oid B) = pointed_files J repo {oid} \<union> pointed_files J repo B"
  by (auto simp: pointed_files_def)

lemma consider_keys: "fst ` set (push_consider_blob J repo oid out) = fst ` set out \<union> pointed_files J repo {oid}"
  by (auto simp: push_consider_blob_def pointed_files_def split: option.splits)

lemma collect_changed_keys:
  "fst ` set (fold (\<lambda>(is_blob, oid) out. if is_blob then push_consider_blob J repo oid out else out) es out) =
    fst ` set out \<union> pointed_files J repo {oid. (True, oid) \<in> set es}"
proof (induction es arbitrary: out)
  case Nil
  then show ?case by (simp add: pointed_files_def)
next
  case (Cons e es)
  obtain b oid where e: "e = (b, oid)" by force
  have "{i. (True, i) \<in> set (e # es)} = (if b then insert oid {i. (True, i) \<in> set es} else {i. (True, i) \<in> set es})" using e by auto
  then show ?case
    using Cons.IH e pointed_files_insert [of J repo oid "{i. (True, i) \<in> set es}"] by (simp add: consider_keys Un_assoc)
qed

lemma collect_commit_keys: "fst ` set (collect_commit J repo c out) = fst ` set out \<union> pointed_files J repo (introduced repo c)"
  by (auto simp: collect_commit_def push_collect_changed_def collect_changed_keys introduced_def pointed_files_def split: option.splits)

lemma collect_commits_keys:
  "fst ` set (fold (collect_commit J repo) cs out) = fst ` set out \<union> (\<Union>c \<in> set cs. pointed_files J repo (introduced repo c))"
  by (induction cs arbitrary: out) (auto simp: collect_commit_keys)

text \<open>The commits that count as pushed: reachable from the pushed commits and not from what the remote has, or all reachable ones if
  the second walk is impossible.\<close>

definition pushed_commits :: "git_repo \<Rightarrow> (oid \<times> oid option) list \<Rightarrow> oid set" where
  "pushed_commits repo updates =
     (let tips = push_tips repo updates; hidden = push_hidden updates
      in if tips = [] then {}
         else case gr_walk repo tips hidden of
                Some walk \<Rightarrow> set walk
              | None \<Rightarrow> (case gr_walk repo tips [] of Some walk \<Rightarrow> set walk | None \<Rightarrow> {}))"

definition advertised :: "push_env \<Rightarrow> (oid \<times> oid option) list \<Rightarrow> string set" where
  "advertised E updates =
     (case pp_repo E of
        None \<Rightarrow> {}
      | Some repo \<Rightarrow> (\<Union>c \<in> pushed_commits repo updates. pointed_files (pp_json E) repo (introduced repo c)))"

lemma reachable_pointers_keys: "fst ` set (reachable_pointers E updates) = advertised E updates"
proof (cases "pp_repo E")
  case None
  then show ?thesis by (simp add: reachable_pointers_def advertised_def)
next
  case (Some repo)
  show ?thesis
    using Some
    by (cases "gr_walk repo (push_tips repo updates) (push_hidden updates)"; cases "gr_walk repo (push_tips repo updates) []"; cases "push_hidden updates = []")
       (simp_all add: reachable_pointers_def advertised_def pushed_commits_def Let_def collect_delta_def collect_commits_keys)
qed

section \<open>What is delivered\<close>

text \<open>Some content was cleaned through the session, at its place in it, under the hash.\<close>

definition delivered_as :: "push_env \<Rightarrow> bytes list \<Rightarrow> string \<Rightarrow> bool" where
  "delivered_as E contents h \<longleftrightarrow>
     (\<exists>pre c post info. contents = pre @ c # post \<and> pp_clean E pre c = Inr info \<and> xfi_hash info = h)"

definition extends :: "upload_state \<Rightarrow> upload_state \<Rightarrow> bool" where
  "extends s s' \<longleftrightarrow> (\<exists>more. us_cleaned s' = us_cleaned s @ more)"

lemma extends_refl [simp]: "extends s s" "extends s (s\<lparr>us_sources := ss\<rparr>)"
  by (simp_all add: extends_def)

lemma extends_trans: "extends s s1 \<Longrightarrow> extends s1 s2 \<Longrightarrow> extends s s2"
  by (auto simp: extends_def)

lemma delivered_mono: "delivered_as E (us_cleaned s) h \<Longrightarrow> extends s s' \<Longrightarrow> delivered_as E (us_cleaned s') h"
  unfolding delivered_as_def extends_def by (metis append.assoc append_Cons)

lemma re_translate_one_delivers:
  assumes "re_translate_one E download h n source s = (res, s')"
  shows "extends s s' \<and> (res = Inr () \<longrightarrow> delivered_as E (us_cleaned s') h)"
proof (cases "s' = s")
  case True
  then have "res \<noteq> Inr ()" using assms
    by (auto simp: re_translate_one_def split: option.splits sum.splits prod.splits if_splits dest: arg_cong [of _ _ us_cleaned])
  then show ?thesis using True by simp
next
  case False
  then obtain content info where c: "pp_clean E (us_cleaned s) content = Inr info" "s' = s\<lparr>us_cleaned := us_cleaned s @ [content]\<rparr>"
      "res = Inr () \<longrightarrow> xfi_hash info = h"
    using assms by (auto simp: re_translate_one_def split: option.splits sum.splits prod.splits if_splits)
  then show ?thesis unfolding extends_def delivered_as_def by auto
qed

lemma from_any_delivers:
  "from_any_loop E raw h n is s = (res, s') \<Longrightarrow> extends s s' \<and> (res = Inr () \<longrightarrow> delivered_as E (us_cleaned s') h)"
proof (induction E raw h n "is" s rule: from_any_loop.induct)
  case (1 E raw h n s)
  then show ?case by auto
next
  case (2 E raw h n i "is" s)
  obtain auth ss where ss: "source_session E raw i (us_sources s) = (auth, ss)" by force
  show ?case
  proof (cases auth)
    case None
    then show ?thesis using 2 ss by (auto simp: extends_def)
  next
    case (Some a)
    let ?one = "re_translate_one E (pp_remote_download E a) h n (''remote '' @ [CHR 0x27] @ fst (ss_remotes ss ! i) @ [CHR 0x27]) (s\<lparr>us_sources := ss\<rparr>)"
    obtain res1 s1 where one: "?one = (res1, s1)" by force
    have d: "extends s s1" "res1 = Inr () \<longrightarrow> delivered_as E (us_cleaned s1) h"
      using re_translate_one_delivers [OF one] by (auto simp: extends_def)
    show ?thesis
    proof (cases res1)
      case (Inl e)
      then have "from_any_loop E raw h n is s1 = (res, s')" using 2(3) ss Some one by simp
      then show ?thesis using 2(2) [OF ss [symmetric] Some one [symmetric] Inl] d extends_trans by blast
    next
      case (Inr u)
      then show ?thesis using 2(3) ss Some one d by auto
    qed
  qed
qed

lemma upload_staged_delivers:
  "upload_staged E staging fs files s = (Inr (), s') \<Longrightarrow> extends s s' \<and> (\<forall>h \<in> fst ` set files. delivered_as E (us_cleaned s') h)"
proof (induction E staging fs files s rule: upload_staged.induct)
  case (1 E staging fs s)
  then show ?case by simp
next
  case (2 E staging fs h n files s)
  obtain res1 s1 where one: "re_translate_one E (\<lambda>info n. pp_staging_download E staging info n fs) h n ''local'' s = (res1, s1)" by force
  show ?case
  proof (cases res1)
    case (Inl e)
    then show ?thesis using 2(2) one by simp
  next
    case (Inr u)
    have d: "extends s s1" "delivered_as E (us_cleaned s1) h" using re_translate_one_delivers [OF one] Inr by auto
    have "upload_staged E staging fs files s1 = (Inr (), s')" using 2(2) one Inr by simp
    then have "extends s1 s'" "\<forall>h \<in> fst ` set files. delivered_as E (us_cleaned s') h" using 2(1) [OF one [symmetric] Inr] by auto
    then show ?thesis using d delivered_mono extends_trans by auto
  qed
qed

lemma upload_referenced_delivers:
  "upload_referenced E raw server token files s = (Inr (), s') \<Longrightarrow>
    extends s s' \<and> (\<forall>h \<in> fst ` set files. delivered_as E (us_cleaned s') h \<or> file_registered_on_target E server token h)"
proof (induction E raw server token files s rule: upload_referenced.induct)
  case (1 E raw server token s)
  then show ?case by simp
next
  case (2 E raw server token h n files s)
  show ?case
  proof (cases "pp_probe_client E \<and> file_registered_on_target E server token h")
    case True
    then show ?thesis using 2 by auto
  next
    case False
    obtain res1 s1 where one: "re_translate_from_any E raw h n s = (res1, s1)" by force
    show ?thesis
    proof (cases res1)
      case (Inl e)
      then show ?thesis using 2(3) False one by simp
    next
      case (Inr u)
      have d: "extends s s1" "delivered_as E (us_cleaned s1) h"
        using from_any_delivers [OF one [unfolded re_translate_from_any_def]] Inr by auto
      have "upload_referenced E raw server token files s1 = (Inr (), s')" using 2(3) False one Inr by simp
      note rest = 2(2) [OF False one [symmetric] Inr this]
      then show ?thesis using d delivered_mono extends_trans by fastforce
    qed
  qed
qed

lemma transfer_delivers:
  assumes "transfer E raw staging fs auth remotes staged from_refs = Inr delivered"
  shows "(\<forall>h \<in> fst ` set staged. delivered_as E delivered h) \<and>
    (\<forall>h \<in> fst ` set from_refs. delivered_as E delivered h \<or>
       file_registered_on_target E (trim_end_matches (CHR ''/'') (ra_server_url auth)) (ra_token auth) h)"
proof -
  let ?server = "trim_end_matches (CHR ''/'') (ra_server_url auth)"
  obtain s where s: "sbind (upload_staged E staging fs staged) (\<lambda>_. upload_referenced E raw ?server (ra_token auth) from_refs)
      \<lparr>us_cleaned = [], us_sources = new_sources remotes\<rparr> = (Inr (), s)" "delivered = us_cleaned s"
    using assms by (auto simp: transfer_def rbind_eq_Inr split: option.splits sum.splits prod.splits)
  obtain s1 where s1: "upload_staged E staging fs staged \<lparr>us_cleaned = [], us_sources = new_sources remotes\<rparr> = (Inr (), s1)"
      "upload_referenced E raw ?server (ra_token auth) from_refs s1 = (Inr (), s)"
    using s(1) by (elim sbind_InrE) auto
  show ?thesis
    using upload_staged_delivers [OF s1(1)] upload_referenced_delivers [OF s1(2)] delivered_mono s(2) by auto
qed

section \<open>The command\<close>

lemma push_planE:
  assumes "push_plan E args fs = Inr plan" and "pp_config E = Inr raw" and "\<not> rc_local_mode raw" and "rc_git_dir raw = Some gd"
  obtains cwd target staged from_refs where "target_remote E args = Inr target" "staged_files E gd fs = Inr staged"
    "referenced_files E args staged = Inr from_refs"
    "plan = (if staged = [] \<and> from_refs = [] then None else Some (cwd, raw, gd, target, staged, from_refs))"
  using assms by (auto simp: push_plan_def rbind_eq_Inr ok_or_def split: if_splits)

lemma push_upload_delivers:
  assumes "push_upload E raw cwd gd target staged from_refs fs = Inr delivered"
  shows "(\<forall>h \<in> fst ` set staged. delivered_as E delivered h) \<and>
    (\<exists>auth. authorize E raw target = Inr auth \<and> (\<forall>h \<in> fst ` set from_refs. delivered_as E delivered h \<or>
       file_registered_on_target E (trim_end_matches (CHR ''/'') (ra_server_url auth)) (ra_token auth) h))"
proof -
  obtain auth remotes where auth: "authorize E raw target = Inr auth"
      and "transfer E raw (staging_root gd) fs auth remotes staged from_refs = Inr delivered"
    using assms by (auto simp: push_upload_def rbind_eq_Inr rmap_err_eq_Inr Let_def split: option.splits)
  from transfer_delivers [OF this(2)] auth show ?thesis by blast
qed

lemma staged_files_keys:
  assumes "staged_files E gd fs = Inr staged" and "pp_list_before E = None"
  shows "fst ` set staged = {h. is_64_lower_hex h \<and> file_is_staged gd h fs}"
proof -
  obtain l where l: "list_staged_files None (pp_readable E) gd fs = Inr l" "sized_staged l [] = Inr staged"
    using assms by (auto simp: staged_files_def split: sum.splits)
  show ?thesis using sized_staged_keys [OF l(2)] staged_names [OF l(1)] by (simp add: file_is_staged_def)
qed


lemma drain_markers_other: "p \<notin> file_marker_path gd ` set hexes \<Longrightarrow> map_of (drain_markers E gd hexes fs) p = map_of fs p"
  unfolding drain_markers_def by (induction hexes arbitrary: fs) (simp_all add: remove_marker_other)

lemma drain_changes:
  assumes changed: "map_of (drain E gd staged fs) p \<noteq> map_of fs p" and list: "pp_list_after E = None" and hex: "\<forall>h \<in> fst ` set staged. is_64_lower_hex h"
  shows "p \<in> file_marker_path gd ` fst ` set staged \<or>
    is_object (staging_root gd) p \<and> (\<forall>h. is_64_lower_hex h \<longrightarrow> \<not> file_is_staged gd h (drain E gd staged fs))"
proof (rule disjCI)
  let ?fs1 = "drain_markers E gd (map fst staged) fs"
  assume not_object: "\<not> (is_object (staging_root gd) p \<and> (\<forall>h. is_64_lower_hex h \<longrightarrow> \<not> file_is_staged gd h (drain E gd staged fs)))"
  have run: "staged \<noteq> []" "pp_lock E = None"
    using changed by (cases "staged = []"; cases "pp_lock E"; simp add: drain_def)+
  obtain l where l: "list_staged_files None (pp_readable E) gd ?fs1 = Inr l" by (simp add: list_staged_files_def)
  have "map_of (drain E gd staged fs) p = map_of ?fs1 p"
  proof (cases "l = []")
    case False
    then show ?thesis using run l list by (simp add: drain_def)
  next
    case True
    then have d: "drain E gd staged fs = filter (\<lambda>e. \<not> (is_object (staging_root gd) (fst e) \<and> pp_unlinked E (fst e))) ?fs1"
      using run l list by (simp add: drain_def remove_all_staged_objects_def)
    have "\<not> file_is_staged gd h (drain E gd staged fs)" if "is_64_lower_hex h" for h
      using staged_names [OF l] True that marker_not_object map_of_filter [where P = "\<lambda>q. \<not> (is_object (staging_root gd) q \<and> pp_unlinked E q)" and m = ?fs1]
      unfolding d by (auto simp: file_is_staged_def)
    then have "\<not> is_object (staging_root gd) p" using not_object by blast
    then show ?thesis
      unfolding d using map_of_filter [where P = "\<lambda>q. \<not> (is_object (staging_root gd) q \<and> pp_unlinked E q)" and m = ?fs1 and k = p] by simp
  qed
  then show "p \<in> file_marker_path gd ` fst ` set staged"
    using changed drain_markers_other [of p gd "map fst staged" E fs] by force
qed


text \<open>C40: pushing only annotated tags delivers nothing: the tag objects are no commits, and the commits behind them are not looked at. A
  successful run with nothing staged then leaves the server without the files that those commits point to.\<close>

theorem tag_push_delivers_nothing:
  assumes "pp_cwd E = Inr cwd" and "pp_config E = Inr raw" and "rc_git_dir raw = Some gd" and "target_remote E args = Inr target"
    and "staged_files E gd fs = Inr []" and "read_ref_updates_from_stdin E = Inr updates" and "pp_repo E = Some repo"
    and "\<forall>(local, remote) \<in> set updates. \<not> is_commit repo local"
  shows "push_run E args fs = (Inr (), pp_interfere E fs, [])"
proof -
  have "push_tips repo updates = []" using assms(8) by (auto simp: push_tips_def filter_empty_conv)
  then have "referenced_files E args [] = Inr []" using assms(6,7) by (simp add: referenced_files_def reachable_pointers_def)
  then have "push_plan E args fs = Inr None" using assms(1-5) by (simp add: push_plan_def ok_or_def)
  then show ?thesis by (simp add: push_run_def)
qed

end
