(* ===== verification/Push_Example.thy ===== *)
theory Push_Example
  imports Push_Safe
begin

text \<open>
  A push with one staged file and one file that a pushed commit points to and that another remote holds; and the push of a tag.
\<close>

definition ex_push_json :: json_lib where
  "ex_push_json = \<lparr>js_to_string_pretty = (\<lambda>_. Inl ''unused''),
     js_from_str = (\<lambda>_. Inr \<lparr>xfi_hash = ex_hex (CHR ''a''), xfi_file_size = Some 3\<rparr>)\<rparr>"

text \<open>Object 1 is of the given kind, object 2 a pointer that the commit adds.\<close>

definition ex_push_repo :: "object_kind \<Rightarrow> git_repo" where
  "ex_push_repo kind = \<lparr>gr_git_dir = [''g''], gr_index = None, gr_head = None, gr_refs = None,
     gr_header = (\<lambda>i. if i = [1] then Some (kind, 9) else Some (Blob, 6)), gr_data = (\<lambda>_. Some (as_bytes POINTER_SENTINEL)),
     gr_walk = (\<lambda>tips _. Some tips), gr_tree = (\<lambda>_. Some [3]), gr_parents = (\<lambda>_. []), gr_empty_tree = [],
     gr_diff = (\<lambda>_ _. [(True, [2])])\<rparr>"

definition ex_push_forge :: forge_env where
  "ex_push_forge = \<lparr>fo_remotes = \<lparr>rm_cwd = None,
       rm_discover = (\<lambda>_. Inr \<lparr>gm_names = [''origin''], gm_find = (\<lambda>_. Inr (Some ''git@h:o/r''))\<rparr>),
       rm_debug = (\<lambda>s. s), rm_debug_path = concat, rm_port_error = (\<lambda>_. [])\<rparr>, fo_now = 0, fo_client = None,
     fo_send = (\<lambda>_. Inl ''offline''), fo_text = (\<lambda>_. []), fo_lossy = (\<lambda>_. []), fo_auth_json = (\<lambda>_. Inl []),
     fo_ssh_json = (\<lambda>_. Inl []), fo_token_json = (\<lambda>_. Inl []), fo_join = None,
     fo_ssh = (\<lambda>_ _. Inl []), fo_spawn_git = None, fo_git_stdin = None, fo_credential = (\<lambda>_ _. Inl []),
     fo_debug = (\<lambda>s. s), fo_debug_args = concat\<rparr>"

definition ex_push_raw :: raw_config where
  "ex_push_raw = (default_config [''g''])\<lparr>rc_server_url := Some ''s'', rc_token := Some ''t''\<rparr>"

definition ex_push :: "object_kind \<Rightarrow> push_env" where
  "ex_push kind = \<lparr>pp_json = ex_push_json, pp_cwd = Inr [''w''], pp_config = Inr ex_push_raw, pp_debug = (\<lambda>s. s), pp_io_text = (\<lambda>_. []),
     pp_list_before = None, pp_readable = (\<lambda>_. True), pp_stdin = Inr ''l 1 r 0'',
     pp_from_hex = (\<lambda>s. if s = ''1'' then Some [1] else Some [0]), pp_repo = Some (ex_push_repo kind), pp_runtime = None, pp_bridge_auth = None,
     pp_forge = ex_push_forge, pp_online_config = None, pp_bridge_upload = None, pp_upload_new = None, pp_local_config = None,
     pp_local_session = None, pp_tmp_new = (\<lambda>_. None), pp_tmp_reopen = (\<lambda>_. None), pp_staging_download = (\<lambda>_ _ _ _. (Inr (), [8])),
     pp_read_config = (\<lambda>_. None), pp_read_session = (\<lambda>_. None), pp_remote_download = (\<lambda>_ _ _. (Inr (), [7])),
     pp_clean = (\<lambda>_ c. Inr \<lparr>xfi_hash = ex_hex (if c = [7] then CHR ''a'' else CHR ''b''), xfi_file_size = None\<rparr>),
     pp_finalize = (\<lambda>_. None), pp_probe_client = False, pp_probe = (\<lambda>_ _. Inl []), pp_cache_var = None,
     pp_interfere = id, pp_lock = None, pp_unlink = (\<lambda>_. None), pp_list_after = None, pp_sweep_list = None, pp_unlinked = (\<lambda>_. True)\<rparr>"

definition ex_push_args :: push_args where
  "ex_push_args = \<lparr>pa_remote_name = Some ''origin'', pa_remote_url = None\<rparr>"

definition ex_push_fs :: fs where
  "ex_push_fs = [(file_marker_path [''g''] (ex_hex (CHR ''b'')), \<lparr>fn_body = as_bytes ''5'', fn_mtime = 0\<rparr>), (ex_object, \<lparr>fn_body = [9], fn_mtime = 0\<rparr>)]"

lemma ex_push_staged: "staged_files (ex_push kind) [''g''] ex_push_fs = Inr [(ex_hex (CHR ''b''), 5)]"
proof -
  have "read_dir (file_index_dir [''g'']) ex_push_fs = [(ex_hex (CHR ''b''), \<lparr>fn_body = as_bytes ''5'', fn_mtime = 0\<rparr>)]"
    by (simp add: read_dir_def ex_push_fs_def file_marker_path_def file_index_dir_def staging_root_def ex_object_def)
  moreover have "marker_size True (as_bytes ''5'') = Some 5"
  proof -
    have "from_utf8 (as_bytes ''5'') = Some ''5''" "trim ''5'' = ''5''" by code_simp+
    moreover have "parse_u64 ''5'' = Some 5" by (simp add: parse_u64_def from_str_radix_def digit_val_def u64_max_def)
    ultimately show ?thesis by (simp add: marker_size_def)
  qed
  ultimately show ?thesis using ex_hex by (simp add: staged_files_def list_staged_files_def ex_push_def)
qed

lemma ex_push_updates: "read_ref_updates_from_stdin (ex_push kind) = Inr [([1], None)]"
proof -
  have "lines_of ''l 1 r 0'' = [''l 1 r 0'']" "split_ws [] ''l 1 r 0'' = [''l'', ''1'', ''r'', ''0'']" by code_simp+
  then show ?thesis
    by (simp add: read_ref_updates_from_stdin_def ex_push_def with_context_def map_filter_simps ref_update_def parse_oid_def)
qed

lemma ex_push_entry: "pointer_entry ex_push_json (ex_push_repo kind) [2] = Some (ex_hex (CHR ''a''), 3)"
proof -
  have "contains_str POINTER_SENTINEL POINTER_SENTINEL" by (auto simp: contains_str_iff intro: exI [of _ "[]"])
  moreover have "utf8_valid (as_bytes POINTER_SENTINEL)"
    by (rule utf8_valid_ascii) (simp add: POINTER_SENTINEL_def as_bytes_def)
  ultimately have "parse_pointer ex_push_json (as_bytes POINTER_SENTINEL) = Inr \<lparr>xfi_hash = ex_hex (CHR ''a''), xfi_file_size = Some 3\<rparr>"
    by (simp add: parse_pointer_def from_utf8_def ex_push_json_def POINTER_MAX_BYTES_def POINTER_SENTINEL_def)
  then show ?thesis by (simp add: pointer_entry_def ex_push_repo_def POINTER_MAX_BYTES_def)
qed

lemma ex_push_reachable: "reachable_pointers (ex_push Commit) [([1], None)] = [(ex_hex (CHR ''a''), 3)]"
proof -
  have "push_tips (ex_push_repo Commit) [([1], None)] = [[1]]" "push_hidden [([1], None)] = []"
    by (simp_all add: push_tips_def push_hidden_def is_commit_def ex_push_repo_def map_filter_simps)
  moreover have "collect_commit ex_push_json (ex_push_repo Commit) [1] [] = [(ex_hex (CHR ''a''), 3)]"
  proof -
    have "gr_tree (ex_push_repo Commit) c = Some [3]" "gr_diff (ex_push_repo Commit) s t = [(True, [2])]" for c s t
      by (simp_all add: ex_push_repo_def)
    then show ?thesis by (simp add: collect_commit_def push_collect_changed_def push_consider_blob_def ex_push_entry)
  qed
  moreover have "gr_walk (ex_push_repo Commit) tips h = Some tips" for tips h by (simp add: ex_push_repo_def)
  moreover have "pp_repo (ex_push Commit) = Some (ex_push_repo Commit)" "pp_json (ex_push Commit) = ex_push_json" by (simp_all add: ex_push_def)
  ultimately show ?thesis by (simp add: reachable_pointers_def collect_delta_def Let_def)
qed

lemma ex_push_plan:
  "push_plan (ex_push Commit) ex_push_args ex_push_fs =
    Inr (Some ([''w''], ex_push_raw, [''g''], None, [(ex_hex (CHR ''b''), 5)], [(ex_hex (CHR ''a''), 3)]))"
proof -
  have "referenced_files (ex_push Commit) ex_push_args [(ex_hex (CHR ''b''), 5)] = Inr [(ex_hex (CHR ''a''), 3)]"
    using ex_hex(3) by (simp add: referenced_files_def ex_push_args_def ex_push_updates ex_push_reachable)
  moreover have "pp_cwd (ex_push Commit) = Inr [''w'']" "pp_config (ex_push Commit) = Inr ex_push_raw"
    "rc_git_dir ex_push_raw = Some [''g'']" "\<not> rc_local_mode ex_push_raw"
    by (simp_all add: ex_push_def ex_push_raw_def default_config_def)
  ultimately show ?thesis
    by (simp add: push_plan_def ok_or_def target_remote_def ex_push_args_def ex_push_staged)
qed

lemma ex_push_resolve: "resolve_for_remote ex_push_forge ex_push_raw sc ov log =
    (Inr \<lparr>ra_server_url = ''s'', ra_token = ''t'', ra_token_expiration = far_future_epoch ex_push_forge\<rparr>, log)"
  by (simp add: resolve_for_remote_def ex_push_raw_def default_config_def static_auth_def)

lemma ex_push_upload:
  "push_upload (ex_push Commit) ex_push_raw [''w''] [''g''] None [(ex_hex (CHR ''b''), 5)] [(ex_hex (CHR ''a''), 3)] ex_push_fs = Inr [[8], [7]]"
proof -
  have "parse_all_remotes (fo_remotes ex_push_forge) (Some [''w'']) =
      [(''origin'', \<lparr>ru_scheme = Ssh, ru_user = Some ''git'', ru_host = ''h'', ru_port = None, ru_repo_path = ''o/r''\<rparr>)]"
    by code_simp
  then show ?thesis
    by (simp add: push_upload_def authorize_def ex_push_resolve transfer_def open_staging_def re_translate_one_def re_translate_from_any_def
        new_sources_def source_session_def build_read_session_def sbind_def rmap_err_def ex_push_def)
qed

lemma ex_push_run:
  "push_run (ex_push Commit) ex_push_args ex_push_fs = (Inr (), drain (ex_push Commit) [''g''] [(ex_hex (CHR ''b''), 5)] ex_push_fs, [[8], [7]])"
proof -
  have "pp_interfere (ex_push Commit) fs = fs" for fs by (simp add: ex_push_def)
  then show ?thesis by (simp add: push_run_def ex_push_plan ex_push_upload)
qed

lemma ex_push_fields:
  "pp_config (ex_push k) = Inr ex_push_raw" "\<not> rc_local_mode ex_push_raw" "rc_git_dir ex_push_raw = Some [''g'']"
  "pp_list_before (ex_push k) = None" "pp_list_after (ex_push k) = None" "pp_interfere (ex_push k) fs = fs" "pp_cwd (ex_push k) = Inr [''w'']"
  "pp_repo (ex_push k) = Some (ex_push_repo k)" "pp_lock (ex_push k) = None"
  by (simp_all add: ex_push_def ex_push_raw_def default_config_def)



theorem tag_push_delivers_nothing_witness:
  "push_run (ex_push Tag) ex_push_args [] = (Inr (), [], []) \<and>
   ex_hex (CHR ''a'') \<in> pointed_files ex_push_json (ex_push_repo Tag) (introduced (ex_push_repo Tag) [4])"
proof
  have "staged_files (ex_push Tag) [''g''] [] = Inr []" by (simp add: staged_files_def list_staged_files_def ex_push_def read_dir_def)
  moreover have "target_remote (ex_push Tag) ex_push_args = Inr None" by (simp add: target_remote_def ex_push_args_def)
  moreover have "\<forall>(local, remote) \<in> set [([1], None)]. \<not> is_commit (ex_push_repo Tag) local" by (simp add: is_commit_def ex_push_repo_def)
  ultimately show "push_run (ex_push Tag) ex_push_args [] = (Inr (), [], [])"
    using tag_push_delivers_nothing [OF ex_push_fields(7,1,3) _ _ ex_push_updates ex_push_fields(8)] by (simp add: ex_push_fields)
  show "ex_hex (CHR ''a'') \<in> pointed_files ex_push_json (ex_push_repo Tag) (introduced (ex_push_repo Tag) [4])"
    using ex_push_entry [of Tag] by (auto simp: pointed_files_def introduced_def ex_push_repo_def)
qed

end
