(* ===== verification/Pg_Concurrent.thy ===== *)
theory Pg_Concurrent
  imports Meta_Postgres
begin

text \<open>
  File registrations that run at the same time on several connections of the PostgreSQL store, at the isolation level the code
  uses, \<open>READ COMMITTED\<close>. Every statement of \<open>write_file_in_tx\<close> is one step. A statement sees the committed tables and the
  rows of its own transaction; an \<open>INSERT\<close> waits while another transaction holds an uncommitted row with the same key, and
  \<open>pg_advisory_xact_lock\<close> while another holds the key; locks and rows are held until commit or rollback. A transaction may be
  rolled back at any moment (an error, a lost connection, the deadlock detector).
\<close>

section \<open>Transactions\<close>

text \<open>The statement a transaction is about to run for the first of its remaining files.\<close>

datatype pg_phase = At_File | At_Lock | At_Probe | At_Terms "(nat \<times> file_term) list list"

text \<open>\<open>px_done\<close> and \<open>px_todo\<close> are the files the loop of \<open>register_files\<close> has behind and before it, \<open>px_files\<close> and \<open>px_terms\<close>
  the rows the transaction has written.\<close>

record pg_tx =
  px_now :: int
  px_repo :: repo_ref
  px_done :: "(hash32 \<times> file_term list) list"
  px_todo :: "(hash32 \<times> file_term list) list"
  px_phase :: pg_phase
  px_files :: "file_rec list"
  px_terms :: "term_rec list"
  px_locks :: "int list"

definition pg_begin :: "int \<Rightarrow> repo_ref \<Rightarrow> (hash32 \<times> file_term list) list \<Rightarrow> pg_tx" where
  "pg_begin now repo files = \<lparr>px_now = now, px_repo = repo, px_done = [], px_todo = files, px_phase = At_File,
     px_files = [], px_terms = [], px_locks = []\<rparr>"

definition pg_view :: "meta_db \<Rightarrow> pg_tx \<Rightarrow> meta_db" where
  "pg_view db x = db\<lparr>db_files := fold (insert_replace file_key) (px_files x) (db_files db),
     db_terms := db_terms db @ px_terms x\<rparr>"

text \<open>What the other open transactions hold.\<close>

definition holds_file :: "bytes \<times> string \<Rightarrow> pg_tx list \<Rightarrow> bool" where
  "holds_file k xs \<longleftrightarrow> (\<exists>x \<in> set xs. \<exists>r \<in> set (px_files x). file_key r = k)"

definition holds_term :: "bytes \<times> int \<Rightarrow> pg_tx list \<Rightarrow> bool" where
  "holds_term k xs \<longleftrightarrow> (\<exists>x \<in> set xs. \<exists>r \<in> set (px_terms x). term_key r = k)"

definition holds_lock :: "int \<Rightarrow> pg_tx list \<Rightarrow> bool" where
  "holds_lock k xs \<longleftrightarrow> (\<exists>x \<in> set xs. k \<in> set (px_locks x))"

definition pg_next_file :: "pg_tx \<Rightarrow> pg_tx" where
  "pg_next_file x = x\<lparr>px_done := px_done x @ take 1 (px_todo x), px_todo := tl (px_todo x), px_phase := At_File\<rparr>"

text \<open>One statement: the transaction after it, or \<^const>\<open>None\<close> while it has to wait. \<open>others\<close> are the other open transactions.\<close>

definition pg_stmt :: "meta_db \<Rightarrow> pg_tx list \<Rightarrow> pg_tx \<Rightarrow> pg_tx option" where
  "pg_stmt db others x =
     (case px_todo x of
        [] \<Rightarrow> None
      | (h, ts) # _ \<Rightarrow>
          (case px_phase x of
             At_File \<Rightarrow>
               let r = mk_file_rec (px_now x) h (px_repo x) ts
               in if holds_file (file_key r) others then None
                  else Some (x\<lparr>px_files := px_files x @ [r], px_phase := At_Lock\<rparr>)
           | At_Lock \<Rightarrow>
               if holds_lock (pg_lock_key h) others then None
               else Some (x\<lparr>px_locks := pg_lock_key h # px_locks x, px_phase := At_Probe\<rparr>)
           | At_Probe \<Rightarrow>
               if terms_exist h (pg_view db x) then Some (pg_next_file x)
               else Some (x\<lparr>px_phase := At_Terms (batches CHUNK_INSERT_BATCH (enumerate 0 ts))\<rparr>)
           | At_Terms [] \<Rightarrow> Some (pg_next_file x)
           | At_Terms (b # bs) \<Rightarrow>
               let rows = map (mk_term_rec h) b; tbl = db_terms (pg_view db x)
               in if \<exists>r \<in> set rows. holds_term (term_key r) others then None
                  else Some (x\<lparr>px_terms := px_terms x @ drop (length tbl) (insert_ignore_all term_key rows tbl),
                              px_phase := At_Terms bs\<rparr>)))"

section \<open>The database with its open transactions\<close>

text \<open>\<open>ps_log\<close> records the transactions that committed, in the order of their commits.\<close>

record pg_sys =
  ps_db :: meta_db
  ps_open :: "pg_tx list"
  ps_log :: "(int \<times> repo_ref \<times> (hash32 \<times> file_term list) list) list"

inductive pg_step :: "pg_sys \<Rightarrow> pg_sys \<Rightarrow> bool" where
  pg_open_tx: "files \<noteq> [] \<Longrightarrow> wf_files files \<Longrightarrow> pg_step s (s\<lparr>ps_open := ps_open s @ [pg_begin now repo files]\<rparr>)"
| pg_run: "ps_open s = xs @ x # ys \<Longrightarrow> pg_stmt (ps_db s) (xs @ ys) x = Some x' \<Longrightarrow>
     pg_step s (s\<lparr>ps_open := xs @ x' # ys\<rparr>)"
| pg_commit: "ps_open s = xs @ x # ys \<Longrightarrow> px_todo x = [] \<Longrightarrow>
     pg_step s \<lparr>ps_db = pg_view (ps_db s) x, ps_open = xs @ ys,
                ps_log = ps_log s @ [(px_now x, px_repo x, px_done x)]\<rparr>"
| pg_rollback: "ps_open s = xs @ x # ys \<Longrightarrow> pg_step s (s\<lparr>ps_open := xs @ ys\<rparr>)"

definition pg_sys_start :: "meta_db \<Rightarrow> pg_sys" where
  "pg_sys_start db = \<lparr>ps_db = db, ps_open = [], ps_log = []\<rparr>"

text \<open>The specification: the committed registrations one after the other.\<close>

definition serial_runs :: "(int \<times> repo_ref \<times> (hash32 \<times> file_term list) list) list \<Rightarrow> meta_db \<Rightarrow> meta_db" where
  "serial_runs log db = fold (\<lambda>(now, repo, files). fold (apply_file now repo) files) log db"

section \<open>The rows a registration adds\<close>

text \<open>The term rows that registering the files adds, given for which hashes there are terms.\<close>

fun added_terms :: "(hash32 \<Rightarrow> bool) \<Rightarrow> (hash32 \<times> file_term list) list \<Rightarrow> term_rec list" where
  "added_terms E [] = []"
| "added_terms E ((h, ts) # fs) =
     (if E h then added_terms E fs
      else map (mk_term_rec h) (enumerate 0 ts) @ added_terms (E(h := ts \<noteq> [])) fs)"

lemma wf_files_simps [simp]:
  "wf_files []" "wf_files (fs @ gs) \<longleftrightarrow> wf_files fs \<and> wf_files gs"
  by (auto simp: wf_files_def)

lemma terms_exist_apply_file:
  assumes "meta_inv db" and "wf_files [(h, ts)]"
  shows "terms_exist k (apply_file now repo (h, ts) db) \<longleftrightarrow>
    (if terms_exist h db then terms_exist k db else (k = h \<and> ts \<noteq> []) \<or> terms_exist k db)"
proof -
  have "distinct (map term_key (db_terms db))" "length ts \<le> nat i64_max"
    using assms by (auto simp: meta_inv_def wf_files_def)
  from db_terms_apply_file [OF this, of now repo h] show ?thesis
    by (cases ts) (auto simp: terms_exist_def)
qed

lemma db_terms_fold_apply:
  assumes "meta_inv db" and "wf_files fs"
  shows "db_terms (fold (apply_file now repo) fs db) = db_terms db @ added_terms (\<lambda>h. terms_exist h db) fs"
  using assms
proof (induction fs arbitrary: db)
  case (Cons f fs)
  obtain h ts where f: "f = (h, ts)" by (cases f)
  have wf: "list_all wf_term ts" "length ts \<le> nat i64_max" "wf_files fs" "wf_files [(h, ts)]"
    using Cons.prems(2) by (auto simp: wf_files_def f)
  let ?db = "apply_file now repo (h, ts) db"
  have "meta_inv ?db" using apply_file_inv Cons.prems(1) wf by blast
  note IH = Cons.IH [OF this wf(3)]
  have E: "(\<lambda>k. terms_exist k ?db) =
      (if terms_exist h db then (\<lambda>k. terms_exist k db) else (\<lambda>k. terms_exist k db)(h := ts \<noteq> []))"
    using terms_exist_apply_file [OF Cons.prems(1) wf(4)] by (auto simp: fun_eq_iff)
  have "db_terms ?db = db_terms db @ (if terms_exist h db then [] else map (mk_term_rec h) (enumerate 0 ts))"
    using db_terms_apply_file [of db ts now repo h] Cons.prems(1) wf(2) by (simp add: meta_inv_def)
  with IH show ?case unfolding f E by simp
qed simp

lemma db_files_fold_apply:
  "db_files (fold (apply_file now repo) fs db) =
   fold (insert_replace file_key) (map (\<lambda>(h, ts). mk_file_rec now h repo ts) fs) (db_files db)"
  by (induction fs arbitrary: db) (auto simp: apply_file_other)

lemma fold_apply_other:
  "db_xorbs (fold (apply_file now repo) fs db) = db_xorbs db" "db_chunks (fold (apply_file now repo) fs db) = db_chunks db"
  "db_quotas (fold (apply_file now repo) fs db) = db_quotas db"
  by (induction fs arbitrary: db) (auto simp: apply_file_other)

lemma added_terms_cong:
  "(\<And>h. h \<in> fst ` set fs \<Longrightarrow> E h = E' h) \<Longrightarrow> added_terms E fs = added_terms E' fs"
proof (induction fs arbitrary: E E')
  case (Cons f fs)
  obtain h ts where f: "f = (h, ts)" by (cases f)
  have "added_terms E fs = added_terms E' fs" "added_terms (E(h := b)) fs = added_terms (E'(h := b)) fs" for b
    using Cons.prems by (intro Cons.IH; simp)+
  moreover have "E h = E' h" using Cons.prems f by simp
  ultimately show ?case by (simp add: f)
qed simp

lemma added_terms_hash: "r \<in> set (added_terms E fs) \<Longrightarrow> \<exists>h \<in> fst ` set fs. tm_file_hash r = hash_to_blob h"
proof (induction fs arbitrary: E)
  case (Cons f fs)
  then show ?case by (cases f) (fastforce split: if_splits)
qed simp

text \<open>One more file: nothing if it has terms by then, else its whole list.\<close>

lemma added_terms_snoc:
  assumes "meta_inv db" and "wf_files (fs @ [(h, ts)])"
  shows "added_terms (\<lambda>h. terms_exist h db) (fs @ [(h, ts)]) = added_terms (\<lambda>h. terms_exist h db) fs @
    (if terms_exist h (fold (apply_file now repo) fs db) then [] else map (mk_term_rec h) (enumerate 0 ts))"
proof -
  let ?base = "fold (apply_file now repo) fs db"
  have inv: "meta_inv ?base" using assms fold_apply_file_inv by simp
  have "length ts \<le> nat i64_max" using assms(2) by (simp add: wf_files_def)
  with inv have "db_terms (fold (apply_file now repo) (fs @ [(h, ts)]) db) = db_terms ?base @
      (if terms_exist h ?base then [] else map (mk_term_rec h) (enumerate 0 ts))"
    using db_terms_apply_file [of ?base ts now repo h] by (simp add: meta_inv_def)
  then show ?thesis
    using assms db_terms_fold_apply [OF assms(1), of "fs @ [(h, ts)]" now repo] db_terms_fold_apply [OF assms(1), of fs now repo]
    by simp
qed

section \<open>The invariant\<close>

text \<open>
  An open transaction has written the rows that registering its files adds to the tables as they are committed now, not only as
  they were when it looked: the locks it holds keep everybody else from committing terms for its files.
\<close>

definition tx_base :: "meta_db \<Rightarrow> pg_tx \<Rightarrow> meta_db" where
  "tx_base db x = fold (apply_file (px_now x) (px_repo x)) (px_done x) db"

definition tx_current :: "pg_tx \<Rightarrow> (hash32 \<times> file_term list) list" where
  "tx_current x = (if px_phase x = At_File then [] else take 1 (px_todo x))"

definition tx_partial :: "meta_db \<Rightarrow> pg_tx \<Rightarrow> term_rec list \<Rightarrow> bool" where
  "tx_partial db x rows \<longleftrightarrow> (case px_phase x of
     At_Terms bs \<Rightarrow> (\<exists>h ts fs pre. px_todo x = (h, ts) # fs \<and> pre @ concat bs = enumerate 0 ts \<and>
        rows = map (mk_term_rec h) pre \<and> \<not> terms_exist h (tx_base db x))
   | _ \<Rightarrow> rows = [])"

definition tx_locked :: "pg_tx \<Rightarrow> (hash32 \<times> file_term list) list" where
  "tx_locked x = px_done x @ (case px_phase x of At_File \<Rightarrow> [] | At_Lock \<Rightarrow> [] | _ \<Rightarrow> take 1 (px_todo x))"

definition tx_inv :: "meta_db \<Rightarrow> pg_tx \<Rightarrow> bool" where
  "tx_inv db x \<longleftrightarrow>
     wf_files (px_done x @ px_todo x) \<and> (px_phase x \<noteq> At_File \<longrightarrow> px_todo x \<noteq> []) \<and>
     px_files x = map (\<lambda>(h, ts). mk_file_rec (px_now x) h (px_repo x) ts) (px_done x @ tx_current x) \<and>
     (\<exists>rows. px_terms x = added_terms (\<lambda>h. terms_exist h db) (px_done x) @ rows \<and> tx_partial db x rows) \<and>
     set (px_locks x) = (\<lambda>f. pg_lock_key (fst f)) ` set (tx_locked x)"

definition sys_inv :: "meta_db \<Rightarrow> pg_sys \<Rightarrow> bool" where
  "sys_inv db0 s \<longleftrightarrow>
     meta_inv (ps_db s) \<and> serial_runs (ps_log s) db0 = ps_db s \<and> (\<forall>x \<in> set (ps_open s). tx_inv (ps_db s) x) \<and>
     sorted_wrt (\<lambda>x y. set (px_locks x) \<inter> set (px_locks y) = {}) (ps_open s)"

lemma distinct_map_prefix: "distinct (map f (xs @ ys)) \<Longrightarrow> distinct (map f xs)"
  by simp

lemma tx_inv_begin: "wf_files files \<Longrightarrow> tx_inv db (pg_begin now repo files)"
  by (simp add: tx_inv_def pg_begin_def tx_current_def tx_partial_def tx_locked_def)

lemma tx_base_terms:
  assumes "meta_inv db" and "tx_inv db x"
  shows "db_terms (tx_base db x) = db_terms db @ added_terms (\<lambda>h. terms_exist h db) (px_done x)"
    and "meta_inv (tx_base db x)"
  using assms db_terms_fold_apply fold_apply_file_inv by (simp_all add: tx_base_def tx_inv_def)

text \<open>At the probe the transaction sees exactly the terms its files so far leave.\<close>

lemma probe_sees:
  assumes "meta_inv db" and "tx_inv db x" and "px_phase x = At_Probe"
  shows "terms_exist h (pg_view db x) \<longleftrightarrow> terms_exist h (tx_base db x)"
proof -
  from assms(2,3) have "px_terms x = added_terms (\<lambda>h. terms_exist h db) (px_done x)"
    by (simp add: tx_inv_def tx_partial_def)
  then show ?thesis by (simp add: terms_exist_def pg_view_def tx_base_terms [OF assms(1,2)])
qed

text \<open>A batch of terms meets no row of the same key: all of it is inserted.\<close>

lemma batch_is_inserted:
  assumes "meta_inv db" and "tx_inv db x" and "px_phase x = At_Terms (b # bs)" and "px_todo x = (h, ts) # fs"
  shows "insert_ignore_all term_key (map (mk_term_rec h) b) (db_terms (pg_view db x)) =
    db_terms (pg_view db x) @ map (mk_term_rec h) b"
proof -
  obtain pre where pre: "px_terms x = added_terms (\<lambda>h. terms_exist h db) (px_done x) @ map (mk_term_rec h) pre"
      "pre @ b @ concat bs = enumerate 0 ts" "\<not> terms_exist h (tx_base db x)"
    using assms(2-4) by (auto simp: tx_inv_def tx_partial_def)
  note base = tx_base_terms [OF assms(1,2)]
  have "length ts \<le> nat i64_max" using assms(2,4) by (simp add: tx_inv_def wf_files_def)
  note keys = term_keys_distinct [OF this, of h]
  have "distinct (map term_key (db_terms (tx_base db x)))" using base(2) by (simp add: meta_inv_def)
  moreover have "term_key ` set (db_terms (tx_base db x)) \<inter> term_key ` set (map (mk_term_rec h) (enumerate 0 ts)) = {}"
    using pre(3) unfolding terms_exist_def term_key_def by fastforce
  ultimately have "distinct (map term_key (db_terms (tx_base db x) @ map (mk_term_rec h) (pre @ b @ concat bs)))"
    using keys unfolding pre(2) map_append distinct_append set_map by blast
  then have "distinct (map term_key ((db_terms (tx_base db x) @ map (mk_term_rec h) pre) @ map (mk_term_rec h) b))"
    by (simp only: map_append append_assoc [symmetric]) (simp only: map_append [symmetric] distinct_map_prefix)
  from insert_ignore_all_fresh [OF this] show ?thesis by (simp add: pg_view_def base(1) pre(1))
qed

lemma tx_inv_next:
  assumes "meta_inv db" and "tx_inv db x" and "px_todo x = (h, ts) # fs"
    and "px_phase x = At_Probe \<and> terms_exist h (tx_base db x) \<or> px_phase x = At_Terms []"
  shows "tx_inv db (pg_next_file x)"
proof -
  have wf: "wf_files (px_done x @ [(h, ts)])" using assms(2,3) by (simp add: tx_inv_def wf_files_def)
  have "px_terms x = added_terms (\<lambda>h. terms_exist h db) (px_done x @ [(h, ts)])"
    using assms(2-4) added_terms_snoc [OF assms(1) wf, of "px_now x" "px_repo x"]
    by (auto simp: tx_inv_def tx_partial_def tx_base_def)
  then show ?thesis
    using assms(2-4) by (auto simp: tx_inv_def pg_next_file_def tx_current_def tx_partial_def tx_locked_def)
qed

lemma tx_inv_stmt:
  assumes "meta_inv db" and "tx_inv db x" and "pg_stmt db others x = Some x'"
  shows "tx_inv db x'"
proof -
  obtain h ts fs where todo: "px_todo x = (h, ts) # fs"
    using assms(3) by (auto simp: pg_stmt_def split: list.splits)
  show ?thesis
  proof (cases "px_phase x")
    case At_File
    with assms(3) todo have
      x': "x' = x\<lparr>px_files := px_files x @ [mk_file_rec (px_now x) h (px_repo x) ts], px_phase := At_Lock\<rparr>"
      by (simp add: pg_stmt_def Let_def split: if_splits)
    show ?thesis
      using assms(2) At_File todo unfolding x' by (simp add: tx_inv_def tx_current_def tx_partial_def tx_locked_def)
  next
    case At_Lock
    with assms(3) todo have x': "x' = x\<lparr>px_locks := pg_lock_key h # px_locks x, px_phase := At_Probe\<rparr>"
      by (simp add: pg_stmt_def split: if_splits)
    show ?thesis
      using assms(2) At_Lock todo unfolding x' by (simp add: tx_inv_def tx_current_def tx_partial_def tx_locked_def)
  next
    case At_Probe
    show ?thesis
    proof (cases "terms_exist h (tx_base db x)")
      case True
      with At_Probe assms todo show ?thesis by (auto simp: pg_stmt_def probe_sees intro!: tx_inv_next)
    next
      case False
      with At_Probe assms todo have x': "x' = x\<lparr>px_phase := At_Terms (batches CHUNK_INSERT_BATCH (enumerate 0 ts))\<rparr>"
        by (simp add: pg_stmt_def probe_sees)
      show ?thesis
        using assms(2) At_Probe False todo unfolding x'
        by (simp add: tx_inv_def tx_current_def tx_partial_def tx_locked_def tx_base_def)
    qed
  next
    case (At_Terms bss)
    show ?thesis
    proof (cases bss)
      case Nil
      with At_Terms assms todo show ?thesis by (auto simp: pg_stmt_def intro!: tx_inv_next)
    next
      case (Cons b bs)
      with At_Terms have phase: "px_phase x = At_Terms (b # bs)" by simp
      from assms(3) todo phase have x': "x' = x\<lparr>px_terms := px_terms x @ map (mk_term_rec h) b, px_phase := At_Terms bs\<rparr>"
        using batch_is_inserted [OF assms(1,2) phase todo] by (simp add: pg_stmt_def Let_def split: if_splits)
      obtain pre where pre: "px_terms x = added_terms (\<lambda>h. terms_exist h db) (px_done x) @ map (mk_term_rec h) pre"
          "pre @ b @ concat bs = enumerate 0 ts" "\<not> terms_exist h (tx_base db x)"
        using assms(2) phase todo by (auto simp: tx_inv_def tx_partial_def)
      have "tx_partial db x' (map (mk_term_rec h) (pre @ b))"
        unfolding x' tx_partial_def using todo pre(2,3) by (simp add: tx_base_def) (metis append.assoc map_append)
      moreover have "px_terms x' = added_terms (\<lambda>h. terms_exist h db) (px_done x') @ map (mk_term_rec h) (pre @ b)"
        unfolding x' using pre(1) by simp
      moreover have "wf_files (px_done x' @ px_todo x')" "px_phase x' \<noteq> At_File \<longrightarrow> px_todo x' \<noteq> []"
        "px_files x' = map (\<lambda>(h, ts). mk_file_rec (px_now x') h (px_repo x') ts) (px_done x' @ tx_current x')"
        "set (px_locks x') = (\<lambda>f. pg_lock_key (fst f)) ` set (tx_locked x')"
        using assms(2) phase todo unfolding x' by (simp_all add: tx_inv_def tx_current_def tx_locked_def)
      ultimately show ?thesis unfolding tx_inv_def by blast
    qed
  qed
qed

text \<open>A commit publishes what registering the files on the committed tables gives.\<close>

lemma done_phase: "tx_inv db y \<Longrightarrow> px_todo y = [] \<Longrightarrow> px_phase y = At_File"
  by (auto simp: tx_inv_def)

lemma done_terms:
  assumes "tx_inv db y" and "px_todo y = []"
  shows "px_terms y = added_terms (\<lambda>h. terms_exist h db) (px_done y)"
  using assms done_phase [OF assms] by (simp add: tx_inv_def tx_partial_def)

lemma commit_view:
  assumes "meta_inv db" and "tx_inv db y" and "px_todo y = []"
  shows "pg_view db y = tx_base db y"
proof -
  have "px_files y = map (\<lambda>(h, ts). mk_file_rec (px_now y) h (px_repo y) ts) (px_done y)"
    using assms(2,3) by (simp add: tx_inv_def tx_current_def)
  then show ?thesis
    using tx_base_terms(1) [OF assms(1,2)] done_terms [OF assms(2,3)]
    by (intro meta_db.equality)
      (simp_all add: pg_view_def tx_base_def db_files_fold_apply fold_apply_other fold_apply_file_frames)
qed

text \<open>It adds no terms for a hash whose lock is held elsewhere.\<close>

lemma commit_keeps_locked:
  assumes "tx_inv db y" and "px_todo y = []" and "pg_lock_key h \<notin> set (px_locks y)"
  shows "terms_exist h (pg_view db y) \<longleftrightarrow> terms_exist h db" and "\<forall>r \<in> set (px_terms y). tm_file_hash r \<noteq> hash_to_blob h"
proof -
  have "pg_lock_key k \<in> set (px_locks y)" if "k \<in> fst ` set (px_done y)" for k
    using that assms(1) by (auto simp: tx_inv_def tx_locked_def)
  then show *: "\<forall>r \<in> set (px_terms y). tm_file_hash r \<noteq> hash_to_blob h"
    using assms(3) added_terms_hash unfolding done_terms [OF assms(1,2)] by fastforce
  then show "terms_exist h (pg_view db y) \<longleftrightarrow> terms_exist h db" by (auto simp: terms_exist_def pg_view_def)
qed

lemma tx_inv_commit:
  assumes "meta_inv db" and "tx_inv db y" and "px_todo y = []" and "tx_inv db x"
    and "set (px_locks x) \<inter> set (px_locks y) = {}"
  shows "tx_inv (pg_view db y) x"
proof -
  let ?db = "pg_view db y"
  have key: "pg_lock_key (fst f) \<notin> set (px_locks y)" if "f \<in> set (tx_locked x)" for f
    using that assms(4,5) by (auto simp: tx_inv_def)
  have "terms_exist h ?db = terms_exist h db" if "h \<in> fst ` set (px_done x)" for h
    using that key commit_keeps_locked(1) [OF assms(2,3)] by (auto simp: tx_locked_def)
  then have added: "added_terms (\<lambda>h. terms_exist h ?db) (px_done x) = added_terms (\<lambda>h. terms_exist h db) (px_done x)"
    by (rule added_terms_cong)
  have inv: "meta_inv ?db" using commit_view [OF assms(1-3)] tx_base_terms(2) [OF assms(1,2)] by simp
  have "wf_files (px_done x)" using assms(4) by (simp add: tx_inv_def)
  with inv have "db_terms (tx_base ?db x) = db_terms ?db @ added_terms (\<lambda>h. terms_exist h db) (px_done x)"
    using db_terms_fold_apply [of ?db "px_done x"] added by (simp add: tx_base_def)
  then have base: "terms_exist h (tx_base ?db x) \<longleftrightarrow> terms_exist h (tx_base db x)" if "pg_lock_key h \<notin> set (px_locks y)" for h
    using commit_keeps_locked(2) [OF assms(2,3) that] tx_base_terms(1) [OF assms(1,4)]
    by (auto simp: terms_exist_def pg_view_def)
  have "tx_partial ?db x rows" if "tx_partial db x rows" for rows
  proof (cases "px_phase x")
    case (At_Terms bs)
    with that obtain h ts fs pre where p: "px_todo x = (h, ts) # fs" "pre @ concat bs = enumerate 0 ts"
        "rows = map (mk_term_rec h) pre" "\<not> terms_exist h (tx_base db x)"
      by (auto simp: tx_partial_def)
    have "pg_lock_key h \<notin> set (px_locks y)" using key [of "(h, ts)"] p(1) At_Terms by (simp add: tx_locked_def)
    with base p(4) have "\<not> terms_exist h (tx_base ?db x)" by simp
    with p(1-3) At_Terms show ?thesis by (auto simp: tx_partial_def)
  qed (use that in \<open>simp_all add: tx_partial_def\<close>)
  with assms(4) added show ?thesis unfolding tx_inv_def by metis
qed

text \<open>A statement takes a lock only if nobody holds it.\<close>

lemma stmt_locks:
  assumes "pg_stmt db others x = Some x'"
  obtains "px_locks x' = px_locks x" | k where "px_locks x' = k # px_locks x" "\<not> holds_lock k others"
  using assms
  by (auto simp: pg_stmt_def pg_next_file_def Let_def split: list.splits pg_phase.splits if_splits)

lemma stmt_disjoint:
  assumes "pg_stmt db others x = Some x'" and "\<And>y. y \<in> set others \<Longrightarrow> set (px_locks x) \<inter> set (px_locks y) = {}"
    and "y \<in> set others"
  shows "set (px_locks x') \<inter> set (px_locks y) = {}"
  using assms(1)
proof (cases rule: stmt_locks)
  case 1
  then show ?thesis using assms(2,3) by simp
next
  case (2 k)
  then show ?thesis using assms(2,3) by (auto simp: holds_lock_def)
qed

lemma serial_runs_snoc: "serial_runs (log @ [(now, repo, fs)]) db = fold (apply_file now repo) fs (serial_runs log db)"
  by (simp add: serial_runs_def)

lemma pg_step_inv:
  assumes "pg_step s s'" and "sys_inv db0 s"
  shows "sys_inv db0 s'"
  using assms(1)
proof cases
  case (pg_open_tx files now repo)
  have "px_locks (pg_begin now repo files) = []" by (simp add: pg_begin_def)
  with pg_open_tx assms(2) show ?thesis by (auto simp: sys_inv_def tx_inv_begin sorted_wrt_append)
next
  case (pg_run xs x ys x')
  have disj: "set (px_locks x') \<inter> set (px_locks y) = {}" if "y \<in> set (xs @ ys)" for y
    using pg_run(3) _ that by (rule stmt_disjoint) (use assms(2) pg_run(2) in \<open>auto simp: sys_inv_def sorted_wrt_append\<close>)
  have "meta_inv (ps_db s)" "tx_inv (ps_db s) x" using assms(2) pg_run(2) by (auto simp: sys_inv_def)
  then have "tx_inv (ps_db s) x'" by (rule tx_inv_stmt [OF _ _ pg_run(3)])
  moreover have "set (px_locks y) \<inter> set (px_locks x') = {}" if "y \<in> set xs" for y
    using disj [of y] that by auto
  ultimately show ?thesis using assms(2) pg_run(1,2) disj by (simp add: sys_inv_def sorted_wrt_append)
next
  case (pg_commit xs x ys)
  have s: "meta_inv (ps_db s)" "tx_inv (ps_db s) x" "serial_runs (ps_log s) db0 = ps_db s"
    and other: "\<forall>y \<in> set (xs @ ys). tx_inv (ps_db s) y \<and> set (px_locks y) \<inter> set (px_locks x) = {}"
    using assms(2) pg_commit(2) by (auto simp: sys_inv_def sorted_wrt_append)
  have "\<forall>y \<in> set (xs @ ys). tx_inv (pg_view (ps_db s) x) y"
    using tx_inv_commit [OF s(1,2) pg_commit(3)] other by blast
  moreover have "pg_view (ps_db s) x = serial_runs (ps_log s @ [(px_now x, px_repo x, px_done x)]) db0"
    using commit_view [OF s(1,2) pg_commit(3)] s(3) by (simp add: tx_base_def serial_runs_snoc)
  moreover have "meta_inv (pg_view (ps_db s) x)"
    using commit_view [OF s(1,2) pg_commit(3)] tx_base_terms(2) [OF s(1,2)] by simp
  ultimately show ?thesis
    using assms(2) pg_commit(1,2) by (simp add: sys_inv_def sorted_wrt_append)
next
  case (pg_rollback xs x ys)
  with assms(2) show ?thesis by (simp add: sys_inv_def sorted_wrt_append)
qed

lemma sys_inv_start: "meta_inv db \<Longrightarrow> sys_inv db (pg_sys_start db)"
  by (simp add: sys_inv_def pg_sys_start_def serial_runs_def)

lemma pg_steps_inv: "pg_step\<^sup>*\<^sup>* s s' \<Longrightarrow> sys_inv db0 s \<Longrightarrow> sys_inv db0 s'"
  by (induction rule: rtranclp_induct) (auto intro: pg_step_inv)

section \<open>Serializability\<close>

text \<open>C8: However the statements of concurrent file registrations interleave, and whichever of them are rolled back, the
  committed tables are those of running the committed registrations one after the other in the order of their commits.\<close>

theorem registrations_serialize:
  assumes "meta_inv db" and "pg_step\<^sup>*\<^sup>* (pg_sys_start db) s"
  shows "ps_db s = serial_runs (ps_log s) db \<and> meta_inv (ps_db s)"
  using pg_steps_inv [OF assms(2) sys_inv_start [OF assms(1)]] by (auto simp: sys_inv_def)

section \<open>Waiting\<close>

text \<open>Every open transaction waits for another: none can run a statement or commit.\<close>

definition pg_stuck :: "pg_sys \<Rightarrow> bool" where
  "pg_stuck s \<longleftrightarrow> ps_open s \<noteq> [] \<and>
     (\<forall>xs x ys. ps_open s = xs @ x # ys \<longrightarrow> px_todo x \<noteq> [] \<and> pg_stmt (ps_db s) (xs @ ys) x = None)"

definition file_lock :: "hash32 \<times> file_term list \<Rightarrow> int" where
  "file_lock f = pg_lock_key (fst f)"

text \<open>Behind the lock a transaction never waits.\<close>

lemma behind_lock_runs:
  assumes "sys_inv db0 s" and "ps_open s = xs @ x # ys" and "px_todo x \<noteq> []" and "pg_stmt (ps_db s) (xs @ ys) x = None"
  shows "px_phase x = At_File \<or> px_phase x = At_Lock"
proof (rule ccontr)
  assume n: "\<not> ?thesis"
  obtain h ts fs where todo: "px_todo x = (h, ts) # fs" using assms(3) by (cases "px_todo x") auto
  from n todo assms(4) obtain b bs r y where p: "px_phase x = At_Terms (b # bs)" "r \<in> set (map (mk_term_rec h) b)"
      and y: "y \<in> set (xs @ ys)" "\<exists>q \<in> set (px_terms y). term_key q = term_key r"
    by (auto simp: pg_stmt_def Let_def holds_term_def split: pg_phase.splits list.splits if_splits)
  from p y(2) obtain q where q: "q \<in> set (px_terms y)" "tm_file_hash q = hash_to_blob h" by (auto simp: term_key_def)
  have inv: "tx_inv (ps_db s) x" "tx_inv (ps_db s) y" "set (px_locks x) \<inter> set (px_locks y) = {}"
    using assms(1,2) y(1) by (auto simp: sys_inv_def sorted_wrt_append)
  have x: "pg_lock_key h \<in> set (px_locks x)" using inv(1) p(1) todo by (simp add: tx_inv_def tx_locked_def)
  obtain rows where rows: "px_terms y = added_terms (\<lambda>h. terms_exist h (ps_db s)) (px_done y) @ rows"
      "tx_partial (ps_db s) y rows"
    using inv(2) by (auto simp: tx_inv_def)
  have "h \<in> fst ` set (tx_locked y)"
  proof (cases "q \<in> set rows")
    case True
    with rows(2) q(2) show ?thesis
      by (auto simp: tx_partial_def tx_locked_def split: pg_phase.splits)
  next
    case False
    with q rows(1) have "q \<in> set (added_terms (\<lambda>h. terms_exist h (ps_db s)) (px_done y))" by simp
    from added_terms_hash [OF this] q(2) show ?thesis by (auto simp: tx_locked_def)
  qed
  then have "pg_lock_key h \<in> set (px_locks y)" using inv(2) by (auto simp: tx_inv_def)
  with x inv(3) show False by blast
qed

text \<open>Who waits for the lock of a file waits for somebody who has it behind him, who waits for the row of a file for somebody who
  has it behind him or is at the same file and waits for its lock.\<close>

lemma waits_for_lock:
  assumes "sys_inv db0 s" and "pg_stuck s" and "ps_open s = xs @ x # ys" and "px_phase x = At_Lock"
  shows "\<exists>y \<in> set (ps_open s). file_lock (hd (px_todo x)) \<in> file_lock ` set (px_done y)"
proof -
  obtain h ts fs where todo: "px_todo x = (h, ts) # fs"
    using assms(2,3) by (cases "px_todo x") (auto simp: pg_stuck_def)
  have "pg_stmt (ps_db s) (xs @ ys) x = None" using assms(2,3) by (simp add: pg_stuck_def)
  with assms(4) todo obtain y where y: "y \<in> set (xs @ ys)" "pg_lock_key h \<in> set (px_locks y)"
    by (auto simp: pg_stmt_def holds_lock_def split: if_splits)
  then obtain us vs where "ps_open s = us @ y # vs" using assms(3) by (metis Un_iff in_set_conv_decomp set_append list.set_intros(2))
  then have "px_phase y = At_File \<or> px_phase y = At_Lock"
    using assms(2) by (intro behind_lock_runs [OF assms(1)]) (auto simp: pg_stuck_def)
  then have "tx_locked y = px_done y" by (auto simp: tx_locked_def)
  moreover have "tx_inv (ps_db s) y" using assms(1,3) y(1) by (auto simp: sys_inv_def)
  ultimately have "file_lock (hd (px_todo x)) \<in> file_lock ` set (px_done y)"
    using y(2) todo by (simp add: tx_inv_def file_lock_def)
  then show ?thesis using assms(3) y(1) by auto
qed

lemma waits_for_row:
  assumes "sys_inv db0 s" and "pg_stuck s" and "ps_open s = xs @ x # ys" and "px_phase x = At_File"
  shows "\<exists>y \<in> set (ps_open s). file_lock (hd (px_todo x)) \<in> file_lock ` set (px_done y) \<or>
    px_phase y = At_Lock \<and> file_lock (hd (px_todo y)) = file_lock (hd (px_todo x))"
proof -
  obtain h ts fs where todo: "px_todo x = (h, ts) # fs"
    using assms(2,3) by (cases "px_todo x") (auto simp: pg_stuck_def)
  have "pg_stmt (ps_db s) (xs @ ys) x = None" using assms(2,3) by (simp add: pg_stuck_def)
  with assms(4) todo obtain y r where y: "y \<in> set (xs @ ys)" "r \<in> set (px_files y)"
      "file_key r = file_key (mk_file_rec (px_now x) h (px_repo x) ts)"
    by (auto simp: pg_stmt_def Let_def holds_file_def split: if_splits)
  have yo: "y \<in> set (ps_open s)" using assms(3) y(1) by auto
  then obtain us vs where "ps_open s = us @ y # vs" by (meson in_set_conv_decomp)
  then have phase: "px_phase y = At_File \<or> px_phase y = At_Lock"
    using assms(2) by (intro behind_lock_runs [OF assms(1)]) (auto simp: pg_stuck_def)
  have "tx_inv (ps_db s) y" using assms(1) yo by (simp add: sys_inv_def)
  then have "px_files y = map (\<lambda>f. mk_file_rec (px_now y) (fst f) (px_repo y) (snd f)) (px_done y @ tx_current y)"
    by (simp add: tx_inv_def case_prod_beta')
  with y(2) obtain f where f: "f \<in> set (px_done y @ tx_current y)" "r = mk_file_rec (px_now y) (fst f) (px_repo y) (snd f)"
    by (metis (no_types, lifting) imageE set_map)
  with y(3) have "fst f = h" by (simp add: file_key_def mk_file_rec_def)
  then have lock: "file_lock f = file_lock (hd (px_todo x))" using todo by (simp add: file_lock_def)
  show ?thesis
  proof (cases "f \<in> set (px_done y)")
    case True
    then have "file_lock (hd (px_todo x)) \<in> file_lock ` set (px_done y)" using lock by (metis image_eqI)
    with yo show ?thesis by blast
  next
    case False
    with f(1) phase have "px_phase y = At_Lock" "f = hd (px_todo y)"
      by (cases "px_todo y"; auto simp: tx_current_def)+
    with lock yo show ?thesis by auto
  qed
qed

text \<open>C37: If every open registration lists its files in ascending order of their lock keys, they cannot all wait for each other.\<close>

theorem ordered_registrations_progress:
  assumes "meta_inv db" and "pg_step\<^sup>*\<^sup>* (pg_sys_start db) s"
    and "\<forall>x \<in> set (ps_open s). sorted_wrt (<) (map file_lock (px_done x @ px_todo x))"
  shows "\<not> pg_stuck s"
proof
  assume stuck: "pg_stuck s"
  have inv: "sys_inv db s" using pg_steps_inv [OF assms(2) sys_inv_start [OF assms(1)]] .
  let ?k = "\<lambda>x. file_lock (hd (px_todo x))"
  have "finite (?k ` set (ps_open s))" "?k ` set (ps_open s) \<noteq> {}" using stuck by (auto simp: pg_stuck_def)
  from Max_in [OF this] obtain x where xm: "x \<in> set (ps_open s)" "Max (?k ` set (ps_open s)) = ?k x" by blast
  have x: "x \<in> set (ps_open s)" "\<forall>y \<in> set (ps_open s). ?k y \<le> ?k x" using xm by (auto simp flip: xm(2))
  have behind: "?k x \<notin> file_lock ` set (px_done y)" if "y \<in> set (ps_open s)" for y
  proof
    assume "?k x \<in> file_lock ` set (px_done y)"
    moreover have "px_todo y \<noteq> []" using stuck that by (metis in_set_conv_decomp pg_stuck_def)
    ultimately have "?k x < ?k y" using assms(3) that by (cases "px_todo y") (fastforce simp: sorted_wrt_append)+
    with x(2) that show False by fastforce
  qed
  have no_lock: "px_phase y \<noteq> At_Lock" if "y \<in> set (ps_open s)" "?k y = ?k x" for y
    using waits_for_lock [OF inv stuck] behind that by (metis in_set_conv_decomp)
  obtain xs ys where op: "ps_open s = xs @ x # ys" using x(1) by (meson in_set_conv_decomp)
  then have "px_phase x = At_File"
    using behind_lock_runs [OF inv op] stuck no_lock [OF x(1)] by (auto simp: pg_stuck_def)
  from waits_for_row [OF inv stuck op this] behind no_lock show False by metis
qed

section \<open>Two registrations in opposite order\<close>

lemma insert_ignore_all_extends: "\<exists>new. insert_ignore_all key rs tbl = tbl @ new \<and> set new \<subseteq> set rs"
proof (induction rs arbitrary: tbl)
  case (Cons r rs)
  from Cons.IH obtain new where "insert_ignore_all key rs (insert_ignore key r tbl) = insert_ignore key r tbl @ new"
    "set new \<subseteq> set rs" by blast
  then show ?case by (auto simp: insert_ignore_all_def insert_ignore_def)
qed (simp add: insert_ignore_all_def)

lemma step_run:
  "pg_stmt db (xs @ ys) x = Some x' \<Longrightarrow>
   pg_step \<lparr>ps_db = db, ps_open = xs @ x # ys, ps_log = l\<rparr> \<lparr>ps_db = db, ps_open = xs @ x' # ys, ps_log = l\<rparr>"
  using pg_run [of "\<lparr>ps_db = db, ps_open = xs @ x # ys, ps_log = l\<rparr>" xs x ys x'] by simp

text \<open>Behind the probe a transaction inserts its batches, as long as nobody has terms of the file.\<close>

lemma run_terms:
  assumes "px_todo x = (h, ts) # fs" and "px_phase x = At_Terms bs"
    and "\<forall>y \<in> set (xs @ ys). \<forall>r \<in> set (px_terms y). tm_file_hash r \<noteq> hash_to_blob h"
  shows "\<exists>rows. (\<forall>r \<in> set rows. tm_file_hash r = hash_to_blob h) \<and>
    pg_step\<^sup>*\<^sup>* \<lparr>ps_db = db, ps_open = xs @ x # ys, ps_log = l\<rparr>
      \<lparr>ps_db = db, ps_open = xs @ pg_next_file (x\<lparr>px_terms := px_terms x @ rows\<rparr>) # ys, ps_log = l\<rparr>"
  using assms(1,2)
proof (induction bs arbitrary: x)
  case Nil
  then have "pg_stmt db (xs @ ys) x = Some (pg_next_file (x\<lparr>px_terms := px_terms x @ []\<rparr>))" by (simp add: pg_stmt_def)
  from step_run [OF this] show ?case by (intro exI [of _ "[]"]) auto
next
  case (Cons b bs)
  let ?tbl = "db_terms (pg_view db x)"
  obtain new where new: "insert_ignore_all term_key (map (mk_term_rec h) b) ?tbl = ?tbl @ new"
      "set new \<subseteq> set (map (mk_term_rec h) b)"
    using insert_ignore_all_extends [of term_key "map (mk_term_rec h) b" ?tbl] by (elim exE conjE)
  let ?x = "x\<lparr>px_terms := px_terms x @ new, px_phase := At_Terms bs\<rparr>"
  have "\<not> holds_term (term_key r) (xs @ ys)" if "r \<in> set (map (mk_term_rec h) b)" for r
    using that assms(3) unfolding holds_term_def term_key_def by fastforce
  then have "\<not> (\<exists>r \<in> set (map (mk_term_rec h) b). holds_term (term_key r) (xs @ ys))" by blast
  with Cons.prems new(1) have "pg_stmt db (xs @ ys) x = Some ?x" by (simp add: pg_stmt_def Let_def del: set_map)
  note first = step_run [OF this, of l]
  obtain rows where rows: "\<forall>r \<in> set rows. tm_file_hash r = hash_to_blob h"
      "pg_step\<^sup>*\<^sup>* \<lparr>ps_db = db, ps_open = xs @ ?x # ys, ps_log = l\<rparr>
        \<lparr>ps_db = db, ps_open = xs @ pg_next_file (?x\<lparr>px_terms := px_terms ?x @ rows\<rparr>) # ys, ps_log = l\<rparr>"
    using Cons.IH [of ?x] Cons.prems(1) by fastforce
  have eq: "pg_next_file (?x\<lparr>px_terms := px_terms ?x @ rows\<rparr>) = pg_next_file (x\<lparr>px_terms := px_terms x @ new @ rows\<rparr>)"
    by (simp add: pg_next_file_def)
  have "\<forall>r \<in> set (new @ rows). tm_file_hash r = hash_to_blob h" using rows(1) new(2) by auto
  with converse_rtranclp_into_rtranclp [of pg_step, OF first rows(2)] show ?case unfolding eq by blast
qed

definition after_first :: "int \<Rightarrow> repo_ref \<Rightarrow> hash32 \<times> file_term list \<Rightarrow> (hash32 \<times> file_term list) list \<Rightarrow> term_rec list \<Rightarrow> pg_tx" where
  "after_first now repo f fs rows = \<lparr>px_now = now, px_repo = repo, px_done = [f], px_todo = fs, px_phase = At_File,
     px_files = [mk_file_rec now (fst f) repo (snd f)], px_terms = rows, px_locks = [file_lock f]\<rparr>"

lemma run_first:
  assumes "\<not> holds_file (hash_to_blob h, repo_id repo) (xs @ ys)" and "\<not> holds_lock (pg_lock_key h) (xs @ ys)"
    and "\<forall>y \<in> set (xs @ ys). \<forall>r \<in> set (px_terms y). tm_file_hash r \<noteq> hash_to_blob h"
  shows "\<exists>rows. (\<forall>r \<in> set rows. tm_file_hash r = hash_to_blob h) \<and>
    pg_step\<^sup>*\<^sup>* \<lparr>ps_db = db, ps_open = xs @ pg_begin now repo ((h, ts) # fs) # ys, ps_log = l\<rparr>
      \<lparr>ps_db = db, ps_open = xs @ after_first now repo (h, ts) fs rows # ys, ps_log = l\<rparr>"
proof -
  let ?b = "pg_begin now repo ((h, ts) # fs)" and ?s = "\<lambda>x. \<lparr>ps_db = db, ps_open = xs @ x # ys, ps_log = l\<rparr>"
  let ?x = "?b\<lparr>px_files := [mk_file_rec now h repo ts], px_phase := At_Lock\<rparr>"
  let ?y = "?x\<lparr>px_locks := [pg_lock_key h], px_phase := At_Probe\<rparr>"
  have "pg_stmt db (xs @ ys) ?b = Some ?x"
    using assms(1) by (simp add: pg_stmt_def pg_begin_def Let_def file_key_def mk_file_rec_def)
  moreover have "pg_stmt db (xs @ ys) ?x = Some ?y" using assms(2) by (simp add: pg_stmt_def pg_begin_def)
  ultimately have lock: "pg_step\<^sup>*\<^sup>* (?s ?b) (?s ?y)" by (meson step_run converse_rtranclp_into_rtranclp r_into_rtranclp)
  have end_state: "pg_next_file (?y\<lparr>px_terms := rows\<rparr>) = after_first now repo (h, ts) fs rows" for rows
    by (simp add: pg_next_file_def pg_begin_def after_first_def file_lock_def)
  show ?thesis
  proof (cases "terms_exist h (pg_view db ?y)")
    case True
    then have "pg_stmt db (xs @ ys) ?y = Some (pg_next_file ?y)" by (simp add: pg_stmt_def pg_begin_def)
    moreover have "pg_next_file ?y = after_first now repo (h, ts) fs []"
      by (simp add: pg_next_file_def pg_begin_def after_first_def file_lock_def)
    ultimately have "pg_step (?s ?y) (?s (after_first now repo (h, ts) fs []))" using step_run by metis
    with lock show ?thesis by (intro exI [of _ "[]"]) (auto intro: rtranclp.rtrancl_into_rtrancl)
  next
    case False
    let ?z = "?y\<lparr>px_phase := At_Terms (batches CHUNK_INSERT_BATCH (enumerate 0 ts))\<rparr>"
    have "pg_stmt db (xs @ ys) ?y = Some ?z" using False by (simp add: pg_stmt_def pg_begin_def)
    from rtranclp.rtrancl_into_rtrancl [OF lock step_run [OF this, of l]]
    have probe: "pg_step\<^sup>*\<^sup>* (?s ?b) (?s ?z)" .
    obtain rows where rows: "\<forall>r \<in> set rows. tm_file_hash r = hash_to_blob h"
        "pg_step\<^sup>*\<^sup>* (?s ?z) (?s (pg_next_file (?z\<lparr>px_terms := px_terms ?z @ rows\<rparr>)))"
      using run_terms [of ?z h ts fs "batches CHUNK_INSERT_BATCH (enumerate 0 ts)" xs ys db l] assms(3)
      by (auto simp: pg_begin_def)
    have "pg_next_file (?z\<lparr>px_terms := px_terms ?z @ rows\<rparr>) = after_first now repo (h, ts) fs rows"
      by (simp add: pg_next_file_def pg_begin_def after_first_def file_lock_def)
    with rows rtranclp_trans [OF probe rows(2)] show ?thesis by auto
  qed
qed

text \<open>C38: Two registrations of the same two files in opposite order, for different repositories and with files of different
  lock keys, can reach a state in which each waits for the lock of the other and only a rollback of one of them helps.\<close>

theorem opposite_orders_deadlock:
  fixes repo repo' :: repo_ref
  assumes "wf_files [f, g]" and "file_lock f \<noteq> file_lock g" and "repo_id repo \<noteq> repo_id repo'"
  shows "\<exists>s. pg_step\<^sup>*\<^sup>* (pg_sys_start db) s \<and> pg_stuck s \<and>
    map (\<lambda>x. px_done x @ px_todo x) (ps_open s) = [[f, g], [g, f]]"
proof -
  obtain h ts k us where fg: "f = (h, ts)" "g = (k, us)" by (cases f; cases g)
  have keys: "pg_lock_key h \<noteq> pg_lock_key k" "h \<noteq> k" using assms(2) fg by (auto simp: file_lock_def)
  let ?s = "\<lambda>xs. \<lparr>ps_db = db, ps_open = xs, ps_log = []\<rparr>"
  have wf: "wf_files [f, g]" "wf_files [g, f]" using assms(1) by (auto simp: wf_files_def)
  have open1: "pg_step (pg_sys_start db) (?s [pg_begin 0 repo [f, g]])"
    using pg_open_tx [of "[f, g]" "pg_sys_start db" 0 repo] wf(1) by (simp add: pg_sys_start_def)
  obtain r1 where r1: "\<forall>r \<in> set r1. tm_file_hash r = hash_to_blob h"
      "pg_step\<^sup>*\<^sup>* (?s [pg_begin 0 repo [f, g]]) (?s [after_first 0 repo f [g] r1])"
    using run_first [of h repo "[]" "[]" db 0 ts "[g]" "[]"] fg by (auto simp: holds_file_def holds_lock_def)
  let ?x = "after_first 0 repo f [g] r1"
  have open2: "pg_step (?s [?x]) (?s [?x, pg_begin 0 repo' [g, f]])"
    using pg_open_tx [of "[g, f]" "?s [?x]" 0 repo'] wf(2) by simp
  have "\<exists>rows. (\<forall>r \<in> set rows. tm_file_hash r = hash_to_blob k) \<and>
      pg_step\<^sup>*\<^sup>* (?s ([?x] @ pg_begin 0 repo' ((k, us) # [f]) # [])) (?s ([?x] @ after_first 0 repo' (k, us) [f] rows # []))"
    using keys r1(1) fg
    by (intro run_first) (auto simp: holds_file_def holds_lock_def after_first_def file_lock_def file_key_def mk_file_rec_def)
  then obtain r2 where r2: "pg_step\<^sup>*\<^sup>* (?s [?x, pg_begin 0 repo' [g, f]]) (?s [?x, after_first 0 repo' g [f] r2])"
    using fg by auto
  let ?y = "after_first 0 repo' g [f] r2"
  let ?x' = "?x\<lparr>px_files := px_files ?x @ [mk_file_rec 0 k repo us], px_phase := At_Lock\<rparr>"
  let ?y' = "?y\<lparr>px_files := px_files ?y @ [mk_file_rec 0 h repo' ts], px_phase := At_Lock\<rparr>"
  have "pg_stmt db ([] @ [?y]) ?x = Some ?x'"
    using assms(3) fg by (simp add: pg_stmt_def after_first_def holds_file_def file_key_def mk_file_rec_def)
  note row1 = step_run [OF this, of "[]", unfolded append_Nil]
  have "pg_stmt db ([?x'] @ []) ?y = Some ?y'"
    using assms(3) fg by (simp add: pg_stmt_def after_first_def holds_file_def file_key_def mk_file_rec_def)
  note row2 = step_run [OF this, of "[]", unfolded append_Nil append_Cons]
  note both = rtranclp_trans [OF converse_rtranclp_into_rtranclp [of pg_step, OF open1 r1(2)]
      converse_rtranclp_into_rtranclp [of pg_step, OF open2 r2]]
  have "pg_step\<^sup>*\<^sup>* (pg_sys_start db) (?s [?x', ?y'])"
    by (rule rtranclp.rtrancl_into_rtrancl [OF rtranclp.rtrancl_into_rtrancl [OF both row1] row2])
  moreover have "pg_stuck (?s [?x', ?y'])"
    using fg
    by (auto simp: pg_stuck_def append_eq_Cons_conv Cons_eq_append_conv pg_stmt_def after_first_def holds_lock_def file_lock_def)
  moreover have "map (\<lambda>x. px_done x @ px_todo x) [?x', ?y'] = [[f, g], [g, f]]" by (simp add: after_first_def)
  ultimately show ?thesis by (intro exI [of _ "?s [?x', ?y']"]) simp
qed

end
