(* ===== verification/Pg_Example.thy ===== *)
theory Pg_Example
  imports Pg_Concurrent
begin

text \<open>
  Concurrent registrations run by a scheduler: a list of positions says which open transaction takes the next step. Two
  repositories register one hash at the same time, with the content segmented differently.
\<close>

fun pg_schedule :: "nat list \<Rightarrow> pg_sys \<Rightarrow> pg_sys option" where
  "pg_schedule [] s = Some s"
| "pg_schedule (i # rest) s =
     (if length (ps_open s) \<le> i then None
      else
        let x = ps_open s ! i; before = take i (ps_open s); after = drop (Suc i) (ps_open s)
        in if px_todo x = []
           then pg_schedule rest \<lparr>ps_db = pg_view (ps_db s) x, ps_open = before @ after,
                  ps_log = ps_log s @ [(px_now x, px_repo x, px_done x)]\<rparr>
           else case pg_stmt (ps_db s) (before @ after) x of
                  None \<Rightarrow> None
                | Some x' \<Rightarrow> pg_schedule rest (s\<lparr>ps_open := before @ x' # after\<rparr>))"

lemma pg_schedule_steps: "pg_schedule is s = Some s' \<Longrightarrow> pg_step\<^sup>*\<^sup>* s s'"
proof (induction "is" s rule: pg_schedule.induct)
  case (2 i rest s)
  let ?x = "ps_open s ! i" and ?xs = "take i (ps_open s)" and ?ys = "drop (Suc i) (ps_open s)"
  from 2(3) have i: "i < length (ps_open s)" by (simp split: if_splits)
  then have at: "ps_open s = ?xs @ ?x # ?ys" by (rule id_take_nth_drop)
  show ?case
  proof (cases "px_todo ?x = []")
    case True
    with 2(3) i have "pg_step\<^sup>*\<^sup>* \<lparr>ps_db = pg_view (ps_db s) ?x, ps_open = ?xs @ ?ys,
        ps_log = ps_log s @ [(px_now ?x, px_repo ?x, px_done ?x)]\<rparr> s'"
      by (intro 2(1)) (simp_all add: Let_def)
    with pg_commit [OF at True] show ?thesis by (rule converse_rtranclp_into_rtranclp)
  next
    case False
    with 2(3) i obtain x' where x': "pg_stmt (ps_db s) (?xs @ ?ys) ?x = Some x'"
        "pg_schedule rest (s\<lparr>ps_open := ?xs @ x' # ?ys\<rparr>) = Some s'"
      by (auto simp: Let_def split: option.splits)
    with False i have "pg_step\<^sup>*\<^sup>* (s\<lparr>ps_open := ?xs @ x' # ?ys\<rparr>) s'"
      by (intro 2(2) [OF _ refl refl refl]) simp_all
    with pg_run [OF at x'(1)] show ?thesis by (rule converse_rtranclp_into_rtranclp)
  qed
qed simp

definition pg_ex_repo :: "string \<Rightarrow> repo_ref" where
  "pg_ex_repo rid = \<lparr>repo_type_of = Model, repo_id = rid, revision = ''main''\<rparr>"

text \<open>One transaction has inserted its file row when the other begins; the second waits for the lock until the first commits.\<close>

definition pg_ex_start :: pg_sys where
  "pg_ex_start = (pg_sys_start db_empty)\<lparr>ps_open :=
     [pg_begin 0 (pg_ex_repo ''a/x'') [(hash_zero, [ex_term 3, ex_term 4])],
      pg_begin 1 (pg_ex_repo ''b/y'') [(hash_zero, [ex_term 7])]]\<rparr>"

definition pg_ex_end :: "pg_sys option" where
  "pg_ex_end = pg_schedule [0, 1, 0, 0, 0, 0, 0, 0, 0, 0] pg_ex_start"

lemma pg_ex_lock [simp]: "pg_lock_key hash_zero = 0"
  by (simp add: pg_lock_key_def hash_zero_def hash_to_blob_def HASH_LEN_def i64_from_le_bytes_def as_i64_def i64_max_def
      take_replicate numeral_eq_Suc replicate_Suc)

lemma pg_ex_batches:
  "batches CHUNK_INSERT_BATCH [(0, s), (1, t)] = [[(0, s), (Suc 0, t)]]"
  by (simp add: batches.simps CHUNK_INSERT_BATCH_def)

lemma pg_ex_rows: "insert_ignore_all term_key [mk_term_rec h (0, s), mk_term_rec h (Suc 0, t)] [] =
    [mk_term_rec h (0, s), mk_term_rec h (Suc 0, t)]"
  by (simp add: insert_ignore_all_def insert_ignore_def term_key_def mk_term_rec_def as_i64_def i64_max_def)

lemma pg_ex_runs:
  "case pg_ex_end of None \<Rightarrow> False
   | Some s \<Rightarrow> length (ps_log s) = 2 \<and> ps_open s = [] \<and> length (db_terms (ps_db s)) = 2"
  by (simp add: pg_ex_end_def pg_ex_start_def pg_sys_start_def pg_begin_def db_empty_def pg_stmt_def holds_file_def
      holds_lock_def holds_term_def pg_view_def pg_next_file_def file_key_def mk_file_rec_def pg_ex_repo_def terms_exist_def
      pg_ex_batches [unfolded One_nat_def] pg_ex_rows)

lemma pg_ex_start_reached: "pg_step\<^sup>*\<^sup>* (pg_sys_start db_empty) pg_ex_start"
proof -
  let ?f = "[(hash_zero, [ex_term 3, ex_term 4])]" and ?g = "[(hash_zero, [ex_term 7])]"
  let ?s = "(pg_sys_start db_empty)\<lparr>ps_open := [pg_begin 0 (pg_ex_repo ''a/x'') ?f]\<rparr>"
  have wf: "wf_files ?f" "wf_files ?g"
    by (simp_all add: wf_files_def ex_term_def wf_term_def wf_hash_def hash_zero_def i64_max_def)
  have "pg_step (pg_sys_start db_empty) ?s"
    using pg_open_tx [OF _ wf(1), of "pg_sys_start db_empty" 0 "pg_ex_repo ''a/x''"] by (simp add: pg_sys_start_def)
  moreover have "pg_step ?s pg_ex_start"
    using pg_open_tx [OF _ wf(2), of ?s 1 "pg_ex_repo ''b/y''"] by (simp add: pg_ex_start_def)
  ultimately show ?thesis by (rule converse_rtranclp_into_rtranclp [OF _ r_into_rtranclp])
qed

theorem registrations_serialize_witness:
  "case pg_ex_end of None \<Rightarrow> False
   | Some s \<Rightarrow> length (ps_log s) = 2 \<and> ps_db s = serial_runs (ps_log s) db_empty \<and> meta_inv (ps_db s)"
proof -
  from pg_ex_runs obtain s where s: "pg_ex_end = Some s" "length (ps_log s) = 2" by (auto split: option.splits)
  have "pg_step\<^sup>*\<^sup>* pg_ex_start s" using s(1) unfolding pg_ex_end_def by (rule pg_schedule_steps)
  from registrations_serialize [OF db_empty_inv rtranclp_trans [OF pg_ex_start_reached this]]
  show ?thesis using s(2) unfolding s(1) option.case by (intro conjI) (elim conjE; assumption)+
qed

text \<open>While both are open they list one file each, so they cannot block each other.\<close>

theorem ordered_registrations_progress_witness: "ps_open pg_ex_start \<noteq> [] \<and> \<not> pg_stuck pg_ex_start"
proof -
  have "\<forall>x \<in> set (ps_open pg_ex_start). sorted_wrt (<) (map file_lock (px_done x @ px_todo x))"
    by (simp add: pg_ex_start_def pg_begin_def)
  from ordered_registrations_progress [OF db_empty_inv pg_ex_start_reached this] show ?thesis
    by (simp add: pg_ex_start_def)
qed

definition pg_ex_hash :: hash32 where
  "pg_ex_hash = Hash32 (1 # replicate 31 0)"

lemma pg_ex_hash_lock: "pg_lock_key pg_ex_hash = 1"
  by (simp add: pg_lock_key_def pg_ex_hash_def hash_to_blob_def i64_from_le_bytes_def as_i64_def i64_max_def
      take_replicate numeral_eq_Suc replicate_Suc)

theorem opposite_orders_deadlock_witness:
  "\<exists>s. pg_step\<^sup>*\<^sup>* (pg_sys_start db_empty) s \<and> pg_stuck s \<and>
    map (\<lambda>x. px_done x @ px_todo x) (ps_open s) =
      [[(hash_zero, [ex_term 3]), (pg_ex_hash, [ex_term 4])], [(pg_ex_hash, [ex_term 4]), (hash_zero, [ex_term 3])]]"
proof -
  have "wf_files [(hash_zero, [ex_term 3]), (pg_ex_hash, [ex_term 4])]"
    by (simp add: wf_files_def ex_term_def wf_term_def wf_hash_def hash_zero_def pg_ex_hash_def i64_max_def HASH_LEN_def)
  moreover have "file_lock (hash_zero, [ex_term 3]) \<noteq> file_lock (pg_ex_hash, [ex_term 4])"
    by (simp add: file_lock_def pg_ex_hash_lock)
  moreover have "repo_id (pg_ex_repo ''a/x'') \<noteq> repo_id (pg_ex_repo ''b/y'')" by (simp add: pg_ex_repo_def)
  ultimately show ?thesis by (rule opposite_orders_deadlock)
qed

end
