(* ===== verification/Config.thy ===== *)
theory Config
  imports Resolver Prune Blob_Fs Http_Server
begin

text \<open>
  Where the client finds its settings, \<open>git-bale/src/config.rs\<close>, what is left of \<open>store.rs\<close> (the store of a new local repository and
  the lock of a store), and the conversion of a server's answer into a cached manifest, \<open>remote_manifest.rs\<close>. The build is the one
  for Unix. Paths are texts until they are stored; \<open>ce_path\<close> is the path a text names for this process. The environment, the
  repository that \<open>gix\<close> discovers with its merged configuration and the clock are parameters.
\<close>

section \<open>Settings\<close>

type_synonym snapshot = "string \<Rightarrow> string option"

record config_env =
  ce_var :: "string \<Rightarrow> string option"
  ce_cwd :: "string option"
  ce_discover :: "string \<Rightarrow> string + string \<times> snapshot"
  ce_path :: "string \<Rightarrow> path"
  ce_now :: nat

definition set_var :: "config_env \<Rightarrow> string \<Rightarrow> string option" where
  "set_var E key = (case ce_var E key of Some v \<Rightarrow> if v \<noteq> [] then Some v else None | None \<Rightarrow> None)"

definition set_cfg :: "snapshot option \<Rightarrow> string \<Rightarrow> string option" where
  "set_cfg snap key =
     (case snap of
        None \<Rightarrow> None
      | Some c \<Rightarrow> (case c key of None \<Rightarrow> None | Some s \<Rightarrow> if trim s = [] then None else Some (trim s)))"

definition env_or_cfg :: "config_env \<Rightarrow> string \<Rightarrow> snapshot option \<Rightarrow> string \<Rightarrow> string option" where
  "env_or_cfg E env_key snap key = (case set_var E env_key of Some v \<Rightarrow> Some v | None \<Rightarrow> set_cfg snap key)"

definition ascii_lowercase :: "string \<Rightarrow> string" where
  "ascii_lowercase s = map (\<lambda>c. if 65 \<le> (of_char c :: nat) \<and> (of_char c :: nat) \<le> 90 then char_of ((of_char c :: nat) + 32) else c) s"

definition bool_from :: "config_env \<Rightarrow> string \<Rightarrow> snapshot option \<Rightarrow> string \<Rightarrow> bool" where
  "bool_from E env_key snap key =
     (case env_or_cfg E env_key snap key of
        Some v \<Rightarrow> ascii_lowercase (trim v) \<in> {''1'', ''true'', ''yes'', ''on''}
      | None \<Rightarrow> False)"

definition home_dir :: "config_env \<Rightarrow> string option" where
  "home_dir E = set_var E ''HOME''"

definition expand_tilde :: "config_env \<Rightarrow> string \<Rightarrow> string" where
  "expand_tilde E s =
     (case (case strip_prefix ''~/'' s of Some r \<Rightarrow> Some r | None \<Rightarrow> if s = ''~'' then Some [] else None) of
        None \<Rightarrow> s
      | Some rest \<Rightarrow>
          (case home_dir E of
             None \<Rightarrow> s
           | Some home \<Rightarrow> if rest = [] then home else path_join home rest))"

definition cache_base :: "config_env \<Rightarrow> string option" where
  "cache_base E = (case set_var E ''HOME'' of Some h \<Rightarrow> Some (path_join h ''.cache'') | None \<Rightarrow> None)"

definition resolve_cache_dir :: "config_env \<Rightarrow> snapshot option \<Rightarrow> string + string" where
  "resolve_cache_dir E snap =
     (case set_var E ''BALE_CACHE_DIR'' of Some v \<Rightarrow> Inr v | None \<Rightarrow>
     (case set_cfg snap ''bale.cacheDir'' of Some v \<Rightarrow> Inr v | None \<Rightarrow>
     (case set_var E ''XDG_CACHE_HOME'' of Some x \<Rightarrow> Inr (path_join (path_join x ''bale'') ''chunks'') | None \<Rightarrow>
     (case cache_base E of Some b \<Rightarrow> Inr (path_join (path_join b ''bale'') ''chunks'') | None \<Rightarrow>
        Inl ''can't derive a default cache dir: set BALE_CACHE_DIR or bale.cacheDir''))))"

definition raw_load :: "config_env \<Rightarrow> string option \<Rightarrow> string + raw_config" where
  "raw_load E repo =
     (let start_dir = (case repo of Some p \<Rightarrow> p | None \<Rightarrow> (case ce_cwd E of Some d \<Rightarrow> d | None \<Rightarrow> ''.''));
          found = (case ce_discover E start_dir of Inr r \<Rightarrow> Some r | Inl _ \<Rightarrow> None);
          snap = map_option snd found
      in rbind (case env_or_cfg E ''BALE_TOKEN_EXPIRATION'' snap ''bale.tokenExpiration'' of
                  None \<Rightarrow> Inr None
                | Some s \<Rightarrow> map_sum id Some (ok_or ''bale.tokenExpiration must be a unix timestamp'' (parse_u64 s))) (\<lambda>expiration.
         rbind (resolve_cache_dir E snap) (\<lambda>cache_dir.
           Inr \<lparr>rc_server_url = env_or_cfg E ''BALE_SERVER_URL'' snap ''bale.serverUrl'',
                rc_token = env_or_cfg E ''BALE_TOKEN'' snap ''bale.token'',
                rc_token_expiration = expiration,
                rc_cache_dir = ce_path E cache_dir,
                rc_git_dir = map_option (\<lambda>r. ce_path E (fst r)) found,
                rc_local_mode = bool_from E ''BALE_LOCAL'' snap ''bale.local'',
                rc_local_store = map_option (\<lambda>s. ce_path E (expand_tilde E s)) (env_or_cfg E ''BALE_LOCAL_STORE'' snap ''bale.localStore''),
                rc_local_shared = bool_from E ''BALE_LOCAL_SHARED'' snap ''bale.localShared'',
                rc_ssh_command = env_or_cfg E ''GIT_SSH_COMMAND'' snap ''core.sshCommand''\<rparr>)))"

definition config_far_future :: "config_env \<Rightarrow> nat" where
  "config_far_future E = ce_now E + 100 * 365 * 24 * 60 * 60"

definition bale_load :: "config_env \<Rightarrow> string option \<Rightarrow> string + bale_config" where
  "bale_load E repo =
     rbind (raw_load E repo) (\<lambda>raw.
     rbind (ok_or ''bale.serverUrl is unset; set it with `git config bale.serverUrl <url>` or BALE_SERVER_URL''
              (rc_server_url raw)) (\<lambda>server_url.
     rbind (ok_or ''bale.token is unset; set it with `git config bale.token <jwt>` or BALE_TOKEN'' (rc_token raw)) (\<lambda>token.
       Inr \<lparr>bc_server_url = server_url, bc_token = token,
            bc_token_expiration = (case rc_token_expiration raw of Some t \<Rightarrow> t | None \<Rightarrow> config_far_future E),
            bc_cache_dir = rc_cache_dir raw, bc_git_dir = rc_git_dir raw\<rparr>)))"

section \<open>The store of a new local repository\<close>

definition absolutize :: "string \<Rightarrow> string \<Rightarrow> string" where
  "absolutize cwd p = (if starts_with ''/'' p then p else path_join cwd p)"

definition repo_git_dir :: "config_env \<Rightarrow> string \<Rightarrow> string + string" where
  "repo_git_dir E cwd =
     (case ce_discover E cwd of
        Inl e \<Rightarrow> Inl (''opening repo at '' @ cwd @ '': '' @ e)
      | Inr r \<Rightarrow> Inr (fst r))"

definition resolve_init_store :: "config_env \<Rightarrow> string \<Rightarrow> string option \<Rightarrow> bool \<Rightarrow> string + string" where
  "resolve_init_store E cwd explicit shared =
     (case explicit of
        Some p \<Rightarrow> Inr (absolutize cwd (expand_tilde E p))
      | None \<Rightarrow>
          if shared then
            let home = expand_tilde E ''~''
            in if home = ''~'' then Inl ''cannot resolve ~ for default shared store; pass --store''
               else Inr (path_join home ''bale-local'')
          else rbind (repo_git_dir E cwd) (\<lambda>gd. Inr (path_join (path_join gd ''bale'') ''store'')))"

section \<open>The lock of a store\<close>

text \<open>Opening the lock file creates it if it is missing and does not empty it. What the system answers to the attempt to lock is a
  parameter.\<close>

datatype lock_answer = Lock_Granted | Lock_Would_Block | Lock_Failed string

definition open_lock :: "string option \<Rightarrow> string option \<Rightarrow> nat \<Rightarrow> path \<Rightarrow> fs \<Rightarrow> (string + unit) \<times> fs" where
  "open_lock mkdir open' now store fs =
     (let p = lock_path store in
      case mkdir of
        Some e \<Rightarrow> (Inl (''creating lock dir '' @ show_path (butlast p) @ '': '' @ e), fs)
      | None \<Rightarrow>
          (case open' of
             Some e \<Rightarrow> (Inl (''opening store lock '' @ show_path p @ '': '' @ e), fs)
           | None \<Rightarrow> (Inr (), if map_of fs p = None then put_file p \<lparr>fn_body = [], fn_mtime = now\<rparr> fs else fs)))"

text \<open>\<^const>\<open>None\<close> while the call blocks.\<close>

definition acquire_exclusive :: "string option \<Rightarrow> string option \<Rightarrow> lock_answer \<Rightarrow> nat \<Rightarrow> path \<Rightarrow> fs \<Rightarrow> (string + unit) option \<times> fs" where
  "acquire_exclusive mkdir open' ans now store fs =
     (case open_lock mkdir open' now store fs of
        (Inl e, fs) \<Rightarrow> (Some (Inl e), fs)
      | (Inr _, fs) \<Rightarrow>
          ((case ans of
              Lock_Granted \<Rightarrow> Some (Inr ())
            | Lock_Would_Block \<Rightarrow> None
            | Lock_Failed e \<Rightarrow> Some (Inl (''acquiring exclusive store lock '' @ show_path (lock_path store) @ '': '' @ e))), fs))"

definition try_exclusive :: "string option \<Rightarrow> string option \<Rightarrow> lock_answer \<Rightarrow> nat \<Rightarrow> path \<Rightarrow> fs \<Rightarrow> (string + bool) \<times> fs" where
  "try_exclusive mkdir open' ans now store fs =
     (case open_lock mkdir open' now store fs of
        (Inl e, fs) \<Rightarrow> (Inl e, fs)
      | (Inr _, fs) \<Rightarrow>
          ((case ans of
              Lock_Granted \<Rightarrow> Inr True
            | Lock_Would_Block \<Rightarrow> Inr False
            | Lock_Failed e \<Rightarrow> Inl (''trying exclusive store lock '' @ show_path (lock_path store) @ '': '' @ e)), fs))"

section \<open>A manifest from the server's answer\<close>

text \<open>A term as \<open>xet-client\<close> decodes it.\<close>

record client_term =
  kt_hash :: string
  kt_start :: u32
  kt_end :: u32
  kt_unpacked_length :: u32

definition cached_term_of :: "client_term \<Rightarrow> cached_term" where
  "cached_term_of t = \<lparr>ct_xorb_hash = kt_hash t, ct_chunk_start = kt_start t, ct_chunk_end = kt_end t,
     ct_unpacked_length = unat (kt_unpacked_length t)\<rparr>"

definition fetch_manifest ::
  "(bale_config \<Rightarrow> string \<Rightarrow> string + client_term list option) \<Rightarrow> bale_config \<Rightarrow> string \<Rightarrow> string + cached_manifest" where
  "fetch_manifest get cfg file_hex =
     rbind (rmap_err (\<lambda>e. ''fetching reconstruction manifest for '' @ file_hex @ '': '' @ e) (get cfg file_hex)) (\<lambda>r.
     rbind (ok_or (''server returned no reconstruction for '' @ file_hex) r) (\<lambda>terms.
       Inr \<lparr>cm_v = MANIFEST_VERSION, cm_terms = map cached_term_of terms\<rparr>))"

section \<open>What the loaders give\<close>

text \<open>Inside a repository a loaded configuration always has a place for objects.\<close>

lemma loaded_store_resolves:
  assumes "raw_load C (Some dir) = Inr raw" and "ce_discover C dir = Inr r"
  shows "\<exists>p. object_store_root raw = Inr p"
proof -
  have "rc_git_dir raw = Some (ce_path C (fst r))"
    using assms by (auto simp: raw_load_def Let_def rbind_eq_Inr)
  then show ?thesis by (auto simp: object_store_root_def split: option.splits)
qed

text \<open>The strict loader succeeds exactly if the other one finds a server and a token, and then agrees with it.\<close>

lemma bale_load_Inr:
  "bale_load C repo = Inr b \<longleftrightarrow>
   (\<exists>raw u t. raw_load C repo = Inr raw \<and> rc_server_url raw = Some u \<and> rc_token raw = Some t \<and>
      b = \<lparr>bc_server_url = u, bc_token = t,
           bc_token_expiration = (case rc_token_expiration raw of Some e \<Rightarrow> e | None \<Rightarrow> config_far_future C),
           bc_cache_dir = rc_cache_dir raw, bc_git_dir = rc_git_dir raw\<rparr>)"
proof (cases "raw_load C repo")
  case (Inr raw)
  then show ?thesis by (cases "rc_server_url raw"; cases "rc_token raw") (auto simp: bale_load_def ok_or_def)
qed (simp add: bale_load_def)

text \<open>A store in the home directory may be written with a tilde, a cache directory may not.\<close>

lemma cache_dir_keeps_tilde:
  assumes "set_var C ''BALE_CACHE_DIR'' = None" and "c ''bale.cacheDir'' = Some ''~/c''"
  shows "resolve_cache_dir C (Some c) = Inr ''~/c''"
proof -
  have "trim ''~/c'' = ''~/c''" by (rule trim_graphic) (simp add: graphic_def)
  with assms show ?thesis by (simp add: resolve_cache_dir_def set_cfg_def)
qed

text \<open>Opening the lock file changes no file that is there.\<close>

lemma open_lock_keeps: "open_lock mk op now store fs = (r, fs') \<Longrightarrow> map_of fs p = Some n \<Longrightarrow> map_of fs' p = Some n"
  by (auto simp: open_lock_def Let_def split: option.splits if_splits)

lemma try_exclusive_granted:
  assumes "try_exclusive mk op ans now store fs = (Inr True, fs')"
  shows "ans = Lock_Granted \<and> map_of fs' (lock_path store) \<noteq> None"
  using assms by (auto simp: try_exclusive_def open_lock_def Let_def split: option.splits lock_answer.splits if_splits sum.splits prod.splits)

text \<open>A cached manifest describes as many bytes as the terms of the answer.\<close>

lemma fetch_manifest_bytes:
  assumes "fetch_manifest get cfg hex = Inr m"
  shows "\<exists>ts. get cfg hex = Inr (Some ts) \<and> sum_list (map ct_unpacked_length (cm_terms m)) = (\<Sum>t \<leftarrow> ts. unat (kt_unpacked_length t))"
  using assms by (auto simp: fetch_manifest_def rbind_eq_Inr rmap_err_def ok_or_def cached_term_of_def o_def
      split: option.splits sum.splits)

end
