(* ===== verification/Install.thy ===== *)
theory Install
  imports Config Push_Pending
begin

text \<open>
  Setting a repository up: the filter driver and the hooks, \<open>git-bale/src/install.rs\<close>, the patterns in \<open>.gitattributes\<close>,
  \<open>track.rs\<close>, and what \<open>main.rs\<close> decides before it calls a command. Git's configuration is a map per scope, which \<open>git config\<close>
  changes when it exits with 0; the answers of that process and of the file system are parameters, one per call.
\<close>

section \<open>Git's configuration\<close>

datatype install_scope = Scope_Global | Scope_System | Scope_Local

datatype on_conflict = Conflict_Fail | Conflict_Skip

record install_state =
  it_config :: "install_scope \<Rightarrow> string \<Rightarrow> string option"
  it_fs :: fs
  it_tick :: nat

text \<open>\<open>ie_git\<close>: the error of starting Git, or its exit code (none after a signal) and what it wrote to its error stream.\<close>

record install_env =
  ie_cfg :: config_env
  ie_git :: "nat \<Rightarrow> string + int option \<times> string"
  ie_save :: "nat \<Rightarrow> save_faults"
  ie_readable :: "path \<Rightarrow> bool"
  ie_chmod :: "nat \<Rightarrow> string option"
  ie_unlink :: "nat \<Rightarrow> string option"
  ie_text :: "io_error \<Rightarrow> string"
  ie_pid :: nat
  ie_now :: nat

type_synonym 'a istep = "(install_state, string, 'a) step"

definition SECTION :: string where
  "SECTION = ''filter.bale''"

definition PROCESS_VALUE :: string where
  "PROCESS_VALUE = ''git-bale filter-process''"

definition HOOK_MARKER :: string where
  "HOOK_MARKER = ''# bale-marker: managed-by-git-bale-do-not-edit''"

definition GC_HOOKS :: "string list" where
  "GC_HOOKS = [''post-checkout'', ''post-commit'', ''post-merge'']"

definition scope_flag :: "install_scope \<Rightarrow> string" where
  "scope_flag sc = (case sc of Scope_Global \<Rightarrow> ''--global'' | Scope_System \<Rightarrow> ''--system'' | Scope_Local \<Rightarrow> ''--local'')"

text \<open>What \<open>git config\<close> does with the arguments the program gives it.\<close>

definition git_config_effect :: "install_scope \<Rightarrow> string list \<Rightarrow> install_state \<Rightarrow> install_state" where
  "git_config_effect sc args s =
     (case args of
        [a, b] \<Rightarrow>
          if a = ''--unset-all'' then s\<lparr>it_config := (it_config s)(sc := (it_config s sc)(b := None))\<rparr>
          else s\<lparr>it_config := (it_config s)(sc := (it_config s sc)(a \<mapsto> b))\<rparr>
      | _ \<Rightarrow> s)"

definition run_git_config :: "install_env \<Rightarrow> install_scope \<Rightarrow> string list \<Rightarrow> (int option \<times> string) istep" where
  "run_git_config E sc args s =
     (let t = it_tick s; s = s\<lparr>it_tick := t + 1\<rparr>
      in case ie_git E t of
           Inl e \<Rightarrow> (Inl (''spawning git config: '' @ e), s)
         | Inr out \<Rightarrow> (Inr out, if fst out = Some 0 then git_config_effect sc args s else s))"

definition set_bale_config :: "install_env \<Rightarrow> install_scope \<Rightarrow> string \<Rightarrow> string \<Rightarrow> unit istep" where
  "set_bale_config E sc key v =
     (let full_key = ''bale.'' @ key in
      sbind (run_git_config E sc [full_key, v]) (\<lambda>out.
        if fst out \<noteq> Some 0
        then sfail (''git config '' @ scope_flag sc @ '' '' @ full_key @ '' '' @ v @ '' failed: '' @ trim (snd out))
        else sret ()))"

definition set_config :: "install_env \<Rightarrow> install_scope \<Rightarrow> string \<Rightarrow> string \<Rightarrow> unit istep" where
  "set_config E sc key v =
     (let full_key = SECTION @ ''.'' @ key in
      sbind (run_git_config E sc [full_key, v]) (\<lambda>out.
        if fst out \<noteq> Some 0
        then sfail (''git config '' @ scope_flag sc @ '' '' @ full_key @ '' '' @ v @ '' failed: '' @ trim (snd out))
        else sret ()))"

definition unset_config :: "install_env \<Rightarrow> install_scope \<Rightarrow> string \<Rightarrow> unit istep" where
  "unset_config E sc key =
     (let full_key = SECTION @ ''.'' @ key in
      sbind (run_git_config E sc [''--unset-all'', full_key]) (\<lambda>out.
        if fst out \<noteq> Some 0 \<and> fst out \<noteq> Some 5
        then sfail (''git config '' @ scope_flag sc @ '' --unset-all '' @ full_key @ '' failed: '' @ trim (snd out))
        else sret ()))"

section \<open>Hooks\<close>

definition resolve_hook_path :: "install_env \<Rightarrow> string option \<Rightarrow> string \<Rightarrow> string + path" where
  "resolve_hook_path E repo hook_name =
     rbind (ok_or ''can't resolve cwd to anchor hook path''
              (case repo of Some p \<Rightarrow> Some p | None \<Rightarrow> ce_cwd (ie_cfg E))) (\<lambda>start_dir.
     rbind (rmap_err (\<lambda>e. ''opening repo at '' @ start_dir @ '': '' @ e) (ce_discover (ie_cfg E) start_dir)) (\<lambda>r.
     let hooks_root = (case set_cfg (Some (snd r)) ''core.hooksPath'' of
           Some p \<Rightarrow> p
         | None \<Rightarrow> path_join (fst r) ''hooks'')
     in Inr (ce_path (ie_cfg E) (path_join hooks_root hook_name))))"

definition hook_text :: "install_env \<Rightarrow> path \<Rightarrow> fnode \<Rightarrow> string option" where
  "hook_text E p n = (if ie_readable E p then from_utf8 (fn_body n) else None)"

definition hook_body :: "string \<Rightarrow> string \<Rightarrow> string" where
  "hook_body description command =
     ''#!/bin/sh'' @ [CHR 0x0A] @ HOOK_MARKER @ [CHR 0x0A] @ ''# '' @ description @ [CHR 0x0A] @ command @ [CHR 0x0A]"

definition hook_tmp :: "install_env \<Rightarrow> path \<Rightarrow> path" where
  "hook_tmp E p = butlast p @ [CHR ''.'' # last p @ ''.tmp.'' @ show_nat (ie_pid E)]"

definition install_managed_hook :: "install_env \<Rightarrow> string option \<Rightarrow> string \<Rightarrow> string \<Rightarrow> string \<Rightarrow> on_conflict \<Rightarrow> unit istep" where
  "install_managed_hook E repo hook_name command description conflict s =
     (let t = it_tick s; s = s\<lparr>it_tick := t + 1\<rparr>; F = ie_save E t
      in case resolve_hook_path E repo hook_name of
           Inl e \<Rightarrow> (Inl e, s)
         | Inr p \<Rightarrow>
             (case sv_mkdir F of
                Some e \<Rightarrow> (Inl (''creating hooks dir '' @ show_path (butlast p) @ '': '' @ ie_text E e), s)
              | None \<Rightarrow>
                  let foreign = (case map_of (it_fs s) p of
                        None \<Rightarrow> False
                      | Some n \<Rightarrow> \<not> contains_str HOOK_MARKER (case hook_text E p n of Some b \<Rightarrow> b | None \<Rightarrow> []))
                  in if foreign then
                       (case conflict of
                          Conflict_Fail \<Rightarrow> (Inl (''refusing to overwrite existing '' @ hook_name @ '' hook at '' @ show_path p @ [CHR 0x0A] @
                            ''add this line to it manually:'' @ [CHR 0x0A, CHR 0x09] @ command @ [CHR 0x0A] @
                            ''(or move the existing hook aside and re-run `git-bale install --local`)''), s)
                        | Conflict_Skip \<Rightarrow> (Inr (), s))
                     else
                       (case replace_file F (ie_now E) (hook_tmp E p) p (Inr (as_bytes (hook_body description command))) (it_fs s) of
                          (Inl e, fs) \<Rightarrow>
                            (Inl (''writing '' @ hook_name @ '' hook to '' @ show_path p @ '': '' @ ie_text E e), s\<lparr>it_fs := fs\<rparr>)
                        | (Inr _, fs) \<Rightarrow>
                            (case ie_chmod E t of
                               Some e \<Rightarrow> (Inl e, s\<lparr>it_fs := fs\<rparr>)
                             | None \<Rightarrow> (Inr (), s\<lparr>it_fs := fs\<rparr>)))))"

definition uninstall_managed_hook :: "install_env \<Rightarrow> string option \<Rightarrow> string \<Rightarrow> unit istep" where
  "uninstall_managed_hook E repo hook_name s =
     (let t = it_tick s; s = s\<lparr>it_tick := t + 1\<rparr>
      in case resolve_hook_path E repo hook_name of
           Inl e \<Rightarrow> (Inl e, s)
         | Inr p \<Rightarrow>
             (case map_of (it_fs s) p of
                None \<Rightarrow> (Inr (), s)
              | Some n \<Rightarrow>
                  (case hook_text E p n of
                     None \<Rightarrow> (Inl ''stream did not contain valid UTF-8'', s)
                   | Some existing \<Rightarrow>
                       if \<not> contains_str HOOK_MARKER existing then (Inr (), s)
                       else (case ie_unlink E t of
                               Some e \<Rightarrow> (Inl (''removing '' @ hook_name @ '' hook '' @ show_path p @ '': '' @ e), s)
                             | None \<Rightarrow> (Inr (), s\<lparr>it_fs := del_file p (it_fs s)\<rparr>)))))"

section \<open>Commands\<close>

fun for_hooks :: "(string \<Rightarrow> unit istep) \<Rightarrow> string list \<Rightarrow> unit istep" where
  "for_hooks f [] = sret ()"
| "for_hooks f (h # hs) = sbind (f h) (\<lambda>_. for_hooks f hs)"

definition quiet :: "unit istep \<Rightarrow> unit istep" where
  "quiet m = (\<lambda>s. (Inr (), snd (m s)))"

definition PRE_PUSH_COMMAND :: string where
  "PRE_PUSH_COMMAND = ''exec git-bale push-pending '' @ [CHR 0x22, CHR ''$'', CHR 0x40, CHR 0x22]"

definition install :: "install_env \<Rightarrow> install_scope \<Rightarrow> string option \<Rightarrow> unit istep" where
  "install E sc repo =
     sbind (set_config E sc ''process'' PROCESS_VALUE) (\<lambda>_.
     sbind (set_config E sc ''required'' ''true'') (\<lambda>_.
       if sc = Scope_Local then
         sbind (install_managed_hook E repo ''pre-push'' PRE_PUSH_COMMAND
                  (''Ensure xorbs/shards for every bale file this push advertises reach the'' @ [CHR 0x0A] @
                   ''# target remote ('' @ [CHR 0x22, CHR ''$'', CHR 0x40, CHR 0x22] @ '' = remote name + URL; ref updates arrive on stdin)'' @ [CHR 0x0A] @
                   ''# before git pushes refs that reference them. Aborts the push on failure.'') Conflict_Fail) (\<lambda>_.
         for_hooks (\<lambda>hook. install_managed_hook E repo hook ''git-bale gc || true''
                      ''Reclaim staging for bale files that were unstaged or discarded.'' Conflict_Skip) GC_HOOKS)
       else sret ()))"

definition init_local :: "install_env \<Rightarrow> string option \<Rightarrow> string \<Rightarrow> bool \<Rightarrow> unit istep" where
  "init_local E repo store shared =
     sbind (set_config E Scope_Local ''process'' PROCESS_VALUE) (\<lambda>_.
     sbind (set_config E Scope_Local ''required'' ''true'') (\<lambda>_.
     sbind (set_bale_config E Scope_Local ''local'' ''true'') (\<lambda>_.
     sbind (set_bale_config E Scope_Local ''localStore'' store) (\<lambda>_.
     sbind (if shared then set_bale_config E Scope_Local ''localShared'' ''true'' else sret ()) (\<lambda>_.
       for_hooks (\<lambda>hook. install_managed_hook E repo hook ''git-bale gc || true''
                    ''Reclaim local-store objects for bale files that were unstaged or discarded.'' Conflict_Skip) GC_HOOKS)))))"

definition uninstall :: "install_env \<Rightarrow> install_scope \<Rightarrow> string option \<Rightarrow> unit istep" where
  "uninstall E sc repo =
     sbind (quiet (unset_config E sc ''process'')) (\<lambda>_.
     sbind (quiet (unset_config E sc ''required'')) (\<lambda>_.
       if sc = Scope_Local then
         sbind (quiet (uninstall_managed_hook E repo ''pre-push'')) (\<lambda>_.
         for_hooks (\<lambda>hook. quiet (uninstall_managed_hook E repo hook)) GC_HOOKS)
       else sret ()))"

definition uninstall_all :: "install_env \<Rightarrow> string option \<Rightarrow> unit istep" where
  "uninstall_all E repo =
     sbind (quiet (uninstall E Scope_System None)) (\<lambda>_.
     sbind (quiet (uninstall E Scope_Global None)) (\<lambda>_.
     sbind (quiet (uninstall E Scope_Local repo)) (\<lambda>_. sret ())))"

section \<open>The command line\<close>

definition pick_scope :: "bool \<Rightarrow> bool \<Rightarrow> install_scope" where
  "pick_scope system' local' = (if local' then Scope_Local else if system' then Scope_System else Scope_Global)"

definition cache_home_fallback :: "config_env \<Rightarrow> string option" where
  "cache_home_fallback E = map_option (\<lambda>h. path_join h ''.cache'') (ce_var E ''HOME'')"

text \<open>The value of \<open>HF_XET_CACHE\<close> the rest of the process sees.\<close>

definition set_default_xet_cache_root :: "config_env \<Rightarrow> string option" where
  "set_default_xet_cache_root E =
     (case ce_var E ''BALE_XET_CACHE'' of Some v \<Rightarrow> Some v | None \<Rightarrow>
     (case ce_var E ''HF_XET_CACHE'' of Some v \<Rightarrow> Some v | None \<Rightarrow>
     (case (case ce_var E ''XDG_CACHE_HOME'' of Some x \<Rightarrow> Some x | None \<Rightarrow> cache_home_fallback E) of
        None \<Rightarrow> None
      | Some base \<Rightarrow> Some (path_join (path_join base ''bale'') ''xet''))))"

definition init_local_command :: "install_env \<Rightarrow> registry_env \<Rightarrow> string option \<Rightarrow> bool \<Rightarrow> unit istep" where
  "init_local_command E R store_arg shared =
     (case ce_cwd (ie_cfg E) of
        None \<Rightarrow> sfail ''no current directory''
      | Some cwd \<Rightarrow>
          (case resolve_init_store (ie_cfg E) cwd store_arg shared of
             Inl e \<Rightarrow> sfail e
           | Inr store \<Rightarrow>
               sbind (init_local E (Some cwd) store shared) (\<lambda>_.
                 if shared then
                   (case repo_git_dir (ie_cfg E) cwd of
                      Inl e \<Rightarrow> sfail e
                    | Inr git_dir \<Rightarrow> (\<lambda>s.
                        case register_repo R (ie_pid E) (ie_now E) (ce_path (ie_cfg E) store) (ce_path (ie_cfg E) git_dir) (it_fs s) of
                          (r, fs) \<Rightarrow> (r, s\<lparr>it_fs := fs\<rparr>)))
                 else sret ())))"

section \<open>Tracked patterns\<close>

definition FILTER_SUFFIX :: string where
  "FILTER_SUFFIX = ''filter=bale -text''"

definition pattern_already_tracked :: "string \<Rightarrow> string \<Rightarrow> bool" where
  "pattern_already_tracked existing pattern \<longleftrightarrow>
     (\<exists>line \<in> set (lines_of existing).
        let trimmed = trim line in
        trimmed \<noteq> [] \<and> \<not> starts_with ''#'' trimmed \<and>
        (case split_ws [] trimmed of
           [] \<Rightarrow> False
         | first # parts \<Rightarrow> first = pattern \<and> ''filter=bale'' \<in> set parts))"

text \<open>Appends to the open file: the \<open>k\<close>-th may fail after a part of its bytes.\<close>

record track_env =
  tk_read :: "io_error option"
  tk_open :: "io_error option"
  tk_write :: "nat \<Rightarrow> (nat \<times> io_error) option"
  tk_text :: "io_error \<Rightarrow> string"

definition append_text :: "track_env \<Rightarrow> nat \<Rightarrow> string \<Rightarrow> bytes \<Rightarrow> (io_error + unit) \<times> bytes" where
  "append_text T k t body =
     (case tk_write T k of
        None \<Rightarrow> (Inr (), body @ as_bytes t)
      | Some (n, e) \<Rightarrow> (Inl e, body @ take n (as_bytes t)))"

fun track_patterns :: "track_env \<Rightarrow> string \<Rightarrow> string list \<Rightarrow> nat \<Rightarrow> bytes \<Rightarrow> (string + unit) \<times> bytes" where
  "track_patterns T existing [] k body = (Inr (), body)"
| "track_patterns T existing (raw # ps) k body =
     (let pattern = trim raw in
      if pattern = [] \<or> pattern_already_tracked existing pattern then track_patterns T existing ps k body
      else case append_text T k (pattern @ '' '' @ FILTER_SUFFIX @ [CHR 0x0A]) body of
             (Inl e, body) \<Rightarrow> (Inl (''.gitattributes write: '' @ tk_text T e), body)
           | (Inr _, body) \<Rightarrow> track_patterns T existing ps (k + 1) body)"

definition track_body :: "track_env \<Rightarrow> string \<Rightarrow> string list \<Rightarrow> bytes \<Rightarrow> (string + unit) \<times> bytes" where
  "track_body T existing patterns body =
     (let line_end = (if contains_str [CHR 0x0D, CHR 0x0A] existing then [CHR 0x0D, CHR 0x0A] else [CHR 0x0A])
      in if existing \<noteq> [] \<and> \<not> ends_with [CHR 0x0A] existing
         then (case append_text T 0 line_end body of
                 (Inl e, body) \<Rightarrow> (Inl (tk_text T e), body)
               | (Inr _, body) \<Rightarrow> track_patterns T existing patterns 1 body)
         else track_patterns T existing patterns 1 body)"

definition track :: "track_env \<Rightarrow> nat \<Rightarrow> path \<Rightarrow> string list \<Rightarrow> fs \<Rightarrow> (string + unit) \<times> fs" where
  "track T now repo patterns fs =
     (let p = repo @ [''.gitattributes''];
          read' = (case map_of fs p of
             None \<Rightarrow> (case tk_read T of None \<Rightarrow> Inr [] | Some e \<Rightarrow> if e = IoNotFound then Inr [] else Inl (tk_text T e))
           | Some n \<Rightarrow>
               (case tk_read T of
                  Some e \<Rightarrow> if e = IoNotFound then Inr [] else Inl (tk_text T e)
                | None \<Rightarrow> ok_or ''stream did not contain valid UTF-8'' (from_utf8 (fn_body n))))
      in case with_context ''reading .gitattributes'' read' of
           Inl e \<Rightarrow> (Inl e, fs)
         | Inr existing \<Rightarrow>
             (case tk_open T of
                Some e \<Rightarrow> (Inl (''opening '' @ show_path p @ '': '' @ tk_text T e), fs)
              | None \<Rightarrow>
                  let old = (case map_of fs p of Some n \<Rightarrow> fn_body n | None \<Rightarrow> [])
                  in case track_body T existing patterns old of
                       (r, body) \<Rightarrow> (r, put_file p \<lparr>fn_body = body, fn_mtime = now\<rparr> fs)))"

text \<open>A variable that is set but empty counts as set here, though not where the chunk cache is looked for: the cache of
  \<open>xet\<close> then lies below the working directory.\<close>

lemma empty_xdg_gives_relative_cache:
  assumes "ce_var E ''BALE_XET_CACHE'' = None" and "ce_var E ''HF_XET_CACHE'' = None" and "ce_var E ''XDG_CACHE_HOME'' = Some []"
  shows "set_default_xet_cache_root E = Some ''bale/xet''"
  using assms by (simp add: set_default_xet_cache_root_def path_join_def starts_with_def ends_with_iff)

end
