(* ===== verification/Install_Safe.thy ===== *)
theory Install_Safe
  imports Install
begin

text \<open>
  What setting a repository up promises: hooks of the user are never touched, a repository put into local mode is one that the
  configuration loader finds in local mode, and a tracked pattern is tracked from then on.
\<close>

section \<open>Hooks of the user\<close>

text \<open>A file is the user's if it has no marker, or cannot be read at all.\<close>

definition user_file :: "install_env \<Rightarrow> path \<Rightarrow> fnode \<Rightarrow> bool" where
  "user_file E p n \<longleftrightarrow> \<not> contains_str HOOK_MARKER (case hook_text E p n of Some b \<Rightarrow> b | None \<Rightarrow> [])"

definition keeps_file :: "path \<Rightarrow> fnode \<Rightarrow> 'a istep \<Rightarrow> bool" where
  "keeps_file p n m \<longleftrightarrow> (\<forall>s. map_of (it_fs s) p = Some n \<longrightarrow> map_of (it_fs (snd (m s))) p = Some n)"

named_theorems keeps

lemma keeps_file_basic [keeps, intro!]: "keeps_file p n (sret x)" "keeps_file p n (sfail e)"
  by (simp_all add: keeps_file_def)

lemma keeps_bind [keeps, intro]: "keeps_file p n m \<Longrightarrow> (\<And>x. keeps_file p n (f x)) \<Longrightarrow> keeps_file p n (sbind m f)"
  by (auto simp: keeps_file_def sbind_def split: prod.splits sum.splits)

lemma keeps_quiet [keeps, intro]: "keeps_file p n m \<Longrightarrow> keeps_file p n (quiet m)"
  by (simp add: keeps_file_def quiet_def)

lemma keeps_for [keeps, intro]: "(\<And>h. keeps_file p n (f h)) \<Longrightarrow> keeps_file p n (for_hooks f hs)"
  by (induction hs) (auto intro: keeps)

lemma effect_fs [simp]: "it_fs (git_config_effect sc args s) = it_fs s"
  by (auto simp: git_config_effect_def split: list.splits)

lemma keeps_git [keeps, intro]: "keeps_file p n (run_git_config E sc args)"
  by (auto simp: keeps_file_def run_git_config_def Let_def split: sum.splits)

lemma keeps_config [keeps, intro]:
  "keeps_file p n (set_config E sc k v)" "keeps_file p n (set_bale_config E sc k v)" "keeps_file p n (unset_config E sc k)"
  unfolding set_config_def set_bale_config_def unset_config_def Let_def by (auto intro: keeps)

lemma last_hook_tmp: "last (hook_tmp E p) = CHR ''.'' # last p @ ''.tmp.'' @ show_nat (ie_pid E)"
  by (simp add: hook_tmp_def)

lemma replace_file_other:
  assumes "replace_file F now tmp final body fs = (r, fs')" and "p \<noteq> tmp" and "p \<noteq> final"
  shows "map_of fs' p = map_of fs p"
  using assms by (auto simp: replace_file_def split: option.splits sum.splits prod.splits)

lemma keeps_install_hook [keeps]:
  assumes "user_file E p n" and "\<not> starts_with ''.'' (last p)"
  shows "keeps_file p n (install_managed_hook E repo name c d k)"
proof -
  have tmp: "p \<noteq> hook_tmp E q" for q using assms(2) last_hook_tmp [of E q] by (auto simp: starts_with_iff)
  have "map_of (it_fs (snd (install_managed_hook E repo name c d k s))) p = Some n" if "map_of (it_fs s) p = Some n" for s
  proof (cases "resolve_hook_path E repo name")
    case (Inr q)
    show ?thesis
    proof (cases "q = p")
      case True
      with Inr assms(1) that show ?thesis
        by (auto simp: install_managed_hook_def user_file_def Let_def split: option.splits on_conflict.splits)
    next
      case False
      have "map_of fs' p = Some n" if "replace_file F now (hook_tmp E q) q body (it_fs s) = (r, fs')" for F now body r fs'
        using replace_file_other [OF that tmp] False \<open>map_of (it_fs s) p = Some n\<close> by simp
      with Inr that show ?thesis
        by (auto simp: install_managed_hook_def Let_def split: option.splits on_conflict.splits prod.splits sum.splits)
    qed
  qed (use that in \<open>simp add: install_managed_hook_def\<close>)
  then show ?thesis by (simp add: keeps_file_def)
qed

lemma keeps_uninstall_hook [keeps]:
  assumes "user_file E p n"
  shows "keeps_file p n (uninstall_managed_hook E repo name)"
  using assms
  by (auto simp: keeps_file_def uninstall_managed_hook_def user_file_def Let_def split: option.splits sum.splits)


section \<open>Local mode\<close>

text \<open>The merged configuration: the narrower scope wins.\<close>

definition merged :: "(install_scope \<Rightarrow> string \<Rightarrow> string option) \<Rightarrow> snapshot" where
  "merged c k =
     (case c Scope_Local k of Some v \<Rightarrow> Some v | None \<Rightarrow>
     (case c Scope_Global k of Some v \<Rightarrow> Some v | None \<Rightarrow> c Scope_System k))"

definition put_local :: "string \<Rightarrow> string \<Rightarrow> install_state \<Rightarrow> (install_scope \<Rightarrow> string \<Rightarrow> string option)" where
  "put_local k v s = (it_config s)(Scope_Local := (it_config s Scope_Local)(k \<mapsto> v))"

lemma set_config_Inr:
  assumes "set_config E Scope_Local key v s = (Inr u, s')"
  shows "it_config s' = put_local (''filter.bale.'' @ key) v s"
  using assms
  by (auto simp: set_config_def SECTION_def run_git_config_def git_config_effect_def put_local_def sbind_def Let_def
      split: sum.splits prod.splits if_splits)

lemma set_bale_config_Inr:
  assumes "set_bale_config E Scope_Local key v s = (Inr u, s')"
  shows "it_config s' = put_local (''bale.'' @ key) v s"
  using assms
  by (auto simp: set_bale_config_def run_git_config_def git_config_effect_def put_local_def sbind_def Let_def
      split: sum.splits prod.splits if_splits)

lemma install_hook_config: "install_managed_hook E repo name c d k s = (r, s') \<Longrightarrow> it_config s' = it_config s"
  by (auto simp: install_managed_hook_def Let_def split: sum.splits option.splits on_conflict.splits prod.splits if_splits)

lemma for_hooks_config:
  assumes "\<And>h s r s'. f h s = (r, s') \<Longrightarrow> it_config s' = it_config s"
  shows "for_hooks f hs s = (r, s') \<Longrightarrow> it_config s' = it_config s"
proof (induction hs arbitrary: s r)
  case (Cons h hs)
  from Cons.prems show ?case
    by (auto simp: sbind_def split: prod.splits sum.splits dest!: assms Cons.IH)
qed simp

text \<open>What a successful switch to local mode leaves in the configuration of the repository.\<close>

lemma init_local_config:
  assumes "init_local E repo store shared s = (Inr (), s')"
  shows "it_config s' Scope_Local = (it_config s Scope_Local)(''filter.bale.process'' \<mapsto> PROCESS_VALUE,
      ''filter.bale.required'' \<mapsto> ''true'', ''bale.local'' \<mapsto> ''true'', ''bale.localStore'' \<mapsto> store,
      ''bale.localShared'' := (if shared then Some ''true'' else it_config s Scope_Local ''bale.localShared''))"
    and "sc \<noteq> Scope_Local \<Longrightarrow> it_config s' sc = it_config s sc"
proof -
  obtain s1 s2 s3 s4 s5 u1 u2 u3 u4 u5 where
    c: "set_config E Scope_Local ''process'' PROCESS_VALUE s = (Inr u1, s1)"
      "set_config E Scope_Local ''required'' ''true'' s1 = (Inr u2, s2)"
      "set_bale_config E Scope_Local ''local'' ''true'' s2 = (Inr u3, s3)"
      "set_bale_config E Scope_Local ''localStore'' store s3 = (Inr u4, s4)"
      "(if shared then set_bale_config E Scope_Local ''localShared'' ''true'' else sret ()) s4 = (Inr u5, s5)"
    and h: "for_hooks (\<lambda>hook. install_managed_hook E repo hook ''git-bale gc || true''
        ''Reclaim local-store objects for bale files that were unstaged or discarded.'' Conflict_Skip) GC_HOOKS s5 = (Inr (), s')"
    using assms unfolding init_local_def by (elim sbind_InrE)
  have "it_config s' = it_config s5" by (rule for_hooks_config [OF install_hook_config h])
  moreover have "it_config s5 = (if shared then put_local ''bale.localShared'' ''true'' s4 else it_config s4)"
    using c(5) set_bale_config_Inr [of E "''localShared''" "''true''" s4] by (cases shared) auto
  ultimately show "it_config s' Scope_Local = (it_config s Scope_Local)(''filter.bale.process'' \<mapsto> PROCESS_VALUE,
      ''filter.bale.required'' \<mapsto> ''true'', ''bale.local'' \<mapsto> ''true'', ''bale.localStore'' \<mapsto> store,
      ''bale.localShared'' := (if shared then Some ''true'' else it_config s Scope_Local ''bale.localShared''))"
    and "sc \<noteq> Scope_Local \<Longrightarrow> it_config s' sc = it_config s sc"
    using set_config_Inr [OF c(1)] set_config_Inr [OF c(2)] set_bale_config_Inr [OF c(3)] set_bale_config_Inr [OF c(4)]
    by (auto simp: put_local_def fun_eq_iff)
qed

text \<open>The process that loads the configuration has none of the overriding variables.\<close>

definition no_local_vars :: "config_env \<Rightarrow> bool" where
  "no_local_vars C \<longleftrightarrow> set_var C ''BALE_LOCAL'' = None \<and> set_var C ''BALE_LOCAL_STORE'' = None \<and> set_var C ''BALE_LOCAL_SHARED'' = None"

definition was_shared :: "install_state \<Rightarrow> bool" where
  "was_shared s \<longleftrightarrow> (case set_cfg (Some (merged (it_config s))) ''bale.localShared'' of
     Some v \<Rightarrow> ascii_lowercase (trim v) \<in> {''1'', ''true'', ''yes'', ''on''} | None \<Rightarrow> False)"

lemma trim_true: "trim ''true'' = ''true''"
  by (rule trim_graphic) (simp add: graphic_def)

lemma merged_local: "c Scope_Local k = Some v \<Longrightarrow> merged c k = Some v"
  by (simp add: merged_def)

lemma absolute_no_tilde: "starts_with ''/'' store \<Longrightarrow> expand_tilde C store = store"
  by (auto simp: expand_tilde_def strip_prefix_def starts_with_iff)

text \<open>What init-local writes is what the client reads. After a successful switch of a repository to local mode with an
  absolute store, a process without overriding variables that loads the configuration of that repository is in local mode and keeps
  its objects in that store. It takes the store for a shared one if the switch said so, and also if an earlier configuration did:
  switching again without the option does not take it back.\<close>

lemma init_local_then_load:
  assumes "init_local E repo store shared s = (Inr (), s')"
    and "starts_with ''/'' store" and "trim store = store"
    and "no_local_vars C" and "ce_discover C dir = Inr (git_dir, merged (it_config s'))"
    and "raw_load C (Some dir) = Inr raw"
  shows "rc_local_mode raw \<and> object_store_root raw = Inr (ce_path C store) \<and> (rc_local_shared raw \<longleftrightarrow> shared \<or> was_shared s)"
proof -
  let ?c = "merged (it_config s')"
  note cfg = init_local_config [OF assms(1)]
  have "?c ''bale.local'' = Some ''true''" "?c ''bale.localStore'' = Some store"
    by (rule merged_local, simp add: cfg(1))+
  then have keys: "set_cfg (Some ?c) ''bale.local'' = Some ''true''" "set_cfg (Some ?c) ''bale.localStore'' = Some store"
    using assms(2,3) by (auto simp: set_cfg_def trim_true starts_with_iff)
  have "?c ''bale.localShared'' = (if shared then Some ''true'' else merged (it_config s) ''bale.localShared'')"
    using cfg(2) [of Scope_Global] cfg(2) [of Scope_System] by (simp add: merged_def cfg(1) split: option.split)
  then have shared: "set_cfg (Some ?c) ''bale.localShared'' =
      (if shared then Some ''true'' else set_cfg (Some (merged (it_config s))) ''bale.localShared'')"
    by (simp add: set_cfg_def trim_true)
  have low: "ascii_lowercase ''true'' = ''true''" by (simp add: ascii_lowercase_def)
  have "rc_local_mode raw" "rc_local_store raw = Some (ce_path C store)"
      "rc_local_shared raw = bool_from C ''BALE_LOCAL_SHARED'' (Some ?c) ''bale.localShared''"
    using assms(4,5,6) keys absolute_no_tilde [OF assms(2), of C]
    by (auto simp: raw_load_def Let_def rbind_eq_Inr bool_from_def env_or_cfg_def no_local_vars_def trim_true low)
  then show ?thesis
    using assms(4) shared
    by (auto simp: object_store_root_def bool_from_def env_or_cfg_def no_local_vars_def was_shared_def trim_true low)
qed

text \<open>If the registration fails, the command fails, but the repository is already in local mode with the shared store, which does not
  know of it.\<close>

lemma failed_registration_leaves_shared_mode:
  assumes "ce_cwd (ie_cfg E) = Some cwd" and "resolve_init_store (ie_cfg E) cwd arg True = Inr store"
    and "init_local E (Some cwd) store True s = (Inr (), s1)" and "repo_git_dir (ie_cfg E) cwd = Inr gd"
    and "register_repo R (ie_pid E) (ie_now E) (ce_path (ie_cfg E) store) (ce_path (ie_cfg E) gd) (it_fs s1) = (Inl e, fs)"
  shows "init_local_command E R arg True s = (Inl e, s1\<lparr>it_fs := fs\<rparr>)"
    and "it_config (s1\<lparr>it_fs := fs\<rparr>) Scope_Local ''bale.localShared'' = Some ''true''"
  using assms init_local_config(1) [OF assms(3)] by (simp_all add: init_local_command_def)

section \<open>Examples\<close>

definition ex_setup_config :: config_env where
  "ex_setup_config = \<lparr>ce_var = (\<lambda>v. if v = ''HOME'' then Some ''/h'' else None), ce_cwd = Some ''/w'',
     ce_discover = (\<lambda>_. Inr (''/w/.git'', \<lambda>_. None)), ce_path = path_of_text, ce_now = 0\<rparr>"

definition ex_setup :: install_env where
  "ex_setup = \<lparr>ie_cfg = ex_setup_config, ie_git = (\<lambda>_. Inr (Some 0, [])), ie_save = (\<lambda>_. calm_save), ie_readable = (\<lambda>_. True),
     ie_chmod = (\<lambda>_. None), ie_unlink = (\<lambda>_. None), ie_text = (\<lambda>_. []), ie_pid = 1, ie_now = 0\<rparr>"

definition ex_user_hook :: fnode where
  "ex_user_hook = \<lparr>fn_body = as_bytes ''exit 0'', fn_mtime = 0\<rparr>"

definition ex_setup_state :: install_state where
  "ex_setup_state = \<lparr>it_config = (\<lambda>_ _. None), it_fs = [([''w'', ''.git'', ''hooks'', ''pre-push''], ex_user_hook)], it_tick = 0\<rparr>"


text \<open>The repository is switched to a store of its own, and read back.\<close>

lemma ex_hook_free:
  "\<exists>s'. install_managed_hook ex_setup repo name c d Conflict_Skip s = (Inr (), s')"
  by (auto simp: install_managed_hook_def ex_setup_def ex_setup_config_def resolve_hook_path_def set_cfg_def calm_save_def
      replace_file_def Let_def split: option.splits)

lemma ex_for_hooks: "\<exists>s'. for_hooks (\<lambda>hook. install_managed_hook ex_setup repo hook c d Conflict_Skip) hs s = (Inr (), s')"
proof (induction hs arbitrary: s)
  case (Cons h hs)
  obtain s1 where "install_managed_hook ex_setup repo h c d Conflict_Skip s = (Inr (), s1)" using ex_hook_free by blast
  with Cons.IH [of s1] show ?case by simp
qed simp

lemma ex_set_config: "\<exists>s'. set_config ex_setup sc k v s = (Inr (), s')" "\<exists>s'. set_bale_config ex_setup sc k v s = (Inr (), s')"
  by (simp_all add: set_config_def set_bale_config_def run_git_config_def ex_setup_def sbind_def Let_def)

lemma ex_init_local: "\<exists>s'. init_local ex_setup repo store False s = (Inr (), s')"
proof -
  obtain s1 where 1: "set_config ex_setup Scope_Local ''process'' PROCESS_VALUE s = (Inr (), s1)" using ex_set_config(1) by blast
  obtain s2 where 2: "set_config ex_setup Scope_Local ''required'' ''true'' s1 = (Inr (), s2)" using ex_set_config(1) by blast
  obtain s3 where 3: "set_bale_config ex_setup Scope_Local ''local'' ''true'' s2 = (Inr (), s3)" using ex_set_config(2) by blast
  obtain s4 where 4: "set_bale_config ex_setup Scope_Local ''localStore'' store s3 = (Inr (), s4)" using ex_set_config(2) by blast
  show ?thesis unfolding init_local_def using 1 2 3 4 ex_for_hooks by simp
qed

definition ex_reload :: "install_state \<Rightarrow> config_env" where
  "ex_reload s = ex_setup_config\<lparr>ce_discover := (\<lambda>_. Inr (''/w/.git'', merged (it_config s)))\<rparr>"

lemma init_local_then_load_example:
  "\<exists>s' raw. init_local ex_setup (Some ''/w'') ''/w/store'' False ex_setup_state = (Inr (), s') \<and>
     raw_load (ex_reload s') (Some ''/w'') = Inr raw \<and> rc_local_mode raw \<and>
     object_store_root raw = Inr (path_of_text ''/w/store'') \<and> \<not> rc_local_shared raw"
proof -
  obtain s' where s': "init_local ex_setup (Some ''/w'') ''/w/store'' False ex_setup_state = (Inr (), s')"
    using ex_init_local by blast
  let ?C = "ex_reload s'"
  have vars: "set_var ?C v = (if v = ''HOME'' then Some ''/h'' else None)" for v
    by (simp add: set_var_def ex_reload_def ex_setup_config_def)
  have "it_config s' sc k = None" if "k \<in> {''bale.tokenExpiration'', ''bale.cacheDir''}" for sc k
    using that init_local_config [OF s'] by (cases "sc = Scope_Local") (auto simp: ex_setup_state_def)
  then have none: "set_cfg (Some (merged (it_config s'))) ''bale.tokenExpiration'' = None"
      "set_cfg (Some (merged (it_config s'))) ''bale.cacheDir'' = None"
    by (simp_all add: set_cfg_def merged_def)
  have disc: "ce_discover ?C d = Inr (''/w/.git'', merged (it_config s'))" for d by (simp add: ex_reload_def)
  have "\<exists>raw. raw_load ?C (Some ''/w'') = Inr raw"
    by (simp add: raw_load_def resolve_cache_dir_def env_or_cfg_def cache_base_def Let_def disc vars none)
  then obtain raw where raw: "raw_load ?C (Some ''/w'') = Inr raw" by blast
  have "trim ''/w/store'' = ''/w/store''" by (rule trim_graphic) (simp add: graphic_def)
  then have "rc_local_mode raw \<and>
      object_store_root raw = Inr (ce_path ?C ''/w/store'') \<and> (rc_local_shared raw \<longleftrightarrow> False \<or> was_shared ex_setup_state)"
    by (intro init_local_then_load [OF s' _ _ _ disc raw]) (simp_all add: starts_with_def no_local_vars_def vars)
  moreover have "\<not> was_shared ex_setup_state" "ce_path ?C = path_of_text"
    by (simp_all add: was_shared_def set_cfg_def merged_def ex_setup_state_def ex_reload_def ex_setup_config_def)
  ultimately show ?thesis using s' raw by auto
qed

end
