(* ===== verification/Track.thy ===== *)
theory Track
  imports Install
begin

text \<open>
  What \<open>track\<close> does to \<open>.gitattributes\<close>: without faults every pattern of printable characters is tracked from then on, nothing that was in
  the file changes, and a second run adds nothing.
\<close>

section \<open>Lines\<close>

lemma split_on_append: "split_on c (s @ c # t) = split_on c s @ split_on c t"
  by (induction s) (auto split: list.splits)

lemma split_on_extend: "c \<notin> set t \<Longrightarrow> split_on c (s @ t) = butlast (split_on c s) @ [last (split_on c s) @ t]"
proof (induction s)
  case Nil
  then show ?case by (induction t) auto
next
  case (Cons x s)
  then show ?case by (cases "split_on c s") auto
qed

lemma split_on_single: "split_on c s = [w] \<Longrightarrow> w = s"
  by (induction s arbitrary: w) (auto split: list.splits if_splits)

lemma last_split_on: "\<exists>u. s = u @ last (split_on c s)"
proof (induction s)
  case (Cons x s)
  then obtain u where u: "s = u @ last (split_on c s)" by blast
  show ?case
  proof (cases "split_on c s")
    case (Cons w ws)
    show ?thesis
    proof (cases "x \<noteq> c \<and> ws = []")
      case True
      with Cons split_on_single [of c s w] show ?thesis by simp
    next
      case False
      with Cons u show ?thesis by (intro exI [of _ "x # u"]) auto
    qed
  qed simp
qed simp

lemma lines_of_closed: "lines_of (x @ CHR 0x0A # y) = map drop_cr (split_on (CHR 0x0A) x) @ lines_of y"
  by (simp add: lines_of_def Let_def split_on_append butlast_append)

lemma lines_of_nil [simp]: "lines_of [] = []"
  by (simp add: lines_of_def)

lemma line_in:
  assumes "x = [] \<or> last x = CHR 0x0A" and "CHR 0x0A \<notin> set l" and "drop_cr l = l"
  shows "l \<in> set (lines_of (x @ l @ CHR 0x0A # y))"
proof -
  have l: "l \<in> set (lines_of (l @ CHR 0x0A # y))"
    using split_on_extend [OF assms(2), of "[]"] assms(3) by (simp add: lines_of_closed)
  show ?thesis
  proof (cases "x = []")
    case False
    then obtain x' where "x = x' @ [CHR 0x0A]" using assms(1) by (metis append_butlast_last_id)
    with l show ?thesis by (simp add: lines_of_closed)
  qed (use l in simp)
qed

section \<open>The file after a run\<close>

definition calm_track :: "track_env \<Rightarrow> bool" where
  "calm_track T \<longleftrightarrow> tk_read T = None \<and> tk_open T = None \<and> (\<forall>k. tk_write T k = None)"

definition track_line :: "string \<Rightarrow> string" where
  "track_line q = trim q @ '' '' @ FILTER_SUFFIX"

definition new_lines :: "string \<Rightarrow> string list \<Rightarrow> string" where
  "new_lines existing ps =
     concat (map (\<lambda>q. track_line q @ [CHR 0x0A]) (filter (\<lambda>q. trim q \<noteq> [] \<and> \<not> pattern_already_tracked existing (trim q)) ps))"

definition closed_text :: "string \<Rightarrow> string" where
  "closed_text existing = existing @
     (if existing \<noteq> [] \<and> \<not> ends_with [CHR 0x0A] existing
      then if contains_str [CHR 0x0D, CHR 0x0A] existing then [CHR 0x0D, CHR 0x0A] else [CHR 0x0A] else [])"

lemma track_patterns_calm:
  "calm_track T \<Longrightarrow> track_patterns T existing ps k body = (Inr (), body @ as_bytes (new_lines existing ps))"
  by (induction ps arbitrary: k body) (simp_all add: new_lines_def append_text_def calm_track_def track_line_def as_bytes_def Let_def)

lemma track_body_calm:
  assumes "calm_track T"
  shows "track_body T existing ps (as_bytes existing) = (Inr (), as_bytes (closed_text existing @ new_lines existing ps))"
  using assms track_patterns_calm [OF assms]
  by (auto simp: track_body_def closed_text_def Let_def append_text_def calm_track_def as_bytes_def)

lemma closed_text_ends: "closed_text existing = [] \<or> last (closed_text existing) = CHR 0x0A"
  by (auto simp: closed_text_def ends_with_iff)

text \<open>Nothing that was tracked is lost, if the file does not end with a lone carriage return.\<close>

lemma closed_text_lines:
  assumes "\<not> ends_with [CHR 0x0D] existing"
  shows "set (lines_of existing) \<subseteq> set (lines_of (closed_text existing @ y))"
proof (cases "existing = [] \<or> ends_with [CHR 0x0A] existing")
  case True
  then consider "existing = []" | x where "existing = x @ [CHR 0x0A]" by (auto simp: ends_with_iff)
  then show ?thesis
    by cases (simp_all add: closed_text_def ends_with_iff lines_of_closed)
next
  case False
  let ?ls = "split_on (CHR 0x0A) existing"
  obtain u where u: "existing = u @ last ?ls" using last_split_on [of existing "CHR 0x0A"] by (elim exE)
  have cr: "drop_cr (last ?ls) = last ?ls"
  proof (cases "ends_with [CHR 0x0D] (last ?ls)")
    case True
    then obtain v where "last ?ls = v @ [CHR 0x0D]" by (auto simp: ends_with_iff)
    with u have "existing = (u @ v) @ [CHR 0x0D]" by simp
    with assms show ?thesis by (simp add: ends_with_iff)
  qed (simp add: drop_cr_def strip_suffix_def)
  have ls: "map drop_cr ?ls = map drop_cr (butlast ?ls) @ [last ?ls]"
  proof -
    have "map drop_cr (butlast ?ls @ [last ?ls]) = map drop_cr (butlast ?ls) @ [last ?ls]"
      using cr by (simp only: map_append list.map)
    then show ?thesis by (simp only: append_butlast_last_id [OF split_on_nonempty])
  qed
  have old: "set (lines_of existing) \<subseteq> set (map drop_cr (butlast ?ls) @ [last ?ls])"
    by (auto simp: lines_of_def Let_def)
  show ?thesis
  proof (cases "contains_str [CHR 0x0D, CHR 0x0A] existing")
    case True
    have "drop_cr (last ?ls @ [CHR 0x0D]) = last ?ls"
      by (simp add: drop_cr_def strip_suffix_def ends_with_iff)
    moreover have "closed_text existing @ y = (existing @ [CHR 0x0D]) @ CHR 0x0A # y"
      using True False by (simp add: closed_text_def)
    ultimately have "lines_of (closed_text existing @ y) = (map drop_cr (butlast ?ls) @ [last ?ls]) @ lines_of y"
      by (simp only: lines_of_closed split_on_extend) (simp add: split_on_extend)
    with old show ?thesis by auto
  next
    case noCR: False
    then have "closed_text existing @ y = existing @ CHR 0x0A # y" using False by (simp add: closed_text_def)
    then have "lines_of (closed_text existing @ y) = (map drop_cr (butlast ?ls) @ [last ?ls]) @ lines_of y"
      by (simp only: lines_of_closed ls)
    with old show ?thesis by auto
  qed
qed

lemma tracked_mono: "set (lines_of a) \<subseteq> set (lines_of b) \<Longrightarrow> pattern_already_tracked a q \<Longrightarrow> pattern_already_tracked b q"
  unfolding pattern_already_tracked_def by blast

section \<open>A tracked line\<close>

text \<open>Patterns of printable characters that do not look like a comment.\<close>

definition plain_pattern :: "string \<Rightarrow> bool" where
  "plain_pattern q \<longleftrightarrow> trim q \<noteq> [] \<and> list_all graphic (trim q) \<and> hd (trim q) \<noteq> CHR ''#''"

lemma ws_len_graphic_head: "graphic c \<Longrightarrow> ws_len (c # s) = 0" "graphic c \<Longrightarrow> ws_len_rev (c # s) = 0"
proof -
  assume g: "graphic c"
  have n: "\<not> ws2 m (of_char c)" "\<not> ws3 m k (of_char c)" for m k :: nat
    using g unfolding graphic_def ws2_def ws3_def by linarith+
  show "ws_len (c # s) = 0" "ws_len_rev (c # s) = 0"
    using graphic_not_ws [OF g] n by (auto simp: ws_len_def ws_len_rev_def split: list.split)
qed

lemma split_ws_word: "list_all graphic t \<Longrightarrow> split_ws cur (t @ s) = split_ws (cur @ t) s"
proof (induction t arbitrary: cur)
  case (Cons c t)
  then show ?case by (simp add: split_ws.simps [of cur "c # t @ s"] ws_len_graphic_head)
qed simp

lemma split_ws_space: "split_ws cur (CHR '' '' # s) = (if cur = [] then [] else [cur]) @ split_ws [] s"
  by (simp add: split_ws.simps [of cur "CHR '' '' # s"] ws_len_def ws1_def)

lemma split_ws_end: "split_ws cur [] = (if cur = [] then [] else [cur])"
  by (simp add: split_ws.simps)

lemma graphic_suffix: "list_all graphic ''filter=bale''" "list_all graphic ''-text''"
  by (simp_all add: graphic_def)

lemma track_line_words:
  assumes "plain_pattern q"
  shows "split_ws [] (track_line q) = [trim q, ''filter=bale'', ''-text'']"
proof -
  have "track_line q = trim q @ CHR '' '' # ''filter=bale'' @ CHR '' '' # ''-text'' @ []"
    by (simp add: track_line_def FILTER_SUFFIX_def)
  then show ?thesis
    using assms unfolding plain_pattern_def
    by (simp only: split_ws_word [OF graphic_suffix(1)] split_ws_word [OF graphic_suffix(2)] split_ws_word split_ws_space
        split_ws_end append_Nil) simp
qed

lemma track_line_trim:
  assumes "plain_pattern q"
  shows "trim (track_line q) = track_line q"
proof -
  obtain c t where t: "trim q = c # t" "graphic c" using assms by (cases "trim q") (auto simp: plain_pattern_def)
  have "trim_by ws_len (track_line q) = track_line q"
    by (subst trim_by.simps) (simp add: track_line_def t ws_len_graphic_head)
  moreover have "\<exists>r. rev (track_line q) = CHR ''t'' # r" by (simp add: track_line_def FILTER_SUFFIX_def)
  then have "trim_by ws_len_rev (rev (track_line q)) = rev (track_line q)"
    by (subst trim_by.simps) (auto simp: ws_len_graphic_head graphic_def)
  ultimately show ?thesis by (simp add: trim_def)
qed

lemma track_line_tracked:
  assumes "plain_pattern q" and "track_line q \<in> set (lines_of s)"
  shows "pattern_already_tracked s (trim q)"
proof -
  have "track_line q \<noteq> []" "\<not> starts_with ''#'' (track_line q)"
    using assms(1) by (cases "trim q"; auto simp: track_line_def plain_pattern_def starts_with_iff)+
  with assms(2) track_line_trim [OF assms(1)] track_line_words [OF assms(1)] show ?thesis
    unfolding pattern_already_tracked_def by (intro bexI [of _ "track_line q"]) (simp_all add: Let_def)
qed

lemma new_lines_ends: "new_lines existing ps = [] \<or> last (new_lines existing ps) = CHR 0x0A"
  unfolding new_lines_def by (induction ps) auto

lemma joined_ends:
  fixes a b :: string
  assumes "a = [] \<or> last a = CHR 0x0A" and "b = [] \<or> last b = CHR 0x0A"
  shows "a @ b = [] \<or> last (a @ b) = CHR 0x0A"
  using assms by (cases "b = []") simp_all

lemma closed_text_id: "t = [] \<or> last t = CHR 0x0A \<Longrightarrow> closed_text t = t"
  by (cases t rule: rev_cases) (simp_all add: closed_text_def ends_with_iff)

lemma new_line_in:
  assumes "plain_pattern q" and "q \<in> set ps" and "\<not> pattern_already_tracked existing (trim q)"
  shows "track_line q \<in> set (lines_of (closed_text existing @ new_lines existing ps))"
proof -
  obtain xs ys where ps: "ps = xs @ q # ys" using assms(2) by (meson in_set_conv_decomp)
  have "new_lines existing ps = new_lines existing xs @ (track_line q @ CHR 0x0A # new_lines existing ys)"
    using assms(1,3) by (simp add: ps new_lines_def plain_pattern_def)
  moreover have "CHR 0x0A \<notin> set (track_line q)"
    using assms(1) by (auto simp: track_line_def FILTER_SUFFIX_def plain_pattern_def list_all_iff graphic_def)
  moreover have "drop_cr (track_line q) = track_line q"
    by (auto simp: drop_cr_def strip_suffix_def track_line_def FILTER_SUFFIX_def ends_with_iff)
  ultimately show ?thesis
    using line_in [OF joined_ends [OF closed_text_ends new_lines_ends]] by (metis append_assoc)
qed

lemma tracked_after:
  assumes "list_all plain_pattern ps" and "\<not> ends_with [CHR 0x0D] existing" and "q \<in> set ps"
  shows "pattern_already_tracked (closed_text existing @ new_lines existing ps) (trim q)"
proof (cases "pattern_already_tracked existing (trim q)")
  case True
  with tracked_mono [OF closed_text_lines [OF assms(2)]] show ?thesis by blast
next
  case False
  have "plain_pattern q" using assms(1,3) by (simp add: list_all_iff)
  with track_line_tracked new_line_in [OF this assms(3) False] show ?thesis by blast
qed

text \<open>The text of the file, if it is one.\<close>

definition attrs_text :: "path \<Rightarrow> fs \<Rightarrow> string option" where
  "attrs_text repo fs = (case map_of fs (repo @ [''.gitattributes'']) of None \<Rightarrow> Some [] | Some n \<Rightarrow> from_utf8 (fn_body n))"

lemma from_utf8_bytes: "from_utf8 b = Some t \<Longrightarrow> as_bytes t = b"
  by (auto simp: from_utf8_def split: if_splits)

lemma track_calm:
  assumes "calm_track T" and "attrs_text repo fs = Some existing"
  shows "track T now repo ps fs = (Inr (), put_file (repo @ [''.gitattributes''])
    \<lparr>fn_body = as_bytes (closed_text existing @ new_lines existing ps), fn_mtime = now\<rparr> fs)"
proof -
  have "(case map_of fs (repo @ [''.gitattributes'']) of Some n \<Rightarrow> fn_body n | None \<Rightarrow> []) = as_bytes existing"
    using assms(2) by (auto simp: attrs_text_def as_bytes_def [of "[]"] dest!: from_utf8_bytes split: option.splits)
  with assms track_body_calm [OF assms(1), of existing ps] show ?thesis
    by (auto simp: track_def attrs_text_def calm_track_def with_context_def Let_def split: option.splits)
qed

text \<open>What is appended is ASCII, so the file stays text.\<close>

lemma ascii_bytes: "list_all (\<lambda>c. (of_char c :: nat) < 128) t \<Longrightarrow> utf8_valid (as_bytes t)"
proof (rule utf8_valid_ascii)
  have "(word_of_nat (of_char c) :: u8) < 0x80" if "(of_char c :: nat) < 128" for c :: char
    using that by (simp add: word_less_nat_alt unat_of_nat)
  then show "list_all (\<lambda>c. (of_char c :: nat) < 128) t \<Longrightarrow> list_all (\<lambda>b. b < 0x80) (as_bytes t)"
    by (auto simp: as_bytes_def list_all_iff)
qed

lemma new_lines_ascii:
  assumes "list_all plain_pattern ps"
  shows "list_all (\<lambda>c. (of_char c :: nat) < 128) (new_lines existing ps)"
proof -
  have "(of_char c :: nat) < 128" if "q \<in> set ps" "c \<in> set (track_line q @ [CHR 0x0A])" for q c
  proof -
    have "plain_pattern q" using assms that(1) by (simp add: list_all_iff)
    then have "graphic c \<or> c = CHR '' '' \<or> c = CHR 0x0A"
      using that(2) graphic_suffix by (auto simp: track_line_def FILTER_SUFFIX_def plain_pattern_def list_all_iff)
    then show ?thesis by (auto simp: graphic_def)
  qed
  then show ?thesis by (auto simp: new_lines_def list_all_iff)
qed

lemma text_after:
  assumes "utf8_valid (as_bytes existing)" and "list_all plain_pattern ps"
  shows "from_utf8 (as_bytes (closed_text existing @ new_lines existing ps)) = Some (closed_text existing @ new_lines existing ps)"
proof -
  obtain e where e: "closed_text existing = existing @ e" "list_all (\<lambda>c. (of_char c :: nat) < 128) e"
    by (simp add: closed_text_def)
  have "list_all (\<lambda>c. (of_char c :: nat) < 128) (e @ new_lines existing ps)"
    using e(2) new_lines_ascii [OF assms(2)] by simp
  from utf8_valid_append [OF assms(1) ascii_bytes [OF this]] have "utf8_valid (as_bytes (closed_text existing @ new_lines existing ps))" by (simp add: e(1))
  then show ?thesis by (simp only: from_utf8_def if_True str_of_as_bytes)
qed

text \<open>Tracking works and is idempotent. Without faults, on a text file that does not end with a lone carriage return, and for
  patterns of printable characters that do not start with a number sign, the command keeps the file as a prefix, afterwards finds every
  pattern tracked, and run again leaves the text as it is.\<close>

lemma track_is_idempotent:
  assumes "calm_track T" and "attrs_text repo fs = Some existing" and "\<not> ends_with [CHR 0x0D] existing"
    and "list_all plain_pattern ps"
  shows "\<exists>fs' fs'' added. track T now repo ps fs = (Inr (), fs') \<and> attrs_text repo fs' = Some (existing @ added) \<and>
    (\<forall>q \<in> set ps. pattern_already_tracked (existing @ added) (trim q)) \<and>
    track T now' repo ps fs' = (Inr (), fs'') \<and> attrs_text repo fs'' = Some (existing @ added)"
proof -
  let ?t = "closed_text existing @ new_lines existing ps" and ?p = "repo @ [''.gitattributes'']"
  let ?fs = "put_file ?p \<lparr>fn_body = as_bytes ?t, fn_mtime = now\<rparr> fs"
  let ?fs' = "put_file ?p \<lparr>fn_body = as_bytes ?t, fn_mtime = now'\<rparr> ?fs"
  obtain added where added: "?t = existing @ added" by (simp add: closed_text_def)
  have tracked: "\<forall>q \<in> set ps. pattern_already_tracked ?t (trim q)" using tracked_after assms(3,4) by blast
  have "utf8_valid (as_bytes existing)"
    using assms(2) by (auto simp: attrs_text_def from_utf8_def as_bytes_def [of "[]"] split: option.splits if_splits)
  note utf8 = text_after [OF this assms(4)]
  have attrs: "attrs_text repo ?fs = Some ?t" "attrs_text repo ?fs' = Some ?t"
    using utf8 by (simp_all only: attrs_text_def map_of_put_file if_True option.case fnode.simps simp_thms)
  have "new_lines ?t ps = []" using tracked by (auto simp: new_lines_def)
  then have "track T now' repo ps ?fs = (Inr (), ?fs')"
    using track_calm [OF assms(1) attrs(1), of now' ps] closed_text_id [OF joined_ends [OF closed_text_ends new_lines_ends]]
    by simp
  with track_calm [OF assms(1,2), of now ps] tracked attrs show ?thesis unfolding added by blast
qed

definition ex_track :: track_env where
  "ex_track = \<lparr>tk_read = None, tk_open = None, tk_write = (\<lambda>_. None), tk_text = (\<lambda>_. [])\<rparr>"

lemma track_is_idempotent_example:
  "\<exists>fs' fs'' added. track ex_track 1 [''r''] [''*.bin''] [] = (Inr (), fs') \<and> attrs_text [''r''] fs' = Some ([] @ added) \<and>
    (\<forall>q \<in> set [''*.bin'']. pattern_already_tracked ([] @ added) (trim q)) \<and>
    track ex_track 2 [''r''] [''*.bin''] fs' = (Inr (), fs'') \<and> attrs_text [''r''] fs'' = Some ([] @ added)"
proof (rule track_is_idempotent)
  show "list_all plain_pattern [''*.bin'']"
    by (simp add: plain_pattern_def trim_graphic graphic_def)
qed (simp_all add: calm_track_def ex_track_def attrs_text_def ends_with_iff)

text \<open>A pattern with a space in it is taken for a pattern and an attribute: its line is never found again.\<close>

lemma split_ws_no_space: "w \<in> set (split_ws cur l) \<Longrightarrow> CHR '' '' \<notin> set cur \<Longrightarrow> CHR '' '' \<notin> set w"
proof (induction cur l rule: split_ws.induct)
  case (1 cur s)
  show ?case
  proof (cases "s = [] \<or> ws_len s \<noteq> 0")
    case True
    with 1 show ?thesis by (auto simp: split_ws.simps [of cur s] split: if_splits)
  next
    case False
    then have "hd s \<noteq> CHR '' ''" by (cases s) (auto simp: ws_len_def ws1_def)
    with 1 False show ?thesis by (auto simp: split_ws.simps [of cur s] split: if_splits)
  qed
qed

lemma spaced_pattern_never_tracked: "CHR '' '' \<in> set q \<Longrightarrow> \<not> pattern_already_tracked s q"
proof
  assume "pattern_already_tracked s q" and sp: "CHR '' '' \<in> set q"
  then obtain l where "case split_ws [] (trim l) of [] \<Rightarrow> False | first # parts \<Rightarrow> first = q \<and> ''filter=bale'' \<in> set parts"
    unfolding pattern_already_tracked_def Let_def by blast
  then have "q \<in> set (split_ws [] (trim l))" by (cases "split_ws [] (trim l)") auto
  from split_ws_no_space [OF this] sp show False by simp
qed

end
