(* ===== verification/Server_Start.thy ===== *)
theory Server_Start
  imports Http_Server Blob_S3 Authz
begin

text \<open>
  How the server starts, \<open>bale-server-bin/src/main.rs\<close>: the settings it reads from the environment, the checks on them, and the
  stores and the authorization they select; with the set-up of telemetry, \<open>telemetry.rs\<close>, and the construction of the upstream authorization, \<open>bale-server-authz-http\<close>. The
  environment, the libraries for hexadecimal text and URLs are parameters. Binding the socket, opening the databases and serving are
  not part of it.
\<close>

section \<open>Upstream authorization\<close>

record 'u url_lib =
  ul_parse :: "string \<Rightarrow> string + 'u"
  ul_scheme :: "'u \<Rightarrow> string"
  ul_path :: "'u \<Rightarrow> string"
  ul_set_path :: "string \<Rightarrow> 'u \<Rightarrow> 'u"
  ul_join :: "'u \<Rightarrow> string \<Rightarrow> string + 'u"

definition build_check_access_url :: "'u url_lib \<Rightarrow> string \<Rightarrow> core_error + 'u" where
  "build_check_access_url U base_url =
     rbind (rmap_err (\<lambda>e. Internal (''invalid authz base_url: '' @ e)) (ul_parse U (trim_end_matches (CHR ''/'') base_url))) (\<lambda>base.
     if ul_scheme U base \<notin> {''http'', ''https''} then Inl (Internal (''invalid authz base_url scheme: '' @ ul_scheme U base))
     else
       let base = (if ends_with ''/'' (ul_path U base) then base else ul_set_path U (ul_path U base @ ''/'') base)
       in rmap_err (\<lambda>e. Internal (''invalid authz base_url: '' @ e)) (ul_join U base ''check_access''))"

record 'u http_authz =
  ha_check_access_url :: 'u
  ha_jwt_secret :: bytes

definition http_authz_new :: "'u url_lib \<Rightarrow> string option \<Rightarrow> string \<Rightarrow> bytes \<Rightarrow> core_error + 'u http_authz" where
  "http_authz_new U client_error base_url secret =
     (case client_error of
        Some e \<Rightarrow> Inl (Internal (''http client init: '' @ e))
      | None \<Rightarrow>
          rbind (build_check_access_url U base_url) (\<lambda>url. Inr \<lparr>ha_check_access_url = url, ha_jwt_secret = secret\<rparr>))"

section \<open>Settings\<close>

record start_env =
  se_var :: "string \<Rightarrow> string option"
  se_hex_decode :: "string \<Rightarrow> bytes option"
  se_span_exporter :: "string \<Rightarrow> string option"
  se_metric_exporter :: "string \<Rightarrow> string option"

datatype meta_choice = Meta_Postgres_At string | Meta_Sqlite_At string

datatype blob_choice = Blobs_S3 s3_store | Blobs_Fs string

datatype 'u authz_choice = Authz_Http "'u http_authz" | Authz_Config config_authz

record 'u start_config =
  ss_listen :: string
  ss_public_url :: string
  ss_jwt_secret :: bytes
  ss_transfer_secret :: bytes
  ss_default_quota :: "nat option"
  ss_admin_token :: "bytes option"
  ss_data_root :: string
  ss_meta :: meta_choice
  ss_blobs :: blob_choice
  ss_authz :: "'u authz_choice"

definition var_or :: "start_env \<Rightarrow> string \<Rightarrow> string \<Rightarrow> string" where
  "var_or S name dflt = (case se_var S name of Some v \<Rightarrow> v | None \<Rightarrow> dflt)"

definition is_loopback :: "string \<Rightarrow> bool" where
  "is_loopback host \<longleftrightarrow> host \<in> {''127.0.0.1'', ''localhost'', ''::1'', ''[::1]''}"

definition env_truthy :: "start_env \<Rightarrow> string \<Rightarrow> bool" where
  "env_truthy S name \<longleftrightarrow> se_var S name \<in> {Some ''1'', Some ''true'', Some ''TRUE'', Some ''yes'', Some ''YES''}"

definition decode_hex_env :: "start_env \<Rightarrow> string \<Rightarrow> string + bytes" where
  "decode_hex_env S name =
     rbind (ok_or (name @ '' not set'') (se_var S name)) (\<lambda>v.
       ok_or (name @ '' is not valid hex'') (se_hex_decode S (trim v)))"

text \<open>The address in signed URLs, and whether the server warns that it may not resolve for clients.\<close>

definition public_url_of :: "start_env \<Rightarrow> string \<Rightarrow> string \<times> bool" where
  "public_url_of S listen =
     (case se_var S ''BALE_PUBLIC_URL'' of
        Some v \<Rightarrow> (v, False)
      | None \<Rightarrow> (''http://'' @ listen, \<not> is_loopback (hd (split_on (CHR '':'') listen))))"

definition s3_config_of :: "start_env \<Rightarrow> string \<Rightarrow> s3_config" where
  "s3_config_of S bucket =
     \<lparr>sc_bucket = bucket, sc_region = se_var S ''BALE_S3_REGION'', sc_endpoint_url = se_var S ''BALE_S3_ENDPOINT_URL'',
      sc_public_endpoint_url = (case se_var S ''BALE_S3_PUBLIC_ENDPOINT_URL'' of
          Some s \<Rightarrow> if s \<noteq> [] then Some s else None | None \<Rightarrow> None),
      sc_force_path_style = env_truthy S ''BALE_S3_FORCE_PATH_STYLE'', sc_prefix = var_or S ''BALE_S3_PREFIX'' [],
      sc_access_key_id = se_var S ''BALE_S3_ACCESS_KEY_ID'', sc_secret_access_key = se_var S ''BALE_S3_SECRET_ACCESS_KEY'',
      sc_session_token = se_var S ''BALE_S3_SESSION_TOKEN'', sc_disable_sse = env_truthy S ''BALE_S3_DISABLE_SSE''\<rparr>"

definition choose_blobs :: "start_env \<Rightarrow> (core_error \<Rightarrow> string) \<Rightarrow> string \<Rightarrow> string + blob_choice" where
  "choose_blobs S shown data_root =
     (case se_var S ''BALE_S3_BUCKET'' of
        Some bucket \<Rightarrow>
          if bucket = [] then Inl ''BALE_S3_BUCKET is set but empty''
          else map_sum (\<lambda>e. ''core error: '' @ shown e) Blobs_S3 (s3_open (s3_config_of S bucket))
      | None \<Rightarrow> Inr (Blobs_Fs data_root))"

definition choose_meta :: "start_env \<Rightarrow> string \<Rightarrow> string + meta_choice" where
  "choose_meta S db_path =
     (case se_var S ''BALE_POSTGRES_URL'' of
        Some u \<Rightarrow> if trim u = [] then Inl ''BALE_POSTGRES_URL is set but empty'' else Inr (Meta_Postgres_At (trim u))
      | None \<Rightarrow> Inr (Meta_Sqlite_At db_path))"

section \<open>Telemetry\<close>

text \<open>Where the exporters of spans and of metrics send to, from \<open>telemetry.rs\<close>. Building an exporter may fail with an error.\<close>

record telemetry_guard =
  tg_tracer_provider :: "string option"
  tg_meter_provider :: "string option"

definition signal_endpoint :: "start_env \<Rightarrow> string \<Rightarrow> string \<Rightarrow> string option" where
  "signal_endpoint S per_signal_var signal_path =
     (case (case se_var S per_signal_var of Some v \<Rightarrow> if trim v \<noteq> [] then Some (trim v) else None | None \<Rightarrow> None) of
        Some v \<Rightarrow> Some v
      | None \<Rightarrow>
          (case se_var S ''OTEL_EXPORTER_OTLP_ENDPOINT'' of
             None \<Rightarrow> None
           | Some base \<Rightarrow> if trim base = [] then None else Some (trim_end_matches (CHR ''/'') (trim base) @ signal_path)))"

definition build_exporter :: "string \<Rightarrow> (string \<Rightarrow> string option) \<Rightarrow> string option \<Rightarrow> string + string option" where
  "build_exporter what build endpoint =
     (case endpoint of
        None \<Rightarrow> Inr None
      | Some e \<Rightarrow> (case build e of Some err \<Rightarrow> Inl (what @ '': '' @ err) | None \<Rightarrow> Inr (Some e)))"

definition telemetry_init :: "start_env \<Rightarrow> string + telemetry_guard" where
  "telemetry_init S =
     (let traces_endpoint = signal_endpoint S ''OTEL_EXPORTER_OTLP_TRACES_ENDPOINT'' ''/v1/traces'';
          metrics_endpoint = signal_endpoint S ''OTEL_EXPORTER_OTLP_METRICS_ENDPOINT'' ''/v1/metrics''
      in if traces_endpoint = None \<and> metrics_endpoint = None
         then Inr \<lparr>tg_tracer_provider = None, tg_meter_provider = None\<rparr>
         else
           rbind (build_exporter ''building OTLP span exporter'' (se_span_exporter S) traces_endpoint) (\<lambda>tp.
           rbind (build_exporter ''building OTLP metric exporter'' (se_metric_exporter S) metrics_endpoint) (\<lambda>mp.
             Inr \<lparr>tg_tracer_provider = tp, tg_meter_provider = mp\<rparr>)))"

text \<open>Without an endpoint nothing is exported, and no collector can keep the server from starting.\<close>

lemma telemetry_off:
  assumes "\<And>v. v \<in> {''OTEL_EXPORTER_OTLP_TRACES_ENDPOINT'', ''OTEL_EXPORTER_OTLP_METRICS_ENDPOINT'', ''OTEL_EXPORTER_OTLP_ENDPOINT''} \<Longrightarrow>
      case se_var S v of None \<Rightarrow> True | Some t \<Rightarrow> trim t = []"
  shows "telemetry_init S = Inr \<lparr>tg_tracer_provider = None, tg_meter_provider = None\<rparr>"
  using assms [of "''OTEL_EXPORTER_OTLP_TRACES_ENDPOINT''"] assms [of "''OTEL_EXPORTER_OTLP_METRICS_ENDPOINT''"]
    assms [of "''OTEL_EXPORTER_OTLP_ENDPOINT''"]
  by (simp add: telemetry_init_def signal_endpoint_def split: option.splits)

section \<open>Grants\<close>

fun parse_grants :: "nat \<Rightarrow> string list \<Rightarrow> config_authz \<Rightarrow> string + config_authz" where
  "parse_grants idx [] a = Inr a"
| "parse_grants idx (t # ts) a =
     (let parts = split_on (CHR '':'') t in
      if length parts \<noteq> 4
      then Inl (''BALE_GRANTS tuple #'' @ show_nat idx @
             '' malformed: expected '' @ [CHR 0x27] @ ''hub_token:user:repo_id:scope'' @ [CHR 0x27] @ '' with 4 fields, got '' @ show_nat (length parts))
      else
        (case (if parts ! 3 = ''read'' then Some Read else if parts ! 3 = ''write'' then Some Write else None) of
           None \<Rightarrow> Inl (''invalid scope '' @ [CHR 0x27] @ parts ! 3 @ [CHR 0x27] @ '' in BALE_GRANTS tuple #'' @ show_nat idx)
         | Some sc \<Rightarrow> parse_grants (idx + 1) ts (grant (parts ! 0) (parts ! 1) (parts ! 2) sc a)))"

definition choose_authz :: "start_env \<Rightarrow> (core_error \<Rightarrow> string) \<Rightarrow> 'u url_lib \<Rightarrow> string option \<Rightarrow> bytes \<Rightarrow> string + 'u authz_choice" where
  "choose_authz S shown U client_error jwt_secret =
     (case se_var S ''BALE_AUTHZ_HTTP_URL'' of
        Some url \<Rightarrow>
          if url = [] then Inl ''BALE_AUTHZ_HTTP_URL is set but empty''
          else map_sum (\<lambda>e. ''core error: '' @ shown e) Authz_Http (http_authz_new U client_error url jwt_secret)
      | None \<Rightarrow>
          let a = config_authz_new jwt_secret
          in case se_var S ''BALE_GRANTS'' of
               Some raw \<Rightarrow> map_sum id Authz_Config (parse_grants 0 (filter (\<lambda>s. s \<noteq> []) (split_on (CHR '','') raw)) a)
             | None \<Rightarrow> Inr (Authz_Config a))"

definition default_quota_of :: "start_env \<Rightarrow> string + nat option" where
  "default_quota_of S =
     (case se_var S ''BALE_DEFAULT_QUOTA_BYTES'' of
        None \<Rightarrow> Inr None
      | Some s \<Rightarrow> map_sum id Some (ok_or ''BALE_DEFAULT_QUOTA_BYTES must be a non-negative integer'' (parse_u64 (trim s))))"

definition admin_token_of :: "start_env \<Rightarrow> string + bytes option" where
  "admin_token_of S =
     (case se_var S ''BALE_ADMIN_TOKEN_HEX'' of
        None \<Rightarrow> Inr None
      | Some h \<Rightarrow>
          rbind (ok_or ''BALE_ADMIN_TOKEN_HEX is not hex'' (se_hex_decode S (trim h))) (\<lambda>bs.
            if length bs \<noteq> 32
            then Inl (''BALE_ADMIN_TOKEN_HEX must decode to exactly 32 bytes (got '' @ show_nat (length bs) @ '')'')
            else Inr (Some bs)))"

text \<open>The order of the checks is that of \<open>main\<close>, \<open>run\<close> and \<open>serve\<close>.\<close>

definition start_server :: "start_env \<Rightarrow> (core_error \<Rightarrow> string) \<Rightarrow> 'u url_lib \<Rightarrow> string option \<Rightarrow> string + 'u start_config" where
  "start_server S shown U client_error =
     (let listen = var_or S ''BALE_LISTEN'' ''127.0.0.1:8080'';
          data_root = var_or S ''BALE_DATA_ROOT'' ''./xet-data'';
          db_path = var_or S ''BALE_DB_PATH'' (path_join data_root ''meta.db'')
      in rbind (telemetry_init S) (\<lambda>_.
         rbind (decode_hex_env S ''BALE_JWT_SECRET_HEX'') (\<lambda>jwt_secret.
         if length jwt_secret < 32 then Inl ''BALE_JWT_SECRET_HEX must decode to at least 32 bytes''
         else
         rbind (decode_hex_env S ''BALE_TRANSFER_SECRET_HEX'') (\<lambda>transfer_secret.
         if length transfer_secret \<noteq> 32
         then Inl (''BALE_TRANSFER_SECRET_HEX must decode to exactly 32 bytes (got '' @ show_nat (length transfer_secret) @ '')'')
         else
         rbind (default_quota_of S) (\<lambda>quota.
         rbind (admin_token_of S) (\<lambda>admin.
         rbind (choose_meta S db_path) (\<lambda>meta.
         rbind (choose_blobs S shown data_root) (\<lambda>blobs.
         rbind (choose_authz S shown U client_error jwt_secret) (\<lambda>authz.
           Inr \<lparr>ss_listen = listen, ss_public_url = fst (public_url_of S listen), ss_jwt_secret = jwt_secret,
                ss_transfer_secret = transfer_secret, ss_default_quota = quota, ss_admin_token = admin,
                ss_data_root = data_root, ss_meta = meta, ss_blobs = blobs, ss_authz = authz\<rparr>)))))))))"

section \<open>What a started server promises\<close>

text \<open>Every secret a started server signs with has the length the signatures rely on, and the administration token, where there is
  one, cannot be guessed byte by byte from a short setting.\<close>

lemma started_secrets:
  assumes "start_server S shown U ce = Inr c"
  shows "32 \<le> length (ss_jwt_secret c)" "length (ss_transfer_secret c) = 32"
    "ss_admin_token c = Some t \<Longrightarrow> length t = 32"
    "se_var S ''BALE_ADMIN_TOKEN_HEX'' = None \<longleftrightarrow> ss_admin_token c = None"
  using assms
  by (auto simp: start_server_def Let_def res_iffs admin_token_of_def split: if_splits option.splits)

lemma started_stores:
  assumes "start_server S shown U ce = Inr c"
  shows "choose_blobs S shown (ss_data_root c) = Inr (ss_blobs c)"
    "choose_authz S shown U ce (ss_jwt_secret c) = Inr (ss_authz c)"
  using assms by (auto simp: start_server_def Let_def res_iffs split: if_splits)

text \<open>An IPv6 loopback address is cut at its first colon, so the two IPv6 forms never match and the server warns.\<close>

lemma ipv6_loopback_warns:
  "se_var S ''BALE_PUBLIC_URL'' = None \<Longrightarrow> public_url_of S ''[::1]:8080'' = (''http://[::1]:8080'', True)"
  by (simp add: public_url_of_def is_loopback_def)

text \<open>The grants as the setting lists them: for a bearer and a repository the last tuple decides the scope, for a bearer the first
  tuple decides the user.\<close>

definition grant_tuples :: "start_env \<Rightarrow> string list list" where
  "grant_tuples S = map (split_on (CHR '':'')) (filter (\<lambda>s. s \<noteq> []) (split_on (CHR '','') (var_or S ''BALE_GRANTS'' [])))"

definition listed_scope :: "string list list \<Rightarrow> string \<Rightarrow> string \<Rightarrow> scope option" where
  "listed_scope ps tok rid =
     (case find (\<lambda>p. p ! 0 = tok \<and> p ! 2 = rid) (rev ps) of
        None \<Rightarrow> None | Some p \<Rightarrow> Some (if p ! 3 = ''write'' then Write else Read))"

definition listed_user :: "string list list \<Rightarrow> string \<Rightarrow> string option" where
  "listed_user ps tok = (case find (\<lambda>p. p ! 0 = tok) ps of None \<Rightarrow> None | Some p \<Rightarrow> Some (p ! 1))"

definition config_scope :: "config_authz \<Rightarrow> string \<Rightarrow> string \<Rightarrow> scope option" where
  "config_scope a tok rid = Option.bind (map_of (ca_users a) tok) (\<lambda>u. cu_repos u rid)"

definition config_user_id :: "config_authz \<Rightarrow> string \<Rightarrow> string option" where
  "config_user_id a tok = map_option cu_user_id (map_of (ca_users a) tok)"

lemma config_scope_grant:
  "config_scope (grant t u r sc a) tok rid = (if tok = t \<and> rid = r then Some sc else config_scope a tok rid)"
  by (auto simp: config_scope_def grant_def map_of_grant_entry split: option.splits)

lemma config_user_grant:
  "config_user_id (grant t u r sc a) tok = (if tok = t \<and> config_user_id a tok = None then Some u else config_user_id a tok)"
  by (auto simp: config_user_id_def grant_def map_of_grant_entry split: option.splits)

lemma parse_grants_step:
  assumes "parse_grants idx (t # ts) a = Inr a'"
  obtains sc p where "p = split_on (CHR '':'') t" and "length p = 4" and "sc = (if p ! 3 = ''write'' then Write else Read)"
    and "parse_grants (idx + 1) ts (grant (p ! 0) (p ! 1) (p ! 2) sc a) = Inr a'"
  using assms by (auto simp: Let_def split: if_splits)

lemma find_append: "find P (xs @ ys) = (case find P xs of None \<Rightarrow> find P ys | Some x \<Rightarrow> Some x)"
  by (induction xs) simp_all

lemma parse_grants_scope:
  "parse_grants idx ts a = Inr a' \<Longrightarrow>
    config_scope a' tok rid = (case listed_scope (map (split_on (CHR '':'')) ts) tok rid of
      None \<Rightarrow> config_scope a tok rid | Some sc \<Rightarrow> Some sc)"
proof (induction ts arbitrary: idx a)
  case Nil
  then show ?case by (simp add: listed_scope_def)
next
  case (Cons t ts)
  from Cons.prems show ?case
  proof (rule parse_grants_step)
    fix p sc
    assume p: "p = split_on (CHR '':'') t" and sc: "sc = (if p ! 3 = ''write'' then Write else Read)"
      and rest: "parse_grants (idx + 1) ts (grant (p ! 0) (p ! 1) (p ! 2) sc a) = Inr a'"
    have "listed_scope (map (split_on (CHR '':'')) (t # ts)) tok rid =
        (case listed_scope (map (split_on (CHR '':'')) ts) tok rid of
           None \<Rightarrow> if p ! 0 = tok \<and> p ! 2 = rid then Some sc else None | Some s \<Rightarrow> Some s)"
      by (auto simp: listed_scope_def find_append p [symmetric] sc split: option.splits)
    with Cons.IH [OF rest] show ?thesis by (auto simp: config_scope_grant split: option.splits)
  qed
qed

lemma parse_grants_user:
  "parse_grants idx ts a = Inr a' \<Longrightarrow>
    config_user_id a' tok = (case config_user_id a tok of
      None \<Rightarrow> listed_user (map (split_on (CHR '':'')) ts) tok | Some u \<Rightarrow> Some u)"
proof (induction ts arbitrary: idx a)
  case Nil
  then show ?case by (simp add: listed_user_def split: option.splits)
next
  case (Cons t ts)
  from Cons.prems show ?case
  proof (rule parse_grants_step)
    fix p sc
    assume p: "p = split_on (CHR '':'') t"
      and rest: "parse_grants (idx + 1) ts (grant (p ! 0) (p ! 1) (p ! 2) sc a) = Inr a'"
    show ?thesis
      using Cons.IH [OF rest] by (auto simp: config_user_grant listed_user_def p [symmetric] split: option.splits)
  qed
qed

text \<open>The bearers of the configuration are distinct and no longer than the setting.\<close>

lemma parse_grants_keys:
  assumes "parse_grants idx ts a = Inr a'" and "distinct (map fst (ca_users a))"
  shows "distinct (map fst (ca_users a'))"
    and "fst ` set (ca_users a') \<subseteq> fst ` set (ca_users a) \<union> (\<Union>t \<in> set ts. set (split_on (CHR '':'') t))"
  using assms
proof (induction ts arbitrary: idx a)
  case Nil
  { case 1 then show ?case by simp }
  { case 2 then show ?case by simp }
next
  case (Cons t ts)
  { case 1
    from 1(1) show ?case
    proof (rule parse_grants_step)
      fix p sc
      assume "parse_grants (idx + 1) ts (grant (p ! 0) (p ! 1) (p ! 2) sc a) = Inr a'"
      from Cons.IH(1) [OF this] 1(2) show ?thesis by (simp add: grant_def grant_entry_distinct)
    qed }
  { case 2
    from 2(1) show ?case
    proof (rule parse_grants_step)
      fix p sc
      assume p: "p = split_on (CHR '':'') t" "length p = 4"
        and rest: "parse_grants (idx + 1) ts (grant (p ! 0) (p ! 1) (p ! 2) sc a) = Inr a'"
      from p(2) have "p ! 0 \<in> set p" by (intro nth_mem) simp
      with Cons.IH(2) [OF rest] 2(2) p(1) show ?thesis by (auto simp: grant_def grant_entry_distinct grant_entry_keys)
    qed }
qed

lemma parse_grants_secret: "parse_grants idx ts a = Inr a' \<Longrightarrow> ca_jwt_secret a' = ca_jwt_secret a"
proof (induction ts arbitrary: idx a)
  case (Cons t ts)
  from Cons.prems show ?case by (rule parse_grants_step) (use Cons.IH in \<open>force simp: grant_def\<close>)
qed simp

lemma split_on_length: "w \<in> set (split_on c s) \<Longrightarrow> length w \<le> length s"
  by (induction c s arbitrary: w rule: split_on.induct) (fastforce split: if_splits list.splits)+

lemma config_access_by_tables:
  assumes "distinct (map fst (ca_users a))" and "length tok < 2 ^ 32"
    and "\<And>k. k \<in> fst ` set (ca_users a) \<Longrightarrow> length k < 2 ^ 32"
  shows "config_check_repo_access a tok repo sc =
    (case config_user_id a tok of
       None \<Rightarrow> Inl Unauthorized
     | Some u \<Rightarrow> (case config_scope a tok (repo_id repo) of
         None \<Rightarrow> Inl Forbidden
       | Some g \<Rightarrow> if sc = Write \<and> g = Read then Inl Forbidden else Inr u))"
  by (simp add: config_access_iff [OF assms] config_user_id_def config_scope_def split: option.splits)

lemma map_sum_eq_Inr: "map_sum f g x = Inr y \<longleftrightarrow> (\<exists>z. x = Inr z \<and> y = g z)"
  by (cases x) auto

lemma choose_authz_config:
  assumes "choose_authz S shown U ce secret = Inr (Authz_Config a)"
  obtains ts where "ts = filter (\<lambda>s. s \<noteq> []) (split_on (CHR '','') (var_or S ''BALE_GRANTS'' []))"
    and "parse_grants 0 ts (config_authz_new secret) = Inr a"
  using assms by (auto simp: choose_authz_def Let_def var_or_def map_sum_eq_Inr split: option.splits if_splits)

text \<open>C32: A server that starts without an upstream enforces the grants of BALE_GRANTS exactly as they are listed: a bearer is
  unauthorized unless a tuple names it, forbidden unless one also names the repository, and for that pair the scope of the last
  tuple decides, write covering read and not the other way round; the answer is the user of the bearer's first tuple. The token
  secret it signs with has at least 32 bytes, and the transfer secret exactly 32.\<close>

theorem started_server_enforces_grants:
  assumes "start_server S shown U ce = Inr c" and "ss_authz c = Authz_Config a"
    and "length (var_or S ''BALE_GRANTS'' []) < 2 ^ 32" and "length tok < 2 ^ 32"
  shows "config_check_repo_access a tok repo sc =
      (case listed_user (grant_tuples S) tok of
         None \<Rightarrow> Inl Unauthorized
       | Some u \<Rightarrow> (case listed_scope (grant_tuples S) tok (repo_id repo) of
           None \<Rightarrow> Inl Forbidden
         | Some g \<Rightarrow> if sc = Write \<and> g = Read then Inl Forbidden else Inr u)) \<and>
    ca_jwt_secret a = ss_jwt_secret c \<and> 32 \<le> length (ss_jwt_secret c) \<and> length (ss_transfer_secret c) = 32"
  using started_stores(2) [OF assms(1)] unfolding assms(2)
proof (rule choose_authz_config)
  fix ts
  let ?raw = "var_or S ''BALE_GRANTS'' []" and ?new = "config_authz_new (ss_jwt_secret c)"
  assume ts: "ts = filter (\<lambda>s. s \<noteq> []) (split_on (CHR '','') ?raw)" and parsed: "parse_grants 0 ts ?new = Inr a"
  have "distinct (map fst (ca_users ?new))" "ca_users ?new = []" by (simp_all add: config_authz_new_def)
  note keys = parse_grants_keys [OF parsed this(1), unfolded this(2)]
  have short: "length k < 2 ^ 32" if "k \<in> fst ` set (ca_users a)" for k
  proof -
    from that keys(2) obtain t where "t \<in> set (split_on (CHR '','') ?raw)" "k \<in> set (split_on (CHR '':'') t)" by (auto simp: ts)
    from split_on_length [OF this(1)] split_on_length [OF this(2)] assms(3) show ?thesis by linarith
  qed
  have "config_scope ?new tok rid = None" "config_user_id ?new tok = None" for rid
    by (simp_all add: config_scope_def config_user_id_def config_authz_new_def)
  then have tables: "config_scope a tok (repo_id repo) = listed_scope (grant_tuples S) tok (repo_id repo)"
    "config_user_id a tok = listed_user (grant_tuples S) tok"
    using parse_grants_scope [OF parsed, of tok "repo_id repo"] parse_grants_user [OF parsed, of tok]
    by (simp_all add: grant_tuples_def ts split: option.splits)
  show ?thesis
    using config_access_by_tables [OF keys(1) assms(4) short, of repo sc] parse_grants_secret [OF parsed] started_secrets(1,2) [OF assms(1)]
    unfolding tables by (simp add: config_authz_new_def)
qed

text \<open>A server with two grants for one bearer.\<close>

definition ex_start :: start_env where
  "ex_start = \<lparr>se_var = [''BALE_JWT_SECRET_HEX'' \<mapsto> ''j'', ''BALE_TRANSFER_SECRET_HEX'' \<mapsto> ''t'',
       ''BALE_GRANTS'' \<mapsto> ''tok:alice:alice/m:write,tok:alice:bob/n:read''],
     se_hex_decode = (\<lambda>_. Some (replicate 32 7)), se_span_exporter = (\<lambda>_. None), se_metric_exporter = (\<lambda>_. None)\<rparr>"

definition ex_urls :: "string url_lib" where
  "ex_urls = \<lparr>ul_parse = Inr, ul_scheme = (\<lambda>_. ''http''), ul_path = (\<lambda>u. u), ul_set_path = (\<lambda>p _. p), ul_join = (\<lambda>u p. Inr (u @ p))\<rparr>"

definition ex_authz :: config_authz where
  "ex_authz = grant ''tok'' ''alice'' ''bob/n'' Read (grant ''tok'' ''alice'' ''alice/m'' Write (config_authz_new (replicate 32 7)))"

lemma ex_start_up: "\<exists>c. start_server ex_start (\<lambda>_. []) ex_urls None = Inr c \<and> ss_authz c = Authz_Config ex_authz"
  by (simp add: start_server_def ex_start_def var_or_def decode_hex_env_def default_quota_of_def admin_token_of_def choose_meta_def
    choose_blobs_def choose_authz_def telemetry_init_def signal_endpoint_def ex_authz_def Let_def res_iffs)

theorem started_server_enforces_grants_witness:
  "\<exists>c. start_server ex_start (\<lambda>_. []) ex_urls None = Inr c \<and>
    config_check_repo_access ex_authz ''tok'' \<lparr>repo_type_of = Model, repo_id = ''bob/n'', revision = ''main''\<rparr> Read = Inr ''alice'' \<and>
    config_check_repo_access ex_authz ''tok'' \<lparr>repo_type_of = Model, repo_id = ''bob/n'', revision = ''main''\<rparr> Write = Inl Forbidden \<and>
    config_check_repo_access ex_authz ''tik'' \<lparr>repo_type_of = Model, repo_id = ''bob/n'', revision = ''main''\<rparr> Read = Inl Unauthorized"
proof -
  obtain c where c: "start_server ex_start (\<lambda>_. []) ex_urls None = Inr c" "ss_authz c = Authz_Config ex_authz" using ex_start_up by blast
  have "length (var_or ex_start ''BALE_GRANTS'' []) < 2 ^ 32" by (simp add: ex_start_def var_or_def)
  note enforced = started_server_enforces_grants [OF c this, THEN conjunct1]
  have tuples: "grant_tuples ex_start = [[''tok'', ''alice'', ''alice/m'', ''write''], [''tok'', ''alice'', ''bob/n'', ''read'']]"
    by (simp add: grant_tuples_def var_or_def ex_start_def)
  show ?thesis
    by (rule exI [of _ c]) (simp add: c(1) enforced tuples listed_user_def listed_scope_def)
qed

end
