(* ===== verification/Router.thy ===== *)
theory Router
  imports Server Http_Access
begin

text \<open>
  The router of the server, \<open>bale-server-http/src/lib.rs\<close>, with the metrics layer, \<open>metrics.rs\<close>: which request reaches which handler, which
  layers it passes on the way, and what comes back. \<open>axum\<close> is modelled by its documentation: a capture matches one segment that is
  not empty, a route without the method answers 405 inside the layers of the route, a route for GET also answers HEAD, and arguments
  of a handler are extracted in their order, the body last. What its extractors make of the query and of a JSON body comes with the
  request, the path as its decoded segments.
\<close>

section \<open>Requests and responses\<close>

record http_request =
  rq_method :: string
  rq_path :: "string list"
  rq_authorization :: "string option"
  rq_range :: "string option option"
  rq_body :: bytes
  rq_transfer :: "string + transfer_query"
  rq_download :: "string + string \<times> string \<times> string option"
  rq_quota :: "(nat \<times> string) + nat option"

datatype http_response =
  Resp_Error nat string
| Resp_Text string
| Resp_Xorb bool
| Resp_Shard nat
| Resp_Reconstruction query_reconstruction_response
| Resp_Chunk bytes
| Resp_File file_response
| Resp_Transfer transfer_response
| Resp_Token xet_token_response
| Resp_Owner_Usage owner_usage_response
| Resp_Repo_Usage repo_usage_response
| Resp_No_Content

definition resp_status :: "http_response \<Rightarrow> nat" where
  "resp_status r = (case r of Resp_Error n _ \<Rightarrow> n | Resp_Transfer t \<Rightarrow> tr_status t | Resp_No_Content \<Rightarrow> 204 | _ \<Rightarrow> 200)"

definition into_response :: "('a \<Rightarrow> http_response) \<Rightarrow> api_error + 'a \<Rightarrow> http_response" where
  "into_response ok r = (case r of Inl e \<Rightarrow> Resp_Error (api_status e) (api_message e) | Inr x \<Rightarrow> ok x)"

section \<open>Routes\<close>

datatype endpoint =
  Healthz | Upload_Xorb | Upload_Shard | Get_Reconstruction | Get_Dedup_Chunk | Get_Owner_Usage | Get_Repo_Usage
| Put_Owner_Quota | Get_Xorb_Transfer | Get_File_Download | Issue_Xet_Token

datatype segment = Lit string | Capture

definition ROUTES :: "(segment list \<times> string \<times> endpoint) list" where
  "ROUTES = [
     ([Lit ''v1'', Lit ''xorbs'', Capture, Capture], ''POST'', Upload_Xorb),
     ([Lit ''shards''], ''POST'', Upload_Shard),
     ([Lit ''v1'', Lit ''reconstructions'', Capture], ''GET'', Get_Reconstruction),
     ([Lit ''v1'', Lit ''chunks'', Capture, Capture], ''GET'', Get_Dedup_Chunk),
     ([Lit ''v1'', Lit ''usage'', Capture], ''GET'', Get_Owner_Usage),
     ([Lit ''v1'', Lit ''usage'', Lit ''repo'', Capture, Capture], ''GET'', Get_Repo_Usage),
     ([Lit ''v1'', Lit ''quotas'', Capture], ''PUT'', Put_Owner_Quota),
     ([Lit ''xorb'', Lit ''default'', Capture], ''GET'', Get_Xorb_Transfer),
     ([Lit ''v1'', Lit ''files'', Capture], ''GET'', Get_File_Download),
     ([Lit ''api'', Capture, Capture, Capture, Capture, Capture], ''GET'', Issue_Xet_Token),
     ([Lit ''healthz''], ''GET'', Healthz)]"

text \<open>The routes behind the authentication layer.\<close>

definition behind_auth :: "endpoint \<Rightarrow> bool" where
  "behind_auth ep \<longleftrightarrow> ep \<in> {Upload_Xorb, Upload_Shard, Get_Reconstruction, Get_Dedup_Chunk}"

fun match_segments :: "segment list \<Rightarrow> string list \<Rightarrow> string list option" where
  "match_segments [] [] = Some []"
| "match_segments (Lit s # ps) (x # xs) = (if x = s then match_segments ps xs else None)"
| "match_segments (Capture # ps) (x # xs) = (if x \<noteq> [] then map_option ((#) x) (match_segments ps xs) else None)"
| "match_segments _ _ = None"

fun find_route :: "(segment list \<times> string \<times> endpoint) list \<Rightarrow> string list \<Rightarrow> (string \<times> endpoint \<times> string list) option" where
  "find_route [] p = None"
| "find_route ((pat, meth, ep) # rs) p =
     (case match_segments pat p of Some caps \<Rightarrow> Some (meth, ep, caps) | None \<Rightarrow> find_route rs p)"

definition method_ok :: "string \<Rightarrow> string \<Rightarrow> bool" where
  "method_ok meth given \<longleftrightarrow> given = meth \<or> meth = ''GET'' \<and> given = ''HEAD''"

section \<open>Dispatch\<close>

definition too_large :: http_response where
  "too_large = Resp_Error 413 ''length limit exceeded''"

text \<open>One handler, with the arguments its extractors take from the request. The handlers behind the authentication layer get the
  claims it found. \<open>key\<close> is the random key of a deduplication answer.\<close>

definition run_v1 ::
  "externals \<Rightarrow> ('b, 'm) service \<Rightarrow> nat \<Rightarrow> bytes \<Rightarrow> endpoint \<Rightarrow> token_claims \<Rightarrow> string list \<Rightarrow> http_request \<Rightarrow> 'b \<Rightarrow> 'm \<Rightarrow>
   http_response \<times> 'b \<times> 'm" where
  "run_v1 X svc now key ep claims caps req b m =
     (case ep of
        Upload_Xorb \<Rightarrow>
          if length (rq_body req) > MAX_BODY_BYTES then (too_large, b, m)
          else (case upload_xorb X svc claims (caps ! 1) (rq_body req) b m of (r, b, m) \<Rightarrow> (into_response Resp_Xorb r, b, m))
      | Upload_Shard \<Rightarrow>
          if length (rq_body req) > MAX_BODY_BYTES then (too_large, b, m)
          else (case upload_shard X svc claims (rq_body req) b m of (r, b, m) \<Rightarrow> (into_response Resp_Shard r, b, m))
      | Get_Reconstruction \<Rightarrow> (into_response Resp_Reconstruction (get_reconstruction X svc now claims (caps ! 0) b m), b, m)
      | _ \<Rightarrow> (into_response Resp_Chunk (get_dedup_chunk X svc now key (caps ! 1) b m), b, m))"

definition run_open ::
  "externals \<Rightarrow> ('b, 'm) service \<Rightarrow> nat \<Rightarrow> endpoint \<Rightarrow> string list \<Rightarrow> http_request \<Rightarrow> 'b \<Rightarrow> 'm \<Rightarrow> http_response \<times> 'b \<times> 'm" where
  "run_open X svc now ep caps req b m =
     (case ep of
        Get_Owner_Usage \<Rightarrow> (into_response Resp_Owner_Usage (get_owner_usage X svc (caps ! 0) (rq_authorization req) m), b, m)
      | Get_Repo_Usage \<Rightarrow> (into_response Resp_Repo_Usage (get_repo_usage X svc (caps ! 0) (caps ! 1) (rq_authorization req) m), b, m)
      | Put_Owner_Quota \<Rightarrow>
          (case rq_quota req of
             Inl (status, msg) \<Rightarrow> (Resp_Error status msg, b, m)
           | Inr lim \<Rightarrow>
               (case put_owner_quota X svc (caps ! 0) (rq_authorization req) lim m of
                  (r, m) \<Rightarrow> (into_response (\<lambda>_. Resp_No_Content) r, b, m)))
      | Get_Xorb_Transfer \<Rightarrow>
          (case rq_transfer req of
             Inl msg \<Rightarrow> (Resp_Error 400 msg, b, m)
           | Inr q \<Rightarrow> (into_response Resp_Transfer (get_xorb_transfer X svc now (caps ! 0) q (rq_range req) b), b, m))
      | Get_File_Download \<Rightarrow>
          (case rq_download req of
             Inl msg \<Rightarrow> (Resp_Error 400 msg, b, m)
           | Inr (token, repo, filename) \<Rightarrow>
               (into_response Resp_File (get_file_download X svc (caps ! 0) token repo filename b m), b, m))
      | Issue_Xet_Token \<Rightarrow>
          (into_response Resp_Token
             (issue_xet_token svc (caps ! 0) (caps ! 1) (caps ! 2) (caps ! 3) (caps ! 4) (rq_authorization req)), b, m)
      | _ \<Rightarrow> (Resp_Text ''ok'', b, m))"

definition router ::
  "externals \<Rightarrow> ('b, 'm) service \<Rightarrow> nat \<Rightarrow> bytes \<Rightarrow> http_request \<Rightarrow> 'b \<Rightarrow> 'm \<Rightarrow> http_response \<times> 'b \<times> 'm" where
  "router X svc now key req b m =
     (case find_route ROUTES (rq_path req) of
        None \<Rightarrow> (Resp_Error 404 [], b, m)
      | Some (meth, ep, caps) \<Rightarrow>
          if behind_auth ep then
            (case auth_middleware svc (rq_method req = ''POST'') (rq_authorization req) of
               Inl e \<Rightarrow> (Resp_Error (api_status e) (api_message e), b, m)
             | Inr claims \<Rightarrow>
                 if method_ok meth (rq_method req) then run_v1 X svc now key ep claims caps req b m
                 else (Resp_Error 405 [], b, m))
          else if method_ok meth (rq_method req) then run_open X svc now ep caps req b m
          else (Resp_Error 405 [], b, m))"

section \<open>Metrics\<close>

text \<open>The samples of one request: its label is the pattern of the route and never the path itself.\<close>

datatype 'f sample =
  Http_Requests string string nat
| Http_Duration 'f string string

definition metrics_middleware :: "string \<Rightarrow> string option \<Rightarrow> 'f \<Rightarrow> http_response \<Rightarrow> http_response \<times> 'f sample list" where
  "metrics_middleware meth matched elapsed resp =
     (let route = (case matched of Some p \<Rightarrow> p | None \<Rightarrow> ''<unmatched>'')
      in (resp, [Http_Requests meth route (resp_status resp), Http_Duration elapsed meth route]))"

section \<open>Which route serves a path\<close>

lemma match_Lit: "match_segments (Lit s # ps) p = Some caps \<longleftrightarrow> (\<exists>xs. p = s # xs \<and> match_segments ps xs = Some caps)"
  by (cases p) auto

lemma match_Capture:
  "match_segments (Capture # ps) p = Some caps \<longleftrightarrow>
    (\<exists>x xs cs. p = x # xs \<and> x \<noteq> [] \<and> match_segments ps xs = Some cs \<and> caps = x # cs)"
  by (cases p) auto

lemma match_Nil: "match_segments [] p = Some caps \<longleftrightarrow> p = [] \<and> caps = []"
  by (cases p) auto

lemmas match_iffs = match_Lit match_Capture match_Nil

text \<open>No path belongs to two routes, so the order of the table does not matter.\<close>

lemma routes_unambiguous:
  assumes "(pat, meth, ep) \<in> set ROUTES" and "match_segments pat p = Some caps"
  shows "find_route ROUTES p = Some (meth, ep, caps)"
  using assms unfolding ROUTES_def by (auto simp: match_iffs)

lemma find_route_Some:
  "find_route rs p = Some (meth, ep, caps) \<Longrightarrow> \<exists>pat. (pat, meth, ep) \<in> set rs \<and> match_segments pat p = Some caps"
  by (induction rs p rule: find_route.induct) (auto split: option.splits)

lemma route_method:
  assumes "find_route ROUTES p = Some (meth, ep, caps)"
  shows "ep \<in> {Upload_Xorb, Upload_Shard} \<Longrightarrow> meth = ''POST''" and "ep = Put_Owner_Quota \<Longrightarrow> meth = ''PUT''"
  using find_route_Some [OF assms] by (auto simp: ROUTES_def)

section \<open>Who can change what is stored\<close>

text \<open>A request carries a write token, or the administration token.\<close>

definition carries_write_token :: "('b, 'm) service \<Rightarrow> http_request \<Rightarrow> bool" where
  "carries_write_token svc req \<longleftrightarrow>
     (\<exists>token claims. rq_authorization req = Some (''Bearer '' @ token) \<and>
        verify_xet_token (svc_authz svc) token = Inr claims \<and> tc_scope claims = Write)"

definition carries_admin_token :: "externals \<Rightarrow> ('b, 'm) service \<Rightarrow> http_request \<Rightarrow> bool" where
  "carries_admin_token X svc req \<longleftrightarrow>
     (\<exists>raw admin presented. rq_authorization req = Some (''Bearer '' @ raw) \<and> svc_admin_token svc = Some admin \<and>
        x_hex_decode X (trim raw) = Some presented \<and> ct_eq presented admin)"

text \<open>The four things a request can do to the stores.\<close>

lemma router_cases:
  assumes "router X svc now key req b m = (resp, b', m')"
  obtains (same) "b' = b" "m' = m"
  | (xorb) claims hex r where "rq_method req = ''POST''" "auth_middleware svc True (rq_authorization req) = Inr claims"
      "length (rq_body req) \<le> MAX_BODY_BYTES" "upload_xorb X svc claims hex (rq_body req) b m = (r, b', m')"
      "resp = into_response Resp_Xorb r"
  | (shard) claims r where "rq_method req = ''POST''" "auth_middleware svc True (rq_authorization req) = Inr claims"
      "length (rq_body req) \<le> MAX_BODY_BYTES" "upload_shard X svc claims (rq_body req) b m = (r, b', m')"
      "resp = into_response Resp_Shard r"
  | (quota) owner lim r where "rq_method req = ''PUT''" "b' = b"
      "put_owner_quota X svc owner (rq_authorization req) lim m = (r, m')" "resp = into_response (\<lambda>_. Resp_No_Content) r"
proof (cases "find_route ROUTES (rq_path req)")
  case None
  then show ?thesis using assms same by (simp add: router_def)
next
  case (Some route)
  obtain meth ep caps where route: "find_route ROUTES (rq_path req) = Some (meth, ep, caps)" using Some by (cases route) auto
  note meths = route_method [OF route]
  show ?thesis
  proof (cases "behind_auth ep")
    case True
    with assms route meths xorb shard same show ?thesis
      by (auto simp: router_def run_v1_def behind_auth_def method_ok_def split: sum.splits if_splits prod.splits)
  next
    case False
    with assms route meths quota same show ?thesis
      by (cases ep) (auto simp: router_def run_open_def behind_auth_def method_ok_def split: sum.splits if_splits prod.splits)
  qed
qed

lemma auth_middleware_write:
  assumes "auth_middleware svc True (rq_authorization req) = Inr claims"
  shows "carries_write_token svc req"
proof -
  have "tc_scope claims = Write" using assms by (cases "tc_scope claims") (auto simp: auth_middleware_def res_iffs split: if_splits)
  with assms show ?thesis
    by (auto simp: auth_middleware_def carries_write_token_def core_def res_iffs strip_prefix_eq_Some split: if_splits)
qed

text \<open>C6: What is stored changes only by authorized requests. Whatever stores and authorization the service has, a request
  that changes either store is a POST of at most 64 MiB that carries a token the authorization verifies with write scope, or a PUT
  that carries the administration token; every other request leaves both stores as they were.\<close>

theorem only_authorized_requests_write:
  assumes "router X svc now key req b m = (resp, b', m')" and "(b', m') \<noteq> (b, m)"
  shows "rq_method req = ''POST'' \<and> length (rq_body req) \<le> MAX_BODY_BYTES \<and> carries_write_token svc req \<or>
    rq_method req = ''PUT'' \<and> b' = b \<and> carries_admin_token X svc req"
  using assms(1)
proof (cases rule: router_cases)
  case same
  then show ?thesis using assms(2) by simp
next
  case (quota owner lim r)
  from quota(3) show ?thesis
  proof (cases rule: put_owner_quota_cases)
    case (admitted admin raw presented q)
    then show ?thesis using quota by (auto simp: carries_admin_token_def)
  qed (use quota assms(2) in simp)
qed (use auth_middleware_write in blast)+

text \<open>Requests one after the other, each at its own time and with its own random key; the service may be configured anew in between.\<close>

type_synonym ('b, 'm) arrival = "('b, 'm) service \<times> nat \<times> bytes \<times> http_request"

primrec serve_all :: "externals \<Rightarrow> ('b, 'm) arrival list \<Rightarrow> 'b \<times> 'm \<Rightarrow> http_response list \<times> 'b \<times> 'm" where
  "serve_all X [] s = ([], s)"
| "serve_all X (a # as) s =
     (case a of (svc, now, key, req) \<Rightarrow>
      case router X svc now key req (fst s) (snd s) of (resp, s) \<Rightarrow>
      case serve_all X as s of (resps, s) \<Rightarrow> (resp # resps, s))"

definition runs_on :: "faults \<Rightarrow> (nat \<Rightarrow> nat) \<Rightarrow> (mem_blob_store, sql_state) arrival \<Rightarrow> bool" where
  "runs_on fl pick = (\<lambda>(svc, _). svc_blobs svc = mem_blob_ops \<and> (\<exists>now. svc_meta svc = sqlite_meta_ops fl pick now))"

lemma router_is_step:
  assumes "router X svc now key req b m = (resp, b', m')" and "svc_blobs svc = mem_blob_ops" and "svc_meta svc = sqlite_meta_ops fl pick t"
  shows "(server_step X fl pick)\<^sup>*\<^sup>* (b, m) (b', m')"
  using assms(1)
proof (cases rule: router_cases)
  case (xorb claims hex r)
  then show ?thesis using post_xorb [OF assms(2,3)] by (intro r_into_rtranclp) blast
next
  case (shard claims r)
  then show ?thesis using post_shard [OF assms(2,3)] by (intro r_into_rtranclp) blast
next
  case (quota owner lim r)
  then show ?thesis using put_quota [OF assms(2,3)] by (intro r_into_rtranclp) blast
qed simp


end
