(* ===== verification/Router_Example.thy ===== *)
theory Router_Example
  imports Router Server_Example
begin

text \<open>
  Two requests to an empty server: the upload of a xorb with a token, and the same without one.
\<close>

definition ex_request :: http_request where
  "ex_request = \<lparr>rq_method = ''POST'', rq_path = [''v1'', ''xorbs'', ''default'', encode_hash hash_zero],
     rq_authorization = Some ''Bearer t'', rq_range = None, rq_body = xorb_example, rq_transfer = Inl [], rq_download = Inl [],
     rq_quota = Inl (400, [])\<rparr>"

lemma ex_auth:
  "\<exists>claims. auth_middleware ex_service True (Some ''Bearer t'') = Inr claims"
  using strip_prefix_append [of "''Bearer ''" "''t''"]
  by (simp add: auth_middleware_def ex_service_def always_allow_ops_def core_def)

lemma ex_hex_nonempty: "encode_hash hash_zero \<noteq> []"
proof
  assume "encode_hash hash_zero = []"
  then have "length (encode_hash hash_zero) = 0" by (simp only: list.size)
  then show False by simp
qed

lemma ex_routed:
  "router plain_lib ex_service 0 [] ex_request mem_new \<lparr>sq_db = db_empty, sq_tick = 0\<rparr> =
     (Resp_Xorb True, fst ex_state1, snd ex_state1)"
proof -
  obtain claims where "auth_middleware ex_service True (Some ''Bearer t'') = Inr claims" using ex_auth by blast
  moreover have "length xorb_example \<le> MAX_BODY_BYTES" by (simp add: xorb_example_def MAX_BODY_BYTES_def)
  ultimately show ?thesis
    by (simp add: router_def ex_request_def ROUTES_def behind_auth_def method_ok_def run_v1_def ex_run1 into_response_def
        ex_hex_nonempty not_less [symmetric])
qed

lemma ex_refused:
  "router plain_lib ex_service now [] (ex_request\<lparr>rq_authorization := None\<rparr>) b m = (Resp_Error 401 ''missing bearer'', b, m)"
  by (simp add: router_def ex_request_def ROUTES_def behind_auth_def auth_middleware_def unauthorized_def ex_hex_nonempty)

theorem only_authorized_requests_write_witness:
  "router plain_lib ex_service 0 [] ex_request mem_new \<lparr>sq_db = db_empty, sq_tick = 0\<rparr> = (Resp_Xorb True, fst ex_state1, snd ex_state1) \<and>
   carries_write_token ex_service ex_request"
proof -
  have "mem_xorbs (fst ex_state1) \<noteq> mem_xorbs mem_new" by (simp add: ex_state1_def mem_new_def)
  then have "(fst ex_state1, snd ex_state1) \<noteq> (mem_new, \<lparr>sq_db = db_empty, sq_tick = 0\<rparr>)"
    by (metis fst_conv)
  from only_authorized_requests_write [OF ex_routed this] ex_routed show ?thesis by (simp add: ex_request_def)
qed

text \<open>The upload, then the request without a token.\<close>

definition ex_arrivals :: "(mem_blob_store, sql_state) arrival list" where
  "ex_arrivals = [(ex_service, 0, [], ex_request), (ex_service, 1, [], ex_request\<lparr>rq_authorization := None\<rparr>)]"

lemma ex_served:
  "serve_all plain_lib ex_arrivals server_start =
     ([Resp_Xorb True, Resp_Error 401 ''missing bearer''], fst ex_state1, snd ex_state1)"
  by (simp add: ex_arrivals_def server_start_def ex_routed ex_refused)


end
