(* ===== verification/Progress.thy ===== *)
theory Progress
  imports Prelude
begin

text \<open>
  The progress line of a push, \<open>git-bale/src/progress.rs\<close>: what it prints on a terminal and elsewhere, and its handle. The numbers in it
  are computed in double precision: a double is a natural number times a power of two, and every operation rounds to 53 bits, ties to
  even. No value here leaves the range of normal numbers. What the reporter waits for comes as a list of answers of the channel.
\<close>

section \<open>Double precision\<close>

type_synonym f64 = "nat \<times> int"

fun bit_len :: "nat \<Rightarrow> nat" where
  "bit_len n = (if n = 0 then 0 else bit_len (n div 2) + 1)"

declare bit_len.simps [simp del]

definition scaled :: "nat \<Rightarrow> int \<Rightarrow> nat \<times> nat" where
  "scaled m e = (if 0 \<le> e then (m * 2 ^ nat e, 1) else (m, 2 ^ nat (- e)))"

definition half_even :: "nat \<Rightarrow> nat \<Rightarrow> nat" where
  "half_even n d =
     (let q = n div d; r = n mod d
      in if 2 * r < d \<or> 2 * r = d \<and> even q then q else q + 1)"

text \<open>The double nearest to \<open>n / d\<close>: the quotient is scaled to 53 bits before its fraction is rounded.\<close>

definition f64_ratio :: "nat \<Rightarrow> nat \<Rightarrow> f64" where
  "f64_ratio n d =
     (if n = 0 then (0, 0)
      else
        let s = 53 - (int (bit_len n) - int (bit_len d));
            (a, b) = scaled n s;
            s = (if 2 ^ 53 * (d * b) \<le> a then s - 1 else s);
            (a, b) = scaled n s
        in (half_even a (d * b), - s))"

definition f64_of :: "nat \<Rightarrow> f64" where
  "f64_of n = f64_ratio n 1"

definition f64_div :: "f64 \<Rightarrow> f64 \<Rightarrow> f64" where
  "f64_div x y = (case f64_ratio (fst x) (fst y) of (m, e) \<Rightarrow> (m, e + snd x - snd y))"

definition f64_mul :: "f64 \<Rightarrow> f64 \<Rightarrow> f64" where
  "f64_mul x y = (case f64_ratio (fst x * fst y) 1 of (m, e) \<Rightarrow> (m, e + snd x + snd y))"

definition f64_ge :: "f64 \<Rightarrow> nat \<Rightarrow> bool" where
  "f64_ge x n \<longleftrightarrow> (case scaled (fst x) (snd x) of (a, b) \<Rightarrow> n * b \<le> a)"

definition f64_trunc :: "f64 \<Rightarrow> nat" where
  "f64_trunc x = (case scaled (fst x) (snd x) of (a, b) \<Rightarrow> a div b)"

text \<open>\<open>round\<close>: halves go away from zero.\<close>

definition f64_round :: "f64 \<Rightarrow> nat" where
  "f64_round x = (case scaled (fst x) (snd x) of (a, b) \<Rightarrow> (2 * a + b) div (2 * b))"

text \<open>The format with one digit after the point: the exact value, rounded, ties to even.\<close>

definition f64_tenths :: "f64 \<Rightarrow> string" where
  "f64_tenths x =
     (case scaled (fst x) (snd x) of (a, b) \<Rightarrow>
        let t = half_even (10 * a) b in show_nat (t div 10) @ ''.'' @ show_nat (t mod 10))"

section \<open>The line\<close>

record upload_snapshot =
  us_bytes_uploaded :: nat
  us_bytes_total :: nat
  us_rate :: "f64 option"
  us_bytes_deduped :: nat

definition UNITS :: "string list" where
  "UNITS = [''B'', ''KiB'', ''MiB'', ''GiB'', ''TiB'']"

function unit_loop :: "f64 \<Rightarrow> nat \<Rightarrow> f64 \<times> nat" where
  "unit_loop v u = (if f64_ge v 1024 \<and> u < length UNITS - 1 then unit_loop (f64_div v (f64_of 1024)) (u + 1) else (v, u))"
  by auto
termination by (relation "measure (\<lambda>(v, u). length UNITS - u)") (auto simp: UNITS_def)

declare unit_loop.simps [simp del]

definition fmt_bytes :: "nat \<Rightarrow> string" where
  "fmt_bytes n =
     (case unit_loop (f64_of n) 0 of (v, u) \<Rightarrow>
        if u = 0 then show_nat n @ '' B'' else f64_tenths v @ '' '' @ UNITS ! u)"

definition files_done :: "upload_snapshot \<Rightarrow> nat \<Rightarrow> nat" where
  "files_done s file_count =
     (if file_count = 0 \<or> us_bytes_total s = 0 then 0
      else if us_bytes_total s \<le> us_bytes_uploaded s then file_count
      else
        let frac = f64_div (f64_of (us_bytes_uploaded s)) (f64_of (us_bytes_total s))
        in min (f64_trunc (f64_mul frac (f64_of file_count))) (file_count - 1))"

definition rate_clause :: "upload_snapshot \<Rightarrow> string" where
  "rate_clause s =
     (case us_rate s of
        Some r \<Rightarrow> if f64_ge r 1 then '' | '' @ fmt_bytes (min (f64_trunc r) u64_max) @ ''/s'' else []
      | None \<Rightarrow> [])"

definition dedup_clause :: "upload_snapshot \<Rightarrow> string" where
  "dedup_clause s = (if us_bytes_deduped s = 0 then [] else '' (+ '' @ fmt_bytes (us_bytes_deduped s) @ '' deduped)'')"

definition render :: "upload_snapshot \<Rightarrow> nat \<Rightarrow> string" where
  "render s file_count =
     (if us_bytes_total s = 0 then ''Uploading bales: 0% (0/'' @ show_nat file_count @ '')''
      else
        let frac = f64_div (f64_of (us_bytes_uploaded s)) (f64_of (us_bytes_total s));
            frac = (if f64_ge frac 1 then (1, 0) else frac);
            pct = f64_round (f64_mul frac (f64_of 100))
        in ''Uploading bales: '' @ show_nat pct @ ''% ('' @ show_nat (files_done s file_count) @ ''/'' @ show_nat file_count @ ''), '' @
           fmt_bytes (us_bytes_uploaded s) @ rate_clause s)"

definition all_of :: "nat \<Rightarrow> string" where
  "all_of file_count = ''Uploading bales: 100% ('' @ show_nat file_count @ ''/'' @ show_nat file_count @ '')''"

definition summary :: "upload_snapshot \<Rightarrow> nat \<Rightarrow> string" where
  "summary s file_count =
     (if us_bytes_uploaded s = 0 then
        (if us_bytes_deduped s = 0 then all_of file_count @ '', done.''
         else all_of file_count @ '', '' @ fmt_bytes (us_bytes_deduped s) @ '' already on server, done.'')
      else all_of file_count @ '', '' @ fmt_bytes (us_bytes_uploaded s) @ rate_clause s @ dedup_clause s @ '', done.'')"

section \<open>The reporter\<close>

text \<open>One answer of the channel: a message, the other end gone, or the time is up.\<close>

datatype wait_answer = Got bool | Gone | Time_Up

definition CLEAR_EOL :: string where
  "CLEAR_EOL = [CHR 0x1B] @ ''[K''"

definition CR :: string where
  "CR = [CHR 0x0D]"

text \<open>\<^const>\<open>None\<close> while the reporter still waits after the answers so far. \<open>poll k\<close> is the snapshot of the \<open>k\<close>-th call.\<close>

fun redraw :: "(nat \<Rightarrow> upload_snapshot) \<Rightarrow> nat \<Rightarrow> nat \<Rightarrow> wait_answer list \<Rightarrow> string list \<times> nat \<times> bool option" where
  "redraw poll n k [] = ([CR @ render (poll k) n @ CLEAR_EOL], k + 1, None)"
| "redraw poll n k (a # as) =
     (let line = CR @ render (poll k) n @ CLEAR_EOL in
      case a of
        Got s \<Rightarrow> ([line], k + 1, Some s)
      | Gone \<Rightarrow> ([line], k + 1, Some False)
      | Time_Up \<Rightarrow> (case redraw poll n (k + 1) as of (out, k, r) \<Rightarrow> (line # out, k, r)))"

definition final_line :: "(nat \<Rightarrow> upload_snapshot) \<Rightarrow> nat \<Rightarrow> nat \<Rightarrow> bool \<Rightarrow> string" where
  "final_line poll n k success =
     (if success then CR @ summary (poll k) n @ CLEAR_EOL @ [CHR 0x0A] else CR @ CLEAR_EOL)"

definition reporter_tty :: "(nat \<Rightarrow> upload_snapshot) \<Rightarrow> nat \<Rightarrow> wait_answer list \<Rightarrow> string list \<times> bool option" where
  "reporter_tty poll n as =
     (case as of
        [] \<Rightarrow> ([], None)
      | Got s # _ \<Rightarrow> ([final_line poll n 0 s], Some s)
      | Gone # _ \<Rightarrow> ([final_line poll n 0 False], Some False)
      | Time_Up # rest \<Rightarrow>
          (case redraw poll n 0 rest of
             (out, k, None) \<Rightarrow> (out, None)
           | (out, k, Some s) \<Rightarrow> (out @ [final_line poll n k s], Some s)))"

text \<open>Without a terminal the wait has no limit.\<close>

definition reporter_plain :: "(nat \<Rightarrow> upload_snapshot) \<Rightarrow> nat \<Rightarrow> wait_answer list \<Rightarrow> string list \<times> bool option" where
  "reporter_plain poll n as =
     (case dropWhile (\<lambda>a. a = Time_Up) as of
        [] \<Rightarrow> ([], None)
      | Got True # _ \<Rightarrow> ([summary (poll 0) n @ [CHR 0x0A]], Some True)
      | _ \<Rightarrow> ([], Some False))"

definition run_reporter :: "(nat \<Rightarrow> upload_snapshot) \<Rightarrow> nat \<Rightarrow> bool \<Rightarrow> wait_answer list \<Rightarrow> string list \<times> bool option" where
  "run_reporter poll n tty as = (if tty then reporter_tty poll n as else reporter_plain poll n as)"

section \<open>The handle\<close>

text \<open>Whether the sender and the thread are still held, and what has been sent.\<close>

record upload_progress =
  up_stop :: bool
  up_handle :: bool
  up_sent :: "wait_answer list"

definition progress_start :: upload_progress where
  "progress_start = \<lparr>up_stop = True, up_handle = True, up_sent = []\<rparr>"

definition stop_with :: "bool \<Rightarrow> upload_progress \<Rightarrow> upload_progress" where
  "stop_with success p =
     (let p = (if up_stop p then p\<lparr>up_stop := False, up_sent := up_sent p @ [Got success, Gone]\<rparr> else p)
      in p\<lparr>up_handle := False\<rparr>)"

definition progress_drop :: "upload_progress \<Rightarrow> upload_progress" where
  "progress_drop p = stop_with False p"

text \<open>\<open>finish\<close> consumes the handle, so the handle is dropped at its end.\<close>

definition progress_finish :: "upload_progress \<Rightarrow> upload_progress" where
  "progress_finish p = progress_drop (stop_with True p)"

section \<open>What is shown\<close>

lemma bit_len_1 [simp]: "bit_len (Suc 0) = 1"
  by (simp add: bit_len.simps [of "Suc 0"] bit_len.simps [of 0])

lemma bit_len_bounds: "0 < n \<Longrightarrow> 2 ^ (bit_len n - 1) \<le> n \<and> n < 2 ^ bit_len n \<and> 0 < bit_len n"
proof (induction n rule: bit_len.induct)
  case (1 n)
  show ?case
  proof (cases "n div 2 = 0")
    case True
    with 1(2) have "n = 1" by simp
    then show ?thesis by simp
  next
    case False
    with 1 have IH: "2 ^ (bit_len (n div 2) - 1) \<le> n div 2" "n div 2 < 2 ^ bit_len (n div 2)" "0 < bit_len (n div 2)" by auto
    have "(2::nat) ^ bit_len (n div 2) = 2 * 2 ^ (bit_len (n div 2) - 1)" using IH(3) by (cases "bit_len (n div 2)") simp_all
    with IH have "2 ^ bit_len (n div 2) \<le> n" "n < 2 * 2 ^ bit_len (n div 2)" by linarith+
    with 1(2) show ?thesis by (simp add: bit_len.simps [of n])
  qed
qed

lemma bit_len_le: "0 < n \<Longrightarrow> n < 2 ^ k \<Longrightarrow> bit_len n \<le> k"
  using bit_len_bounds [of n] power_less_imp_less_exp [of "2::nat" "bit_len n - 1" k] by linarith

text \<open>Numbers below \<open>2 ^ 53\<close> are doubles.\<close>

lemma f64_of_exact:
  assumes "0 < n" and "n < 2 ^ 53"
  shows "f64_of n = (n * 2 ^ (53 - bit_len n), - int (53 - bit_len n))"
proof -
  let ?k = "53 - bit_len n"
  note len = bit_len_bounds [OF assms(1)] bit_len_le [OF assms]
  have one: "bit_len 1 = 1" by simp
  have s: "53 - (int (bit_len n) - int (bit_len 1)) = int (?k + 1)" using len one by simp
  have "(2::nat) ^ 53 = 2 ^ (bit_len n - 1) * 2 ^ (?k + 1)" unfolding power_add [symmetric] using len by simp
  then have big: "(2::nat) ^ 53 \<le> n * 2 ^ (?k + 1)" using len(1) mult_le_mono1 by (metis)
  have sc: "scaled n (int (?k + 1)) = (n * 2 ^ (?k + 1), 1)" "scaled n (int ?k) = (n * 2 ^ ?k, 1)" "int (?k + 1) - 1 = int ?k"
    by (simp_all add: scaled_def nat_add_distrib)
  show ?thesis
    unfolding f64_of_def f64_ratio_def s Let_def sc prod.case using assms(1) big by (simp only: sc prod.case if_True if_False simp_thms mult_1_right mult_1 half_even_def div_by_1 mod_by_1 Let_def) simp
qed

lemma f64_ge_of: "n < 2 ^ 53 \<Longrightarrow> f64_ge (f64_of n) c \<longleftrightarrow> c \<le> n"
proof (cases "n = 0")
  case True
  then show ?thesis by (simp add: f64_of_def f64_ratio_def f64_ge_def scaled_def)
next
  case False
  assume "n < 2 ^ 53"
  with False have "f64_of n = (n * 2 ^ (53 - bit_len n), - int (53 - bit_len n))" by (intro f64_of_exact) simp_all
  then show ?thesis by (simp add: f64_ge_def scaled_def nat_minus_as_int)
qed

lemma fmt_bytes_small: "n < 1024 \<Longrightarrow> fmt_bytes n = show_nat n @ '' B''"
  by (simp add: fmt_bytes_def unit_loop.simps f64_ge_of)

text \<open>The live line counts a file as done only when all bytes are sent.\<close>

lemma files_done_less:
  "us_bytes_uploaded s < us_bytes_total s \<Longrightarrow> 0 < file_count \<Longrightarrow> files_done s file_count < file_count"
  by (auto simp: files_done_def Let_def)

lemma files_done_le: "files_done s file_count \<le> file_count"
  by (auto simp: files_done_def Let_def)

text \<open>The reporter ends as soon as the channel has anything but a time-out, and it ends with what it got.\<close>

definition outcome_of :: "wait_answer list \<Rightarrow> bool option" where
  "outcome_of as = (case dropWhile (\<lambda>a. a = Time_Up) as of [] \<Rightarrow> None | Got s # _ \<Rightarrow> Some s | _ \<Rightarrow> Some False)"

lemma redraw_outcome: "redraw poll n k as = (out, k', r) \<Longrightarrow> r = outcome_of as"
proof (induction poll n k as arbitrary: out k' rule: redraw.induct)
  case (2 poll n k a as)
  then show ?case by (cases a) (auto simp: outcome_of_def Let_def split: prod.splits)
qed (simp add: outcome_of_def)

lemma redraw_polls: "redraw poll n k as = (out, k', r) \<Longrightarrow> k < k'"
proof (induction poll n k as arbitrary: out rule: redraw.induct)
  case (2 poll n k a as)
  then show ?case by (cases a) (fastforce simp: Let_def split: prod.splits)+
qed simp

lemma redraw_lines:
  "redraw poll n k as = (out, k', r) \<Longrightarrow> l \<in> set out \<Longrightarrow> \<exists>j. k \<le> j \<and> j < k' \<and> l = CR @ render (poll j) n @ CLEAR_EOL"
proof (induction poll n k as arbitrary: out k' rule: redraw.induct)
  case (2 poll n k a as)
  show ?case
  proof (cases a)
    case Time_Up
    obtain out' where r: "redraw poll n (k + 1) as = (out', k', r)" "out = (CR @ render (poll k) n @ CLEAR_EOL) # out'"
      using 2(2) Time_Up by (auto simp: Let_def split: prod.splits)
    have "k < k'" using redraw_polls [OF r(1)] by simp
    show ?thesis
    proof (cases "l \<in> set out'")
      case True
      from 2(1) [OF refl Time_Up r(1) this] obtain j where "k + 1 \<le> j" "j < k'" "l = CR @ render (poll j) n @ CLEAR_EOL" by blast
      then show ?thesis by (intro exI [of _ j]) simp
    next
      case False
      with r(2) 2(3) \<open>k < k'\<close> show ?thesis by (intro exI [of _ k]) simp
    qed
  qed (use 2(2,3) in \<open>auto simp: Let_def\<close>)
qed auto

text \<open>On success the last thing printed is the summary, with or without a terminal; on failure there is none: a terminal's line is
  cleared, also when nothing was drawn, and without a terminal nothing at all is printed.\<close>

lemma reporter_plain_outcome: "snd (reporter_plain poll n as) = outcome_of as"
proof (cases "dropWhile (\<lambda>a. a = Time_Up) as")
  case (Cons a rest)
  then show ?thesis by (cases a) (auto simp: reporter_plain_def outcome_of_def split: bool.splits)
qed (simp only: reporter_plain_def outcome_of_def list.case snd_conv)

lemma reporter_tty_outcome: "snd (reporter_tty poll n as) = outcome_of as"
proof (cases as)
  case (Cons a rest)
  obtain out k r where "redraw poll n 0 rest = (out, k, r)" by (metis prod_cases3)
  moreover from redraw_outcome [OF this] have "outcome_of (Time_Up # rest) = r" by (simp add: outcome_of_def)
  ultimately show ?thesis using Cons
    by (cases a; cases r) (simp_all add: reporter_tty_def, simp_all add: outcome_of_def)
qed (simp add: reporter_tty_def outcome_of_def)

lemma reporter_ends: "snd (run_reporter poll n tty as) = outcome_of as"
  by (simp add: run_reporter_def reporter_tty_outcome reporter_plain_outcome)

lemma reporter_success_line:
  assumes "run_reporter poll n tty as = (out, Some True)"
  shows "\<exists>k. last out = (if tty then CR @ summary (poll k) n @ CLEAR_EOL @ [CHR 0x0A] else summary (poll k) n @ [CHR 0x0A])"
  using assms
  by (auto simp: run_reporter_def reporter_tty_def reporter_plain_def final_line_def
      split: if_splits prod.splits option.splits list.splits wait_answer.splits bool.splits)

lemma reporter_failure_lines:
  assumes "run_reporter poll n tty as = (out, Some False)"
  shows "(if tty then \<exists>ls. out = ls @ [CR @ CLEAR_EOL] \<and> (\<forall>l \<in> set ls. \<exists>j. l = CR @ render (poll j) n @ CLEAR_EOL) else out = [])"
proof (cases "tty \<and> (\<exists>rest. as = Time_Up # rest)")
  case True
  then obtain rest ls k where "as = Time_Up # rest" "redraw poll n 0 rest = (ls, k, Some False)" "out = ls @ [CR @ CLEAR_EOL]"
    using assms by (auto simp: run_reporter_def reporter_tty_def final_line_def split: prod.splits option.splits)
  with redraw_lines [of poll n 0 rest] True show ?thesis by auto
next
  case False
  with assms show ?thesis
    by (auto simp: run_reporter_def reporter_tty_def reporter_plain_def final_line_def
        split: if_splits prod.splits option.splits list.splits wait_answer.splits bool.splits)
qed

text \<open>A handle sends exactly one message: success if it is finished, and otherwise failure when it is dropped.\<close>

lemma handle_sends:
  "outcome_of (up_sent (progress_finish progress_start)) = Some True"
  "outcome_of (up_sent (progress_drop progress_start)) = Some False"
  "up_sent (progress_finish progress_start) = [Got True, Gone]"
  by (simp_all add: progress_finish_def progress_drop_def stop_with_def progress_start_def outcome_of_def)

lemma one_mebibyte_less_one: "fmt_bytes 1048575 = ''1024.0 KiB''"
  by (simp add: fmt_bytes_def unit_loop.simps f64_of_def f64_div_def f64_ratio_def f64_ge_def scaled_def half_even_def Let_def
      bit_len.simps f64_tenths_def UNITS_def show_nat_def show_radix.simps digit_chr_def)
    (simp add: char_of_def bit_0)

end
