(* ===== verification/Winfsp.thy ===== *)
theory Winfsp
  imports Mount
begin

text \<open>
  The start of the WinFsp backend, \<open>git-bale/src/mount/backend/winfsp.rs\<close>, for 64-bit Windows, and the messages of both backends when
  their library is missing.
\<close>

definition WINFSP_DLL :: string where
  "WINFSP_DLL = ''winfsp-x64.dll''"

text \<open>\<open>join\<close> of a relative path on Windows.\<close>

definition win_join :: "string \<Rightarrow> string \<Rightarrow> string" where
  "win_join a b =
     (if a = [] \<or> last a \<in> {CHR 0x5C, CHR ''/''} \<or> length a = 2 \<and> last a = CHR '':'' then a @ b else a @ [CHR 0x5C] @ b)"

definition winfsp_candidates :: "(string \<Rightarrow> string option) \<Rightarrow> string list" where
  "winfsp_candidates var =
     [WINFSP_DLL] @
     map (\<lambda>pf. win_join (win_join (win_join pf ''WinFsp'') ''bin'') WINFSP_DLL)
       (List.map_filter var [''ProgramFiles(x86)'', ''ProgramW6432'', ''ProgramFiles'']) @
     [win_join (''C:'' @ [CHR 0x5C] @ ''Program Files (x86)'' @ [CHR 0x5C] @ ''WinFsp'' @ [CHR 0x5C] @ ''bin'') WINFSP_DLL,
      win_join (''C:'' @ [CHR 0x5C] @ ''Program Files'' @ [CHR 0x5C] @ ''WinFsp'' @ [CHR 0x5C] @ ''bin'') WINFSP_DLL]"

definition win_ensure_available :: "(string \<Rightarrow> string option) \<Rightarrow> (string \<Rightarrow> string option) \<Rightarrow> (string \<times> string) list + unit" where
  "win_ensure_available var load = rbind (first_library load (winfsp_candidates var)) (\<lambda>_. Inr ())"

definition load_winfsp :: "(string \<Rightarrow> string option) \<Rightarrow> (string \<Rightarrow> string option) \<Rightarrow> string + string" where
  "load_winfsp var load =
     rmap_err (\<lambda>tried. ''WinFsp disappeared between availability check and mount. Tried: '' @
         join_text ''; '' (map (\<lambda>(name, e). name @ '': '' @ e) tried))
       (first_library load (winfsp_candidates var))"

record winfsp_env =
  wf_point :: string
  wf_utf8 :: bool
  wf_var :: "string \<Rightarrow> string option"
  wf_load :: "string \<Rightarrow> string option"
  wf_symbol :: "string option"
  wf_nul :: "string option"
  wf_main :: "string list \<Rightarrow> mount_fs \<Rightarrow> int \<times> mount_fs"

definition winfsp_argv :: "string \<Rightarrow> string list" where
  "winfsp_argv point = [''git-bale-mount'', ''-f'', ''-o'', ''uid=-1,gid=-1'', point]"

definition winfsp_mount :: "winfsp_env \<Rightarrow> mount_fs \<Rightarrow> mount_fs option \<Rightarrow> (string + unit) \<times> mount_fs option" where
  "winfsp_mount W vfs active =
     (if active \<noteq> None then (Inl ''mount: another mount is already active in this process'', active)
      else case rbind (with_context ''loading WinFsp'' (load_winfsp (wf_var W) (wf_load W))) (\<lambda>_.
                case wf_symbol W of
                  Some e \<Rightarrow> Inl (''looking up fsp_fuse_main_real in winfsp DLL: '' @ e)
                | None \<Rightarrow>
                    if \<not> wf_utf8 W then Inl (''mount point path is not UTF-8: '' @ wf_point W)
                    else (case wf_nul W of Some e \<Rightarrow> Inl (''CString for mount point: '' @ e) | None \<Rightarrow> Inr ())) of
             Inl e \<Rightarrow> (Inl e, Some vfs)
           | Inr _ \<Rightarrow>
               (case wf_main W (winfsp_argv (wf_point W)) vfs of (rc, vfs') \<Rightarrow>
                  (if rc \<noteq> 0
                   then Inl (''fsp_fuse_main_real returned status '' @ (if rc < 0 then ''-'' else []) @ show_nat (nat \<bar>rc\<bar>) @
                     ''; check that the WinFsp driver is installed and the mount point ('' @ wf_point W @
                     '') is a free drive letter or a non-existent directory'')
                   else Inr (), Some vfs')))"

section \<open>Missing libraries\<close>

definition tried_lines :: "(string \<times> string) list \<Rightarrow> string" where
  "tried_lines tried = concat (map (\<lambda>(name, e). ''  - '' @ name @ '': '' @ e @ [CHR 0x0A]) tried)"

text \<open>A bullet in UTF-8.\<close>

definition bullet :: string where
  "bullet = ''  '' @ [CHR 0xE2, CHR 0x80, CHR 0xA2] @ '' ''"

definition libfuse_unavailable_text :: "(string \<times> string) list \<Rightarrow> string" where
  "libfuse_unavailable_text tried =
     ''git-bale mount-diff needs libfuse at runtime, but it couldn't be loaded.'' @ [CHR 0x0A, CHR 0x0A] @
     ''Install one of:'' @ [CHR 0x0A] @
     bullet @ ''Debian/Ubuntu:  sudo apt install libfuse2'' @ [CHR 0x0A] @
     bullet @ ''Fedora/RHEL:    sudo dnf install fuse-libs'' @ [CHR 0x0A] @
     bullet @ ''Arch:           sudo pacman -S fuse2'' @ [CHR 0x0A] @
     [CHR 0x0A] @ ''Tried these library names:'' @ [CHR 0x0A] @ tried_lines tried"

definition winfsp_unavailable_text :: "(string \<times> string) list \<Rightarrow> string" where
  "winfsp_unavailable_text tried =
     ''git-bale mount needs WinFsp at runtime, but '' @ WINFSP_DLL @ '' couldn't be loaded.'' @ [CHR 0x0A, CHR 0x0A] @
     ''Install WinFsp:'' @ [CHR 0x0A] @
     bullet @ ''winget install WinFsp.WinFsp'' @ [CHR 0x0A] @
     bullet @ ''or download from https://winfsp.dev/'' @ [CHR 0x0A] @
     [CHR 0x0A] @ ''Tried these locations:'' @ [CHR 0x0A] @ tried_lines tried"

section \<open>Probing and loading\<close>

lemma first_library_Inr:
  "first_library load names = Inr n \<Longrightarrow> n \<in> set names \<and> load n = None"
  by (induction load names rule: first_library.induct) (auto simp: rmap_err_eq_Inr split: option.splits)

lemma first_library_Inl:
  "first_library load names = Inl tried \<Longrightarrow> map (\<lambda>(n, e). (n, Some e)) tried = map (\<lambda>n. (n, load n)) names"
proof (induction names arbitrary: tried)
  case (Cons name names)
  obtain e rest where "load name = Some e" "first_library load names = Inl rest" "tried = (name, e) # rest"
    using Cons.prems by (auto simp: rmap_err_def split: option.splits sum.splits)
  with Cons.IH [of rest] show ?case by simp
qed simp

lemma first_library_fails: "first_library load names = Inl tried \<Longrightarrow> n \<in> set names \<Longrightarrow> load n \<noteq> None"
  using arg_cong [OF first_library_Inl, of load names tried set] by (force simp: set_eq_iff image_iff)

text \<open>The probe succeeds exactly if some candidate loads, and otherwise names all of them with their errors; the load that follows
  agrees with it as long as the libraries stay.\<close>

lemma win_probe:
  "win_ensure_available var load = Inr () \<longleftrightarrow> (\<exists>n \<in> set (winfsp_candidates var). load n = None)"
proof (cases "first_library load (winfsp_candidates var)")
  case (Inl tried)
  with first_library_fails [OF Inl] have "\<not> (\<exists>n \<in> set (winfsp_candidates var). load n = None)" by blast
  with Inl show ?thesis by (simp add: win_ensure_available_def)
next
  case (Inr n)
  with first_library_Inr [OF Inr] show ?thesis by (auto simp: win_ensure_available_def)
qed

lemma win_probe_then_load: "win_ensure_available var load = Inr () \<Longrightarrow> \<exists>n. load_winfsp var load = Inr n \<and> load n = None"
  using first_library_Inr by (cases "first_library load (winfsp_candidates var)") (auto simp: win_ensure_available_def load_winfsp_def)

text \<open>A process mounts at most once, and a refused second mount leaves the first one alone.\<close>

lemma winfsp_mounts_once:
  "active \<noteq> None \<Longrightarrow> snd (winfsp_mount W vfs active) = active \<and> (\<exists>e. fst (winfsp_mount W vfs active) = Inl e)"
  "snd (winfsp_mount W vfs None) \<noteq> None"
  by (auto simp: winfsp_mount_def split: sum.splits prod.splits)

end
