(* ===== verification/Permissions.thy ===== *)
theory Permissions
  imports Staging
begin

text \<open>
  The permissions of the client's directories on Unix, \<open>git-bale/src/fs_util.rs\<close>. A directory tree is a map from paths to what
  \<open>stat\<close> tells: whether the entry is a directory, and its mode. The faults of the calls are parameters.
\<close>

record entry_stat =
  es_dir :: bool
  es_mode :: nat

type_synonym modes = "path \<rightharpoonup> entry_stat"

record perm_env =
  pe_mkdir :: "io_error option"
  pe_stat :: "path \<Rightarrow> io_error option"
  pe_chmod :: "path \<Rightarrow> io_error option"
  pe_new_mode :: nat

text \<open>The permission bits, and \<open>0o700\<close>.\<close>

definition perm_bits :: "nat \<Rightarrow> nat" where
  "perm_bits mode = mode mod 512"

definition PRIVATE :: nat where
  "PRIVATE = 448"

definition stat_entry :: "perm_env \<Rightarrow> path \<Rightarrow> modes \<Rightarrow> io_error + entry_stat" where
  "stat_entry E p md = (case pe_stat E p of Some e \<Rightarrow> Inl e | None \<Rightarrow> ok_or IoNotFound (md p))"

definition set_mode :: "perm_env \<Rightarrow> path \<Rightarrow> nat \<Rightarrow> modes \<Rightarrow> (io_error + unit) \<times> modes" where
  "set_mode E p mode md =
     (case pe_chmod E p of
        Some e \<Rightarrow> (Inl e, md)
      | None \<Rightarrow> (case md p of None \<Rightarrow> (Inl IoNotFound, md) | Some s \<Rightarrow> (Inr (), md(p \<mapsto> s\<lparr>es_mode := mode\<rparr>))))"

definition restrict_bale_perms :: "perm_env \<Rightarrow> path \<Rightarrow> modes \<Rightarrow> (io_error + unit) \<times> modes" where
  "restrict_bale_perms E bale md =
     (case stat_entry E bale md of
        Inl e \<Rightarrow> (Inl e, md)
      | Inr s \<Rightarrow> if perm_bits (es_mode s) \<noteq> PRIVATE then set_mode E bale PRIVATE md else (Inr (), md))"

text \<open>\<open>create_dir_all\<close>: every prefix that is missing becomes a directory.\<close>

definition make_dirs :: "perm_env \<Rightarrow> path \<Rightarrow> modes \<Rightarrow> modes" where
  "make_dirs E p md =
     fold (\<lambda>n md. if md (take n p) = None then md(take n p \<mapsto> \<lparr>es_dir = True, es_mode = pe_new_mode E\<rparr>) else md)
       [1..<length p + 1] md"

definition create_bale_subdir :: "perm_env \<Rightarrow> path \<Rightarrow> string \<Rightarrow> modes \<Rightarrow> (io_error + unit) \<times> modes" where
  "create_bale_subdir E git_dir subdir md =
     (let bale = git_dir @ [''bale'']; sub = bale @ [subdir] in
      case pe_mkdir E of
        Some e \<Rightarrow> (Inl e, md)
      | None \<Rightarrow> restrict_bale_perms E bale (make_dirs E sub md))"

definition restrict_user_cache_dir :: "perm_env \<Rightarrow> path \<Rightarrow> modes \<Rightarrow> (io_error + unit) \<times> modes" where
  "restrict_user_cache_dir E dir md =
     (let step1 =
        (case stat_entry E dir md of
           Inl _ \<Rightarrow> (Inr (), md)
         | Inr s \<Rightarrow> if es_dir s \<and> perm_bits (es_mode s) \<noteq> PRIVATE then set_mode E dir PRIVATE md else (Inr (), md))
      in case step1 of
           (Inl e, md) \<Rightarrow> (Inl e, md)
         | (Inr _, md) \<Rightarrow>
             let parent = butlast dir in
             if dir \<noteq> [] \<and> parent \<noteq> [] \<and> last parent = ''bale'' then restrict_bale_perms E parent md else (Inr (), md))"

section \<open>What is private afterwards\<close>

lemma private_bits [simp]: "perm_bits PRIVATE = PRIVATE"
  by (simp add: perm_bits_def PRIVATE_def)

definition is_private :: "path \<Rightarrow> modes \<Rightarrow> bool" where
  "is_private p md \<longleftrightarrow> (\<exists>s. md p = Some s \<and> perm_bits (es_mode s) = PRIVATE)"

lemma set_mode_ok:
  "set_mode E p PRIVATE md = (Inr (), md') \<Longrightarrow> is_private p md' \<and> (\<forall>q. q \<noteq> p \<longrightarrow> md' q = md q)"
  by (auto simp: set_mode_def is_private_def split: option.splits)

lemma restrict_bale_perms_ok:
  assumes "restrict_bale_perms E bale md = (Inr (), md')"
  shows "is_private bale md' \<and> (\<forall>q. q \<noteq> bale \<longrightarrow> md' q = md q)"
proof (cases "stat_entry E bale md")
  case (Inr s)
  have "md bale = Some s" using Inr by (auto simp: stat_entry_def ok_or_eq_Inr split: option.splits)
  with assms Inr set_mode_ok [of E bale md md'] show ?thesis
    by (auto simp: restrict_bale_perms_def is_private_def split: if_splits)
qed (use assms in \<open>simp add: restrict_bale_perms_def\<close>)

text \<open>Once a subdirectory was created, nobody else may enter the directory that holds it.\<close>

lemma created_subdir_is_private:
  "create_bale_subdir E git_dir subdir md = (Inr (), md') \<Longrightarrow> is_private (git_dir @ [''bale'']) md'"
  using restrict_bale_perms_ok by (auto simp: create_bale_subdir_def Let_def split: option.splits)

lemma make_dirs_other:
  assumes "(\<forall>n. 0 < n \<longrightarrow> q \<noteq> take n p) \<or> md q \<noteq> None"
  shows "make_dirs E p md q = md q"
proof -
  have "fold (\<lambda>n md. if md (take n p) = None then md(take n p \<mapsto> \<lparr>es_dir = True, es_mode = pe_new_mode E\<rparr>) else md) ns md q = md q"
    if "(\<forall>n \<in> set ns. q \<noteq> take n p) \<or> md q \<noteq> None" for ns md
    using that by (induction ns arbitrary: md) (auto split: if_splits)
  moreover have "(\<forall>n \<in> set [1..<length p + 1]. q \<noteq> take n p) \<or> md q \<noteq> None"
    using assms by (metis One_nat_def Suc_le_eq atLeastLessThan_iff set_upt)
  ultimately show ?thesis unfolding make_dirs_def by blast
qed

text \<open>A cache directory that can be examined is private afterwards, as is the \<open>bale\<close> directory around it; every other entry keeps
  its mode.\<close>

lemma user_cache_is_private:
  assumes "restrict_user_cache_dir E dir md = (Inr (), md')" and "md dir = Some s" and "es_dir s" and "pe_stat E dir = None"
  shows "is_private dir md'" and "q \<noteq> dir \<Longrightarrow> q \<noteq> butlast dir \<Longrightarrow> md' q = md q"
    and "butlast dir \<noteq> [] \<Longrightarrow> last (butlast dir) = ''bale'' \<Longrightarrow> is_private (butlast dir) md'"
proof -
  have stat: "stat_entry E dir md = Inr s" using assms(2,4) by (simp add: stat_entry_def)
  obtain md1 where one: "is_private dir md1" "\<forall>q. q \<noteq> dir \<longrightarrow> md1 q = md q"
    and two: "(if dir \<noteq> [] \<and> butlast dir \<noteq> [] \<and> last (butlast dir) = ''bale'' then restrict_bale_perms E (butlast dir) md1
      else (Inr (), md1)) = (Inr (), md')"
  proof (cases "perm_bits (es_mode s) = PRIVATE")
    case True
    with assms stat that [of md] show ?thesis by (auto simp: restrict_user_cache_dir_def is_private_def Let_def)
  next
    case False
    obtain r md1 where sm: "set_mode E dir PRIVATE md = (r, md1)" by fastforce
    show ?thesis
    proof (cases r)
      case (Inr u)
      with sm have "set_mode E dir PRIVATE md = (Inr (), md1)" by simp
      with set_mode_ok [OF this] assms(1,3) stat False that [of md1] show ?thesis
        by (auto simp: restrict_user_cache_dir_def Let_def)
    qed (use assms(1,3) stat False sm in \<open>simp add: restrict_user_cache_dir_def Let_def\<close>)
  qed
  note parent = restrict_bale_perms_ok [of E "butlast dir" md1 md']
  have ne: "butlast dir \<noteq> dir" if "butlast dir \<noteq> []" using that by (metis append_butlast_last_id append_self_conv butlast.simps(1) not_Cons_self2)
  show "is_private dir md'" using one two parent ne by (auto simp: is_private_def split: if_splits)
  show "q \<noteq> dir \<Longrightarrow> q \<noteq> butlast dir \<Longrightarrow> md' q = md q" using one two parent by (auto split: if_splits)
  show "butlast dir \<noteq> [] \<Longrightarrow> last (butlast dir) = ''bale'' \<Longrightarrow> is_private (butlast dir) md'"
    using two parent by (auto split: if_splits)
qed

end
