(* ===== verification/Spec2Isabelle.thy ===== *)
theory Spec2Isabelle
  imports Wire Shard_Format Xorb_Format Blob_Mem Blob_Fs Meta_Accounting Meta_Layouts Authz Http_Server
    Http_Contract Server Server_Example Stale_Layout Http_Transfer Http_Guards Http_Access
    Pktline Pointer Clean_Cache Staging Cache_Files Gc Filter_Process Filter_Session Filter_Example
    Vfs_Tree Vfs_Lazy Reader_Lru Reader_Content Fuse_Content Mount_Example Prune_Safe Prune_Example
    Resolver_Trust Push_Safe Push_Example Pg_Concurrent Pg_Example
    Install_Safe Track Server_Start Router_Example Progress Winfsp Permissions
begin

text \<open>
  Bale for Git keeps large files outside the repository: Git stores small pointer files, the content is cut into chunks that are
  packed into xorbs, and shards tell which chunk ranges make up a file. This development models the server that stores xorbs and
  shards (the crates \<open>bale-server-*\<close>) and the client that Git runs as a filter (the crate \<open>git-bale\<close>), and proves what they promise.
  Source paths below are under \<open>src/crates\<close>.

  \<^bold>\<open>Conventions.\<close> A Rust \<open>str\<close> is a HOL string of its bytes, bytes are lists of 8-bit words, \<open>Result\<close> is a sum with the error on the
  left, a panic or a call that does not return is a value of its own. Integers are words where wrap-around matters, and otherwise
  natural numbers with the bound written out. Third-party code (decompression, content hashes, JSON, JWT, \<open>xet-data\<close>, \<open>gix\<close>), the
  clock and the answers of the operating system are arguments, so that every fault the code handles is an input; what the theorems
  need of them are named hypotheses, and a witness runs each theorem with concrete functions. Log lines are left out.

  \<^bold>\<open>Server.\<close>
  \<^item> Prelude, Core_Types: shared lemmas on lists, results, numerals and texts; hashes, domain types, the error type and the three
    traits as records of operations (\<open>bale-server-core\<close>). The locales there are the contracts of blob stores and metadata stores.
  \<^item> Wire (\<open>bale-server-wire\<close>): the textual form of hashes, with its decoder as exact inverse, and the JSON bodies.
  \<^item> Shard_Format, Xorb_Format (\<open>bale-server-shard\<close>): the shard parser and serializer as mutual inverses, the frame scanner, the
    verification of an uploaded body and the decompression of a range of its chunks.
  \<^item> Blob_Mem, Blob_Fs, Blob_S3 (\<open>bale-server-storage-mem\<close>, \<open>-fs\<close>, \<open>-s3\<close>): the three blob stores; the budget of the first under all
    interleavings of its compare-and-swap loop, the write protocol of the second under every fault, the third on a bucket whose
    requests may fail or lose their answer. All of them interpret the contract of blob stores.
  \<^item> Meta_Sqlite, Meta_Accounting, Meta_Layouts (\<open>bale-server-meta-common\<close>, \<open>-meta-sqlite\<close>): the tables with every statement as a
    function on them, the invariant of all reachable databases, lookups after registrations, quotas and usage.
  \<^item> Meta_Postgres, Pg_Concurrent, Pg_Example (\<open>-meta-postgres\<close>): the same trait on PostgreSQL, and registrations that run at the same
    time on several connections as a step relation over statements and locks: every run has the result of some serial order, ordered
    registrations make progress, and two in opposite order can deadlock.
  \<^item> Authz (\<open>bale-server-tokens\<close>, \<open>-authz-mem\<close>, \<open>-authz-http\<close>): minting and verifying tokens, the access check.
  \<^item> Http_Server (\<open>bale-server-http\<close>): every handler, on any stores that fill the records of operations. Http_Contract has the lemmas
    that hold for all stores that satisfy the contracts.
  \<^item> Server: the handlers on the blob stores and the metadata stores, which interpret the contract of Http_Contract; and, on the
    in-memory blob store and the SQLite store, as a transition system of uploads and quota changes.
    Its invariant gives that a download streams the bytes the terms name, and that it does so without database faults.
    Server_Example, Stale_Layout, Http_Transfer, Http_Guards, Http_Access: concrete histories, the one way the invariant can break,
    signed transfer URLs and reconstruction answers, the checks on shards, and access control.
  \<^item> Router, Router_Example (\<open>bale-server-http\<close>): the routes with their layers; only authorized requests write, and whatever requests
    arrive, what they leave behind is one of the histories of Server.
  \<^item> Server_Start (\<open>bale-server-bin/src/main.rs\<close>, \<open>-authz-http\<close>): the settings, their checks, and the stores and the authorization they
    select; a server that starts has secrets of full length and enforces the grants it was given.

  \<^bold>\<open>Client.\<close>
  \<^item> Client_Io: byte sources and sinks with faults, and the sequencing of fallible steps on a state.
  \<^item> Pktline, Pointer (\<open>git-bale/src/pktline.rs\<close>, \<open>pointer.rs\<close>): the packet framing and the pointer files, each with its round trip.
  \<^item> Clean_Cache (\<open>clean_cache.rs\<close>): the chunk index and its two verification routines; the threaded one as a step relation whose
    every run ends with the answer of the sequential one.
  \<^item> Staging, Cache_Files (\<open>staging.rs\<close>, \<open>store.rs\<close>, \<open>clean_cache.rs\<close>, \<open>manifest_cache.rs\<close>): a file system as an association list from
    paths to contents with times, the markers of staged files, and the two on-disk caches.
  \<^item> Gc (\<open>gc.rs\<close>): reachability over index and history, computed with early exits, equals its set-theoretic description;
    reconciliation keeps what is live or young.
  \<^item> Filter_Process (\<open>filter_process.rs\<close>, \<open>local_reconstruct.rs\<close>): the session with Git. Filter_Session: requests are consumed exactly,
    what was cleaned is smudged back, the watchdog of cold downloads always answers; and two ways a session goes wrong.
    Filter_Example runs these on concrete sessions.
  \<^item> Config, Install, Install_Safe, Track (\<open>config.rs\<close>, \<open>store.rs\<close>, \<open>remote_manifest.rs\<close>, \<open>install.rs\<close>, \<open>track.rs\<close>, \<open>main.rs\<close>): the rules for finding
    a setting, the lock of a store, Git's configuration and the managed hooks, tracked patterns. Hooks of the user are never changed,
    and what \<open>init-local\<close> writes is what the next load reads.
  \<^item> Permissions, Progress (\<open>fs_util.rs\<close>, \<open>progress.rs\<close>): private directories, and the progress line of a push.
  \<^item> Remote, Resolver, Resolver_Trust (\<open>remote.rs\<close>, \<open>resolver.rs\<close>): addresses of remotes with their round trip; finding a server and a token
    from the configuration or from the forge, over HTTP with the credential helper or over SSH; to whom credentials go, and that
    a refresher gives up.
  \<^item> Push_Pending, Push_Safe, Push_Example (\<open>push_pending.rs\<close>): what a push has to bring to the server and how it gets there. After success
    everything staged and everything the pushed commits introduce is on the server, and only delivered files leave the staging area.
  \<^item> Prune, Prune_Safe, Prune_Example (\<open>store.rs\<close>, \<open>prune.rs\<close>): the registry of a shared store and its compaction. After success every file
    some repository needs is kept, after a failure everything.
  \<^item> Vfs, Vfs_Tree, Vfs_Lazy (\<open>mount/diff.rs\<close>, \<open>mount/vfs.rs\<close>): the comparison of two commits and the inode tables built from it or filled
    on access; they are trees, and a lazily filled one shows its commit. Reader, Reader_Lru, Reader_Content (\<open>mount/reader.rs\<close>): sizes,
    handles, the bounded cache, and that what is read is the content. Fuse, Mount, Winfsp, Fuse_Content, Mount_Example (\<open>mount/backend/\<close>,
    \<open>mount/mod.rs\<close>): the callbacks of libfuse and WinFsp, which interpret one contract, and both commands; a path of a mount reads as
    the file of the commit.

  \<^bold>\<open>Loops and bounds.\<close> Every loop is a total function: parsers and packet loops recurse on the bytes that are left, the
  compare-and-swap loop and the worker threads are step relations, and the watchdog runs on the list of events it observes, where
  \<^const>\<open>None\<close> means that the events so far do not end the wait. No fuel is used. The size limits of the code (64 MiB shards, packet
  payloads of 65516 bytes, payload caps, per-term limits) are constants of the model.

  \<^bold>\<open>Not modelled.\<close> Log lines and the counters of uploads have no effect on what is stored or answered. The parsing of command
  lines, the socket, the serving loop and the signals are calls of libraries, and so are opening the databases and creating their
  schema. The tables of C function pointers and the C structures of the mount backends are glue. Of code that exists once per platform
  the Unix variant is modelled, the WinFsp backend apart. Directories of the client's file system exist only through the files in them,
  so creating and removing empty ones has no counterpart outside Permissions.
\<close>

end
